(* ===== verification/PsxPrelude.thy ===== *)
theory PsxPrelude
  imports Main "HOL-Library.Word" "HOL-Library.Multiset" "HOL-Library.Signed_Division"
begin

text \<open>
  Shared vocabulary of the development: the machine integers of \<open>common/Defs.hpp\<close>, the
  faults that stop the emulator, sequencing of fallible steps, bit fields of packed unions,
  array swaps and the generic lemmas the component theories use.
\<close>

unbundle bit_operations_syntax

named_theorems fault_simps \<open>unfolding of fallible sequencing\<close>
named_theorems field_bits \<open>bits of bit-field reads and writes\<close>

section \<open>Machine integers\<close>

type_synonym u8 = "8 word"
type_synonym u16 = "16 word"
type_synonym u32 = "32 word"
type_synonym u64 = "64 word"

text \<open>
  Sign extension of the low bits of a register (\<open>sign_extend\<close> of \<open>common/Macros.hpp\<close>
  and the casts \<open>(i32)(i16)x\<close> of the handlers).
\<close>

definition sx16 :: "u32 \<Rightarrow> u32" where
  "sx16 w = scast (ucast w :: u16)"

definition sx8 :: "u32 \<Rightarrow> u32" where
  "sx8 w = scast (ucast w :: u8)"

text \<open>
  \<open>sign_extend<Result, Shift>\<close> on a signed result: shift left, then arithmetic shift right,
  keeps bits \<open>0..Shift\<close> and copies bit \<open>Shift\<close> upwards.
\<close>

definition sign_extend :: "nat \<Rightarrow> int \<Rightarrow> int" where
  "sign_extend shift v = signed_take_bit shift v"

section \<open>Faults and sequencing\<close>

text \<open>
  \<open>DebugBreak\<close> is the source's \<open>error::DebugBreak()\<close> (it never returns), \<open>Unreachable\<close>
  its \<open>error::Unreachable()\<close>; \<open>UndefinedBehaviour\<close> marks an access the source makes
  outside an array; \<open>Thrown\<close> is an uncaught C++ exception; \<open>OutOfFuel\<close> is produced by fuelled
  loops only.
\<close>

datatype fault = DebugBreak | Unreachable | UndefinedBehaviour | Thrown | OutOfFuel

type_synonym 'a result = "fault + 'a"

definition bindE :: "'a result \<Rightarrow> ('a \<Rightarrow> 'b result) \<Rightarrow> 'b result" where
  "bindE m f = (case m of Inl e \<Rightarrow> Inl e | Inr a \<Rightarrow> f a)"

lemma bindE_simps [simp, fault_simps]:
  "bindE (Inl e) f = Inl e"
  "bindE (Inr a) f = f a"
  by (simp_all add: bindE_def)

lemma bindE_Inr_iff [fault_simps]:
  "bindE m f = Inr b \<longleftrightarrow> (\<exists>a. m = Inr a \<and> f a = Inr b)"
  by (cases m) auto

lemma bindE_InrE:
  assumes "bindE m f = Inr b"
  obtains a where "m = Inr a" "f a = Inr b"
  using assms by (cases m) auto

lemma bindE_assoc: "bindE (bindE m f) g = bindE m (\<lambda>a. bindE (f a) g)"
  by (cases m) auto

text \<open>\<open>ensures F P m\<close>: \<open>m\<close> fails only with a fault of \<open>F\<close>, and otherwise returns a \<open>P\<close>.\<close>

definition ensures :: "fault set \<Rightarrow> ('a \<Rightarrow> bool) \<Rightarrow> 'a result \<Rightarrow> bool" where
  "ensures F P m \<longleftrightarrow> (case m of Inl f \<Rightarrow> f \<in> F | Inr a \<Rightarrow> P a)"

lemma ensures_simps [simp]:
  "ensures F P (Inl f) \<longleftrightarrow> f \<in> F" "ensures F P (Inr a) \<longleftrightarrow> P a"
  by (simp_all add: ensures_def)

lemma ensures_bind:
  assumes "ensures F Q m" "\<And>a. Q a \<Longrightarrow> ensures F P (f a)"
  shows "ensures F P (bindE m f)"
  using assms by (cases m) auto

lemma ensures_mono: "ensures F P m \<Longrightarrow> F \<subseteq> G \<Longrightarrow> (\<And>a. P a \<Longrightarrow> Q a) \<Longrightarrow> ensures G Q m"
  by (cases m) auto

lemma ensures_insert: "ensures F P m \<Longrightarrow> ensures (insert f F) P m"
  by (rule ensures_mono) auto

lemma ensures_if: "ensures F P x \<Longrightarrow> ensures F P y \<Longrightarrow> ensures F P (if c then x else y)"
  by simp

lemma ensures_cond:
  "(c \<Longrightarrow> ensures F P x) \<Longrightarrow> (\<not> c \<Longrightarrow> ensures F P y) \<Longrightarrow> ensures F P (if c then x else y)"
  by simp

section \<open>Bit fields\<close>

text \<open>
  The packed unions of the source are words; \<open>get_bits lo n\<close> reads the \<open>n\<close>-bit field
  at bit \<open>lo\<close>, \<open>put_bits lo n v\<close> overwrites it and keeps the rest.
\<close>

definition get_bits :: "nat \<Rightarrow> nat \<Rightarrow> 'a::len word \<Rightarrow> 'a word" where
  "get_bits lo n w = drop_bit lo w AND mask n"

definition put_bits :: "nat \<Rightarrow> nat \<Rightarrow> 'a::len word \<Rightarrow> 'a word \<Rightarrow> 'a word" where
  "put_bits lo n v w = (w AND NOT (push_bit lo (mask n))) OR push_bit lo (v AND mask n)"

definition put_flag :: "nat \<Rightarrow> bool \<Rightarrow> 'a::len word \<Rightarrow> 'a word" where
  "put_flag i b w = put_bits i 1 (of_bool b) w"

lemma bit_get_bits [field_bits]:
  "bit (get_bits lo n w) i \<longleftrightarrow> i < n \<and> bit (w :: 'a::len word) (lo + i)"
  by (auto simp: get_bits_def bit_simps dest: bit_imp_le_length)

lemma bit_put_bits [field_bits]:
  "bit (put_bits lo n v w) i \<longleftrightarrow>
     (if lo \<le> i \<and> i < lo + n then i < LENGTH('a) \<and> bit v (i - lo) else bit w i)"
  for v w :: "'a::len word"
  by (auto simp: put_bits_def bit_simps not_le not_less dest: bit_imp_le_length)

lemma bit_put_flag [field_bits]:
  "bit (put_flag k b w) i \<longleftrightarrow> (if i = k then i < LENGTH('a) \<and> b else bit w i)"
  for w :: "'a::len word"
  by (auto simp: put_flag_def bit_put_bits bit_of_bool_iff)

lemma get_bits_less: "unat (get_bits lo n w) < 2 ^ n"
  unfolding get_bits_def take_bit_eq_mask[symmetric] unsigned_take_bit_eq by (rule take_bit_nat_less_exp)

lemma put_bits_idem: "put_bits lo n u (put_bits lo n v w) = put_bits lo n u (w :: 'a::len word)"
  by (rule bit_word_eqI) (auto simp: field_bits)

lemma get_put_bits_same:
  fixes v w :: "'a::len word"
  assumes "lo + n \<le> LENGTH('a)"
  shows "get_bits lo n (put_bits lo n v w) = v AND mask n"
  by (rule bit_word_eqI) (use assms in \<open>auto simp: field_bits bit_simps\<close>)

lemma get_put_bits_other:
  assumes "lo + n \<le> lo' \<or> lo' + n' \<le> lo"
  shows "get_bits lo n (put_bits lo' n' v w) = get_bits lo n (w :: 'a::len word)"
  by (rule bit_word_eqI) (use assms in \<open>auto simp: field_bits\<close>)

section \<open>Arrays\<close>

definition swap :: "nat \<Rightarrow> nat \<Rightarrow> 'a list \<Rightarrow> 'a list" where
  "swap i j xs = xs[i := xs ! j, j := xs ! i]"

lemma length_swap [simp]: "length (swap i j xs) = length xs"
  by (simp add: swap_def)

lemma mset_swap_eq [simp]:
  "i < length xs \<Longrightarrow> j < length xs \<Longrightarrow> mset (swap i j xs) = mset xs"
  by (simp add: swap_def mset_swap)

lemma set_swap_eq [simp]:
  "i < length xs \<Longrightarrow> j < length xs \<Longrightarrow> set (swap i j xs) = set xs"
  by (metis mset_swap_eq set_mset_mset)

lemma nth_swap:
  "i < length xs \<Longrightarrow> j < length xs \<Longrightarrow> k < length xs \<Longrightarrow>
   swap i j xs ! k = (if k = j then xs ! i else if k = i then xs ! j else xs ! k)"
  by (simp add: swap_def nth_list_update)

lemma add_mset_last_butlast [simp]:
  "xs \<noteq> [] \<Longrightarrow> add_mset (last xs) (mset (butlast xs)) = mset xs"
  by (metis append_butlast_last_id mset.simps(2) mset_append add_mset_add_single mset_single_iff_right)

lemma swap_same [simp]: "swap i i xs = xs"
  by (simp add: swap_def)

lemma mset_take_Suc_update:
  "n < length xs \<Longrightarrow> take (Suc n) (xs[n := x]) = take n xs @ [x]"
  by (simp add: take_Suc_conv_app_nth)

text \<open>An algorithm run on the first \<open>n\<close> slots of a fixed-size array.\<close>

definition on_prefix :: "nat \<Rightarrow> ('a list \<Rightarrow> 'a list) \<Rightarrow> 'a list \<Rightarrow> 'a list" where
  "on_prefix n f xs = f (take n xs) @ drop n xs"

lemma length_on_prefix [simp]:
  "(\<And>ys. length (f ys) = length ys) \<Longrightarrow> length (on_prefix n f xs) = length xs"
  by (simp add: on_prefix_def)

lemma take_on_prefix:
  assumes "\<And>ys. length (f ys) = length ys" "m \<le> n" "n \<le> length xs"
  shows "take m (on_prefix n f xs) = take m (f (take n xs))"
  using assms by (simp add: on_prefix_def)

section \<open>Words\<close>

lemma word_neq_0_iff_bit: "w \<noteq> 0 \<longleftrightarrow> (\<exists>b. bit w b)" for w :: "'a::len word"
proof
  show "\<exists>b. bit w b" if "w \<noteq> 0"
  proof (rule ccontr)
    assume "\<nexists>b. bit w b"
    then have "w = 0" by (intro bit_word_eqI) simp
    with that show False by simp
  qed
qed auto

lemma word_less_succ: "x + 1 \<noteq> 0 \<Longrightarrow> x < x + 1" for x :: "'a::len word"
  using unatSuc[of x] by (simp add: word_less_nat_alt add.commute)

lemma filter_mset_id: "(\<And>x. x \<in># M \<Longrightarrow> P x) \<Longrightarrow> filter_mset P M = M"
  using filter_mset_cong[of M M P "\<lambda>_. True"] by simp

end
