(* ===== verification/StdHeap.thy ===== *)
theory StdHeap
  imports PsxPrelude
begin

text \<open>
  The standard library's binary heap on an array, as \<open>std::push_heap\<close>, \<open>std::pop_heap\<close>
  and \<open>std::make_heap\<close> perform it with the scheduler's comparator (the smallest key is
  at index 0). Removal is the bottom-up variant of the common implementations: the hole
  left at the root walks down to a leaf along the smaller children, and the displaced
  element then rises from there.
\<close>

section \<open>The array algorithms\<close>

definition hparent :: "nat \<Rightarrow> nat" where
  "hparent i = (i - 1) div 2"

lemma hparent_less [simp]: "0 < i \<Longrightarrow> hparent i < i"
  by (simp add: hparent_def)

lemma hparent_eq_iff: "0 < i \<Longrightarrow> hparent i = h \<longleftrightarrow> i = 2 * h + 1 \<or> i = 2 * h + 2"
  by (auto simp: hparent_def)

lemma hparent_children [simp]: "hparent (Suc (2 * h)) = h" "hparent (Suc (Suc (2 * h))) = h"
  by (simp_all add: hparent_def)

function sift_up :: "('a \<Rightarrow> 'k::linorder) \<Rightarrow> nat \<Rightarrow> nat \<Rightarrow> 'a list \<Rightarrow> 'a list" where
  "sift_up key tp h xs =
     (if tp < h \<and> key (xs ! hparent h) > key (xs ! h)
      then sift_up key tp (hparent h) (swap h (hparent h) xs)
      else xs)"
  by pat_completeness auto
termination
  by (relation "measure (\<lambda>(key, tp, h, xs). h)") auto

declare sift_up.simps [simp del]

function sift_down :: "('a \<Rightarrow> 'k::linorder) \<Rightarrow> nat \<Rightarrow> 'a list \<Rightarrow> nat \<times> 'a list" where
  "sift_down key h xs =
     (let n = length xs; c = 2 * h + 2 in
      if c < n then
        (let c' = (if key (xs ! c) > key (xs ! (c - 1)) then c - 1 else c)
         in sift_down key c' (swap h c' xs))
      else if c = n then (n - 1, swap h (n - 1) xs)
      else (h, xs))"
  by pat_completeness auto
termination
  by (relation "measure (\<lambda>(key, h, xs). length xs - h)") (auto simp: Let_def)

declare sift_down.simps [simp del]

definition fix_hole :: "('a \<Rightarrow> 'k::linorder) \<Rightarrow> nat \<Rightarrow> 'a list \<Rightarrow> 'a list" where
  "fix_hole key tp xs = (case sift_down key tp xs of (h, ys) \<Rightarrow> sift_up key tp h ys)"

definition push_heap :: "('a \<Rightarrow> 'k::linorder) \<Rightarrow> 'a list \<Rightarrow> 'a list" where
  "push_heap key xs = (if length xs < 2 then xs else sift_up key 0 (length xs - 1) xs)"

text \<open>
  \<open>pop_heap\<close> moves the root to the last slot and re-establishes the heap on the rest.
\<close>

definition pop_heap :: "('a \<Rightarrow> 'k::linorder) \<Rightarrow> 'a list \<Rightarrow> 'a list" where
  "pop_heap key xs =
     (if length xs < 2 then xs
      else fix_hole key 0 ((butlast xs)[0 := last xs]) @ [hd xs])"

fun make_heap_from :: "('a \<Rightarrow> 'k::linorder) \<Rightarrow> nat \<Rightarrow> 'a list \<Rightarrow> 'a list" where
  "make_heap_from key 0 xs = xs"
| "make_heap_from key (Suc h) xs = make_heap_from key h (fix_hole key h xs)"

definition make_heap :: "('a \<Rightarrow> 'k::linorder) \<Rightarrow> 'a list \<Rightarrow> 'a list" where
  "make_heap key xs = make_heap_from key (length xs div 2) xs"

section \<open>Heap order\<close>

text \<open>\<open>heap_from k\<close>: every edge whose upper end is at index \<open>k\<close> or later is ordered.\<close>

definition heap_from :: "('a \<Rightarrow> 'k::linorder) \<Rightarrow> nat \<Rightarrow> 'a list \<Rightarrow> bool" where
  "heap_from key k xs \<longleftrightarrow>
     (\<forall>i. 0 < i \<and> i < length xs \<and> k \<le> hparent i \<longrightarrow> key (xs ! hparent i) \<le> key (xs ! i))"

abbreviation is_heap :: "('a \<Rightarrow> 'k::linorder) \<Rightarrow> 'a list \<Rightarrow> bool" where
  "is_heap key xs \<equiv> heap_from key 0 xs"

text \<open>The hole at \<open>h\<close> may be too small for its parent, everything else is in order.\<close>

definition hole_up :: "('a \<Rightarrow> 'k::linorder) \<Rightarrow> nat \<Rightarrow> nat \<Rightarrow> 'a list \<Rightarrow> bool" where
  "hole_up key k h xs \<longleftrightarrow> h < length xs \<and>
     (\<forall>i. 0 < i \<and> i < length xs \<and> k \<le> hparent i \<and> i \<noteq> h \<longrightarrow>
        key (xs ! hparent i) \<le> key (xs ! i)) \<and>
     (\<forall>i. 0 < i \<and> i < length xs \<and> hparent i = h \<and> 0 < h \<and> k \<le> hparent h \<longrightarrow>
        key (xs ! hparent h) \<le> key (xs ! i))"

text \<open>The hole at \<open>h\<close> may be out of order with its parent and with its children.\<close>

definition hole_down :: "('a \<Rightarrow> 'k::linorder) \<Rightarrow> nat \<Rightarrow> nat \<Rightarrow> 'a list \<Rightarrow> bool" where
  "hole_down key k h xs \<longleftrightarrow> h < length xs \<and>
     (\<forall>i. 0 < i \<and> i < length xs \<and> k \<le> hparent i \<and> i \<noteq> h \<and> hparent i \<noteq> h \<longrightarrow>
        key (xs ! hparent i) \<le> key (xs ! i)) \<and>
     (\<forall>i. 0 < i \<and> i < length xs \<and> hparent i = h \<and> 0 < h \<and> k \<le> hparent h \<longrightarrow>
        key (xs ! hparent h) \<le> key (xs ! i))"

text \<open>\<open>below tp h\<close>: the parent chain of \<open>h\<close> passes through \<open>tp\<close>.\<close>

function below :: "nat \<Rightarrow> nat \<Rightarrow> bool" where
  "below tp h = (if h \<le> tp then h = tp else below tp (hparent h))"
  by pat_completeness auto
termination
  by (relation "measure (\<lambda>(tp, h). h)") auto

declare below.simps [simp del]

lemma below_ge: "below tp h \<Longrightarrow> tp \<le> h"
  by (subst (asm) below.simps) (auto split: if_splits)

lemma below_refl [simp]: "below tp tp"
  by (subst below.simps) simp

lemma below_parent: "below tp h \<Longrightarrow> tp < h \<Longrightarrow> below tp (hparent h)"
  by (subst (asm) below.simps) simp

lemma below_child:
  assumes "below tp h" "0 < i" "hparent i = h"
  shows "below tp i"
proof -
  have "tp < i" using below_ge[OF assms(1)] hparent_less[OF assms(2)] assms(3) by linarith
  then show ?thesis using assms by (subst below.simps) simp
qed

section \<open>The hole rises\<close>

lemma length_sift_up [simp]: "length (sift_up key tp h xs) = length xs"
proof (induction key tp h xs rule: sift_up.induct)
  case (1 key tp h xs)
  then show ?case by (subst sift_up.simps) (simp split: if_split)
qed

lemma mset_sift_up [simp]: "h < length xs \<Longrightarrow> mset (sift_up key tp h xs) = mset xs"
proof (induction key tp h xs rule: sift_up.induct)
  case (1 key tp h xs)
  then have "tp < h \<Longrightarrow> hparent h < length xs"
    using hparent_less[of h] by linarith
  with 1 show ?case by (subst sift_up.simps) auto
qed

lemma hole_up_step:
  assumes "hole_up key k h xs" "0 < h" "k \<le> hparent h" "key (xs ! h) < key (xs ! hparent h)"
  shows "hole_up key k (hparent h) (swap h (hparent h) xs)" (is "hole_up key k ?p ?ys")
proof -
  have h: "h < length xs" using assms(1) by (simp add: hole_up_def)
  have p: "?p < length xs" "?p < h" using h assms(2) hparent_less[of h] by linarith+
  have nth: "?ys ! j = (if j = ?p then xs ! h else if j = h then xs ! ?p else xs ! j)"
    if "j < length xs" for j
    using that h p by (simp add: nth_swap)
  have edge: "key (xs ! hparent i) \<le> key (xs ! i)"
    if "0 < i" "i < length xs" "k \<le> hparent i" "i \<noteq> h" for i
    using assms(1) that by (simp add: hole_up_def)
  have gp: "key (xs ! ?p) \<le> key (xs ! i)" if "0 < i" "i < length xs" "hparent i = h" for i
    using assms that by (simp add: hole_up_def)
  have "key (?ys ! hparent i) \<le> key (?ys ! i)"
    if i: "0 < i" "i < length xs" "k \<le> hparent i" "i \<noteq> ?p" for i
  proof -
    have "hparent i < length xs" using i hparent_less[of i] by linarith
    then show ?thesis
      using i h p nth edge[of i] gp[of i] assms(4) by (force dest: order.strict_implies_order)
  qed
  moreover have "key (?ys ! hparent ?p) \<le> key (?ys ! i)"
    if i: "0 < i" "i < length xs" "hparent i = ?p" "0 < ?p" "k \<le> hparent ?p" for i
  proof -
    have pp: "hparent ?p < ?p" using i by simp
    have "key (xs ! hparent ?p) \<le> key (xs ! ?p)" using edge[of ?p] i p by simp
    moreover have "key (xs ! ?p) \<le> key (xs ! i)" if "i \<noteq> h"
      using edge[of i] i that p assms(3) by simp
    ultimately show ?thesis using i h p pp nth by fastforce
  qed
  ultimately show ?thesis using p by (simp add: hole_up_def)
qed

lemma sift_up_heap:
  "hole_up key k h xs \<Longrightarrow> below k h \<Longrightarrow> heap_from key k (sift_up key k h xs)"
proof (induction key k h xs rule: sift_up.induct)
  case (1 key k h xs)
  show ?case
  proof (cases "k < h \<and> key (xs ! h) < key (xs ! hparent h)")
    case True
    then have b: "below k (hparent h)" "k \<le> hparent h"
      using "1.prems"(2) below_parent[of k h] below_ge by auto
    have "hole_up key k (hparent h) (swap h (hparent h) xs)"
      using hole_up_step[OF "1.prems"(1)] True b by simp
    with True b "1.IH" show ?thesis by (subst sift_up.simps) simp
  next
    case False
    have kh: "k \<le> h" using "1.prems"(2) by (rule below_ge)
    have "key (xs ! hparent i) \<le> key (xs ! i)"
      if "0 < i" "i < length xs" "k \<le> hparent i" for i
    proof (cases "i = h")
      case True
      then have "k < h" using that hparent_less[of i] by linarith
      with False True show ?thesis by auto
    qed (use "1.prems"(1) that in \<open>simp add: hole_up_def\<close>)
    with False show ?thesis by (subst sift_up.simps) (auto simp: heap_from_def)
  qed
qed

section \<open>The hole sinks\<close>

lemma length_sift_down [simp]: "length (snd (sift_down key h xs)) = length xs"
proof (induction key h xs rule: sift_down.induct)
  case (1 key h xs)
  then show ?case by (subst sift_down.simps) (auto simp: Let_def)
qed

lemma mset_sift_down:
  "h < length xs \<Longrightarrow> fst (sift_down key h xs) < length xs \<and> mset (snd (sift_down key h xs)) = mset xs"
proof (induction key h xs rule: sift_down.induct)
  case (1 key h xs)
  then show ?case by (subst (1 2) sift_down.simps) (auto simp: Let_def)
qed

lemma hole_down_step:
  assumes "hole_down key k h xs" and c: "c < length xs" "0 < c" "hparent c = h"
    and min: "\<And>i. 0 < i \<Longrightarrow> i < length xs \<Longrightarrow> hparent i = h \<Longrightarrow> key (xs ! c) \<le> key (xs ! i)"
    and k: "k \<le> h"
  shows "hole_down key k c (swap h c xs)" (is "hole_down key k c ?ys")
proof -
  have h: "h < length xs" "h < c" using assms by (auto simp: hole_down_def)
  have nth: "?ys ! j = (if j = c then xs ! h else if j = h then xs ! c else xs ! j)"
    if "j < length xs" for j
    using that h c by (simp add: nth_swap)
  have edge: "key (xs ! hparent i) \<le> key (xs ! i)"
    if "0 < i" "i < length xs" "k \<le> hparent i" "i \<noteq> h" "hparent i \<noteq> h" for i
    using assms(1) that by (simp add: hole_down_def)
  have gp: "key (xs ! hparent h) \<le> key (xs ! c)" if "0 < h" "k \<le> hparent h"
    using assms that by (simp add: hole_down_def)
  have "key (?ys ! hparent i) \<le> key (?ys ! i)"
    if i: "0 < i" "i < length xs" "k \<le> hparent i" "i \<noteq> c" "hparent i \<noteq> c" for i
  proof -
    have pi: "hparent i < i" using i by simp
    then have "hparent i < length xs" using i by linarith
    with pi show ?thesis
      using i h c nth edge[of i] gp min[of i] by (cases "i = h"; cases "hparent i = h") auto
  qed
  moreover have "key (?ys ! hparent c) \<le> key (?ys ! i)"
    if i: "0 < i" "i < length xs" "hparent i = c" for i
  proof -
    have "c < i" using i hparent_less[of i] by simp
    then show ?thesis using i h c nth edge[of i] k by simp
  qed
  ultimately show ?thesis using c by (simp add: hole_down_def)
qed

lemma sift_down_hole:
  "hole_down key k h xs \<Longrightarrow> below k h \<Longrightarrow>
   (case sift_down key h xs of (h', ys) \<Rightarrow> hole_up key k h' ys \<and> below k h')"
proof (induction key h xs rule: sift_down.induct)
  case (1 key h xs)
  have kh: "k \<le> h" using "1.prems"(2) by (rule below_ge)
  have hlen: "h < length xs" using "1.prems"(1) by (simp add: hole_down_def)
  consider (two) "2 * h + 2 < length xs" | (one) "2 * h + 2 = length xs"
    | (leaf) "length xs < 2 * h + 2" by linarith
  then show ?case
  proof cases
    case two
    define c where "c = (if key (xs ! (2 * h + 2)) > key (xs ! (2 * h + 1)) then 2 * h + 1 else 2 * h + 2)"
    have c_if: "(if key (xs ! (2 * h + 2)) > key (xs ! (2 * h + 2 - 1)) then 2 * h + 2 - 1 else 2 * h + 2) = c"
      by (simp add: c_def)
    have c: "c < length xs" "0 < c" "hparent c = h"
      using two by (auto simp: c_def hparent_def)
    have "key (xs ! c) \<le> key (xs ! i)" if "0 < i" "i < length xs" "hparent i = h" for i
      using that by (auto simp: hparent_eq_iff c_def)
    then have "hole_down key k c (swap h c xs)"
      using hole_down_step[OF "1.prems"(1) c _ kh] by blast
    moreover have "below k c" using below_child[OF "1.prems"(2) c(2,3)] .
    ultimately have "case sift_down key c (swap h c xs) of (h', ys) \<Rightarrow> hole_up key k h' ys \<and> below k h'"
      using "1.IH"[OF refl refl two c_if[symmetric]] by metis
    moreover have "sift_down key h xs = sift_down key c (swap h c xs)"
      using two by (subst sift_down.simps) (simp add: Let_def c_def)
    ultimately show ?thesis by simp
  next
    case one
    define c where "c = length xs - 1"
    have c: "c < length xs" "0 < c" "hparent c = h" "c = 2 * h + 1"
      using one by (auto simp: c_def hparent_def)
    have "key (xs ! c) \<le> key (xs ! i)" if "0 < i" "i < length xs" "hparent i = h" for i
      using that c one by (auto simp: hparent_eq_iff)
    then have hd: "hole_down key k c (swap h c xs)"
      using hole_down_step[OF "1.prems"(1) c(1-3) _ kh] by blast
    have "hparent i \<noteq> c" if "0 < i" "i < length xs" for i
      using that c one by (auto simp: hparent_eq_iff)
    with hd have "hole_up key k c (swap h c xs)"
      by (auto simp: hole_down_def hole_up_def)
    moreover have "below k c" using below_child[OF "1.prems"(2) c(2,3)] .
    ultimately show ?thesis
      using one by (subst sift_down.simps) (simp add: Let_def c_def)
  next
    case leaf
    have "hparent i \<noteq> h" if "0 < i" "i < length xs" for i
      using that leaf by (auto simp: hparent_eq_iff)
    with "1.prems"(1) have "hole_up key k h xs"
      by (auto simp: hole_down_def hole_up_def)
    then show ?thesis using leaf "1.prems"(2) by (subst sift_down.simps) (simp add: Let_def)
  qed
qed


section \<open>Correctness of the algorithms\<close>

lemma heap_from_hole_down:
  assumes "heap_from key (Suc k) xs" "k < length xs"
  shows "hole_down key k k xs"
proof -
  have "\<not> k \<le> hparent k" if "0 < k" using hparent_less[OF that] by simp
  moreover have "Suc k \<le> j" if "k \<le> j" "j \<noteq> k" for j using that by simp
  ultimately show ?thesis using assms unfolding hole_down_def heap_from_def by blast
qed

lemma length_fix_hole [simp]: "length (fix_hole key k xs) = length xs"
  using length_sift_down[of key k xs] by (cases "sift_down key k xs") (simp add: fix_hole_def)

lemma mset_fix_hole [simp]: "k < length xs \<Longrightarrow> mset (fix_hole key k xs) = mset xs"
  using mset_sift_down[of k xs key] length_sift_down[of key k xs]
  by (cases "sift_down key k xs") (simp add: fix_hole_def)

lemma fix_hole_heap: "hole_down key k k xs \<Longrightarrow> heap_from key k (fix_hole key k xs)"
  using sift_down_hole[of key k k xs] by (auto simp: fix_hole_def sift_up_heap split: prod.splits)

lemma heap_from_mono: "heap_from key j xs \<Longrightarrow> j \<le> k \<Longrightarrow> heap_from key k xs"
  by (auto simp: heap_from_def)

lemma length_push_heap [simp]: "length (push_heap key xs) = length xs"
  by (simp add: push_heap_def)

lemma mset_push_heap [simp]: "mset (push_heap key xs) = mset xs"
  by (simp add: push_heap_def)

text \<open>\<open>push_heap\<close> turns a heap followed by one new element into a heap.\<close>

lemma heap_push:
  assumes "is_heap key xs"
  shows "is_heap key (push_heap key (xs @ [x]))"
proof (cases "xs = []")
  case True
  then show ?thesis by (simp add: push_heap_def heap_from_def)
next
  case False
  have "key ((xs @ [x]) ! hparent i) \<le> key ((xs @ [x]) ! i)"
    if "0 < i" "i < length xs" for i
  proof -
    have "hparent i < length xs" using that hparent_less[of i] by linarith
    with that assms show ?thesis by (simp add: heap_from_def nth_append)
  qed
  moreover have "hparent i \<noteq> length xs" if "0 < i" "i < Suc (length xs)" for i
    using that hparent_less[of i] by linarith
  ultimately have "hole_up key 0 (length xs) (xs @ [x])"
    by (auto simp: hole_up_def less_Suc_eq)
  moreover have "below 0 h" for h
    by (induction h rule: less_induct) (subst below.simps, simp)
  ultimately have "is_heap key (sift_up key 0 (length xs) (xs @ [x]))"
    by (rule sift_up_heap)
  with False show ?thesis by (auto simp: push_heap_def Suc_le_eq not_less)
qed

lemma length_make_heap_from [simp]: "length (make_heap_from key k xs) = length xs"
  by (induction key k xs rule: make_heap_from.induct) auto

lemma mset_make_heap_from [simp]: "k \<le> length xs \<Longrightarrow> mset (make_heap_from key k xs) = mset xs"
  by (induction key k xs rule: make_heap_from.induct) auto

lemma make_heap_from_heap:
  "heap_from key k xs \<Longrightarrow> k \<le> length xs \<Longrightarrow> is_heap key (make_heap_from key k xs)"
proof (induction key k xs rule: make_heap_from.induct)
  case (2 key h xs)
  have "heap_from key h (fix_hole key h xs)"
    using 2(2,3) by (intro fix_hole_heap heap_from_hole_down) simp_all
  with 2(1,3) show ?case by simp
qed simp

lemma length_make_heap [simp]: "length (make_heap key xs) = length xs"
  by (simp add: make_heap_def)

lemma mset_make_heap [simp]: "mset (make_heap key xs) = mset xs"
  by (simp add: make_heap_def)

lemma heap_make: "is_heap key (make_heap key xs)"
proof -
  have "\<not> length xs div 2 \<le> hparent i" if "0 < i" "i < length xs" for i
    using that by (auto simp: hparent_def)
  then have "heap_from key (length xs div 2) xs" by (auto simp: heap_from_def)
  then show ?thesis by (simp add: make_heap_def make_heap_from_heap)
qed

lemma length_pop_heap [simp]: "length (pop_heap key xs) = length xs"
  by (auto simp: pop_heap_def)

text \<open>The root moves to the last slot; the rest keeps its elements and the heap order.\<close>

lemma pop_heap_split:
  assumes "xs \<noteq> []"
  shows "last (pop_heap key xs) = hd xs"
    and "mset (butlast (pop_heap key xs)) = mset (tl xs)"
proof -
  have "mset (butlast (pop_heap key xs)) = mset (tl xs)" if "2 \<le> length xs"
  proof -
    obtain a zs where a: "xs = a # zs" "zs \<noteq> []"
      using \<open>2 \<le> length xs\<close> by (cases xs) (auto simp: Suc_le_eq)
    then have "xs = a # butlast zs @ [last zs]" by simp
    then show ?thesis using a(2) by (simp add: pop_heap_def)
  qed
  moreover have "length xs = 1 \<Longrightarrow> tl xs = [] \<and> butlast xs = []"
    by (cases xs) auto
  ultimately show "mset (butlast (pop_heap key xs)) = mset (tl xs)"
    using assms by (cases "2 \<le> length xs") (auto simp: pop_heap_def not_le less_Suc_eq numeral_2_eq_2)
  show "last (pop_heap key xs) = hd xs"
    using assms by (cases xs) (auto simp: pop_heap_def)
qed

lemma heap_pop:
  assumes "is_heap key xs"
  shows "is_heap key (butlast (pop_heap key xs))"
proof (cases "length xs < 2")
  case True
  then show ?thesis by (cases xs) (auto simp: pop_heap_def heap_from_def)
next
  case False
  define ys where "ys = (butlast xs)[0 := last xs]"
  have len: "length ys = length xs - 1" by (simp add: ys_def)
  have nth: "ys ! i = xs ! i" if "0 < i" "i < length ys" for i
    using that by (simp add: ys_def nth_butlast)
  have "heap_from key (Suc 0) ys"
    unfolding heap_from_def
  proof (intro allI impI)
    fix i assume i: "0 < i \<and> i < length ys \<and> Suc 0 \<le> hparent i"
    then have "hparent i < length ys" using hparent_less[of i] by linarith
    moreover have "key (xs ! hparent i) \<le> key (xs ! i)"
      using i assms len by (auto simp: heap_from_def)
    ultimately show "key (ys ! hparent i) \<le> key (ys ! i)"
      using i len nth by simp
  qed
  then have "hole_down key 0 0 ys"
    using heap_from_hole_down[of key 0 ys] len False by simp
  then have "is_heap key (fix_hole key 0 ys)" by (rule fix_hole_heap)
  then show ?thesis using False by (simp add: pop_heap_def ys_def)
qed

text \<open>The root is a smallest element.\<close>

lemma heap_root_nth: "is_heap key xs \<Longrightarrow> i < length xs \<Longrightarrow> key (xs ! 0) \<le> key (xs ! i)"
proof (induction i rule: less_induct)
  case (less i)
  show ?case
  proof (cases "i = 0")
    case False
    then have "hparent i < i" by simp
    with less have "key (xs ! 0) \<le> key (xs ! hparent i)" by simp
    also have "\<dots> \<le> key (xs ! i)" using less.prems False by (simp add: heap_from_def)
    finally show ?thesis .
  qed simp
qed

lemma heap_root_min: "is_heap key xs \<Longrightarrow> x \<in> set xs \<Longrightarrow> key (hd xs) \<le> key x"
  by (metis heap_root_nth in_set_conv_nth hd_conv_nth length_pos_if_in_set length_greater_0_conv)

text \<open>A pushed element with a key at least the root's leaves the root in place.\<close>

lemma sift_up_root:
  "0 < h \<Longrightarrow> h < length xs \<Longrightarrow> key (xs ! 0) \<le> key (xs ! h) \<Longrightarrow> sift_up key 0 h xs ! 0 = xs ! 0"
proof (induction key "0::nat" h xs rule: sift_up.induct)
  case (1 key h xs)
  show ?case
  proof (cases "key (xs ! h) < key (xs ! hparent h)")
    case True
    have p: "hparent h < h" using 1(2) by simp
    have "hparent h \<noteq> 0" using True 1(4) by (metis not_less)
    moreover have "0 < length xs" "hparent h < length xs" using 1(3) p by linarith+
    ultimately show ?thesis using 1 True p by (subst sift_up.simps) (simp add: nth_swap)
  qed (subst sift_up.simps, simp)
qed

lemma push_heap_root:
  assumes "xs \<noteq> []" "key (xs ! 0) \<le> key x"
  shows "push_heap key (xs @ [x]) ! 0 = xs ! 0"
  using assms sift_up_root[of "length xs" "xs @ [x]" key]
  by (cases xs) (auto simp: push_heap_def nth_append)

end
