(* ===== verification/Scheduler.thy ===== *)
theory Scheduler
  imports StdHeap
begin

text \<open>
  The event scheduler (\<open>psxemu/source/psxemu/Scheduler.cpp\<close>): a fixed array of 60 events
  whose first \<open>m_num_events\<close> slots form a heap on the trigger time. The rest of the
  emulator's state is the extension part of the record, so that an event callback can be
  a function on the whole machine. \<open>'c\<close> stands for the callback's function pointer.
\<close>

section \<open>State\<close>

record 'c psx_event =
  event_id :: u64
  registered_timestamp :: u64
  trigger_timestamp :: u64
  callback :: "'c option"
  userdata :: u64

record 'c scheduler =
  m_curr_timestamp :: u64
  m_last_id :: u64
  m_num_events :: nat
  m_events :: "'c psx_event list"

definition MAX_EVENTS :: nat where
  "MAX_EVENTS = 60"

definition INVALID_EVENT :: u64 where
  "INVALID_EVENT = -1"

definition null_event :: "'c psx_event" where
  "null_event = \<lparr>event_id = 0, registered_timestamp = 0, trigger_timestamp = 0,
     callback = None, userdata = 0\<rparr>"

definition init_scheduler :: "'c scheduler" where
  "init_scheduler = \<lparr>m_curr_timestamp = 0, m_last_id = 0, m_num_events = 0,
     m_events = replicate MAX_EVENTS null_event\<rparr>"

definition live :: "('c, 'm) scheduler_scheme \<Rightarrow> 'c psx_event list" where
  "live s = take (m_num_events s) (m_events s)"

section \<open>Operations\<close>

definition schedule_absolute ::
  "u64 \<Rightarrow> 'c option \<Rightarrow> u64 \<Rightarrow> ('c, 'm) scheduler_scheme \<Rightarrow> u64 \<times> ('c, 'm) scheduler_scheme" where
  "schedule_absolute timestamp cb ud s =
     (if m_num_events s = MAX_EVENTS then (INVALID_EVENT, s)
      else
        let n = m_num_events s;
            ev = \<lparr>event_id = m_last_id s, registered_timestamp = m_curr_timestamp s,
                  trigger_timestamp = timestamp, callback = cb, userdata = ud\<rparr>;
            s' = s\<lparr>m_events := on_prefix (Suc n) (push_heap trigger_timestamp) ((m_events s)[n := ev]),
                   m_num_events := Suc n, m_last_id := m_last_id s + 1\<rparr>
        in (m_last_id s' - 1, s'))"

definition schedule ::
  "u64 \<Rightarrow> 'c option \<Rightarrow> u64 \<Rightarrow> ('c, 'm) scheduler_scheme \<Rightarrow> u64 \<times> ('c, 'm) scheduler_scheme" where
  "schedule cycles cb ud s = schedule_absolute (m_curr_timestamp s + cycles) cb ud s"

text \<open>\<open>std::find_if\<close>: the first position whose event has the identifier, or the length.\<close>

fun find_event :: "u64 \<Rightarrow> 'c psx_event list \<Rightarrow> nat" where
  "find_event i [] = 0"
| "find_event i (e # es) = (if event_id e = i then 0 else Suc (find_event i es))"

definition deschedule ::
  "u64 \<Rightarrow> ('c, 'm) scheduler_scheme \<Rightarrow> bool \<times> ('c, 'm) scheduler_scheme" where
  "deschedule i s =
     (let n = m_num_events s; k = find_event i (live s) in
      if k = n then (False, s)
      else (True, s\<lparr>m_events := on_prefix (n - 1) (make_heap trigger_timestamp) (swap k (n - 1) (m_events s)),
                    m_num_events := n - 1\<rparr>))"

text \<open>
  \<open>std::pop_heap\<close> on the live slots and the decrement that follows it. On an empty
  queue both are outside the library's contract.
\<close>

definition drop_root :: "('c, 'm) scheduler_scheme \<Rightarrow> ('c, 'm) scheduler_scheme" where
  "drop_root s =
     s\<lparr>m_events := on_prefix (m_num_events s) (pop_heap trigger_timestamp) (m_events s),
       m_num_events := m_num_events s - 1\<rparr>"

definition pop_event :: "('c, 'm) scheduler_scheme \<Rightarrow> ('c, 'm) scheduler_scheme result" where
  "pop_event s =
     (if m_num_events s = 0 then Inl UndefinedBehaviour else Inr (drop_root s))"

text \<open>
  One due event: advance the clock, call back, remove the root. \<open>run\<close> is what the
  callbacks do to the machine.
\<close>

definition call_event ::
  "('c \<Rightarrow> u64 \<Rightarrow> u64 \<Rightarrow> ('c, 'm) scheduler_scheme \<Rightarrow> ('c, 'm) scheduler_scheme result) \<Rightarrow>
   'c psx_event \<Rightarrow> u64 \<Rightarrow> ('c, 'm) scheduler_scheme \<Rightarrow> ('c, 'm) scheduler_scheme result" where
  "call_event run ev late s =
     (case callback ev of None \<Rightarrow> Inr s | Some cb \<Rightarrow> run cb (userdata ev) late s)"

definition fire_root ::
  "('c \<Rightarrow> u64 \<Rightarrow> u64 \<Rightarrow> ('c, 'm) scheduler_scheme \<Rightarrow> ('c, 'm) scheduler_scheme result) \<Rightarrow>
   u64 \<Rightarrow> bool \<Rightarrow> ('c, 'm) scheduler_scheme \<Rightarrow> ('c, 'm) scheduler_scheme result" where
  "fire_root run final_time ignore_overflow s =
     (let ev = m_events s ! 0;
          late = (if ignore_overflow then 0 else final_time - trigger_timestamp ev)
      in bindE (call_event run ev late (s\<lparr>m_curr_timestamp := trigger_timestamp ev + late\<rparr>)) pop_event)"

fun advance_loop ::
  "nat \<Rightarrow> ('c \<Rightarrow> u64 \<Rightarrow> u64 \<Rightarrow> ('c, 'm) scheduler_scheme \<Rightarrow> ('c, 'm) scheduler_scheme result) \<Rightarrow>
   u64 \<Rightarrow> bool \<Rightarrow> ('c, 'm) scheduler_scheme \<Rightarrow> ('c, 'm) scheduler_scheme result" where
  "advance_loop 0 run final_time ignore_overflow s = Inl OutOfFuel"
| "advance_loop (Suc fuel) run final_time ignore_overflow s =
     (if m_num_events s = 0 then Inr s
      else if trigger_timestamp (m_events s ! 0) > final_time then Inr s
      else bindE (fire_root run final_time ignore_overflow s)
             (advance_loop fuel run final_time ignore_overflow))"

definition advance ::
  "nat \<Rightarrow> ('c \<Rightarrow> u64 \<Rightarrow> u64 \<Rightarrow> ('c, 'm) scheduler_scheme \<Rightarrow> ('c, 'm) scheduler_scheme result) \<Rightarrow>
   u64 \<Rightarrow> bool \<Rightarrow> ('c, 'm) scheduler_scheme \<Rightarrow> ('c, 'm) scheduler_scheme result" where
  "advance fuel run num_cycles ignore_overflow s =
     (let final_time = m_curr_timestamp s + num_cycles
      in bindE (advance_loop fuel run final_time ignore_overflow s)
           (\<lambda>s'. Inr (s'\<lparr>m_curr_timestamp := final_time\<rparr>)))"

text \<open>\<open>Scheduler::NextEvent\<close> reads slot 0 without asking whether it is live.\<close>

definition next_event ::
  "('c \<Rightarrow> u64 \<Rightarrow> u64 \<Rightarrow> ('c, 'm) scheduler_scheme \<Rightarrow> ('c, 'm) scheduler_scheme result) \<Rightarrow>
   ('c, 'm) scheduler_scheme \<Rightarrow> (u64 \<times> ('c, 'm) scheduler_scheme) result" where
  "next_event run s =
     (let ev = m_events s ! 0;
          elapsed = trigger_timestamp ev - m_curr_timestamp s
      in bindE (call_event run ev 0 (s\<lparr>m_curr_timestamp := trigger_timestamp ev\<rparr>))
           (\<lambda>s'. bindE (pop_event s') (\<lambda>s''. Inr (elapsed, s''))))"


section \<open>The queue interface\<close>

text \<open>
  What the clock loop relies on: some representation of a multiset of timed entries with
  access to an earliest one.
\<close>

locale timed_queue =
  fixes inv :: "'q \<Rightarrow> bool"
    and pending_of :: "'q \<Rightarrow> 'e multiset"
    and due :: "'e \<Rightarrow> 'k::linorder"
    and peek :: "'q \<Rightarrow> 'e"
    and drop_min :: "'q \<Rightarrow> 'q"
  assumes peek_in: "inv q \<Longrightarrow> pending_of q \<noteq> {#} \<Longrightarrow> peek q \<in># pending_of q"
    and peek_min: "inv q \<Longrightarrow> e \<in># pending_of q \<Longrightarrow> due (peek q) \<le> due e"
    and drop_inv: "inv q \<Longrightarrow> pending_of q \<noteq> {#} \<Longrightarrow> inv (drop_min q)"
    and drop_pending: "inv q \<Longrightarrow> pending_of q \<noteq> {#} \<Longrightarrow> pending_of (drop_min q) = pending_of q - {#peek q#}"
begin

definition due_by :: "'k \<Rightarrow> 'q \<Rightarrow> 'e multiset" where
  "due_by t q = filter_mset (\<lambda>e. due e \<le> t) (pending_of q)"

definition later :: "'k \<Rightarrow> 'q \<Rightarrow> 'e multiset" where
  "later t q = filter_mset (\<lambda>e. t < due e) (pending_of q)"

lemma due_by_peek:
  assumes "inv q" "pending_of q \<noteq> {#}" "due (peek q) \<le> t"
  shows "due_by t q = add_mset (peek q) (due_by t (drop_min q))"
    and "later t (drop_min q) = later t q"
  using assms peek_in[OF assms(1,2)] by (auto simp: due_by_def later_def drop_pending)

lemma nothing_due:
  assumes "inv q" "pending_of q = {#} \<or> t < due (peek q)"
  shows "due_by t q = {#}" and "later t q = pending_of q"
proof -
  have late: "t < due e" if "e \<in># pending_of q" for e
    using assms peek_min[OF assms(1) that] that by auto
  then show "due_by t q = {#}" by (force simp: due_by_def)
  show "later t q = pending_of q" unfolding later_def using late by (rule filter_mset_id)
qed

lemma peek_earliest: "inv q \<Longrightarrow> e \<in># due_by t q \<Longrightarrow> due (peek q) \<le> due e"
  by (auto simp: due_by_def peek_min)

end

section \<open>The scheduler implements it\<close>

definition sched_inv :: "('c, 'm) scheduler_scheme \<Rightarrow> bool" where
  "sched_inv s \<longleftrightarrow> length (m_events s) = MAX_EVENTS \<and> m_num_events s \<le> MAX_EVENTS \<and>
     is_heap trigger_timestamp (live s)"

definition pending :: "('c, 'm) scheduler_scheme \<Rightarrow> 'c psx_event multiset" where
  "pending s = mset (live s)"

lemma length_live: "sched_inv s \<Longrightarrow> length (live s) = m_num_events s"
  by (simp add: sched_inv_def live_def)

lemma pending_empty_iff: "sched_inv s \<Longrightarrow> pending s = {#} \<longleftrightarrow> m_num_events s = 0"
  using length_live[of s] by (auto simp: pending_def)

lemma live_update [simp]:
  "live (s\<lparr>m_curr_timestamp := t\<rparr>) = live s" "live (s\<lparr>scheduler.more := w\<rparr>) = live s"
  "live (s\<lparr>m_last_id := i\<rparr>) = live s"
  by (simp_all add: live_def)

lemma pending_update [simp]:
  "pending (s\<lparr>m_curr_timestamp := t\<rparr>) = pending s" "pending (s\<lparr>scheduler.more := w\<rparr>) = pending s"
  by (simp_all add: pending_def)

lemma sched_inv_update [simp]:
  "sched_inv (s\<lparr>m_curr_timestamp := t\<rparr>) = sched_inv s" "sched_inv (s\<lparr>scheduler.more := w\<rparr>) = sched_inv s"
  by (simp_all add: sched_inv_def)

lemma root_live:
  assumes "sched_inv s" "0 < m_num_events s"
  shows "m_events s ! 0 = hd (live s)" "live s \<noteq> []"
proof -
  have "m_events s \<noteq> []" using assms by (auto simp: sched_inv_def)
  then show "m_events s ! 0 = hd (live s)" "live s \<noteq> []"
    using assms by (auto simp: live_def hd_conv_nth)
qed

lemma live_drop_root:
  assumes "sched_inv s" "0 < m_num_events s"
  shows "live (drop_root s) = butlast (pop_heap trigger_timestamp (live s))"
proof -
  have "min (length (m_events s)) (m_num_events s) = m_num_events s"
    using assms by (simp add: sched_inv_def)
  then show ?thesis
    using assms by (simp add: live_def drop_root_def sched_inv_def take_on_prefix butlast_conv_take)
qed

lemma drop_root_inv: "sched_inv s \<Longrightarrow> 0 < m_num_events s \<Longrightarrow> sched_inv (drop_root s)"
  using live_drop_root[of s]
  by (auto simp: sched_inv_def heap_pop) (auto simp: drop_root_def)

lemma drop_root_pending:
  "sched_inv s \<Longrightarrow> 0 < m_num_events s \<Longrightarrow> pending (drop_root s) = pending s - {#m_events s ! 0#}"
  using live_drop_root[of s] root_live[of s] pop_heap_split(2)[of "live s" trigger_timestamp]
  by (cases "live s") (auto simp: pending_def)

interpretation sq: timed_queue sched_inv pending trigger_timestamp "\<lambda>s. m_events s ! 0" drop_root
proof (unfold_locales)
  fix s :: "('c, 'm) scheduler_scheme" and e
  assume inv: "sched_inv s"
  show "e \<in># pending s \<Longrightarrow> trigger_timestamp (m_events s ! 0) \<le> trigger_timestamp e"
  proof -
    assume e: "e \<in># pending s"
    then have "0 < m_num_events s" using pending_empty_iff[OF inv] by (cases "m_num_events s") auto
    with e inv show ?thesis
      by (simp add: root_live pending_def heap_root_min sched_inv_def)
  qed
  assume ne: "pending s \<noteq> {#}"
  then have n: "0 < m_num_events s" using pending_empty_iff[OF inv] by simp
  show "m_events s ! 0 \<in># pending s"
    using root_live[OF inv n] by (simp add: pending_def)
  show "sched_inv (drop_root s)" using inv n by (rule drop_root_inv)
  show "pending (drop_root s) = pending s - {#m_events s ! 0#}" using inv n by (rule drop_root_pending)
qed


section \<open>Scheduling and descheduling\<close>

definition new_event ::
  "u64 \<Rightarrow> 'c option \<Rightarrow> u64 \<Rightarrow> ('c, 'm) scheduler_scheme \<Rightarrow> 'c psx_event" where
  "new_event timestamp cb ud s =
     \<lparr>event_id = m_last_id s, registered_timestamp = m_curr_timestamp s,
      trigger_timestamp = timestamp, callback = cb, userdata = ud\<rparr>"

lemma schedule_absolute_fields [simp]:
  "m_curr_timestamp (snd (schedule_absolute t cb ud s)) = m_curr_timestamp s"
  "m_num_events (snd (schedule_absolute t cb ud s)) =
     (if m_num_events s = MAX_EVENTS then MAX_EVENTS else Suc (m_num_events s))"
  "m_last_id (snd (schedule_absolute t cb ud s)) =
     (if m_num_events s = MAX_EVENTS then m_last_id s else m_last_id s + 1)"
  "scheduler.more (snd (schedule_absolute t cb ud s)) = scheduler.more s"
  by (simp_all add: schedule_absolute_def Let_def)

lemma live_schedule:
  assumes "sched_inv s" "m_num_events s < MAX_EVENTS"
  shows "live (snd (schedule_absolute t cb ud s)) =
           push_heap trigger_timestamp (live s @ [new_event t cb ud s])"
  using assms
  by (simp add: live_def schedule_absolute_def new_event_def sched_inv_def Let_def take_on_prefix
      mset_take_Suc_update)

lemma schedule_inv:
  assumes "sched_inv s"
  shows "sched_inv (snd (schedule_absolute t cb ud s))"
proof (cases "m_num_events s = MAX_EVENTS")
  case False
  then have "m_num_events s < MAX_EVENTS" using assms by (simp add: sched_inv_def)
  with assms live_schedule[OF assms this, of t cb ud] show ?thesis
    unfolding sched_inv_def
    by (simp add: heap_push) (simp add: schedule_absolute_def Let_def)
qed (use assms in \<open>simp add: schedule_absolute_def\<close>)

lemma schedule_pending:
  assumes "sched_inv s" "m_num_events s < MAX_EVENTS"
  shows "pending (snd (schedule_absolute t cb ud s)) = add_mset (new_event t cb ud s) (pending s)"
  using live_schedule[OF assms, of t cb ud] by (simp add: pending_def)

text \<open>An event scheduled no earlier than the root leaves the root in slot 0.\<close>

lemma schedule_root:
  assumes inv: "sched_inv s" and n: "0 < m_num_events s"
    and t: "trigger_timestamp (m_events s ! 0) \<le> t"
  shows "m_events (snd (schedule_absolute t cb ud s)) ! 0 = m_events s ! 0"
proof (cases "m_num_events s = MAX_EVENTS")
  case False
  then have lt: "m_num_events s < MAX_EVENTS" using inv by (simp add: sched_inv_def)
  let ?s = "snd (schedule_absolute t cb ud s)"
  have "0 < m_num_events ?s" using False by (simp add: schedule_absolute_def Let_def)
  then have "m_events ?s ! 0 = hd (live ?s)"
    using root_live(1)[of ?s] schedule_inv[OF inv] by simp
  also have "\<dots> = push_heap trigger_timestamp (live s @ [new_event t cb ud s]) ! 0"
    unfolding live_schedule[OF inv lt] by (subst hd_conv_nth) (auto simp flip: length_0_conv)
  also have "\<dots> = live s ! 0"
    using root_live[OF inv n] t by (intro push_heap_root) (auto simp: new_event_def hd_conv_nth)
  finally show ?thesis using root_live[OF inv n] by (simp add: hd_conv_nth)
qed (use assms in \<open>simp add: schedule_absolute_def\<close>)

lemma find_event_le: "find_event i es \<le> length es"
  by (induction es) auto

lemma find_event_less: "find_event i es < length es \<longleftrightarrow> i \<in> event_id ` set es"
  by (induction es) auto

lemma find_event_id: "find_event i es < length es \<Longrightarrow> event_id (es ! find_event i es) = i"
  by (induction es) auto

lemma live_deschedule:
  assumes "sched_inv s" "find_event i (live s) < m_num_events s"
  shows "live (snd (deschedule i s)) =
    make_heap trigger_timestamp (butlast (swap (find_event i (live s)) (m_num_events s - 1) (live s)))"
proof -
  let ?n = "m_num_events s" and ?k = "find_event i (live s)"
  have n: "?n \<le> length (m_events s)" "0 < ?n" using assms by (auto simp: sched_inv_def)
  have "take (?n - 1) (swap ?k (?n - 1) (m_events s)) = butlast (swap ?k (?n - 1) (live s))"
    using assms n by (intro nth_equalityI) (auto simp: live_def nth_butlast nth_swap)
  with assms(2) n show ?thesis
    by (simp add: deschedule_def Let_def live_def take_on_prefix)
qed


lemma deschedule_found:
  "sched_inv s \<Longrightarrow> i \<in> event_id ` set (live s) \<longleftrightarrow> find_event i (live s) < m_num_events s"
  using find_event_less[of i "live s"] by (simp add: length_live)

lemma deschedule_missing:
  "sched_inv s \<Longrightarrow> i \<notin> event_id ` set (live s) \<Longrightarrow> deschedule i s = (False, s)"
  using find_event_le[of i "live s"]
  by (simp add: deschedule_found deschedule_def length_live)

lemma deschedule_result: "sched_inv s \<Longrightarrow> fst (deschedule i s) \<longleftrightarrow> i \<in> event_id ` set (live s)"
  using find_event_le[of i "live s"]
  by (auto simp: deschedule_found deschedule_def Let_def length_live)

lemma deschedule_inv:
  assumes "sched_inv s"
  shows "sched_inv (snd (deschedule i s))"
proof (cases "find_event i (live s) < m_num_events s")
  case True
  with assms live_deschedule[OF assms True] show ?thesis
    unfolding sched_inv_def
    by (simp add: heap_make) (auto simp: deschedule_def Let_def)
next
  case False
  then show ?thesis
    using assms deschedule_missing[OF assms] deschedule_found[OF assms] by simp
qed

lemma deschedule_pending:
  assumes "sched_inv s" "find_event i (live s) < m_num_events s"
  shows "pending (snd (deschedule i s)) = pending s - {#live s ! find_event i (live s)#}"
proof -
  let ?n = "m_num_events s" and ?k = "find_event i (live s)"
  let ?ys = "swap ?k (?n - 1) (live s)"
  have len: "length (live s) = ?n" "?k < ?n" using assms by (simp_all add: length_live)
  then have "last ?ys = live s ! ?k" by (subst last_conv_nth) (auto simp: nth_swap simp flip: length_0_conv)
  moreover have "mset ?ys = mset (live s)" using len by simp
  moreover have "?ys \<noteq> []" using len by (auto simp flip: length_0_conv)
  ultimately have "add_mset (live s ! ?k) (mset (butlast ?ys)) = mset (live s)"
    using add_mset_last_butlast[of ?ys] by simp
  then show ?thesis
    using live_deschedule[OF assms] by (simp add: pending_def) (metis add_mset_remove_trivial)
qed

text \<open>Identifiers are handed out in order; while the counter does not wrap they are distinct.\<close>

definition ids_ok :: "('c, 'm) scheduler_scheme \<Rightarrow> bool" where
  "ids_ok s \<longleftrightarrow> distinct (map event_id (live s)) \<and>
     (\<forall>e \<in> set (live s). event_id e < m_last_id s)"

lemma distinct_ids_mset:
  "mset xs = mset ys \<Longrightarrow> distinct (map f xs) \<longleftrightarrow> distinct (map f ys)"
  by (metis mset_eq_imp_distinct_iff mset_map)

lemma schedule_ids:
  assumes "sched_inv s" "ids_ok s" "m_num_events s < MAX_EVENTS" "m_last_id s + 1 \<noteq> 0"
  shows "ids_ok (snd (schedule_absolute t cb ud s))"
    and "fst (schedule_absolute t cb ud s) = m_last_id s"
    and "m_last_id s \<notin> event_id ` set (live s)"
proof -
  let ?e = "new_event t cb ud s" and ?s = "snd (schedule_absolute t cb ud s)"
  have fresh: "m_last_id s \<notin> event_id ` set (live s)" using assms(2) by (auto simp: ids_ok_def)
  have live: "mset (live ?s) = mset (live s @ [?e])"
    using live_schedule[OF assms(1,3), of t cb ud] by simp
  have "distinct (map event_id (live s @ [?e]))"
    using assms(2) fresh by (auto simp: ids_ok_def new_event_def)
  then have "distinct (map event_id (live ?s))" using distinct_ids_mset[OF live] by blast
  moreover have last: "m_last_id ?s = m_last_id s + 1" "m_last_id s < m_last_id s + 1"
    using assms(3,4) word_less_succ by (simp_all add: schedule_absolute_def Let_def)
  moreover have "set (live ?s) = insert ?e (set (live s))"
    using live by (metis Un_insert_right append_Nil2 list.simps(15) set_append set_mset_mset)
  ultimately show "ids_ok ?s"
    using assms(2) by (auto simp: ids_ok_def new_event_def intro: less_trans)
  show "fst (schedule_absolute t cb ud s) = m_last_id s"
    using assms(3) by (simp add: schedule_absolute_def Let_def)
  show "m_last_id s \<notin> event_id ` set (live s)" by (rule fresh)
qed

text \<open>With distinct identifiers, descheduling removes exactly the events of that identifier.\<close>

lemma deschedule_exact:
  assumes "sched_inv s" "ids_ok s"
  shows "pending (snd (deschedule i s)) = filter_mset (\<lambda>e. event_id e \<noteq> i) (pending s)"
proof (cases "find_event i (live s) < m_num_events s")
  case True
  let ?e = "live s ! find_event i (live s)"
  have e: "?e \<in> set (live s)" "event_id ?e = i"
    using True assms(1) find_event_id[of i "live s"] by (auto simp: length_live)
  then obtain as bs where ab: "live s = as @ ?e # bs" by (metis split_list)
  have "distinct (map event_id (live s))" using assms(2) by (simp add: ids_ok_def)
  then have "i \<notin> event_id ` set as" "i \<notin> event_id ` set bs"
    using e(2) by (subst (asm) ab, force)+
  then have "filter_mset (\<lambda>e. event_id e \<noteq> i) (mset as) = mset as"
    "filter_mset (\<lambda>e. event_id e \<noteq> i) (mset bs) = mset bs"
    by (auto intro!: filter_mset_id simp: image_iff)
  moreover have "mset (live s) = add_mset ?e (mset as + mset bs)"
    using arg_cong[OF ab, of mset] by simp
  ultimately show ?thesis
    using deschedule_pending[OF assms(1) True] e(2) by (simp add: pending_def)
next
  case False
  then have "i \<notin> event_id ` set (live s)" using deschedule_found[OF assms(1)] by blast
  then show ?thesis
    using deschedule_missing[OF assms(1)]
    by (auto simp: pending_def image_iff intro!: filter_mset_id[symmetric])
qed


section \<open>Advancing the clock\<close>

text \<open>
  A well-behaved callback (for a target time): called as the loop calls it, it returns,
  keeps the queue in order, leaves the event being fired in slot 0, and only adds events
  later than the target.
\<close>

definition callback_ok ::
  "('c \<Rightarrow> u64 \<Rightarrow> u64 \<Rightarrow> ('c, 'm) scheduler_scheme \<Rightarrow> ('c, 'm) scheduler_scheme result) \<Rightarrow> u64 \<Rightarrow> bool \<Rightarrow> bool" where
  "callback_ok run final ig \<longleftrightarrow>
     (\<forall>cb ud late s. sched_inv s \<and> 0 < m_num_events s \<and>
        trigger_timestamp (m_events s ! 0) \<le> final \<and> (\<not> ig \<longrightarrow> m_curr_timestamp s = final) \<longrightarrow>
       (\<exists>s' N. run cb ud late s = Inr s' \<and> sched_inv s' \<and> m_events s' ! 0 = m_events s ! 0 \<and>
          pending s' = pending s + N \<and> (\<forall>e \<in># N. final < trigger_timestamp e)))"

lemma call_event_ok:
  assumes "callback_ok run final ig" "sched_inv s" "0 < m_num_events s"
    "trigger_timestamp (m_events s ! 0) \<le> final" "\<not> ig \<Longrightarrow> m_curr_timestamp s = final"
  obtains s' N where "call_event run ev late s = Inr s'" "sched_inv s'" "m_events s' ! 0 = m_events s ! 0"
    "pending s' = pending s + N" "\<forall>e \<in># N. final < trigger_timestamp e"
proof (cases "callback ev")
  case None
  then show thesis using assms that[of s "{#}"] by (simp add: call_event_def)
next
  case (Some cb)
  then show thesis
    using assms(1)[unfolded callback_ok_def, rule_format, of s cb "userdata ev" late] assms(2-5) that
    by (auto simp: call_event_def)
qed

lemma fire_root_ok:
  assumes ok: "callback_ok run final ig" and inv: "sched_inv s" and n: "0 < m_num_events s"
    and le: "trigger_timestamp (m_events s ! 0) \<le> final"
  obtains s' N where "fire_root run final ig s = Inr s'" "sched_inv s'"
    "sq.due_by final s = add_mset (m_events s ! 0) (sq.due_by final s')"
    "sq.later final s' = sq.later final s + N"
proof -
  let ?ev = "m_events s ! 0"
  define late where "late = (if ig then 0 else final - trigger_timestamp ?ev)"
  define s0 where "s0 = s\<lparr>m_curr_timestamp := trigger_timestamp ?ev + late\<rparr>"
  have s0: "sched_inv s0" "0 < m_num_events s0" "trigger_timestamp (m_events s0 ! 0) \<le> final"
    "\<not> ig \<Longrightarrow> m_curr_timestamp s0 = final"
    using inv n le by (simp_all add: s0_def late_def)
  obtain s1 N where s1: "call_event run ?ev late s0 = Inr s1" "sched_inv s1" "m_events s1 ! 0 = ?ev"
    "pending s1 = pending s + N" "\<forall>e \<in># N. final < trigger_timestamp e"
    using call_event_ok[OF ok s0, of ?ev late] by (auto simp: s0_def)
  have "pending s \<noteq> {#}" using inv n by (simp add: pending_empty_iff)
  then have ne: "pending s1 \<noteq> {#}" using s1(4) by simp
  then have n1: "m_num_events s1 \<noteq> 0" using pending_empty_iff[OF s1(2)] by simp
  have "filter_mset (\<lambda>e. trigger_timestamp e \<le> final) N = {#}"
    "filter_mset (\<lambda>e. final < trigger_timestamp e) N = N"
    using s1(5) by (auto intro: filter_mset_id simp: not_le)
  then have due: "sq.due_by final s1 = sq.due_by final s" "sq.later final s1 = sq.later final s + N"
    using s1(4) by (simp_all add: sq.due_by_def sq.later_def)
  show thesis
  proof (rule that[of "drop_root s1" N])
    show "fire_root run final ig s = Inr (drop_root s1)"
      using s1(1) n1 by (simp add: fire_root_def Let_def late_def s0_def pop_event_def)
    show "sched_inv (drop_root s1)" using s1(2) ne by (rule sq.drop_inv)
    show "sq.due_by final s = add_mset ?ev (sq.due_by final (drop_root s1))"
      using sq.due_by_peek(1)[OF s1(2) ne] le s1(3) due by simp
    show "sq.later final (drop_root s1) = sq.later final s + N"
      using sq.due_by_peek(2)[OF s1(2) ne] le s1(3) due by simp
  qed
qed

text \<open>
  With well-behaved callbacks the loop ends after one round per due event, with nothing
  due left and every later event still queued.
\<close>

lemma advance_loop_returns:
  assumes "callback_ok run final ig" "sched_inv s" "size (sq.due_by final s) < fuel"
  shows "\<exists>s' N. advance_loop fuel run final ig s = Inr s' \<and> sched_inv s' \<and>
           sq.due_by final s' = {#} \<and> pending s' = sq.later final s + N"
  using assms(2,3)
proof (induction fuel arbitrary: s)
  case (Suc fuel)
  show ?case
  proof (cases "m_num_events s = 0 \<or> final < trigger_timestamp (m_events s ! 0)")
    case True
    then have "pending s = {#} \<or> final < trigger_timestamp (m_events s ! 0)"
      using pending_empty_iff[OF Suc.prems(1)] by blast
    with True sq.nothing_due[OF Suc.prems(1) this] Suc.prems(1) show ?thesis
      by (intro exI[of _ s] exI[of _ "{#}"]) auto
  next
    case False
    then obtain s' N where s': "fire_root run final ig s = Inr s'" "sched_inv s'"
      "sq.due_by final s = add_mset (m_events s ! 0) (sq.due_by final s')"
      "sq.later final s' = sq.later final s + N"
      using fire_root_ok[OF assms(1) Suc.prems(1)] by (auto simp: not_less)
    with Suc.prems(2) have "size (sq.due_by final s') < fuel" by simp
    from Suc.IH[OF s'(2) this] obtain s'' N' where
      "advance_loop fuel run final ig s' = Inr s''" "sched_inv s''" "sq.due_by final s'' = {#}"
      "pending s'' = sq.later final s' + N'" by blast
    with s' False show ?thesis
      by (intro exI[of _ s''] exI[of _ "N + N'"]) (simp add: add.assoc)
  qed
qed simp


text \<open>
  Callbacks that act on the rest of the machine only. Firing an event is then one update
  of the machine; the loop performs them in the order of the trigger times.
\<close>

definition world_run ::
  "('c \<Rightarrow> u64 \<Rightarrow> u64 \<Rightarrow> 'm \<Rightarrow> 'm) \<Rightarrow> 'c \<Rightarrow> u64 \<Rightarrow> u64 \<Rightarrow>
   ('c, 'm) scheduler_scheme \<Rightarrow> ('c, 'm) scheduler_scheme result" where
  "world_run g cb ud late s = Inr (s\<lparr>scheduler.more := g cb ud late (scheduler.more s)\<rparr>)"

definition fire_world ::
  "('c \<Rightarrow> u64 \<Rightarrow> u64 \<Rightarrow> 'm \<Rightarrow> 'm) \<Rightarrow> u64 \<Rightarrow> bool \<Rightarrow> 'm \<Rightarrow> 'c psx_event \<Rightarrow> 'm" where
  "fire_world g final ig w e =
     (case callback e of None \<Rightarrow> w
      | Some cb \<Rightarrow> g cb (userdata e) (if ig then 0 else final - trigger_timestamp e) w)"

lemma world_run_ok: "callback_ok (world_run g) final ig"
  unfolding callback_ok_def
proof (intro allI impI)
  fix cb ud late and s :: "('a, 'b) scheduler_scheme"
  assume "sched_inv s \<and> 0 < m_num_events s \<and> trigger_timestamp (m_events s ! 0) \<le> final \<and>
    (\<not> ig \<longrightarrow> m_curr_timestamp s = final)"
  then show "\<exists>s' N. world_run g cb ud late s = Inr s' \<and> sched_inv s' \<and>
      m_events s' ! 0 = m_events s ! 0 \<and> pending s' = pending s + N \<and>
      (\<forall>e \<in># N. final < trigger_timestamp e)"
    by (intro exI[of _ "s\<lparr>scheduler.more := g cb ud late (scheduler.more s)\<rparr>"] exI[of _ "{#}"])
      (simp add: world_run_def)
qed

lemma fire_root_world:
  assumes "0 < m_num_events s"
  shows "\<exists>t. fire_root (world_run g) final ig s =
     Inr (drop_root (s\<lparr>m_curr_timestamp := t,
       scheduler.more := fire_world g final ig (scheduler.more s) (m_events s ! 0)\<rparr>))"
  using assms
  by (auto simp: fire_root_def call_event_def world_run_def fire_world_def pop_event_def Let_def
      split: option.split)

lemma drop_root_more [simp]: "scheduler.more (drop_root s) = scheduler.more s"
  by (simp add: drop_root_def)

lemma advance_loop_world:
  assumes "sched_inv s" "size (sq.due_by final s) < fuel"
  shows "\<exists>es s'. advance_loop fuel (world_run g) final ig s = Inr s' \<and> sched_inv s' \<and>
           pending s' = sq.later final s \<and> mset es = sq.due_by final s \<and>
           sorted (map trigger_timestamp es) \<and>
           scheduler.more s' = foldl (fire_world g final ig) (scheduler.more s) es"
  using assms
proof (induction fuel arbitrary: s)
  case (Suc fuel)
  show ?case
  proof (cases "m_num_events s = 0 \<or> final < trigger_timestamp (m_events s ! 0)")
    case True
    then have "pending s = {#} \<or> final < trigger_timestamp (m_events s ! 0)"
      using pending_empty_iff[OF Suc.prems(1)] by blast
    with True sq.nothing_due[OF Suc.prems(1) this] Suc.prems(1) show ?thesis
      by (intro exI[of _ "[]"] exI[of _ s]) auto
  next
    case False
    let ?ev = "m_events s ! 0"
    have n: "0 < m_num_events s" and le: "trigger_timestamp ?ev \<le> final"
      using False by (simp_all add: not_less)
    obtain s' where s': "fire_root (world_run g) final ig s = Inr s'" "sched_inv s'"
      "sq.due_by final s = add_mset ?ev (sq.due_by final s')"
      using fire_root_ok[OF world_run_ok Suc.prems(1) n le] by metis
    obtain t where t: "s' = drop_root (s\<lparr>m_curr_timestamp := t,
       scheduler.more := fire_world g final ig (scheduler.more s) ?ev\<rparr>)"
      using fire_root_world[OF n, of g final ig] s'(1) by auto
    define s0 where "s0 = s\<lparr>m_curr_timestamp := t,
       scheduler.more := fire_world g final ig (scheduler.more s) ?ev\<rparr>"
    have s0: "sched_inv s0" "pending s0 \<noteq> {#}" "m_events s0 ! 0 = ?ev" "pending s0 = pending s"
      "s' = drop_root s0"
      using Suc.prems(1) n t by (simp_all add: s0_def pending_empty_iff)
    have later: "sq.later final s' = sq.later final s"
      using sq.due_by_peek(2)[OF s0(1,2)] le s0 by (simp add: sq.later_def)
    have "size (sq.due_by final s') < fuel" using s'(3) Suc.prems(2) by simp
    from Suc.IH[OF s'(2) this] obtain es s'' where IH:
      "advance_loop fuel (world_run g) final ig s' = Inr s''" "sched_inv s''"
      "pending s'' = sq.later final s'" "mset es = sq.due_by final s'"
      "sorted (map trigger_timestamp es)"
      "scheduler.more s'' = foldl (fire_world g final ig) (scheduler.more s') es" by blast
    have "trigger_timestamp ?ev \<le> trigger_timestamp e" if "e \<in> set es" for e
    proof -
      have "e \<in># sq.due_by final s" using that IH(4) s'(3) by (metis set_mset_mset union_iff add_mset_add_single)
      then show ?thesis by (rule sq.peek_earliest[OF Suc.prems(1)])
    qed
    then show ?thesis
      using False s' IH later s0 by (intro exI[of _ "?ev # es"] exI[of _ s'']) (auto simp: s0_def)
  qed
qed simp


text \<open>
  A periodic callback: it schedules itself again some cycles ahead, as the video and timer
  callbacks do. It is well behaved as long as the period is not zero and the clock does
  not wrap.
\<close>

definition periodic_run ::
  "u64 \<Rightarrow> 'c \<Rightarrow> u64 \<Rightarrow> u64 \<Rightarrow> ('c, 'm) scheduler_scheme \<Rightarrow> ('c, 'm) scheduler_scheme result" where
  "periodic_run period cb ud late s = Inr (snd (schedule period (Some cb) ud s))"

lemma periodic_run_ok:
  assumes "final < final + period"
  shows "callback_ok (periodic_run period) final False"
  unfolding callback_ok_def
proof (intro allI impI)
  fix cb ud late and s :: "('a, 'b) scheduler_scheme"
  assume asm: "sched_inv s \<and> 0 < m_num_events s \<and> trigger_timestamp (m_events s ! 0) \<le> final \<and>
    (\<not> False \<longrightarrow> m_curr_timestamp s = final)"
  let ?s = "snd (schedule period (Some cb) ud s)"
  let ?e = "new_event (final + period) (Some cb) ud s"
  have s: "?s = snd (schedule_absolute (final + period) (Some cb) ud s)"
    using asm by (simp add: schedule_def)
  have le: "trigger_timestamp (m_events s ! 0) \<le> final + period" using asm assms by auto
  have inv: "sched_inv ?s" "m_events ?s ! 0 = m_events s ! 0"
    unfolding s using asm le by (simp_all add: schedule_inv schedule_root)
  have "pending ?s = pending s + (if m_num_events s = MAX_EVENTS then {#} else {#?e#})"
  proof (cases "m_num_events s = MAX_EVENTS")
    case False
    then have "m_num_events s < MAX_EVENTS" using asm by (simp add: sched_inv_def)
    with asm False show ?thesis unfolding s by (simp add: schedule_pending)
  qed (simp add: s schedule_absolute_def)
  then show "\<exists>s' N. periodic_run period cb ud late s = Inr s' \<and> sched_inv s' \<and>
      m_events s' ! 0 = m_events s ! 0 \<and> pending s' = pending s + N \<and>
      (\<forall>e \<in># N. final < trigger_timestamp e)"
    using inv assms
    by (intro exI[of _ ?s] exI[of _ "if m_num_events s = MAX_EVENTS then {#} else {#?e#}"])
      (simp add: periodic_run_def new_event_def)
qed


section \<open>Reachable queues\<close>

text \<open>
  Every history of the public operations from a fresh scheduler. A run of \<open>Advance\<close> may
  use any callbacks that are well behaved for its target time.
\<close>

inductive reachable_sched :: "('c, 'm) scheduler_scheme \<Rightarrow> bool" where
  Construct: "scheduler.truncate s = init_scheduler \<Longrightarrow> reachable_sched s"
| Schedule: "reachable_sched s \<Longrightarrow> reachable_sched (snd (schedule n cb ud s))"
| ScheduleAbsolute: "reachable_sched s \<Longrightarrow> reachable_sched (snd (schedule_absolute t cb ud s))"
| Deschedule: "reachable_sched s \<Longrightarrow> reachable_sched (snd (deschedule i s))"
| Advance: "reachable_sched s \<Longrightarrow> callback_ok run (m_curr_timestamp s + n) ig \<Longrightarrow>
    advance fuel run n ig s = Inr s' \<Longrightarrow> reachable_sched s'"

inductive_cases reachable_schedE: "reachable_sched s"

lemma sched_inv_truncate:
  "scheduler.truncate s = init_scheduler \<Longrightarrow> sched_inv s"
  by (cases s) (auto simp: scheduler.truncate_def init_scheduler_def sched_inv_def live_def heap_from_def)

lemma advance_loop_inv:
  assumes "callback_ok run final ig" "sched_inv s" "advance_loop fuel run final ig s = Inr s'"
  shows "sched_inv s'"
  using assms(2,3)
proof (induction fuel arbitrary: s)
  case (Suc fuel)
  show ?case
  proof (cases "m_num_events s = 0 \<or> final < trigger_timestamp (m_events s ! 0)")
    case False
    then have "0 < m_num_events s" "trigger_timestamp (m_events s ! 0) \<le> final"
      by (auto simp: not_less)
    then obtain s1 where "fire_root run final ig s = Inr s1" "sched_inv s1"
      using fire_root_ok[OF assms(1) Suc.prems(1)] by metis
    with False Suc.prems(2) show ?thesis by (auto intro: Suc.IH[of s1])
  qed (use Suc.prems in \<open>auto split: if_splits\<close>)
qed simp

lemma due_by_size: "sched_inv s \<Longrightarrow> size (sq.due_by t s) \<le> MAX_EVENTS"
  using size_filter_mset_lesseq[of "\<lambda>e. trigger_timestamp e \<le> t" "mset (live s)"] length_live[of s]
  by (simp add: sq.due_by_def pending_def) (simp add: sched_inv_def)


section \<open>Properties\<close>


text \<open>
  Witness: two events are due, one is not; the machine is a log of the user data.
\<close>

definition log_sched :: "(unit, u64 list) scheduler_scheme" where
  "log_sched = snd (schedule 9 (Some ()) 3 (snd (schedule 5 (Some ()) 2 (snd (schedule 7 (Some ()) 1
     (scheduler.extend init_scheduler []))))))"

lemma log_sched_inv: "sched_inv log_sched"
  unfolding log_sched_def schedule_def
  by (intro schedule_inv sched_inv_truncate)
    (simp add: scheduler.truncate_def scheduler.extend_def init_scheduler_def)


text \<open>
  C6. \<open>Advance\<close> with callbacks that may themselves schedule, but only after the target time:
  it returns within 61 rounds, at the target time, with nothing due left in an ordered
  queue and every event that was later than the target still there.
\<close>

theorem advance_returns:
  assumes "sched_inv s" and "MAX_EVENTS < fuel" and "callback_ok run (m_curr_timestamp s + n) ig"
  shows "\<exists>s'. advance fuel run n ig s = Inr s' \<and> sched_inv s' \<and>
           m_curr_timestamp s' = m_curr_timestamp s + n \<and>
           (\<forall>e. e \<in># pending s' \<longrightarrow> m_curr_timestamp s' < trigger_timestamp e) \<and>
           {# e \<in># pending s. m_curr_timestamp s' < trigger_timestamp e #} \<subseteq># pending s'"
proof -
  let ?f = "m_curr_timestamp s + n"
  have "size (sq.due_by ?f s) < fuel" using due_by_size[OF assms(1), of ?f] assms(2) by simp
  from advance_loop_returns[OF assms(3,1) this] obtain s' N where s':
    "advance_loop fuel run ?f ig s = Inr s'" "sched_inv s'" "sq.due_by ?f s' = {#}"
    "pending s' = sq.later ?f s + N" by blast
  have "?f < trigger_timestamp e" if "e \<in># pending s'" for e
  proof (rule ccontr)
    assume "\<not> ?f < trigger_timestamp e"
    then have "e \<in># sq.due_by ?f s'" using that by (simp add: sq.due_by_def not_less)
    with s'(3) show False by simp
  qed
  with s' show ?thesis
    by (intro exI[of _ "s'\<lparr>m_curr_timestamp := ?f\<rparr>"]) (auto simp: advance_def sq.later_def)
qed

theorem advance_returns_witness:
  "\<exists>s'. advance 61 (periodic_run 10) 8 False log_sched = Inr s' \<and> sched_inv s' \<and>
     m_curr_timestamp s' = m_curr_timestamp log_sched + 8 \<and>
     (\<forall>e. e \<in># pending s' \<longrightarrow> m_curr_timestamp s' < trigger_timestamp e) \<and>
     {# e \<in># pending log_sched. m_curr_timestamp s' < trigger_timestamp e #} \<subseteq># pending s'"
proof (rule advance_returns[OF log_sched_inv])
  show "MAX_EVENTS < 61" by (simp add: MAX_EVENTS_def)
  have "m_curr_timestamp log_sched = 0"
    by (simp add: log_sched_def schedule_def schedule_absolute_def Let_def init_scheduler_def
        scheduler.extend_def)
  then show "callback_ok (periodic_run 10) (m_curr_timestamp log_sched + 8) False"
    by (intro periodic_run_ok) simp
qed



text \<open>
  \<open>ScheduleAbsolute\<close> on a queue with room adds exactly the new event, under an identifier
  no queued event has, which is also what it returns, and keeps identifiers distinct (as long
  as the 64-bit counter does not wrap); a full queue is left unchanged and reports
  \<open>INVALID_EVENT\<close>.
\<close>

theorem schedule_adds_event:
  assumes "sched_inv s" and "ids_ok s" and "m_last_id s + 1 \<noteq> 0"
    and "schedule_absolute t cb ud s = (i, s')"
  shows "if m_num_events s = MAX_EVENTS then i = INVALID_EVENT \<and> s' = s
    else pending s' = add_mset \<lparr>event_id = i, registered_timestamp = m_curr_timestamp s,
           trigger_timestamp = t, callback = cb, userdata = ud\<rparr> (pending s) \<and>
         i \<notin> event_id ` set (live s) \<and> i \<noteq> INVALID_EVENT \<and> sched_inv s' \<and> ids_ok s'"
proof (cases "m_num_events s = MAX_EVENTS")
  case True
  then show ?thesis using assms(4) by (simp add: schedule_absolute_def)
next
  case False
  then have lt: "m_num_events s < MAX_EVENTS" using assms(1) by (simp add: sched_inv_def)
  have "m_last_id s \<noteq> INVALID_EVENT" using assms(3) by (auto simp: INVALID_EVENT_def)
  with False schedule_ids(1,2)[OF assms(1,2) lt assms(3), of t cb ud]
    schedule_ids(3)[OF assms(1,2) lt assms(3)] schedule_pending[OF assms(1) lt, of t cb ud] schedule_inv[OF assms(1), of t cb ud] assms(4)
  show ?thesis by (simp add: new_event_def)
qed

lemma init_sched_ok:
  "sched_inv (init_scheduler :: 'c scheduler)" "ids_ok (init_scheduler :: 'c scheduler)"
  by (simp_all add: sched_inv_def ids_ok_def live_def init_scheduler_def heap_from_def)

theorem schedule_adds_event_witness:
  "\<exists>s'. schedule_absolute 5 None 0 (init_scheduler :: unit scheduler) = (0, s') \<and>
     (if m_num_events (init_scheduler :: unit scheduler) = MAX_EVENTS
      then 0 = INVALID_EVENT \<and> s' = (init_scheduler :: unit scheduler)
      else pending s' = add_mset \<lparr>event_id = 0, registered_timestamp = m_curr_timestamp (init_scheduler :: unit scheduler),
             trigger_timestamp = 5, callback = None, userdata = 0\<rparr> (pending init_scheduler) \<and>
           0 \<notin> event_id ` set (live (init_scheduler :: unit scheduler)) \<and> 0 \<noteq> INVALID_EVENT \<and>
           sched_inv s' \<and> ids_ok s')"
proof -
  let ?s = "init_scheduler :: unit scheduler"
  have "fst (schedule_absolute 5 None 0 ?s) = 0"
    by (subst schedule_ids(2)[OF init_sched_ok]) (simp_all add: init_scheduler_def MAX_EVENTS_def)
  then have eq: "schedule_absolute 5 None 0 ?s = (0, snd (schedule_absolute 5 None 0 ?s))"
    by (metis prod.collapse)
  have id: "m_last_id ?s + 1 \<noteq> 0" by (simp add: init_scheduler_def)
  show ?thesis by (intro exI conjI, rule eq, rule schedule_adds_event[OF init_sched_ok id eq])
qed

text \<open>
  \<open>Deschedule\<close> answers true exactly when the identifier is queued; afterwards exactly the
  events with that identifier are gone, the others are all there and the queue is in order.
\<close>

theorem deschedule_removes_event:
  assumes "sched_inv s" and "ids_ok s" and "deschedule i s = (found, s')"
  shows "(found \<longleftrightarrow> (\<exists>e. e \<in># pending s \<and> event_id e = i)) \<and>
    pending s' = {# e \<in># pending s. event_id e \<noteq> i #} \<and>
    m_num_events s' = m_num_events s - of_bool found \<and> sched_inv s' \<and> ids_ok s'"
proof -
  have s': "found = fst (deschedule i s)" "s' = snd (deschedule i s)" using assms(3) by simp_all
  have inv: "sched_inv s'" using deschedule_inv[OF assms(1)] s' by simp
  have pend: "pending s' = {# e \<in># pending s. event_id e \<noteq> i #}"
    using deschedule_exact[OF assms(1,2)] s' by simp
  have "mset (live s') = mset (filter (\<lambda>e. event_id e \<noteq> i) (live s))"
    using pend by (simp add: pending_def)
  note m = this
  have "set (live s') \<subseteq> set (live s)" using mset_eq_setD[OF m] by auto
  moreover have "distinct (map event_id (live s'))"
    unfolding distinct_ids_mset[OF m] using assms(2) by (simp add: ids_ok_def distinct_map_filter)
  moreover have "m_last_id s' = m_last_id s" "m_num_events s' = m_num_events s - of_bool found"
    using assms(3) by (auto simp: deschedule_def Let_def split: if_splits)
  ultimately show ?thesis
    using assms(2) inv pend deschedule_result[OF assms(1), of i] s'(1)
    by (auto simp: ids_ok_def pending_def)
qed

lemma extended_init:
  "sched_inv (scheduler.extend init_scheduler w)" "ids_ok (scheduler.extend init_scheduler w)"
  "m_num_events (scheduler.extend init_scheduler w) = 0" "m_last_id (scheduler.extend init_scheduler w) = 0"
  by (simp_all add: scheduler.extend_def init_scheduler_def sched_inv_def ids_ok_def live_def heap_from_def)

lemma log_sched_ids: "ids_ok log_sched"
  unfolding log_sched_def schedule_def
  by (intro schedule_ids schedule_inv extended_init) (simp_all add: extended_init MAX_EVENTS_def)

theorem deschedule_removes_event_witness:
  "\<exists>found s'. deschedule 1 log_sched = (found, s') \<and>
    (found \<longleftrightarrow> (\<exists>e. e \<in># pending log_sched \<and> event_id e = 1)) \<and>
    pending s' = {# e \<in># pending log_sched. event_id e \<noteq> 1 #} \<and>
    m_num_events s' = m_num_events log_sched - of_bool found \<and> sched_inv s' \<and> ids_ok s'"
  by (intro exI conjI[OF _ deschedule_removes_event[OF log_sched_inv log_sched_ids]])
    (rule prod.collapse[symmetric])+


section \<open>A callback that deschedules\<close>

text \<open>
  The loop removes whatever is in slot 0 after the callback. A callback that deschedules
  another event rebuilds the heap, and among events with equal trigger times another one may
  come to slot 0: it is then removed without having run, and the event that has just run
  stays queued and runs again. The machine below is the list of the events that ran.
\<close>

definition tie_run :: "nat \<Rightarrow> u64 \<Rightarrow> u64 \<Rightarrow> (nat, nat list) scheduler_scheme \<Rightarrow>
    (nat, nat list) scheduler_scheme result" where
  "tie_run cb ud late s =
     (let s' = s\<lparr>scheduler.more := scheduler.more s @ [cb]\<rparr>
      in Inr (if cb = 0 then snd (deschedule 2 s') else s'))"

definition tie_sched :: "(nat, nat list) scheduler_scheme" where
  "tie_sched = snd (schedule 5 (Some 2) 0 (snd (schedule 5 (Some 1) 0 (snd (schedule 5 (Some 0) 0
     (scheduler.extend init_scheduler []))))))"

text \<open>
  Three events are due at the same time; the first one's callback deschedules the third.
  \<open>Advance\<close> then runs the first callback twice and the second one never, although the second
  event was queued, due and not descheduled.
\<close>

theorem advance_tie_refires:
  "case advance 61 tie_run 5 False tie_sched of
     Inr s' \<Rightarrow> scheduler.more s' = [0, 0] \<and> m_num_events s' = 0
   | Inl e \<Rightarrow> False"
  by code_simp

end
