(* ===== verification/Containers.thy ===== *)
theory Containers
  imports PsxPrelude
begin

text \<open>
  The containers of \<open>common/\<close>: the array queue (\<open>Queue.hpp\<close>, the FIFO of the GPU, the SPU,
  the CD drive and the controllers), the array stack (\<open>Stack.hpp\<close>, the syscall frames of the
  CPU) and the arena of fixed-size objects (\<open>FixedSizeArenaAllocator.hpp\<close>, the pool of the
  code cache). Template parameters are the length of the array; pointers into the arena are
  indices. A store outside an array is \<open>UndefinedBehaviour\<close>.
\<close>

section \<open>Queue\<close>

record 'a cqueue =
  m_curr_size :: u64
  arr :: "'a list"

definition queue_new :: "nat \<Rightarrow> 'a \<Rightarrow> 'a cqueue" where
  "queue_new cap d = \<lparr>m_curr_size = 0, arr = replicate cap d\<rparr>"

definition queue_assign :: "'a cqueue \<Rightarrow> 'a cqueue \<Rightarrow> 'a cqueue" where
  "queue_assign other this =
     this\<lparr>m_curr_size := m_curr_size other, arr := take (length (arr this)) (arr other)\<rparr>"

definition queue_at :: "u64 \<Rightarrow> 'a cqueue \<Rightarrow> 'a result" where
  "queue_at i q = (if unat i < length (arr q) then Inr (arr q ! unat i) else Inl UndefinedBehaviour)"

definition queue_peek :: "'a cqueue \<Rightarrow> 'a result" where
  "queue_peek q = queue_at 0 q"

definition queue_back :: "'a cqueue \<Rightarrow> 'a result" where
  "queue_back q = queue_at (m_curr_size q - 1) q"

text \<open>\<open>std::shift_left(arr, arr + n, k)\<close>: nothing moves when \<open>k\<close> is 0 or at least \<open>n\<close>.\<close>

definition shift_left :: "nat \<Rightarrow> nat \<Rightarrow> 'a list \<Rightarrow> 'a list" where
  "shift_left n k xs =
     (if k = 0 \<or> n \<le> k then xs else take (n - k) (drop k xs) @ drop (n - k) xs)"

definition queue_deque :: "'a cqueue \<Rightarrow> ('a \<times> 'a cqueue) result" where
  "queue_deque q =
     bindE (queue_peek q) (\<lambda>item.
       if unat (m_curr_size q) \<le> length (arr q)
       then Inr (item, q\<lparr>arr := shift_left (unat (m_curr_size q)) 1 (arr q),
                         m_curr_size := m_curr_size q - 1\<rparr>)
       else Inl UndefinedBehaviour)"

definition queue_deque_block :: "u64 \<Rightarrow> 'a cqueue \<Rightarrow> ('a list \<times> 'a cqueue) result" where
  "queue_deque_block cnt q =
     (let cnt = min (m_curr_size q) cnt in
      if unat (m_curr_size q) \<le> length (arr q)
      then Inr (take (unat cnt) (arr q),
                q\<lparr>arr := shift_left (unat (m_curr_size q)) (unat cnt) (arr q),
                  m_curr_size := m_curr_size q - cnt\<rparr>)
      else Inl UndefinedBehaviour)"

definition queue_push :: "'a \<Rightarrow> 'a cqueue \<Rightarrow> 'a cqueue result" where
  "queue_push element q =
     (if unat (m_curr_size q) < length (arr q)
      then Inr (q\<lparr>arr := (arr q)[unat (m_curr_size q) := element], m_curr_size := m_curr_size q + 1\<rparr>)
      else Inl UndefinedBehaviour)"

definition queue_empty :: "'a cqueue \<Rightarrow> bool" where
  "queue_empty q \<longleftrightarrow> m_curr_size q \<le> 0"

definition queue_full :: "'a cqueue \<Rightarrow> bool" where
  "queue_full q \<longleftrightarrow> unat (m_curr_size q) = length (arr q)"

definition queue_clear :: "'a cqueue \<Rightarrow> 'a cqueue" where
  "queue_clear q = q\<lparr>m_curr_size := 0\<rparr>"

text \<open>The elements between \<open>begin()\<close> and \<open>end()\<close>.\<close>

definition queue_contents :: "'a cqueue \<Rightarrow> 'a list" where
  "queue_contents q = take (unat (m_curr_size q)) (arr q)"

definition queue_ok :: "'a cqueue \<Rightarrow> bool" where
  "queue_ok q \<longleftrightarrow> 0 < length (arr q) \<and> length (arr q) < 2 ^ 64 \<and>
     unat (m_curr_size q) \<le> length (arr q)"

subsection \<open>The interface\<close>

text \<open>A bounded first-in first-out buffer, as the devices use it.\<close>

locale bounded_fifo =
  fixes inv :: "'q \<Rightarrow> bool"
    and capacity :: "'q \<Rightarrow> nat"
    and contents :: "'q \<Rightarrow> 'a list"
    and enq :: "'a \<Rightarrow> 'q \<Rightarrow> 'q result"
    and deq :: "'q \<Rightarrow> ('a \<times> 'q) result"
    and reset :: "'q \<Rightarrow> 'q"
  assumes bounded: "inv q \<Longrightarrow> length (contents q) \<le> capacity q"
    and enq_room: "inv q \<Longrightarrow> length (contents q) < capacity q \<Longrightarrow>
      \<exists>q'. enq x q = Inr q' \<and> inv q' \<and> capacity q' = capacity q \<and> contents q' = contents q @ [x]"
    and deq_head: "inv q \<Longrightarrow> contents q = x # xs \<Longrightarrow>
      \<exists>q'. deq q = Inr (x, q') \<and> inv q' \<and> capacity q' = capacity q \<and> contents q' = xs"
    and reset_ok: "inv q \<Longrightarrow> inv (reset q) \<and> capacity (reset q) = capacity q \<and> contents (reset q) = []"

text \<open>
  A client is a list of operations; run on the buffer it collects what is dequeued, run on a
  list it is the specification.
\<close>

datatype 'a fifo_op = Enq 'a | Deq | Reset

fun run_fifo :: "('a \<Rightarrow> 'q \<Rightarrow> 'q result) \<Rightarrow> ('q \<Rightarrow> ('a \<times> 'q) result) \<Rightarrow> ('q \<Rightarrow> 'q) \<Rightarrow>
    'a fifo_op list \<Rightarrow> 'q \<Rightarrow> ('a list \<times> 'q) result" where
  "run_fifo enq deq reset [] q = Inr ([], q)"
| "run_fifo enq deq reset (Enq x # ops) q = bindE (enq x q) (run_fifo enq deq reset ops)"
| "run_fifo enq deq reset (Deq # ops) q =
     bindE (deq q) (\<lambda>(x, q'). bindE (run_fifo enq deq reset ops q') (\<lambda>(out, q''). Inr (x # out, q'')))"
| "run_fifo enq deq reset (Reset # ops) q = run_fifo enq deq reset ops (reset q)"

fun run_list :: "nat \<Rightarrow> 'a fifo_op list \<Rightarrow> 'a list \<Rightarrow> ('a list \<times> 'a list) option" where
  "run_list cap [] xs = Some ([], xs)"
| "run_list cap (Enq x # ops) xs = (if length xs < cap then run_list cap ops (xs @ [x]) else None)"
| "run_list cap (Deq # ops) [] = None"
| "run_list cap (Deq # ops) (x # xs) = map_option (\<lambda>(out, ys). (x # out, ys)) (run_list cap ops xs)"
| "run_list cap (Reset # ops) xs = run_list cap ops []"

context bounded_fifo
begin

lemma run_refines:
  assumes "inv q" "run_list (capacity q) ops (contents q) = Some (out, ys)"
  shows "\<exists>q'. run_fifo enq deq reset ops q = Inr (out, q') \<and> inv q' \<and> contents q' = ys"
  using assms
proof (induction ops arbitrary: q out)
  case (Cons op ops)
  show ?case
  proof (cases op)
    case (Enq x)
    with Cons.prems have "length (contents q) < capacity q" by (simp split: if_splits)
    from enq_room[OF Cons.prems(1) this, of x] obtain q' where
      "enq x q = Inr q'" "inv q'" "capacity q' = capacity q" "contents q' = contents q @ [x]" by blast
    with Cons.prems(2) Cons.IH[of q'] Enq show ?thesis by (simp split: if_splits)
  next
    case Deq
    with Cons.prems(2) obtain x xs where xs: "contents q = x # xs" by (cases "contents q") auto
    from deq_head[OF Cons.prems(1) this] obtain q' where
      q': "deq q = Inr (x, q')" "inv q'" "capacity q' = capacity q" "contents q' = xs" by blast
    with Cons.prems(2) Cons.IH[of q'] Deq xs show ?thesis by fastforce
  next
    case Reset
    with Cons.prems Cons.IH[of "reset q"] reset_ok[OF Cons.prems(1)] show ?thesis by simp
  qed
qed simp

lemma enq_all:
  assumes "inv q" "contents q = []" "length xs \<le> capacity q"
  shows "\<exists>q'. run_fifo enq deq reset (map Enq xs @ replicate (length xs) Deq) q = Inr (xs, q') \<and>
           inv q' \<and> contents q' = []"
proof (rule run_refines[OF assms(1)])
  have deq: "run_list c (replicate (length ys) Deq) ys = Some (ys, [])" for c and ys :: "'a list"
    by (induction ys) auto
  have "run_list c (map Enq xs @ replicate (length zs + length xs) Deq) zs = Some (zs @ xs, [])"
    if "length zs + length xs \<le> c" for c zs
    using that
  proof (induction xs arbitrary: zs)
    case (Cons x xs)
    then show ?case using Cons.IH[of "zs @ [x]"] by simp
  qed (simp add: deq)
  from this[of "[]" "capacity q"] assms(2,3)
  show "run_list (capacity q) (map Enq xs @ replicate (length xs) Deq) (contents q) = Some (xs, [])"
    by simp
qed

end

subsection \<open>The array queue provides it\<close>

lemma length_shift_left [simp]: "n \<le> length xs \<Longrightarrow> length (shift_left n k xs) = length xs"
  by (auto simp: shift_left_def)

lemma shift_left_Nil [simp]: "n \<le> length xs \<Longrightarrow> shift_left n k xs = [] \<longleftrightarrow> xs = []"
  using length_shift_left[of n xs k] by (metis length_0_conv)

lemma take_shift_left:
  "n \<le> length xs \<Longrightarrow> k \<le> n \<Longrightarrow> take (n - k) (shift_left n k xs) = drop k (take n xs)"
  by (auto simp: shift_left_def drop_take)

lemma length_queue_contents: "queue_ok q \<Longrightarrow> length (queue_contents q) = unat (m_curr_size q)"
  by (simp add: queue_ok_def queue_contents_def)

lemma queue_push_ok:
  assumes "queue_ok q" "length (queue_contents q) < length (arr q)"
  shows "\<exists>q'. queue_push x q = Inr q' \<and> queue_ok q' \<and> length (arr q') = length (arr q) \<and>
    queue_contents q' = queue_contents q @ [x]"
proof -
  have lt: "unat (m_curr_size q) < length (arr q)" using assms by (simp add: length_queue_contents)
  then have "unat (m_curr_size q) + 1 < 2 ^ 64" using assms(1) by (simp add: queue_ok_def)
  then have "unat (m_curr_size q + 1) = Suc (unat (m_curr_size q))"
    by (simp add: unat_word_ariths)
  with lt assms(1) show ?thesis
    by (simp add: queue_push_def queue_ok_def queue_contents_def mset_take_Suc_update)
qed

lemma queue_deque_block_ok:
  assumes "queue_ok q"
  shows "\<exists>q'. queue_deque_block n q = Inr (take (unat n) (queue_contents q), q') \<and> queue_ok q' \<and>
    length (arr q') = length (arr q) \<and> queue_contents q' = drop (unat n) (queue_contents q)"
proof -
  let ?m = "min (m_curr_size q) n"
  have m: "unat ?m = min (unat (m_curr_size q)) (unat n)" by (simp add: min_def word_le_nat_alt)
  have "unat (m_curr_size q - ?m) = unat (m_curr_size q) - unat ?m"
    by (rule unat_sub) simp
  moreover have "unat (m_curr_size q) \<le> length (arr q)" using assms by (simp add: queue_ok_def)
  ultimately show ?thesis
    using assms m take_shift_left[of "unat (m_curr_size q)" "arr q" "unat ?m"]
    by (auto simp: queue_deque_block_def queue_ok_def queue_contents_def Let_def min_def)
qed

lemma queue_deque_ok:
  assumes "queue_ok q" "queue_contents q = x # xs"
  shows "\<exists>q'. queue_deque q = Inr (x, q') \<and> queue_ok q' \<and> length (arr q') = length (arr q) \<and>
    queue_contents q' = xs"
proof -
  have n: "unat (m_curr_size q) \<le> length (arr q)" "0 < unat (m_curr_size q)" "arr q ! 0 = x"
    using assms by (auto simp: queue_ok_def queue_contents_def neq_Nil_conv take_Cons' split: if_splits)
  then have "unat (m_curr_size q - 1) = unat (m_curr_size q) - 1"
    by (intro unat_minus_one) auto
  with assms n take_shift_left[of "unat (m_curr_size q)" "arr q" 1] show ?thesis
    by (auto simp: queue_deque_def queue_peek_def queue_at_def queue_ok_def queue_contents_def)
qed

interpretation cq: bounded_fifo queue_ok "\<lambda>q. length (arr q)" queue_contents queue_push queue_deque queue_clear
proof unfold_locales
  fix q :: "'a cqueue" and x xs
  assume ok: "queue_ok q"
  then show "length (queue_contents q) \<le> length (arr q)" by (simp add: queue_contents_def)
  show "queue_ok (queue_clear q) \<and> length (arr (queue_clear q)) = length (arr q) \<and>
      queue_contents (queue_clear q) = []"
    using ok by (simp add: queue_clear_def queue_ok_def queue_contents_def)
  show "length (queue_contents q) < length (arr q) \<Longrightarrow> \<exists>q'. queue_push x q = Inr q' \<and> queue_ok q' \<and>
      length (arr q') = length (arr q) \<and> queue_contents q' = queue_contents q @ [x]"
    using ok by (rule queue_push_ok)
  show "queue_contents q = x # xs \<Longrightarrow> \<exists>q'. queue_deque q = Inr (x, q') \<and> queue_ok q' \<and>
      length (arr q') = length (arr q) \<and> queue_contents q' = xs"
    using ok by (rule queue_deque_ok)
qed


section \<open>Stack\<close>

record 'a cstack =
  m_stacktop :: u32
  m_thestack :: "'a list"

definition stack_new :: "nat \<Rightarrow> 'a \<Rightarrow> 'a cstack" where
  "stack_new cap d = \<lparr>m_stacktop = 0, m_thestack = replicate cap d\<rparr>"

definition stack_at :: "u32 \<Rightarrow> 'a cstack \<Rightarrow> 'a result" where
  "stack_at i st =
     (if unat i < length (m_thestack st) then Inr (m_thestack st ! unat i) else Inl UndefinedBehaviour)"

definition stack_top :: "'a cstack \<Rightarrow> 'a result" where
  "stack_top st = stack_at (m_stacktop st - 1) st"

definition stack_pop :: "'a cstack \<Rightarrow> ('a \<times> 'a cstack) result" where
  "stack_pop st =
     (let st' = st\<lparr>m_stacktop := m_stacktop st - 1\<rparr>
      in bindE (stack_at (m_stacktop st') st') (\<lambda>x. Inr (x, st')))"

definition stack_push :: "'a \<Rightarrow> 'a cstack \<Rightarrow> 'a cstack result" where
  "stack_push x st =
     (if unat (m_stacktop st) < length (m_thestack st)
      then Inr (st\<lparr>m_thestack := (m_thestack st)[unat (m_stacktop st) := x], m_stacktop := m_stacktop st + 1\<rparr>)
      else Inl UndefinedBehaviour)"

text \<open>The stack's elements, the top first.\<close>

definition stack_contents :: "'a cstack \<Rightarrow> 'a list" where
  "stack_contents st = rev (take (unat (m_stacktop st)) (m_thestack st))"

lemma stack_push_pop:
  assumes "unat (m_stacktop st) < length (m_thestack st)"
  obtains st' where "stack_push x st = Inr st'" "stack_contents st' = x # stack_contents st \<or> m_stacktop st' = 0"
    "stack_pop st' = Inr (x, st'\<lparr>m_stacktop := m_stacktop st\<rparr>)"
proof -
  let ?st = "st\<lparr>m_thestack := (m_thestack st)[unat (m_stacktop st) := x], m_stacktop := m_stacktop st + 1\<rparr>"
  have "unat (m_stacktop st + 1) = Suc (unat (m_stacktop st)) \<or> m_stacktop st + 1 = 0"
    by (metis unatSuc add.commute)
  then show thesis
    using assms
    by (intro that[of ?st])
      (auto simp: stack_push_def stack_pop_def stack_at_def stack_contents_def Let_def mset_take_Suc_update)
qed


section \<open>Arena\<close>

record 'a arena_node =
  element :: "'a"
  used :: bool
  next_free :: "nat option"

record 'a arena =
  m_pool :: "'a arena_node list"
  m_size :: u64

text \<open>
  The constructor chains every node to its successor. With a pool of size 0 the source's
  bound \<open>pool_size - 1\<close> wraps and the loop leaves the array.
\<close>

definition arena_new :: "u64 \<Rightarrow> 'a \<Rightarrow> 'a arena result" where
  "arena_new pool_size d =
     (if pool_size = 0 then Inl UndefinedBehaviour
      else Inr \<lparr>m_pool = map (\<lambda>i. \<lparr>element = d, used = False,
                     next_free = (if i + 1 < unat pool_size then Some (i + 1) else None)\<rparr>)
                   [0..<unat pool_size],
                m_size = pool_size\<rparr>)"

definition node_at :: "nat \<Rightarrow> 'a arena \<Rightarrow> 'a arena_node result" where
  "node_at i a = (if i < length (m_pool a) then Inr (m_pool a ! i) else Inl UndefinedBehaviour)"

definition upd_node :: "nat \<Rightarrow> ('a arena_node \<Rightarrow> 'a arena_node) \<Rightarrow> 'a arena \<Rightarrow> 'a arena" where
  "upd_node i f a = a\<lparr>m_pool := (m_pool a)[i := f (m_pool a ! i)]\<rparr>"

text \<open>The result is the index of the element, or \<open>None\<close> for the null pointer.\<close>

definition arena_alloc :: "'a arena \<Rightarrow> (nat option \<times> 'a arena) result" where
  "arena_alloc a =
     bindE (node_at 0 a) (\<lambda>first.
       if \<not> used first then Inr (Some 0, upd_node 0 (used_update (\<lambda>_. True)) a)
       else case next_free first of
         None \<Rightarrow> Inr (None, a)
       | Some old_free \<Rightarrow>
           bindE (node_at old_free a) (\<lambda>old.
             Inr (Some old_free,
                  upd_node old_free (\<lambda>n. n\<lparr>used := True, next_free := None\<rparr>)
                    (upd_node 0 (next_free_update (\<lambda>_. next_free old)) a))))"

text \<open>A pointer is given by its distance from the pool, in nodes.\<close>

definition arena_free :: "int \<Rightarrow> 'a arena \<Rightarrow> (bool \<times> 'a arena) result" where
  "arena_free ptr a =
     (if ptr < 0 \<or> uint (m_size a) \<le> ptr then Inr (False, a)
      else let i = nat ptr in
        bindE (node_at i a) (\<lambda>nd.
          if \<not> used nd then Inr (False, a)
          else let a' = (if i \<noteq> 0
                         then upd_node 0 (next_free_update (\<lambda>_. Some i))
                                (upd_node i (next_free_update (\<lambda>_. next_free (m_pool a ! 0))) a)
                         else a)
               in Inr (True, upd_node i (used_update (\<lambda>_. False)) a')))"

subsection \<open>The free list\<close>

fun chain :: "'a arena_node list \<Rightarrow> nat option \<Rightarrow> nat list \<Rightarrow> bool" where
  "chain ns p [] \<longleftrightarrow> p = None"
| "chain ns p (i # fl) \<longleftrightarrow> p = Some i \<and> i < length ns \<and> chain ns (next_free (ns ! i)) fl"

definition used_set :: "'a arena \<Rightarrow> nat set" where
  "used_set a = {i. i < length (m_pool a) \<and> used (m_pool a ! i)}"

definition free_list_ok :: "'a arena \<Rightarrow> nat list \<Rightarrow> bool" where
  "free_list_ok a fl \<longleftrightarrow> chain (m_pool a) (next_free (m_pool a ! 0)) fl \<and> distinct fl \<and>
     (\<forall>i. i \<in> set fl \<longleftrightarrow> 0 < i \<and> i < length (m_pool a) \<and> i \<notin> used_set a)"

definition arena_ok :: "'a arena \<Rightarrow> bool" where
  "arena_ok a \<longleftrightarrow> 0 < length (m_pool a) \<and> unat (m_size a) = length (m_pool a) \<and>
     (\<exists>fl. free_list_ok a fl)"

lemma chain_frame:
  "chain ns p fl \<Longrightarrow> i \<notin> set fl \<Longrightarrow> chain (ns[i := n]) p fl"
  by (induction ns p fl rule: chain.induct) auto

lemma upd_node_simps [simp]:
  "length (m_pool (upd_node i f a)) = length (m_pool a)"
  "m_pool (upd_node i f a) = [] \<longleftrightarrow> m_pool a = []"
  "m_size (upd_node i f a) = m_size a"
  by (simp_all add: upd_node_def)

lemma nth_upd_node [simp]:
  "i < length (m_pool a) \<Longrightarrow> j < length (m_pool a) \<Longrightarrow>
   m_pool (upd_node i f a) ! j = (if j = i then f (m_pool a ! i) else m_pool a ! j)"
  by (simp add: upd_node_def)

lemma chain_upd_node:
  "chain (m_pool a) p fl \<Longrightarrow> i \<notin> set fl \<Longrightarrow> chain (m_pool (upd_node i f a)) p fl"
  by (simp add: upd_node_def chain_frame)

lemma chain_upt:
  assumes "\<And>i. i < length ns \<Longrightarrow> next_free (ns ! i) = (if i + 1 < length ns then Some (i + 1) else None)"
    and "k \<le> length ns"
  shows "chain ns (if k < length ns then Some k else None) [k..<length ns]"
  using assms(2)
proof (induction "length ns - k" arbitrary: k)
  case (Suc n)
  then have "chain ns (if Suc k < length ns then Some (Suc k) else None) [Suc k..<length ns]" by simp
  moreover have "k < length ns" using Suc.hyps(2) by simp
  ultimately show ?case using assms(1)[of k] by (subst upt_conv_Cons) auto
qed simp

lemma arena_new_ok:
  assumes "arena_new n d = Inr a"
  shows "arena_ok a" "used_set a = {}" "length (m_pool a) = unat n"
proof -
  let ?ns = "m_pool a"
  have n: "n \<noteq> 0" and len: "length ?ns = unat n" and sz: "m_size a = n"
    using assms by (auto simp: arena_new_def split: if_splits)
  have nth: "next_free (?ns ! i) = (if i + 1 < length ?ns then Some (i + 1) else None) \<and> \<not> used (?ns ! i)"
    if "i < length ?ns" for i
    using that assms n by (auto simp: arena_new_def)
  have pos: "0 < length ?ns" using n len by (simp add: unat_gt_0)
  have "free_list_ok a [1..<length ?ns]"
    using chain_upt[of ?ns 1] nth pos by (auto simp: free_list_ok_def used_set_def)
  then show "arena_ok a" using pos len sz by (auto simp: arena_ok_def)
  show "used_set a = {}" using nth by (auto simp: used_set_def)
  show "length ?ns = unat n" by (rule len)
qed

text \<open>
  Allocation takes the first node while it is free and the head of the list otherwise; it
  fails only when every node is in use.
\<close>

lemma arena_alloc_ok:
  assumes "arena_ok a"
  shows "\<exists>p a'. arena_alloc a = Inr (p, a') \<and> arena_ok a' \<and> length (m_pool a') = length (m_pool a) \<and>
    (case p of
       None \<Rightarrow> a' = a \<and> used_set a = {..<length (m_pool a)}
     | Some i \<Rightarrow> i < length (m_pool a) \<and> i \<notin> used_set a \<and> used_set a' = insert i (used_set a))"
proof -
  have pos: "0 < length (m_pool a)" and sz: "unat (m_size a) = length (m_pool a)"
    using assms by (auto simp: arena_ok_def)
  obtain fl where fl: "free_list_ok a fl" using assms by (auto simp: arena_ok_def)
  have notin: "0 \<notin> set fl" using fl by (auto simp: free_list_ok_def)
  show ?thesis
  proof (cases "used (m_pool a ! 0)")
    case False
    let ?a = "upd_node 0 (used_update (\<lambda>_. True)) a"
    have set: "used_set ?a = insert 0 (used_set a)"
      using pos by (auto simp: used_set_def split: if_splits)
    moreover have "free_list_ok ?a fl"
      using fl pos notin chain_upd_node[of a _ fl 0] by (auto simp: free_list_ok_def set)
    moreover have "arena_alloc a = Inr (Some 0, ?a)" using False pos by (simp add: arena_alloc_def node_at_def)
    moreover have "0 \<notin> used_set a" using False by (simp add: used_set_def)
    ultimately show ?thesis using pos sz by (auto simp: arena_ok_def)
  next
    case True
    show ?thesis
    proof (cases fl)
      case Nil
      then have none: "next_free (m_pool a ! 0) = None" using fl by (simp add: free_list_ok_def)
      have all: "used (m_pool a ! i)" if "i < length (m_pool a)" for i
      proof (cases "i = 0")
        case False
        with fl Nil that show ?thesis by (auto simp: free_list_ok_def used_set_def)
      qed (use True in simp)
      then have "used_set a = {..<length (m_pool a)}" by (auto simp: used_set_def)
      with none True assms pos show ?thesis by (simp add: arena_alloc_def node_at_def)
    next
      case (Cons i js)
      let ?a = "upd_node i (\<lambda>n. n\<lparr>used := True, next_free := None\<rparr>)
        (upd_node 0 (next_free_update (\<lambda>_. next_free (m_pool a ! i))) a)"
      have i: "next_free (m_pool a ! 0) = Some i" "0 < i" "i < length (m_pool a)"
        "\<not> used (m_pool a ! i)" "i \<notin> set js" "0 \<notin> set js"
        using fl Cons notin by (auto simp: free_list_ok_def used_set_def)
      have set: "used_set ?a = insert i (used_set a)"
        using i pos by (auto simp: used_set_def split: if_splits)
      have "chain (m_pool a) (next_free (m_pool a ! i)) js" using fl Cons by (simp add: free_list_ok_def)
      then have "chain (m_pool ?a) (next_free (m_pool ?a ! 0)) js"
        using i pos by (simp add: chain_upd_node)
      moreover have "j \<in> set js \<longleftrightarrow> 0 < j \<and> j < length (m_pool a) \<and> j \<notin> used_set ?a" for j
        using fl Cons i(5) unfolding free_list_ok_def set by auto
      ultimately have "free_list_ok ?a js" using fl Cons by (simp add: free_list_ok_def)
      moreover note set
      moreover have "arena_alloc a = Inr (Some i, ?a)"
        using True i pos by (simp add: arena_alloc_def node_at_def)
      moreover have "i \<notin> used_set a" using i by (simp add: used_set_def)
      ultimately show ?thesis using i pos sz by (auto simp: arena_ok_def)
    qed
  qed
qed

lemma arena_free_used:
  assumes ok: "arena_ok a" and i: "i \<in> used_set a"
  shows "\<exists>a'. arena_free (int i) a = Inr (True, a') \<and> arena_ok a' \<and>
    length (m_pool a') = length (m_pool a) \<and> used_set a' = used_set a - {i}"
proof -
  have pos: "0 < length (m_pool a)" and sz: "unat (m_size a) = length (m_pool a)"
    using ok by (auto simp: arena_ok_def)
  obtain fl where fl: "free_list_ok a fl" using ok by (auto simp: arena_ok_def)
  have usz: "uint (m_size a) = int (length (m_pool a))" unfolding sz[symmetric] by simp
  have lt: "i < length (m_pool a)" "used (m_pool a ! i)" using i by (auto simp: used_set_def)
  define b where "b = upd_node 0 (next_free_update (\<lambda>_. Some i))
    (upd_node i (next_free_update (\<lambda>_. next_free (m_pool a ! 0))) a)"
  define a' where "a' = upd_node i (used_update (\<lambda>_. False)) (if i \<noteq> 0 then b else a)"
  have eq: "arena_free (int i) a = Inr (True, a')"
    using lt usz by (simp add: arena_free_def node_at_def Let_def a'_def b_def)
  have len: "length (m_pool a') = length (m_pool a)" "m_size a' = m_size a"
    by (simp_all add: a'_def b_def)
  have set: "used_set a' = used_set a - {i}"
    using lt pos by (auto simp: used_set_def a'_def b_def split: if_splits)
  have mem: "j \<in> set fl \<longleftrightarrow> 0 < j \<and> j < length (m_pool a) \<and> j \<notin> used_set a" for j
    using fl by (simp add: free_list_ok_def)
  have ch: "chain (m_pool a) (next_free (m_pool a ! 0)) fl" "distinct fl"
    using fl by (simp_all add: free_list_ok_def)
  have "free_list_ok a' (if i = 0 then fl else i # fl)"
  proof (cases "i = 0")
    case True
    then show ?thesis
      using ch mem set pos by (auto simp: free_list_ok_def len a'_def chain_upd_node)
  next
    case False
    have "chain (m_pool a') (next_free (m_pool a' ! 0)) (i # fl)"
      using ch(1) mem False lt pos i by (simp add: a'_def b_def chain_upd_node)
    then show ?thesis using ch(2) mem False lt i by (auto simp: free_list_ok_def len set)
  qed
  then have "arena_ok a'" using pos sz len by (auto simp: arena_ok_def)
  with eq set len show ?thesis by blast
qed

lemma arena_free_unused:
  assumes "arena_ok a" "ptr < 0 \<or> nat ptr \<notin> used_set a"
  shows "arena_free ptr a = Inr (False, a)"
proof -
  have "uint (m_size a) = int (length (m_pool a))" using assms(1) by (metis arena_ok_def uint_nat)
  with assms(2) show ?thesis by (auto simp: arena_free_def node_at_def used_set_def Let_def)
qed

subsection \<open>The allocator interface\<close>

locale pool_allocator =
  fixes inv :: "'p \<Rightarrow> bool"
    and nodes :: "'p \<Rightarrow> nat set"
    and in_use :: "'p \<Rightarrow> nat set"
    and alloc :: "'p \<Rightarrow> (nat option \<times> 'p) result"
    and free :: "int \<Rightarrow> 'p \<Rightarrow> (bool \<times> 'p) result"
  assumes finite_nodes: "finite (nodes p)"
    and use_nodes: "inv p \<Longrightarrow> in_use p \<subseteq> nodes p"
    and alloc_ok: "inv p \<Longrightarrow> \<exists>r p'. alloc p = Inr (r, p') \<and> inv p' \<and> nodes p' = nodes p \<and>
      (case r of None \<Rightarrow> p' = p \<and> in_use p = nodes p
       | Some i \<Rightarrow> i \<in> nodes p - in_use p \<and> in_use p' = insert i (in_use p))"
    and free_ok: "inv p \<Longrightarrow> i \<in> in_use p \<Longrightarrow>
      \<exists>p'. free (int i) p = Inr (True, p') \<and> inv p' \<and> nodes p' = nodes p \<and> in_use p' = in_use p - {i}"

text \<open>\<open>alloc_n\<close> allocates until the pool or the count is exhausted.\<close>

fun alloc_n :: "('p \<Rightarrow> (nat option \<times> 'p) result) \<Rightarrow> nat \<Rightarrow> 'p \<Rightarrow> (nat list \<times> 'p) result" where
  "alloc_n alloc 0 p = Inr ([], p)"
| "alloc_n alloc (Suc k) p =
     bindE (alloc p) (\<lambda>(r, p'). case r of
       None \<Rightarrow> Inr ([], p')
     | Some i \<Rightarrow> bindE (alloc_n alloc k p') (\<lambda>(ps, p''). Inr (i # ps, p'')))"

fun free_all :: "(int \<Rightarrow> 'p \<Rightarrow> (bool \<times> 'p) result) \<Rightarrow> nat list \<Rightarrow> 'p \<Rightarrow> (bool \<times> 'p) result" where
  "free_all free [] p = Inr (True, p)"
| "free_all free (i # ps) p =
     bindE (free (int i) p) (\<lambda>(b, p'). bindE (free_all free ps p') (\<lambda>(c, p''). Inr (b \<and> c, p'')))"

context pool_allocator
begin

lemma alloc_n_ok:
  assumes "inv p"
  shows "\<exists>ps p'. alloc_n alloc k p = Inr (ps, p') \<and> inv p' \<and> nodes p' = nodes p \<and> distinct ps \<and>
    set ps \<inter> in_use p = {} \<and> in_use p' = in_use p \<union> set ps \<and> set ps \<subseteq> nodes p \<and>
    length ps = min k (card (nodes p - in_use p))"
  using assms
proof (induction k arbitrary: p)
  case (Suc k)
  from alloc_ok[OF Suc.prems] obtain r p1 where p1: "alloc p = Inr (r, p1)" "inv p1" "nodes p1 = nodes p"
    "case r of None \<Rightarrow> p1 = p \<and> in_use p = nodes p
     | Some i \<Rightarrow> i \<in> nodes p - in_use p \<and> in_use p1 = insert i (in_use p)" by blast
  show ?case
  proof (cases r)
    case None
    with p1 show ?thesis by auto
  next
    case (Some i)
    from Suc.IH[OF p1(2)] obtain ps p' where IH:
      "alloc_n alloc k p1 = Inr (ps, p')" "inv p'" "nodes p' = nodes p1" "distinct ps"
      "set ps \<inter> in_use p1 = {}" "in_use p' = in_use p1 \<union> set ps" "set ps \<subseteq> nodes p1"
      "length ps = min k (card (nodes p1 - in_use p1))" by blast
    have i: "i \<in> nodes p - in_use p" "in_use p1 = insert i (in_use p)" using p1(4) Some by auto
    then have "nodes p1 - in_use p1 = (nodes p - in_use p) - {i}" using p1(3) by auto
    then have "card (nodes p - in_use p) = Suc (card (nodes p1 - in_use p1))"
      using i(1) finite_nodes[of p] by (metis card_Suc_Diff1 finite_Diff)
    moreover have "alloc_n alloc (Suc k) p = Inr (i # ps, p')" using p1(1) IH(1) Some by simp
    moreover have "distinct (i # ps)" "set (i # ps) \<inter> in_use p = {}"
      "in_use p' = in_use p \<union> set (i # ps)" "set (i # ps) \<subseteq> nodes p"
      using IH i p1(3) by auto
    ultimately show ?thesis using IH(2,3,8) p1(3) by (intro exI[of _ "i # ps"] exI[of _ p']) simp
  qed
qed simp

lemma free_all_ok:
  assumes "inv p" "distinct ps" "set ps \<subseteq> in_use p"
  shows "\<exists>p'. free_all free ps p = Inr (True, p') \<and> inv p' \<and> nodes p' = nodes p \<and>
    in_use p' = in_use p - set ps"
  using assms
proof (induction ps arbitrary: p)
  case (Cons i ps)
  from Cons.prems free_ok[OF Cons.prems(1), of i] obtain p1 where p1: "free (int i) p = Inr (True, p1)"
    "inv p1" "nodes p1 = nodes p" "in_use p1 = in_use p - {i}" by auto
  with Cons.prems have "set ps \<subseteq> in_use p1" by auto
  with p1 Cons.prems Cons.IH[of p1] show ?case by auto
qed simp

end

interpretation ar: pool_allocator arena_ok "\<lambda>a. {..<length (m_pool a)}" used_set arena_alloc arena_free
proof unfold_locales
  fix a :: "'a arena" and i
  show "finite {..<length (m_pool a)}" by simp
  assume ok: "arena_ok a"
  show "used_set a \<subseteq> {..<length (m_pool a)}" by (auto simp: used_set_def)
  show "\<exists>r a'. arena_alloc a = Inr (r, a') \<and> arena_ok a' \<and> {..<length (m_pool a')} = {..<length (m_pool a)} \<and>
      (case r of None \<Rightarrow> a' = a \<and> used_set a = {..<length (m_pool a)}
       | Some i \<Rightarrow> i \<in> {..<length (m_pool a)} - used_set a \<and> used_set a' = insert i (used_set a))"
    using arena_alloc_ok[OF ok] by (fastforce split: option.splits)
  show "i \<in> used_set a \<Longrightarrow> \<exists>a'. arena_free (int i) a = Inr (True, a') \<and> arena_ok a' \<and>
      {..<length (m_pool a')} = {..<length (m_pool a)} \<and> used_set a' = used_set a - {i}"
    using arena_free_used[OF ok, of i] by auto
qed


section \<open>Properties\<close>

text \<open>
  C3. The array queue is a bounded list: any sequence of queue, deque and clear operations that
  a list of at most \<open>CAPACITY\<close> elements can perform is performed without leaving the array,
  yields the same elements in the same order and ends with the same contents.
\<close>

theorem queue_refines_list:
  assumes "queue_ok q" and "run_list (length (arr q)) ops (queue_contents q) = Some (out, ys)"
  shows "\<exists>q'. run_fifo queue_push queue_deque queue_clear ops q = Inr (out, q') \<and>
    queue_ok q' \<and> queue_contents q' = ys"
  using assms by (rule cq.run_refines)

theorem queue_refines_list_witness:
  "\<exists>q'. run_fifo queue_push queue_deque queue_clear
      [Enq 1, Enq 2, Deq, Enq 3, Reset, Enq 4, Enq 5, Deq, Deq] (queue_new 2 (0 :: u32)) = Inr ([1, 4, 5], q') \<and>
    queue_ok q' \<and> queue_contents q' = []"
  by (rule queue_refines_list)
    (simp_all add: queue_new_def queue_ok_def queue_contents_def)

text \<open>
  The arena hands out each node at most once: \<open>Alloc\<close> returns a node that is not in use and
  marks it, or the null pointer exactly when every node is in use; \<open>Free\<close> accepts exactly the
  pointers to nodes in use and makes that node available again; neither changes any other
  node's use, and neither follows a dangling link.
\<close>

theorem arena_alloc_free:
  assumes "arena_ok a"
  shows "\<exists>p a' ok b.
    arena_alloc a = Inr (p, a') \<and> arena_ok a' \<and>
    (p = None \<longleftrightarrow> used_set a = {..<length (m_pool a)}) \<and>
    used_set a' = used_set a \<union> set_option p \<and> set_option p \<subseteq> {..<length (m_pool a)} - used_set a \<and>
    arena_free ptr a = Inr (ok, b) \<and> arena_ok b \<and>
    (ok \<longleftrightarrow> (\<exists>i \<in> used_set a. ptr = int i)) \<and> int ` used_set b = int ` used_set a - {ptr}"
proof -
  from arena_alloc_ok[OF assms] obtain p a' where al: "arena_alloc a = Inr (p, a')" "arena_ok a'"
    "case p of None \<Rightarrow> a' = a \<and> used_set a = {..<length (m_pool a)}
     | Some i \<Rightarrow> i < length (m_pool a) \<and> i \<notin> used_set a \<and> used_set a' = insert i (used_set a)" by blast
  have "\<exists>ok b. arena_free ptr a = Inr (ok, b) \<and> arena_ok b \<and>
    (ok \<longleftrightarrow> (\<exists>i \<in> used_set a. ptr = int i)) \<and> int ` used_set b = int ` used_set a - {ptr}"
  proof (cases "\<exists>i \<in> used_set a. ptr = int i")
    case True
    then obtain i where i: "i \<in> used_set a" "ptr = int i" by blast
    from arena_free_used[OF assms i(1)] i show ?thesis by (auto simp: image_set_diff[OF inj_of_nat])
  next
    case False
    then have "ptr < 0 \<or> nat ptr \<notin> used_set a" by (metis int_nat_eq not_less)
    from arena_free_unused[OF assms this] False assms show ?thesis by auto
  qed
  then obtain ok b where fr: "arena_free ptr a = Inr (ok, b)" "arena_ok b"
    "ok \<longleftrightarrow> (\<exists>i \<in> used_set a. ptr = int i)" "int ` used_set b = int ` used_set a - {ptr}" by blast
  have "p = None \<longleftrightarrow> used_set a = {..<length (m_pool a)}"
    "used_set a' = used_set a \<union> set_option p" "set_option p \<subseteq> {..<length (m_pool a)} - used_set a"
    using al(3) by (cases p; auto)+
  then show ?thesis
    by (intro exI[of _ p] exI[of _ a'] exI[of _ ok] exI[of _ b] conjI al(1,2) fr)
qed

text \<open>
  From a new arena of \<open>n\<close> nodes, \<open>k\<close> allocations return \<open>min k n\<close> different nodes; freeing
  them in any order succeeds and leaves the arena empty.
\<close>

theorem arena_life_cycle:
  assumes "arena_new n d = Inr a"
  shows "\<exists>ps a1. alloc_n arena_alloc k a = Inr (ps, a1) \<and> distinct ps \<and>
    length ps = min k (unat n) \<and> used_set a1 = set ps \<and>
    (\<forall>qs. mset qs = mset ps \<longrightarrow>
       (\<exists>a2. free_all arena_free qs a1 = Inr (True, a2) \<and> arena_ok a2 \<and> used_set a2 = {}))"
proof -
  note new = arena_new_ok[OF assms]
  from ar.alloc_n_ok[OF new(1), of k] obtain ps a1 where al: "alloc_n arena_alloc k a = Inr (ps, a1)"
    "arena_ok a1" "distinct ps" "used_set a1 = set ps" "length ps = min k (card {..<length (m_pool a)})"
    using new(2) by auto
  have "\<exists>a2. free_all arena_free qs a1 = Inr (True, a2) \<and> arena_ok a2 \<and> used_set a2 = {}"
    if "mset qs = mset ps" for qs
    using ar.free_all_ok[OF al(2), of qs] al(3,4) that
    by (metis Diff_cancel mset_eq_imp_distinct_iff mset_eq_setD subset_refl)
  with al new(3) show ?thesis by auto
qed

theorem arena_life_cycle_witness:
  "\<exists>a. arena_new 3 (0 :: u32) = Inr a \<and>
    (\<exists>ps a1. alloc_n arena_alloc 2 a = Inr (ps, a1) \<and> distinct ps \<and>
      length ps = min 2 (unat (3 :: u64)) \<and> used_set a1 = set ps \<and>
      (\<forall>qs. mset qs = mset ps \<longrightarrow>
         (\<exists>a2. free_all arena_free qs a1 = Inr (True, a2) \<and> arena_ok a2 \<and> used_set a2 = {})))"
proof -
  obtain a where a: "arena_new 3 (0 :: u32) = Inr a" by (simp add: arena_new_def)
  show ?thesis by (intro exI[of _ a] conjI a arena_life_cycle[OF a])
qed

theorem arena_alloc_free_witness:
  "\<exists>a :: u32 arena. arena_ok a \<and> (\<exists>p a' ok b.
    arena_alloc a = Inr (p, a') \<and> arena_ok a' \<and>
    (p = None \<longleftrightarrow> used_set a = {..<length (m_pool a)}) \<and>
    used_set a' = used_set a \<union> set_option p \<and> set_option p \<subseteq> {..<length (m_pool a)} - used_set a \<and>
    arena_free 1 a = Inr (ok, b) \<and> arena_ok b \<and>
    (ok \<longleftrightarrow> (\<exists>i \<in> used_set a. 1 = int i)) \<and> int ` used_set b = int ` used_set a - {1})"
proof -
  obtain a where a: "arena_new 3 (0 :: u32) = Inr a" by (simp add: arena_new_def)
  show ?thesis by (intro exI[of _ a] conjI arena_new_ok(1)[OF a] arena_alloc_free)
qed

text \<open>
  The list of free nodes is not kept in order: the node freed last is allocated first.
\<close>

theorem arena_free_list_unordered:
  "bindE (arena_new 4 (0 :: u32)) (\<lambda>a. bindE (alloc_n arena_alloc 4 a) (\<lambda>(ps, a').
     bindE (free_all arena_free [1, 2] a') (\<lambda>(b, a''). bindE (alloc_n arena_alloc 2 a'')
       (\<lambda>(qs, _). Inr (ps, qs))))) = Inr ([0, 1, 2, 3], [2, 1])"
  by code_simp

end
