(* ===== verification/CodeCache.thy ===== *)
theory CodeCache
  imports Containers
begin

text \<open>
  The cache of translated blocks: \<open>CodeCache.hpp\<close>, \<open>CodeCache.cpp\<close> and \<open>JitBlock.hpp\<close>. The segment is cut
  into buckets, each the head of a list of blocks; the nodes of the lists live in the arena of \<open>Containers\<close>,
  and a pointer to a block is the index of its node. The host's code memory (asmjit's \<open>JitRuntime\<close>) is a state
  of any type with its two operations as parameters: \<open>rt_add\<close> returns whether it failed and the function it
  stored, \<open>rt_release\<close> takes a function back. A walk along a list is given one step more than the pool has nodes.
\<close>

section \<open>Blocks and the cache\<close>

definition SEGMENT_SIZE :: u64 where "SEGMENT_SIZE = 0x20000000"
definition SEGMENT_MASK :: u64 where "SEGMENT_MASK = 0x1FFFFFFF"

datatype jit_end_type = REACHED_BLOCK_MAX_SIZE | UNCONDITIONAL_JUMP | UNAVOIDABLE_EXCEPTION

record jit_block =
  guest_base :: u64
  guest_end :: u64
  num_instructions :: u64
  num_recompilations :: u64
  end_type :: jit_end_type
  host_fn :: u64
  next_block :: "nat option"

record 'r code_cache =
  m_arena :: "jit_block arena"
  m_blocks :: "nat option list"
  m_rt :: 'r
  m_addrspace_blocks :: u64
  m_addrspace_block_sz :: u64
  m_num_blocks :: u64

definition code_cache_new :: "u64 \<Rightarrow> u64 \<Rightarrow> 'r \<Rightarrow> jit_block \<Rightarrow> 'r code_cache result" where
  "code_cache_new block_size max_blocks rt d =
     bindE (arena_new max_blocks d) (\<lambda>a.
       if block_size = 0 then Inl UndefinedBehaviour
       else if SEGMENT_SIZE mod block_size \<noteq> 0 then Inl Thrown
       else Inr \<lparr>m_arena = a, m_blocks = replicate (unat (SEGMENT_SIZE div block_size)) None, m_rt = rt,
                 m_addrspace_blocks = SEGMENT_SIZE div block_size, m_addrspace_block_sz = block_size,
                 m_num_blocks = 0\<rparr>)"

definition block_at :: "nat \<Rightarrow> 'r code_cache \<Rightarrow> jit_block result" where
  "block_at i c = bindE (node_at i (m_arena c)) (\<lambda>n. Inr (element n))"

definition upd_block :: "nat \<Rightarrow> (jit_block \<Rightarrow> jit_block) \<Rightarrow> 'r code_cache \<Rightarrow> 'r code_cache" where
  "upd_block i f c = c\<lparr>m_arena := upd_node i (element_update f) (m_arena c)\<rparr>"

definition list_head :: "nat \<Rightarrow> 'r code_cache \<Rightarrow> nat option result" where
  "list_head k c = (if k < length (m_blocks c) then Inr (m_blocks c ! k) else Inl UndefinedBehaviour)"

definition set_head :: "nat \<Rightarrow> nat option \<Rightarrow> 'r code_cache \<Rightarrow> 'r code_cache" where
  "set_head k p c = c\<lparr>m_blocks := (m_blocks c)[k := p]\<rparr>"

definition bucket :: "u64 \<Rightarrow> 'r code_cache \<Rightarrow> nat" where
  "bucket a c = unat (a div m_addrspace_block_sz c)"

definition steps :: "'r code_cache \<Rightarrow> nat" where "steps c = Suc (length (m_pool (m_arena c)))"

section \<open>Operations\<close>

text \<open>The loop of \<open>AddBlock\<close>: the last node of the list, or \<open>None\<close> when a node before it has the base.\<close>

fun last_node :: "nat \<Rightarrow> u64 \<Rightarrow> nat \<Rightarrow> 'r code_cache \<Rightarrow> nat option result" where
  "last_node 0 b i c = Inl OutOfFuel"
| "last_node (Suc n) b i c =
     bindE (block_at i c) (\<lambda>blk. case next_block blk of
       None \<Rightarrow> Inr (Some i)
     | Some j \<Rightarrow> if guest_base blk = b then Inr None else last_node n b j c)"

definition link_block :: "nat \<Rightarrow> u64 \<Rightarrow> nat \<Rightarrow> 'r code_cache \<Rightarrow> (bool \<times> 'r code_cache) result" where
  "link_block k b p c =
     bindE (list_head k c) (\<lambda>l. case l of
       None \<Rightarrow> Inr (True, set_head k (Some p) c)
     | Some i \<Rightarrow>
         bindE (last_node (steps c) b i c) (\<lambda>r. case r of
           None \<Rightarrow> Inr (False, c)
         | Some j \<Rightarrow> Inr (True, upd_block j (\<lambda>x. x\<lparr>next_block := Some p\<rparr>) c)))"

definition add_block :: "('r \<Rightarrow> (bool \<times> u64) \<times> 'r) \<Rightarrow> jit_block \<Rightarrow> 'r code_cache \<Rightarrow> (bool \<times> 'r code_cache) result" where
  "add_block rt_add blk c =
     (if guest_base blk \<ge> guest_end blk then Inr (False, c)
      else
        let blk = blk\<lparr>guest_base := guest_base blk AND SEGMENT_MASK, guest_end := guest_end blk AND SEGMENT_MASK\<rparr>;
            k = bucket (guest_base blk) c in
        bindE (list_head k c) (\<lambda>l. bindE (arena_alloc (m_arena c)) (\<lambda>(p, a).
          let c = c\<lparr>m_arena := a\<rparr> in
          case p of
            None \<Rightarrow> Inr (False, c)
          | Some p \<Rightarrow>
              bindE (link_block k (guest_base blk) p (upd_block p (\<lambda>_. blk) c)) (\<lambda>(linked, c).
                if \<not> linked then Inr (False, c)
                else
                  let ((failed, fn), rt) = rt_add (m_rt c);
                      c = upd_block p (\<lambda>x. x\<lparr>host_fn := fn\<rparr>) (c\<lparr>m_rt := rt\<rparr>) in
                  if failed then Inr (False, c) else Inr (True, c\<lparr>m_num_blocks := m_num_blocks c + 1\<rparr>)))))"

fun find_block :: "nat \<Rightarrow> u64 \<Rightarrow> nat option \<Rightarrow> 'r code_cache \<Rightarrow> nat option result" where
  "find_block 0 a p c = Inl OutOfFuel"
| "find_block (Suc n) a p c =
     (case p of
        None \<Rightarrow> Inr None
      | Some i \<Rightarrow> bindE (block_at i c) (\<lambda>blk.
          if guest_base blk \<noteq> a then find_block n a (next_block blk) c else Inr (Some i)))"

definition get_block :: "u64 \<Rightarrow> 'r code_cache \<Rightarrow> nat option result" where
  "get_block a c =
     bindE (list_head (bucket (a AND SEGMENT_MASK) c) c) (\<lambda>l. case l of
       None \<Rightarrow> Inr None
     | Some i \<Rightarrow> bindE (block_at i c) (\<lambda>blk.
         if guest_base blk = a then Inr (Some i) else find_block (steps c) a l c))"

definition hit :: "u64 \<Rightarrow> u64 \<Rightarrow> jit_block \<Rightarrow> bool" where
  "hit a e blk \<longleftrightarrow>
     guest_base blk \<le> a \<and> guest_end blk \<ge> e \<or> e > guest_base blk \<and> e \<le> guest_end blk \<or>
     a \<ge> guest_base blk \<and> a \<le> guest_end blk"

text \<open>Unlinking: the list head or the node before moves on; \<open>prev\<close> is null only when the list was empty.\<close>

definition unlink :: "nat \<Rightarrow> nat \<Rightarrow> nat option \<Rightarrow> 'r code_cache \<Rightarrow> (nat option \<times> 'r code_cache) result" where
  "unlink k i prev c =
     bindE (list_head k c) (\<lambda>l. bindE (block_at i c) (\<lambda>blk.
       if l = Some i then Inr (next_block blk, set_head k (next_block blk) c)
       else case prev of
         None \<Rightarrow> Inl UndefinedBehaviour
       | Some j \<Rightarrow> bindE (block_at j c) (\<lambda>_.
           Inr (prev, upd_block j (\<lambda>x. x\<lparr>next_block := next_block blk\<rparr>) c))))"

fun invalidate_loop :: "nat \<Rightarrow> (u64 \<Rightarrow> 'r \<Rightarrow> 'r) \<Rightarrow> nat \<Rightarrow> u64 \<Rightarrow> u64 \<Rightarrow> nat option \<Rightarrow> nat option \<Rightarrow> u64 \<Rightarrow>
    'r code_cache \<Rightarrow> (u64 \<times> 'r code_cache) result" where
  "invalidate_loop 0 rel k a e cur prev cnt c = Inl OutOfFuel"
| "invalidate_loop (Suc n) rel k a e cur prev cnt c =
     (case cur of
        None \<Rightarrow> Inr (cnt, c)
      | Some i \<Rightarrow>
          bindE (block_at i c) (\<lambda>blk.
            if hit a e blk then
              bindE (unlink k i prev c) (\<lambda>(prev, c).
                bindE (block_at i c) (\<lambda>blk.
                  bindE (arena_free (int i) (m_arena c)) (\<lambda>(_, ar).
                    invalidate_loop n rel k a e (next_block blk) prev (cnt + 1)
                      (c\<lparr>m_rt := rel (host_fn blk) (m_rt c), m_arena := ar\<rparr>))))
            else invalidate_loop n rel k a e (next_block blk) cur cnt c))"

definition invalidate_blocks :: "(u64 \<Rightarrow> 'r \<Rightarrow> 'r) \<Rightarrow> u64 \<Rightarrow> u64 \<Rightarrow> 'r code_cache \<Rightarrow> (u64 \<times> 'r code_cache) result" where
  "invalidate_blocks rel a n c =
     (let b = a AND SEGMENT_MASK; k = bucket b c in
      bindE (list_head k c) (\<lambda>l. case l of
        None \<Rightarrow> Inr (0, c)
      | Some i \<Rightarrow> bindE (invalidate_loop (steps c) rel k a (b + n) l l 0 c) (\<lambda>(cnt, c).
          Inr (cnt, c\<lparr>m_num_blocks := m_num_blocks c - cnt\<rparr>))))"

section \<open>Lists in the arena\<close>

definition blocks_of :: "'r code_cache \<Rightarrow> jit_block list" where "blocks_of c = map element (m_pool (m_arena c))"

fun linked :: "jit_block list \<Rightarrow> nat option \<Rightarrow> nat list \<Rightarrow> bool" where
  "linked h p [] \<longleftrightarrow> p = None"
| "linked h p (i # ks) \<longleftrightarrow> p = Some i \<and> i < length h \<and> linked h (next_block (h ! i)) ks"

lemma linked_frame: "i \<notin> set ks \<Longrightarrow> linked (h[i := b]) p ks = linked h p ks"
  by (induction h p ks rule: linked.induct) auto

lemma linked_range: "linked h p ks \<Longrightarrow> set ks \<subseteq> {..<length h}"
  by (induction h p ks rule: linked.induct) auto

text \<open>Giving the node that ends a part another successor makes the list go on with what hangs there.\<close>

lemma linked_redirect:
  assumes "linked h p (ks @ i # js)" "i \<notin> set ks" "i \<notin> set js'" "linked h q js'"
  shows "linked (h[i := (h ! i)\<lparr>next_block := q\<rparr>]) p (ks @ i # js')"
  using assms
proof (induction ks arbitrary: p)
  case Nil
  then show ?case by (simp add: linked_frame)
qed auto

lemma linked_unique: "linked h p ks \<Longrightarrow> linked h p js \<Longrightarrow> ks = js"
  by (induction h p ks arbitrary: js rule: linked.induct) (auto elim: linked.elims)

lemma linked_agree: "linked h p ks \<Longrightarrow> length h' = length h \<Longrightarrow> (\<And>i. i \<in> set ks \<Longrightarrow> next_block (h' ! i) = next_block (h ! i)) \<Longrightarrow> linked h' p ks"
  by (induction h p ks rule: linked.induct) auto

lemma blocks_of_simps [simp]:
  "length (blocks_of c) = length (m_pool (m_arena c))"
  "i < length (m_pool (m_arena c)) \<Longrightarrow> blocks_of (upd_block i f c) = (blocks_of c)[i := f (blocks_of c ! i)]"
  "blocks_of (set_head k p c) = blocks_of c" "blocks_of (c\<lparr>m_rt := r\<rparr>) = blocks_of c"
  "blocks_of (c\<lparr>m_num_blocks := n\<rparr>) = blocks_of c" "blocks_of (c\<lparr>m_arena := a\<rparr>) = map element (m_pool a)"
  by (simp_all add: blocks_of_def upd_block_def upd_node_def set_head_def map_update)

lemma upd_block_simps [simp]:
  "m_blocks (upd_block i f c) = m_blocks c" "m_addrspace_block_sz (upd_block i f c) = m_addrspace_block_sz c"
  "m_addrspace_blocks (upd_block i f c) = m_addrspace_blocks c" "m_rt (upd_block i f c) = m_rt c"
  "m_num_blocks (upd_block i f c) = m_num_blocks c"
  "m_blocks (set_head k p c) = (m_blocks c)[k := p]" "m_addrspace_block_sz (set_head k p c) = m_addrspace_block_sz c"
  "m_arena (set_head k p c) = m_arena c" "m_rt (set_head k p c) = m_rt c" "length (m_pool (m_arena (upd_block i f c))) = length (m_pool (m_arena c))"
  by (simp_all add: upd_block_def set_head_def)

lemma block_at_simp [simp]: "i < length (m_pool (m_arena c)) \<Longrightarrow> block_at i c = Inr (blocks_of c ! i)"
  by (simp add: block_at_def node_at_def blocks_of_def)

lemma list_head_simp [simp]: "k < length (m_blocks c) \<Longrightarrow> list_head k c = Inr (m_blocks c ! k)"
  by (simp add: list_head_def)

text \<open>The arena's bookkeeping does not touch the elements, and writing an element does not touch it.\<close>

lemma element_update_ok:
  assumes "i < length (m_pool a)"
  shows "arena_ok (upd_node i (element_update f) a) = arena_ok a"
    "used_set (upd_node i (element_update f) a) = used_set a"
proof -
  have ch: "chain (m_pool (upd_node i (element_update f) a)) p fl = chain (m_pool a) p fl" for p fl
    using assms by (induction "m_pool a" p fl rule: chain.induct) (auto simp: upd_node_def nth_list_update)
  have hd: "next_free (m_pool (upd_node i (element_update f) a) ! 0) = next_free (m_pool a ! 0)"
    using assms by (cases i) (auto simp: upd_node_def)
  show u: "used_set (upd_node i (element_update f) a) = used_set a"
    using assms by (auto simp: used_set_def split: if_splits)
  show "arena_ok (upd_node i (element_update f) a) = arena_ok a"
    by (simp add: arena_ok_def free_list_ok_def u ch hd)
qed

lemma upd_node_elements: "(\<And>n. element (f n) = element n) \<Longrightarrow> map element (m_pool (upd_node i f a)) = map element (m_pool a)"
  by (cases "i < length (m_pool a)") (auto simp: upd_node_def map_update nth_list_update intro: nth_equalityI)

lemma alloc_elements: "arena_alloc a = Inr (p, a') \<Longrightarrow> map element (m_pool a') = map element (m_pool a)"
  by (auto simp: arena_alloc_def upd_node_elements bindE_Inr_iff split: if_splits option.splits)

lemma free_elements: "arena_free i a = Inr (r, a') \<Longrightarrow> map element (m_pool a') = map element (m_pool a)"
  by (auto simp: arena_free_def upd_node_elements bindE_Inr_iff Let_def split: if_splits)

section \<open>The invariant\<close>

text \<open>The block without its pointer, and the blocks of a bucket as a list.\<close>

definition body :: "jit_block \<Rightarrow> jit_block" where "body b = b\<lparr>next_block := None\<rparr>"

fun list_from :: "nat \<Rightarrow> jit_block list \<Rightarrow> nat option \<Rightarrow> jit_block list" where
  "list_from (Suc n) h (Some i) = (if i < length h then body (h ! i) # list_from n h (next_block (h ! i)) else [])"
| "list_from n h p = []"

definition contents :: "nat \<Rightarrow> 'r code_cache \<Rightarrow> jit_block list" where
  "contents k c = list_from (steps c) (blocks_of c) (m_blocks c ! k)"

definition bucket_ok :: "'r code_cache \<Rightarrow> nat \<Rightarrow> nat list \<Rightarrow> bool" where
  "bucket_ok c k ks \<longleftrightarrow> linked (blocks_of c) (m_blocks c ! k) ks \<and> distinct ks \<and> set ks \<subseteq> used_set (m_arena c) \<and>
     (\<forall>i \<in> set ks. guest_base (blocks_of c ! i) < SEGMENT_SIZE \<and> bucket (guest_base (blocks_of c ! i)) c = k)"

definition cache_ok :: "'r code_cache \<Rightarrow> bool" where
  "cache_ok c \<longleftrightarrow> arena_ok (m_arena c) \<and> m_addrspace_block_sz c \<noteq> 0 \<and> SEGMENT_SIZE mod m_addrspace_block_sz c = 0 \<and>
     length (m_blocks c) = unat (SEGMENT_SIZE div m_addrspace_block_sz c) \<and>
     (\<forall>k < length (m_blocks c). \<exists>ks. bucket_ok c k ks)"

lemma body_simps [simp]:
  "body (b\<lparr>next_block := p\<rparr>) = body b" "guest_base (body b) = guest_base b" "hit a e (body b) = hit a e b"
  by (simp_all add: body_def hit_def)

lemma used_below: "i \<in> used_set a \<Longrightarrow> i < length (m_pool a)" by (simp add: used_set_def)

lemma bucket_below: "bucket_ok c k ks \<Longrightarrow> i \<in> set ks \<Longrightarrow> i < length (m_pool (m_arena c))"
  by (auto simp: bucket_ok_def intro!: used_below)

lemma bucket_short: "bucket_ok c k ks \<Longrightarrow> length ks < steps c"
proof -
  assume ok: "bucket_ok c k ks"
  then have "set ks \<subseteq> {..<length (m_pool (m_arena c))}" by (auto dest: bucket_below)
  from card_mono[OF _ this] show ?thesis
    using ok by (simp add: bucket_ok_def distinct_card steps_def less_Suc_eq_le)
qed

lemma list_from_linked: "linked h p ks \<Longrightarrow> length ks < n \<Longrightarrow> list_from n h p = map (\<lambda>i. body (h ! i)) ks"
proof (induction ks arbitrary: n p)
  case (Cons i ks)
  then show ?case by (cases n) auto
qed (cases n, auto)

lemma contents_eq: "bucket_ok c k ks \<Longrightarrow> contents k c = map (\<lambda>i. body (blocks_of c ! i)) ks"
  unfolding contents_def by (rule list_from_linked) (auto simp: bucket_ok_def intro: bucket_short)

text \<open>A bucket is left alone by whatever keeps its nodes, its head and their place in the arena.\<close>

lemma bucket_frame:
  assumes "bucket_ok c k ks" "length (m_pool (m_arena c')) = length (m_pool (m_arena c))"
    "m_addrspace_block_sz c' = m_addrspace_block_sz c" "m_blocks c' ! k = m_blocks c ! k"
    "\<And>i. i \<in> set ks \<Longrightarrow> blocks_of c' ! i = blocks_of c ! i" "set ks \<subseteq> used_set (m_arena c')"
  shows "bucket_ok c' k ks" "contents k c' = contents k c"
proof -
  show ok: "bucket_ok c' k ks"
    using assms linked_agree[of "blocks_of c" "m_blocks c ! k" ks "blocks_of c'"]
    by (simp add: bucket_ok_def bucket_def)
  show "contents k c' = contents k c" using assms(5) by (simp add: contents_eq[OF ok] contents_eq[OF assms(1)])
qed

lemma bucket_same_links:
  assumes "bucket_ok c k ks" "length (m_pool (m_arena c')) = length (m_pool (m_arena c))"
    "m_addrspace_block_sz c' = m_addrspace_block_sz c" "m_blocks c' ! k = m_blocks c ! k"
    "\<And>i. i \<in> set ks \<Longrightarrow> next_block (blocks_of c' ! i) = next_block (blocks_of c ! i) \<and>
       guest_base (blocks_of c' ! i) = guest_base (blocks_of c ! i)"
    "used_set (m_arena c') = used_set (m_arena c)"
  shows "bucket_ok c' k ks"
  using assms linked_agree[of "blocks_of c" "m_blocks c ! k" ks "blocks_of c'"] by (simp add: bucket_ok_def bucket_def)

lemma masked_below: "(a :: u64) AND SEGMENT_MASK < SEGMENT_SIZE"
proof -
  have "a AND SEGMENT_MASK \<le> SEGMENT_MASK" by (rule word_and_le1)
  then show ?thesis by (simp add: SEGMENT_MASK_def SEGMENT_SIZE_def word_le_nat_alt word_less_nat_alt)
qed

lemma masked_same: "(a :: u64) < SEGMENT_SIZE \<Longrightarrow> a AND SEGMENT_MASK = a"
proof -
  assume a: "a < SEGMENT_SIZE"
  have m: "SEGMENT_MASK = mask 29" by (simp add: SEGMENT_MASK_def mask_numeral)
  have "unat a < 2 ^ 29" using a by (simp add: SEGMENT_SIZE_def word_less_nat_alt)
  then have "unat (take_bit 29 a) = unat a" by (simp add: unsigned_take_bit_eq take_bit_nat_eq_self)
  then show ?thesis unfolding m take_bit_eq_mask[symmetric] by (rule word_unat_eq_iff[THEN iffD2])
qed

lemma bucket_range:
  assumes "cache_ok c" "a < SEGMENT_SIZE"
  shows "bucket a c < length (m_blocks c)"
proof -
  let ?z = "unat (m_addrspace_block_sz c)"
  have "?z dvd unat SEGMENT_SIZE" "0 < ?z"
    using assms(1) by (auto simp: cache_ok_def mod_eq_0_iff_dvd[symmetric] unat_mod[symmetric] unat_gt_0)
  moreover have "unat a < unat SEGMENT_SIZE" using assms(2) by (simp add: word_less_nat_alt)
  ultimately have "unat a div ?z < unat SEGMENT_SIZE div ?z"
    by (auto intro!: less_mult_imp_div_less simp: dvd_def mult.commute)
  then show ?thesis using assms(1) by (simp add: cache_ok_def bucket_def unat_div)
qed

section \<open>Looking a block up\<close>

lemma find_block_ok:
  assumes "linked (blocks_of c) p ks" "length ks < n"
  shows "find_block n a p c = Inr (find (\<lambda>i. guest_base (blocks_of c ! i) = a) ks)"
  using assms
proof (induction ks arbitrary: n p)
  case Nil
  then show ?case by (cases n) auto
next
  case (Cons i ks)
  then show ?case by (cases n) auto
qed

lemma get_block_find:
  assumes "cache_ok c" "bucket_ok c (bucket (a AND SEGMENT_MASK) c) ks"
  shows "get_block a c = Inr (find (\<lambda>i. guest_base (blocks_of c ! i) = a) ks)"
proof -
  have k: "bucket (a AND SEGMENT_MASK) c < length (m_blocks c)" by (rule bucket_range[OF assms(1) masked_below])
  show ?thesis
  proof (cases ks)
    case Nil
    then show ?thesis using assms(2) k by (simp add: get_block_def bucket_ok_def)
  next
    case (Cons i js)
    have p: "m_blocks c ! bucket (a AND SEGMENT_MASK) c = Some i" "i < length (m_pool (m_arena c))"
      using assms(2) Cons by (auto simp: bucket_ok_def)
    have "find_block (steps c) a (Some i) c = Inr (find (\<lambda>i. guest_base (blocks_of c ! i) = a) ks)"
      by (rule find_block_ok) (use assms(2) p bucket_short[OF assms(2)] in \<open>auto simp: bucket_ok_def\<close>)
    with p k Cons show ?thesis by (simp add: get_block_def)
  qed
qed

text \<open>
  A search (\<open>GetBlock\<close>) finds the first block of the bucket with the address as its base, if there is one; an address
  outside the first segment is never found, although \<open>AddBlock\<close> takes blocks of every segment.
\<close>

theorem lookup_is_search:
  assumes "cache_ok c"
  shows "\<exists>r. get_block a c = Inr r \<and>
    map_option (\<lambda>i. body (blocks_of c ! i)) r = find (\<lambda>b. guest_base b = a) (contents (bucket (a AND SEGMENT_MASK) c) c) \<and>
    (a \<ge> SEGMENT_SIZE \<longrightarrow> r = None)"
proof -
  have k: "bucket (a AND SEGMENT_MASK) c < length (m_blocks c)" by (rule bucket_range[OF assms masked_below])
  then obtain ks where ks: "bucket_ok c (bucket (a AND SEGMENT_MASK) c) ks" using assms by (auto simp: cache_ok_def)
  have find_map: "map_option f (find (\<lambda>i. P (f i)) xs) = find P (map f xs)" for f :: "nat \<Rightarrow> jit_block" and P xs
    by (induction xs) auto
  have "find (\<lambda>i. guest_base (blocks_of c ! i) = a) ks = None" if "a \<ge> SEGMENT_SIZE"
    using ks that by (auto simp: find_None_iff bucket_ok_def)
  with get_block_find[OF assms ks] find_map[of "\<lambda>i. body (blocks_of c ! i)" "\<lambda>b. guest_base b = a" ks]
  show ?thesis by (auto simp: contents_eq[OF ks])
qed

section \<open>Adding a block\<close>

lemma last_node_ok:
  assumes "linked (blocks_of c) (Some i) ks" "length ks < n"
  shows "last_node n b i c = Inr (if b \<in> (\<lambda>i. guest_base (blocks_of c ! i)) ` set (butlast ks) then None else Some (last ks))"
  using assms
proof (induction ks arbitrary: n i)
  case (Cons j ks)
  then obtain m where "n = Suc m" by (cases n) auto
  then show ?case using Cons by (cases ks) auto
qed simp

lemma set_next_ok:
  fixes q :: "nat option"
  assumes "j < length (m_pool (m_arena c))"
  defines "c' \<equiv> upd_block j (\<lambda>x. x\<lparr>next_block := q\<rparr>) c"
  shows "blocks_of c' = (blocks_of c)[j := (blocks_of c ! j)\<lparr>next_block := q\<rparr>]" "map body (blocks_of c') = map body (blocks_of c)"
    "used_set (m_arena c') = used_set (m_arena c)" "arena_ok (m_arena c') = arena_ok (m_arena c)"
    "length (m_pool (m_arena c')) = length (m_pool (m_arena c))" "m_blocks c' = m_blocks c"
    "m_addrspace_block_sz c' = m_addrspace_block_sz c" "m_rt c' = m_rt c"
proof -
  show b: "blocks_of c' = (blocks_of c)[j := (blocks_of c ! j)\<lparr>next_block := q\<rparr>]" using assms(1) by (simp add: c'_def)
  show "map body (blocks_of c') = map body (blocks_of c)"
    unfolding b map_update body_simps using assms(1) list_update_id[of "map body (blocks_of c)" j] by simp
  show "used_set (m_arena c') = used_set (m_arena c)" "arena_ok (m_arena c') = arena_ok (m_arena c)"
    using assms(1) by (simp_all add: c'_def upd_block_def element_update_ok)
qed (simp_all add: c'_def)

text \<open>A node linked behind the last one of a bucket, and nothing else changed.\<close>

definition linked_behind :: "nat \<Rightarrow> nat list \<Rightarrow> nat \<Rightarrow> 'r code_cache \<Rightarrow> 'r code_cache \<Rightarrow> bool" where
  "linked_behind k ks p c c' \<longleftrightarrow>
     bucket_ok c' k (ks @ [p]) \<and> map body (blocks_of c') = map body (blocks_of c) \<and>
     used_set (m_arena c') = used_set (m_arena c) \<and> arena_ok (m_arena c') = arena_ok (m_arena c) \<and>
     length (m_blocks c') = length (m_blocks c) \<and> m_addrspace_block_sz c' = m_addrspace_block_sz c \<and>
     m_rt c' = m_rt c \<and> (\<forall>j. j \<noteq> k \<longrightarrow> m_blocks c' ! j = m_blocks c ! j) \<and>
     (\<forall>i. i \<notin> set ks \<longrightarrow> blocks_of c' ! i = blocks_of c ! i)"

lemma link_block_ok:
  assumes "bucket_ok c k ks" "k < length (m_blocks c)" "p \<notin> set ks" "p < length (m_pool (m_arena c))"
    "next_block (blocks_of c ! p) = None" "p \<in> used_set (m_arena c)"
    "guest_base (blocks_of c ! p) = b" "b < SEGMENT_SIZE" "bucket b c = k"
  shows "\<exists>c'. link_block k b p c = Inr (b \<notin> (\<lambda>i. guest_base (blocks_of c ! i)) ` set (butlast ks), c') \<and>
    (if b \<in> (\<lambda>i. guest_base (blocks_of c ! i)) ` set (butlast ks) then c' = c
     else linked_behind k ks p c c')"
proof (cases ks rule: rev_exhaust)
  case Nil
  let ?c = "set_head k (Some p) c"
  have "bucket_ok ?c k [p]" using assms by (simp add: bucket_ok_def bucket_def)
  moreover have "link_block k b p c = Inr (True, ?c)" using assms Nil by (simp add: link_block_def bucket_ok_def)
  ultimately show ?thesis using Nil by (auto simp: linked_behind_def)
next
  case (snoc us j)
  have ok: "linked (blocks_of c) (m_blocks c ! k) (us @ [j])" "distinct (us @ [j])" "set (us @ [j]) \<subseteq> used_set (m_arena c)"
    using assms(1) snoc by (simp_all add: bucket_ok_def)
  then obtain i where i: "m_blocks c ! k = Some i" by (cases us) auto
  have j: "j < length (m_pool (m_arena c))" using ok(3) used_below by auto
  have run: "last_node (steps c) b i c = Inr (if b \<in> (\<lambda>i. guest_base (blocks_of c ! i)) ` set us then None else Some j)"
    using last_node_ok[of c i ks "steps c" b] ok(1) i bucket_short[OF assms(1)] snoc by simp
  let ?c = "upd_block j (\<lambda>x. x\<lparr>next_block := Some p\<rparr>) c"
  note n = set_next_ok[OF j, where q = "Some p"]
  have "p \<noteq> j" "p \<notin> set us" "j \<notin> set us" using ok(2) assms(3) snoc by auto
  then have "linked (blocks_of ?c) (m_blocks c ! k) (us @ j # [p])"
    unfolding n(1) by (intro linked_redirect[OF ok(1)]) (use assms(4,5) in auto)
  moreover have "guest_base (blocks_of ?c ! x) = guest_base (blocks_of c ! x)" for x
    unfolding n(1) using j by (cases "x = j") simp_all
  ultimately have "bucket_ok ?c k (ks @ [p])"
    using assms(1,3,6,7,8,9) ok(2) snoc unfolding bucket_ok_def bucket_def n(3,6,7) by auto
  moreover have "blocks_of ?c ! x = blocks_of c ! x" if "x \<notin> set ks" for x using that snoc unfolding n(1) by auto
  moreover have "link_block k b p c = Inr (b \<notin> (\<lambda>i. guest_base (blocks_of c ! i)) ` set us,
      if b \<in> (\<lambda>i. guest_base (blocks_of c ! i)) ` set us then c else ?c)"
    using assms(2) i run by (auto simp: link_block_def)
  ultimately show ?thesis using n snoc unfolding linked_behind_def by (intro exI[of _ "if b \<in> (\<lambda>i. guest_base (blocks_of c ! i)) ` set us then c else ?c"]) simp
qed

text \<open>A change of one bucket, and of nodes that belong to no other one.\<close>

lemma cache_ok_change:
  assumes "cache_ok c" "k < length (m_blocks c)" "bucket_ok c k ks" "bucket_ok c' k ks'" "arena_ok (m_arena c')"
    "length (m_pool (m_arena c')) = length (m_pool (m_arena c))" "m_addrspace_block_sz c' = m_addrspace_block_sz c"
    "length (m_blocks c') = length (m_blocks c)" "\<And>j. j \<noteq> k \<Longrightarrow> m_blocks c' ! j = m_blocks c ! j"
    "\<And>i. i \<in> used_set (m_arena c) \<Longrightarrow> i \<notin> set ks \<Longrightarrow> i \<in> used_set (m_arena c') \<and> blocks_of c' ! i = blocks_of c ! i"
  shows "cache_ok c'" "\<And>j. j < length (m_blocks c) \<Longrightarrow> j \<noteq> k \<Longrightarrow> contents j c' = contents j c"
proof -
  have other: "bucket_ok c' j js \<and> contents j c' = contents j c" if j: "j \<noteq> k" "bucket_ok c j js" for j js
  proof -
    have "i \<in> used_set (m_arena c) \<and> i \<notin> set ks" if "i \<in> set js" for i
      using that j assms(3) by (auto simp: bucket_ok_def)
    then have "i \<in> used_set (m_arena c') \<and> blocks_of c' ! i = blocks_of c ! i" if "i \<in> set js" for i
      using that assms(10) by blast
    then show ?thesis using bucket_frame[OF j(2) assms(6,7) assms(9)[OF j(1)]] by blast
  qed
  have "\<exists>js. bucket_ok c' j js" if "j < length (m_blocks c')" for j
    using that assms(1,4,8) other unfolding cache_ok_def by metis
  then show "cache_ok c'" using assms(1,5,7,8) by (simp add: cache_ok_def)
  show "\<And>j. j < length (m_blocks c) \<Longrightarrow> j \<noteq> k \<Longrightarrow> contents j c' = contents j c"
    using assms(1) other by (auto simp: cache_ok_def)
qed

text \<open>The node taken from the arena, filled with the block: no bucket sees it.\<close>

lemma fresh_node_ok:
  fixes blk :: jit_block
  assumes "cache_ok c" "arena_alloc (m_arena c) = Inr (Some p, a)"
  defines "c1 \<equiv> upd_block p (\<lambda>_. blk) (c\<lparr>m_arena := a\<rparr>)"
  shows "cache_ok c1" "bucket_ok c j js \<Longrightarrow> bucket_ok c1 j js" "bucket_ok c j js \<Longrightarrow> contents j c1 = contents j c"
    "p \<notin> used_set (m_arena c)" "p \<in> used_set (m_arena c1)" "p < length (m_pool (m_arena c1))" "blocks_of c1 ! p = blk"
    "i \<noteq> p \<Longrightarrow> blocks_of c1 ! i = blocks_of c ! i" "used_set (m_arena c1) = insert p (used_set (m_arena c))"
    "length (m_pool (m_arena c1)) = length (m_pool (m_arena c))"
proof -
  have ok: "arena_ok (m_arena c)" using assms(1) by (simp add: cache_ok_def)
  have a: "arena_ok a" "length (m_pool a) = length (m_pool (m_arena c))" "p < length (m_pool a)"
    "p \<notin> used_set (m_arena c)" "used_set a = insert p (used_set (m_arena c))"
    using arena_alloc_ok[OF ok] assms(2) by auto
  have el: "map element (m_pool a) = blocks_of c" using alloc_elements[OF assms(2)] by (simp add: blocks_of_def)
  have c1: "m_blocks c1 = m_blocks c" "m_addrspace_block_sz c1 = m_addrspace_block_sz c"
    "blocks_of c1 = (blocks_of c)[p := blk]" "arena_ok (m_arena c1)"
    "used_set (m_arena c1) = insert p (used_set (m_arena c))"
    "length (m_pool (m_arena c1)) = length (m_pool (m_arena c))"
    using a el by (simp_all add: c1_def) (simp_all add: upd_block_def element_update_ok)
  have fr: "bucket_ok c1 j js \<and> contents j c1 = contents j c" if "bucket_ok c j js" for j js
  proof -
    have js: "set js \<subseteq> used_set (m_arena c)" using that by (simp add: bucket_ok_def)
    then have "p \<notin> set js" using a(4) by blast
    then have "blocks_of c1 ! i = blocks_of c ! i" if "i \<in> set js" for i
      unfolding c1(3) using that by (intro nth_list_update_neq) blast
    moreover have "set js \<subseteq> used_set (m_arena c1)" using js c1(5) by auto
    ultimately show ?thesis using bucket_frame[OF that c1(6,2)] c1(1) by simp
  qed
  then show "bucket_ok c j js \<Longrightarrow> bucket_ok c1 j js" "bucket_ok c j js \<Longrightarrow> contents j c1 = contents j c" by blast+
  show "cache_ok c1" using assms(1) c1 fr unfolding cache_ok_def by metis
  show "p \<notin> used_set (m_arena c)" "p \<in> used_set (m_arena c1)" "p < length (m_pool (m_arena c1))" "blocks_of c1 ! p = blk"
    "i \<noteq> p \<Longrightarrow> blocks_of c1 ! i = blocks_of c ! i" "used_set (m_arena c1) = insert p (used_set (m_arena c))"
    "length (m_pool (m_arena c1)) = length (m_pool (m_arena c))"
    using a c1 by simp_all
qed

text \<open>The function the host gives changes no list.\<close>

lemma give_host_fn:
  fixes fn n :: u64 and r :: 'r and c :: "'r code_cache"
  assumes "p < length (m_pool (m_arena c))"
  defines "c' \<equiv> upd_block p (\<lambda>x. x\<lparr>host_fn := fn\<rparr>) (c\<lparr>m_rt := r\<rparr>)\<lparr>m_num_blocks := n\<rparr>"
  shows "blocks_of c' = (blocks_of c)[p := (blocks_of c ! p)\<lparr>host_fn := fn\<rparr>]"
    "used_set (m_arena c') = used_set (m_arena c)" "arena_ok (m_arena c') = arena_ok (m_arena c)"
    "length (m_pool (m_arena c')) = length (m_pool (m_arena c))" "m_blocks c' = m_blocks c"
    "m_addrspace_block_sz c' = m_addrspace_block_sz c" "bucket_ok c k ks \<Longrightarrow> bucket_ok c' k ks"
proof -
  show b: "blocks_of c' = (blocks_of c)[p := (blocks_of c ! p)\<lparr>host_fn := fn\<rparr>]" using assms(1) by (simp add: c'_def)
  show u: "used_set (m_arena c') = used_set (m_arena c)" "arena_ok (m_arena c') = arena_ok (m_arena c)"
    using assms(1) by (simp_all add: c'_def upd_block_def element_update_ok)
  show l: "length (m_pool (m_arena c')) = length (m_pool (m_arena c))" "m_blocks c' = m_blocks c"
    "m_addrspace_block_sz c' = m_addrspace_block_sz c" by (simp_all add: c'_def)
  show "bucket_ok c k ks \<Longrightarrow> bucket_ok c' k ks"
    by (erule bucket_same_links) (use b u l assms(1) in \<open>auto simp: nth_list_update\<close>)
qed

text \<open>A bucket with one more node at its end, in a cache that is otherwise the same.\<close>

lemma appended_block_ok:
  assumes c: "cache_ok c" "k < length (m_blocks c)" "bucket_ok c k ks" "p \<notin> used_set (m_arena c)"
    and c': "bucket_ok c' k (ks @ [p])" "arena_ok (m_arena c')"
      "length (m_pool (m_arena c')) = length (m_pool (m_arena c))" "m_addrspace_block_sz c' = m_addrspace_block_sz c"
      "length (m_blocks c') = length (m_blocks c)" "\<And>j. j \<noteq> k \<Longrightarrow> m_blocks c' ! j = m_blocks c ! j"
      "used_set (m_arena c') = insert p (used_set (m_arena c))"
    and other: "\<And>i. i \<notin> set ks \<Longrightarrow> i \<noteq> p \<Longrightarrow> blocks_of c' ! i = blocks_of c ! i"
      "\<And>i. i \<in> set ks \<Longrightarrow> body (blocks_of c' ! i) = body (blocks_of c ! i)"
    and b: "guest_base (blocks_of c' ! p) = b" "b < SEGMENT_SIZE" "bucket b c = k"
  shows "cache_ok c'"
    "j < length (m_blocks c) \<Longrightarrow> contents j c' = contents j c @ (if j = k then [body (blocks_of c' ! p)] else [])"
    "\<exists>i. get_block b c' = Inr (Some i) \<and> guest_base (blocks_of c' ! i) = b"
proof -
  have keep: "i \<in> used_set (m_arena c') \<and> blocks_of c' ! i = blocks_of c ! i"
    if "i \<in> used_set (m_arena c)" "i \<notin> set ks" for i
    using that c(4) c'(7) other(1)[of i] by blast
  note change = cache_ok_change[OF c(1-3) c'(1-6) keep]
  show ok: "cache_ok c'" by (rule change(1))
  show "j < length (m_blocks c) \<Longrightarrow> contents j c' = contents j c @ (if j = k then [body (blocks_of c' ! p)] else [])"
    using change(2)[of j] by (cases "j = k") (simp_all add: contents_eq[OF c'(1)] contents_eq[OF c(3)] other(2))
  have "get_block b c' = Inr (find (\<lambda>i. guest_base (blocks_of c' ! i) = b) (ks @ [p]))"
    by (rule get_block_find[OF ok]) (use c' b masked_same[OF b(2)] in \<open>simp add: bucket_def\<close>)
  then show "\<exists>i. get_block b c' = Inr (Some i) \<and> guest_base (blocks_of c' ! i) = b"
    using b(1) by (cases "find (\<lambda>i. guest_base (blocks_of c' ! i) = b) (ks @ [p])") (auto simp: find_None_iff find_Some_iff)
qed

lemma committed_block:
  fixes fn n :: u64 and r :: 'r and c :: "'r code_cache" and blk :: jit_block
  assumes c: "cache_ok c" "k < length (m_blocks c)" "bucket_ok c k ks" "arena_alloc (m_arena c) = Inr (Some p, a)"
    and linked: "linked_behind k ks p (upd_block p (\<lambda>_. blk) (c\<lparr>m_arena := a\<rparr>)) c2"
    and b: "guest_base blk = b" "b < SEGMENT_SIZE" "bucket b c = k"
  defines "c' \<equiv> upd_block p (\<lambda>x. x\<lparr>host_fn := fn\<rparr>) (c2\<lparr>m_rt := r\<rparr>)\<lparr>m_num_blocks := n\<rparr>"
  shows "cache_ok c'"
    "\<And>j. j < length (m_blocks c) \<Longrightarrow> contents j c' = contents j c @ (if j = k then [body (blk\<lparr>host_fn := fn\<rparr>)] else [])"
    "\<exists>i. get_block b c' = Inr (Some i) \<and> guest_base (blocks_of c' ! i) = b"
proof -
  define c1 where "c1 = upd_block p (\<lambda>_. blk) (c\<lparr>m_arena := a\<rparr>)"
  note fresh = fresh_node_ok(1-3)[where blk = blk, OF c(1,4), folded c1_def] fresh_node_ok(4)[OF c(1,4)]
    fresh_node_ok(5-10)[where blk = blk, OF c(1,4), folded c1_def]
  note c2 = linked[folded c1_def, unfolded linked_behind_def]
  have ks1: "bucket_ok c1 k ks" by (rule fresh(2)[OF c(3)])
  have new: "p \<notin> set ks" using c(3) fresh(4) by (auto simp: bucket_ok_def)
  have len: "length (m_pool (m_arena c2)) = length (m_pool (m_arena c1))"
    using arg_cong[OF conjunct1[OF conjunct2[OF c2]], of length] by simp
  note h = give_host_fn[OF fresh(6)[folded len], where fn = fn and r = r and n = n, folded c'_def]
  have at_p: "blocks_of c' ! p = blk\<lparr>host_fn := fn\<rparr>" using c2 new fresh(6,7) len by (simp add: h(1))
  have off_p: "blocks_of c' ! i = blocks_of c2 ! i" if "i \<noteq> p" for i using that by (simp add: h(1))
  have bodies: "body (blocks_of c' ! i) = body (blocks_of c ! i)" if i: "i \<in> set ks" for i
  proof -
    have "map body (blocks_of c2) ! i = map body (blocks_of c1) ! i" using c2 by simp
    then have "body (blocks_of c2 ! i) = body (blocks_of c1 ! i)" using bucket_below[OF ks1 i] len by simp
    moreover have "i \<noteq> p" using i new by blast
    ultimately show ?thesis using off_p fresh(8) by metis
  qed
  have heads: "m_blocks c' ! j = m_blocks c ! j" if "j \<noteq> k" for j using c2 that h(5) by (simp add: c1_def)
  have used: "used_set (m_arena c') = insert p (used_set (m_arena c))" unfolding h(2) using c2 fresh(9) by simp
  have rest: "blocks_of c' ! i = blocks_of c ! i" if "i \<notin> set ks" "i \<noteq> p" for i
    using c2 that(1) off_p[OF that(2)] fresh(8)[OF that(2)] by simp
  have sizes: "length (m_pool (m_arena c')) = length (m_pool (m_arena c))" "m_addrspace_block_sz c' = m_addrspace_block_sz c"
    "length (m_blocks c') = length (m_blocks c)" "arena_ok (m_arena c')" "bucket_ok c' k (ks @ [p])"
    unfolding h(3-6) using len fresh(1,10) c2 h(7) by (simp_all add: cache_ok_def) (simp_all add: c1_def)
  have base: "guest_base (blocks_of c' ! p) = b" using b(1) by (simp add: at_p)
  note added = appended_block_ok[OF c(1-3) fresh(4) sizes(5,4,1-3) heads used rest bodies base b(2,3)]
  show "cache_ok c'" by (rule added(1))
  show "\<And>j. j < length (m_blocks c) \<Longrightarrow> contents j c' = contents j c @ (if j = k then [body (blk\<lparr>host_fn := fn\<rparr>)] else [])"
    using added(2) at_p by simp
  show "\<exists>i. get_block b c' = Inr (Some i) \<and> guest_base (blocks_of c' ! i) = b" by (rule added(3))
qed


section \<open>Invalidating blocks\<close>

lemma list_head_last: "linked h p (us @ i # rs) \<Longrightarrow> us \<noteq> [] \<Longrightarrow> p = Some (hd us)"
  by (cases us) auto

lemma linked_suffix: "linked h p (us @ i # rs) \<Longrightarrow> linked h (next_block (h ! i)) rs"
  by (induction us arbitrary: p) auto

text \<open>Taking a node out, behind the nodes \<open>us\<close> that stay.\<close>

lemma unlink_ok:
  assumes "linked (blocks_of c) (m_blocks c ! k) (us @ i # rs)" "distinct (us @ i # rs)" "k < length (m_blocks c)"
    "us \<noteq> [] \<Longrightarrow> prev = Some (last us)"
  shows "\<exists>prev' c'. unlink k i prev c = Inr (prev', c') \<and> linked (blocks_of c') (m_blocks c' ! k) (us @ rs) \<and>
    (us \<noteq> [] \<longrightarrow> prev' = prev) \<and> map body (blocks_of c') = map body (blocks_of c) \<and>
    (\<forall>x. x \<notin> set us \<longrightarrow> blocks_of c' ! x = blocks_of c ! x) \<and> used_set (m_arena c') = used_set (m_arena c) \<and>
    arena_ok (m_arena c') = arena_ok (m_arena c) \<and> length (m_pool (m_arena c')) = length (m_pool (m_arena c)) \<and>
    m_blocks c' = (m_blocks c)[k := m_blocks c' ! k] \<and> m_addrspace_block_sz c' = m_addrspace_block_sz c"
proof -
  have i: "i < length (m_pool (m_arena c))" using linked_range[OF assms(1)] by simp
  have rest: "linked (blocks_of c) (next_block (blocks_of c ! i)) rs" by (rule linked_suffix[OF assms(1)])
  show ?thesis
  proof (cases us rule: rev_exhaust)
    case Nil
    then have "m_blocks c ! k = Some i" using assms(1) by simp
    then have "unlink k i prev c = Inr (next_block (blocks_of c ! i), set_head k (next_block (blocks_of c ! i)) c)"
      using i assms(3) by (simp add: unlink_def)
    then show ?thesis
      using rest assms(3) Nil by (intro exI[of _ "next_block (blocks_of c ! i)"] exI[of _ "set_head k (next_block (blocks_of c ! i)) c"]) simp
  next
    case (snoc vs j)
    let ?c = "upd_block j (\<lambda>x. x\<lparr>next_block := next_block (blocks_of c ! i)\<rparr>) c"
    have j: "j < length (m_pool (m_arena c))" using linked_range[OF assms(1)] snoc by simp
    note n = set_next_ok[OF j, where q = "next_block (blocks_of c ! i)"]
    have "m_blocks c ! k = Some (hd us)" using list_head_last[OF assms(1)] snoc by simp
    moreover have "hd us \<noteq> i" using assms(2) snoc hd_in_set[of us] by auto
    ultimately have "unlink k i prev c = Inr (prev, ?c)" using i j assms(3,4) snoc by (simp add: unlink_def)
    moreover have "linked (blocks_of ?c) (m_blocks c ! k) (us @ rs)"
      using linked_redirect[of "blocks_of c" _ vs j "i # rs" rs, OF _ _ _ rest] assms(1,2) snoc unfolding n(1) by simp
    ultimately show ?thesis using n snoc by (intro exI[of _ prev] exI[of _ ?c]) simp
  qed
qed

text \<open>What a walk leaves: the nodes \<open>us\<close> behind it, and those of \<open>rs\<close> that are not hit.\<close>

definition swept :: "u64 \<Rightarrow> u64 \<Rightarrow> nat list \<Rightarrow> nat list \<Rightarrow> nat \<Rightarrow> 'r code_cache \<Rightarrow> 'r code_cache \<Rightarrow> bool" where
  "swept a e us rs k c c' \<longleftrightarrow>
     linked (blocks_of c') (m_blocks c' ! k) (us @ filter (\<lambda>i. \<not> hit a e (blocks_of c ! i)) rs) \<and>
     map body (blocks_of c') = map body (blocks_of c) \<and> (\<forall>x. x \<notin> set (us @ rs) \<longrightarrow> blocks_of c' ! x = blocks_of c ! x) \<and>
     used_set (m_arena c') = used_set (m_arena c) - set (filter (\<lambda>i. hit a e (blocks_of c ! i)) rs) \<and>
     arena_ok (m_arena c') \<and> length (m_pool (m_arena c')) = length (m_pool (m_arena c)) \<and>
     m_blocks c' = (m_blocks c)[k := m_blocks c' ! k] \<and> m_addrspace_block_sz c' = m_addrspace_block_sz c"

lemma swept_step:
  assumes "hit a e (blocks_of c ! i)" "distinct (us @ i # rs)" "swept a e us rs k c2 c'"
    "map body (blocks_of c2) = map body (blocks_of c)" "\<forall>x. x \<notin> set us \<longrightarrow> blocks_of c2 ! x = blocks_of c ! x"
    "used_set (m_arena c2) = used_set (m_arena c) - {i}" "length (m_pool (m_arena c2)) = length (m_pool (m_arena c))"
    "m_blocks c2 = (m_blocks c)[k := m_blocks c2 ! k]" "m_addrspace_block_sz c2 = m_addrspace_block_sz c"
  shows "swept a e us (i # rs) k c c'"
    "filter (\<lambda>i. hit a e (blocks_of c2 ! i)) rs = filter (\<lambda>i. hit a e (blocks_of c ! i)) rs"
proof -
  have same: "blocks_of c2 ! x = blocks_of c ! x" if "x \<in> set rs" for x using that assms(2,5) by auto
  show f: "filter (\<lambda>i. hit a e (blocks_of c2 ! i)) rs = filter (\<lambda>i. hit a e (blocks_of c ! i)) rs"
    by (rule filter_cong) (simp_all add: same)
  have g: "filter (\<lambda>i. \<not> hit a e (blocks_of c2 ! i)) rs = filter (\<lambda>i. \<not> hit a e (blocks_of c ! i)) rs"
    by (rule filter_cong) (simp_all add: same)
  have "m_blocks c' = (m_blocks c)[k := m_blocks c' ! k]"
    using assms(3) unfolding swept_def by (metis assms(8) list_update_overwrite)
  then show "swept a e us (i # rs) k c c'" using assms unfolding swept_def f g by auto
qed

lemma invalidate_loop_ok:
  assumes "linked (blocks_of c) (m_blocks c ! k) (us @ rs)" "distinct (us @ rs)" "set (us @ rs) \<subseteq> used_set (m_arena c)"
    "k < length (m_blocks c)" "arena_ok (m_arena c)" "us \<noteq> [] \<Longrightarrow> prev = Some (last us)" "length rs < n"
    "cur = (case rs of [] \<Rightarrow> None | i # _ \<Rightarrow> Some i)"
  shows "\<exists>c'. invalidate_loop n rel k a e cur prev cnt c =
      Inr (cnt + of_nat (length (filter (\<lambda>i. hit a e (blocks_of c ! i)) rs)), c') \<and> swept a e us rs k c c'"
  using assms
proof (induction rs arbitrary: us n cur prev cnt c)
  case Nil
  then obtain m where "n = Suc m" by (cases n) auto
  with Nil show ?case by (simp add: swept_def)
next
  case (Cons i rs)
  then obtain m where m: "n = Suc m" "length rs < m" by (cases n) auto
  have i: "i < length (m_pool (m_arena c))" "i \<in> used_set (m_arena c)" using Cons.prems(3) used_below by auto
  have nxt: "next_block (blocks_of c ! i) = (case rs of [] \<Rightarrow> None | i # _ \<Rightarrow> Some i)"
    using linked_suffix[OF Cons.prems(1)] by (cases rs) auto
  show ?case
  proof (cases "hit a e (blocks_of c ! i)")
    case False
    have "\<exists>c'. invalidate_loop m rel k a e (next_block (blocks_of c ! i)) (Some i) cnt c =
        Inr (cnt + of_nat (length (filter (\<lambda>i. hit a e (blocks_of c ! i)) rs)), c') \<and> swept a e (us @ [i]) rs k c c'"
      by (rule Cons.IH) (use Cons.prems m(2) nxt in simp_all)
    then show ?thesis using False m(1) i Cons.prems(8) by (simp add: swept_def)
  next
    case True
    obtain prev' c1 where u: "unlink k i prev c = Inr (prev', c1)" "linked (blocks_of c1) (m_blocks c1 ! k) (us @ rs)"
      "us \<noteq> [] \<longrightarrow> prev' = prev" "map body (blocks_of c1) = map body (blocks_of c)"
      "\<forall>x. x \<notin> set us \<longrightarrow> blocks_of c1 ! x = blocks_of c ! x" "used_set (m_arena c1) = used_set (m_arena c)"
      "arena_ok (m_arena c1) = arena_ok (m_arena c)" "length (m_pool (m_arena c1)) = length (m_pool (m_arena c))"
      "m_blocks c1 = (m_blocks c)[k := m_blocks c1 ! k]" "m_addrspace_block_sz c1 = m_addrspace_block_sz c"
      using unlink_ok[OF Cons.prems(1,2,4,6)] by blast
    obtain ar where ar: "arena_free (int i) (m_arena c1) = Inr (True, ar)" "arena_ok ar"
      "length (m_pool ar) = length (m_pool (m_arena c1))" "used_set ar = used_set (m_arena c1) - {i}"
      using arena_free_used[of "m_arena c1" i] u(6,7) Cons.prems(5) i(2) by auto
    let ?c2 = "c1\<lparr>m_rt := rel (host_fn (blocks_of c1 ! i)) (m_rt c1), m_arena := ar\<rparr>"
    have b2: "blocks_of ?c2 = blocks_of c1" using free_elements[OF ar(1)] by (simp add: blocks_of_def)
    have "i \<notin> set us" "i \<notin> set rs" using Cons.prems(2) by auto
    have bi: "blocks_of c1 ! i = blocks_of c ! i" using u(5) \<open>i \<notin> set us\<close> by blast
    have pre: "linked (blocks_of ?c2) (m_blocks ?c2 ! k) (us @ rs)" "k < length (m_blocks ?c2)"
      "set (us @ rs) \<subseteq> used_set (m_arena ?c2)" "distinct (us @ rs)" "us \<noteq> [] \<Longrightarrow> prev' = Some (last us)" "arena_ok (m_arena ?c2)"
      using u(2) b2 Cons.prems(2,3,4,6) u(3,6) ar(2,4) arg_cong[OF u(9), of length] by auto
    have "\<exists>c'. invalidate_loop m rel k a e (next_block (blocks_of c ! i)) prev' (cnt + 1) ?c2 =
        Inr (cnt + 1 + of_nat (length (filter (\<lambda>i. hit a e (blocks_of ?c2 ! i)) rs)), c') \<and> swept a e us rs k ?c2 c'"
      by (rule Cons.IH[OF pre(1,4,3,2,6,5) m(2) nxt])
    then obtain c' where c': "invalidate_loop m rel k a e (next_block (blocks_of c ! i)) prev' (cnt + 1) ?c2 =
        Inr (cnt + 1 + of_nat (length (filter (\<lambda>i. hit a e (blocks_of ?c2 ! i)) rs)), c')" "swept a e us rs k ?c2 c'"
      by blast
    have sw: "swept a e us (i # rs) k c c'"
      "filter (\<lambda>i. hit a e (blocks_of ?c2 ! i)) rs = filter (\<lambda>i. hit a e (blocks_of c ! i)) rs"
      by (rule swept_step[OF True Cons.prems(2) c'(2)]; use b2 u ar in simp)+
    have "invalidate_loop n rel k a e cur prev cnt c = Inr (cnt + 1 + of_nat (length (filter (\<lambda>i. hit a e (blocks_of ?c2 ! i)) rs)), c')"
      using True m(1) i(1) Cons.prems(8) u(1,8) ar(1) bi c'(1) by simp
    then show ?thesis using sw True by (intro exI[of _ c']) (simp add: add.assoc)
  qed
qed

lemma swept_cache_ok:
  fixes num :: u64
  assumes "cache_ok c" "k < length (m_blocks c)" "bucket_ok c k ks" "swept a e [] ks k c c1"
  defines "c' \<equiv> c1\<lparr>m_num_blocks := num\<rparr>"
  shows "cache_ok c'"
    "\<And>j. j < length (m_blocks c) \<Longrightarrow> contents j c' = filter (\<lambda>blk. j = k \<longrightarrow> \<not> hit a e blk) (contents j c)"
    "used_set (m_arena c') = used_set (m_arena c) - {i \<in> set ks. hit a e (blocks_of c ! i)}"
proof -
  let ?in = "filter (\<lambda>i. \<not> hit a e (blocks_of c ! i)) ks"
  have sw: "linked (blocks_of c') (m_blocks c' ! k) ?in" "map body (blocks_of c') = map body (blocks_of c)"
    "\<And>x. x \<notin> set ks \<Longrightarrow> blocks_of c' ! x = blocks_of c ! x"
    "used_set (m_arena c') = used_set (m_arena c) - {i \<in> set ks. hit a e (blocks_of c ! i)}"
    "arena_ok (m_arena c')" "length (m_pool (m_arena c')) = length (m_pool (m_arena c))"
    "m_blocks c' = (m_blocks c)[k := m_blocks c' ! k]" "m_addrspace_block_sz c' = m_addrspace_block_sz c"
    using assms(4) unfolding swept_def c'_def by auto
  have bodies: "body (blocks_of c' ! i) = body (blocks_of c ! i)" if "i \<in> set ks" for i
    using bucket_below[OF assms(3) that] sw(2,6) by (metis blocks_of_simps(1) nth_map)
  then have base: "guest_base (blocks_of c' ! i) = guest_base (blocks_of c ! i)" if "i \<in> set ks" for i
    using that by (metis body_simps(2))
  have in_ok: "bucket_ok c' k ?in"
    using assms(3) sw(1,4,8) base by (auto simp: bucket_ok_def bucket_def)
  have sizes: "length (m_blocks c') = length (m_blocks c)" using arg_cong[OF sw(7), of length] by simp
  have heads: "m_blocks c' ! j = m_blocks c ! j" if "j \<noteq> k" for j
    by (subst sw(7)) (use that in simp)
  have keep: "i \<in> used_set (m_arena c') \<and> blocks_of c' ! i = blocks_of c ! i"
    if "i \<in> used_set (m_arena c)" "i \<notin> set ks" for i using that sw(3,4) by auto
  note change = cache_ok_change[OF assms(1-3) in_ok sw(5,6,8) sizes heads keep]
  show "cache_ok c'" by (rule change(1))
  have "contents k c' = filter (\<lambda>blk. \<not> hit a e blk) (contents k c)"
    unfolding contents_eq[OF in_ok] contents_eq[OF assms(3)] using bodies by (simp add: filter_map o_def)
  then show "\<And>j. j < length (m_blocks c) \<Longrightarrow> contents j c' = filter (\<lambda>blk. j = k \<longrightarrow> \<not> hit a e blk) (contents j c)"
    using change(2) by (metis (mono_tags, lifting) filter_True filter_cong)
  show "used_set (m_arena c') = used_set (m_arena c) - {i \<in> set ks. hit a e (blocks_of c ! i)}" by (rule sw(4))
qed

text \<open>
  C18. An invalidation (\<open>InvalidateBlocks\<close>) takes the blocks of one bucket out that its tests hit, frees their nodes and counts them;
  the other blocks of the bucket keep their order, and no other bucket is looked at, whatever the extent.
\<close>

theorem invalidation_filters:
  fixes a n :: u64
  assumes "cache_ok c"
  defines "b \<equiv> a AND SEGMENT_MASK"
  shows "\<exists>c'. invalidate_blocks rel a n c =
      Inr (of_nat (length (filter (hit a (b + n)) (contents (bucket b c) c))), c') \<and> cache_ok c' \<and>
    (\<forall>j < length (m_blocks c). contents j c' =
       filter (\<lambda>blk. j = bucket b c \<longrightarrow> \<not> hit a (b + n) blk) (contents j c)) \<and>
    card (used_set (m_arena c')) + length (filter (hit a (b + n)) (contents (bucket b c) c)) = card (used_set (m_arena c))"
proof -
  let ?k = "bucket b c" and ?e = "b + n"
  have k: "?k < length (m_blocks c)" unfolding b_def by (rule bucket_range[OF assms(1) masked_below])
  obtain ks where ks: "bucket_ok c ?k ks" using assms(1) k by (auto simp: cache_ok_def)
  let ?out = "filter (\<lambda>i. hit a ?e (blocks_of c ! i)) ks"
  have num: "length (filter (hit a ?e) (contents ?k c)) = length ?out"
    unfolding contents_eq[OF ks] by (simp add: filter_map o_def)
  have "\<exists>c'. invalidate_loop (steps c) rel ?k a ?e (m_blocks c ! ?k) (m_blocks c ! ?k) 0 c =
      Inr (0 + of_nat (length ?out), c') \<and> swept a ?e [] ks ?k c c'"
    by (rule invalidate_loop_ok)
      (use ks k assms(1) bucket_short[OF ks] in \<open>auto simp: bucket_ok_def cache_ok_def split: list.split\<close>)
  then obtain c1 where c1: "invalidate_loop (steps c) rel ?k a ?e (m_blocks c ! ?k) (m_blocks c ! ?k) 0 c =
      Inr (of_nat (length ?out), c1)" "swept a ?e [] ks ?k c c1" by auto
  let ?c = "c1\<lparr>m_num_blocks := m_num_blocks c1 - of_nat (length ?out)\<rparr>"
  note ok = swept_cache_ok[OF assms(1) k ks c1(2), where num = "m_num_blocks c1 - of_nat (length ?out)"]
  have fin: "finite (used_set (m_arena c))" by (rule finite_subset[of _ "{..<length (m_pool (m_arena c))}"]) (auto simp: used_set_def)
  have sub: "set ?out \<subseteq> used_set (m_arena c)" "card (set ?out) = length ?out"
    using ks unfolding bucket_ok_def by (blast dest: filter_is_subset[THEN subsetD], blast intro: distinct_card distinct_filter)
  have "card (used_set (m_arena ?c)) = card (used_set (m_arena c)) - length ?out"
    using ok(3) card_Diff_subset[OF _ sub(1)] unfolding sub(2)[symmetric] by simp
  then have cards: "card (used_set (m_arena ?c)) + length ?out = card (used_set (m_arena c))"
    using card_mono[OF fin sub(1)] unfolding sub(2) by simp
  show ?thesis
  proof (cases "m_blocks c ! ?k")
    case None
    then have "ks = []" using ks by (cases ks) (auto simp: bucket_ok_def)
    then have "contents ?k c = []" by (simp add: contents_eq[OF ks])
    moreover have "invalidate_blocks rel a n c = Inr (0, c)" using None k by (simp add: invalidate_blocks_def b_def)
    ultimately show ?thesis using assms(1) by (intro exI[of _ c]) (auto intro!: filter_True[symmetric])
  next
    case (Some i)
    then have "invalidate_blocks rel a n c = Inr (of_nat (length ?out), ?c)"
      using c1(1) k by (simp add: invalidate_blocks_def b_def Let_def)
    then show ?thesis unfolding num using ok(1,2) cards by (intro exI[of _ ?c]) simp
  qed
qed

section \<open>Concrete caches\<close>

lemma code_cache_new_ok:
  assumes "code_cache_new z m rt d = Inr c"
  shows "cache_ok c" "k < length (m_blocks c) \<Longrightarrow> contents k c = []"
proof -
  obtain a where a: "arena_new m d = Inr a" "z \<noteq> 0" "SEGMENT_SIZE mod z = 0" "m_arena c = a" "m_addrspace_block_sz c = z"
    "m_blocks c = replicate (unat (SEGMENT_SIZE div z)) None"
    using assms by (auto simp: code_cache_new_def bindE_Inr_iff split: if_splits)
  have empty: "bucket_ok c k []" if "k < length (m_blocks c)" for k using that a(6) by (simp add: bucket_ok_def)
  then show "cache_ok c" using a arena_new_ok(1)[OF a(1)] by (auto simp: cache_ok_def)
  show "k < length (m_blocks c) \<Longrightarrow> contents k c = []" using contents_eq[OF empty] by simp
qed

text \<open>Two buckets, room for three blocks, one block in the first bucket.\<close>

definition sample_block :: jit_block where
  "sample_block = \<lparr>guest_base = 0x40, guest_end = 0x80, num_instructions = 16, num_recompilations = 0,
     end_type = UNCONDITIONAL_JUMP, host_fn = 0, next_block = None\<rparr>"

definition sample_cache :: "unit code_cache" where
  "sample_cache = \<lparr>m_arena = \<lparr>m_pool = [\<lparr>element = sample_block, used = True, next_free = Some 1\<rparr>,
       \<lparr>element = sample_block, used = False, next_free = Some 2\<rparr>,
       \<lparr>element = sample_block, used = False, next_free = None\<rparr>], m_size = 3\<rparr>,
     m_blocks = [Some 0, None], m_rt = (), m_addrspace_blocks = 2, m_addrspace_block_sz = 0x10000000, m_num_blocks = 1\<rparr>"

lemma sample_cache_ok: "cache_ok sample_cache" "contents 0 sample_cache = [sample_block]"
proof -
  have u: "used_set (m_arena sample_cache) = {0}"
    by (auto simp: used_set_def sample_cache_def less_Suc_eq numeral_3_eq_3)
  have "free_list_ok (m_arena sample_cache) [1, 2]"
    unfolding free_list_ok_def u by (auto simp: sample_cache_def)
  then have ar: "arena_ok (m_arena sample_cache)" unfolding arena_ok_def by (auto simp: sample_cache_def)
  have b0: "bucket_ok sample_cache 0 [0]" unfolding bucket_ok_def u
    by (simp add: sample_cache_def sample_block_def blocks_of_def bucket_def SEGMENT_SIZE_def)
  have "bucket_ok sample_cache 1 []" by (simp add: bucket_ok_def sample_cache_def)
  with b0 have "\<forall>k < 2. \<exists>ks. bucket_ok sample_cache k ks" by (auto simp: less_2_cases_iff)
  then show "cache_ok sample_cache" using ar by (simp add: cache_ok_def) (simp add: sample_cache_def SEGMENT_SIZE_def)
  show "contents 0 sample_cache = [sample_block]"
    by (simp add: contents_eq[OF b0]) (simp add: sample_cache_def sample_block_def blocks_of_def body_def)
qed

lemma sample_bucket: "bucket 0x40 sample_cache = 0" "bucket 0x50 sample_cache = 0"
  by (simp_all add: bucket_def sample_cache_def)

theorem lookup_is_search_witness:
  "get_block 0x80000040 sample_cache = Inr None \<and> (\<exists>i. get_block 0x40 sample_cache = Inr (Some i))"
proof -
  have "(0x40 :: u64) AND SEGMENT_MASK = 0x40" by (simp add: SEGMENT_MASK_def)
  then have "find (\<lambda>b. guest_base b = 0x40) (contents (bucket (0x40 AND SEGMENT_MASK) sample_cache) sample_cache) \<noteq> None"
    by (simp add: sample_bucket sample_cache_ok(2)) (simp add: sample_block_def)
  moreover have "(0x80000040 :: u64) \<ge> SEGMENT_SIZE" by (simp add: SEGMENT_SIZE_def)
  ultimately show ?thesis
    using lookup_is_search[OF sample_cache_ok(1), of "0x40"] lookup_is_search[OF sample_cache_ok(1), of "0x80000040"] by auto
qed


theorem invalidation_filters_witness:
  "\<exists>c'. invalidate_blocks (\<lambda>_ r. r) 0x50 4 sample_cache = Inr (1, c') \<and> contents 0 c' = []"
proof -
  have m: "(0x50 :: u64) AND SEGMENT_MASK = 0x50" by (simp add: SEGMENT_MASK_def)
  have h: "hit 0x50 (0x50 + 4) sample_block" by (simp add: hit_def sample_block_def)
  have "0 < length (m_blocks sample_cache)" by (simp add: sample_cache_def)
  then show ?thesis
    using invalidation_filters[OF sample_cache_ok(1), of "\<lambda>_ r. r" "0x50" 4] h
    by (auto simp: m sample_bucket sample_cache_ok(2))
qed

end
