(* ===== verification/Gte.thy ===== *)
theory Gte
  imports PsxPrelude
begin

text \<open>
  The geometry coprocessor (\<open>GTE.hpp\<close>, \<open>GTEStructs.hpp\<close>, \<open>GTE.cpp\<close>, \<open>GTEOpcodes.cpp\<close> of
  \<open>psxemu\<close>). The register union is its \<open>array[64]\<close>; a structure field is the half word or
  byte of the register it overlays. The 64-bit sums of the source are integers (none of them
  leaves 64 bits); what the source narrows is narrowed here by \<open>i32\<close>, \<open>i16\<close> and \<open>u16c\<close>.
\<close>

section \<open>State\<close>

record gte =
  m_regs :: "u32 list"
  m_cmd_interlock :: u64

definition gte_init :: gte where
  "gte_init = \<lparr>m_regs = replicate 64 0, m_cmd_interlock = 0\<rparr>"

definition gte_ok :: "gte \<Rightarrow> bool" where
  "gte_ok g \<longleftrightarrow> length (m_regs g) = 64"

definition i32 :: "int \<Rightarrow> int" where "i32 v = signed_take_bit 31 v"
definition i16 :: "int \<Rightarrow> int" where "i16 v = signed_take_bit 15 v"
definition u16c :: "int \<Rightarrow> int" where "u16c v = take_bit 16 v"

definition reg :: "nat \<Rightarrow> gte \<Rightarrow> u32" where
  "reg i g = m_regs g ! i"

definition set_reg :: "nat \<Rightarrow> u32 \<Rightarrow> gte \<Rightarrow> gte" where
  "set_reg i v g = g\<lparr>m_regs := (m_regs g)[i := v]\<rparr>"

text \<open>
  Half words: \<open>half k\<close> of register \<open>i\<close>, signed or unsigned. A store to one half keeps the other.
\<close>

definition i16_at :: "nat \<Rightarrow> nat \<Rightarrow> gte \<Rightarrow> int" where
  "i16_at i k g = sint (ucast (drop_bit (16 * k) (reg i g)) :: u16)"

definition u16_at :: "nat \<Rightarrow> nat \<Rightarrow> gte \<Rightarrow> int" where
  "u16_at i k g = uint (ucast (drop_bit (16 * k) (reg i g)) :: u16)"

definition u8_at :: "nat \<Rightarrow> nat \<Rightarrow> gte \<Rightarrow> int" where
  "u8_at i k g = uint (ucast (drop_bit (8 * k) (reg i g)) :: u8)"

definition i32_at :: "nat \<Rightarrow> gte \<Rightarrow> int" where
  "i32_at i g = sint (reg i g)"

definition set_half :: "nat \<Rightarrow> nat \<Rightarrow> int \<Rightarrow> gte \<Rightarrow> gte" where
  "set_half i k v g = set_reg i (put_bits (16 * k) 16 (word_of_int v) (reg i g)) g"

text \<open>The overlaid vectors and matrices.\<close>

type_synonym vec3 = "int \<times> int \<times> int"
type_synonym mat3 = "vec3 \<times> vec3 \<times> vec3"

definition vec16 :: "nat \<Rightarrow> gte \<Rightarrow> vec3" where
  "vec16 b g = (i16_at b 0 g, i16_at b 1 g, i16_at (b + 1) 0 g)"

definition vec32 :: "nat \<Rightarrow> gte \<Rightarrow> vec3" where
  "vec32 b g = (i32_at b g, i32_at (b + 1) g, i32_at (b + 2) g)"

definition matrix_at :: "nat \<Rightarrow> gte \<Rightarrow> mat3" where
  "matrix_at b g =
     ((i16_at b 0 g, i16_at b 1 g, i16_at (b + 1) 0 g),
      (i16_at (b + 1) 1 g, i16_at (b + 2) 0 g, i16_at (b + 2) 1 g),
      (i16_at (b + 3) 0 g, i16_at (b + 3) 1 g, i16_at (b + 4) 0 g))"

definition rotation_matrix :: "gte \<Rightarrow> mat3" where "rotation_matrix = matrix_at 32"
definition translation_vec :: "gte \<Rightarrow> vec3" where "translation_vec = vec32 37"
definition light_matrix :: "gte \<Rightarrow> mat3" where "light_matrix = matrix_at 40"
definition bg_color_vec :: "gte \<Rightarrow> vec3" where "bg_color_vec = vec32 45"
definition light_color_mat :: "gte \<Rightarrow> mat3" where "light_color_mat = matrix_at 48"
definition far_color_vec :: "gte \<Rightarrow> vec3" where "far_color_vec = vec32 53"

definition ir :: "nat \<Rightarrow> gte \<Rightarrow> int" where
  "ir n g = i16_at (8 + n) 0 g"

definition mac :: "nat \<Rightarrow> gte \<Rightarrow> int" where
  "mac n g = i32_at (24 + n) g"

definition flags_raw :: "gte \<Rightarrow> u32" where "flags_raw g = reg 63 g"

definition raise_flag :: "nat \<Rightarrow> gte \<Rightarrow> gte" where
  "raise_flag b g = set_reg 63 (flags_raw g OR push_bit b 1) g"

section \<open>Accumulators and saturation\<close>

definition clamp :: "int \<Rightarrow> int \<Rightarrow> int \<Rightarrow> int" where
  "clamp v lo hi = (if v < lo then lo else if v > hi then hi else v)"

definition mac_flags :: "nat \<Rightarrow> int \<Rightarrow> gte \<Rightarrow> gte" where
  "mac_flags n v g =
     (if v \<ge> 2 ^ 43 then raise_flag (31 - n) g
      else if v < - (2 ^ 43) then raise_flag (28 - n) g else g)"

text \<open>\<open>SetMac\<close> returns its argument; only the register is narrowed.\<close>

definition set_mac :: "nat \<Rightarrow> int \<Rightarrow> gte \<Rightarrow> gte" where
  "set_mac n v g = set_reg (24 + n) (word_of_int v) (mac_flags n v g)"

definition check_mac_overflow :: "nat \<Rightarrow> int \<Rightarrow> gte \<Rightarrow> int \<times> gte" where
  "check_mac_overflow n v g = (sign_extend 43 v, mac_flags n v g)"

definition rgb555 :: "int \<Rightarrow> int \<Rightarrow> int \<Rightarrow> u32" where
  "rgb555 r g b = word_of_int r OR push_bit 5 (word_of_int g) OR push_bit 10 (word_of_int b)"

definition update_irgb :: "gte \<Rightarrow> gte" where
  "update_irgb g =
     (let c = rgb555 (clamp (ir 1 g sdiv 0x80) 0 0x1F) (clamp (ir 2 g sdiv 0x80) 0 0x1F)
                     (clamp (ir 3 g sdiv 0x80) 0 0x1F)
      in set_reg 29 c (set_reg 28 c g))"

definition saturate_ir :: "nat \<Rightarrow> int \<Rightarrow> bool \<Rightarrow> gte \<Rightarrow> int \<times> gte" where
  "saturate_ir n v lm g =
     (let (final, g) =
        (if (v < 0 \<or> v > 0x7FFF) \<and> lm then (i16 (clamp v 0 0x7FFF), raise_flag (25 - n) g)
         else if (v < - 0x8000 \<or> v > 0x7FFF) \<and> \<not> lm
         then (i16 (clamp v (- 0x8000) 0x7FFF), raise_flag (25 - n) g)
         else (i16 v, g))
      in (final, update_irgb (set_half (8 + n) 0 final g)))"

definition saturate_sz3 :: "int \<Rightarrow> gte \<Rightarrow> int \<times> gte" where
  "saturate_sz3 v g =
     (if v < 0 \<or> v > 0xFFFF then (u16c (clamp v 0 0xFFFF), raise_flag 18 g) else (u16c v, g))"

definition set_mac0 :: "int \<Rightarrow> gte \<Rightarrow> gte" where
  "set_mac0 v g =
     set_reg 24 (word_of_int v)
       (if v \<ge> 2 ^ 31 then raise_flag 16 g else if v < - (2 ^ 31) then raise_flag 15 g else g)"

definition saturate_sx2 :: "int \<Rightarrow> gte \<Rightarrow> int \<times> gte" where
  "saturate_sx2 v g =
     (if v < - 1024 \<or> v > 0x3FF then (i16 (clamp v (- 1024) 0x3FF), raise_flag 14 g) else (i16 v, g))"

definition saturate_sy2 :: "int \<Rightarrow> gte \<Rightarrow> int \<times> gte" where
  "saturate_sy2 v g =
     (if v < - 1024 \<or> v > 0x3FF then (i16 (clamp v (- 1024) 0x3FF), raise_flag 13 g) else (i16 v, g))"

definition saturate_ir0 :: "int \<Rightarrow> gte \<Rightarrow> gte" where
  "saturate_ir0 v g =
     (if v < 0 \<or> v > 0x1000 then set_half 8 0 (i16 (clamp v 0 0x1000)) (raise_flag 12 g)
      else set_half 8 0 (i16 v) g)"

definition saturate_otz :: "int \<Rightarrow> gte \<Rightarrow> gte" where
  "saturate_otz v g =
     (if v < 0 \<or> v > 0xFFFF then set_half 7 0 (u16c (clamp v 0 0xFFFF)) (raise_flag 18 g)
      else set_half 7 0 (u16c v) g)"

section \<open>Fifos\<close>

definition move_screen_fifo :: "gte \<Rightarrow> gte" where
  "move_screen_fifo g = (let g = set_reg 12 (reg 13 g) g in set_reg 13 (reg 14 g) g)"

definition push_screen_fifo :: "int \<Rightarrow> int \<Rightarrow> gte \<Rightarrow> gte" where
  "push_screen_fifo x y g =
     (let g = move_screen_fifo g
      in set_reg 14 (put_bits 16 16 (word_of_int y) (put_bits 0 16 (word_of_int x) 0)) g)"

definition move_z_fifo :: "gte \<Rightarrow> gte" where
  "move_z_fifo g =
     (let g = set_reg 16 (reg 17 g) g; g = set_reg 17 (reg 18 g) g in set_reg 18 (reg 19 g) g)"

definition push_z_fifo :: "int \<Rightarrow> gte \<Rightarrow> gte" where
  "push_z_fifo z g = set_half 19 0 z (move_z_fifo g)"

definition move_color_fifo :: "gte \<Rightarrow> gte" where
  "move_color_fifo g = (let g = set_reg 20 (reg 21 g) g in set_reg 21 (reg 22 g) g)"

definition saturate_color :: "nat \<Rightarrow> int \<Rightarrow> gte \<Rightarrow> int \<times> gte" where
  "saturate_color k v g =
     (if v > 0xFF then (0xFF, raise_flag (21 - k) g)
      else if v < 0 then (0, raise_flag (21 - k) g) else (v, g))"

definition push_color_fifo :: "vec3 \<Rightarrow> gte \<Rightarrow> gte" where
  "push_color_fifo c g =
     (let (c0, c1, c2) = c;
          g = move_color_fifo g;
          (r, g) = saturate_color 0 c0 g;
          (gr, g) = saturate_color 1 c1 g;
          (b, g) = saturate_color 2 c2 g;
          entry = put_bits 24 8 (word_of_int (u8_at 6 3 g)) (put_bits 16 8 (word_of_int b)
                    (put_bits 8 8 (word_of_int gr) (put_bits 0 8 (word_of_int r) 0)))
      in set_reg 22 entry g)"

definition push_color_from_mac :: "gte \<Rightarrow> gte" where
  "push_color_from_mac g =
     push_color_fifo (drop_bit 4 (mac 1 g), drop_bit 4 (mac 2 g), drop_bit 4 (mac 3 g)) g"

section \<open>Division\<close>

text \<open>\<open>std::countl_zero\<close> on a word of \<open>n\<close> bits.\<close>

fun clz_from :: "nat \<Rightarrow> 'a::len word \<Rightarrow> nat" where
  "clz_from 0 w = 0"
| "clz_from (Suc n) w = (if bit w n then 0 else Suc (clz_from n w))"

definition countl_zero :: "'a::len word \<Rightarrow> nat" where
  "countl_zero w = clz_from LENGTH('a) w"

definition countl_one :: "'a::len word \<Rightarrow> nat" where
  "countl_one w = countl_zero (NOT w)"

definition unr_table :: "nat \<Rightarrow> u32" where
  "unr_table idx = word_of_int (max 0 ((0x40000 div (int idx + 0x100) + 1) div 2 - 0x101))"

text \<open>
  The table has 257 entries; an index past them is \<open>UndefinedBehaviour\<close>. The shifts and
  products are those of \<open>u32\<close>, the last product is one of \<open>u64\<close>.
\<close>

definition div_and_saturate :: "u32 \<Rightarrow> u32 \<Rightarrow> gte \<Rightarrow> (u32 \<times> gte) result" where
  "div_and_saturate h sz g =
     (if h < sz * 2 then
        let zero_count = countl_zero (ucast sz :: u16);
            numer = push_bit zero_count h;
            denom = push_bit zero_count sz;
            idx = unat (drop_bit 7 (denom - 0x7FC0))
        in if 257 \<le> idx then Inl UndefinedBehaviour
           else
             let divisor = unr_table idx + 0x101;
                 denom = drop_bit 8 (0x2000080 - denom * divisor);
                 denom = drop_bit 8 (0x80 + denom * divisor);
                 wide = drop_bit 16 ((ucast numer :: u64) * ucast denom + 0x8000)
             in Inr (ucast (min 0x1FFFF wide), g)
      else Inr (0x1FFFF, raise_flag 17 g))"

section \<open>Command encoding\<close>

definition cmd_opcode :: "u32 \<Rightarrow> nat" where "cmd_opcode c = unat (get_bits 0 6 c)"
definition cmd_lm :: "u32 \<Rightarrow> bool" where "cmd_lm c = bit c 10"
definition cmd_translation :: "u32 \<Rightarrow> nat" where "cmd_translation c = unat (get_bits 13 2 c)"
definition cmd_vec :: "u32 \<Rightarrow> nat" where "cmd_vec c = unat (get_bits 15 2 c)"
definition cmd_mat :: "u32 \<Rightarrow> nat" where "cmd_mat c = unat (get_bits 17 2 c)"
definition cmd_sf :: "u32 \<Rightarrow> nat" where "cmd_sf c = of_bool (bit c 19)"

section \<open>Commands\<close>

text \<open>The nested \<open>CheckMacOverflow\<close> sums of a matrix row.\<close>

definition check_row :: "nat \<Rightarrow> int \<Rightarrow> vec3 \<Rightarrow> vec3 \<Rightarrow> gte \<Rightarrow> int \<times> gte" where
  "check_row n t row v g =
     (let (m0, m1, m2) = row; (x, y, z) = v;
          (a, g) = check_mac_overflow n (t + m0 * x) g;
          (b, g) = check_mac_overflow n (a + m1 * y) g
      in check_mac_overflow n (b + m2 * z) g)"

text \<open>\<open>SaturateIR<n>(i32(SetMac<n>(v >> (12 * sf))), lm)\<close>.\<close>

definition sat_ir_mac :: "nat \<Rightarrow> int \<Rightarrow> nat \<Rightarrow> bool \<Rightarrow> gte \<Rightarrow> int \<times> gte" where
  "sat_ir_mac n v sf lm g =
     (let m = drop_bit (12 * sf) v in saturate_ir n (i32 m) lm (set_mac n m g))"

definition sat_ir_mac3 :: "vec3 \<Rightarrow> nat \<Rightarrow> bool \<Rightarrow> gte \<Rightarrow> gte" where
  "sat_ir_mac3 t sf lm g =
     (let (t1, t2, t3) = t
      in snd (sat_ir_mac 3 t3 sf lm (snd (sat_ir_mac 2 t2 sf lm (snd (sat_ir_mac 1 t1 sf lm g))))))"

definition check_mac3 :: "vec3 \<Rightarrow> gte \<Rightarrow> vec3 \<times> gte" where
  "check_mac3 t g =
     (let (t1, t2, t3) = t;
          (a, g) = check_mac_overflow 1 t1 g;
          (b, g) = check_mac_overflow 2 t2 g;
          (c, g) = check_mac_overflow 3 t3 g
      in ((a, b, c), g))"

definition vector_mul :: "vec3 \<Rightarrow> vec3 \<Rightarrow> vec3 \<Rightarrow> bool \<Rightarrow> nat \<Rightarrow> gte \<Rightarrow> gte" where
  "vector_mul v1 v2 tr lm sf g =
     (let (a1, a2, a3) = v1; (b1, b2, b3) = v2; (r1, r2, r3) = tr;
          (t1, g) = check_mac_overflow 1 (r1 * 2 ^ 12 + a1 * b1) g;
          g = snd (sat_ir_mac 1 t1 sf lm g);
          (t2, g) = check_mac_overflow 2 (r2 * 2 ^ 12 + a2 * b2) g;
          g = snd (sat_ir_mac 2 t2 sf lm g);
          (t3, g) = check_mac_overflow 3 (r3 * 2 ^ 12 + a3 * b3) g
      in snd (sat_ir_mac 3 t3 sf lm g))"

definition vector_mat_mul :: "mat3 \<Rightarrow> vec3 \<Rightarrow> vec3 \<Rightarrow> bool \<Rightarrow> nat \<Rightarrow> gte \<Rightarrow> gte" where
  "vector_mat_mul mx vx tx lm sf g =
     (let (r1, r2, r3) = mx; (x1, x2, x3) = tx;
          (t1, g) = check_row 1 (x1 * 2 ^ 12) r1 vx g;
          (t2, g) = check_row 2 (x2 * 2 ^ 12) r2 vx g;
          (t3, g) = check_row 3 (x3 * 2 ^ 12) r3 vx g
      in sat_ir_mac3 (t1, t2, t3) sf lm g)"

definition ir_to_vec :: "gte \<Rightarrow> vec3" where "ir_to_vec g = (ir 1 g, ir 2 g, ir 3 g)"
definition ir0_to_vec :: "gte \<Rightarrow> vec3" where "ir0_to_vec g = (ir 0 g, ir 0 g, ir 0 g)"

definition interpolate :: "vec3 \<Rightarrow> bool \<Rightarrow> nat \<Rightarrow> gte \<Rightarrow> gte" where
  "interpolate m lm sf g =
     (let (m1, m2, m3) = m;
          (t, g) = check_mac3 (ir 1 g * ir 0 g + m1, ir 2 g * ir 0 g + m2, ir 3 g * ir 0 g + m3) g
      in sat_ir_mac3 t sf lm g)"

definition select_vec :: "nat \<Rightarrow> gte \<Rightarrow> vec3 result" where
  "select_vec n g =
     (if n = 0 then Inr (vec16 0 g) else if n = 1 then Inr (vec16 2 g)
      else if n = 2 then Inr (vec16 4 g) else Inl Unreachable)"

definition RTPS :: "u32 \<Rightarrow> nat \<Rightarrow> bool \<Rightarrow> gte \<Rightarrow> gte result" where
  "RTPS cmd vec_number set_mac_0 g =
     bindE (select_vec vec_number g) (\<lambda>v0.
       let sf = cmd_sf cmd; lm = cmd_lm cmd;
           (tr1, tr2, tr3) = translation_vec g;
           (rt1, rt2, rt3) = rotation_matrix g;
           (temp1, g) = check_row 1 (tr1 * 0x1000) rt1 v0 g;
           (ir1, g) = sat_ir_mac 1 temp1 sf lm g;
           (temp2, g) = check_row 2 (tr2 * 0x1000) rt2 v0 g;
           (ir2, g) = sat_ir_mac 2 temp2 sf lm g;
           (temp3, g) = check_row 3 (tr3 * 0x1000) rt3 v0 g;
           g = set_mac 3 (drop_bit (sf * 12) temp3) g;
           mac3_fract = drop_bit 12 temp3;
           g = (if mac3_fract < - 0x8000 \<or> mac3_fract > 0x7FFF then raise_flag 22 g else g);
           g = set_half 11 0 (i16 (clamp (mac 3 g) (if lm then 0 else - 0x8000) 0x7FFF)) g;
           (sz3, g) = saturate_sz3 (i32 (drop_bit 12 temp3)) g;
           h = u16_at 58 0 g; ofx = i32_at 56 g; ofy = i32_at 57 g;
           dqa = i16_at 59 0 g; dqb = i32_at 60 g
       in bindE (div_and_saturate (word_of_int h) (word_of_int sz3) g) (\<lambda>(q, g).
            let d = uint q;
                mac0 = d * ir1 + ofx; g = set_mac0 mac0 g;
                (sx2, g) = saturate_sx2 (i32 (drop_bit 16 mac0)) g;
                mac0 = d * ir2 + ofy; g = set_mac0 mac0 g;
                (sy2, g) = saturate_sy2 (i32 (drop_bit 16 mac0)) g;
                g = (if set_mac_0
                     then let mac0 = d * dqa + dqb in saturate_ir0 (drop_bit 12 mac0) (set_mac0 mac0 g)
                     else g);
                g = push_screen_fifo sx2 sy2 g;
                g = push_z_fifo sz3 g
            in Inr (update_irgb g)))"

definition NCLIP :: "gte \<Rightarrow> gte" where
  "NCLIP g =
     (let x0 = i16_at 12 0 g; y0 = i16_at 12 1 g; x1 = i16_at 13 0 g; y1 = i16_at 13 1 g;
          x2 = i16_at 14 0 g; y2 = i16_at 14 1 g
      in set_mac0 (x0 * y1 + x1 * y2 + x2 * y0 - x0 * y2 - x1 * y0 - x2 * y1) g)"

definition OP_cmd :: "u32 \<Rightarrow> gte \<Rightarrow> gte" where
  "OP_cmd cmd g =
     (let ((d1, _, _), (_, d2, _), (_, _, d3)) = rotation_matrix g;
          (t, g) = check_mac3 (ir 3 g * d2 - ir 2 g * d3, ir 1 g * d3 - ir 3 g * d1,
                               ir 2 g * d1 - ir 1 g * d2) g
      in update_irgb (sat_ir_mac3 t (cmd_sf cmd) (cmd_lm cmd) g))"

text \<open>
  Towards the far colour: the distances \<open>(fc - c) << 12\<close> saturate into IR with \<open>lm\<close> off. Each
  triple is checked in order, then saturated in order.
\<close>

definition DPCS :: "u32 \<Rightarrow> bool \<Rightarrow> gte \<Rightarrow> gte" where
  "DPCS cmd use_fifo g =
     (let lm = cmd_lm cmd; sf = cmd_sf cmd; c = (if use_fifo then 20 else 6);
          r = u8_at c 0 g * 2 ^ 4; gr = u8_at c 1 g * 2 ^ 4; b = u8_at c 2 g * 2 ^ 4;
          (f1, f2, f3) = far_color_vec g;
          (t, g) = check_mac3 (f1 * 2 ^ 12 - r * 2 ^ 12, f2 * 2 ^ 12 - gr * 2 ^ 12, f3 * 2 ^ 12 - b * 2 ^ 12) g;
          g = sat_ir_mac3 t sf False g;
          g = vector_mul (ir0_to_vec g) (ir_to_vec g) (i16 r, i16 gr, i16 b) lm sf g
      in update_irgb (push_color_from_mac g))"

definition INTPL :: "u32 \<Rightarrow> gte \<Rightarrow> gte" where
  "INTPL cmd g =
     (let lm = cmd_lm cmd; sf = cmd_sf cmd;
          r = ir 1 g; gr = ir 2 g; b = ir 3 g;
          (f1, f2, f3) = far_color_vec g;
          (t, g) = check_mac3 (f1 * 2 ^ 12 - r * 2 ^ 12, f2 * 2 ^ 12 - gr * 2 ^ 12, f3 * 2 ^ 12 - b * 2 ^ 12) g;
          g = sat_ir_mac3 t sf False g;
          g = vector_mul (ir0_to_vec g) (ir_to_vec g) (r, gr, b) lm sf g
      in update_irgb (push_color_from_mac g))"

definition mvmva_matrix :: "nat \<Rightarrow> gte \<Rightarrow> mat3 result" where
  "mvmva_matrix sel g =
     (if sel = 0 then Inr (rotation_matrix g)
      else if sel = 1 then Inr (light_matrix g)
      else if sel = 2 then Inr (light_color_mat g)
      else if sel = 3 then
        (let r = u8_at 6 0 g * 2 ^ 4; ((_, _, m02), (_, m11, _), _) = rotation_matrix g
         in Inr ((i16 (- r), i16 r, ir 0 g), (m02, m02, m02), (m11, m11, m11)))
      else Inl Unreachable)"

definition mvmva_vector :: "nat \<Rightarrow> gte \<Rightarrow> vec3 result" where
  "mvmva_vector sel g =
     (if sel = 0 then Inr (vec16 0 g) else if sel = 1 then Inr (vec16 2 g)
      else if sel = 2 then Inr (vec16 4 g) else if sel = 3 then Inr (ir_to_vec g)
      else Inl Unreachable)"

definition mvmva_translation :: "nat \<Rightarrow> gte \<Rightarrow> vec3 result" where
  "mvmva_translation sel g =
     (if sel = 0 then Inr (translation_vec g) else if sel = 1 then Inr (bg_color_vec g)
      else if sel = 2 then Inr (far_color_vec g) else if sel = 3 then Inr (0, 0, 0)
      else Inl Unreachable)"

text \<open>One discarded product of the far-colour form: it only sets flags and IR.\<close>

definition check_sat_ir :: "nat \<Rightarrow> int \<Rightarrow> nat \<Rightarrow> bool \<Rightarrow> gte \<Rightarrow> gte" where
  "check_sat_ir n v sf lm g =
     (let (t, g) = check_mac_overflow n v g in snd (saturate_ir n (i32 (drop_bit (12 * sf) t)) lm g))"

definition check_pair :: "nat \<Rightarrow> vec3 \<Rightarrow> vec3 \<Rightarrow> gte \<Rightarrow> int \<times> gte" where
  "check_pair n row v g =
     (let (_, m1, m2) = row; (_, y, z) = v;
          (a, g) = check_mac_overflow n (m1 * y) g
      in check_mac_overflow n (a + m2 * z) g)"

definition mvmva_far :: "mat3 \<Rightarrow> vec3 \<Rightarrow> vec3 \<Rightarrow> bool \<Rightarrow> nat \<Rightarrow> gte \<Rightarrow> gte" where
  "mvmva_far mx vx tx lm sf g =
     (let (r1, r2, r3) = mx; (x, _, _) = vx; (t1, t2, t3) = tx;
          g = check_sat_ir 1 (t1 * 0x1000 + fst r1 * x) sf False g;
          g = check_sat_ir 2 (t2 * 0x1000 + fst r2 * x) sf False g;
          g = check_sat_ir 3 (t3 * 0x1000 + fst r3 * x) sf False g;
          (a, g) = check_pair 1 r1 vx g;
          (b, g) = check_pair 2 r2 vx g;
          (c, g) = check_pair 3 r3 vx g
      in sat_ir_mac3 (a, b, c) sf lm g)"

definition MVMVA :: "u32 \<Rightarrow> gte \<Rightarrow> gte result" where
  "MVMVA cmd g =
     bindE (mvmva_matrix (cmd_mat cmd) g) (\<lambda>mx.
     bindE (mvmva_vector (cmd_vec cmd) g) (\<lambda>vx.
     bindE (mvmva_translation (cmd_translation cmd) g) (\<lambda>tx.
       let sf = cmd_sf cmd; lm = cmd_lm cmd
       in Inr (update_irgb
            (if cmd_translation cmd = 2 then mvmva_far mx vx tx lm sf g
             else vector_mat_mul mx vx tx lm sf g)))))"

text \<open>
  \<open>SetMac<n>(CheckMacOverflow<n>(v))\<close> keeps the checked sum; \<open>color_times_ir\<close> does it for
  the colour times IR, \<open>toward_far\<close> is the interpolation towards the far colour that four
  commands share.
\<close>

definition set_check_mac :: "nat \<Rightarrow> int \<Rightarrow> gte \<Rightarrow> int \<times> gte" where
  "set_check_mac n v g = (let (t, g) = check_mac_overflow n v g in (t, set_mac n t g))"

definition color_times_ir :: "gte \<Rightarrow> vec3 \<times> gte" where
  "color_times_ir g =
     (let r = u8_at 6 0 g; gr = u8_at 6 1 g; b = u8_at 6 2 g;
          (p1, g) = set_check_mac 1 (r * ir 1 g * 2 ^ 4) g;
          (p2, g) = set_check_mac 2 (gr * ir 2 g * 2 ^ 4) g;
          (p3, g) = set_check_mac 3 (b * ir 3 g * 2 ^ 4) g
      in ((p1, p2, p3), g))"

definition check_sat_mac :: "nat \<Rightarrow> int \<Rightarrow> nat \<Rightarrow> bool \<Rightarrow> gte \<Rightarrow> gte" where
  "check_sat_mac n v sf lm g =
     (let (t, g) = check_mac_overflow n v g in snd (sat_ir_mac n t sf lm g))"

definition toward_far :: "vec3 \<Rightarrow> vec3 \<Rightarrow> nat \<Rightarrow> bool \<Rightarrow> gte \<Rightarrow> gte" where
  "toward_far fc p sf lm g =
     (let (f1, f2, f3) = fc; (p1, p2, p3) = p;
          g = check_sat_mac 1 (f1 * 2 ^ 12 - p1) sf False g;
          g = check_sat_mac 2 (f2 * 2 ^ 12 - p2) sf False g;
          g = check_sat_mac 3 (f3 * 2 ^ 12 - p3) sf False g;
          g = check_sat_mac 1 (p1 + ir 1 g * ir 0 g) sf lm g;
          g = check_sat_mac 2 (p2 + ir 2 g * ir 0 g) sf lm g
      in check_sat_mac 3 (p3 + ir 3 g * ir 0 g) sf lm g)"

definition NCDS :: "u32 \<Rightarrow> nat \<Rightarrow> gte \<Rightarrow> gte result" where
  "NCDS cmd vec_number g =
     bindE (select_vec vec_number g) (\<lambda>vx.
       let sf = cmd_sf cmd; lm = cmd_lm cmd;
           bk = bg_color_vec g; lcm = light_color_mat g;
           g = vector_mat_mul (light_matrix g) vx (0, 0, 0) lm sf g;
           g = vector_mat_mul lcm (ir_to_vec g) bk lm sf g;
           fc = far_color_vec g;
           (p, g) = color_times_ir g;
           g = toward_far fc p sf lm g
       in Inr (update_irgb (push_color_from_mac g)))"

definition CDP :: "u32 \<Rightarrow> gte \<Rightarrow> gte" where
  "CDP cmd g =
     (let sf = cmd_sf cmd; lm = cmd_lm cmd;
          g = vector_mat_mul (light_color_mat g) (ir_to_vec g) (bg_color_vec g) lm sf g;
          fc = far_color_vec g;
          (p, g) = color_times_ir g;
          g = toward_far fc p sf lm g
      in update_irgb (push_color_from_mac g))"

definition NCDT :: "u32 \<Rightarrow> gte \<Rightarrow> gte result" where
  "NCDT cmd g = bindE (NCDS cmd 0 g) (\<lambda>g. bindE (NCDS cmd 1 g) (NCDS cmd 2))"

definition NCCS :: "u32 \<Rightarrow> nat \<Rightarrow> gte \<Rightarrow> gte result" where
  "NCCS cmd vec_number g =
     bindE (select_vec vec_number g) (\<lambda>vx.
       let sf = cmd_sf cmd; lm = cmd_lm cmd;
           bk = bg_color_vec g; lcm = light_color_mat g;
           g = vector_mat_mul (light_matrix g) vx (0, 0, 0) lm sf g;
           g = vector_mat_mul lcm (ir_to_vec g) bk lm sf g;
           (p, g) = color_times_ir g;
           g = sat_ir_mac3 p sf lm g
       in Inr (update_irgb (push_color_from_mac g)))"

definition CC :: "u32 \<Rightarrow> gte \<Rightarrow> gte" where
  "CC cmd g =
     (let sf = cmd_sf cmd; lm = cmd_lm cmd;
          g = vector_mat_mul (light_color_mat g) (ir_to_vec g) (bg_color_vec g) lm sf g;
          (p, g) = color_times_ir g;
          g = sat_ir_mac3 p sf lm g
      in update_irgb (push_color_from_mac g))"

definition NCS :: "u32 \<Rightarrow> nat \<Rightarrow> gte \<Rightarrow> gte result" where
  "NCS cmd vec_number g =
     bindE (select_vec vec_number g) (\<lambda>vx.
       let sf = cmd_sf cmd; lm = cmd_lm cmd;
           bk = bg_color_vec g; lcm = light_color_mat g;
           g = vector_mat_mul (light_matrix g) vx (0, 0, 0) lm sf g;
           g = vector_mat_mul lcm (ir_to_vec g) bk lm sf g
       in Inr (update_irgb (push_color_from_mac g)))"

definition NCT :: "u32 \<Rightarrow> gte \<Rightarrow> gte result" where
  "NCT cmd g = bindE (NCS cmd 0 g) (\<lambda>g. bindE (NCS cmd 1 g) (NCS cmd 2))"

definition SQR :: "u32 \<Rightarrow> gte \<Rightarrow> gte" where
  "SQR cmd g = vector_mul (ir_to_vec g) (ir_to_vec g) (0, 0, 0) False (cmd_sf cmd) g"

definition DPCL :: "u32 \<Rightarrow> gte \<Rightarrow> gte" where
  "DPCL cmd g =
     (let sf = cmd_sf cmd; lm = cmd_lm cmd;
          fc = far_color_vec g;
          (p, g) = color_times_ir g;
          g = toward_far fc p sf lm g
      in update_irgb (push_color_from_mac g))"

definition DPCT :: "u32 \<Rightarrow> gte \<Rightarrow> gte" where
  "DPCT cmd g = DPCS cmd True (DPCS cmd True (DPCS cmd True g))"

definition AVSZ3 :: "gte \<Rightarrow> gte" where
  "AVSZ3 g =
     (let mac0 = i16_at 61 0 g * (u16_at 17 0 g + u16_at 18 0 g + u16_at 19 0 g)
      in saturate_otz (drop_bit 12 mac0) (set_mac0 mac0 g))"

definition AVSZ4 :: "gte \<Rightarrow> gte" where
  "AVSZ4 g =
     (let mac0 = i16_at 62 0 g * (u16_at 16 0 g + u16_at 17 0 g + u16_at 18 0 g + u16_at 19 0 g)
      in saturate_otz (drop_bit 12 mac0) (set_mac0 mac0 g))"

definition RTPT :: "u32 \<Rightarrow> gte \<Rightarrow> gte result" where
  "RTPT cmd g = bindE (RTPS cmd 0 False g) (\<lambda>g. bindE (RTPS cmd 1 False g) (RTPS cmd 2 True))"

definition GPF :: "u32 \<Rightarrow> gte \<Rightarrow> gte" where
  "GPF cmd g =
     update_irgb (push_color_from_mac (interpolate (0, 0, 0) (cmd_lm cmd) (cmd_sf cmd) g))"

definition GPL :: "u32 \<Rightarrow> gte \<Rightarrow> gte" where
  "GPL cmd g =
     (let sf = cmd_sf cmd;
          (m, g) = check_mac3 (mac 1 g * 2 ^ (12 * sf), mac 2 g * 2 ^ (12 * sf), mac 3 g * 2 ^ (12 * sf)) g
      in update_irgb (push_color_from_mac (interpolate m (cmd_lm cmd) sf g)))"

definition NCCT :: "u32 \<Rightarrow> gte \<Rightarrow> gte result" where
  "NCCT cmd g = bindE (NCCS cmd 0 g) (\<lambda>g. bindE (NCCS cmd 1 g) (NCCS cmd 2))"

section \<open>The processor interface\<close>

text \<open>
  The cycles the processor waits for a running command: the caller adds them to the bus's
  cycle counter.
\<close>

definition interlock_command :: "u64 \<Rightarrow> gte \<Rightarrow> u64" where
  "interlock_command current_time g =
     (if current_time \<ge> m_cmd_interlock g then 0 else m_cmd_interlock g - current_time)"

definition read_data :: "nat \<Rightarrow> gte \<Rightarrow> u32" where
  "read_data r g =
     (if r = 1 then word_of_int (i16_at 1 0 g)
      else if r = 3 then word_of_int (i16_at 3 0 g)
      else if r = 5 then word_of_int (i16_at 5 0 g)
      else if r = 7 then word_of_int (u16_at 7 0 g)
      else if r = 8 \<or> r = 9 \<or> r = 10 \<or> r = 11 then word_of_int (i16_at r 0 g)
      else if r = 15 then word_of_int (u16_at 14 0 g) OR push_bit 16 (word_of_int (i16_at 14 1 g))
      else reg r g)"

definition flag_error_mask :: u32 where
  "flag_error_mask = push_bit 23 0xFF OR push_bit 13 0x3F"

definition read_control :: "nat \<Rightarrow> gte \<Rightarrow> u32 \<times> gte" where
  "read_control r g =
     (let i = 32 + r in
      if i = 36 \<or> i = 44 \<or> i = 52 then (word_of_int (i16_at i 0 g), g)
      else if i = 58 \<or> i = 59 \<or> i = 61 \<or> i = 62 then (word_of_int (i16_at i 0 g), g)
      else if i = 63 then
        let all_bits = unset_bit 31 (flags_raw g) AND flag_error_mask;
            g = set_reg 63 (if all_bits \<noteq> 0 then set_bit 31 (flags_raw g)
                            else unset_bit 31 (flags_raw g)) g
        in (flags_raw g, g)
      else (reg i g, g))"

text \<open>A write to IR1..IR3 replaces one component of the packed colour.\<close>

definition write_ir_color :: "nat \<Rightarrow> u32 \<Rightarrow> gte \<Rightarrow> gte" where
  "write_ir_color lo val g =
     (let c = clamp (i16 (uint val) sdiv 0x80) 0 0x1F;
          color = put_bits lo 5 (word_of_int c) (reg 29 g AND 0x7FFF)
      in set_reg 29 color (set_reg 28 color g))"

definition write_data :: "nat \<Rightarrow> u32 \<Rightarrow> gte \<Rightarrow> gte" where
  "write_data r val g =
     (if r = 9 then set_reg 9 val (write_ir_color 0 val g)
      else if r = 10 then set_reg 10 val (write_ir_color 5 val g)
      else if r = 11 then set_reg 11 val (write_ir_color 10 val g)
      else if r = 15 then
        set_reg 15 val (push_screen_fifo (i16 (uint val)) (i16 (uint (drop_bit 16 val))) g)
      else if r = 28 then
        (let val' = val AND 0x7FFF;
             g = set_half 11 0 (uint (get_bits 10 5 val) * 0x80) g;
             g = set_half 10 0 (uint (get_bits 5 5 val) * 0x80) g;
             g = set_half 9 0 (uint (get_bits 0 5 val) * 0x80) g;
             g = set_reg 29 (val' AND 0xFFFF) g
         in set_reg 28 val' g)
      else if r = 30 then
        set_reg 30 val (set_reg 31 (of_nat (if sint val \<ge> 0 then countl_zero val else countl_one val)) g)
      else if r = 7 \<or> r = 16 \<or> r = 17 \<or> r = 18 \<or> r = 19 then set_reg r (val AND 0xFFFF) g
      else if r = 29 \<or> r = 31 then g
      else set_reg r val g)"

definition write_control :: "nat \<Rightarrow> u32 \<Rightarrow> gte \<Rightarrow> gte" where
  "write_control r val g =
     (let i = 32 + r; val = (if i = 63 then val AND NOT 0xFFF else val) in set_reg i val g)"

definition OPCODE_CYCLES :: "nat \<Rightarrow> u64" where
  "OPCODE_CYCLES opc =
     (case map_of [(0x01, 15), (0x06, 8), (0x0C, 6), (0x10, 8), (0x11, 8), (0x12, 8), (0x13, 19),
        (0x14, 13), (0x16, 44), (0x1B, 17), (0x1C, 11), (0x1E, 14), (0x20, 30), (0x28, 5), (0x29, 8),
        (0x2A, 17), (0x2D, 5), (0x2E, 6), (0x30, 23), (0x3D, 5), (0x3E, 5), (0x3F, 39)] opc of
        None \<Rightarrow> 0 | Some n \<Rightarrow> n)"

definition run_cmd :: "u32 \<Rightarrow> gte \<Rightarrow> gte result" where
  "run_cmd cmd g =
     (let opc = cmd_opcode cmd in
      if opc = 0x01 then RTPS cmd 0 True g
      else if opc = 0x06 then Inr (NCLIP g)
      else if opc = 0x0C then Inr (OP_cmd cmd g)
      else if opc = 0x10 then Inr (DPCS cmd False g)
      else if opc = 0x11 then Inr (INTPL cmd g)
      else if opc = 0x12 then MVMVA cmd g
      else if opc = 0x13 then NCDS cmd 0 g
      else if opc = 0x14 then Inr (CDP cmd g)
      else if opc = 0x16 then NCDT cmd g
      else if opc = 0x1B then NCCS cmd 0 g
      else if opc = 0x1C then Inr (CC cmd g)
      else if opc = 0x1E then NCS cmd 0 g
      else if opc = 0x20 then NCT cmd g
      else if opc = 0x28 then Inr (SQR cmd g)
      else if opc = 0x29 then Inr (DPCL cmd g)
      else if opc = 0x2A then Inr (DPCT cmd g)
      else if opc = 0x2D then Inr (AVSZ3 g)
      else if opc = 0x2E then Inr (AVSZ4 g)
      else if opc = 0x30 then RTPT cmd g
      else if opc = 0x3D then Inr (GPF cmd g)
      else if opc = 0x3E then Inr (GPL cmd g)
      else if opc = 0x3F then NCCT cmd g
      else Inr g)"

definition gte_cmd :: "u64 \<Rightarrow> u32 \<Rightarrow> gte \<Rightarrow> gte result" where
  "gte_cmd timestamp cmd g =
     bindE (run_cmd cmd (set_reg 63 0 g)) (\<lambda>g.
       Inr (g\<lparr>m_cmd_interlock := timestamp + OPCODE_CYCLES (cmd_opcode cmd)\<rparr>))"

end
