(* ===== verification/GteSpec.thy ===== *)
theory GteSpec
  imports Gte
begin

text \<open>
  What the geometry coprocessor promises: which registers a command may change, that the
  division never leaves its table, what saturation and the flag register mean, and the
  matrix products in exact arithmetic.
\<close>

section \<open>Registers\<close>

lemma length_set_reg [simp]: "length (m_regs (set_reg i v g)) = length (m_regs g)"
  by (simp add: set_reg_def)

lemma length_set_half [simp]: "length (m_regs (set_half i k v g)) = length (m_regs g)"
  by (simp add: set_half_def)

lemma interlock_set_reg [simp]: "m_cmd_interlock (set_reg i v g) = m_cmd_interlock g"
  by (simp add: set_reg_def)

lemma reg_set_reg_other [simp]: "i \<noteq> j \<Longrightarrow> reg j (set_reg i v g) = reg j g"
  by (simp add: set_reg_def reg_def)

lemma reg_set_reg_same [simp]: "i < length (m_regs g) \<Longrightarrow> reg i (set_reg i v g) = v"
  by (simp add: set_reg_def reg_def)

lemma reg_set_reg: "i < length (m_regs g) \<Longrightarrow> reg j (set_reg i v g) = (if i = j then v else reg j g)"
  by auto

section \<open>Division\<close>

lemma unat_half:
  assumes "unat w < 2 ^ Suc n"
  shows "bit w n \<longleftrightarrow> 2 ^ n \<le> unat w"
proof -
  have "unat w div 2 ^ n < 2" using assms by (simp add: less_mult_imp_div_less mult.commute)
  then have "odd (unat w div 2 ^ n) \<longleftrightarrow> unat w div 2 ^ n \<noteq> 0"
    by (auto simp: less_Suc_eq numeral_2_eq_2)
  also have "\<dots> \<longleftrightarrow> 2 ^ n \<le> unat w" by (simp add: div_eq_0_iff not_less)
  finally have "bit (unat w) n \<longleftrightarrow> 2 ^ n \<le> unat w" by (simp add: bit_iff_odd)
  then show ?thesis by (simp add: bit_unsigned_iff)
qed

lemma clz_from_spec:
  assumes "w \<noteq> 0" "unat w < 2 ^ n"
  shows "2 ^ n \<le> 2 * (unat w * 2 ^ clz_from n w) \<and> unat w * 2 ^ clz_from n w < 2 ^ n"
  using assms(2)
proof (induction n)
  case 0
  then show ?case using assms(1) by (simp add: unat_eq_zero)
next
  case (Suc n)
  show ?case
  proof (cases "bit w n")
    case True
    then show ?thesis using Suc.prems unat_half[of w n] by simp
  next
    case False
    then have "unat w < 2 ^ n" using Suc.prems unat_half[of w n] by simp
    with Suc.IH False show ?thesis by (simp add: algebra_simps)
  qed
qed

lemma clz_from_le: "clz_from n w \<le> n"
  by (induction n) auto

lemma division_index:
  fixes sz :: u32
  assumes "0 < unat sz" "unat sz < 2 ^ 16"
  shows "unat (drop_bit 7 (push_bit (countl_zero (ucast sz :: u16)) sz - 0x7FC0)) \<le> 256"
proof -
  let ?s = "ucast sz :: u16" and ?k = "countl_zero (ucast sz :: u16)"
  have s: "unat ?s = unat sz" using assms(2) by (simp add: unsigned_ucast_eq take_bit_nat_eq_self)
  then have "?s \<noteq> 0" using assms(1) by (auto simp: unat_eq_zero)
  then have d: "2 ^ 16 \<le> 2 * (unat sz * 2 ^ ?k)" "unat sz * 2 ^ ?k < 2 ^ 16"
    using clz_from_spec[of ?s 16] s assms(2) by (simp_all add: countl_zero_def)
  have "unat (push_bit ?k sz) = unat sz * 2 ^ ?k"
    using d(2) unfolding unsigned_push_bit_eq by (simp add: push_bit_eq_mult take_bit_nat_eq_self)
  then have p: "unat (push_bit ?k sz - 0x7FC0) = unat sz * 2 ^ ?k - 0x7FC0"
    using d(1) by (subst unat_sub) (simp_all add: word_le_nat_alt)
  have "unat (drop_bit 7 (push_bit ?k sz - 0x7FC0)) = (unat sz * 2 ^ ?k - 0x7FC0) div 2 ^ 7"
    unfolding unat_drop_bit_eq p by (simp add: drop_bit_eq_div)
  also have "\<dots> \<le> 256" using d(2) by simp
  finally show ?thesis .
qed

lemma div_and_saturate_ok:
  assumes "unat sz < 2 ^ 16" "unat h < 2 ^ 16"
  shows "\<exists>q. div_and_saturate h sz g =
           Inr (q, if unat h < 2 * unat sz then g else raise_flag 17 g) \<and> q \<le> 0x1FFFF \<and>
           (2 * unat sz \<le> unat h \<longrightarrow> q = 0x1FFFF)"
proof -
  have cmp: "h < sz * 2 \<longleftrightarrow> unat h < 2 * unat sz"
    using assms(1) by (simp add: word_less_nat_alt unat_word_ariths mult.commute)
  have small: "ucast (min 0x1FFFF w :: u64) \<le> (0x1FFFF :: u32)" for w
  proof -
    have "unat (min 0x1FFFF w) \<le> 0x1FFFF"
      using min.cobounded1[of "0x1FFFF :: u64" w] by (simp add: word_le_nat_alt del: min.cobounded1)
    then show ?thesis by (simp add: word_le_nat_alt unsigned_ucast_eq take_bit_nat_eq_self)
  qed
  show ?thesis
  proof (cases "unat h < 2 * unat sz")
    case True
    then have "0 < unat sz" by simp
    from division_index[OF this assms(1)] True cmp small show ?thesis
      by (simp add: div_and_saturate_def Let_def not_le)
  next
    case False
    then show ?thesis using cmp by (simp add: div_and_saturate_def)
  qed
qed

section \<open>Frames\<close>

text \<open>
  The registers a command may write: OTZ, IR0..IR3, the screen, depth and colour fifos, the
  MACs, the packed colour and FLAG. Vectors, colour, matrices and the other control registers
  are never touched.
\<close>

definition cmd_regs :: "nat set" where
  "cmd_regs = {7..14} \<union> {16..22} \<union> {24..29} \<union> {63}"

definition gte_frame :: "gte \<Rightarrow> gte \<Rightarrow> bool" where
  "gte_frame g g' \<longleftrightarrow> length (m_regs g') = length (m_regs g) \<and>
     m_cmd_interlock g' = m_cmd_interlock g \<and> (\<forall>i. i \<notin> cmd_regs \<longrightarrow> reg i g' = reg i g) \<and>
     (\<forall>b. b < 12 \<or> 31 \<le> b \<longrightarrow> bit (flags_raw g') b = bit (flags_raw g) b)"

named_theorems frames \<open>preservation of register frames\<close>

lemma frame_refl [simp]: "gte_frame g g"
  by (simp add: gte_frame_def)

lemma frame_set_reg:
  "gte_frame g0 g \<Longrightarrow> i \<in> cmd_regs \<Longrightarrow> i \<noteq> 63 \<Longrightarrow> gte_frame g0 (set_reg i v g)"
  by (auto simp: gte_frame_def flags_raw_def) (metis reg_set_reg_other)

lemma frame_length: "gte_frame g g' \<Longrightarrow> length (m_regs g') = length (m_regs g)"
  by (simp add: gte_frame_def)

lemma frame_reg: "gte_frame g g' \<Longrightarrow> i \<notin> cmd_regs \<Longrightarrow> reg i g' = reg i g"
  by (simp add: gte_frame_def)

text \<open>Sequencing: one rule per shape of binding.\<close>

lemma frame_let_gte:
  "gte_frame g0 e \<Longrightarrow> (\<And>g. gte_frame g0 g \<Longrightarrow> gte_frame g0 (f g)) \<Longrightarrow> gte_frame g0 (Let e f)"
  "gte_frame g0 e \<Longrightarrow> (\<And>g. gte_frame g0 g \<Longrightarrow> gte_frame g0 (snd (h g))) \<Longrightarrow> gte_frame g0 (snd (Let e h))"
  for f :: "gte \<Rightarrow> gte" and h :: "gte \<Rightarrow> 'a \<times> gte"
  by (simp_all add: Let_def)

lemma frame_let_pair:
  "gte_frame g0 (snd e) \<Longrightarrow> (\<And>a g. gte_frame g0 g \<Longrightarrow> gte_frame g0 (f a g)) \<Longrightarrow>
     gte_frame g0 (let (a, g) = e in f a g)"
  "gte_frame g0 (snd e) \<Longrightarrow> (\<And>a g. gte_frame g0 g \<Longrightarrow> gte_frame g0 (snd (h a g))) \<Longrightarrow>
     gte_frame g0 (snd (let (a, g) = e in h a g))"
  for f :: "'a \<Rightarrow> gte \<Rightarrow> gte" and h :: "'a \<Rightarrow> gte \<Rightarrow> 'b \<times> gte"
  by (simp_all add: split_beta)

lemma frame_let_int: "(\<And>x. gte_frame g0 (f x)) \<Longrightarrow> gte_frame g0 (Let e f)" for e :: int
  by simp

lemma frame_let_triple:
  "(\<And>a b c. gte_frame g0 (f a b c)) \<Longrightarrow> gte_frame g0 (let (a, b, c) = e in f a b c)"
  for e :: "'a \<times> 'b \<times> int"
  by (simp add: split_beta)

lemma frame_if:
  "(b \<Longrightarrow> gte_frame g0 x) \<Longrightarrow> (\<not> b \<Longrightarrow> gte_frame g0 y) \<Longrightarrow> gte_frame g0 (if b then x else y)"
  by simp

lemma frame_snd_if:
  "(b \<Longrightarrow> gte_frame g0 (snd x)) \<Longrightarrow> (\<not> b \<Longrightarrow> gte_frame g0 (snd y)) \<Longrightarrow>
    gte_frame g0 (snd (if b then x else y))"
  by simp

lemma cmd_regs_mem [simp]:
  "i \<in> cmd_regs \<longleftrightarrow> 7 \<le> i \<and> i \<le> 14 \<or> 16 \<le> i \<and> i \<le> 22 \<or> 24 \<le> i \<and> i \<le> 29 \<or> i = 63"
  by (auto simp: cmd_regs_def)

lemma frame_half [frames]:
  "gte_frame g0 g \<Longrightarrow> i \<in> cmd_regs \<Longrightarrow> i \<noteq> 63 \<Longrightarrow> gte_frame g0 (set_half i k v g)"
  unfolding set_half_def by (rule frame_set_reg)

lemma frame_raise [frames]:
  assumes "gte_frame g0 g" "12 \<le> b" "b < 31"
  shows "gte_frame g0 (raise_flag b g)"
proof -
  have "flags_raw (raise_flag b g) = flags_raw g OR push_bit b 1 \<or> flags_raw (raise_flag b g) = flags_raw g"
    by (cases "63 < length (m_regs g)") (simp_all add: raise_flag_def flags_raw_def set_reg_def reg_def list_update_beyond)
  then have "bit (flags_raw (raise_flag b g)) k = bit (flags_raw g) k" if "k < 12 \<or> 31 \<le> k" for k
    using assms(2,3) that by (auto simp: bit_simps)
  with assms(1) show ?thesis by (simp add: gte_frame_def) (simp add: raise_flag_def)
qed

lemma frame_irgb [frames]: "gte_frame g0 g \<Longrightarrow> gte_frame g0 (update_irgb g)"
  unfolding update_irgb_def Let_def by (intro frame_set_reg) simp_all

lemma frame_mac_flags [frames]:
  "gte_frame g0 g \<Longrightarrow> n \<in> {1, 2, 3} \<Longrightarrow> gte_frame g0 (mac_flags n v g)"
  unfolding mac_flags_def by (auto intro!: frame_raise)

lemma frame_set_mac [frames]:
  "gte_frame g0 g \<Longrightarrow> n \<in> {1, 2, 3} \<Longrightarrow> gte_frame g0 (set_mac n v g)"
  unfolding set_mac_def by (intro frame_set_reg frame_mac_flags) auto

lemma frame_check [frames]:
  "gte_frame g0 g \<Longrightarrow> n \<in> {1, 2, 3} \<Longrightarrow> gte_frame g0 (snd (check_mac_overflow n v g))"
  by (simp add: check_mac_overflow_def frame_mac_flags)

lemma frame_sat_ir [frames]:
  "gte_frame g0 g \<Longrightarrow> n \<in> {1, 2, 3} \<Longrightarrow> gte_frame g0 (snd (saturate_ir n v lm g))"
  by (auto simp: saturate_ir_def Let_def intro!: frame_irgb frame_half frame_raise)

lemma frame_sat [frames]:
  assumes "gte_frame g0 g"
  shows "gte_frame g0 (snd (saturate_sz3 v g))" "gte_frame g0 (snd (saturate_sx2 v g))"
    "gte_frame g0 (snd (saturate_sy2 v g))" "k \<le> 2 \<Longrightarrow> gte_frame g0 (snd (saturate_color k v g))"
    "gte_frame g0 (saturate_ir0 v g)" "gte_frame g0 (saturate_otz v g)" "gte_frame g0 (set_mac0 v g)"
  using assms
  by (simp_all add: saturate_sz3_def saturate_sx2_def saturate_sy2_def saturate_color_def
      saturate_ir0_def saturate_otz_def set_mac0_def frame_set_reg frame_half frame_raise)

lemma frame_fifos [frames]:
  assumes "gte_frame g0 g"
  shows "gte_frame g0 (push_screen_fifo x y g)" "gte_frame g0 (push_z_fifo z g)"
    "gte_frame g0 (move_color_fifo g)"
  using assms
  by (simp_all add: push_screen_fifo_def move_screen_fifo_def push_z_fifo_def move_z_fifo_def
      move_color_fifo_def Let_def frame_set_reg frame_half)

lemmas frame_steps = frame_let_gte frame_let_pair frame_let_int frame_let_triple frame_if frame_snd_if

lemma frame_color [frames]: "gte_frame g0 g \<Longrightarrow> gte_frame g0 (push_color_fifo c g)"
  unfolding push_color_fifo_def
  by (cases c) (auto simp: Let_def split_beta intro!: frame_set_reg frame_sat frame_fifos)

lemma frame_color_mac [frames]: "gte_frame g0 g \<Longrightarrow> gte_frame g0 (push_color_from_mac g)"
  unfolding push_color_from_mac_def by (rule frame_color)

lemma frame_check_row [frames]:
  "gte_frame g0 g \<Longrightarrow> n \<in> {1, 2, 3} \<Longrightarrow> gte_frame g0 (snd (check_row n t row v g))"
  unfolding check_row_def by (cases row, cases v) (auto simp: Let_def split_beta intro!: frame_check)

lemma frame_check_pair [frames]:
  "gte_frame g0 g \<Longrightarrow> n \<in> {1, 2, 3} \<Longrightarrow> gte_frame g0 (snd (check_pair n row v g))"
  unfolding check_pair_def by (cases row, cases v) (auto simp: Let_def split_beta intro!: frame_check)

lemma frame_sat_ir_mac [frames]:
  "gte_frame g0 g \<Longrightarrow> n \<in> {1, 2, 3} \<Longrightarrow> gte_frame g0 (snd (sat_ir_mac n v sf lm g))"
  unfolding sat_ir_mac_def Let_def by (intro frame_sat_ir frame_set_mac)

lemma frame_sat_ir_mac3 [frames]: "gte_frame g0 g \<Longrightarrow> gte_frame g0 (sat_ir_mac3 t sf lm g)"
  unfolding sat_ir_mac3_def by (cases t) (simp add: frame_sat_ir_mac)

lemma frame_check_mac3 [frames]: "gte_frame g0 g \<Longrightarrow> gte_frame g0 (snd (check_mac3 t g))"
  unfolding check_mac3_def by (cases t) (auto simp: Let_def split_beta intro!: frame_check)

lemma frame_check_sat [frames]:
  assumes "gte_frame g0 g" "n \<in> {1, 2, 3}"
  shows "gte_frame g0 (check_sat_ir n v sf lm g)" "gte_frame g0 (check_sat_mac n v sf lm g)"
    "gte_frame g0 (snd (set_check_mac n v g))"
  using assms unfolding check_sat_ir_def check_sat_mac_def set_check_mac_def Let_def
  by (simp_all add: split_beta frame_sat_ir frame_sat_ir_mac frame_check frame_set_mac)

lemma frame_vector_mul [frames]:
  assumes "gte_frame g0 g"
  shows "gte_frame g0 (vector_mul v1 v2 tr lm sf g)"
proof -
  obtain a1 a2 a3 b1 b2 b3 r1 r2 r3 where "v1 = (a1, a2, a3)" "v2 = (b1, b2, b3)" "tr = (r1, r2, r3)"
    by (metis prod_cases3)
  then show ?thesis using assms
    unfolding vector_mul_def
    by (simp only: Let_def split_beta fst_conv snd_conv)
      (intro frame_sat_ir_mac frame_check; simp)
qed

lemma frame_mat_mul [frames]:
  assumes "gte_frame g0 g"
  shows "gte_frame g0 (vector_mat_mul mx vx tx lm sf g)"
proof -
  obtain r1 r2 r3 x1 x2 x3 where "mx = (r1, r2, r3)" "tx = (x1, x2, x3)" by (metis prod_cases3)
  then show ?thesis using assms
    unfolding vector_mat_mul_def
    by (simp only: Let_def split_beta fst_conv snd_conv)
      (intro frame_sat_ir_mac3 frame_check_row; simp)
qed

lemma frame_interpolate [frames]:
  assumes "gte_frame g0 g"
  shows "gte_frame g0 (interpolate m lm sf g)"
  unfolding interpolate_def
  by (cases m) (simp add: Let_def split_beta frame_sat_ir_mac3 frame_check_mac3 assms)

lemma frame_mvmva_far [frames]:
  assumes "gte_frame g0 g"
  shows "gte_frame g0 (mvmva_far mx vx tx lm sf g)"
proof -
  obtain r1 r2 r3 x y z t1 t2 t3 where "mx = (r1, r2, r3)" "vx = (x, y, z)" "tx = (t1, t2, t3)"
    by (metis prod_cases3)
  then show ?thesis using assms
    unfolding mvmva_far_def
    by (simp only: Let_def split_beta fst_conv snd_conv)
      (intro frame_sat_ir_mac3 frame_check_pair frame_check_sat; simp)
qed

lemma frame_color_times_ir [frames]: "gte_frame g0 g \<Longrightarrow> gte_frame g0 (snd (color_times_ir g))"
  unfolding color_times_ir_def by (simp add: Let_def split_beta frame_check_sat)

lemma frame_toward_far [frames]:
  "gte_frame g0 g \<Longrightarrow> gte_frame g0 (toward_far fc p sf lm g)"
  unfolding toward_far_def by (intro frame_steps frame_check_sat; simp)

text \<open>A fallible command returns, within the frame.\<close>

definition frame_ok :: "gte \<Rightarrow> gte result \<Rightarrow> bool" where
  "frame_ok g0 r \<longleftrightarrow> (\<exists>g'. r = Inr g' \<and> gte_frame g0 g')"

lemma frame_ok_Inr [simp]: "frame_ok g0 (Inr g) \<longleftrightarrow> gte_frame g0 g"
  by (simp add: frame_ok_def)

lemma frame_ok_bind:
  "frame_ok g0 r \<Longrightarrow> (\<And>g. gte_frame g0 g \<Longrightarrow> frame_ok g0 (f g)) \<Longrightarrow> frame_ok g0 (bindE r f)"
  by (auto simp: frame_ok_def)

lemma frame_ok_let:
  "gte_frame g0 e \<Longrightarrow> (\<And>g. gte_frame g0 g \<Longrightarrow> frame_ok g0 (f g)) \<Longrightarrow> frame_ok g0 (Let e f)"
  "gte_frame g0 (snd p) \<Longrightarrow> (\<And>a g. gte_frame g0 g \<Longrightarrow> frame_ok g0 (h a g)) \<Longrightarrow>
     frame_ok g0 (let (a, g) = p in h a g)"
  for f :: "gte \<Rightarrow> gte result" and h :: "'a \<Rightarrow> gte \<Rightarrow> gte result"
  by (simp_all add: split_beta)

lemma frame_ok_let_val:
  "(\<And>x. frame_ok g0 (f1 x)) \<Longrightarrow> frame_ok g0 (Let n1 f1)"
  "(\<And>x. frame_ok g0 (f2 x)) \<Longrightarrow> frame_ok g0 (Let n2 f2)"
  "(\<And>x. frame_ok g0 (f3 x)) \<Longrightarrow> frame_ok g0 (Let n3 f3)"
  "(\<And>x y z. frame_ok g0 (f4 x y z)) \<Longrightarrow> frame_ok g0 (let (x, y, z) = v in f4 x y z)"
  "(\<And>x y z. frame_ok g0 (f5 x y z)) \<Longrightarrow> frame_ok g0 (let (x, y, z) = m in f5 x y z)"
  for f1 :: "int \<Rightarrow> gte result" and f2 :: "nat \<Rightarrow> gte result" and f3 :: "bool \<Rightarrow> gte result"
    and v :: vec3 and m :: mat3
  by (simp_all add: split_beta)

lemma frame_ok_val:
  "(\<And>x. frame_ok g0 (f1 x)) \<Longrightarrow> frame_ok g0 (Let v f1)"
  "(\<And>x. frame_ok g0 (f2 x)) \<Longrightarrow> frame_ok g0 (Let m f2)"
  for v :: vec3 and m :: mat3
  by simp_all

lemma frame_ok_select:
  "n \<le> 2 \<Longrightarrow> (\<And>v. frame_ok g0 (f v)) \<Longrightarrow> frame_ok g0 (bindE (select_vec n g) f)"
  by (auto simp: select_vec_def)

lemmas frame_ok_steps = frame_ok_let frame_ok_let_val frame_ok_val frame_ok_Inr[THEN iffD2]

lemma frame_ok_NCDS: "n \<le> 2 \<Longrightarrow> gte_frame g0 g \<Longrightarrow> frame_ok g0 (NCDS cmd n g)"
  unfolding NCDS_def
  by (rule frame_ok_select, assumption) (intro frame_ok_steps frames; (assumption | simp))

lemma frame_ok_NCCS: "n \<le> 2 \<Longrightarrow> gte_frame g0 g \<Longrightarrow> frame_ok g0 (NCCS cmd n g)"
  unfolding NCCS_def
  by (rule frame_ok_select, assumption) (intro frame_ok_steps frames; (assumption | simp))

lemma frame_ok_NCS: "n \<le> 2 \<Longrightarrow> gte_frame g0 g \<Longrightarrow> frame_ok g0 (NCS cmd n g)"
  unfolding NCS_def
  by (rule frame_ok_select, assumption) (intro frame_ok_steps frames; (assumption | simp))

text \<open>The division of \<open>RTPS\<close>: both operands are 16-bit values.\<close>

lemma saturate_sz3_range: "0 \<le> fst (saturate_sz3 v g)" "fst (saturate_sz3 v g) < 2 ^ 16"
  using take_bit_int_less_exp[of 16 v] take_bit_int_less_exp[of 16 "clamp v 0 0xFFFF"]
  by (auto simp: saturate_sz3_def u16c_def)

lemma frame_ok_sz3:
  "gte_frame g0 g \<Longrightarrow> (\<And>z g. gte_frame g0 g \<Longrightarrow> 0 \<le> z \<Longrightarrow> z < 2 ^ 16 \<Longrightarrow> frame_ok g0 (f z g)) \<Longrightarrow>
   frame_ok g0 (let (z, g) = saturate_sz3 v g in f z g)"
  using saturate_sz3_range[of v g] frame_sat(1)[of g0 g v] by (auto simp: split_beta)

lemma u16_at_range: "0 \<le> u16_at i k g" "u16_at i k g < 2 ^ 16"
  using uint_lt2p[of "ucast (drop_bit (16 * k) (reg i g)) :: u16"] by (simp_all add: u16_at_def)

lemma frame_ok_u16:
  "(\<And>h. 0 \<le> h \<Longrightarrow> h < 2 ^ 16 \<Longrightarrow> frame_ok g0 (f h)) \<Longrightarrow> frame_ok g0 (let h = u16_at i k g in f h)"
  using u16_at_range[of i k g] by simp

lemma unat_word_of_u16: "0 \<le> z \<Longrightarrow> z < 2 ^ 16 \<Longrightarrow> unat (word_of_int z :: u32) < 2 ^ 16"
  by (simp add: unsigned_of_int take_bit_int_eq_self nat_less_iff)

lemma frame_ok_division:
  assumes "0 \<le> h" "h < 2 ^ 16" "0 \<le> z" "z < 2 ^ 16" "gte_frame g0 g"
    "\<And>q g. gte_frame g0 g \<Longrightarrow> frame_ok g0 (f q g)"
  shows "frame_ok g0 (bindE (div_and_saturate (word_of_int h) (word_of_int z) g) (\<lambda>(q, g). f q g))"
proof -
  from div_and_saturate_ok[OF unat_word_of_u16[OF assms(3,4)] unat_word_of_u16[OF assms(1,2)], of g]
  obtain q where
    "div_and_saturate (word_of_int h) (word_of_int z) g =
       Inr (q, if unat (word_of_int h :: u32) < 2 * unat (word_of_int z :: u32) then g else raise_flag 17 g)"
    by blast
  with assms(5,6) show ?thesis by (simp add: frame_raise)
qed

lemma frame_ok_RTPS: "n \<le> 2 \<Longrightarrow> gte_frame g0 g \<Longrightarrow> frame_ok g0 (RTPS cmd n m0 g)"
  unfolding RTPS_def
  by (rule frame_ok_select, assumption)
    (intro frame_ok_sz3 frame_ok_division frame_ok_u16 frame_ok_steps frame_steps frames; (assumption | simp))

lemma mvmva_select:
  assumes "n < 4"
  shows "\<exists>m. mvmva_matrix n g = Inr m" "\<exists>v. mvmva_vector n g = Inr v" "\<exists>t. mvmva_translation n g = Inr t"
proof -
  have n: "n = 0 \<or> n = 1 \<or> n = 2 \<or> n = 3" using assms by auto
  then show "\<exists>m. mvmva_matrix n g = Inr m"
    by (auto simp: mvmva_matrix_def Let_def split_beta simp del: split_paired_Ex)
  show "\<exists>v. mvmva_vector n g = Inr v"
    using n by (auto simp: mvmva_vector_def simp del: split_paired_Ex)
  show "\<exists>t. mvmva_translation n g = Inr t"
    using n by (auto simp: mvmva_translation_def simp del: split_paired_Ex)
qed

lemma frame_ok_MVMVA:
  assumes "gte_frame g0 g"
  shows "frame_ok g0 (MVMVA cmd g)"
proof -
  have sel: "cmd_mat cmd < 2 ^ 2" "cmd_vec cmd < 2 ^ 2" "cmd_translation cmd < 2 ^ 2"
    unfolding cmd_mat_def cmd_vec_def cmd_translation_def by (rule get_bits_less)+
  then obtain mx vx tx where "mvmva_matrix (cmd_mat cmd) g = Inr mx" "mvmva_vector (cmd_vec cmd) g = Inr vx"
    "mvmva_translation (cmd_translation cmd) g = Inr tx"
    using mvmva_select[of "cmd_mat cmd" g] mvmva_select[of "cmd_vec cmd" g]
      mvmva_select[of "cmd_translation cmd" g] by auto
  with assms show ?thesis
    by (simp add: MVMVA_def Let_def frame_irgb frame_mvmva_far frame_mat_mul)
qed

lemma frame_simple [frames]:
  assumes "gte_frame g0 g"
  shows "gte_frame g0 (NCLIP g)" "gte_frame g0 (AVSZ3 g)" "gte_frame g0 (AVSZ4 g)" "gte_frame g0 (SQR cmd g)"
    "gte_frame g0 (GPF cmd g)"
  using assms
  by (simp_all add: NCLIP_def AVSZ3_def AVSZ4_def SQR_def GPF_def Let_def frame_sat frame_vector_mul
      frame_irgb frame_color_mac frame_interpolate)

lemma frame_OP [frames]: "gte_frame g0 g \<Longrightarrow> gte_frame g0 (OP_cmd cmd g)"
  unfolding OP_cmd_def Let_def by (simp add: split_beta frame_irgb frame_sat_ir_mac3 frame_check_mac3)

lemma frame_let_nat: "(\<And>x. gte_frame g0 (f x)) \<Longrightarrow> gte_frame g0 (Let e f)" for e :: nat
  by simp

lemma frame_let_bool: "(\<And>x. gte_frame g0 (f x)) \<Longrightarrow> gte_frame g0 (Let e f)" for e :: bool
  by simp

lemma frame_let_vec: "(\<And>x. gte_frame g0 (f x)) \<Longrightarrow> gte_frame g0 (Let e f)" for e :: vec3
  by simp

lemmas frame_all = frame_let_vec frame_let_nat frame_let_bool frame_steps frames

lemma frame_DPCS [frames]: "gte_frame g0 g \<Longrightarrow> gte_frame g0 (DPCS cmd fifo g)"
  unfolding DPCS_def by (intro frame_let_nat frame_let_bool frame_steps frames; assumption)

lemma frame_colors [frames]:
  assumes "gte_frame g0 g"
  shows "gte_frame g0 (INTPL cmd g)" "gte_frame g0 (CDP cmd g)" "gte_frame g0 (CC cmd g)"
    "gte_frame g0 (DPCL cmd g)" "gte_frame g0 (DPCT cmd g)" "gte_frame g0 (GPL cmd g)"
  unfolding INTPL_def CDP_def CC_def DPCL_def DPCT_def GPL_def
  by (intro frame_let_vec frame_let_nat frame_let_bool frame_steps frames assms; assumption)+

lemma frame_ok_run_cmd:
  assumes "gte_frame g0 g"
  shows "frame_ok g0 (run_cmd cmd g)"
proof -
  have three: "frame_ok g0 (NCDT cmd g)" "frame_ok g0 (NCCT cmd g)" "frame_ok g0 (NCT cmd g)" "frame_ok g0 (RTPT cmd g)"
    using assms unfolding NCDT_def NCCT_def NCT_def RTPT_def
    by (auto intro!: frame_ok_bind frame_ok_NCDS frame_ok_NCCS frame_ok_NCS frame_ok_RTPS)
  then show ?thesis
    using assms
    by (simp add: run_cmd_def Let_def frames frame_ok_NCDS frame_ok_NCCS frame_ok_NCS frame_ok_RTPS frame_ok_MVMVA)
qed


section \<open>Exact arithmetic\<close>

lemma i16_at_set_half [simp]:
  "i < length (m_regs g) \<Longrightarrow> i16_at i 0 (set_half i 0 v g) = i16 v"
proof -
  assume i: "i < length (m_regs g)"
  have "(ucast (put_bits 0 16 (word_of_int v) (reg i g)) :: u16) = word_of_int v"
    by (rule bit_word_eqI) (simp add: field_bits bit_simps)
  with i show ?thesis by (simp add: i16_at_def set_half_def i16_def signed_of_int)
qed

lemma i16_at_other [simp]:
  "i \<noteq> j \<Longrightarrow> i16_at j k (set_half i l v g) = i16_at j k g"
  "i \<noteq> j \<Longrightarrow> i16_at j k (set_reg i w g) = i16_at j k g"
  by (simp_all add: i16_at_def set_half_def)

lemma ir_other [simp]: "i \<noteq> 8 + n \<Longrightarrow> ir n (set_reg i v g) = ir n g"
  by (simp add: ir_def)

lemma mac_other [simp]:
  "i \<noteq> 24 + n \<Longrightarrow> mac n (set_reg i v g) = mac n g"
  "i \<noteq> 24 + n \<Longrightarrow> mac n (set_half i k w g) = mac n g"
  by (simp_all add: mac_def i32_at_def set_half_def)

lemma flags_other [simp]:
  "i \<noteq> 63 \<Longrightarrow> flags_raw (set_reg i v g) = flags_raw g"
  "i \<noteq> 63 \<Longrightarrow> flags_raw (set_half i k w g) = flags_raw g"
  by (simp_all add: flags_raw_def set_half_def)

lemma raise_flag_simps [simp]:
  "n \<le> 3 \<Longrightarrow> ir n (raise_flag b g) = ir n g" "n \<le> 3 \<Longrightarrow> mac n (raise_flag b g) = mac n g"
  "gte_ok g \<Longrightarrow> flags_raw (raise_flag b g) = flags_raw g OR push_bit b 1"
  by (simp_all add: raise_flag_def) (simp add: flags_raw_def gte_ok_def)

lemma gte_ok_set [simp]:
  "gte_ok (set_reg i v g) \<longleftrightarrow> gte_ok g" "gte_ok (set_half i k w g) \<longleftrightarrow> gte_ok g"
  "gte_ok (raise_flag b g) \<longleftrightarrow> gte_ok g"
  by (simp_all add: gte_ok_def set_half_def raise_flag_def)

lemma update_irgb_simps [simp]:
  "n \<le> 3 \<Longrightarrow> ir n (update_irgb g) = ir n g" "n \<le> 3 \<Longrightarrow> mac n (update_irgb g) = mac n g"
  "flags_raw (update_irgb g) = flags_raw g" "gte_ok (update_irgb g) = gte_ok g"
  by (simp_all add: update_irgb_def Let_def)

lemma i16_id: "- 0x8000 \<le> v \<Longrightarrow> v \<le> 0x7FFF \<Longrightarrow> i16 v = v"
  unfolding i16_def by (rule signed_take_bit_int_eq_self) simp_all

text \<open>The limits of the signed 16-bit saturation.\<close>

definition ir_min :: "bool \<Rightarrow> int" where "ir_min lm = (if lm then 0 else - 0x8000)"

definition ir_saturates :: "bool \<Rightarrow> int \<Rightarrow> bool" where
  "ir_saturates lm v \<longleftrightarrow> v < ir_min lm \<or> 0x7FFF < v"

lemma saturate_ir_spec:
  fixes g :: gte and n :: nat and v :: int and lm :: bool
  assumes "gte_ok g" "n \<in> {1, 2, 3}"
  defines "r \<equiv> saturate_ir n v lm g"
  shows "fst r = clamp v (ir_min lm) 0x7FFF" "gte_ok (snd r)"
    "m \<le> 3 \<Longrightarrow> ir m (snd r) = (if m = n then clamp v (ir_min lm) 0x7FFF else ir m g)"
    "m \<le> 3 \<Longrightarrow> mac m (snd r) = mac m g"
    "flags_raw (snd r) = (if ir_saturates lm v then flags_raw g OR push_bit (25 - n) 1 else flags_raw g)"
proof -
  let ?c = "clamp v (ir_min lm) 0x7FFF"
  have c: "i16 ?c = ?c" by (rule i16_id) (auto simp: clamp_def ir_min_def)
  have r: "r = (?c, update_irgb (set_half (8 + n) 0 ?c (if ir_saturates lm v then raise_flag (25 - n) g else g)))"
    unfolding r_def saturate_ir_def ir_saturates_def using c
    by (auto simp: ir_min_def clamp_def split: if_splits)
  have i: "8 + n < length (m_regs (if b then raise_flag k g else g))" for b k
    using assms(1,2) by (auto simp: gte_ok_def raise_flag_def)
  show "fst r = ?c" by (simp add: r)
  show "gte_ok (snd r)" using assms(1) by (simp add: r)
  show "m \<le> 3 \<Longrightarrow> ir m (snd r) = (if m = n then ?c else ir m g)"
    using i c by (auto simp: r ir_def [of _ "set_half _ _ _ _"]) (auto simp: ir_def raise_flag_def)
  show "m \<le> 3 \<Longrightarrow> mac m (snd r) = mac m g" using assms(2) by (auto simp: r)
  show "flags_raw (snd r) = (if ir_saturates lm v then flags_raw g OR push_bit (25 - n) 1 else flags_raw g)"
    using assms(1,2) by (auto simp: r)
qed

definition fits44 :: "int \<Rightarrow> bool" where
  "fits44 v \<longleftrightarrow> - (2 ^ 43) \<le> v \<and> v < 2 ^ 43"

lemma mac_flags_fits [simp]: "fits44 v \<Longrightarrow> mac_flags n v g = g"
  by (simp add: mac_flags_def fits44_def not_le)

lemma check_mac_fits [simp]: "fits44 v \<Longrightarrow> check_mac_overflow n v g = (v, g)"
  by (simp add: check_mac_overflow_def sign_extend_def signed_take_bit_int_eq_self fits44_def)

lemma drop_bit_fits [simp]: "fits44 v \<Longrightarrow> fits44 (drop_bit k v)"
proof -
  assume v: "fits44 v"
  have one: "(1 :: int) \<le> 2 ^ k" by simp
  have "v div 2 ^ k < 2 ^ 43"
  proof (cases "0 \<le> v")
    case True
    then have "v div 2 ^ k \<le> v" using zdiv_mono2[of v 1 "2 ^ k"] one by simp
    then show ?thesis using v by (simp add: fits44_def)
  next
    case False
    then have "v div 2 ^ k < 0" by (simp add: div_neg_pos_less0)
    then show ?thesis by simp
  qed
  moreover have "- (2 ^ 43) \<le> v div 2 ^ k"
  proof (cases "0 \<le> v")
    case True
    then show ?thesis by (simp add: order_trans[OF _ pos_imp_zdiv_nonneg_iff[THEN iffD2]])
  next
    case False
    then have "v div 1 \<le> v div 2 ^ k" using one by (intro zdiv_mono2_neg) simp_all
    then show ?thesis using v by (simp add: fits44_def)
  qed
  ultimately show ?thesis by (simp add: fits44_def drop_bit_eq_div)
qed

lemma set_mac_spec:
  assumes "gte_ok g" "n \<in> {1, 2, 3}" "fits44 v"
  shows "gte_ok (set_mac n v g)" "flags_raw (set_mac n v g) = flags_raw g"
    "m \<le> 3 \<Longrightarrow> ir m (set_mac n v g) = ir m g"
    "m \<le> 3 \<Longrightarrow> mac m (set_mac n v g) = (if m = n then i32 v else mac m g)"
proof -
  have "set_mac n v g = set_reg (24 + n) (word_of_int v) g" using assms(3) by (simp add: set_mac_def)
  moreover have "24 + n < length (m_regs g)" using assms by (auto simp: gte_ok_def)
  moreover have "sint (word_of_int v :: u32) = i32 v" by (simp add: i32_def signed_of_int)
  ultimately show "gte_ok (set_mac n v g)" "flags_raw (set_mac n v g) = flags_raw g"
    "m \<le> 3 \<Longrightarrow> ir m (set_mac n v g) = ir m g"
    "m \<le> 3 \<Longrightarrow> mac m (set_mac n v g) = (if m = n then i32 v else mac m g)"
    using assms(1,2) by (auto simp: mac_def i32_at_def reg_set_reg)
qed

lemma bit_raise: "k < 32 \<Longrightarrow> bit (w OR push_bit k (1 :: u32)) b \<longleftrightarrow> bit w b \<or> b = k"
  by (auto simp: bit_simps dest: bit_imp_le_length)

text \<open>One accumulator through \<open>SetMac\<close> and \<open>SaturateIR\<close>.\<close>

lemma sat_ir_mac_spec:
  fixes g :: gte and n sf :: nat and v :: int and lm :: bool
  assumes "gte_ok g" "n \<in> {1, 2, 3}" "fits44 v"
  defines "w \<equiv> i32 (drop_bit (12 * sf) v)" and "g' \<equiv> snd (sat_ir_mac n v sf lm g)"
  shows "gte_ok g'"
    "m \<le> 3 \<Longrightarrow> mac m g' = (if m = n then w else mac m g)"
    "m \<le> 3 \<Longrightarrow> ir m g' = (if m = n then clamp w (ir_min lm) 0x7FFF else ir m g)"
    "bit (flags_raw g') b \<longleftrightarrow> bit (flags_raw g) b \<or> b = 25 - n \<and> ir_saturates lm w"
  using set_mac_spec[OF assms(1,2) drop_bit_fits[OF assms(3), where k = "12 * sf"]]
    saturate_ir_spec[OF _ assms(2), where g = "set_mac n (drop_bit (12 * sf) v) g" and v = w and lm = lm]
    bit_raise[of "25 - n" "flags_raw g" b]
  unfolding g'_def w_def sat_ir_mac_def Let_def by (auto simp del: One_nat_def)

text \<open>A row of a matrix product whose partial sums stay in 44 bits is the exact sum.\<close>

definition row_sum :: "int \<Rightarrow> vec3 \<Rightarrow> vec3 \<Rightarrow> int" where
  "row_sum t row v = (case (row, v) of ((m0, m1, m2), (x, y, z)) \<Rightarrow> t + m0 * x + m1 * y + m2 * z)"

definition row_fits :: "int \<Rightarrow> vec3 \<Rightarrow> vec3 \<Rightarrow> bool" where
  "row_fits t row v = (case (row, v) of ((m0, m1, m2), (x, y, z)) \<Rightarrow>
     fits44 (t + m0 * x) \<and> fits44 (t + m0 * x + m1 * y) \<and> fits44 (t + m0 * x + m1 * y + m2 * z))"

lemma check_row_exact: "row_fits t row v \<Longrightarrow> check_row n t row v g = (row_sum t row v, g)"
  by (cases row, cases v) (simp add: check_row_def row_fits_def row_sum_def)

lemma row_sum_fits: "row_fits t row v \<Longrightarrow> fits44 (row_sum t row v)"
  by (cases row, cases v) (simp add: row_fits_def row_sum_def)

definition nth3 :: "'a \<times> 'a \<times> 'a \<Rightarrow> nat \<Rightarrow> 'a" where
  "nth3 v n = (case v of (a, b, c) \<Rightarrow> if n = 1 then a else if n = 2 then b else c)"

lemma sat_ir_mac3_spec:
  fixes g :: gte and lm :: bool and sf :: nat
  assumes "gte_ok g" "\<forall>n \<in> {1, 2, 3}. fits44 (nth3 t n)" "n \<in> {1, 2, 3}"
  defines "w \<equiv> (\<lambda>n. i32 (drop_bit (12 * sf) (nth3 t n)))" and "g' \<equiv> sat_ir_mac3 t sf lm g"
  shows "gte_ok g'" "mac n g' = w n" "ir n g' = clamp (w n) (ir_min lm) 0x7FFF" "ir 0 g' = ir 0 g"
    "bit (flags_raw g') b \<longleftrightarrow> bit (flags_raw g) b \<or> (\<exists>k \<in> {1, 2, 3}. b = 25 - k \<and> ir_saturates lm (w k))"
proof -
  obtain t1 t2 t3 where t: "t = (t1, t2, t3)" by (cases t)
  define g1 where "g1 = snd (sat_ir_mac 1 t1 sf lm g)"
  define g2 where "g2 = snd (sat_ir_mac 2 t2 sf lm g1)"
  have g': "g' = snd (sat_ir_mac 3 t3 sf lm g2)"
    by (simp add: g'_def sat_ir_mac3_def t g1_def g2_def)
  have f: "fits44 t1" "fits44 t2" "fits44 t3" using assms(2) by (simp_all add: nth3_def t)
  note s1 = sat_ir_mac_spec[OF assms(1) _ f(1), where n = 1 and sf = sf and lm = lm, folded g1_def, simplified]
  note s2 = sat_ir_mac_spec[OF s1(1) _ f(2), where n = 2 and sf = sf and lm = lm, folded g2_def, simplified]
  note s3 = sat_ir_mac_spec[OF s2(1) _ f(3), where n = 3 and sf = sf and lm = lm, folded g', simplified]
  have w: "w 1 = i32 (drop_bit (12 * sf) t1)" "w 2 = i32 (drop_bit (12 * sf) t2)"
    "w 3 = i32 (drop_bit (12 * sf) t3)"
    by (simp_all add: w_def nth3_def t)
  show "gte_ok g'" by (rule s3(1))
  show "mac n g' = w n" "ir n g' = clamp (w n) (ir_min lm) 0x7FFF"
    using assms(3) w by (auto simp: s3 s2 s1)
  show "ir 0 g' = ir 0 g" by (simp add: s3 s2 s1)
  show "bit (flags_raw g') b \<longleftrightarrow> bit (flags_raw g) b \<or>
      (\<exists>k \<in> {1, 2, 3}. b = 25 - k \<and> ir_saturates lm (w k))"
    using w by (auto simp: s3(4) s2(4) s1(4))
qed

text \<open>The matrix-vector product shared by seven of the commands.\<close>

lemma vector_mat_mul_exact:
  fixes g :: gte and lm :: bool and sf :: nat
  assumes "gte_ok g" "\<forall>n \<in> {1, 2, 3}. row_fits (nth3 tx n * 2 ^ 12) (nth3 mx n) vx" "n \<in> {1, 2, 3}"
  defines "w \<equiv> (\<lambda>n. i32 (drop_bit (12 * sf) (row_sum (nth3 tx n * 2 ^ 12) (nth3 mx n) vx)))"
    and "g' \<equiv> vector_mat_mul mx vx tx lm sf g"
  shows "gte_ok g'" "mac n g' = w n" "ir n g' = clamp (w n) (ir_min lm) 0x7FFF" "ir 0 g' = ir 0 g"
    "bit (flags_raw g') b \<longleftrightarrow> bit (flags_raw g) b \<or> (\<exists>k \<in> {1, 2, 3}. b = 25 - k \<and> ir_saturates lm (w k))"
proof -
  obtain r1 r2 r3 x1 x2 x3 where e: "mx = (r1, r2, r3)" "tx = (x1, x2, x3)" by (metis prod_cases3)
  define t where "t = (row_sum (x1 * 2 ^ 12) r1 vx, row_sum (x2 * 2 ^ 12) r2 vx, row_sum (x3 * 2 ^ 12) r3 vx)"
  have rf: "row_fits (x1 * 2 ^ 12) r1 vx" "row_fits (x2 * 2 ^ 12) r2 vx" "row_fits (x3 * 2 ^ 12) r3 vx"
    using assms(2) by (simp_all add: nth3_def e)
  have nt: "k \<in> {1, 2, 3} \<Longrightarrow> nth3 t k = row_sum (nth3 tx k * 2 ^ 12) (nth3 mx k) vx" for k
    by (auto simp: nth3_def t_def e)
  have g': "g' = sat_ir_mac3 t sf lm g"
    unfolding g'_def vector_mat_mul_def t_def using rf by (simp add: e check_row_exact)
  have ft: "\<forall>k \<in> {1, 2, 3}. fits44 (nth3 t k)" using nt assms(2) row_sum_fits by metis
  note sp = sat_ir_mac3_spec[OF assms(1) ft assms(3), where sf = sf and lm = lm, folded g']
  show "gte_ok g'" "mac n g' = w n" "ir n g' = clamp (w n) (ir_min lm) 0x7FFF" "ir 0 g' = ir 0 g"
    using sp(1-4) nt[OF assms(3)] by (simp_all add: w_def)
  show "bit (flags_raw g') b \<longleftrightarrow> bit (flags_raw g) b \<or> (\<exists>k \<in> {1, 2, 3}. b = 25 - k \<and> ir_saturates lm (w k))"
    unfolding sp(5) w_def using nt by auto
qed


section \<open>Properties\<close>

lemma gte_cmd_ok:
  assumes "gte_ok g"
  obtains g' where "gte_cmd timestamp cmd g = Inr g'" "gte_ok g'"
proof -
  obtain g1 where "run_cmd cmd (set_reg 63 0 g) = Inr g1" "gte_frame (set_reg 63 0 g) g1"
    using frame_ok_run_cmd[of "set_reg 63 0 g" "set_reg 63 0 g" cmd] by (auto simp: frame_ok_def)
  with assms show thesis
    by (intro that[of "g1\<lparr>m_cmd_interlock := timestamp + OPCODE_CYCLES (cmd_opcode cmd)\<rparr>"])
      (simp_all add: gte_cmd_def gte_ok_def frame_length)
qed

lemma gte_ok_accesses [simp]:
  "gte_ok g \<Longrightarrow> gte_ok (snd (read_control r g))"
  "gte_ok g \<Longrightarrow> gte_ok (write_control r v g)"
  "gte_ok g \<Longrightarrow> gte_ok (write_data r v g)"
  by (auto simp: read_control_def write_control_def write_data_def write_ir_color_def gte_ok_def
      set_half_def push_screen_fifo_def move_screen_fifo_def Let_def split: prod.splits)

text \<open>
  C2. Every command word, on every register contents, is executed without leaving an array and
  without reaching an unreachable case; the next command is held off for the command's cycles;
  vectors, colour, matrices and all control registers except FLAG keep their values; in FLAG,
  bits 0 to 11 and the summary bit 31 are clear.
\<close>

theorem gte_cmd_frame:
  assumes "gte_ok g"
  shows "\<exists>g'. gte_cmd timestamp cmd g = Inr g' \<and> gte_ok g' \<and>
           m_cmd_interlock g' = timestamp + OPCODE_CYCLES (cmd_opcode cmd) \<and>
           (\<forall>i. i \<notin> {7..14} \<union> {16..22} \<union> {24..29} \<union> {63} \<longrightarrow> reg i g' = reg i g) \<and>
           (\<forall>b. b < 12 \<or> b = 31 \<longrightarrow> \<not> bit (flags_raw g') b)"
proof -
  let ?g = "set_reg 63 0 g"
  obtain g1 where g1: "run_cmd cmd ?g = Inr g1" "gte_frame ?g g1"
    using frame_ok_run_cmd[of ?g ?g cmd] by (auto simp: frame_ok_def)
  have "reg i g1 = reg i g" if "i \<notin> cmd_regs" for i
    using frame_reg[OF g1(2) that] that by simp
  moreover have "flags_raw ?g = 0" using assms by (simp add: flags_raw_def gte_ok_def)
  then have "\<not> bit (flags_raw g1) b" if "b < 12 \<or> b = 31" for b
    using g1(2) that by (auto simp: gte_frame_def)
  moreover have "gte_ok g1" using g1(2) assms by (simp add: gte_ok_def frame_length)
  ultimately show ?thesis
    using g1(1) by (auto simp: gte_cmd_def gte_ok_def reg_def flags_raw_def cmd_regs_def)
qed

lemma gte_init_ok: "gte_ok gte_init"
  by (simp add: gte_ok_def gte_init_def)

theorem gte_cmd_frame_witness:
  "gte_ok gte_init \<and> (\<exists>g'. gte_cmd 7 0x0180001 gte_init = Inr g' \<and> gte_ok g' \<and>
     m_cmd_interlock g' = 7 + OPCODE_CYCLES (cmd_opcode 0x0180001) \<and>
     (\<forall>i. i \<notin> {7..14} \<union> {16..22} \<union> {24..29} \<union> {63} \<longrightarrow> reg i g' = reg i gte_init) \<and>
     (\<forall>b. b < 12 \<or> b = 31 \<longrightarrow> \<not> bit (flags_raw g') b))"
  by (intro conjI gte_init_ok gte_cmd_frame)

text \<open>
  C4. The matrix product is exact: as long as no partial sum of a row leaves 44 bits, MAC1 to
  MAC3 hold the low 32 bits of the exact shifted sums, IR1 to IR3 those values saturated to
  \<open>[-0x8000, 0x7FFF]\<close> (or \<open>[0, 0x7FFF]\<close> with \<open>lm\<close>), and exactly the saturation
  flags of the components that were clipped are raised.
\<close>

theorem vector_mat_mul_correct:
  assumes "gte_ok g" and "n \<in> {1, 2, 3}"
    and "\<forall>k \<in> {1, 2, 3}. row_fits (nth3 tx k * 2 ^ 12) (nth3 mx k) vx"
    and "w = (\<lambda>k. i32 (drop_bit (12 * sf) (row_sum (nth3 tx k * 2 ^ 12) (nth3 mx k) vx)))"
    and "g' = vector_mat_mul mx vx tx lm sf g"
  shows "mac n g' = w n \<and> ir n g' = max (if lm then 0 else - 0x8000) (min 0x7FFF (w n)) \<and> ir 0 g' = ir 0 g \<and>
    (\<forall>b. bit (flags_raw g') b \<longleftrightarrow> bit (flags_raw g) b \<or>
       (\<exists>k \<in> {1, 2, 3}. b = 25 - k \<and> w k \<notin> {(if lm then 0 else - 0x8000)..0x7FFF}))"
proof -
  note v = vector_mat_mul_exact[OF assms(1,3,2), where sf = sf and lm = lm, folded assms(5)]
  have "clamp x (ir_min lm) 0x7FFF = max (if lm then 0 else - 0x8000) (min 0x7FFF x)" for x
    by (simp add: clamp_def ir_min_def)
  moreover have "ir_saturates lm x \<longleftrightarrow> x \<notin> {(if lm then 0 else - 0x8000)..0x7FFF}" for x
    by (auto simp: ir_saturates_def ir_min_def)
  ultimately show ?thesis using v(2-5) by (simp add: assms(4))
qed

definition unit_mat :: mat3 where "unit_mat = ((4096, 0, 0), (0, 4096, 0), (0, 0, 4096))"

theorem vector_mat_mul_correct_witness:
  fixes w :: "nat \<Rightarrow> int" and g' :: gte
  defines "w \<equiv> \<lambda>k. i32 (drop_bit (12 * 1) (row_sum (nth3 (3, 4, 5) k * 2 ^ 12) (nth3 unit_mat k) (0x7FFF, -9, 2)))"
    and "g' \<equiv> vector_mat_mul unit_mat (0x7FFF, -9, 2) (3, 4, 5) True 1 gte_init"
  shows "mac 1 g' = w 1 \<and> ir 1 g' = max (if True then 0 else - 0x8000) (min 0x7FFF (w 1)) \<and> ir 0 g' = ir 0 gte_init \<and>
     (\<forall>b. bit (flags_raw g') b \<longleftrightarrow> bit (flags_raw gte_init) b \<or>
        (\<exists>k \<in> {1, 2, 3}. b = 25 - k \<and> w k \<notin> {(if True then 0 else - 0x8000)..0x7FFF}))"
proof (rule vector_mat_mul_correct[OF gte_init_ok])
  show "\<forall>k \<in> {1, 2, 3}. row_fits (nth3 (3, 4, 5) k * 2 ^ 12) (nth3 unit_mat k) (0x7FFF, -9, 2)"
    by (simp add: row_fits_def fits44_def nth3_def unit_mat_def)
qed (simp_all add: w_def g'_def)

text \<open>
  C5. The perspective division: on 16-bit operands it never indexes past its 257-entry table,
  the quotient is at most \<open>0x1FFFF\<close>, and exactly when the depth is at most half the
  distance of the projection plane it is that maximum together with the overflow flag.
\<close>

theorem division_bounds:
  assumes "unat h < 2 ^ 16" and "unat sz < 2 ^ 16"
  shows "\<exists>q. div_and_saturate h sz g =
           Inr (q, if unat h < 2 * unat sz then g else raise_flag 17 g) \<and> q \<le> 0x1FFFF \<and>
           (2 * unat sz \<le> unat h \<longrightarrow> q = 0x1FFFF)"
  using assms by (intro div_and_saturate_ok)

theorem division_bounds_witness:
  "\<exists>q. div_and_saturate 0xFFFF 0x8000 gte_init =
     Inr (q, if unat (0xFFFF :: u32) < 2 * unat (0x8000 :: u32) then gte_init else raise_flag 17 gte_init) \<and>
     q \<le> 0x1FFFF \<and> (2 * unat (0x8000 :: u32) \<le> unat (0xFFFF :: u32) \<longrightarrow> q = 0x1FFFF)"
  by (rule division_bounds) simp_all

text \<open>
  \<open>NCLIP\<close> computes twice the signed area of the screen triangle: MAC0 receives the cross
  product of its edges and the MAC0 overflow flags tell exactly when it leaves 32 bits.
\<close>

theorem nclip_cross_product:
  assumes "gte_ok g"
    and "x = (\<lambda>k. i16_at (12 + k) 0 g)" and "y = (\<lambda>k. i16_at (12 + k) 1 g)"
    and "area = (x 1 - x 0) * (y 2 - y 0) - (x 2 - x 0) * (y 1 - y 0)"
  shows "mac 0 (NCLIP g) = i32 area \<and>
    (\<forall>b. bit (flags_raw (NCLIP g)) b \<longleftrightarrow> bit (flags_raw g) b \<or>
       b = 16 \<and> 2 ^ 31 \<le> area \<or> b = 15 \<and> area < - (2 ^ 31))"
proof -
  have n: "NCLIP g = set_mac0 area g"
    unfolding NCLIP_def Let_def assms(2-4) by (simp add: algebra_simps numeral_eq_Suc)
  have len: "24 < length (m_regs (raise_flag k g))" "24 < length (m_regs g)" for k
    using assms(1) by (simp_all add: gte_ok_def raise_flag_def)
  have "mac 0 (set_mac0 area g) = i32 area"
    using len by (simp add: set_mac0_def mac_def i32_at_def i32_def signed_of_int)
  moreover have "bit (flags_raw (set_mac0 area g)) b \<longleftrightarrow> bit (flags_raw g) b \<or>
      b = 16 \<and> 2 ^ 31 \<le> area \<or> b = 15 \<and> area < - (2 ^ 31)" for b
    using assms(1) bit_raise[of 16 "flags_raw g" b] bit_raise[of 15 "flags_raw g" b]
    by (auto simp: set_mac0_def)
  ultimately show ?thesis unfolding n by blast
qed

theorem nclip_cross_product_witness:
  "mac 0 (NCLIP (push_screen_fifo 9 2 (push_screen_fifo 4 7 gte_init))) = i32 (4 * 2 - 9 * 7)"
proof -
  let ?g = "push_screen_fifo 9 2 (push_screen_fifo 4 7 gte_init)"
  have ok: "gte_ok ?g" by (simp add: push_screen_fifo_def move_screen_fifo_def Let_def gte_init_ok)
  have "i16_at 12 0 ?g = 0" "i16_at 12 1 ?g = 0" "i16_at 13 0 ?g = 4" "i16_at 13 1 ?g = 7"
    "i16_at 14 0 ?g = 9" "i16_at 14 1 ?g = 2"
    by code_simp+
  then show ?thesis using nclip_cross_product[OF ok refl refl refl] by simp
qed

lemma bit_flag_error_mask: "bit flag_error_mask b \<longleftrightarrow> 23 \<le> b \<and> b \<le> 30 \<or> 13 \<le> b \<and> b \<le> 18"
proof -
  have m: "(0xFF :: u32) = mask 8" "(0x3F :: u32) = mask 6" by (simp_all add: mask_eq_exp_minus_1)
  show ?thesis unfolding flag_error_mask_def m by (auto simp: bit_simps dest: bit_imp_le_length)
qed

lemma error_bits:
  "unset_bit 31 w AND flag_error_mask \<noteq> 0 \<longleftrightarrow>
   (\<exists>b. (23 \<le> b \<and> b \<le> 30 \<or> 13 \<le> b \<and> b \<le> 18) \<and> bit (w :: u32) b)"
proof -
  have "bit (unset_bit 31 w AND flag_error_mask) b \<longleftrightarrow>
      (23 \<le> b \<and> b \<le> 30 \<or> 13 \<le> b \<and> b \<le> 18) \<and> bit w b" for b
    by (auto simp: bit_simps bit_flag_error_mask dest: bit_imp_le_length)
  then show ?thesis by (simp only: word_neq_0_iff_bit)
qed

text \<open>
  Reading FLAG makes its bit 31 the disjunction of the error bits 30 to 23 and 18 to 13,
  leaves every other bit and register alone, returns the register and is idempotent.
\<close>

theorem read_flag_error_bit:
  assumes "gte_ok g" and "read_control 31 g = (v, g')"
  shows "v = flags_raw g' \<and> gte_ok g' \<and>
    (bit v 31 \<longleftrightarrow> (\<exists>b. (23 \<le> b \<and> b \<le> 30 \<or> 13 \<le> b \<and> b \<le> 18) \<and> bit (flags_raw g) b)) \<and>
    (\<forall>b. b \<noteq> 31 \<longrightarrow> bit v b = bit (flags_raw g) b) \<and> (\<forall>i. i \<noteq> 63 \<longrightarrow> reg i g' = reg i g) \<and>
    read_control 31 g' = (v, g')"
proof -
  define E where "E = (\<lambda>w. \<exists>b. (23 \<le> b \<and> b \<le> 30 \<or> 13 \<le> b \<and> b \<le> (18 :: nat)) \<and> bit (w :: u32) b)"
  define w where "w = put_flag 31 (E (flags_raw g)) (flags_raw g)"
  have wf: "put_flag 31 (E u) u = (if unset_bit 31 u AND flag_error_mask \<noteq> 0 then set_bit 31 u else unset_bit 31 u)" for u
    unfolding error_bits E_def by (rule bit_word_eqI) (auto simp: field_bits bit_simps)
  have rc: "read_control 31 h = (put_flag 31 (E (flags_raw h)) (flags_raw h),
      set_reg 63 (put_flag 31 (E (flags_raw h)) (flags_raw h)) h)" if "gte_ok h" for h
    using that unfolding wf by (simp add: read_control_def Let_def flags_raw_def gte_ok_def)
  then have "(v, g') = (w, set_reg 63 w g)" using assms unfolding w_def by metis
  then have v: "v = w" "g' = set_reg 63 w g" by simp_all
  then have fr: "flags_raw g' = w" "gte_ok g'" using assms(1) by (simp_all add: flags_raw_def gte_ok_def)
  have same: "bit w b = bit (flags_raw g) b" if "b \<noteq> 31" for b using that by (simp add: w_def bit_put_flag)
  have "E w = E (flags_raw g)" unfolding E_def
  proof (rule ex_cong1)
    show "((23 \<le> b \<and> b \<le> 30 \<or> 13 \<le> b \<and> b \<le> 18) \<and> bit w b) =
        ((23 \<le> b \<and> b \<le> 30 \<or> 13 \<le> b \<and> b \<le> 18) \<and> bit (flags_raw g) b)" for b :: nat
      by (cases "b = 31") (simp_all add: same)
  qed
  then have "put_flag 31 (E w) w = w"
    unfolding w_def by (intro bit_word_eqI) (simp add: bit_put_flag)
  then have "read_control 31 g' = (v, g')"
    using rc[OF fr(2)] fr v by (simp add: set_reg_def)
  moreover have "bit v 31 = E (flags_raw g)" "\<forall>b. b \<noteq> 31 \<longrightarrow> bit v b = bit (flags_raw g) b"
    by (simp_all add: v w_def bit_put_flag)
  ultimately show ?thesis using fr v by (simp add: E_def)
qed

theorem read_flag_error_bit_witness:
  fixes g :: gte
  defines "g \<equiv> raise_flag 17 gte_init"
  shows "\<exists>v g'. read_control 31 g = (v, g') \<and> v = flags_raw g' \<and> gte_ok g' \<and>
    (bit v 31 \<longleftrightarrow> (\<exists>b. (23 \<le> b \<and> b \<le> 30 \<or> 13 \<le> b \<and> b \<le> 18) \<and> bit (flags_raw g) b)) \<and>
    (\<forall>b. b \<noteq> 31 \<longrightarrow> bit v b = bit (flags_raw g) b) \<and> (\<forall>i. i \<noteq> 63 \<longrightarrow> reg i g' = reg i g) \<and>
    read_control 31 g' = (v, g')"
proof (intro exI conjI[OF _ read_flag_error_bit])
  show "gte_ok g" by (simp add: g_def gte_init_ok)
qed (rule prod.collapse[symmetric])+

lemma clamp_scaled: "0 \<le> u \<Longrightarrow> u < 32 \<Longrightarrow> clamp (u * 0x80 sdiv 0x80) 0 0x1F = u"
  by (auto simp: clamp_def signed_divide_int_def sgn_if)

text \<open>
  Packed colours round trip: after a write to IRGB both IRGB and ORGB read back the low 15
  bits, IR1 to IR3 are the three components times \<open>0x80\<close>, and recomputing the packed colour from
  them changes nothing.
\<close>

theorem irgb_roundtrip:
  assumes "gte_ok g" and "g' = write_data 28 val g"
  shows "read_data 28 g' = val AND 0x7FFF \<and> read_data 29 g' = val AND 0x7FFF \<and>
    ir 1 g' = uint (get_bits 0 5 val) * 0x80 \<and> ir 2 g' = uint (get_bits 5 5 val) * 0x80 \<and>
    ir 3 g' = uint (get_bits 10 5 val) * 0x80 \<and> update_irgb g' = g'"
proof -
  define c where "c = (\<lambda>n. get_bits (5 * (n - 1)) 5 val)"
  have small: "0 \<le> uint (c n)" "uint (c n) < 32" for n
    using get_bits_less[of "5 * (n - 1)" 5 val] unfolding c_def unat_eq_nat_uint nat_less_iff[OF uint_ge_0]
    by simp_all
  have i16s: "i16 (uint (c n) * 0x80) = uint (c n) * 0x80" for n
    using small[of n] by (intro i16_id) linarith+
  define h where "h = set_half 9 0 (uint (c 1) * 0x80) (set_half 10 0 (uint (c 2) * 0x80)
    (set_half 11 0 (uint (c 3) * 0x80) g))"
  have m: "(val AND 0x7FFF) AND 0xFFFF = val AND 0x7FFF" by (simp add: and.assoc)
  have g': "g' = set_reg 28 (val AND 0x7FFF) (set_reg 29 (val AND 0x7FFF) h)"
    by (simp add: assms(2) write_data_def h_def c_def Let_def m)
  have len: "length (m_regs h) = 64" using assms(1) by (simp add: h_def set_half_def gte_ok_def)
  have irs: "ir n g' = uint (c n) * 0x80" if "n \<in> {1, 2, 3}" for n
    using that assms(1) i16s by (auto simp: g' h_def ir_def gte_ok_def)
  have c5: "clamp (uint (c n) * 0x80 sdiv 0x80) 0 0x1F = uint (c n)" for n
    using small[of n] by (rule clamp_scaled)
  have bits: "bit (c n) i \<longleftrightarrow> i < 5 \<and> bit val (5 * (n - 1) + i)" for n i
    by (simp add: c_def field_bits)
  have "rgb555 (uint (c 1)) (uint (c 2)) (uint (c 3)) = val AND 0x7FFF"
  proof (rule bit_word_eqI)
    fix i
    have m: "(0x7FFF :: u32) = mask 15" by (simp add: mask_eq_exp_minus_1)
    show "bit (rgb555 (uint (c 1)) (uint (c 2)) (uint (c 3))) i = bit (val AND 0x7FFF) i"
      unfolding m
      by (cases "10 \<le> i"; cases "5 \<le> i")
        (auto simp: rgb555_def bit_simps bits dest: bit_imp_le_length)
  qed
  then have "update_irgb g' = g'"
    using len irs c5 by (simp add: update_irgb_def Let_def g' set_reg_def list_update_swap)
  moreover have "ir 1 g' = uint (c 1) * 0x80" "ir 2 g' = uint (c 2) * 0x80" "ir 3 g' = uint (c 3) * 0x80"
    using irs by simp_all
  moreover have "read_data 28 g' = val AND 0x7FFF" "read_data 29 g' = val AND 0x7FFF"
    using len by (simp_all add: g' read_data_def)
  ultimately show ?thesis by (simp add: c_def)
qed

theorem irgb_roundtrip_witness:
  fixes g' :: gte
  defines "g' \<equiv> write_data 28 0xABCD7E5F gte_init"
  shows "read_data 28 g' = 0xABCD7E5F AND 0x7FFF \<and> read_data 29 g' = 0xABCD7E5F AND 0x7FFF \<and>
    ir 1 g' = uint (get_bits 0 5 (0xABCD7E5F :: u32)) * 0x80 \<and>
    ir 2 g' = uint (get_bits 5 5 (0xABCD7E5F :: u32)) * 0x80 \<and>
    ir 3 g' = uint (get_bits 10 5 (0xABCD7E5F :: u32)) * 0x80 \<and> update_irgb g' = g'"
  unfolding g'_def by (rule irgb_roundtrip[OF gte_init_ok refl])

end
