(* ===== verification/Cop0.thy ===== *)
theory Cop0
  imports PsxPrelude
begin

text \<open>
  The system control coprocessor (\<open>cop0.hpp\<close>, \<open>cop0.cpp\<close>): the registers with their packed
  fields, the exception entry and the return from exception.
\<close>

section \<open>Registers\<close>

datatype excode =
    Ex_INT | Ex_MOD | Ex_TLBL | Ex_TLBS | Ex_ADEL | Ex_ADES | Ex_IBE | Ex_DBE
  | Ex_SYSCALL | Ex_BP | Ex_RI | Ex_COU | Ex_OV

fun excode_num :: "excode \<Rightarrow> u32" where
  "excode_num Ex_INT = 0" | "excode_num Ex_MOD = 1" | "excode_num Ex_TLBL = 2"
| "excode_num Ex_TLBS = 3" | "excode_num Ex_ADEL = 4" | "excode_num Ex_ADES = 5"
| "excode_num Ex_IBE = 6" | "excode_num Ex_DBE = 7" | "excode_num Ex_SYSCALL = 8"
| "excode_num Ex_BP = 9" | "excode_num Ex_RI = 10" | "excode_num Ex_COU = 11"
| "excode_num Ex_OV = 12"

definition RESET_VECTOR :: u32 where "RESET_VECTOR = 0xBFC00000"

definition BREAK_VECTORS :: "bool \<Rightarrow> u32" where
  "BREAK_VECTORS bev = (if bev then 0xBFC00140 else 0x80000040)"

definition GENERAL_VECTORS :: "bool \<Rightarrow> u32" where
  "GENERAL_VECTORS bev = (if bev then 0xBFC00180 else 0x80000080)"

text \<open>The unused registers \<open>r0, r1, r2, r4, r10\<close> are never accessed and are left out.\<close>

record cop0 =
  bpc :: u32
  bda :: u32
  jumpdest :: u32
  dcic :: u32
  bad_vaddr :: u32
  bdam :: u32
  bpcm :: u32
  sr :: u32
  cause :: u32
  epc :: u32
  prid :: u32

text \<open>Fields of \<open>SystemStatus\<close> and \<open>CAUSE\<close>.\<close>

definition curr_int_enable :: "u32 \<Rightarrow> bool" where "curr_int_enable w = bit w 0"
definition current_mode :: "u32 \<Rightarrow> bool" where "current_mode w = bit w 1"
definition prev_int_enable :: "u32 \<Rightarrow> bool" where "prev_int_enable w = bit w 2"
definition prev_mode :: "u32 \<Rightarrow> bool" where "prev_mode w = bit w 3"
definition old_int_enable :: "u32 \<Rightarrow> bool" where "old_int_enable w = bit w 4"
definition old_mode :: "u32 \<Rightarrow> bool" where "old_mode w = bit w 5"
definition int_mask :: "u32 \<Rightarrow> u32" where "int_mask w = get_bits 8 8 w"
definition isolate_cache :: "u32 \<Rightarrow> bool" where "isolate_cache w = bit w 16"
definition boot_vectors :: "u32 \<Rightarrow> bool" where "boot_vectors w = bit w 22"
definition cop0_enable :: "u32 \<Rightarrow> bool" where "cop0_enable w = bit w 28"
definition cop2_enable :: "u32 \<Rightarrow> bool" where "cop2_enable w = bit w 30"

definition interrupt_pending :: "u32 \<Rightarrow> u32" where "interrupt_pending c = get_bits 8 8 c"

definition set_exception_code :: "excode \<Rightarrow> u32 \<Rightarrow> u32" where
  "set_exception_code e c = put_bits 2 5 (excode_num e) c"

definition set_cop_number :: "u32 \<Rightarrow> u32 \<Rightarrow> u32" where
  "set_cop_number n c = put_bits 28 2 n c"

definition set_branch_delay :: "bool \<Rightarrow> u32 \<Rightarrow> u32" where
  "set_branch_delay b c = put_flag 31 b c"

definition cop0_init :: cop0 where
  "cop0_init = \<lparr>bpc = 0, bda = 0, jumpdest = 0, dcic = 0, bad_vaddr = 0, bdam = 0, bpcm = 0,
     sr = put_flag 22 True (put_flag 0 False (put_flag 1 False 0)), cause = 0, epc = 0, prid = 2\<rparr>"

definition DCIC_WRITE_MASK :: u32 where "DCIC_WRITE_MASK = 0b11111111100000001111000000111111"
definition SR_WRITE_MASK :: u32 where "SR_WRITE_MASK = 0b11110010011111111111111100111111"
definition CAUSE_WRITE_MASK :: u32 where "CAUSE_WRITE_MASK = push_bit 8 3"

section \<open>Operations\<close>

definition cop0_exception :: "excode \<Rightarrow> cop0 \<Rightarrow> cop0" where
  "cop0_exception code c =
     (let c = c\<lparr>cause := set_exception_code code (cause c)\<rparr>;
          w = sr c;
          w = put_flag 5 (prev_mode w) w;
          w = put_flag 4 (prev_int_enable w) w;
          w = put_flag 3 (current_mode w) w;
          w = put_flag 2 (curr_int_enable w) w;
          w = put_flag 1 False w;
          w = put_flag 0 False w
      in c\<lparr>sr := w\<rparr>)"

definition cop0_rfe :: "cop0 \<Rightarrow> cop0" where
  "cop0_rfe c =
     (let w = sr c;
          w = put_flag 1 (prev_mode w) w;
          w = put_flag 0 (prev_int_enable w) w;
          w = put_flag 3 (old_mode w) w;
          w = put_flag 2 (old_int_enable w) w
      in c\<lparr>sr := w\<rparr>)"

section \<open>The mode stack\<close>

lemmas sr_fields = curr_int_enable_def current_mode_def prev_int_enable_def prev_mode_def
  old_int_enable_def old_mode_def isolate_cache_def boot_vectors_def cop0_enable_def cop2_enable_def

lemma exception_sr_bit:
  "bit (sr (cop0_exception code c)) i \<longleftrightarrow>
     (if i = 0 \<or> i = 1 then False else if i < 6 then bit (sr c) (i - 2) else bit (sr c) i)"
proof -
  have "i = 0 \<or> i = 1 \<or> i = 2 \<or> i = 3 \<or> i = 4 \<or> i = 5 \<or> 6 \<le> i" by arith
  then show ?thesis
    by (elim disjE) (simp_all add: cop0_exception_def Let_def sr_fields bit_put_flag)
qed

lemma rfe_sr_bit:
  "bit (sr (cop0_rfe c)) i \<longleftrightarrow> (if i < 4 then bit (sr c) (i + 2) else bit (sr c) i)"
proof -
  have "i = 0 \<or> i = 1 \<or> i = 2 \<or> i = 3 \<or> 4 \<le> i" by arith
  then show ?thesis
    by (elim disjE) (simp_all add: cop0_rfe_def Let_def sr_fields bit_put_flag eval_nat_numeral)
qed

lemma exception_cause_bit:
  "bit (cause (cop0_exception code c)) i \<longleftrightarrow>
     (if 2 \<le> i \<and> i < 7 then bit (excode_num code) (i - 2) else bit (cause c) i)"
  by (auto simp: cop0_exception_def Let_def set_exception_code_def bit_put_bits)

text \<open>
  A return from exception undoes an exception entry: the current and previous mode and
  interrupt bits are those before the exception, no other bit of the status register has
  moved except that the old pair now repeats the previous one, and CAUSE holds the code.
\<close>

theorem rfe_after_exception:
  "let c' = cop0_rfe (cop0_exception code c) in
     (\<forall>i. bit (sr c') i \<longleftrightarrow> (if i = 4 \<or> i = 5 then bit (sr c) (i - 2) else bit (sr c) i)) \<and>
     get_bits 2 5 (cause c') = excode_num code \<and>
     (\<forall>i. bit (cause c') i \<longleftrightarrow>
        (if 2 \<le> i \<and> i < 7 then bit (excode_num code) (i - 2) else bit (cause c) i)) \<and>
     epc c' = epc c"
proof -
  have cause: "cause (cop0_rfe d) = cause d" "epc (cop0_rfe d) = epc d" for d
    by (simp_all add: cop0_rfe_def Let_def)
  have "take_bit 5 (excode_num code) = excode_num code" by (cases code) simp_all
  then have "bit (excode_num code) i \<Longrightarrow> i < 5" for i
    using bit_take_bit_iff[of 5 "excode_num code" i] by simp
  then have "get_bits 2 5 (cause (cop0_exception code c)) = excode_num code"
    by (intro bit_word_eqI) (auto simp: bit_get_bits exception_cause_bit)
  moreover have "epc (cop0_exception code c) = epc c" by (simp add: cop0_exception_def Let_def)
  ultimately show ?thesis
    by (auto simp: Let_def cause rfe_sr_bit exception_sr_bit exception_cause_bit)
qed

end
