(* ===== verification/Decode.thy ===== *)
theory Decode
  imports PsxPrelude
begin

text \<open>
  Instruction decoding (\<open>cpu_instruction.hpp\<close>): the opcode names, and the table indexed by
  the primary and secondary fields that gives an instruction's type, opcode and subtype.
\<close>

datatype (plugins only: code size) opcode =
    Op_BCONDZ | Op_J | Op_JAL | Op_BEQ | Op_BNE | Op_BLEZ | Op_BGTZ | Op_ADDI | Op_ADDIU |
  Op_SLTI | Op_SLTIU | Op_ANDI | Op_ORI | Op_XORI | Op_LUI | Op_COP0 | Op_COP1 | Op_COP2 |
  Op_COP3 | Op_LB | Op_LH | Op_LWL | Op_LW | Op_LBU | Op_LHU | Op_LWR | Op_SB | Op_SH | Op_SWL |
  Op_SW | Op_SWR | Op_LWC0 | Op_LWC1 | Op_LWC2 | Op_LWC3 | Op_SWC0 | Op_SWC1 | Op_SWC2 | Op_SWC3
  | Op_SLL | Op_SRL | Op_SRA | Op_SLLV | Op_SRLV | Op_SRAV | Op_JR | Op_JALR | Op_SYSCALL |
  Op_BREAK | Op_MFHI | Op_MTHI | Op_MFLO | Op_MTLO | Op_MULT | Op_MULTU | Op_DIV | Op_DIVU |
  Op_ADD | Op_ADDU | Op_SUB | Op_SUBU | Op_AND | Op_OR | Op_XOR | Op_NOR | Op_SLT | Op_SLTU |
  Op_NA

datatype instruction_type =
    Ty_RESERVED | Ty_LOAD | Ty_STORE | Ty_ALU | Ty_BRANCH | Ty_COPROCESSOR

datatype instruction_subtype =
    Sub_SHIFT_IMM | Sub_SHIFT_REG | Sub_JUMP | Sub_SYS_BRK | Sub_MUL_DIV | Sub_ALU_REG |
  Sub_BRANCH | Sub_ALU_IMM | Sub_LUI_IMM | Sub_LOAD | Sub_STORE | Sub_COP_CMD | Sub_COP_LOAD |
  Sub_COP_STORE | Sub_NA

type_synonym decoded = "instruction_type \<times> opcode \<times> instruction_subtype"

text \<open>The cases of the special opcodes (primary 0) and of the primary ones.\<close>

definition special_table :: "(nat \<times> decoded) list" where
  "special_table =
     [(0x00, (Ty_ALU, Op_SLL, Sub_SHIFT_IMM)), (0x02, (Ty_ALU, Op_SRL, Sub_SHIFT_IMM)),
      (0x03, (Ty_ALU, Op_SRA, Sub_SHIFT_IMM)), (0x04, (Ty_ALU, Op_SLLV, Sub_SHIFT_REG)),
      (0x06, (Ty_ALU, Op_SRLV, Sub_SHIFT_REG)), (0x07, (Ty_ALU, Op_SRAV, Sub_SHIFT_REG)),
      (0x08, (Ty_BRANCH, Op_JR, Sub_JUMP)), (0x09, (Ty_BRANCH, Op_JALR, Sub_JUMP)),
      (0x0C, (Ty_BRANCH, Op_SYSCALL, Sub_SYS_BRK)), (0x0D, (Ty_BRANCH, Op_BREAK, Sub_SYS_BRK)),
      (0x10, (Ty_ALU, Op_MFHI, Sub_MUL_DIV)), (0x11, (Ty_ALU, Op_MTHI, Sub_MUL_DIV)),
      (0x12, (Ty_ALU, Op_MFLO, Sub_MUL_DIV)), (0x13, (Ty_ALU, Op_MTLO, Sub_MUL_DIV)),
      (0x18, (Ty_ALU, Op_MULT, Sub_MUL_DIV)), (0x19, (Ty_ALU, Op_MULTU, Sub_MUL_DIV)),
      (0x1A, (Ty_ALU, Op_DIV, Sub_MUL_DIV)), (0x1B, (Ty_ALU, Op_DIVU, Sub_MUL_DIV)),
      (0x20, (Ty_ALU, Op_ADD, Sub_ALU_REG)), (0x21, (Ty_ALU, Op_ADDU, Sub_ALU_REG)),
      (0x22, (Ty_ALU, Op_SUB, Sub_ALU_REG)), (0x23, (Ty_ALU, Op_SUBU, Sub_ALU_REG)),
      (0x24, (Ty_ALU, Op_AND, Sub_ALU_REG)), (0x25, (Ty_ALU, Op_OR, Sub_ALU_REG)),
      (0x26, (Ty_ALU, Op_XOR, Sub_ALU_REG)), (0x27, (Ty_ALU, Op_NOR, Sub_ALU_REG)),
      (0x2A, (Ty_ALU, Op_SLT, Sub_ALU_REG)), (0x2B, (Ty_ALU, Op_SLTU, Sub_ALU_REG))]"

definition primary_table :: "(nat \<times> decoded) list" where
  "primary_table =
     [(0x1, (Ty_BRANCH, Op_BCONDZ, Sub_BRANCH)), (0x2, (Ty_BRANCH, Op_J, Sub_JUMP)),
      (0x3, (Ty_BRANCH, Op_JAL, Sub_JUMP)), (0x4, (Ty_BRANCH, Op_BEQ, Sub_BRANCH)),
      (0x5, (Ty_BRANCH, Op_BNE, Sub_BRANCH)), (0x6, (Ty_BRANCH, Op_BLEZ, Sub_BRANCH)),
      (0x7, (Ty_BRANCH, Op_BGTZ, Sub_BRANCH)), (0x8, (Ty_ALU, Op_ADDI, Sub_ALU_IMM)),
      (0x9, (Ty_ALU, Op_ADDIU, Sub_ALU_IMM)), (0xA, (Ty_ALU, Op_SLTI, Sub_ALU_IMM)),
      (0xB, (Ty_ALU, Op_SLTIU, Sub_ALU_IMM)), (0xC, (Ty_ALU, Op_ANDI, Sub_ALU_IMM)),
      (0xD, (Ty_ALU, Op_ORI, Sub_ALU_IMM)), (0xE, (Ty_ALU, Op_XORI, Sub_ALU_IMM)),
      (0xF, (Ty_ALU, Op_LUI, Sub_LUI_IMM)), (0x10, (Ty_COPROCESSOR, Op_COP0, Sub_COP_CMD)),
      (0x11, (Ty_COPROCESSOR, Op_COP1, Sub_COP_CMD)), (0x12, (Ty_COPROCESSOR, Op_COP2, Sub_COP_CMD)),
      (0x13, (Ty_COPROCESSOR, Op_COP3, Sub_COP_CMD)), (0x20, (Ty_LOAD, Op_LB, Sub_LOAD)),
      (0x21, (Ty_LOAD, Op_LH, Sub_LOAD)), (0x22, (Ty_LOAD, Op_LWL, Sub_LOAD)),
      (0x23, (Ty_LOAD, Op_LW, Sub_LOAD)), (0x24, (Ty_LOAD, Op_LBU, Sub_LOAD)),
      (0x25, (Ty_LOAD, Op_LHU, Sub_LOAD)), (0x26, (Ty_LOAD, Op_LWR, Sub_LOAD)),
      (0x28, (Ty_STORE, Op_SB, Sub_STORE)), (0x29, (Ty_STORE, Op_SH, Sub_STORE)),
      (0x2A, (Ty_STORE, Op_SWL, Sub_STORE)), (0x2B, (Ty_STORE, Op_SW, Sub_STORE)),
      (0x2E, (Ty_STORE, Op_SWR, Sub_STORE)), (0x30, (Ty_COPROCESSOR, Op_LWC0, Sub_COP_LOAD)),
      (0x31, (Ty_COPROCESSOR, Op_LWC1, Sub_COP_LOAD)), (0x32, (Ty_COPROCESSOR, Op_LWC2, Sub_COP_LOAD)),
      (0x33, (Ty_COPROCESSOR, Op_LWC3, Sub_COP_LOAD)),
      (0x38, (Ty_COPROCESSOR, Op_SWC0, Sub_COP_STORE)),
      (0x39, (Ty_COPROCESSOR, Op_SWC1, Sub_COP_STORE)),
      (0x3A, (Ty_COPROCESSOR, Op_SWC2, Sub_COP_STORE)), (0x3B, (Ty_COPROCESSOR, Op_SWC3, Sub_COP_STORE))]"

definition reserved_entry :: decoded where
  "reserved_entry = (Ty_RESERVED, Op_NA, Sub_NA)"

definition lookup_entry :: "(nat \<times> decoded) list \<Rightarrow> nat \<Rightarrow> decoded" where
  "lookup_entry table k = (case map_of table k of None \<Rightarrow> reserved_entry | Some d \<Rightarrow> d)"

text \<open>The entry of \<open>GetInstructionLut\<close> at an index below 4096.\<close>

definition instruction_lut :: "nat \<Rightarrow> decoded" where
  "instruction_lut index =
     (let secondary = index mod 64; primary = index div 64 mod 64 in
      if primary = 0 then lookup_entry special_table secondary
      else lookup_entry primary_table primary)"

text \<open>The hash of an instruction word.\<close>

definition instruction_hash :: "u32 \<Rightarrow> nat" where
  "instruction_hash instruction =
     (let primary = unat (get_bits 26 6 instruction); secondary = unat (get_bits 0 6 instruction)
      in primary * 64 + secondary)"

definition decode :: "u32 \<Rightarrow> decoded" where
  "decode instruction = instruction_lut (instruction_hash instruction)"

definition fld_rs :: "u32 \<Rightarrow> nat" where "fld_rs i = unat (get_bits 21 5 i)"
definition fld_rt :: "u32 \<Rightarrow> nat" where "fld_rt i = unat (get_bits 16 5 i)"
definition fld_rd :: "u32 \<Rightarrow> nat" where "fld_rd i = unat (get_bits 11 5 i)"
definition fld_shamt :: "u32 \<Rightarrow> nat" where "fld_shamt i = unat (get_bits 6 5 i)"
definition fld_imm :: "u32 \<Rightarrow> u32" where "fld_imm i = ucast (ucast i :: u16)"

lemma fld_less [simp]: "fld_rs i < 32" "fld_rt i < 32" "fld_rd i < 32" "fld_shamt i < 32"
  using get_bits_less[of 21 5 i] get_bits_less[of 16 5 i] get_bits_less[of 11 5 i] get_bits_less[of 6 5 i]
  by (simp_all add: fld_rs_def fld_rt_def fld_rd_def fld_shamt_def)

text \<open>The table agrees with the direct case distinction on the two fields.\<close>

lemma decode_fields:
  "decode i =
     (if get_bits 26 6 i = 0 then lookup_entry special_table (unat (get_bits 0 6 i))
      else lookup_entry primary_table (unat (get_bits 26 6 i)))"
proof -
  have "unat (get_bits 0 6 i) < 64" "unat (get_bits 26 6 i) < 64"
    using get_bits_less[of 0 6 i] get_bits_less[of 26 6 i] by simp_all
  moreover have "unat (get_bits 26 6 i) = 0 \<longleftrightarrow> get_bits 26 6 i = 0" by (simp add: unat_eq_zero)
  ultimately show ?thesis by (simp add: decode_def instruction_lut_def instruction_hash_def Let_def)
qed

end
