(* ===== verification/CpuState.thy ===== *)
theory CpuState
  imports Scheduler Containers Gte Cop0 Decode
begin

text \<open>
  The processor's state and the operations every handler uses: the registers of \<open>MIPS1\<close>, the
  \<open>system_status\<close> structure shared with the bus (\<open>SystemStatus.hpp\<close>), load delay slots,
  exception entry and the coprocessor accesses of \<open>MIPS1.cpp\<close>. The scheduler is the base
  of the record, the bus and the devices are its extension.
\<close>

section \<open>State\<close>

definition InvalidReg :: nat where "InvalidReg = 32"

text \<open>\<open>LoadDelay\<close> and \<open>Writeback\<close> have the same members.\<close>

record pending_write =
  dest :: nat
  pvalue :: u32

definition no_write :: pending_write where
  "no_write = \<lparr>dest = InvalidReg, pvalue = 0\<rparr>"

record syscall_entry =
  exitpoint :: u32
  syscall_id :: u32
  caller :: u32

definition MAX_SYSCALL_FRAMES :: nat where "MAX_SYSCALL_FRAMES = 64"

record 'c cpu = "'c scheduler" +
  regs :: "u32 list"
  pc :: u32
  hi :: u32
  lo :: u32
  cop0 :: cop0
  m_gte :: gte
  m_syscall_frames :: "syscall_entry cstack"
  m_rerun_gte_for_interrupt :: bool
  branch_delay :: bool
  branch_dest :: u32
  curr_mode :: bool
  badvaddr :: u32
  exception_number :: excode
  exception :: bool
  branch_taken :: bool
  curr_delay :: pending_write
  next_delay :: pending_write
  reg_writeback :: pending_write
  interrupt_mask :: u32
  interrupt_request :: u32
  interrupt_line :: bool
  hi_lo_ready_timestamp :: u64
  m_curr_cycles :: u64

text \<open>What \<open>m_regs.array[i]\<close> reads and writes; the last of the 33 slots absorbs writes to no register.\<close>

definition rreg :: "nat \<Rightarrow> ('c, 'm) cpu_scheme \<Rightarrow> u32" where
  "rreg i s = regs s ! i"

definition wreg :: "nat \<Rightarrow> u32 \<Rightarrow> ('c, 'm) cpu_scheme \<Rightarrow> ('c, 'm) cpu_scheme" where
  "wreg i v s = s\<lparr>regs := (regs s)[i := v]\<rparr>"

definition fake_entry :: syscall_entry where
  "fake_entry = \<lparr>exitpoint = 0xFFFFFFFF, syscall_id = 0xFFFFFFFF, caller = 0xFFFFFFFF\<rparr>"

definition empty_frames :: "syscall_entry cstack" where
  "empty_frames = stack_new MAX_SYSCALL_FRAMES \<lparr>exitpoint = 0, syscall_id = 0, caller = 0\<rparr>"

section \<open>Status operations\<close>

definition enter_exception :: "excode \<Rightarrow> bool \<Rightarrow> ('c, 'm) cpu_scheme \<Rightarrow> ('c, 'm) cpu_scheme" where
  "enter_exception code cop0_break s =
     (let c = cop0_exception code (cop0 s);
          c = c\<lparr>cause := set_branch_delay (branch_delay s) (cause c)\<rparr>;
          s = s\<lparr>curr_mode := current_mode (sr c)\<rparr>;
          c = c\<lparr>epc := (if branch_delay s then pc s - 4 else pc s)\<rparr>;
          c = (if code = Ex_ADEL \<or> code = Ex_ADES then c\<lparr>bad_vaddr := badvaddr s\<rparr> else c);
          bev = boot_vectors (sr c)
      in s\<lparr>cop0 := c,
           pc := (if code = Ex_BP \<and> cop0_break then BREAK_VECTORS bev else GENERAL_VECTORS bev)\<rparr>)"

definition coprocessor_unusable :: "u32 \<Rightarrow> ('c, 'm) cpu_scheme \<Rightarrow> ('c, 'm) cpu_scheme" where
  "coprocessor_unusable n s =
     enter_exception Ex_COU False
       (s\<lparr>cop0 := (cop0 s)\<lparr>cause := set_cop_number n (cause (cop0 s))\<rparr>\<rparr>)"

definition exit_exception :: "('c, 'm) cpu_scheme \<Rightarrow> ('c, 'm) cpu_scheme" where
  "exit_exception s =
     (let c = cop0_rfe (cop0 s) in s\<lparr>cop0 := c, curr_mode := current_mode (sr c)\<rparr>)"

definition status_jump :: "u32 \<Rightarrow> ('c, 'm) cpu_scheme \<Rightarrow> ('c, 'm) cpu_scheme" where
  "status_jump destination s = s\<lparr>branch_dest := destination, branch_taken := True\<rparr>"

definition add_load_delay :: "u32 \<Rightarrow> nat \<Rightarrow> ('c, 'm) cpu_scheme \<Rightarrow> ('c, 'm) cpu_scheme" where
  "add_load_delay v r s = s\<lparr>next_delay := \<lparr>dest = r, pvalue = v\<rparr>\<rparr>"

definition add_writeback :: "u32 \<Rightarrow> nat \<Rightarrow> ('c, 'm) cpu_scheme \<Rightarrow> ('c, 'm) cpu_scheme" where
  "add_writeback v r s = s\<lparr>reg_writeback := \<lparr>dest = r, pvalue = v\<rparr>\<rparr>"

definition raise_interrupt :: "u32 \<Rightarrow> ('c, 'm) cpu_scheme \<Rightarrow> ('c, 'm) cpu_scheme" where
  "raise_interrupt int_code s =
     (if interrupt_request s AND int_code \<noteq> 0 then s
      else s\<lparr>interrupt_request := interrupt_request s OR int_code, interrupt_line := True\<rparr>)"

text \<open>\<open>status->exception = true; status->exception_number = code\<close>.\<close>

definition flag_exception :: "excode \<Rightarrow> ('c, 'm) cpu_scheme \<Rightarrow> ('c, 'm) cpu_scheme" where
  "flag_exception code s = s\<lparr>exception := True, exception_number := code\<rparr>"

section \<open>Delay slots\<close>

definition update_load_delay :: "('c, 'm) cpu_scheme \<Rightarrow> ('c, 'm) cpu_scheme" where
  "update_load_delay s =
     (let s = wreg (dest (curr_delay s)) (pvalue (curr_delay s)) s
      in s\<lparr>curr_delay := next_delay s, next_delay := (next_delay s)\<lparr>dest := InvalidReg\<rparr>\<rparr>)"

definition update_reg_writeback :: "('c, 'm) cpu_scheme \<Rightarrow> ('c, 'm) cpu_scheme" where
  "update_reg_writeback s =
     (let s = wreg (dest (reg_writeback s)) (pvalue (reg_writeback s)) s
      in s\<lparr>reg_writeback := (reg_writeback s)\<lparr>dest := InvalidReg\<rparr>\<rparr>)"

definition flush_load_delay :: "('c, 'm) cpu_scheme \<Rightarrow> ('c, 'm) cpu_scheme" where
  "flush_load_delay s =
     (let s = wreg (dest (curr_delay s)) (pvalue (curr_delay s)) s;
          s = s\<lparr>curr_delay := (curr_delay s)\<lparr>dest := InvalidReg\<rparr>\<rparr>;
          s = update_reg_writeback s;
          s = wreg (dest (next_delay s)) (pvalue (next_delay s)) s
      in s\<lparr>next_delay := (next_delay s)\<lparr>dest := InvalidReg\<rparr>\<rparr>)"

section \<open>Interrupts\<close>

definition check_interrupts :: "('c, 'm) cpu_scheme \<Rightarrow> bool" where
  "check_interrupts s =
     (let w = sr (cop0 s); bit10 = bit (int_mask w) 2 in
      if \<not> curr_int_enable w \<or> \<not> bit10 then False
      else if interrupt_mask s AND interrupt_request s = 0
      then (let sw_bits_cause = interrupt_pending (cause (cop0 s)) AND 3;
                sw_bits_sr = int_mask w AND 3
            in sw_bits_sr AND sw_bits_cause \<noteq> 0)
      else True)"

section \<open>Coprocessor accesses\<close>

text \<open>
  The register select of the two \<open>ReadCOP0\<close> overloads: the value, or the exception entered.
\<close>

definition cop0_select :: "nat \<Rightarrow> ('c, 'm) cpu_scheme \<Rightarrow> excode + u32" where
  "cop0_select r s =
     (let c = cop0 s in
      if 16 \<le> r \<and> r < 32 then Inr 0xdeadbeef
      else if current_mode (sr c) \<and> \<not> cop0_enable (sr c) then Inl Ex_COU
      else if r = 3 then Inr (bpc c)
      else if r = 5 then Inr (bda c)
      else if r = 6 then Inr (jumpdest c)
      else if r = 7 then Inr (dcic c)
      else if r = 8 then Inr (bad_vaddr c)
      else if r = 9 then Inr (bdam c)
      else if r = 11 then Inr (bpcm c)
      else if r = 12 then Inr (sr c)
      else if r = 13 then
        Inr (if interrupt_mask s AND interrupt_request s \<noteq> 0 then cause c OR push_bit 10 1 else cause c)
      else if r = 14 then Inr (epc c)
      else if r = 15 then Inr (prid c)
      else Inl Ex_RI)"

definition read_cop0_to :: "nat \<Rightarrow> nat \<Rightarrow> ('c, 'm) cpu_scheme \<Rightarrow> ('c, 'm) cpu_scheme" where
  "read_cop0_to r d s =
     (case cop0_select r s of
        Inl code \<Rightarrow> enter_exception code False s
      | Inr v \<Rightarrow> add_load_delay v d s)"

definition read_cop0 :: "nat \<Rightarrow> ('c, 'm) cpu_scheme \<Rightarrow> u32 \<times> ('c, 'm) cpu_scheme" where
  "read_cop0 r s =
     (case cop0_select r s of
        Inl code \<Rightarrow> (0, enter_exception code False s)
      | Inr v \<Rightarrow> (v, s))"

definition masked_write :: "u32 \<Rightarrow> u32 \<Rightarrow> u32 \<Rightarrow> u32" where
  "masked_write m v w = (w AND NOT m) OR (v AND m)"

definition write_cop0 :: "u32 \<Rightarrow> nat \<Rightarrow> ('c, 'm) cpu_scheme \<Rightarrow> ('c, 'm) cpu_scheme" where
  "write_cop0 v r s =
     (let c = cop0 s in
      if 16 \<le> r \<and> r < 32 then s
      else if current_mode (sr c) \<and> \<not> cop0_enable (sr c) then enter_exception Ex_COU False s
      else if r = 3 then s\<lparr>cop0 := c\<lparr>bpc := v\<rparr>\<rparr>
      else if r = 5 then s\<lparr>cop0 := c\<lparr>bda := v\<rparr>\<rparr>
      else if r = 7 then s\<lparr>cop0 := c\<lparr>dcic := masked_write DCIC_WRITE_MASK v (dcic c)\<rparr>\<rparr>
      else if r = 9 then s\<lparr>cop0 := c\<lparr>bdam := v\<rparr>\<rparr>
      else if r = 11 then s\<lparr>cop0 := c\<lparr>bpcm := v\<rparr>\<rparr>
      else if r = 12 then s\<lparr>cop0 := c\<lparr>sr := masked_write SR_WRITE_MASK v (sr c)\<rparr>\<rparr>
      else if r = 13 then s\<lparr>cop0 := c\<lparr>cause := masked_write CAUSE_WRITE_MASK v (cause c)\<rparr>\<rparr>
      else if r = 6 \<or> r = 8 \<or> r = 14 \<or> r = 15 then s
      else enter_exception Ex_RI False s)"

text \<open>
  The geometry coprocessor: reads and commands wait for the running command, writes do not.
\<close>

definition interlock_gte :: "('c, 'm) cpu_scheme \<Rightarrow> ('c, 'm) cpu_scheme" where
  "interlock_gte s =
     s\<lparr>m_curr_cycles := m_curr_cycles s + interlock_command (m_curr_timestamp s) (m_gte s)\<rparr>"

definition read_cop2_data :: "nat \<Rightarrow> ('c, 'm) cpu_scheme \<Rightarrow> u32 \<times> ('c, 'm) cpu_scheme" where
  "read_cop2_data r s = (read_data r (m_gte s), interlock_gte s)"

definition read_cop2_data_to :: "nat \<Rightarrow> nat \<Rightarrow> ('c, 'm) cpu_scheme \<Rightarrow> ('c, 'm) cpu_scheme" where
  "read_cop2_data_to r d s = (let (v, s) = read_cop2_data r s in add_load_delay v d s)"

definition read_cop2_control :: "nat \<Rightarrow> ('c, 'm) cpu_scheme \<Rightarrow> u32 \<times> ('c, 'm) cpu_scheme" where
  "read_cop2_control r s =
     (let s = interlock_gte s; (v, g) = read_control r (m_gte s) in (v, s\<lparr>m_gte := g\<rparr>))"

definition read_cop2_control_to :: "nat \<Rightarrow> nat \<Rightarrow> ('c, 'm) cpu_scheme \<Rightarrow> ('c, 'm) cpu_scheme" where
  "read_cop2_control_to r d s = (let (v, s) = read_cop2_control r s in add_load_delay v d s)"

definition write_cop2_data :: "u32 \<Rightarrow> nat \<Rightarrow> ('c, 'm) cpu_scheme \<Rightarrow> ('c, 'm) cpu_scheme" where
  "write_cop2_data v r s = s\<lparr>m_gte := write_data r v (m_gte s)\<rparr>"

definition write_cop2_control :: "u32 \<Rightarrow> nat \<Rightarrow> ('c, 'm) cpu_scheme \<Rightarrow> ('c, 'm) cpu_scheme" where
  "write_cop2_control v r s = s\<lparr>m_gte := write_control r v (m_gte s)\<rparr>"

definition cop2_cmd :: "u32 \<Rightarrow> ('c, 'm) cpu_scheme \<Rightarrow> ('c, 'm) cpu_scheme result" where
  "cop2_cmd cmd s =
     (let s = interlock_gte s
      in bindE (gte_cmd (m_curr_timestamp s) cmd (m_gte s)) (\<lambda>g. Inr (s\<lparr>m_gte := g\<rparr>)))"

definition interlock_hi_lo :: "('c, 'm) cpu_scheme \<Rightarrow> ('c, 'm) cpu_scheme" where
  "interlock_hi_lo s =
     (if m_curr_timestamp s < hi_lo_ready_timestamp s
      then s\<lparr>m_curr_cycles := m_curr_cycles s + (hi_lo_ready_timestamp s - m_curr_timestamp s)\<rparr>
      else s)"

text \<open>The constructor; the rest of \<open>system_status\<close> is zeroed by its owner.\<close>

definition cpu_init :: "'c cpu" where
  "cpu_init = scheduler.extend init_scheduler
     (cpu.fields (replicate 33 0) 0 0 0 cop0_init gte_init
        (case stack_push fake_entry empty_frames of Inr st \<Rightarrow> st | Inl _ \<Rightarrow> empty_frames)
        False False 0 False 0 Ex_INT False False no_write no_write no_write 0 0 False 0 0)"

end
