(* ===== verification/Handlers.thy ===== *)
theory Handlers
  imports CpuState
begin

text \<open>
  The instruction handlers (\<open>InstructionHandlers.hpp\<close>) and the interpreter's dispatch
  (\<open>Interpreter.cpp\<close>). A handler is the template instance of its opcode: an opcode the
  template does not know is the source's \<open>DebugBreak\<close>. Memory and the kernel hooks are
  reached through a record of functions on the whole state.
\<close>

section \<open>What the processor calls\<close>

datatype width = W8 | W16 | W32

text \<open>
  \<open>bus_read w except add_cycles\<close> is \<open>SystemBus::Read<Ty, Except, AddCycles>\<close> with the value
  zero-extended; \<open>undefined_instruction\<close> is the kernel's hook for unknown opcodes,
  \<open>hle_bios_handler\<close> the function installed by \<open>SetHLEHandler\<close>.
\<close>

record 's bus_ops =
  bus_read :: "width \<Rightarrow> bool \<Rightarrow> bool \<Rightarrow> u32 \<Rightarrow> 's \<Rightarrow> (u32 \<times> 's) result"
  bus_write :: "width \<Rightarrow> bool \<Rightarrow> bool \<Rightarrow> u32 \<Rightarrow> u32 \<Rightarrow> 's \<Rightarrow> 's result"
  cache_enabled :: "'s \<Rightarrow> bool"
  undefined_instruction :: "u32 \<Rightarrow> 's \<Rightarrow> (bool \<times> 's) result"
  hle_bios_handler :: "u32 \<Rightarrow> bool \<Rightarrow> 's \<Rightarrow> (bool \<times> 's) result"

type_synonym ('c, 'm) handler = "u32 \<Rightarrow> ('c, 'm) cpu_scheme \<Rightarrow> ('c, 'm) cpu_scheme result"

section \<open>Arithmetic\<close>

definition add_overflow :: "u32 \<Rightarrow> u32 \<Rightarrow> bool" where
  "add_overflow l r = (let sum = l + r in (NOT (l XOR r) AND (l XOR sum)) AND 0x80000000 \<noteq> 0)"

definition sub_overflow :: "u32 \<Rightarrow> u32 \<Rightarrow> bool" where
  "sub_overflow l r = (let res = l - r in drop_bit 31 ((l XOR r) AND (l XOR res)) \<noteq> 0)"

definition set_less :: "bool \<Rightarrow> u32" where "set_less b = (if b then 1 else 0)"

definition load_upper_immediate :: "('c, 'm) handler" where
  "load_upper_immediate i s =
     (if fld_rt i \<noteq> 0 then Inr (add_writeback (push_bit 16 (fld_imm i)) (fld_rt i) s) else Inr s)"

definition reserved_instruction :: "('c, 'm) cpu_scheme bus_ops \<Rightarrow> ('c, 'm) handler" where
  "reserved_instruction bus i s =
     (case decode i of (_, opc, _) \<Rightarrow>
        if opc = Op_NA then
          bindE (undefined_instruction bus i s) (\<lambda>(handled, s).
            if handled then Inr s else Inr (flag_exception Ex_RI s))
        else Inl DebugBreak)"

definition alu_immediate :: "opcode \<Rightarrow> ('c, 'm) handler" where
  "alu_immediate opc i s =
     (let rs_val = rreg (fld_rs i) s; rt = fld_rt i; imm = fld_imm i; se = sx16 imm in
      if opc = Op_ORI then Inr (add_writeback (rs_val OR imm) rt s)
      else if opc = Op_ADDIU then Inr (add_writeback (rs_val + se) rt s)
      else if opc = Op_ADDI then
        (if add_overflow rs_val se then Inr (flag_exception Ex_OV s)
         else Inr (add_writeback (rs_val + se) rt s))
      else if opc = Op_ANDI then Inr (add_writeback (rs_val AND imm) rt s)
      else if opc = Op_XORI then Inr (add_writeback (rs_val XOR imm) rt s)
      else if opc = Op_SLTI then Inr (add_writeback (set_less (sint rs_val < sint se)) rt s)
      else if opc = Op_SLTIU then Inr (add_writeback (set_less (rs_val < se)) rt s)
      else Inl DebugBreak)"

definition shift_immediate :: "opcode \<Rightarrow> ('c, 'm) handler" where
  "shift_immediate opc i s =
     (let rt_val = rreg (fld_rt i) s; rd = fld_rd i; imm = fld_shamt i in
      if opc = Op_SLL then Inr (add_writeback (push_bit imm rt_val) rd s)
      else if opc = Op_SRA then Inr (add_writeback (signed_drop_bit imm rt_val) rd s)
      else if opc = Op_SRL then Inr (add_writeback (drop_bit imm rt_val) rd s)
      else Inl DebugBreak)"

definition alu_reg :: "opcode \<Rightarrow> ('c, 'm) handler" where
  "alu_reg opc i s =
     (let rs_val = rreg (fld_rs i) s; rt_val = rreg (fld_rt i) s; rd = fld_rd i in
      if opc = Op_OR then Inr (add_writeback (rs_val OR rt_val) rd s)
      else if opc = Op_AND then Inr (add_writeback (rs_val AND rt_val) rd s)
      else if opc = Op_ADDU then Inr (add_writeback (rs_val + rt_val) rd s)
      else if opc = Op_ADD then
        (if add_overflow rs_val rt_val then Inr (flag_exception Ex_OV s)
         else Inr (add_writeback (rs_val + rt_val) rd s))
      else if opc = Op_SLTU then Inr (add_writeback (set_less (rs_val < rt_val)) rd s)
      else if opc = Op_SLT then Inr (add_writeback (set_less (sint rs_val < sint rt_val)) rd s)
      else if opc = Op_SUBU then Inr (add_writeback (rs_val - rt_val) rd s)
      else if opc = Op_SUB then
        (if sub_overflow rs_val rt_val then Inr (flag_exception Ex_OV s)
         else Inr (add_writeback (word_of_int (sint rs_val - sint rt_val)) rd s))
      else if opc = Op_NOR then Inr (add_writeback (0xFFFFFFFF XOR (rs_val OR rt_val)) rd s)
      else if opc = Op_XOR then Inr (add_writeback (rs_val XOR rt_val) rd s)
      else Inl DebugBreak)"

definition shift_reg :: "opcode \<Rightarrow> ('c, 'm) handler" where
  "shift_reg opc i s =
     (let rs_val = rreg (fld_rs i) s; rt_val = rreg (fld_rt i) s; rd = fld_rd i;
          n = unat (rs_val AND 0x1F) in
      if opc = Op_SLLV then Inr (add_writeback (push_bit n rt_val) rd s)
      else if opc = Op_SRLV then Inr (add_writeback (drop_bit n rt_val) rd s)
      else if opc = Op_SRAV then Inr (add_writeback (signed_drop_bit n rt_val) rd s)
      else Inl DebugBreak)"

definition mul_div :: "opcode \<Rightarrow> ('c, 'm) handler" where
  "mul_div opc i s =
     (let rs_val = rreg (fld_rs i) s; rt_val = rreg (fld_rt i) s; rd = fld_rd i in
      if opc = Op_DIV then
        (let s = s\<lparr>hi_lo_ready_timestamp := m_curr_timestamp s + 36\<rparr> in
         if rt_val = 0 then
           (if sint rs_val \<ge> 0 then Inr (s\<lparr>hi := rs_val, lo := -1\<rparr>)
            else Inr (s\<lparr>hi := rs_val, lo := 1\<rparr>))
         else if sint rt_val = -1 \<and> rs_val = 0x80000000 then Inr (s\<lparr>hi := 0, lo := 0x80000000\<rparr>)
         else Inr (s\<lparr>hi := word_of_int (sint rs_val smod sint rt_val),
                    lo := word_of_int (sint rs_val sdiv sint rt_val)\<rparr>))
      else if opc = Op_MFHI then (let s = interlock_hi_lo s in Inr (add_writeback (hi s) rd s))
      else if opc = Op_MFLO then (let s = interlock_hi_lo s in Inr (add_writeback (lo s) rd s))
      else if opc = Op_MTHI then Inr (interlock_hi_lo s\<lparr>hi := rs_val\<rparr>)
      else if opc = Op_MTLO then Inr (interlock_hi_lo s\<lparr>lo := rs_val\<rparr>)
      else if opc = Op_DIVU then
        (let s = s\<lparr>hi_lo_ready_timestamp := m_curr_timestamp s + 36\<rparr> in
         if rt_val = 0 then Inr (s\<lparr>lo := 0xFFFFFFFF, hi := rs_val\<rparr>)
         else Inr (s\<lparr>hi := rs_val mod rt_val, lo := rs_val div rt_val\<rparr>))
      else if opc = Op_MULTU then
        (let s = s\<lparr>hi_lo_ready_timestamp := m_curr_timestamp s + 9\<rparr>;
             res = (ucast rs_val :: u64) * ucast rt_val
         in Inr (s\<lparr>lo := ucast res, hi := ucast (drop_bit 32 res)\<rparr>))
      else if opc = Op_MULT then
        (let s = s\<lparr>hi_lo_ready_timestamp := m_curr_timestamp s + 9\<rparr>;
             res = (scast rs_val :: u64) * scast rt_val
         in Inr (s\<lparr>lo := ucast res, hi := ucast (drop_bit 32 res)\<rparr>))
      else Inl DebugBreak)"

section \<open>Jumps and branches\<close>

definition jump :: "opcode \<Rightarrow> ('c, 'm) handler" where
  "jump opc i s =
     (let s = s\<lparr>branch_delay := True\<rparr>;
          rd = fld_rd i; rs_val = rreg (fld_rs i) s; curr_pc = pc s;
          offset = push_bit 2 (i AND 0x3FFFFFF); base = curr_pc AND 0xF0000000 in
      if opc = Op_J then Inr (status_jump (base + offset) s)
      else if opc = Op_JAL then Inr (status_jump (base + offset) (add_writeback (curr_pc + 8) 31 s))
      else if opc = Op_JR then Inr (status_jump rs_val s)
      else if opc = Op_JALR then Inr (status_jump rs_val (add_writeback (curr_pc + 8) rd s))
      else Inl DebugBreak)"

definition branch :: "opcode \<Rightarrow> ('c, 'm) handler" where
  "branch opc i s =
     (let s = s\<lparr>branch_delay := True\<rparr>;
          rs_val = rreg (fld_rs i) s; rt_val = rreg (fld_rt i) s;
          dest = pc s + 4 + sx16 (fld_imm i) * 4;
          jump_if = (\<lambda>b. Inr (if b then status_jump dest s else s)) in
      if opc = Op_BNE then jump_if (rs_val \<noteq> rt_val)
      else if opc = Op_BEQ then jump_if (rs_val = rt_val)
      else if opc = Op_BLEZ then jump_if (sint rs_val \<le> 0)
      else if opc = Op_BGTZ then jump_if (sint rs_val > 0)
      else if opc = Op_BCONDZ then
        (let type = get_bits 16 5 i AND 0b10001 in
         if type = 0x2 \<or> type = 0x10 \<or> type = 0x11 \<or> type = 0x12 then Inl DebugBreak
         else if type = 0x0 then jump_if (sint rs_val < 0)
         else if type = 0x1 then jump_if (sint rs_val \<ge> 0)
         else Inr s)
      else Inl DebugBreak)"

definition sys_break :: "opcode \<Rightarrow> ('c, 'm) handler" where
  "sys_break opc i s =
     (if opc = Op_SYSCALL then Inr (flag_exception Ex_SYSCALL s)
      else if opc = Op_BREAK then Inr (flag_exception Ex_BP s)
      else Inr s)"

section \<open>Memory\<close>

text \<open>The merges of the unaligned stores and loads; \<open>k\<close> is the address modulo 4.\<close>

definition swl_merge :: "nat \<Rightarrow> u32 \<Rightarrow> u32 \<Rightarrow> u32" where
  "swl_merge k value_at value =
     (if k = 0 then (value_at AND 0xFFFFFF00) OR (drop_bit 24 value AND 0xFF)
      else if k = 1 then (value_at AND 0xFFFF0000) OR (drop_bit 16 value AND 0xFFFF)
      else if k = 2 then (value_at AND 0xFF000000) OR (drop_bit 8 value AND 0xFFFFFF)
      else if k = 3 then value
      else 0)"

definition swr_merge :: "nat \<Rightarrow> u32 \<Rightarrow> u32 \<Rightarrow> u32" where
  "swr_merge k value_at value =
     (if k = 0 then value
      else if k = 1 then (value_at AND 0x000000FF) OR push_bit 8 (value AND 0x00FFFFFF)
      else if k = 2 then (value_at AND 0x0000FFFF) OR push_bit 16 (value AND 0x0000FFFF)
      else if k = 3 then (value_at AND 0x00FFFFFF) OR push_bit 24 (value AND 0x000000FF)
      else 0)"

definition lwl_merge :: "nat \<Rightarrow> u32 \<Rightarrow> u32 \<Rightarrow> u32" where
  "lwl_merge k rt_val data =
     (if k = 0 then (rt_val AND 0x00FFFFFF) OR push_bit 24 data
      else if k = 1 then (rt_val AND 0x0000FFFF) OR push_bit 16 data
      else if k = 2 then (rt_val AND 0x000000FF) OR push_bit 8 data
      else if k = 3 then data
      else 0)"

definition lwr_merge :: "nat \<Rightarrow> u32 \<Rightarrow> u32 \<Rightarrow> u32" where
  "lwr_merge k rt_val data =
     (if k = 0 then data
      else if k = 1 then (rt_val AND 0xFF000000) OR drop_bit 8 data
      else if k = 2 then (rt_val AND 0xFFFF0000) OR drop_bit 16 data
      else if k = 3 then (rt_val AND 0xFFFFFF00) OR drop_bit 24 data
      else 0)"

definition store :: "('c, 'm) cpu_scheme bus_ops \<Rightarrow> opcode \<Rightarrow> ('c, 'm) handler" where
  "store bus opc i s =
     (if isolate_cache (sr (cop0 s)) then Inr s
      else
        let rs = fld_rs i; rt = fld_rt i; off = sx16 (fld_imm i);
            base = (if rs = 0 then 0 else rreg rs s);
            value = (if rt = 0 then 0 else rreg rt s);
            address = base + off;
            aligned = address AND NOT 3 in
        if opc = Op_SW then bus_write bus W32 True True address value s
        else if opc = Op_SH then bus_write bus W16 True True address (value AND 0xFFFF) s
        else if opc = Op_SB then bus_write bus W8 True True address (value AND 0xFF) s
        else if opc = Op_SWL then
          bindE (bus_read bus W32 True True aligned s) (\<lambda>(value_at, s).
            bus_write bus W32 True True aligned (swl_merge (unat (address mod 4)) value_at value) s)
        else if opc = Op_SWR then
          bindE (bus_read bus W32 True True aligned s) (\<lambda>(value_at, s).
            bus_write bus W32 True True aligned (swr_merge (unat (address mod 4)) value_at value) s)
        else Inl DebugBreak)"

text \<open>
  The register an unaligned load merges with: a pending load of the same register is taken
  over and cancelled.
\<close>

definition merge_source :: "nat \<Rightarrow> ('c, 'm) cpu_scheme \<Rightarrow> u32 \<times> ('c, 'm) cpu_scheme" where
  "merge_source rt s =
     (if dest (curr_delay s) = rt
      then (pvalue (curr_delay s), s\<lparr>curr_delay := (curr_delay s)\<lparr>dest := InvalidReg\<rparr>\<rparr>)
      else (rreg rt s, s))"

definition finish_load :: "nat \<Rightarrow> u32 \<Rightarrow> ('c, 'm) cpu_scheme \<Rightarrow> ('c, 'm) cpu_scheme" where
  "finish_load rt value s =
     (if exception s \<or> rt = 0 then s
      else
        let s = (if dest (curr_delay s) = rt
                 then s\<lparr>curr_delay := (curr_delay s)\<lparr>dest := InvalidReg\<rparr>\<rparr> else s)
        in add_load_delay value rt s)"

definition load :: "('c, 'm) cpu_scheme bus_ops \<Rightarrow> opcode \<Rightarrow> ('c, 'm) handler" where
  "load bus opc i s =
     (let rt = fld_rt i; address = rreg (fld_rs i) s + sx16 (fld_imm i);
          aligned = address AND NOT 3;
          finish = (\<lambda>f (v, s). Inr (finish_load rt (f v) s)) in
      if opc = Op_LW then bindE (bus_read bus W32 True True address s) (finish id)
      else if opc = Op_LHU then bindE (bus_read bus W16 True True address s) (finish id)
      else if opc = Op_LBU then bindE (bus_read bus W8 True True address s) (finish id)
      else if opc = Op_LH then bindE (bus_read bus W16 True True address s) (finish sx16)
      else if opc = Op_LB then bindE (bus_read bus W8 True True address s) (finish sx8)
      else if opc = Op_LWL then
        (let (rt_val, s) = merge_source rt s
         in bindE (bus_read bus W32 False True aligned s) (finish (lwl_merge (unat (address mod 4)) rt_val)))
      else if opc = Op_LWR then
        (let (rt_val, s) = merge_source rt s
         in bindE (bus_read bus W32 False True aligned s) (finish (lwr_merge (unat (address mod 4)) rt_val)))
      else Inl DebugBreak)"

section \<open>Coprocessors\<close>

definition coprocessor0_command :: "('c, 'm) handler" where
  "coprocessor0_command i s =
     (let action = get_bits 21 4 i; rt = fld_rt i; rd = fld_rd i; value = rreg rt s in
      if action = 0x0 then Inr (read_cop0_to rd rt s)
      else if action = 0x2 then Inr (enter_exception Ex_RI False s)
      else if action = 0x4 then Inr (write_cop0 value rd s)
      else if action = 0x6 then Inr (enter_exception Ex_RI False s)
      else Inr (coprocessor_unusable 0 s))"

definition coprocessor2_command :: "('c, 'm) handler" where
  "coprocessor2_command i s =
     (let action = get_bits 21 4 i; rt = fld_rt i; rd = fld_rd i; value = rreg rt s in
      if action = 0x0 then Inr (read_cop2_data_to rd rt s)
      else if action = 0x2 then Inr (read_cop2_control_to rd rt s)
      else if action = 0x4 then Inr (write_cop2_data value rd s)
      else if action = 0x6 then Inr (write_cop2_control value rd s)
      else if action = 0x8 then Inl DebugBreak
      else Inr (coprocessor_unusable 2 s))"

definition cop_cmd :: "opcode \<Rightarrow> ('c, 'm) handler" where
  "cop_cmd cop_number i s =
     (if cop_number = Op_NA then Inl DebugBreak
      else if cop_number = Op_COP0 then
        (if bit i 25 then
           (if i AND 0x3F = 0x10 then Inr (exit_exception s) else Inr (enter_exception Ex_RI False s))
         else coprocessor0_command i s)
      else if cop_number = Op_COP2 then
        (if \<not> cop2_enable (sr (cop0 s)) then Inr (coprocessor_unusable 2 s)
         else if bit i 25 then cop2_cmd (i AND 0x1FFFFFF) s
         else coprocessor2_command i s)
      else Inr (coprocessor_unusable (if cop_number = Op_COP1 then 1 else 3) s))"

text \<open>
  The first test of both templates is not chained to the others: coprocessor 1 enters the
  exception and then falls into the final \<open>else\<close>.
\<close>

definition coprocessor_load :: "('c, 'm) cpu_scheme bus_ops \<Rightarrow> opcode \<Rightarrow> ('c, 'm) handler" where
  "coprocessor_load bus opc i s =
     (let rt = fld_rt i; address = rreg (fld_rs i) s + sx16 (fld_imm i);
          s = (if opc = Op_LWC1 then coprocessor_unusable 1 s else s) in
      if opc = Op_LWC3 then Inr (coprocessor_unusable 3 s)
      else if opc = Op_LWC0 then
        bindE (bus_read bus W32 True True address s) (\<lambda>(value, s).
          if exception s then Inr s else Inr (write_cop0 value rt s))
      else if opc = Op_LWC2 then
        (if \<not> cop2_enable (sr (cop0 s)) then Inr (coprocessor_unusable 2 s)
         else bindE (bus_read bus W32 True True address s) (\<lambda>(value, s).
           if exception s then Inr s else Inr (write_cop2_data value rt s)))
      else Inl DebugBreak)"

definition coprocessor_store :: "('c, 'm) cpu_scheme bus_ops \<Rightarrow> opcode \<Rightarrow> ('c, 'm) handler" where
  "coprocessor_store bus opc i s =
     (let rt = fld_rt i; address = rreg (fld_rs i) s + sx16 (fld_imm i);
          s = (if opc = Op_SWC1 then coprocessor_unusable 1 s else s) in
      if opc = Op_LWC3 then Inr (coprocessor_unusable 3 s)
      else if opc = Op_SWC0 then
        (let (value, s) = read_cop0 rt s
         in if exception s then Inr s else bus_write bus W32 True True address value s)
      else if opc = Op_SWC2 then
        (if \<not> cop2_enable (sr (cop0 s)) then Inr (coprocessor_unusable 2 s)
         else
           let (value, s) = read_cop2_data rt s
           in if exception s then Inr s else bus_write bus W32 True True address value s)
      else Inl DebugBreak)"

section \<open>Dispatch\<close>

text \<open>\<open>InstructionDecoder::GetHandler\<close> on a table entry.\<close>

definition get_handler :: "('c, 'm) cpu_scheme bus_ops \<Rightarrow> decoded \<Rightarrow> ('c, 'm) handler" where
  "get_handler bus d =
     (let (_, opc, sub) = d in
      if sub = Sub_LUI_IMM then load_upper_immediate
      else if opc = Op_NA then reserved_instruction bus
      else
        (case sub of
           Sub_ALU_IMM \<Rightarrow> alu_immediate opc
         | Sub_STORE \<Rightarrow> store bus opc
         | Sub_SHIFT_IMM \<Rightarrow> shift_immediate opc
         | Sub_JUMP \<Rightarrow> jump opc
         | Sub_ALU_REG \<Rightarrow> alu_reg opc
         | Sub_COP_CMD \<Rightarrow> cop_cmd opc
         | Sub_BRANCH \<Rightarrow> branch opc
         | Sub_LOAD \<Rightarrow> load bus opc
         | Sub_MUL_DIV \<Rightarrow> mul_div opc
         | Sub_SYS_BRK \<Rightarrow> sys_break opc
         | Sub_SHIFT_REG \<Rightarrow> shift_reg opc
         | Sub_COP_LOAD \<Rightarrow> coprocessor_load bus opc
         | Sub_COP_STORE \<Rightarrow> coprocessor_store bus opc
         | _ \<Rightarrow> reserved_instruction bus))"

definition interpret_mips :: "('c, 'm) cpu_scheme bus_ops \<Rightarrow> ('c, 'm) handler" where
  "interpret_mips bus i s = get_handler bus (decode i) i s"

end
