(* ===== verification/CpuAlu.thy ===== *)
theory CpuAlu
  imports Handlers
begin

text \<open>
  What the arithmetic and memory handlers compute, over the integers: trapping addition and
  subtraction, multiplication and division, and the pairs of unaligned loads and stores.
\<close>

section \<open>Trapping arithmetic\<close>

lemma sint_range: "- (2 ^ 31) \<le> sint w" "sint w < 2 ^ 31" for w :: u32
  using sint_ge[of w] sint_lt[of w] by simp_all

lemma bit31_iff: "bit w 31 \<longleftrightarrow> sint w < 0" for w :: u32
  using bit_last_iff[of w] by simp

lemma signed_wrap:
  fixes k :: int
  assumes "- (2 ^ 32) \<le> k" "k < 2 ^ 32"
  shows "signed_take_bit 31 k =
    (if k < - (2 ^ 31) then k + 2 ^ 32 else if k < 2 ^ 31 then k else k - 2 ^ 32)"
proof -
  have "signed_take_bit 31 k = (k + 2 ^ 31) mod 2 ^ 32 - 2 ^ 31"
    by (simp add: signed_take_bit_eq_take_bit_shift take_bit_eq_mod)
  moreover have "(k + 2 ^ 31) mod 2 ^ 32 = (k + 2 ^ 31 + 2 ^ 32) mod 2 ^ 32"
    "(k + 2 ^ 31) mod 2 ^ 32 = (k + 2 ^ 31 - 2 ^ 32) mod 2 ^ 32"
    using mod_add_self2[of "k + 2 ^ 31" "2 ^ 32"] minus_mod_self2[of "k + 2 ^ 31" "2 ^ 32"] by simp_all
  moreover have "z mod 2 ^ 32 = z" if "0 \<le> z" "z < 2 ^ 32" for z :: int
    using that by (rule mod_pos_pos_trivial)
  ultimately show ?thesis
    using assms by (cases "k < - (2 ^ 31)"; cases "k < 2 ^ 31") simp_all
qed

lemma sint_sum: "sint (a + b) = signed_take_bit 31 (sint a + sint b)" for a b :: u32
  by (simp add: sint_word_ariths)

lemma sint_difference: "sint (a - b) = signed_take_bit 31 (sint a - sint b)" for a b :: u32
  by (simp add: sint_word_ariths)

lemma top_bit: "w AND 0x80000000 \<noteq> 0 \<longleftrightarrow> bit w 31" "drop_bit 31 w \<noteq> 0 \<longleftrightarrow> bit w 31" for w :: u32
proof -
  have "(0x80000000 :: u32) = 2 ^ 31" by simp
  then show "w AND 0x80000000 \<noteq> 0 \<longleftrightarrow> bit w 31" by (simp only: and_exp_eq_0_iff_not_bit) simp
  have "bit (drop_bit 31 w) n \<longleftrightarrow> n = 0 \<and> bit w 31" for n
    by (cases "n = 0") (auto simp: bit_drop_bit_eq dest: bit_imp_le_length)
  then show "drop_bit 31 w \<noteq> 0 \<longleftrightarrow> bit w 31" unfolding word_neq_0_iff_bit by blast
qed

text \<open>The overflow tests of \<open>AddOverflow\<close> and \<open>SubOverflow\<close> are the signed range tests.\<close>

definition fits32 :: "int \<Rightarrow> bool" where
  "fits32 z \<longleftrightarrow> - (2 ^ 31) \<le> z \<and> z < 2 ^ 31"

lemma signed_cases:
  fixes k :: int
  assumes "z = signed_take_bit 31 k"
  shows "\<lbrakk>- (2 ^ 32) \<le> k; k < 2 ^ 32\<rbrakk> \<Longrightarrow>
    k < - (2 ^ 31) \<and> z = k + 2 ^ 32 \<or> - (2 ^ 31) \<le> k \<and> k < 2 ^ 31 \<and> z = k \<or>
    2 ^ 31 \<le> k \<and> z = k - 2 ^ 32"
  using signed_wrap[of k] assms by auto

lemma add_overflow_iff: "add_overflow a b \<longleftrightarrow> \<not> fits32 (sint a + sint b)"
proof -
  have "add_overflow a b \<longleftrightarrow> bit a 31 = bit b 31 \<and> bit a 31 \<noteq> bit (a + b) 31"
    by (auto simp: add_overflow_def Let_def top_bit bit_and_iff bit_not_iff bit_xor_iff)
  then show ?thesis
    using signed_cases[OF sint_sum[of a b]] sint_range[of a] sint_range[of b]
    unfolding bit31_iff fits32_def by auto
qed

lemma sub_overflow_iff: "sub_overflow a b \<longleftrightarrow> \<not> fits32 (sint a - sint b)"
proof -
  have "sub_overflow a b \<longleftrightarrow> bit a 31 \<noteq> bit b 31 \<and> bit a 31 \<noteq> bit (a - b) 31"
    by (simp add: sub_overflow_def Let_def top_bit bit_and_iff bit_xor_iff del: drop_bit_and drop_bit_xor)
  then show ?thesis
    using signed_cases[OF sint_difference[of a b]] sint_range[of a] sint_range[of b]
    unfolding bit31_iff fits32_def by auto
qed

text \<open>The exact result if it is a 32-bit signed integer, the overflow exception otherwise.\<close>

definition exact_or_trap :: "int \<Rightarrow> nat \<Rightarrow> ('c, 'm) cpu_scheme \<Rightarrow> ('c, 'm) cpu_scheme result" where
  "exact_or_trap z r s =
     (if fits32 z then Inr (add_writeback (word_of_int z) r s) else Inr (flag_exception Ex_OV s))"

lemma sx16_imm: "sx16 (fld_imm i) = scast (ucast i :: u16)"
proof -
  have "ucast (fld_imm i) = (ucast i :: u16)"
    unfolding fld_imm_def by (rule bit_word_eqI) (simp add: bit_simps)
  then show ?thesis unfolding sx16_def by simp
qed

text \<open>
  C19. ADD, ADDI and SUB write the exact signed result, or raise the overflow exception and
  write nothing, exactly when the result is no 32-bit signed integer.
\<close>

theorem signed_arithmetic_traps:
  "alu_reg Op_ADD i s = exact_or_trap (sint (rreg (fld_rs i) s) + sint (rreg (fld_rt i) s)) (fld_rd i) s \<and>
   alu_reg Op_SUB i s = exact_or_trap (sint (rreg (fld_rs i) s) - sint (rreg (fld_rt i) s)) (fld_rd i) s \<and>
   alu_immediate Op_ADDI i s =
     exact_or_trap (sint (rreg (fld_rs i) s) + sint (ucast i :: u16)) (fld_rt i) s"
  by (simp add: alu_reg_def alu_immediate_def exact_or_trap_def Let_def add_overflow_iff
      sub_overflow_iff sx16_imm is_up sint_up_scast)

section \<open>Multiplication and division\<close>

lemma hi_lo_unsigned:
  "uint (ucast (drop_bit 32 w) :: u32) * 2 ^ 32 + uint (ucast w :: u32) = uint w" for w :: u64
proof -
  have "drop_bit 32 (uint w) = take_bit 32 (drop_bit 32 (uint w))"
    by (rule bit_eqI) (auto simp: bit_simps dest: bit_imp_le_length)
  moreover have "take_bit 64 (uint w) = uint w"
    by (rule bit_eqI) (auto simp: bit_simps dest: bit_imp_le_length)
  ultimately have "uint (ucast (drop_bit 32 w) :: u32) = drop_bit 32 (uint w)"
    by (simp add: unsigned_ucast_eq unsigned_drop_bit_eq)
  then show ?thesis
    by (simp add: unsigned_ucast_eq drop_bit_eq_div take_bit_eq_mod)
qed

lemma hi_lo_signed:
  "sint (ucast (drop_bit 32 w) :: u32) * 2 ^ 32 + uint (ucast w :: u32) = sint w" for w :: u64
proof -
  have "sint (ucast (drop_bit 32 w) :: u32) = drop_bit 32 (sint w)"
  proof (rule bit_eqI)
    fix n :: nat
    have "32 + min 31 n = min 63 (32 + n)" by (simp add: min_def)
    then show "bit (sint (ucast (drop_bit 32 w) :: u32)) n = bit (drop_bit 32 (sint w)) n"
      by (simp add: bit_simps min_less_iff_disj)
  qed
  moreover have "take_bit 32 (uint w) = take_bit 32 (sint w)"
    by (rule bit_eqI) (auto simp: bit_simps min_def)
  ultimately show ?thesis
    by (simp add: unsigned_ucast_eq drop_bit_eq_div take_bit_eq_mod)
qed

text \<open>
  MULT and MULTU leave in HI and LO the two halves of the exact 64-bit product, signed and
  unsigned, nine cycles from now.
\<close>

theorem multiply_exact:
  "\<exists>sm su. mul_div Op_MULT i s = Inr sm \<and> mul_div Op_MULTU i s = Inr su \<and>
     sint (hi sm) * 2 ^ 32 + uint (lo sm) = sint (rreg (fld_rs i) s) * sint (rreg (fld_rt i) s) \<and>
     uint (hi su) * 2 ^ 32 + uint (lo su) = uint (rreg (fld_rs i) s) * uint (rreg (fld_rt i) s) \<and>
     hi_lo_ready_timestamp sm = m_curr_timestamp s + 9 \<and>
     hi_lo_ready_timestamp su = m_curr_timestamp s + 9"
proof -
  let ?a = "rreg (fld_rs i) s" and ?b = "rreg (fld_rt i) s"
  have "uint ((ucast ?a :: u64) * ucast ?b) = uint ?a * uint ?b"
  proof -
    have "uint ?a * uint ?b < 2 ^ 32 * 2 ^ 32"
      using uint_bounded[of ?a] uint_bounded[of ?b] by (intro mult_strict_mono) auto
    then show ?thesis by (simp add: uint_word_ariths uint_up_ucast is_up)
  qed
  moreover have "sint ((scast ?a :: u64) * scast ?b) = sint ?a * sint ?b"
  proof -
    have "\<bar>sint ?a * sint ?b\<bar> \<le> 2 ^ 31 * 2 ^ 31"
      unfolding abs_mult using sint_range[of ?a] sint_range[of ?b] by (intro mult_mono) auto
    then have "signed_take_bit 63 (sint ?a * sint ?b) = sint ?a * sint ?b"
      by (intro signed_take_bit_int_eq_self) auto
    then show ?thesis by (simp add: sint_word_ariths is_up sint_up_scast)
  qed
  ultimately show ?thesis
    using hi_lo_signed[of "scast ?a * scast ?b"] hi_lo_unsigned[of "ucast ?a * ucast ?b"]
    by (simp add: mul_div_def Let_def)
qed

text \<open>
  DIV divides exactly: quotient and remainder with the remainder smaller than the divisor and
  of the dividend's sign; the one overflowing case and division by zero give the values the
  hardware gives, and never a fault.
\<close>

theorem divide_exact:
  "\<exists>sd. mul_div Op_DIV i s = Inr sd \<and> hi_lo_ready_timestamp sd = m_curr_timestamp s + 36 \<and>
     (let a = rreg (fld_rs i) s; b = rreg (fld_rt i) s in
      if b = 0 then hi sd = a \<and> sint (lo sd) = (if sint a \<ge> 0 then -1 else 1)
      else if sint a = - (2 ^ 31) \<and> sint b = -1 then hi sd = 0 \<and> lo sd = a
      else sint a = sint (lo sd) * sint b + sint (hi sd) \<and> \<bar>sint (hi sd)\<bar> < \<bar>sint b\<bar> \<and>
           (sint (hi sd) = 0 \<or> sgn (sint (hi sd)) = sgn (sint a)))"
proof -
  let ?a = "rreg (fld_rs i) s" and ?b = "rreg (fld_rt i) s"
  have fits: "sint (word_of_int z :: u32) = z" if "fits32 z" for z
    using that by (simp add: signed_of_int fits32_def signed_take_bit_int_eq_self)
  let ?q = "sint ?a sdiv sint ?b" and ?r = "sint ?a smod sint ?b"
  have qr: "sint ?a = ?q * sint ?b + ?r" by (simp add: sdiv_mult_smod_eq)
  have rem: "\<bar>?r\<bar> < \<bar>sint ?b\<bar>" if "sint ?b \<noteq> 0"
    using smod_int_range[OF that, of "sint ?a"] by auto
  have sign: "?r = 0 \<or> sgn ?r = sgn (sint ?a)"
    using smod_int_compares(2,4,6,7)[of "sint ?a" "sint ?b"]
    by (cases "sint ?a = 0"; cases "sint ?b = 0") (auto simp: sgn_if linorder_neq_iff)
  have big: "fits32 ?q" if "\<not> (sint ?a = - (2 ^ 31) \<and> sint ?b = -1)" "sint ?b \<noteq> 0"
  proof -
    have "?q \<noteq> 2 ^ 31"
    proof
      assume q: "?q = 2 ^ 31"
      have "1 \<le> sint ?b \<or> sint ?b = -1 \<or> sint ?b \<le> -2" using that(2) by arith
      then show False
        using qr[unfolded q] rem[OF that(2)] that(1) sint_range[of ?a] by (elim disjE) auto
    qed
    then show ?thesis
      using sdiv_int_range[of "sint ?a" "sint ?b"] sint_range[of ?a] by (auto simp: fits32_def)
  qed
  have small: "fits32 ?r" if "sint ?b \<noteq> 0"
    using rem[OF that] sint_range[of ?b] by (auto simp: fits32_def)
  have min: "?a = 0x80000000 \<longleftrightarrow> sint ?a = - (2 ^ 31)"
    using signed_word_eqI[of ?a "0x80000000"] by auto
  have "?b = 0 \<longleftrightarrow> sint ?b = 0" using signed_word_eqI[of ?b 0] by auto
  then show ?thesis
    using fits big small min rem sign qr by (auto simp: mul_div_def Let_def)
qed

section \<open>Unaligned accesses\<close>

text \<open>
  The 32-bit value at byte offset \<open>k\<close> of two consecutive little-endian words, and the two words
  with that value replaced.
\<close>

definition straddle :: "nat \<Rightarrow> u32 \<Rightarrow> u32 \<Rightarrow> u32" where
  "straddle k w0 w1 = (if k = 0 then w0 else drop_bit (8 * k) w0 OR push_bit (32 - 8 * k) w1)"

lemma byte_masks:
  "(0x000000FF :: u32) = mask 8" "(0x0000FFFF :: u32) = mask 16" "(0x00FFFFFF :: u32) = mask 24"
  "(0xFFFFFF00 :: u32) = NOT (mask 8)" "(0xFFFF0000 :: u32) = NOT (mask 16)"
  "(0xFF000000 :: u32) = NOT (mask 24)"
  by (simp_all add: mask_eq_exp_minus_1)

lemma load_merges:
  "lwl_merge 0 r d = (r AND mask 24) OR push_bit 24 d"
  "lwl_merge (Suc 0) r d = (r AND mask 16) OR push_bit 16 d"
  "lwl_merge 2 r d = (r AND mask 8) OR push_bit 8 d" "lwl_merge 3 r d = d"
  "lwr_merge 0 r d = d" "lwr_merge (Suc 0) r d = (r AND NOT (mask 24)) OR drop_bit 8 d"
  "lwr_merge 2 r d = (r AND NOT (mask 16)) OR drop_bit 16 d"
  "lwr_merge 3 r d = (r AND NOT (mask 8)) OR drop_bit 24 d"
  unfolding lwl_merge_def lwr_merge_def byte_masks by simp_all

lemma store_merges:
  "swl_merge 0 w v = (w AND NOT (mask 8)) OR (drop_bit 24 v AND mask 8)"
  "swl_merge (Suc 0) w v = (w AND NOT (mask 16)) OR (drop_bit 16 v AND mask 16)"
  "swl_merge 2 w v = (w AND NOT (mask 24)) OR (drop_bit 8 v AND mask 24)" "swl_merge 3 w v = v"
  "swr_merge 0 w v = v" "swr_merge (Suc 0) w v = (w AND mask 8) OR push_bit 8 (v AND mask 24)"
  "swr_merge 2 w v = (w AND mask 16) OR push_bit 16 (v AND mask 16)"
  "swr_merge 3 w v = (w AND mask 24) OR push_bit 24 (v AND mask 8)"
  unfolding swl_merge_def swr_merge_def byte_masks by simp_all

lemma below_4: "k < 4 \<longleftrightarrow> k = 0 \<or> k = Suc 0 \<or> k = 2 \<or> k = 3" for k :: nat
  by arith



lemma u32_eq_bits: "x = y \<longleftrightarrow> (\<forall>n < 32. bit x n = bit y n)" for x y :: u32
  by (auto intro: bit_word_eqI)

text \<open>
  The pair SWL at address \<open>a + 3\<close>, SWR at address \<open>a\<close> stores the whole register at the unaligned
  address and leaves the bytes of the two words around it as they were.
\<close>

theorem unaligned_store:
  assumes "k < 4" and "w0' = swr_merge k w0 v"
    and "w1' = (if k = 0 then w1 else swl_merge ((k + 3) mod 4) w1 v)"
  shows "straddle k w0' w1' = v \<and> w0' AND mask (8 * k) = w0 AND mask (8 * k) \<and>
    drop_bit (8 * k) w1' = drop_bit (8 * k) w1"
  using assms(1) unfolding below_4 assms(2,3)
  by (elim disjE)
    (auto simp: store_merges straddle_def u32_eq_bits bit_simps dest: bit_imp_le_length)

theorem unaligned_store_witness:
  "straddle 3 0x78332211 0x88123456 = (0x12345678 :: u32) \<and>
   (0x78332211 :: u32) AND mask (8 * 3) = 0x44332211 AND mask (8 * 3) \<and>
   drop_bit (8 * 3) (0x88123456 :: u32) = drop_bit (8 * 3) 0x88776655"
  by (rule unaligned_store) (simp_all add: swr_merge_def swl_merge_def)

end
