(* ===== verification/Mapper.thy ===== *)
theory Mapper
  imports PsxPrelude
begin

text \<open>
  The guest address space allocator (\<open>MemoryMapper.cpp\<close>): the lists of free and reserved
  regions, the mapped views, and the four operations on them. The operating system's calls
  (\<open>VirtualFree\<close>, \<open>MapViewOfFile3\<close>, \<open>UnmapViewOfFile2\<close>) are parameters.
\<close>

section \<open>State\<close>

definition PSX_ADDRESS_SPACE_SIZE :: u64 where "PSX_ADDRESS_SPACE_SIZE = 2 ^ 32"

definition PSX_MAIN_RAM_SIZE :: u64 where "PSX_MAIN_RAM_SIZE = 2048 * 1024"
definition PSX_EXPANSION1_SIZE :: u64 where "PSX_EXPANSION1_SIZE = 8912 * 1024"
definition PSX_SCRATCHPAD_PADDED_SIZE :: u64 where "PSX_SCRATCHPAD_PADDED_SIZE = 4096"
definition PSX_EXPANSION3_SIZE :: u64 where "PSX_EXPANSION3_SIZE = 2048 * 1024"
definition PSX_BIOS_SIZE :: u64 where "PSX_BIOS_SIZE = 512 * 1024"

definition PSX_EFFECTIVE_MEMORY_SIZE :: u64 where
  "PSX_EFFECTIVE_MEMORY_SIZE = PSX_MAIN_RAM_SIZE + PSX_EXPANSION1_SIZE +
     PSX_SCRATCHPAD_PADDED_SIZE + PSX_EXPANSION3_SIZE + PSX_BIOS_SIZE"

datatype page_protection = READ | WRITE | READ_WRITE

record region =
  guest_base :: u64
  extent :: u64

text \<open>A mapped view is known by its guest offset (the host pointer less \<open>m_guest_base\<close>).\<close>

record 'h mapper =
  m_free_regions :: "region list"
  m_reserved_regions :: "region list"
  m_mapped_regions :: "u64 list"
  m_page_granularity :: u64
  host :: 'h

text \<open>
  The system calls, with their success as the result: splitting and coalescing placeholders,
  mapping and unmapping a view, and the accesses through a view.
\<close>

record 'h host_os =
  split_placeholder :: "u64 \<Rightarrow> u64 \<Rightarrow> 'h \<Rightarrow> bool \<times> 'h"
  coalesce_placeholders :: "u64 \<Rightarrow> u64 \<Rightarrow> 'h \<Rightarrow> bool \<times> 'h"
  map_view :: "u64 \<Rightarrow> u64 \<Rightarrow> u64 \<Rightarrow> page_protection \<Rightarrow> 'h \<Rightarrow> bool \<times> 'h"
  unmap_view :: "u64 \<Rightarrow> 'h \<Rightarrow> bool \<times> 'h"
  load_bytes :: "nat \<Rightarrow> u32 \<Rightarrow> 'h \<Rightarrow> u32 result"
  store_bytes :: "nat \<Rightarrow> u32 \<Rightarrow> u32 \<Rightarrow> 'h \<Rightarrow> 'h result"

definition mapper_init :: "u64 \<Rightarrow> 'h \<Rightarrow> 'h mapper" where
  "mapper_init page h = \<lparr>m_free_regions = [\<lparr>guest_base = 0, extent = PSX_ADDRESS_SPACE_SIZE\<rparr>],
     m_reserved_regions = [], m_mapped_regions = [], m_page_granularity = page, host = h\<rparr>"

section \<open>Operations\<close>

definition holds_range :: "u64 \<Rightarrow> u64 \<Rightarrow> region \<Rightarrow> bool" where
  "holds_range start ext r \<longleftrightarrow> guest_base r \<le> start \<and> start + ext \<le> guest_base r + extent r"

text \<open>What is left of a free region after the range is taken out.\<close>

definition remains :: "u64 \<Rightarrow> u64 \<Rightarrow> region \<Rightarrow> region list" where
  "remains start ext old =
     (if start = guest_base old then
        (if ext \<noteq> extent old
         then [\<lparr>guest_base = start + ext, extent = extent old - ext\<rparr>] else [])
      else if start + ext = guest_base old + extent old
      then [\<lparr>guest_base = guest_base old, extent = start - guest_base old\<rparr>]
      else
        (let base_right = start + ext in
         [\<lparr>guest_base = guest_base old, extent = start - guest_base old\<rparr>,
          \<lparr>guest_base = base_right, extent = guest_base old + extent old - base_right\<rparr>]))"

definition reserve_region :: "'h host_os \<Rightarrow> u64 \<Rightarrow> u64 \<Rightarrow> 'h mapper \<Rightarrow> bool \<times> 'h mapper" where
  "reserve_region os start ext m =
     (let region_ptr = find (holds_range start ext) (m_free_regions m) in
      if start mod m_page_granularity m \<noteq> 0 \<or> ext mod m_page_granularity m \<noteq> 0 then (False, m)
      else
        (case region_ptr of
           None \<Rightarrow> (False, m)
         | Some old \<Rightarrow>
             let free = remove1 old (m_free_regions m) @ remains start ext old;
                 m = m\<lparr>m_free_regions := free,
                        m_reserved_regions := m_reserved_regions m @ [\<lparr>guest_base = start, extent = ext\<rparr>]\<rparr>;
                 (ok, h) = split_placeholder os start ext (host m)
             in (ok, m\<lparr>host := h\<rparr>)))"

definition map_region ::
  "'h host_os \<Rightarrow> u64 \<Rightarrow> u64 \<Rightarrow> u64 \<Rightarrow> page_protection \<Rightarrow> 'h mapper \<Rightarrow> bool \<times> 'h mapper" where
  "map_region os start ext file_base protect m =
     (if start \<ge> PSX_ADDRESS_SPACE_SIZE \<or> start + ext \<ge> PSX_ADDRESS_SPACE_SIZE then (False, m)
      else if find (holds_range start ext) (m_free_regions m) \<noteq> None then (False, m)
      else if file_base \<ge> PSX_EFFECTIVE_MEMORY_SIZE then (False, m)
      else if start \<in> set (m_mapped_regions m) then (True, m)
      else
        (let (ok, h) = map_view os start ext file_base protect (host m); m = m\<lparr>host := h\<rparr>
         in if ok then (True, m\<lparr>m_mapped_regions := m_mapped_regions m @ [start]\<rparr>) else (False, m)))"

definition unmap_region :: "'h host_os \<Rightarrow> u64 \<Rightarrow> 'h mapper \<Rightarrow> bool \<times> 'h mapper" where
  "unmap_region os base m =
     (if base \<notin> set (m_mapped_regions m) then (False, m)
      else
        (let m = m\<lparr>m_mapped_regions := remove1 base (m_mapped_regions m)\<rparr>;
             (ok, h) = unmap_view os base (host m)
         in (ok, m\<lparr>host := h\<rparr>)))"

definition free_region :: "'h host_os \<Rightarrow> u64 \<Rightarrow> 'h mapper \<Rightarrow> bool \<times> 'h mapper" where
  "free_region os start m =
     (case find (\<lambda>r. guest_base r = start) (m_reserved_regions m) of
        None \<Rightarrow> (False, m)
      | Some reg \<Rightarrow>
          let free = m_free_regions m;
              left = find (\<lambda>r. guest_base r + extent r = start) free;
              right = find (\<lambda>r. guest_base reg + extent reg = guest_base r) free;
              (base, ext, free) =
                (case left of None \<Rightarrow> (start, extent reg, free)
                 | Some l \<Rightarrow> (guest_base l, extent reg + extent l, remove1 l free));
              (ext, free) =
                (case right of None \<Rightarrow> (ext, free)
                 | Some r \<Rightarrow> (ext + extent r, remove1 r free));
              m = m\<lparr>m_reserved_regions := remove1 reg (m_reserved_regions m),
                     m_free_regions := free @ [\<lparr>guest_base = base, extent = ext\<rparr>]\<rparr>
          in if left = None \<and> right = None then (True, m)
             else
               let (ok, h) = coalesce_placeholders os base ext (host m)
               in (ok, m\<lparr>host := h\<rparr>))"

section \<open>The partition of the address space\<close>

definition inside :: "nat \<Rightarrow> region \<Rightarrow> bool" where
  "inside a r \<longleftrightarrow> unat (guest_base r) \<le> a \<and> a < unat (guest_base r) + unat (extent r)"

definition cover :: "nat \<Rightarrow> region list \<Rightarrow> nat" where
  "cover a rs = length (filter (inside a) rs)"

definition region_ok :: "region \<Rightarrow> bool" where
  "region_ok r \<longleftrightarrow> 0 < unat (extent r) \<and> unat (guest_base r) + unat (extent r) \<le> 2 ^ 32"

text \<open>Every guest address lies in exactly one region, free or reserved.\<close>

definition mapper_ok :: "'h mapper \<Rightarrow> bool" where
  "mapper_ok m \<longleftrightarrow> (\<forall>r \<in> set (m_free_regions m) \<union> set (m_reserved_regions m). region_ok r) \<and>
     (\<forall>a. cover a (m_free_regions m) + cover a (m_reserved_regions m) = of_bool (a < 2 ^ 32))"

lemma cover_simps [simp]:
  "cover a [] = 0" "cover a (r # rs) = of_bool (inside a r) + cover a rs"
  "cover a (rs @ rs') = cover a rs + cover a rs'"
  by (simp_all add: cover_def)

lemma cover_remove1: "r \<in> set rs \<Longrightarrow> cover a rs = of_bool (inside a r) + cover a (remove1 r rs)"
  by (induction rs) auto

lemma find_in: "find P xs = Some x \<Longrightarrow> x \<in> set xs \<and> P x"
  by (induction xs) (auto split: if_splits)

lemma unat_sum_end:
  "region_ok r \<Longrightarrow> unat (guest_base r + extent r) = unat (guest_base r) + unat (extent r)"
  by (simp add: region_ok_def unat_word_ariths)

text \<open>A region with one part taken out.\<close>

lemma remains_cover:
  assumes "region_ok old" "holds_range start ext old" "0 < unat ext" "unat start + unat ext < 2 ^ 64"
  shows "of_bool (inside a old) =
      cover a (remains start ext old) + of_bool (inside a \<lparr>guest_base = start, extent = ext\<rparr>)"
    and "\<forall>r \<in> set (remains start ext old). region_ok r"
    and "region_ok \<lparr>guest_base = start, extent = ext\<rparr>"
proof -
  have e: "unat (start + ext) = unat start + unat ext"
    using assms(4) by (simp add: unat_word_ariths)
  have h: "unat (guest_base old) \<le> unat start"
    "unat start + unat ext \<le> unat (guest_base old) + unat (extent old)"
    using assms(2) e unat_sum_end[OF assms(1)] unfolding holds_range_def word_le_nat_alt by simp_all
  have l: "unat (start - guest_base old) = unat start - unat (guest_base old)"
    using h(1) by (simp add: unat_sub word_le_nat_alt)
  have r: "unat (guest_base old + extent old - (start + ext)) =
      unat (guest_base old) + unat (extent old) - (unat start + unat ext)"
    using h e unat_sum_end[OF assms(1)] by (subst unat_sub) (simp_all add: word_le_nat_alt)
  have r': "start = guest_base old \<Longrightarrow> unat (extent old - ext) = unat (extent old) - unat ext"
    using h by (simp add: unat_sub word_le_nat_alt)
  have eq: "start = guest_base old \<longleftrightarrow> unat start = unat (guest_base old)" by (simp add: word_unat_eq_iff)
  have eq': "start + ext = guest_base old + extent old \<longleftrightarrow>
      unat start + unat ext = unat (guest_base old) + unat (extent old)"
    using e unat_sum_end[OF assms(1)] by (metis word_unat_eq_iff)
  have eq'': "ext = extent old \<longleftrightarrow> unat ext = unat (extent old)" by (simp add: word_unat_eq_iff)
  show "region_ok \<lparr>guest_base = start, extent = ext\<rparr>"
    using assms(1,3) h by (simp add: region_ok_def)
  show "of_bool (inside a old) =
      cover a (remains start ext old) + of_bool (inside a \<lparr>guest_base = start, extent = ext\<rparr>)"
    using h assms(3) by (auto simp: remains_def Let_def inside_def e l r r' eq eq' eq'')
  show "\<forall>r \<in> set (remains start ext old). region_ok r"
    using h assms(1,3) by (auto simp: remains_def Let_def region_ok_def e l r r' eq eq' eq'')
qed

lemma reserve_free:
  assumes "mapper_ok m" "0 < unat ext" "unat start + unat ext < 2 ^ 64"
  shows "mapper_ok (snd (reserve_region os start ext m)) \<and>
    (m_free_regions (snd (reserve_region os start ext m)) = m_free_regions m \<and>
       m_reserved_regions (snd (reserve_region os start ext m)) = m_reserved_regions m \<and>
       \<not> fst (reserve_region os start ext m) \<or>
     (\<forall>a. cover a (m_free_regions m) =
        cover a (m_free_regions (snd (reserve_region os start ext m))) +
        of_bool (inside a \<lparr>guest_base = start, extent = ext\<rparr>)))"
proof (cases "(start mod m_page_granularity m \<noteq> 0 \<or> ext mod m_page_granularity m \<noteq> 0) \<or>
    find (holds_range start ext) (m_free_regions m) = None")
  case True
  then show ?thesis using assms(1) by (auto simp: reserve_region_def)
next
  case False
  then obtain old where old: "find (holds_range start ext) (m_free_regions m) = Some old" by auto
  obtain ok h where os: "split_placeholder os start ext (host m) = (ok, h)" by fastforce
  let ?new = "\<lparr>guest_base = start, extent = ext\<rparr>" and ?rest = "remove1 old (m_free_regions m) @ remains start ext old"
  have in_old: "old \<in> set (m_free_regions m)" "holds_range start ext old" using find_in[OF old] by auto
  then have rold: "region_ok old" using assms(1) by (auto simp: mapper_ok_def)
  have res: "m_free_regions (snd (reserve_region os start ext m)) = ?rest"
    "m_reserved_regions (snd (reserve_region os start ext m)) = m_reserved_regions m @ [?new]"
    using False by (auto simp: reserve_region_def old Let_def split: prod.splits)
  have c: "cover a (m_free_regions m) = cover a ?rest + of_bool (inside a ?new)" for a
    using cover_remove1[OF in_old(1), of a] remains_cover(1)[OF rold in_old(2) assms(2,3), of a]
    by simp
  have "region_ok r" if "r \<in> set ?rest \<union> set (m_reserved_regions m @ [?new])" for r
    using that assms(1) remains_cover(2,3)[OF rold in_old(2) assms(2,3)] set_remove1_subset[of old "m_free_regions m"]
    by (auto simp: mapper_ok_def)
  moreover have "cover a ?rest + cover a (m_reserved_regions m @ [?new]) = of_bool (a < 2 ^ 32)" for a
  proof -
    have "cover a (m_free_regions m) + cover a (m_reserved_regions m) = of_bool (a < 2 ^ 32)"
      using assms(1) by (simp only: mapper_ok_def)
    with c[of a] show ?thesis unfolding cover_simps by linarith
  qed
  ultimately show ?thesis
    unfolding mapper_ok_def res using c by blast
qed

lemma free_reserved:
  assumes "mapper_ok m"
  shows "mapper_ok (snd (free_region os start m)) \<and>
    (\<forall>reg. find (\<lambda>r. guest_base r = start) (m_reserved_regions m) = Some reg \<longrightarrow>
      (\<forall>a. cover a (m_free_regions (snd (free_region os start m))) =
        cover a (m_free_regions m) + of_bool (inside a reg)))"
proof (cases "find (\<lambda>r. guest_base r = start) (m_reserved_regions m)")
  case None
  then show ?thesis using assms by (simp add: free_region_def)
next
  case (Some reg)
  let ?free = "m_free_regions m"
  define left where "left = find (\<lambda>r. guest_base r + extent r = start) ?free"
  define right where "right = find (\<lambda>r. guest_base reg + extent reg = guest_base r) ?free"
  define base where "base = (case left of None \<Rightarrow> start | Some l \<Rightarrow> guest_base l)"
  define lext where "lext = (case left of None \<Rightarrow> extent reg | Some l \<Rightarrow> extent reg + extent l)"
  define ext where "ext = (case right of None \<Rightarrow> lext | Some r \<Rightarrow> lext + extent r)"
  define lfree where "lfree = (case left of None \<Rightarrow> ?free | Some l \<Rightarrow> remove1 l ?free)"
  define free' where "free' = (case right of None \<Rightarrow> lfree | Some r \<Rightarrow> remove1 r lfree)"
  have lists: "m_free_regions (snd (free_region os start m)) = free' @ [\<lparr>guest_base = base, extent = ext\<rparr>]"
    "m_reserved_regions (snd (free_region os start m)) = remove1 reg (m_reserved_regions m)"
    unfolding free'_def lfree_def ext_def lext_def base_def left_def right_def
    by (auto simp: free_region_def Some Let_def split: option.splits prod.splits)
  have reg: "reg \<in> set (m_reserved_regions m)" "guest_base reg = start" "region_ok reg"
    using find_in[OF Some] assms by (auto simp: mapper_ok_def)
  have l: "l \<in> set ?free" "region_ok l" "unat (guest_base l) + unat (extent l) = unat start"
    if "left = Some l" for l
    using find_in[OF that[unfolded left_def]] assms unat_sum_end[of l] by (auto simp: mapper_ok_def)
  have r: "r \<in> set ?free" "region_ok r" "unat (guest_base r) = unat start + unat (extent reg)"
    if "right = Some r" for r
    using find_in[OF that[unfolded right_def]] assms unat_sum_end[OF reg(3)] reg(2)
    by (auto simp: mapper_ok_def)
  have small: "unat (x + y) = unat x + unat y" if "unat x + unat y \<le> 2 ^ 32" for x y :: u64
    using that by (simp add: unat_word_ariths)
  have lr: "l \<noteq> r" if "left = Some l" "right = Some r" for l r
    using l(3)[OF that(1)] r(3)[OF that(2)] reg(3) by (auto simp: region_ok_def)
  have s0: "0 < unat (extent reg)" "unat start + unat (extent reg) \<le> 2 ^ 32"
    using reg by (auto simp: region_ok_def)
  have new: "region_ok \<lparr>guest_base = base, extent = ext\<rparr> \<and>
      of_bool (inside a \<lparr>guest_base = base, extent = ext\<rparr>) =
        of_bool (inside a reg) + (case left of None \<Rightarrow> 0 | Some l \<Rightarrow> of_bool (inside a l)) +
        (case right of None \<Rightarrow> 0 | Some r \<Rightarrow> (of_bool (inside a r) :: nat))" for a
  proof -
    have lx: "unat lext = unat (extent reg) + (case left of None \<Rightarrow> 0 | Some l \<Rightarrow> unat (extent l))"
      using l s0 unfolding lext_def by (cases left) (auto intro!: small)
    have "unat ext = unat lext + (case right of None \<Rightarrow> 0 | Some r \<Rightarrow> unat (extent r))"
      using l r s0 lx unfolding ext_def
      by (cases right; cases left) (auto simp: small region_ok_def)
    with lx show ?thesis
      using l r s0 reg(2) unfolding base_def
      by (cases left; cases right) (auto simp: inside_def region_ok_def)
  qed
  have sub: "set free' \<subseteq> set ?free"
    unfolding free'_def lfree_def
    by (cases right; cases left) (auto dest!: set_mp[OF set_remove1_subset])
  have c: "cover a (free' @ [\<lparr>guest_base = base, extent = ext\<rparr>]) = cover a ?free + of_bool (inside a reg)" for a
  proof -
    have "cover a ?free = (case left of None \<Rightarrow> 0 | Some l \<Rightarrow> of_bool (inside a l)) + cover a lfree"
      using l(1) unfolding lfree_def by (cases left) (auto simp: cover_remove1)
    moreover have "cover a lfree = (case right of None \<Rightarrow> 0 | Some r \<Rightarrow> of_bool (inside a r)) + cover a free'"
    proof (cases right)
      case (Some r)
      have "r \<in> set lfree"
        using r(1)[OF Some] lr[OF _ Some] unfolding lfree_def by (cases left) force+
      then show ?thesis using Some unfolding free'_def by (simp add: cover_remove1)
    qed (simp add: free'_def)
    ultimately show ?thesis using new[of a] by simp
  qed
  have "cover a (free' @ [\<lparr>guest_base = base, extent = ext\<rparr>]) +
      cover a (remove1 reg (m_reserved_regions m)) = of_bool (a < 2 ^ 32)" for a
  proof -
    have "cover a ?free + cover a (m_reserved_regions m) = of_bool (a < 2 ^ 32)"
      using assms by (simp only: mapper_ok_def)
    with c[of a] cover_remove1[OF reg(1), of a] show ?thesis by linarith
  qed
  moreover have "region_ok u"
    if "u \<in> set (free' @ [\<lparr>guest_base = base, extent = ext\<rparr>]) \<union> set (remove1 reg (m_reserved_regions m))" for u
    using that sub new assms set_remove1_subset[of reg "m_reserved_regions m"] by (auto simp: mapper_ok_def)
  ultimately show ?thesis
    unfolding mapper_ok_def lists using c Some by auto
qed

text \<open>
  C21. The regions always partition the 4 GB guest address space: reserving a range takes exactly
  that range out of the free regions (or fails and changes nothing), and freeing a region returns
  exactly that region, coalesced or not; no address is ever lost, free twice or in no region.
\<close>

theorem mapper_partition:
  assumes "mapper_ok m" "0 < unat ext" "unat start + unat ext < 2 ^ 64"
    and "(ok, m1) = reserve_region os start ext m" and "(ok', m2) = free_region os base m"
  shows "mapper_ok m1 \<and> mapper_ok m2 \<and>
    (m_free_regions m1 = m_free_regions m \<and> m_reserved_regions m1 = m_reserved_regions m \<and> ok = False \<or>
     (\<forall>a. cover a (m_free_regions m) =
        cover a (m_free_regions m1) + of_bool (inside a \<lparr>guest_base = start, extent = ext\<rparr>))) \<and>
    (case find (\<lambda>r. guest_base r = base) (m_reserved_regions m) of
       None \<Rightarrow> ok' = False \<and> m2 = m
     | Some reg \<Rightarrow> \<forall>a. cover a (m_free_regions m2) = cover a (m_free_regions m) + of_bool (inside a reg))"
proof -
  have m: "ok = fst (reserve_region os start ext m)" "m1 = snd (reserve_region os start ext m)"
    "ok' = fst (free_region os base m)" "m2 = snd (free_region os base m)"
    by (simp_all add: assms(4,5)[symmetric])
  have "free_region os base m = (False, m)"
    if "find (\<lambda>r. guest_base r = base) (m_reserved_regions m) = None"
    using that by (simp add: free_region_def)
  then show ?thesis
    using reserve_free[OF assms(1-3), of os] free_reserved[OF assms(1), of os base]
    unfolding m by (auto split: option.splits)
qed

lemma mapper_init_ok: "mapper_ok (mapper_init page h)"
  by (auto simp: mapper_ok_def mapper_init_def region_ok_def inside_def PSX_ADDRESS_SPACE_SIZE_def)

text \<open>A host that grants every request; it keeps no memory.\<close>

definition granting_os :: "unit host_os" where
  "granting_os = \<lparr>split_placeholder = \<lambda>_ _ h. (True, h), coalesce_placeholders = \<lambda>_ _ h. (True, h),
     map_view = \<lambda>_ _ _ _ h. (True, h), unmap_view = \<lambda>_ h. (True, h),
     load_bytes = \<lambda>_ _ _. Inr 0, store_bytes = \<lambda>_ _ _ h. Inr h\<rparr>"

theorem mapper_partition_witness:
  fixes m :: "unit mapper"
  defines "m \<equiv> mapper_init 4096 ()"
  shows "\<exists>ok m1 ok' m2. (ok, m1) = reserve_region granting_os 0x1F800000 4096 m \<and>
    (ok', m2) = free_region granting_os 0 m \<and> mapper_ok m1 \<and> mapper_ok m2 \<and>
    (m_free_regions m1 = m_free_regions m \<and> m_reserved_regions m1 = m_reserved_regions m \<and> ok = False \<or>
     (\<forall>a. cover a (m_free_regions m) = cover a (m_free_regions m1) +
        of_bool (inside a \<lparr>guest_base = 0x1F800000, extent = 4096\<rparr>))) \<and>
    (case find (\<lambda>r. guest_base r = 0) (m_reserved_regions m) of
       None \<Rightarrow> ok' = False \<and> m2 = m
     | Some reg \<Rightarrow> \<forall>a. cover a (m_free_regions m2) = cover a (m_free_regions m) + of_bool (inside a reg))"
proof (intro exI conjI[OF _ conjI[OF _ mapper_partition[of m _ _ _ _ granting_os]]])
  show "mapper_ok m" unfolding m_def by (rule mapper_init_ok)
qed (rule prod.collapse | simp)+

end
