(* ===== verification/Cpu.thy ===== *)
theory Cpu
  imports Handlers
begin

text \<open>
  The processor's step (\<open>MIPS1::StepInstruction\<close>) and the high-level BIOS call tracking
  (\<open>MIPS1::HLE_Bios\<close>) of \<open>MIPS1.cpp\<close>.
\<close>

section \<open>BIOS call tracking\<close>

text \<open>
  The loop that unwinds the frames whose exit point is the jump's target. Each round pops a
  frame, so one unit of fuel per frame is enough.
\<close>

fun unwind_frames :: "nat \<Rightarrow> ('c, 'm) cpu_scheme bus_ops \<Rightarrow> u32 \<Rightarrow> ('c, 'm) cpu_scheme \<Rightarrow>
    ('c, 'm) cpu_scheme result" where
  "unwind_frames 0 bus address s = Inl OutOfFuel"
| "unwind_frames (Suc fuel) bus address s =
     bindE (stack_pop (m_syscall_frames s)) (\<lambda>(entry, frames).
       let s = s\<lparr>m_syscall_frames := frames\<rparr> in
       if exitpoint entry = 0xFFFFFFFF then Inl DebugBreak
       else
         bindE (hle_bios_handler bus (syscall_id entry) False s) (\<lambda>(_, s).
           bindE (stack_top (m_syscall_frames s)) (\<lambda>top.
             if exitpoint top = address then unwind_frames fuel bus address s else Inr s)))"

definition hle_bios :: "('c, 'm) cpu_scheme bus_ops \<Rightarrow> u32 \<Rightarrow> ('c, 'm) cpu_scheme \<Rightarrow>
    (bool \<times> ('c, 'm) cpu_scheme) result" where
  "hle_bios bus addr s =
     (let address = addr AND 0x1FFFFFFF in
      if address = 0xA0 \<or> address = 0xB0 \<or> address = 0xC0 then
        bindE (hle_bios_handler bus address True s) (\<lambda>(should_enter, s).
          if should_enter then
            if unat (m_stacktop (m_syscall_frames s)) = MAX_SYSCALL_FRAMES then Inl DebugBreak
            else
              let r9 = rreg 9 s; function_id = push_bit 4 address OR r9 in
              if function_id \<noteq> 0xb17 \<and> function_id \<noteq> 0xb10 then
                bindE (stack_push \<lparr>exitpoint = rreg 31 s AND 0x1FFFFFFF, syscall_id = function_id,
                                   caller = pc s - 4\<rparr> (m_syscall_frames s)) (\<lambda>frames.
                  Inr (True, s\<lparr>m_syscall_frames := frames\<rparr>))
              else Inr (True, s)
          else Inr (False, s))
      else
        bindE (stack_top (m_syscall_frames s)) (\<lambda>top.
          if exitpoint top = address
          then bindE (unwind_frames (Suc MAX_SYSCALL_FRAMES) bus address s) (\<lambda>s. Inr (True, s))
          else Inr (True, s)))"

section \<open>The step\<close>

definition has_icache :: "u32 \<Rightarrow> bool" where
  "has_icache a \<longleftrightarrow> drop_bit 29 a = 0 \<or> drop_bit 29 a = 4"

definition check_instruction_gte ::
  "('c, 'm) cpu_scheme bus_ops \<Rightarrow> ('c, 'm) cpu_scheme \<Rightarrow> (bool \<times> ('c, 'm) cpu_scheme) result" where
  "check_instruction_gte bus s =
     bindE (bus_read bus W32 False False (pc s) s) (\<lambda>(instruction, s).
       let (_, opc, sub) = decode instruction
       in Inr (sub = Sub_COP_CMD \<and> opc = Op_COP2, s))"

text \<open>The two checks before the fetch: a misaligned program counter, then interrupts.\<close>

definition clear_branch :: "('c, 'm) cpu_scheme \<Rightarrow> ('c, 'm) cpu_scheme" where
  "clear_branch s = s\<lparr>branch_delay := False, branch_taken := False\<rparr>"

definition check_alignment :: "('c, 'm) cpu_scheme \<Rightarrow> ('c, 'm) cpu_scheme" where
  "check_alignment s =
     (if pc s AND 3 \<noteq> 0 then clear_branch (enter_exception Ex_ADEL False s) else s)"

definition take_interrupt ::
  "('c, 'm) cpu_scheme bus_ops \<Rightarrow> ('c, 'm) cpu_scheme \<Rightarrow> ('c, 'm) cpu_scheme result" where
  "take_interrupt bus s =
     (if check_interrupts s then
        bindE (check_instruction_gte bus s) (\<lambda>(is_gte, s).
          if \<not> is_gte \<or> m_rerun_gte_for_interrupt s then
            (let s = s\<lparr>interrupt_line := False\<rparr>;
                 s = flush_load_delay s;
                 s = clear_branch (enter_exception Ex_INT False s)
             in Inr (s\<lparr>m_rerun_gte_for_interrupt := False\<rparr>))
          else Inr (s\<lparr>m_rerun_gte_for_interrupt := True\<rparr>))
      else Inr s)"

definition fetch ::
  "('c, 'm) cpu_scheme bus_ops \<Rightarrow> ('c, 'm) cpu_scheme \<Rightarrow> (u32 \<times> ('c, 'm) cpu_scheme) result" where
  "fetch bus s =
     (if \<not> has_icache (pc s) \<or> \<not> cache_enabled bus s then bus_read bus W32 True True (pc s) s
      else bus_read bus W32 True False (pc s) s)"

definition retire ::
  "('c, 'm) cpu_scheme bus_ops \<Rightarrow> bool \<Rightarrow> bool \<Rightarrow> ('c, 'm) cpu_scheme \<Rightarrow> ('c, 'm) cpu_scheme result" where
  "retire bus in_bd taken s =
     (if exception s then
        (let s = flush_load_delay s;
             s = enter_exception (exception_number s) False s
         in Inr (clear_branch (s\<lparr>exception := False\<rparr>)))
      else if taken then
        (let s = update_reg_writeback (update_load_delay (clear_branch s))
         in bindE (hle_bios bus (branch_dest s) s) (\<lambda>(go, s).
              Inr (s\<lparr>pc := (if go then branch_dest s else rreg 31 s)\<rparr>)))
      else
        (let s = update_reg_writeback (update_load_delay s);
             s = (if in_bd then s\<lparr>branch_delay := False\<rparr> else s)
         in Inr (s\<lparr>pc := pc s + 4\<rparr>)))"

definition step_instruction ::
  "('c, 'm) cpu_scheme bus_ops \<Rightarrow> ('c, 'm) cpu_scheme \<Rightarrow> ('c, 'm) cpu_scheme result" where
  "step_instruction bus s =
     bindE (take_interrupt bus (check_alignment s)) (\<lambda>s.
       let in_bd = branch_delay s; taken = branch_taken s in
       bindE (fetch bus s) (\<lambda>(instruction, s).
       bindE (if \<not> exception s then interpret_mips bus instruction s else Inr s) (\<lambda>s.
         let s = s\<lparr>m_curr_cycles := m_curr_cycles s + 1\<rparr> in
         bindE (retire bus in_bd taken s) (\<lambda>s. Inr (wreg 0 0 s)))))"

end
