(* ===== verification/CpuSpec.thy ===== *)
theory CpuSpec
  imports Cpu GteSpec
begin

text \<open>
  What the processor keeps: the well-formedness of its state, the contract of the memory it
  runs on (a locale), the set of instructions that stop the emulator, and the step's
  preservation of all of it.
\<close>

named_theorems cpu_oks \<open>operations that keep the processor's state well formed\<close>

section \<open>Well-formed processor states\<close>

definition frames_ok :: "syscall_entry cstack \<Rightarrow> bool" where
  "frames_ok st \<longleftrightarrow> length (m_thestack st) = MAX_SYSCALL_FRAMES \<and>
     1 \<le> unat (m_stacktop st) \<and> unat (m_stacktop st) \<le> MAX_SYSCALL_FRAMES \<and>
     exitpoint (m_thestack st ! 0) = 0xFFFFFFFF \<and>
     (\<forall>k. 0 < k \<and> k < unat (m_stacktop st) \<longrightarrow> exitpoint (m_thestack st ! k) \<le> 0x1FFFFFFF)"

definition cpu_ok :: "('c, 'm) cpu_scheme \<Rightarrow> bool" where
  "cpu_ok s \<longleftrightarrow> length (regs s) = 33 \<and> dest (curr_delay s) \<le> InvalidReg \<and>
     dest (next_delay s) \<le> InvalidReg \<and> dest (reg_writeback s) \<le> InvalidReg \<and>
     gte_ok (m_gte s) \<and> frames_ok (m_syscall_frames s)"

text \<open>The part of the state the bus has no access to.\<close>

definition same_cpu :: "('c, 'm) cpu_scheme \<Rightarrow> ('c, 'm) cpu_scheme \<Rightarrow> bool" where
  "same_cpu s s' \<longleftrightarrow> regs s' = regs s \<and> pc s' = pc s \<and> hi s' = hi s \<and> lo s' = lo s \<and>
     cop0 s' = cop0 s \<and> m_gte s' = m_gte s \<and> m_syscall_frames s' = m_syscall_frames s \<and>
     m_rerun_gte_for_interrupt s' = m_rerun_gte_for_interrupt s \<and>
     branch_delay s' = branch_delay s \<and> branch_dest s' = branch_dest s \<and> curr_mode s' = curr_mode s \<and>
     branch_taken s' = branch_taken s \<and> curr_delay s' = curr_delay s \<and> next_delay s' = next_delay s \<and>
     reg_writeback s' = reg_writeback s \<and> hi_lo_ready_timestamp s' = hi_lo_ready_timestamp s"

lemma same_cpu_refl [simp]: "same_cpu s s"
  by (simp add: same_cpu_def)

lemma same_cpu_trans: "same_cpu s s' \<Longrightarrow> same_cpu s' s'' \<Longrightarrow> same_cpu s s''"
  by (simp add: same_cpu_def)

lemma same_cpu_ok: "same_cpu s s' \<Longrightarrow> cpu_ok s' = cpu_ok s"
  by (simp add: same_cpu_def cpu_ok_def)

lemma cpu_ok_updates [simp]:
  "cpu_ok (s\<lparr>pc := a\<rparr>) = cpu_ok s" "cpu_ok (s\<lparr>hi := b\<rparr>) = cpu_ok s"
  "cpu_ok (s\<lparr>lo := c\<rparr>) = cpu_ok s" "cpu_ok (s\<lparr>cop0 := d\<rparr>) = cpu_ok s"
  "cpu_ok (s\<lparr>m_rerun_gte_for_interrupt := e\<rparr>) = cpu_ok s"
  "cpu_ok (s\<lparr>branch_delay := f\<rparr>) = cpu_ok s" "cpu_ok (s\<lparr>branch_dest := g\<rparr>) = cpu_ok s"
  "cpu_ok (s\<lparr>curr_mode := h\<rparr>) = cpu_ok s" "cpu_ok (s\<lparr>badvaddr := i\<rparr>) = cpu_ok s"
  "cpu_ok (s\<lparr>exception_number := j\<rparr>) = cpu_ok s" "cpu_ok (s\<lparr>exception := k\<rparr>) = cpu_ok s"
  "cpu_ok (s\<lparr>branch_taken := l\<rparr>) = cpu_ok s" "cpu_ok (s\<lparr>interrupt_line := m\<rparr>) = cpu_ok s"
  "cpu_ok (s\<lparr>interrupt_request := n\<rparr>) = cpu_ok s"
  "cpu_ok (s\<lparr>hi_lo_ready_timestamp := p\<rparr>) = cpu_ok s" "cpu_ok (s\<lparr>m_curr_cycles := q\<rparr>) = cpu_ok s"
  by (simp_all add: cpu_ok_def)

lemma cpu_ok_gte [cpu_oks]: "cpu_ok s \<Longrightarrow> gte_ok g \<Longrightarrow> cpu_ok (s\<lparr>m_gte := g\<rparr>)"
  by (simp add: cpu_ok_def)

lemma cpu_ok_wreg [cpu_oks]: "cpu_ok s \<Longrightarrow> cpu_ok (wreg r v s)"
  by (simp add: cpu_ok_def wreg_def)

lemma cpu_ok_delays [cpu_oks]:
  "cpu_ok s \<Longrightarrow> r < 32 \<Longrightarrow> cpu_ok (add_load_delay v r s)"
  "cpu_ok s \<Longrightarrow> r < 32 \<Longrightarrow> cpu_ok (add_writeback v r s)"
  "cpu_ok s \<Longrightarrow> cpu_ok (update_load_delay s)"
  "cpu_ok s \<Longrightarrow> cpu_ok (update_reg_writeback s)"
  "cpu_ok s \<Longrightarrow> cpu_ok (flush_load_delay s)"
  by (simp_all add: cpu_ok_def add_load_delay_def add_writeback_def update_load_delay_def Let_def
      update_reg_writeback_def flush_load_delay_def wreg_def InvalidReg_def)

lemma cpu_ok_status [cpu_oks]:
  "cpu_ok s \<Longrightarrow> cpu_ok (enter_exception code brk s)"
  "cpu_ok s \<Longrightarrow> cpu_ok (coprocessor_unusable n s)"
  "cpu_ok s \<Longrightarrow> cpu_ok (exit_exception s)"
  "cpu_ok s \<Longrightarrow> cpu_ok (status_jump d s)"
  "cpu_ok s \<Longrightarrow> cpu_ok (flag_exception code s)"
  "cpu_ok s \<Longrightarrow> cpu_ok (interlock_gte s)"
  "cpu_ok s \<Longrightarrow> cpu_ok (interlock_hi_lo s)"
  "cpu_ok s \<Longrightarrow> cpu_ok (clear_branch s)"
  by (simp_all add: enter_exception_def coprocessor_unusable_def exit_exception_def status_jump_def
      flag_exception_def interlock_gte_def interlock_hi_lo_def clear_branch_def Let_def)

lemma cpu_ok_coprocessors [cpu_oks]:
  "cpu_ok s \<Longrightarrow> d < 32 \<Longrightarrow> cpu_ok (read_cop0_to r d s)"
  "cpu_ok s \<Longrightarrow> cpu_ok (snd (read_cop0 r s))"
  "cpu_ok s \<Longrightarrow> cpu_ok (write_cop0 v r s)"
  "cpu_ok s \<Longrightarrow> cpu_ok (snd (read_cop2_data r s))"
  "cpu_ok s \<Longrightarrow> d < 32 \<Longrightarrow> cpu_ok (read_cop2_data_to r d s)"
  "cpu_ok s \<Longrightarrow> d < 32 \<Longrightarrow> cpu_ok (read_cop2_control_to r d s)"
  "cpu_ok s \<Longrightarrow> cpu_ok (write_cop2_data v r s)"
  "cpu_ok s \<Longrightarrow> cpu_ok (write_cop2_control v r s)"
proof -
  assume ok: "cpu_ok s"
  then have g: "gte_ok (m_gte s)" by (simp add: cpu_ok_def)
  then have "gte_ok (snd (read_control r (m_gte (interlock_gte s))))" by (simp add: interlock_gte_def)
  then show "d < 32 \<Longrightarrow> cpu_ok (read_cop2_control_to r d s)"
    using ok by (auto simp: read_cop2_control_to_def read_cop2_control_def Let_def
        intro!: cpu_oks split: prod.splits)
  show "d < 32 \<Longrightarrow> cpu_ok (read_cop0_to r d s)" "cpu_ok (snd (read_cop0 r s))"
    using ok by (auto simp: read_cop0_to_def read_cop0_def intro: cpu_oks split: sum.splits)
  show "cpu_ok (write_cop0 v r s)"
    using ok by (auto simp: write_cop0_def Let_def intro: cpu_oks)
  show "cpu_ok (snd (read_cop2_data r s))" "d < 32 \<Longrightarrow> cpu_ok (read_cop2_data_to r d s)"
    using ok by (auto simp: read_cop2_data_def read_cop2_data_to_def intro: cpu_oks)
  show "cpu_ok (write_cop2_data v r s)" "cpu_ok (write_cop2_control v r s)"
    using ok g by (auto simp: write_cop2_data_def write_cop2_control_def intro!: cpu_oks)
qed

lemma cop2_cmd_ensures: "cpu_ok s \<Longrightarrow> ensures F cpu_ok (cop2_cmd cmd s)"
proof -
  assume ok: "cpu_ok s"
  then have "gte_ok (m_gte (interlock_gte s))" by (simp add: cpu_ok_def interlock_gte_def)
  then obtain g where "gte_cmd (m_curr_timestamp (interlock_gte s)) cmd (m_gte (interlock_gte s)) = Inr g" "gte_ok g"
    by (rule gte_cmd_ok)
  with ok show ?thesis by (auto simp: cop2_cmd_def Let_def intro!: cpu_oks)
qed

section \<open>Instructions that stop the emulator\<close>

text \<open>
  The words whose handler reaches \<open>error::DebugBreak\<close>: the linking branches of BCONDZ, the
  accesses of coprocessor 1, SWC3, and action 8 of an enabled coprocessor 2.
\<close>

definition stops_emulator :: "u32 \<Rightarrow> ('c, 'm) cpu_scheme \<Rightarrow> bool" where
  "stops_emulator i s \<longleftrightarrow>
     (case decode i of (_, opc, _) \<Rightarrow>
        opc = Op_BCONDZ \<and> bit i 20 \<or> opc = Op_LWC1 \<or> opc = Op_SWC1 \<or> opc = Op_SWC3 \<or>
        opc = Op_COP2 \<and> cop2_enable (sr (cop0 s)) \<and> \<not> bit i 25 \<and> get_bits 21 4 i = 8)"

lemma lookup_entry_in: "lookup_entry table k \<in> insert reserved_entry (snd ` set table)"
  by (force simp: lookup_entry_def split: option.splits dest: map_of_SomeD)

lemma decode_in:
  "decode i \<in> insert reserved_entry (snd ` set special_table \<union> snd ` set primary_table)"
  using lookup_entry_in[of special_table] lookup_entry_in[of primary_table]
  unfolding decode_fields by auto

text \<open>The opcodes of each subtype.\<close>

lemma decode_pair:
  assumes "decode i = (ty, opc, sub)"
  shows "opc \<in> (case sub of
      Sub_ALU_IMM \<Rightarrow> {Op_ORI, Op_ADDIU, Op_ADDI, Op_ANDI, Op_XORI, Op_SLTI, Op_SLTIU}
    | Sub_STORE \<Rightarrow> {Op_SW, Op_SH, Op_SB, Op_SWL, Op_SWR}
    | Sub_SHIFT_IMM \<Rightarrow> {Op_SLL, Op_SRA, Op_SRL}
    | Sub_JUMP \<Rightarrow> {Op_J, Op_JAL, Op_JR, Op_JALR}
    | Sub_ALU_REG \<Rightarrow> {Op_OR, Op_AND, Op_ADDU, Op_ADD, Op_SLTU, Op_SLT, Op_SUBU, Op_SUB, Op_NOR, Op_XOR}
    | Sub_COP_CMD \<Rightarrow> {Op_COP0, Op_COP1, Op_COP2, Op_COP3}
    | Sub_BRANCH \<Rightarrow> {Op_BNE, Op_BEQ, Op_BLEZ, Op_BGTZ, Op_BCONDZ}
    | Sub_LOAD \<Rightarrow> {Op_LW, Op_LHU, Op_LBU, Op_LH, Op_LB, Op_LWL, Op_LWR}
    | Sub_MUL_DIV \<Rightarrow> {Op_DIV, Op_MFHI, Op_MFLO, Op_MTHI, Op_MTLO, Op_DIVU, Op_MULTU, Op_MULT}
    | Sub_SYS_BRK \<Rightarrow> {Op_SYSCALL, Op_BREAK}
    | Sub_SHIFT_REG \<Rightarrow> {Op_SLLV, Op_SRAV, Op_SRLV}
    | Sub_COP_LOAD \<Rightarrow> {Op_LWC0, Op_LWC1, Op_LWC2, Op_LWC3}
    | Sub_COP_STORE \<Rightarrow> {Op_SWC0, Op_SWC1, Op_SWC2, Op_SWC3}
    | Sub_LUI_IMM \<Rightarrow> {Op_LUI}
    | Sub_NA \<Rightarrow> {Op_NA})"
  using decode_in[of i] unfolding assms special_table_def primary_table_def reserved_entry_def
  by (simp del: insert_iff) (elim insertE; simp)

lemma bit_u32_iff:
  assumes "list_all (\<lambda>n. bit w n = P n) [0..<32]" "\<And>n. P n \<Longrightarrow> n < 32"
  shows "bit (w :: u32) n = P n"
proof (cases "n < 32")
  case True
  with assms(1) show ?thesis by (simp add: list_all_iff)
next
  case False
  then show ?thesis using assms(2)[of n] bit_imp_le_length[of w n] by auto
qed

lemma bcondz_type:
  "get_bits 16 5 i AND 0b10001 = 0x10 \<or> get_bits 16 5 i AND 0b10001 = 0x11 \<longleftrightarrow> bit i 20"
  "get_bits 16 5 i AND 0b10001 \<noteq> 0x2" "get_bits 16 5 i AND 0b10001 \<noteq> 0x12" for i :: u32
proof -
  let ?t = "get_bits 16 5 i AND 0b10001 :: u32"
  have b17: "bit (0b10001 :: u32) n \<longleftrightarrow> n = 0 \<or> n = 4" for n
    by (rule bit_u32_iff) (code_simp, auto)
  have b16: "bit (0x10 :: u32) n \<longleftrightarrow> n = 4" for n
    by (rule bit_u32_iff) (code_simp, auto)
  have "?t = (if bit i 20 then if bit i 16 then 0x11 else 0x10 else if bit i 16 then 1 else 0)"
    by (rule bit_word_eqI) (auto simp: bit_and_iff bit_get_bits b17 b16 bit_1_iff
        simp del: bit_numeral_word_iff intro!: gr0I)
  then show "?t = 0x10 \<or> ?t = 0x11 \<longleftrightarrow> bit i 20" "?t \<noteq> 0x2" "?t \<noteq> 0x12"
    by (simp_all split: if_splits)
qed

section \<open>The memory the processor runs on\<close>

text \<open>
  The contract of the bus: an access never touches the processor's own state, and fails only
  with the faults of \<open>F\<close>.
\<close>

locale cpu_memory =
  fixes bus :: "('c, 'm) cpu_scheme bus_ops" and F :: "fault set"
  assumes read_ensures: "ensures F (\<lambda>(v, s'). same_cpu s s') (bus_read bus w except cycles a s)"
    and write_ensures: "ensures F (same_cpu s) (bus_write bus w except cycles a v s)"
begin

lemma read_ok: "cpu_ok s \<Longrightarrow> ensures F (\<lambda>(v, s'). cpu_ok s') (bus_read bus w except cycles a s)"
  by (rule ensures_mono[OF read_ensures order_refl]) (auto simp: same_cpu_ok)

lemma write_ok: "cpu_ok s \<Longrightarrow> ensures F cpu_ok (bus_write bus w except cycles a v s)"
  by (rule ensures_mono[OF write_ensures order_refl]) (simp add: same_cpu_ok)

lemma store_ok:
  assumes "cpu_ok s" "opc \<in> {Op_SW, Op_SH, Op_SB, Op_SWL, Op_SWR}"
  shows "ensures F cpu_ok (store bus opc i s)"
  using assms by (auto simp: store_def Let_def write_ok intro!: ensures_bind[OF read_ok])

lemma finish_load_ok: "cpu_ok s \<Longrightarrow> rt < 32 \<Longrightarrow> cpu_ok (finish_load rt v s)"
  by (auto simp: finish_load_def Let_def cpu_ok_def add_load_delay_def InvalidReg_def)

lemma load_ok:
  assumes "cpu_ok s" "opc \<in> {Op_LW, Op_LHU, Op_LBU, Op_LH, Op_LB, Op_LWL, Op_LWR}"
  shows "ensures F cpu_ok (load bus opc i s)"
proof -
  have m: "cpu_ok (snd (merge_source (fld_rt i) s))"
    using assms(1) by (auto simp: merge_source_def cpu_ok_def)
  have r: "ensures F cpu_ok (bindE (bus_read bus w e c a u) (\<lambda>(v, s). Inr (finish_load (fld_rt i) (f v) s)))"
    if "cpu_ok u" for w e c a f u
    by (rule ensures_bind[OF read_ok[OF that]]) (auto simp: finish_load_ok)
  show ?thesis
    using assms m by (auto simp: load_def Let_def r split: prod.splits)
qed

lemma cop_load_ok:
  assumes "cpu_ok s" "opc \<in> {Op_LWC0, Op_LWC2, Op_LWC3}"
  shows "ensures F cpu_ok (coprocessor_load bus opc i s)"
  using assms
  by (auto simp: coprocessor_load_def Let_def cpu_oks intro!: ensures_bind[OF read_ok])

lemma cop_store_ok:
  assumes "cpu_ok s" "opc \<in> {Op_SWC0, Op_SWC2}"
  shows "ensures F cpu_ok (coprocessor_store bus opc i s)"
proof -
  have "ensures F cpu_ok (let (value, s) = p in if exception s then Inr s else bus_write bus w e c a value s)"
    if "cpu_ok (snd p)" for w e c a and p :: "u32 \<times> ('c, 'm) cpu_scheme"
    using that by (cases p) (simp add: write_ok)
  then show ?thesis
    using assms by (auto simp: coprocessor_store_def Let_def cpu_oks)
qed

end

section \<open>Handlers that use no memory\<close>

lemma register_handlers_ok:
  assumes "cpu_ok s"
  shows "ensures F cpu_ok (load_upper_immediate i s)"
    "opc \<in> {Op_ORI, Op_ADDIU, Op_ADDI, Op_ANDI, Op_XORI, Op_SLTI, Op_SLTIU} \<Longrightarrow>
     ensures F cpu_ok (alu_immediate opc i s)"
    "opc \<in> {Op_SLL, Op_SRA, Op_SRL} \<Longrightarrow> ensures F cpu_ok (shift_immediate opc i s)"
    "opc \<in> {Op_SLLV, Op_SRAV, Op_SRLV} \<Longrightarrow> ensures F cpu_ok (shift_reg opc i s)"
    "opc \<in> {Op_OR, Op_AND, Op_ADDU, Op_ADD, Op_SLTU, Op_SLT, Op_SUBU, Op_SUB, Op_NOR, Op_XOR} \<Longrightarrow>
     ensures F cpu_ok (alu_reg opc i s)"
    "opc \<in> {Op_J, Op_JAL, Op_JR, Op_JALR} \<Longrightarrow> ensures F cpu_ok (jump opc i s)"
    "ensures F cpu_ok (sys_break opc i s)"
  using assms
  by (auto simp: load_upper_immediate_def alu_immediate_def shift_immediate_def shift_reg_def
      alu_reg_def jump_def sys_break_def Let_def cpu_oks)

lemma mul_div_ok:
  assumes "cpu_ok s" "opc \<in> {Op_DIV, Op_MFHI, Op_MFLO, Op_MTHI, Op_MTLO, Op_DIVU, Op_MULTU, Op_MULT}"
  shows "ensures F cpu_ok (mul_div opc i s)"
  using assms by (auto simp: mul_div_def Let_def cpu_oks)

lemma branch_ok:
  assumes "cpu_ok s" "opc \<in> {Op_BNE, Op_BEQ, Op_BLEZ, Op_BGTZ} \<or> opc = Op_BCONDZ \<and> \<not> bit i 20"
  shows "ensures F cpu_ok (branch opc i s)"
  using assms bcondz_type[of i] by (auto simp: branch_def Let_def cpu_oks)

lemma cop0_command_ok: "cpu_ok s \<Longrightarrow> ensures F cpu_ok (coprocessor0_command i s)"
  by (simp add: coprocessor0_command_def Let_def cpu_oks)

lemma cop2_command_ok:
  "cpu_ok s \<Longrightarrow> get_bits 21 4 i \<noteq> 8 \<Longrightarrow> ensures F cpu_ok (coprocessor2_command i s)"
  by (simp add: coprocessor2_command_def Let_def cpu_oks)

lemma cop_cmd_ok:
  assumes "cpu_ok s" "opc \<in> {Op_COP0, Op_COP1, Op_COP2, Op_COP3}"
    and "\<not> (opc = Op_COP2 \<and> cop2_enable (sr (cop0 s)) \<and> \<not> bit i 25 \<and> get_bits 21 4 i = 8)"
  shows "ensures F cpu_ok (cop_cmd opc i s)"
proof -
  have "opc = Op_COP0 \<or> opc = Op_COP1 \<or> opc = Op_COP2 \<or> opc = Op_COP3" using assms(2) by simp
  then show ?thesis
    using assms(1,3)
    by (elim disjE) (auto simp: cop_cmd_def cop0_command_ok cop2_command_ok cpu_oks cop2_cmd_ensures)
qed

lemma stops_emulator_break:
  assumes "stops_emulator i s"
  shows "interpret_mips bus i s = Inl DebugBreak"
proof -
  obtain ty opc sub where d: "decode i = (ty, opc, sub)" by (cases "decode i") auto
  note h = interpret_mips_def[of bus i s] get_handler_def d
  show ?thesis
    using assms decode_pair[OF d] bcondz_type(1)[of i] unfolding stops_emulator_def
    by (cases sub; simp add: h)
      (auto simp: d branch_def cop_cmd_def coprocessor2_command_def coprocessor_load_def
        coprocessor_store_def Let_def)
qed

section \<open>The BIOS call stack\<close>

text \<open>
  The bottom frame is never popped: a frame whose exit point is a masked address has one below.
\<close>

lemma stack_top_frame:
  assumes "frames_ok st"
  shows "stack_top st = Inr (m_thestack st ! (unat (m_stacktop st) - 1))"
proof -
  have "m_stacktop st \<noteq> 0" using assms by (auto simp: frames_ok_def)
  then have "unat (m_stacktop st - 1) = unat (m_stacktop st) - 1" by (rule unat_minus_one)
  moreover have "unat (m_stacktop st) - 1 < length (m_thestack st)"
    using assms by (auto simp: frames_ok_def)
  ultimately show ?thesis by (simp add: stack_top_def stack_at_def)
qed

lemma stack_pop_frame:
  assumes "frames_ok st" "exitpoint (m_thestack st ! (unat (m_stacktop st) - 1)) \<le> 0x1FFFFFFF"
  obtains st' where "stack_pop st = Inr (m_thestack st ! (unat (m_stacktop st) - 1), st')"
    "frames_ok st'" "Suc (unat (m_stacktop st')) = unat (m_stacktop st)"
proof -
  have "unat (m_stacktop st) - 1 \<noteq> 0" using assms by (auto simp: frames_ok_def)
  moreover have "m_stacktop st \<noteq> 0" using assms by (auto simp: frames_ok_def)
  then have u: "unat (m_stacktop st - 1) = unat (m_stacktop st) - 1" by (rule unat_minus_one)
  moreover have "unat (m_stacktop st) - 1 < length (m_thestack st)"
    using assms(1) by (auto simp: frames_ok_def)
  ultimately show thesis
    using assms(1)
    by (intro that[of "st\<lparr>m_stacktop := m_stacktop st - 1\<rparr>"])
      (auto simp: stack_pop_def stack_at_def frames_ok_def Let_def)
qed

lemma stack_push_frame:
  assumes "frames_ok st" "unat (m_stacktop st) < MAX_SYSCALL_FRAMES" "exitpoint e \<le> 0x1FFFFFFF"
  shows "\<exists>st'. stack_push e st = Inr st' \<and> frames_ok st'"
proof -
  have "unat (m_stacktop st + 1) = Suc (unat (m_stacktop st))"
    using assms(2) by (simp add: unat_word_ariths MAX_SYSCALL_FRAMES_def)
  then show ?thesis
    using assms by (auto simp: stack_push_def frames_ok_def nth_list_update less_Suc_eq)
qed

section \<open>The step\<close>

text \<open>
  The kernel's hooks: they may change the processor's registers, never the call stack.
\<close>

locale cpu_machine = cpu_memory +
  assumes undefined_ok:
      "cpu_ok s \<Longrightarrow> ensures F (\<lambda>(h, s'). cpu_ok s') (undefined_instruction bus i s)"
    and hook_ok:
      "cpu_ok s \<Longrightarrow>
       ensures F (\<lambda>(h, s'). cpu_ok s' \<and> m_syscall_frames s' = m_syscall_frames s) (hle_bios_handler bus a e s)"
begin

lemma interpret_ok:
  assumes "cpu_ok s" "\<not> stops_emulator i s"
  shows "ensures F cpu_ok (interpret_mips bus i s)"
proof -
  have res: "ensures F cpu_ok (reserved_instruction bus i s)" if "fst (snd (decode i)) = Op_NA"
    using that assms(1)
    by (auto simp: reserved_instruction_def cpu_oks split: prod.splits intro!: ensures_bind[OF undefined_ok])
  obtain ty opc sub where d: "decode i = (ty, opc, sub)" by (cases "decode i") auto
  note h = interpret_mips_def[of bus i s] get_handler_def d
  show ?thesis
    using assms decode_pair[OF d] unfolding stops_emulator_def
    by (cases sub; simp add: h)
      (auto simp: res d register_handlers_ok mul_div_ok branch_ok cop_cmd_ok store_ok load_ok
        cop_load_ok cop_store_ok)
qed

lemma unwind_ok:
  assumes "cpu_ok s" "address \<le> 0x1FFFFFFF" "unat (m_stacktop (m_syscall_frames s)) \<le> fuel"
    and "exitpoint (m_thestack (m_syscall_frames s) ! (unat (m_stacktop (m_syscall_frames s)) - 1)) = address"
  shows "ensures F cpu_ok (unwind_frames fuel bus address s)"
  using assms
proof (induction fuel arbitrary: s)
  case 0
  then show ?case by (simp add: cpu_ok_def frames_ok_def)
next
  case (Suc fuel)
  let ?st = "m_syscall_frames s"
  let ?e = "m_thestack ?st ! (unat (m_stacktop ?st) - 1)"
  have fr: "frames_ok ?st" using Suc.prems(1) by (simp add: cpu_ok_def)
  obtain st' where st': "stack_pop ?st = Inr (?e, st')" "frames_ok st'"
    "Suc (unat (m_stacktop st')) = unat (m_stacktop ?st)"
    by (rule stack_pop_frame[OF fr]) (use Suc.prems in auto)
  have ok: "cpu_ok (s\<lparr>m_syscall_frames := st'\<rparr>)" using Suc.prems(1) st'(2) by (simp add: cpu_ok_def)
  have rec: "ensures F cpu_ok (if exitpoint (m_thestack st' ! (unat (m_stacktop st') - 1)) = address
      then unwind_frames fuel bus address u else Inr u)"
    if "cpu_ok u" "m_syscall_frames u = st'" for u
    using that Suc.IH[of u] Suc.prems(2,3) st'(3) by simp
  have "exitpoint ?e \<noteq> 0xFFFFFFFF" using Suc.prems(2,4) by auto
  then show ?case
    using rec stack_top_frame[OF st'(2)]
    by (simp add: st'(1)) (rule ensures_bind[OF hook_ok[OF ok]], auto)
qed

lemma hle_bios_ok:
  assumes "cpu_ok s"
  shows "ensures (insert DebugBreak F) (\<lambda>(go, s'). cpu_ok s') (hle_bios bus addr s)"
proof -
  define a where "a = addr AND 0x1FFFFFFF"
  have small: "w AND 0x1FFFFFFF \<le> 0x1FFFFFFF" for w :: u32 by (rule word_and_le1)
  have fr: "frames_ok (m_syscall_frames s)" using assms by (simp add: cpu_ok_def)
  have enter: "ensures (insert DebugBreak F) (\<lambda>(go, s'). cpu_ok s')
      (bindE (stack_push \<lparr>exitpoint = w AND 0x1FFFFFFF, syscall_id = f, caller = c\<rparr> (m_syscall_frames u))
        (\<lambda>frames. Inr (True, u\<lparr>m_syscall_frames := frames\<rparr>)))"
    if "cpu_ok u" "unat (m_stacktop (m_syscall_frames u)) \<noteq> MAX_SYSCALL_FRAMES"
    for w f c and u :: "('a, 'b) cpu_scheme"
  proof -
    have "frames_ok (m_syscall_frames u)" "unat (m_stacktop (m_syscall_frames u)) < MAX_SYSCALL_FRAMES"
      using that by (auto simp: cpu_ok_def frames_ok_def)
    from stack_push_frame[OF this, of "\<lparr>exitpoint = w AND 0x1FFFFFFF, syscall_id = f, caller = c\<rparr>"] small
    show ?thesis using that(1) by (auto simp: cpu_ok_def)
  qed
  show ?thesis
  proof (cases "a = 0xA0 \<or> a = 0xB0 \<or> a = 0xC0")
    case True
    then show ?thesis
      unfolding hle_bios_def a_def[symmetric] Let_def
      by (simp only: if_True)
        (rule ensures_bind[OF ensures_mono[where Q = "\<lambda>(h, u). cpu_ok u", OF hook_ok[OF assms]]],
          auto simp: enter)
  next
    case False
    have "ensures F cpu_ok (unwind_frames (Suc MAX_SYSCALL_FRAMES) bus a s)"
      if "exitpoint (m_thestack (m_syscall_frames s) ! (unat (m_stacktop (m_syscall_frames s)) - 1)) = a"
      using that fr small assms by (intro unwind_ok) (auto simp: a_def frames_ok_def)
    then show ?thesis
      unfolding hle_bios_def a_def[symmetric] Let_def using False assms
      by (auto simp: stack_top_frame[OF fr] simp del: unwind_frames.simps
          intro!: ensures_bind[OF ensures_insert, of F cpu_ok])
  qed
qed

lemma take_interrupt_ok: "cpu_ok s \<Longrightarrow> ensures F cpu_ok (take_interrupt bus s)"
  by (auto simp: take_interrupt_def check_instruction_gte_def Let_def cpu_oks bindE_assoc
      split: prod.splits intro!: ensures_bind[OF read_ok])

lemma fetch_ok: "cpu_ok s \<Longrightarrow> ensures F (\<lambda>(i, s'). cpu_ok s') (fetch bus s)"
  by (simp add: fetch_def read_ok)

lemma retire_ok: "cpu_ok s \<Longrightarrow> ensures (insert DebugBreak F) cpu_ok (retire bus in_bd taken s)"
  by (auto simp: retire_def Let_def cpu_oks intro!: ensures_bind[OF hle_bios_ok])

text \<open>One step: the state stays well formed, register 0 is zero, and no fault is new.\<close>

lemma step_ok:
  assumes "cpu_ok s"
  shows "ensures (insert DebugBreak F) (\<lambda>s'. cpu_ok s' \<and> rreg 0 s' = 0) (step_instruction bus s)"
proof -
  let ?F = "insert DebugBreak F"
  have a: "cpu_ok (check_alignment s)" using assms by (simp add: check_alignment_def cpu_oks)
  have i: "ensures ?F cpu_ok (interpret_mips bus i u)" if "cpu_ok u" for i u
  proof (cases "stops_emulator i u")
    case True
    then show ?thesis by (simp add: stops_emulator_break)
  next
    case False
    show ?thesis using interpret_ok[OF that False] by (rule ensures_mono) auto
  qed
  have w: "cpu_ok (wreg 0 0 u) \<and> rreg 0 (wreg 0 0 u) = 0" if "cpu_ok u" for u :: "('a, 'b) cpu_scheme"
    using that by (auto simp: wreg_def rreg_def cpu_ok_def)
  show ?thesis
    unfolding step_instruction_def Let_def
  proof (rule ensures_bind[OF ensures_insert[OF take_interrupt_ok[OF a]]])
    fix u :: "('a, 'b) cpu_scheme"
    assume u: "cpu_ok u"
    show "ensures ?F (\<lambda>s'. cpu_ok s' \<and> rreg 0 s' = 0)
      (bindE (fetch bus u) (\<lambda>(instruction, s).
         bindE (if \<not> exception s then interpret_mips bus instruction s else Inr s) (\<lambda>s.
           bindE (retire bus (branch_delay u) (branch_taken u) (s\<lparr>m_curr_cycles := m_curr_cycles s + 1\<rparr>))
             (\<lambda>s. Inr (wreg 0 0 s)))))"
      by (rule ensures_bind[OF ensures_insert[OF fetch_ok[OF u]]])
        (auto simp: i w intro!: ensures_bind[OF _ ensures_bind[OF retire_ok]])
  qed
qed

end

end
