(* ===== verification/Bus.thy ===== *)
theory Bus
  imports Handlers Mapper
begin

text \<open>
  The system bus (\<open>SystemBus.hpp\<close>, \<open>SystemBus.cpp\<close>, \<open>MemoryControl.cpp\<close>): the memory map,
  access timing, the memory control registers and the dispatch of the I/O ports. The devices
  behind the ports are reached through a record of functions.
\<close>

section \<open>Configuration\<close>

record region_config =
  delay_size :: u32
  base_addr :: u32
  end_addr :: u32
  read_nonseq :: u32
  read_seq :: u32
  write_nonseq :: u32
  write_seq :: u32

text \<open>Fields of \<open>DelaySizeConfig\<close>, \<open>ComDelay\<close> and \<open>CacheControl\<close>.\<close>

definition write_delay :: "u32 \<Rightarrow> u32" where "write_delay w = get_bits 0 4 w"
definition read_delay :: "u32 \<Rightarrow> u32" where "read_delay w = get_bits 4 4 w"
definition use_com0 :: "u32 \<Rightarrow> bool" where "use_com0 w = bit w 8"
definition use_com2 :: "u32 \<Rightarrow> bool" where "use_com2 w = bit w 10"
definition use_com3 :: "u32 \<Rightarrow> bool" where "use_com3 w = bit w 11"
definition bus_width :: "u32 \<Rightarrow> bool" where "bus_width w = bit w 12"
definition size_shift :: "u32 \<Rightarrow> nat" where "size_shift w = unat (get_bits 16 5 w)"
definition com0 :: "u32 \<Rightarrow> u32" where "com0 w = get_bits 0 4 w"
definition com2 :: "u32 \<Rightarrow> u32" where "com2 w = get_bits 8 4 w"
definition com3 :: "u32 \<Rightarrow> u32" where "com3 w = get_bits 12 4 w"
definition scratch_en1 :: "u32 \<Rightarrow> bool" where "scratch_en1 w = bit w 3"
definition scratch_en2 :: "u32 \<Rightarrow> bool" where "scratch_en2 w = bit w 7"
definition cache_en :: "u32 \<Rightarrow> bool" where "cache_en w = bit w 11"

definition RAM_DELAY :: u64 where "RAM_DELAY = 5"

definition empty_config :: region_config where
  "empty_config = \<lparr>delay_size = 0, base_addr = 0, end_addr = 0, read_nonseq = 0, read_seq = 0,
     write_nonseq = 0, write_seq = 0\<rparr>"

record 'h bus_regs =
  m_mapper :: "'h mapper"
  m_curr_ram_sz :: nat
  m_ram_end :: u32
  m_ram_config :: u32
  m_cache_control :: u32
  m_bios_config :: region_config
  m_exp1_config :: region_config
  m_exp2_config :: region_config
  m_exp3_config :: region_config
  m_spu_config :: region_config
  m_cdrom_config :: region_config
  m_exp2_enable :: bool
  m_com_delays :: u32
  m_event_ignore_overflow_cycles :: bool

record ('c, 'h) psx = "'c cpu" +
  bus :: "'h bus_regs"

definition set_bus :: "('h bus_regs \<Rightarrow> 'h bus_regs) \<Rightarrow> ('c, 'h, 'm) psx_scheme \<Rightarrow> ('c, 'h, 'm) psx_scheme" where
  "set_bus f s = s\<lparr>bus := f (bus s)\<rparr>"

text \<open>The size of a region: \<open>1 << size_shift\<close> on a 32-bit integer.\<close>

definition region_size :: "u32 \<Rightarrow> u32" where
  "region_size w = push_bit (size_shift w) 1"

definition compute_delays :: "u32 \<Rightarrow> region_config \<Rightarrow> region_config" where
  "compute_delays com conf =
     (let ds = delay_size conf;
          nonseq = (if use_com0 ds then com0 com - 1 else 0);
          seq = nonseq;
          nonseq = (if use_com2 ds then nonseq + com2 com else nonseq);
          seq = (if use_com2 ds then seq + com2 com else seq);
          least = (if use_com3 ds then com3 com else 0);
          nonseq = (if nonseq < 6 then nonseq + 1 else nonseq);
          at_least = (\<lambda>m v. if v < m then m else v :: u32)
      in conf\<lparr>read_nonseq := at_least (least + 6) (nonseq + read_delay ds + 2),
              read_seq := at_least (least + 2) (seq + read_delay ds + 2),
              write_nonseq := at_least (least + 6) (nonseq + write_delay ds + 2),
              write_seq := at_least (least + 2) (seq + write_delay ds + 2)\<rparr>)"

definition write_conf :: "u32 \<Rightarrow> u32 \<Rightarrow> region_config \<Rightarrow> region_config" where
  "write_conf com value conf =
     (if delay_size conf = value then conf
      else
        let conf = conf\<lparr>delay_size := value\<rparr>
        in compute_delays com (conf\<lparr>end_addr := base_addr conf + region_size value\<rparr>))"

section \<open>Mapping\<close>

definition UpAlignTo :: "u64 \<Rightarrow> u64 \<Rightarrow> u64" where
  "UpAlignTo num align = (if num AND (align - 1) \<noteq> 0 then (num + align) AND align else num)"

definition segment_offs :: "u64 list" where
  "segment_offs = [0, 0x80000000, 0xA0000000]"

definition MB :: u64 where "MB = 1024 * 1024"

definition PSX_BIOS_OFFSET :: u64 where "PSX_BIOS_OFFSET = 0x1FC00000"
definition PSX_SCRATCHPAD_OFFSET :: u64 where "PSX_SCRATCHPAD_OFFSET = 0x1F800000"
definition PSX_SCRATCHPAD_MAPPING :: u64 where
  "PSX_SCRATCHPAD_MAPPING = PSX_MAIN_RAM_SIZE + PSX_EXPANSION1_SIZE"
definition PSX_BIOS_MAPPING :: u64 where
  "PSX_BIOS_MAPPING = PSX_SCRATCHPAD_MAPPING + PSX_SCRATCHPAD_PADDED_SIZE + PSX_EXPANSION3_SIZE"

text \<open>
  \<open>n\<close> consecutive views of the same part of the memory file, and their removal; then the same in
  each segment of a list, stopping at the first failure.
\<close>

fun map_run :: "'h host_os \<Rightarrow> u64 \<Rightarrow> u64 \<Rightarrow> page_protection \<Rightarrow> nat \<Rightarrow> u64 \<Rightarrow> 'h mapper \<Rightarrow> bool \<times> 'h mapper" where
  "map_run os step file_off protect 0 offset m = (True, m)"
| "map_run os step file_off protect (Suc n) offset m =
     (let (ok, m) = reserve_region os offset step m in
      if \<not> ok then (False, m)
      else
        let (ok, m) = map_region os offset step file_off protect m in
        if \<not> ok then (False, m) else map_run os step file_off protect n (offset + step) m)"

fun unmap_run :: "'h host_os \<Rightarrow> u64 \<Rightarrow> nat \<Rightarrow> u64 \<Rightarrow> 'h mapper \<Rightarrow> bool \<times> 'h mapper" where
  "unmap_run os step 0 offset m = (True, m)"
| "unmap_run os step (Suc n) offset m =
     (let (ok, m) = unmap_region os offset m in
      if \<not> ok then (False, m)
      else
        let (ok, m) = free_region os offset m in
        if \<not> ok then (False, m) else unmap_run os step n (offset + step) m)"

fun on_segments :: "(u64 \<Rightarrow> 'h mapper \<Rightarrow> bool \<times> 'h mapper) \<Rightarrow> u64 list \<Rightarrow> 'h mapper \<Rightarrow> bool \<times> 'h mapper" where
  "on_segments f [] m = (True, m)"
| "on_segments f (seg # segs) m =
     (let (ok, m) = f seg m in if ok then on_segments f segs m else (False, m))"

definition map_ram :: "'h host_os \<Rightarrow> nat \<Rightarrow> 'h mapper \<Rightarrow> bool \<times> 'h mapper" where
  "map_ram os size_mb m =
     (if size_mb \<notin> {1, 2, 4, 8} then (False, m)
      else
        let size_step = (if size_mb = 1 then 1 else 2)
        in on_segments (map_run os (MB * of_nat size_step) 0 READ_WRITE (size_mb div size_step)) segment_offs m)"

text \<open>The megabytes a value of \<open>RamSize\<close> maps.\<close>

definition ram_megabytes :: "nat \<Rightarrow> nat option" where
  "ram_megabytes sz =
     (if sz = 0 \<or> sz = 2 then Some 1 else if sz = 1 \<or> sz = 3 then Some 4
      else if sz = 4 \<or> sz = 6 then Some 2 else if sz = 5 \<or> sz = 7 then Some 8 else None)"

definition reset_ram_map :: "'h host_os \<Rightarrow> 'h bus_regs \<Rightarrow> bool \<times> 'h bus_regs" where
  "reset_ram_map os b =
     (case ram_megabytes (m_curr_ram_sz b) of
        None \<Rightarrow> (False, b)
      | Some megs \<Rightarrow>
          let size_step = (if megs = 1 then 1 else 2);
              (ok, m) = on_segments (unmap_run os (MB * of_nat size_step) (megs div size_step))
                          segment_offs (m_mapper b)
          in (ok, b\<lparr>m_mapper := m\<rparr>))"

definition set_ram_map :: "'h host_os \<Rightarrow> nat \<Rightarrow> 'h bus_regs \<Rightarrow> bool \<times> 'h bus_regs" where
  "set_ram_map os new_config b =
     (let b = b\<lparr>m_curr_ram_sz := new_config\<rparr> in
      case ram_megabytes new_config of
        None \<Rightarrow> (False, b)
      | Some megs \<Rightarrow>
          let b = b\<lparr>m_ram_end := ucast (MB * of_nat megs)\<rparr>;
              (ok, m) = map_ram os megs (m_mapper b)
          in (ok, b\<lparr>m_mapper := m\<rparr>))"

definition scratchpad_enable :: "'h host_os \<Rightarrow> 'h bus_regs \<Rightarrow> bool \<times> 'h bus_regs" where
  "scratchpad_enable os b =
     (let (ok, m) = on_segments
            (\<lambda>seg. map_run os PSX_SCRATCHPAD_PADDED_SIZE PSX_SCRATCHPAD_MAPPING READ_WRITE 1
                     (seg + PSX_SCRATCHPAD_OFFSET))
            (take 2 segment_offs) (m_mapper b)
      in (ok, b\<lparr>m_mapper := m\<rparr>))"

definition scratchpad_disable :: "'h host_os \<Rightarrow> 'h bus_regs \<Rightarrow> bool \<times> 'h bus_regs" where
  "scratchpad_disable os b =
     (let (ok, m) = on_segments
            (\<lambda>seg. unmap_run os PSX_SCRATCHPAD_PADDED_SIZE 1 (seg + PSX_SCRATCHPAD_OFFSET))
            (take 2 segment_offs) (m_mapper b)
      in (ok, b\<lparr>m_mapper := m\<rparr>))"

text \<open>The number of BIOS copies that fill a region of the given size.\<close>

definition bios_maps :: "u32 \<Rightarrow> nat" where
  "bios_maps sz = unat sz div unat PSX_BIOS_SIZE + (if unat sz mod unat PSX_BIOS_SIZE \<noteq> 0 then 1 else 0)"

definition set_bios_map :: "'h host_os \<Rightarrow> u32 \<Rightarrow> bool \<Rightarrow> 'h bus_regs \<Rightarrow> bool \<times> 'h bus_regs" where
  "set_bios_map os new_size read_only b =
     (let new_size = (ucast (UpAlignTo (ucast new_size) (m_page_granularity (m_mapper b))) :: u32);
          (ok, m) = on_segments
            (\<lambda>seg. map_run os PSX_BIOS_SIZE PSX_BIOS_MAPPING (if read_only then READ else READ_WRITE)
                     (bios_maps new_size) (seg + PSX_BIOS_OFFSET))
            segment_offs (m_mapper b)
      in (ok, b\<lparr>m_mapper := m\<rparr>))"

definition reset_bios_map :: "'h host_os \<Rightarrow> 'h bus_regs \<Rightarrow> bool \<times> 'h bus_regs" where
  "reset_bios_map os b =
     (let map_size = region_size (delay_size (m_bios_config b));
          map_size = (ucast (UpAlignTo (ucast map_size) (m_page_granularity (m_mapper b))) :: u32);
          (ok, m) = on_segments
            (\<lambda>seg. unmap_run os PSX_BIOS_SIZE (bios_maps map_size) (seg + PSX_BIOS_OFFSET))
            segment_offs (m_mapper b)
      in (ok, b\<lparr>m_mapper := m\<rparr>))"

section \<open>Reconfiguration\<close>

definition reconfigure_bios :: "'h host_os \<Rightarrow> u32 \<Rightarrow> 'h bus_regs \<Rightarrow> 'h bus_regs" where
  "reconfigure_bios os new_config b =
     (if delay_size (m_bios_config b) = new_config then b
      else
        let b = snd (reset_bios_map os b);
            conf = compute_delays (m_com_delays b) ((m_bios_config b)\<lparr>delay_size := new_config\<rparr>);
            conf = conf\<lparr>end_addr := base_addr conf + region_size new_config\<rparr>
        in snd (set_bios_map os (region_size new_config) True (b\<lparr>m_bios_config := conf\<rparr>)))"

definition reconfigure_ram :: "'h host_os \<Rightarrow> u32 \<Rightarrow> 'h bus_regs \<Rightarrow> 'h bus_regs" where
  "reconfigure_ram os ram_conf b =
     (if ram_conf = m_ram_config b then b
      else
        let b = b\<lparr>m_ram_config := ram_conf\<rparr>;
            new_size = unat (get_bits 9 3 ram_conf);
            b = snd (reset_ram_map os b)
        in snd (set_ram_map os new_size b))"

definition write_com_delay :: "u32 \<Rightarrow> 'h bus_regs \<Rightarrow> 'h bus_regs" where
  "write_com_delay value b =
     (if m_com_delays b = value then b
      else b\<lparr>m_com_delays := value,
             m_bios_config := compute_delays value (m_bios_config b),
             m_exp1_config := compute_delays value (m_exp1_config b),
             m_exp2_config := compute_delays value (m_exp2_config b),
             m_exp3_config := compute_delays value (m_exp3_config b)\<rparr>)"

definition write_cache_control :: "'h host_os \<Rightarrow> u32 \<Rightarrow> 'h bus_regs \<Rightarrow> 'h bus_regs" where
  "write_cache_control os value b =
     (if m_cache_control b = value then b
      else
        let old_en = scratch_en1 (m_cache_control b) \<and> scratch_en2 (m_cache_control b);
            new_en = scratch_en1 value \<and> scratch_en2 value;
            b = b\<lparr>m_cache_control := value\<rparr>
        in if old_en \<and> \<not> new_en then snd (scratchpad_disable os b)
           else if \<not> old_en \<and> new_en then snd (scratchpad_enable os b)
           else b)"

definition in_word :: "u32 \<Rightarrow> u32 \<Rightarrow> bool" where
  "in_word r address \<longleftrightarrow> address \<ge> r \<and> address < r + 4"

definition PSX_EXPANSION2_OFFSET :: u32 where "PSX_EXPANSION2_OFFSET = 0x1F802000"

definition write_mem_control :: "'h host_os \<Rightarrow> u32 \<Rightarrow> u32 \<Rightarrow> 'h bus_regs \<Rightarrow> 'h bus_regs" where
  "write_mem_control os address value b =
     (let com = m_com_delays b in
      if in_word 0x10 address then reconfigure_bios os value b
      else if in_word 0x20 address then write_com_delay value b
      else if in_word 0x0 address then
        (let value = (value AND 0x00FFFFFF) OR 0x1F000000;
             sz = region_size (delay_size (m_exp1_config b));
             base = value AND NOT (sz - 1)
         in b\<lparr>m_exp1_config := (m_exp1_config b)\<lparr>base_addr := base, end_addr := base + sz\<rparr>\<rparr>)
      else if in_word 0x4 address then b\<lparr>m_exp2_enable := (value = PSX_EXPANSION2_OFFSET)\<rparr>
      else if in_word 0x8 address then b\<lparr>m_exp1_config := write_conf com value (m_exp1_config b)\<rparr>
      else if in_word 0x1C address then b\<lparr>m_exp2_config := write_conf com value (m_exp2_config b)\<rparr>
      else if in_word 0xC address then b\<lparr>m_exp3_config := write_conf com value (m_exp3_config b)\<rparr>
      else if in_word 0x14 address then b\<lparr>m_spu_config := write_conf com value (m_spu_config b)\<rparr>
      else if in_word 0x18 address then b\<lparr>m_cdrom_config := write_conf com value (m_cdrom_config b)\<rparr>
      else b)"

definition read_mem_control :: "u32 \<Rightarrow> 'h bus_regs \<Rightarrow> u32" where
  "read_mem_control address b =
     (if in_word 0x10 address then delay_size (m_bios_config b)
      else if in_word 0x20 address then m_com_delays b
      else if in_word 0x0 address then base_addr (m_exp1_config b)
      else if in_word 0x4 address then base_addr (m_exp2_config b)
      else if in_word 0x8 address then delay_size (m_exp1_config b)
      else if in_word 0x1C address then delay_size (m_exp2_config b)
      else if in_word 0xC address then delay_size (m_exp3_config b)
      else if in_word 0x14 address then delay_size (m_spu_config b)
      else if in_word 0x18 address then delay_size (m_cdrom_config b)
      else 0)"

section \<open>Initial state\<close>

definition BIOS_CONFIG_INIT :: u32 where "BIOS_CONFIG_INIT = 0x013243F"
definition EXP1_CONFIG_INIT :: u32 where "EXP1_CONFIG_INIT = 0x013243F"
definition EXP2_CONFIG_INIT :: u32 where "EXP2_CONFIG_INIT = 0x0070777"
definition EXP3_CONFIG_INIT :: u32 where "EXP3_CONFIG_INIT = 0x0003022"
definition RAM_SIZE_INIT :: u32 where "RAM_SIZE_INIT = 0xB88"

definition init_config :: "u32 \<Rightarrow> u32 \<Rightarrow> region_config" where
  "init_config base raw =
     empty_config\<lparr>base_addr := base, delay_size := raw, end_addr := base + region_size raw\<rparr>"

definition init_map_regions :: "'h host_os \<Rightarrow> 'h bus_regs \<Rightarrow> 'h bus_regs result" where
  "init_map_regions os b =
     (let (ok, b) = set_ram_map os 5 b in
      if \<not> ok then Inl Thrown
      else
        let (ok, b) = scratchpad_enable os b in
        if \<not> ok then Inl Thrown
        else
          let (ok, b) = set_bios_map os (512 * 1024) False b in
          if \<not> ok then Inl Thrown else Inr b)"

definition bus_init :: "'h host_os \<Rightarrow> u64 \<Rightarrow> 'h \<Rightarrow> 'h bus_regs result" where
  "bus_init os page h =
     bindE
       (init_map_regions os
         \<lparr>m_mapper = mapper_init page h, m_curr_ram_sz = 0, m_ram_end = 0, m_ram_config = RAM_SIZE_INIT,
          m_cache_control = 0, m_bios_config = init_config 0x1FC00000 BIOS_CONFIG_INIT,
          m_exp1_config = init_config 0x1F000000 EXP1_CONFIG_INIT,
          m_exp2_config = init_config PSX_EXPANSION2_OFFSET EXP2_CONFIG_INIT,
          m_exp3_config = init_config 0x1FA00000 EXP3_CONFIG_INIT,
          m_spu_config = empty_config, m_cdrom_config = empty_config, m_exp2_enable = True,
          m_com_delays = 0, m_event_ignore_overflow_cycles = False\<rparr>)
       (\<lambda>b. Inr (b\<lparr>m_bios_config := compute_delays (m_com_delays b) (m_bios_config b)\<rparr>))"

end
