(* ===== verification/BusIO.thy ===== *)
theory BusIO
  imports Bus
begin

text \<open>
  Reads and writes on the bus (\<open>SystemBus.hpp\<close>): the checks of the address, the memory regions,
  and the I/O ports. The processor's cycle counter, exception fields and interrupt registers
  are those of the processor's state.
\<close>

section \<open>The devices behind the I/O ports\<close>

record 's device_ops =
  timer_read :: "nat \<Rightarrow> u32 \<Rightarrow> 's \<Rightarrow> (u32 \<times> 's) result"
  timer_write :: "nat \<Rightarrow> u32 \<Rightarrow> u32 \<Rightarrow> 's \<Rightarrow> 's result"
  dma_read :: "u32 \<Rightarrow> 's \<Rightarrow> (u32 \<times> 's) result"
  dma_write :: "u32 \<Rightarrow> u32 \<Rightarrow> u32 \<Rightarrow> 's \<Rightarrow> 's result"
  gpu_read_data :: "'s \<Rightarrow> (u32 \<times> 's) result"
  gpu_read_stat :: "'s \<Rightarrow> (u32 \<times> 's) result"
  gpu_write_gp0 :: "u32 \<Rightarrow> 's \<Rightarrow> 's result"
  gpu_write_gp1 :: "u32 \<Rightarrow> 's \<Rightarrow> 's result"
  cdrom_read :: "width \<Rightarrow> u32 \<Rightarrow> 's \<Rightarrow> (u32 \<times> 's) result"
  cdrom_write :: "width \<Rightarrow> u32 \<Rightarrow> u32 \<Rightarrow> 's \<Rightarrow> 's result"
  sio_read :: "nat \<Rightarrow> width \<Rightarrow> u32 \<Rightarrow> 's \<Rightarrow> (u32 \<times> 's) result"
  sio_write :: "nat \<Rightarrow> width \<Rightarrow> u32 \<Rightarrow> u32 \<Rightarrow> 's \<Rightarrow> 's result"
  mdec_read_data :: "'s \<Rightarrow> (u32 \<times> 's) result"
  mdec_read_stat :: "'s \<Rightarrow> (u32 \<times> 's) result"
  mdec_write_command :: "u32 \<Rightarrow> 's \<Rightarrow> 's result"
  mdec_write_control :: "u32 \<Rightarrow> 's \<Rightarrow> 's result"
  spu_read :: "width \<Rightarrow> u32 \<Rightarrow> 's \<Rightarrow> (u32 \<times> 's) result"
  spu_write :: "width \<Rightarrow> u32 \<Rightarrow> u32 \<Rightarrow> 's \<Rightarrow> 's result"

section \<open>Address tests\<close>

fun size_of :: "width \<Rightarrow> nat" where
  "size_of W8 = 1" | "size_of W16 = 2" | "size_of W32 = 4"

definition truncate :: "width \<Rightarrow> u32 \<Rightarrow> u32" where
  "truncate w v = v AND mask (8 * size_of w)"

definition physical_address :: "u32 \<Rightarrow> u32" where
  "physical_address a = a AND mask 29"

definition memory_segment :: "u32 \<Rightarrow> u32" where
  "memory_segment a = drop_bit 29 a"

definition between :: "u32 \<Rightarrow> u32 \<Rightarrow> u32 \<Rightarrow> bool" where
  "between lower upper a \<longleftrightarrow> a \<ge> lower \<and> a < upper"

definition between_physical :: "u32 \<Rightarrow> u32 \<Rightarrow> u32 \<Rightarrow> bool" where
  "between_physical lower upper a \<longleftrightarrow> physical_address a \<ge> lower \<and> physical_address a < upper"

definition in_region :: "region_config \<Rightarrow> u32 \<Rightarrow> bool" where
  "in_region conf a \<longleftrightarrow> between_physical (base_addr conf) (end_addr conf) a"

definition LOCKED_GAPS :: "(u32 \<times> u32) list" where
  "LOCKED_GAPS = [(0x1F801024, 0x1C), (0x1F801064, 0xC), (0x1F801078, 0x8), (0x1F801140, 0x6C0),
     (0x1F801804, 0xC), (0x1F801818, 0x8), (0x1F801828, 0x3D8)]"

definition LOCKED :: "u32 \<Rightarrow> bool" where
  "LOCKED index \<longleftrightarrow>
     (\<exists>(start, len) \<in> set LOCKED_GAPS. let base = start AND 0xFFF in index \<ge> base \<and> index < base + len)"

definition misaligned :: "width \<Rightarrow> u32 \<Rightarrow> bool" where
  "misaligned w a \<longleftrightarrow> size_of w \<noteq> 1 \<and> a AND (of_nat (size_of w) - 1) \<noteq> 0"

section \<open>Faults and timing\<close>

definition bus_exception :: "bool \<Rightarrow> excode \<Rightarrow> u32 option \<Rightarrow> ('c, 'm) cpu_scheme \<Rightarrow> ('c, 'm) cpu_scheme" where
  "bus_exception except code bad s =
     (if except then
        let s = flag_exception code s
        in (case bad of None \<Rightarrow> s | Some a \<Rightarrow> s\<lparr>badvaddr := a\<rparr>)
      else s)"

definition add_cycles :: "bool \<Rightarrow> u64 \<Rightarrow> ('c, 'm) cpu_scheme \<Rightarrow> ('c, 'm) cpu_scheme" where
  "add_cycles cycles n s = (if cycles then s\<lparr>m_curr_cycles := m_curr_cycles s + n\<rparr> else s)"

text \<open>
  The cost of an access: the first at the non-sequential price, the others at the sequential
  one; their number is computed on \<open>size_t\<close>.
\<close>

definition seq_access_count :: "width \<Rightarrow> region_config \<Rightarrow> u64" where
  "seq_access_count w conf = of_nat (size_of w) div (of_bool (bus_width (delay_size conf)) + 1) - 1"

definition read_time :: "width \<Rightarrow> region_config \<Rightarrow> u64" where
  "read_time w conf = ucast (read_nonseq conf) + ucast (read_seq conf) * seq_access_count w conf"

definition write_time :: "width \<Rightarrow> region_config \<Rightarrow> u64" where
  "write_time w conf = ucast (write_nonseq conf) + ucast (write_seq conf) * seq_access_count w conf"

section \<open>I/O ports\<close>

text \<open>Narrow writes are shifted to their place in the word; the other bytes are zero.\<close>

definition place :: "width \<Rightarrow> u32 \<Rightarrow> u32 \<Rightarrow> u32" where
  "place w address value =
     (if w = W32 then value else push_bit (8 * unat (address AND 3)) value)"

definition pick :: "width \<Rightarrow> u32 \<Rightarrow> u32 \<Rightarrow> u32" where
  "pick w address value = truncate w (drop_bit (8 * unat (address AND 3)) value)"

definition ack_interrupts :: "u32 \<Rightarrow> u32 \<Rightarrow> u32" where
  "ack_interrupts to_write request =
     fold (\<lambda>i r. if bit to_write i then r else r AND NOT (push_bit i 1)) [0..<10] request"

definition picked :: "width \<Rightarrow> u32 \<Rightarrow> (u32 \<times> 's) result \<Rightarrow> (u32 \<times> 's) result" where
  "picked w address m = bindE m (\<lambda>(v, s). Inr (pick w address v, s))"

definition truncated :: "width \<Rightarrow> (u32 \<times> 's) result \<Rightarrow> (u32 \<times> 's) result" where
  "truncated w m = bindE m (\<lambda>(v, s). Inr (truncate w v, s))"

definition write_io ::
  "'h host_os \<Rightarrow> ('c, 'h, 'm) psx_scheme device_ops \<Rightarrow> width \<Rightarrow> bool \<Rightarrow> u32 \<Rightarrow> u32 \<Rightarrow>
    ('c, 'h, 'm) psx_scheme \<Rightarrow> ('c, 'h, 'm) psx_scheme result" where
  "write_io os dev w cycles address value s =
     (let address = address AND 0xFFF; to_write = place w address value in
      if address < 0x24 then Inr (set_bus (write_mem_control os (address AND NOT 3) to_write) s)
      else if in_word 0x60 address then Inr (set_bus (reconfigure_ram os to_write) s)
      else if in_word 0x70 address then
        Inr (s\<lparr>interrupt_request := ack_interrupts to_write (interrupt_request s)\<rparr>)
      else if in_word 0x74 address then Inr (s\<lparr>interrupt_mask := to_write\<rparr>)
      else if address AND 0xFF0 = 0x100 then timer_write dev 0 (address - 0x100) to_write s
      else if address AND 0xFF0 = 0x110 then timer_write dev 1 (address - 0x110) to_write s
      else if address AND 0xFF0 = 0x120 then timer_write dev 2 (address - 0x120) to_write s
      else if 0x80 \<le> address \<and> address < 0x100 then
        dma_write dev address to_write (push_bit (8 * unat (address AND 3)) (mask (8 * size_of w))) s
      else if in_word 0x810 address then gpu_write_gp0 dev to_write s
      else if in_word 0x814 address then gpu_write_gp1 dev to_write s
      else if 0x800 \<le> address \<and> address \<le> 0x803 then
        cdrom_write dev w (address - 0x800) value (add_cycles cycles (write_time w (m_cdrom_config (bus s))) s)
      else if 0x40 \<le> address \<and> address < 0x50 then sio_write dev 0 w (address - 0x40) value s
      else if 0x50 \<le> address \<and> address < 0x60 then sio_write dev 1 w (address - 0x50) value s
      else if in_word 0x820 address then mdec_write_command dev value s
      else if in_word 0x824 address then mdec_write_control dev value s
      else if 0xC00 \<le> address \<and> address < 0x1000 then
        spu_write dev w address value (add_cycles cycles (write_time w (m_spu_config (bus s))) s)
      else Inr s)"

definition read_io ::
  "('c, 'h, 'm) psx_scheme device_ops \<Rightarrow> width \<Rightarrow> bool \<Rightarrow> u32 \<Rightarrow>
    ('c, 'h, 'm) psx_scheme \<Rightarrow> (u32 \<times> ('c, 'h, 'm) psx_scheme) result" where
  "read_io dev w cycles address s =
     (let address = address AND 0xFFF in
      if address < 0x24 then Inr (pick w address (read_mem_control (address AND NOT 3) (bus s)), s)
      else if in_word 0x60 address then Inr (pick w address (m_ram_config (bus s)), s)
      else if in_word 0x74 address then Inr (pick w address (interrupt_mask s), s)
      else if in_word 0x70 address then Inr (pick w address (interrupt_request s), s)
      else if address AND 0xFF0 = 0x100 then picked w address (timer_read dev 0 (address - 0x100) s)
      else if address AND 0xFF0 = 0x110 then picked w address (timer_read dev 1 (address - 0x110) s)
      else if address AND 0xFF0 = 0x120 then picked w address (timer_read dev 2 (address - 0x120) s)
      else if 0x80 \<le> address \<and> address < 0x100 then picked w address (dma_read dev address s)
      else if in_word 0x810 address then picked w address (gpu_read_data dev s)
      else if in_word 0x814 address then picked w address (gpu_read_stat dev s)
      else if 0x800 \<le> address \<and> address \<le> 0x803 then
        truncated w (cdrom_read dev w (address - 0x800)
          (add_cycles cycles (read_time w (m_cdrom_config (bus s))) s))
      else if 0x40 \<le> address \<and> address < 0x50 then truncated w (sio_read dev 0 w (address - 0x40) s)
      else if 0x50 \<le> address \<and> address < 0x60 then truncated w (sio_read dev 1 w (address - 0x50) s)
      else if in_word 0x820 address then picked w address (mdec_read_data dev s)
      else if in_word 0x824 address then picked w address (mdec_read_stat dev s)
      else if 0xC00 \<le> address \<and> address < 0x1000 then
        truncated w (spu_read dev w address (add_cycles cycles (read_time w (m_spu_config (bus s))) s))
      else Inr (0, s))"

section \<open>Memory accesses\<close>

definition guest_load :: "'h host_os \<Rightarrow> width \<Rightarrow> u32 \<Rightarrow> ('c, 'h, 'm) psx_scheme \<Rightarrow> (u32 \<times> ('c, 'h, 'm) psx_scheme) result" where
  "guest_load os w a s =
     bindE (load_bytes os (size_of w) a (host (m_mapper (bus s)))) (\<lambda>v. Inr (truncate w v, s))"

definition guest_store :: "'h host_os \<Rightarrow> width \<Rightarrow> u32 \<Rightarrow> u32 \<Rightarrow> ('c, 'h, 'm) psx_scheme \<Rightarrow> ('c, 'h, 'm) psx_scheme result" where
  "guest_store os w a v s =
     bindE (store_bytes os (size_of w) a v (host (m_mapper (bus s)))) (\<lambda>h.
       Inr (set_bus (\<lambda>b. b\<lparr>m_mapper := (m_mapper b)\<lparr>host := h\<rparr>\<rparr>) s))"

definition system_read ::
  "'h host_os \<Rightarrow> ('c, 'h, 'm) psx_scheme device_ops \<Rightarrow> width \<Rightarrow> bool \<Rightarrow> bool \<Rightarrow> u32 \<Rightarrow>
    ('c, 'h, 'm) psx_scheme \<Rightarrow> (u32 \<times> ('c, 'h, 'm) psx_scheme) result" where
  "system_read os dev w except cycles a s =
     (let b = bus s in
      if misaligned w a then Inr (0, bus_exception except Ex_ADEL (Some a) s)
      else if between 0x20000000 0x80000000 a then Inr (0, bus_exception except Ex_DBE None s)
      else if a \<ge> 0xC0000000 then Inl DebugBreak
      else if curr_mode s \<and> memory_segment a \<noteq> 0 then Inr (0, bus_exception except Ex_ADEL (Some a) s)
      else if between_physical 0 (m_ram_end b) a then guest_load os w a (add_cycles cycles RAM_DELAY s)
      else if in_region (m_bios_config b) a then
        guest_load os w a (add_cycles cycles (read_time w (m_bios_config b)) s)
      else if between_physical 0x1F801000 0x1F802000 a then
        (if \<not> LOCKED (a AND 0xFFF) then read_io dev w cycles a s
         else Inr (0, bus_exception except Ex_IBE None s))
      else if between_physical 0x1F800000 0x1F801000 a then
        (if memory_segment a = 5 then Inr (0, bus_exception except Ex_DBE None s)
         else guest_load os w a s)
      else if m_exp2_enable b \<and> in_region (m_exp2_config b) a then
        Inr (0, add_cycles cycles (read_time w (m_exp2_config b)) s)
      else if in_region (m_exp1_config b) a then Inr (0, add_cycles cycles (read_time w (m_exp1_config b)) s)
      else if in_region (m_exp3_config b) a then Inr (0, add_cycles cycles (read_time w (m_exp3_config b)) s)
      else Inr (0, bus_exception except Ex_DBE None s))"

definition system_write ::
  "'h host_os \<Rightarrow> ('c, 'h, 'm) psx_scheme device_ops \<Rightarrow> width \<Rightarrow> bool \<Rightarrow> bool \<Rightarrow> u32 \<Rightarrow> u32 \<Rightarrow>
    ('c, 'h, 'm) psx_scheme \<Rightarrow> ('c, 'h, 'm) psx_scheme result" where
  "system_write os dev w except cycles a value s =
     (let b = bus s in
      if misaligned w a then Inr (bus_exception except Ex_ADES (Some a) s)
      else if between 0x20000000 0x80000000 a then Inr (bus_exception except Ex_DBE None s)
      else if a = 0xFFFE0130 then Inr (set_bus (write_cache_control os value) s)
      else if curr_mode s \<and> memory_segment a \<noteq> 0 then Inr (bus_exception except Ex_ADES (Some a) s)
      else if between_physical 0 (m_ram_end b) a then guest_store os w a value s
      else if between_physical 0x1F801000 0x1F802000 a then
        (if \<not> LOCKED (a AND 0xFFF) then write_io os dev w cycles a value s
         else Inr (bus_exception except Ex_DBE None s))
      else if between_physical 0x1F800000 0x1F801000 a then
        (if memory_segment a = 5 then Inr (bus_exception except Ex_DBE None s)
         else guest_store os w a value s)
      else if m_exp2_enable b \<and> in_region (m_exp2_config b) a \<or> in_region (m_exp1_config b) a \<or>
        in_region (m_exp3_config b) a \<or> in_region (m_bios_config b) a then Inr s
      else Inr (bus_exception except Ex_DBE None s))"

definition system_cache_enabled :: "('c, 'h, 'm) psx_scheme \<Rightarrow> bool" where
  "system_cache_enabled s = cache_en (m_cache_control (bus s))"

end
