(* ===== verification/Machine.thy ===== *)
theory Machine
  imports CpuSpec BusIO
begin

text \<open>
  The processor on the system bus. The contract of the devices behind the I/O ports is a
  locale; with it the bus meets the contract the processor relies on, and the processor's
  theorems hold of the machine.
\<close>

section \<open>The bus as the processor sees it\<close>

definition machine_bus ::
  "'h host_os \<Rightarrow> ('c, 'h, 'm) psx_scheme device_ops \<Rightarrow>
    (u32 \<Rightarrow> ('c, 'h, 'm) psx_scheme \<Rightarrow> (bool \<times> ('c, 'h, 'm) psx_scheme) result) \<Rightarrow>
    (u32 \<Rightarrow> bool \<Rightarrow> ('c, 'h, 'm) psx_scheme \<Rightarrow> (bool \<times> ('c, 'h, 'm) psx_scheme) result) \<Rightarrow>
    ('c, 'h, 'm) psx_scheme bus_ops" where
  "machine_bus os dev und hle =
     \<lparr>bus_read = system_read os dev, bus_write = system_write os dev,
      cache_enabled = system_cache_enabled, undefined_instruction = und, hle_bios_handler = hle\<rparr>"

lemma machine_bus_simps [simp]:
  "bus_read (machine_bus os dev und hle) = system_read os dev"
  "bus_write (machine_bus os dev und hle) = system_write os dev"
  "cache_enabled (machine_bus os dev und hle) = system_cache_enabled"
  "undefined_instruction (machine_bus os dev und hle) = und"
  "hle_bios_handler (machine_bus os dev und hle) = hle"
  by (simp_all add: machine_bus_def)

section \<open>Accesses leave the processor alone\<close>

named_theorems keeps_cpu \<open>updates outside the processor's own state\<close>

lemma same_cpu_bus [keeps_cpu]:
  "same_cpu s (set_bus f s)" "same_cpu s (add_cycles c n s)" "same_cpu s (bus_exception e code bad s)"
  "same_cpu s (s\<lparr>interrupt_request := r\<rparr>)" "same_cpu s (s\<lparr>interrupt_mask := r\<rparr>)"
  by (simp_all add: same_cpu_def set_bus_def add_cycles_def bus_exception_def flag_exception_def Let_def
      split: option.split)

lemma same_cpu_after:
  "same_cpu s t \<Longrightarrow> ensures F (same_cpu t) m \<Longrightarrow> ensures F (same_cpu s) m"
  "same_cpu s t \<Longrightarrow> ensures F (\<lambda>(v, s'). same_cpu t s') n \<Longrightarrow> ensures F (\<lambda>(v, s'). same_cpu s s') n"
  by (auto elim!: ensures_mono intro: same_cpu_trans)

lemma ensures_Inr:
  "same_cpu s s' \<Longrightarrow> ensures F (same_cpu s) (Inr s')"
  "same_cpu s s' \<Longrightarrow> ensures F (\<lambda>(v, s'). same_cpu s s') (Inr (v, s'))"
  by simp_all

lemma ensures_break: "ensures (insert DebugBreak F) P (Inl DebugBreak)"
  by simp

lemma ensures_picked:
  "ensures F (\<lambda>(v, s'). P s') m \<Longrightarrow> ensures F (\<lambda>(v, s'). P s') (picked w a m)"
  "ensures F (\<lambda>(v, s'). P s') m \<Longrightarrow> ensures F (\<lambda>(v, s'). P s') (truncated w m)"
  by (auto simp: picked_def truncated_def intro!: ensures_bind[of F "\<lambda>(v, s'). P s'"])

locale io_devices =
  fixes os :: "'h host_os" and dev :: "('c, 'h, 'm) psx_scheme device_ops" and F :: "fault set"
  assumes load_faults: "ensures F (\<lambda>v. True) (load_bytes os n a h)"
    and store_faults: "ensures F (\<lambda>h. True) (store_bytes os n a v h)"
    and timers:
      "ensures F (\<lambda>(v, s'). same_cpu s s') (timer_read dev k a s)"
      "ensures F (same_cpu s) (timer_write dev k a v s)"
    and dma:
      "ensures F (\<lambda>(v, s'). same_cpu s s') (dma_read dev a s)"
      "ensures F (same_cpu s) (dma_write dev a v msk s)"
    and gpu:
      "ensures F (\<lambda>(v, s'). same_cpu s s') (gpu_read_data dev s)"
      "ensures F (\<lambda>(v, s'). same_cpu s s') (gpu_read_stat dev s)"
      "ensures F (same_cpu s) (gpu_write_gp0 dev v s)" "ensures F (same_cpu s) (gpu_write_gp1 dev v s)"
    and cdrom:
      "ensures F (\<lambda>(v, s'). same_cpu s s') (cdrom_read dev w a s)"
      "ensures F (same_cpu s) (cdrom_write dev w a v s)"
    and sio:
      "ensures F (\<lambda>(v, s'). same_cpu s s') (sio_read dev k w a s)"
      "ensures F (same_cpu s) (sio_write dev k w a v s)"
    and mdec:
      "ensures F (\<lambda>(v, s'). same_cpu s s') (mdec_read_data dev s)"
      "ensures F (\<lambda>(v, s'). same_cpu s s') (mdec_read_stat dev s)"
      "ensures F (same_cpu s) (mdec_write_command dev v s)"
      "ensures F (same_cpu s) (mdec_write_control dev v s)"
    and spu:
      "ensures F (\<lambda>(v, s'). same_cpu s s') (spu_read dev w a s)"
      "ensures F (same_cpu s) (spu_write dev w a v s)"
begin

lemma guest_access:
  "ensures F (\<lambda>(v, s'). same_cpu s s') (guest_load os w a s)"
  "ensures F (same_cpu s) (guest_store os w a v s)"
  unfolding guest_load_def guest_store_def
  by (rule ensures_bind[OF load_faults], simp) (rule ensures_bind[OF store_faults], simp add: keeps_cpu)

lemmas after_cycles =
  cdrom(1)[THEN same_cpu_after(2)[OF same_cpu_bus(2)]] spu(1)[THEN same_cpu_after(2)[OF same_cpu_bus(2)]]
  cdrom(2)[THEN same_cpu_after(1)[OF same_cpu_bus(2)]] spu(2)[THEN same_cpu_after(1)[OF same_cpu_bus(2)]]
  guest_access(1)[THEN same_cpu_after(2)[OF same_cpu_bus(2)]]

lemma write_io_keeps: "ensures F (same_cpu s) (write_io os dev w cycles a v s)"
  unfolding write_io_def Let_def
  by (intro ensures_if ensures_Inr timers dma gpu sio mdec after_cycles keeps_cpu same_cpu_refl)

lemma read_io_keeps: "ensures F (\<lambda>(v, s'). same_cpu s s') (read_io dev w cycles a s)"
  unfolding read_io_def Let_def
  by (intro ensures_if ensures_Inr ensures_picked timers dma gpu sio mdec after_cycles same_cpu_refl)

lemma system_access:
  "ensures (insert DebugBreak F) (\<lambda>(v, s'). same_cpu s s') (system_read os dev w except cycles a s)"
  "ensures (insert DebugBreak F) (same_cpu s) (system_write os dev w except cycles a v s)"
  unfolding system_read_def system_write_def Let_def
  by (intro ensures_if ensures_Inr ensures_break keeps_cpu same_cpu_refl
      after_cycles[THEN ensures_insert] guest_access[THEN ensures_insert]
      read_io_keeps[THEN ensures_insert] write_io_keeps[THEN ensures_insert])+

end

locale psx_machine = io_devices os dev F
  for os :: "'h host_os" and dev :: "('c, 'h, 'm) psx_scheme device_ops" and F +
  fixes und :: "u32 \<Rightarrow> ('c, 'h, 'm) psx_scheme \<Rightarrow> (bool \<times> ('c, 'h, 'm) psx_scheme) result"
    and hle :: "u32 \<Rightarrow> bool \<Rightarrow> ('c, 'h, 'm) psx_scheme \<Rightarrow> (bool \<times> ('c, 'h, 'm) psx_scheme) result"
  assumes und_keeps: "cpu_ok s \<Longrightarrow> ensures F (\<lambda>(h, s'). cpu_ok s') (und i s)"
    and hle_keeps:
      "cpu_ok s \<Longrightarrow>
       ensures F (\<lambda>(h, s'). cpu_ok s' \<and> m_syscall_frames s' = m_syscall_frames s) (hle a e s)"

sublocale psx_machine \<subseteq> machine: cpu_machine "machine_bus os dev und hle" "insert DebugBreak F"
  by unfold_locales (auto simp: system_access intro!: ensures_insert und_keeps hle_keeps)

section \<open>Running from main memory\<close>

text \<open>\<open>ram_word os s a v\<close>: a word access at \<open>a\<close> is a legal access to main memory and finds \<open>v\<close> there.\<close>

definition ram_word :: "'h host_os \<Rightarrow> ('c, 'h, 'm) psx_scheme \<Rightarrow> u32 \<Rightarrow> u32 \<Rightarrow> bool" where
  "ram_word os s a v \<longleftrightarrow> a AND 3 = 0 \<and> (a < 0x20000000 \<or> 0x80000000 \<le> a \<and> a < 0xC0000000) \<and>
     (curr_mode s \<longrightarrow> memory_segment a = 0) \<and> physical_address a < m_ram_end (bus s) \<and>
     load_bytes os 4 a (host (m_mapper (bus s))) = Inr v"

text \<open>\<open>quiet s\<close>: nothing is pending, so the next instruction starts from the registers as they are.\<close>

definition quiet :: "('c, 'm) cpu_scheme \<Rightarrow> bool" where
  "quiet s \<longleftrightarrow> \<not> exception s \<and> \<not> check_interrupts s \<and> dest (curr_delay s) = InvalidReg \<and>
     dest (next_delay s) = InvalidReg \<and> dest (reg_writeback s) = InvalidReg \<and> \<not> branch_delay s \<and>
     \<not> branch_taken s \<and> rreg 0 s = 0"

lemma ram_read:
  assumes "ram_word os s a v"
  shows "system_read os dev W32 e c a s = Inr (v, add_cycles c RAM_DELAY s)"
proof -
  have "\<not> misaligned W32 a" "\<not> between 0x20000000 0x80000000 a" "\<not> 0xC0000000 \<le> a"
    using assms by (auto simp: ram_word_def misaligned_def between_def word_le_nat_alt word_less_nat_alt)
  moreover have "truncate W32 v = v"
    by (rule bit_word_eqI) (auto simp: truncate_def bit_simps)
  moreover have "\<not> (curr_mode s \<and> memory_segment a \<noteq> 0)" "between_physical 0 (m_ram_end (bus s)) a"
    "load_bytes os 4 a (host (m_mapper (bus s))) = Inr v"
    using assms by (simp_all add: ram_word_def between_physical_def)
  moreover have "bus (add_cycles c RAM_DELAY s) = bus s" by (simp add: add_cycles_def)
  ultimately show ?thesis by (simp only: system_read_def Let_def guest_load_def if_True if_False
        size_of.simps bindE_simps)
qed

definition fetch_cycles :: "('c, 'h, 'm) psx_scheme \<Rightarrow> bool" where
  "fetch_cycles s \<longleftrightarrow> \<not> has_icache (pc s) \<or> \<not> system_cache_enabled s"

lemma step_from_ram:
  assumes "ram_word os s (pc s) i" "\<not> exception s" "\<not> check_interrupts s"
  shows "step_instruction (machine_bus os dev und hle) s =
    bindE (interpret_mips (machine_bus os dev und hle) i (add_cycles (fetch_cycles s) RAM_DELAY s)) (\<lambda>t.
      bindE (retire (machine_bus os dev und hle) (branch_delay s) (branch_taken s)
        (t\<lparr>m_curr_cycles := m_curr_cycles t + 1\<rparr>)) (\<lambda>t. Inr (wreg 0 0 t)))"
proof -
  have "check_alignment s = s" using assms(1) by (simp add: check_alignment_def ram_word_def)
  moreover have "fetch (machine_bus os dev und hle) s =
      Inr (i, add_cycles (fetch_cycles s) RAM_DELAY s)"
    using assms(1) by (simp add: fetch_def ram_read fetch_cycles_def)
  moreover have "\<not> exception (add_cycles (fetch_cycles s) RAM_DELAY s)"
    using assms(2) by (simp add: add_cycles_def)
  ultimately show ?thesis
    using assms(3) by (simp add: step_instruction_def take_interrupt_def)
qed

lemma interpret_lw:
  assumes "fst (snd (decode i)) = Op_LW"
  shows "interpret_mips mem i s = load mem Op_LW i s"
proof -
  obtain ty sub where d: "decode i = (ty, Op_LW, sub)" using assms by (cases "decode i") auto
  from decode_pair[OF d] show ?thesis by (cases sub) (simp_all add: interpret_mips_def get_handler_def d)
qed

lemma interpret_addu:
  assumes "fst (snd (decode i)) = Op_ADDU"
  shows "interpret_mips mem i s = alu_reg Op_ADDU i s"
proof -
  obtain ty sub where d: "decode i = (ty, Op_ADDU, sub)" using assms by (cases "decode i") auto
  from decode_pair[OF d] show ?thesis by (cases sub) (simp_all add: interpret_mips_def get_handler_def d)
qed

lemma interpret_beq:
  assumes "fst (snd (decode i)) = Op_BEQ"
  shows "interpret_mips mem i s = branch Op_BEQ i s"
proof -
  obtain ty sub where d: "decode i = (ty, Op_BEQ, sub)" using assms by (cases "decode i") auto
  from decode_pair[OF d] show ?thesis by (cases sub) (simp_all add: interpret_mips_def get_handler_def d)
qed

text \<open>What two instructions of register arithmetic and loads leave unchanged.\<close>

definition same_world :: "('c, 'h, 'm) psx_scheme \<Rightarrow> ('c, 'h, 'm) psx_scheme \<Rightarrow> bool" where
  "same_world s t \<longleftrightarrow> bus t = bus s \<and> curr_mode t = curr_mode s \<and> cop0 t = cop0 s \<and>
     interrupt_mask t = interrupt_mask s \<and> interrupt_request t = interrupt_request s \<and>
     exception t = exception s \<and> length (regs t) = length (regs s) \<and>
     m_syscall_frames t = m_syscall_frames s"

lemma same_world_facts:
  assumes "same_world s t"
  shows "ram_word os t a v = ram_word os s a v" "check_interrupts t = check_interrupts s"
  using assms by (simp_all add: same_world_def ram_word_def check_interrupts_def)

lemma retire_plain:
  assumes "\<not> exception t"
  shows "retire mem False False t =
    Inr ((update_reg_writeback (update_load_delay t))\<lparr>pc := pc (update_reg_writeback (update_load_delay t)) + 4\<rparr>)"
  using assms by (simp add: retire_def Let_def)

lemma lw_step:
  assumes "length (regs s) = 33" "quiet s" "ram_word os s (pc s) i" "fst (snd (decode i)) = Op_LW" "fld_rt i \<noteq> 0"
    and "ram_word os s (rreg (fld_rs i) s + sx16 (fld_imm i)) v"
  obtains s1 where "step_instruction (machine_bus os dev und hle) s = Inr s1" "same_world s s1"
    "\<And>r. r < 32 \<Longrightarrow> rreg r s1 = rreg r s" "pc s1 = pc s + 4"
    "curr_delay s1 = \<lparr>dest = fld_rt i, pvalue = v\<rparr>" "dest (next_delay s1) = InvalidReg"
    "dest (reg_writeback s1) = InvalidReg" "\<not> branch_delay s1" "\<not> branch_taken s1"
proof -
  define u where "u = add_cycles (fetch_cycles s) RAM_DELAY s"
  have u: "same_cpu s u" "bus u = bus s" "exception u = exception s" "interrupt_mask u = interrupt_mask s"
     "interrupt_request u = interrupt_request s" "rreg r u = rreg r s" for r
    by (simp_all add: u_def add_cycles_def same_cpu_def rreg_def)
  have r: "ram_word os u (rreg (fld_rs i) s + sx16 (fld_imm i)) v"
    using assms(6) u by (simp add: ram_word_def same_cpu_def)
  have q: "\<not> exception s" "\<not> check_interrupts s" using assms(2) by (simp_all add: quiet_def)
  have l: "load (machine_bus os dev und hle) Op_LW i u =
      Inr (add_load_delay v (fld_rt i) (add_cycles True RAM_DELAY u))"
    using ram_read[OF r] assms(2,5) u
    by (simp add: load_def finish_load_def Let_def quiet_def add_cycles_def same_cpu_def InvalidReg_def)
       (metis fld_less(2) order_less_irrefl)
  let ?w = "add_load_delay v (fld_rt i) (add_cycles True RAM_DELAY u)"
  let ?t = "?w\<lparr>m_curr_cycles := m_curr_cycles ?w + 1\<rparr>"
  have ex: "\<not> exception ?t" using q u by (simp add: add_load_delay_def add_cycles_def)
  have eq: "step_instruction (machine_bus os dev und hle) s = Inr (wreg 0 0
      ((update_reg_writeback (update_load_delay ?t))\<lparr>pc := pc (update_reg_writeback (update_load_delay ?t)) + 4\<rparr>))"
    using assms(2) ex unfolding step_from_ram[OF assms(3) q] u_def[symmetric] interpret_lw[OF assms(4)] l
    by (simp add: retire_plain quiet_def)
  note d = update_reg_writeback_def update_load_delay_def add_load_delay_def add_cycles_def wreg_def
    Let_def same_world_def rreg_def quiet_def InvalidReg_def same_cpu_def
  show thesis
    by (rule that[OF eq]) (use assms(1,2) u in \<open>auto simp: d nth_list_update\<close>)
qed

lemma addu_step:
  assumes "length (regs s) = 33" "\<not> exception s" "\<not> check_interrupts s" "rreg 0 s = 0"
    and "\<not> branch_delay s" "\<not> branch_taken s" "dest (curr_delay s) \<le> 32"
    and "ram_word os s (pc s) i" "fst (snd (decode i)) = Op_ADDU" "fld_rd i \<noteq> 0"
  obtains s1 where "step_instruction (machine_bus os dev und hle) s = Inr s1" "same_world s s1"
    "\<And>r. 0 < r \<Longrightarrow> r < 32 \<Longrightarrow> rreg r s1 =
      (if r = fld_rd i then rreg (fld_rs i) s + rreg (fld_rt i) s
       else if r = dest (curr_delay s) then pvalue (curr_delay s) else rreg r s)"
    "pc s1 = pc s + 4"
proof -
  define u where "u = add_cycles (fetch_cycles s) RAM_DELAY s"
  have u: "same_cpu s u" "bus u = bus s" "exception u = exception s" "interrupt_mask u = interrupt_mask s"
     "interrupt_request u = interrupt_request s" "rreg r u = rreg r s" for r
    by (simp_all add: u_def add_cycles_def same_cpu_def rreg_def)
  let ?w = "add_writeback (rreg (fld_rs i) u + rreg (fld_rt i) u) (fld_rd i) u"
  let ?t = "?w\<lparr>m_curr_cycles := m_curr_cycles ?w + 1\<rparr>"
  have ex: "\<not> exception ?t" using assms(2) u by (simp add: add_writeback_def)
  have eq: "step_instruction (machine_bus os dev und hle) s = Inr (wreg 0 0
      ((update_reg_writeback (update_load_delay ?t))\<lparr>pc := pc (update_reg_writeback (update_load_delay ?t)) + 4\<rparr>))"
    using assms(5,6) ex unfolding step_from_ram[OF assms(8,2,3)] u_def[symmetric] interpret_addu[OF assms(9)]
    by (simp add: alu_reg_def retire_plain)
  note d = update_reg_writeback_def update_load_delay_def add_writeback_def wreg_def
    Let_def same_world_def rreg_def InvalidReg_def same_cpu_def
  show thesis
    by (rule that[OF eq]) (use assms u in \<open>auto simp: d nth_list_update\<close>)
qed

lemma hle_bios_elsewhere:
  assumes "frames_ok (m_syscall_frames s)" "m_stacktop (m_syscall_frames s) = 1"
    "a AND 0x1FFFFFFF \<notin> {0xA0, 0xB0, 0xC0}"
  shows "hle_bios mem a s = Inr (True, s)"
proof -
  have "stack_top (m_syscall_frames s) = Inr (m_thestack (m_syscall_frames s) ! 0)"
    using stack_top_frame[OF assms(1)] assms(2) by simp
  moreover have "a AND 0x1FFFFFFF \<le> 0x1FFFFFFF" by (rule word_and_le1)
  then have "exitpoint (m_thestack (m_syscall_frames s) ! 0) \<noteq> a AND 0x1FFFFFFF"
    using assms(1) by (auto simp: frames_ok_def)
  ultimately show ?thesis using assms(3) by (simp add: hle_bios_def Let_def)
qed

lemma beq_step:
  assumes "length (regs s) = 33" "quiet s" "ram_word os s (pc s) i" "fst (snd (decode i)) = Op_BEQ"
    and "rreg (fld_rs i) s = rreg (fld_rt i) s"
  obtains s1 where "step_instruction (machine_bus os dev und hle) s = Inr s1" "same_world s s1"
    "\<And>r. r < 32 \<Longrightarrow> rreg r s1 = rreg r s" "pc s1 = pc s + 4" "dest (curr_delay s1) = InvalidReg"
    "branch_delay s1" "branch_taken s1" "branch_dest s1 = pc s + 4 + sx16 (fld_imm i) * 4"
proof -
  define u where "u = add_cycles (fetch_cycles s) RAM_DELAY s"
  have u: "same_cpu s u" "bus u = bus s" "exception u = exception s" "interrupt_mask u = interrupt_mask s"
     "interrupt_request u = interrupt_request s" "rreg r u = rreg r s" for r
    by (simp_all add: u_def add_cycles_def same_cpu_def rreg_def)
  have q: "\<not> exception s" "\<not> check_interrupts s" using assms(2) by (simp_all add: quiet_def)
  let ?w = "status_jump (pc u + 4 + sx16 (fld_imm i) * 4) (u\<lparr>branch_delay := True\<rparr>)"
  let ?t = "?w\<lparr>m_curr_cycles := m_curr_cycles ?w + 1\<rparr>"
  have b: "branch Op_BEQ i u = Inr ?w"
    using u assms(5) by (simp add: branch_def Let_def rreg_def)
  have ex: "\<not> exception ?t" using q u by (simp add: status_jump_def)
  have eq: "step_instruction (machine_bus os dev und hle) s = Inr (wreg 0 0
      ((update_reg_writeback (update_load_delay ?t))\<lparr>pc := pc (update_reg_writeback (update_load_delay ?t)) + 4\<rparr>))"
    using assms(2) ex unfolding step_from_ram[OF assms(3) q] u_def[symmetric] interpret_beq[OF assms(4)] b
    by (simp add: retire_plain quiet_def)
  note d = update_reg_writeback_def update_load_delay_def status_jump_def wreg_def
    Let_def same_world_def rreg_def quiet_def InvalidReg_def same_cpu_def
  show thesis
    by (rule that[OF eq]) (use assms(1,2) u in \<open>auto simp: d nth_list_update\<close>)
qed

lemma addu_in_slot:
  assumes "length (regs s) = 33" "\<not> exception s" "\<not> check_interrupts s"
    and "branch_delay s" "branch_taken s" "dest (curr_delay s) = InvalidReg"
    and "ram_word os s (pc s) i" "fst (snd (decode i)) = Op_ADDU" "fld_rd i \<noteq> 0"
    and "frames_ok (m_syscall_frames s)" "m_stacktop (m_syscall_frames s) = 1"
    and "branch_dest s AND 0x1FFFFFFF \<notin> {0xA0, 0xB0, 0xC0}"
  obtains s1 where "step_instruction (machine_bus os dev und hle) s = Inr s1"
    "\<And>r. 0 < r \<Longrightarrow> r < 32 \<Longrightarrow> rreg r s1 =
      (if r = fld_rd i then rreg (fld_rs i) s + rreg (fld_rt i) s else rreg r s)"
    "pc s1 = branch_dest s" "\<not> branch_delay s1" "\<not> branch_taken s1"
proof -
  define u where "u = add_cycles (fetch_cycles s) RAM_DELAY s"
  have u: "same_cpu s u" "exception u = exception s" "rreg r u = rreg r s" for r
    by (simp_all add: u_def add_cycles_def same_cpu_def rreg_def)
  let ?w = "add_writeback (rreg (fld_rs i) u + rreg (fld_rt i) u) (fld_rd i) u"
  let ?t = "update_reg_writeback (update_load_delay (clear_branch (?w\<lparr>m_curr_cycles := m_curr_cycles ?w + 1\<rparr>)))"
  note d = update_reg_writeback_def update_load_delay_def add_writeback_def wreg_def
    Let_def same_world_def rreg_def InvalidReg_def same_cpu_def clear_branch_def
  have "m_syscall_frames ?t = m_syscall_frames s" and bd: "branch_dest ?t = branch_dest s"
    using u by (simp_all add: d)
  then have hb: "hle_bios (machine_bus os dev und hle) (branch_dest ?t) ?t = Inr (True, ?t)"
    using assms(10-12) by (intro hle_bios_elsewhere) simp_all
  have ex: "\<not> exception (?w\<lparr>m_curr_cycles := m_curr_cycles ?w + 1\<rparr>)"
    using assms(2) u by (simp add: add_writeback_def)
  have eq: "step_instruction (machine_bus os dev und hle) s = Inr (wreg 0 0 (?t\<lparr>pc := branch_dest ?t\<rparr>))"
    using assms(4,5) ex hb
    unfolding step_from_ram[OF assms(7,2,3)] u_def[symmetric] interpret_addu[OF assms(8)]
    by (simp add: alu_reg_def retire_def Let_def)
  show thesis
    by (rule that[OF eq]) (use assms bd u in \<open>auto simp: d nth_list_update\<close>)
qed

section \<open>Delay slots\<close>



section \<open>A machine at reset\<close>

text \<open>A host whose memory is a function from word addresses, with every view granted.\<close>

definition memory_os :: "(u32 \<Rightarrow> u32) host_os" where
  "memory_os = \<lparr>split_placeholder = (\<lambda>_ _ h. (True, h)), coalesce_placeholders = (\<lambda>_ _ h. (True, h)),
     map_view = (\<lambda>_ _ _ _ h. (True, h)), unmap_view = (\<lambda>_ h. (True, h)),
     load_bytes = (\<lambda>_ a h. Inr (h (a AND 0x1FFFFFFF))),
     store_bytes = (\<lambda>_ a v h. Inr (h(a AND 0x1FFFFFFF := v)))\<rparr>"

text \<open>The machine with 2 MB of memory holding \<open>h\<close>, the processor as constructed.\<close>

definition memory_bus :: "'h \<Rightarrow> 'h bus_regs" where
  "memory_bus h =
     \<lparr>m_mapper = mapper_init 4096 h, m_curr_ram_sz = 4, m_ram_end = 0x200000, m_ram_config = RAM_SIZE_INIT,
      m_cache_control = 0, m_bios_config = init_config 0x1FC00000 BIOS_CONFIG_INIT,
      m_exp1_config = init_config 0x1F000000 EXP1_CONFIG_INIT,
      m_exp2_config = init_config PSX_EXPANSION2_OFFSET EXP2_CONFIG_INIT,
      m_exp3_config = init_config 0x1FA00000 EXP3_CONFIG_INIT,
      m_spu_config = empty_config, m_cdrom_config = empty_config, m_exp2_enable = True,
      m_com_delays = 0, m_event_ignore_overflow_cycles = False\<rparr>"

definition machine_with :: "'h \<Rightarrow> ('c, 'h) psx" where
  "machine_with h = cpu.extend cpu_init (psx.fields (memory_bus h))"

lemma machine_with_fields [simp]:
  "pc (machine_with h) = 0" "rreg r (machine_with h) = replicate 33 0 ! r" "bus (machine_with h) = memory_bus h"
  "curr_mode (machine_with h) = False" "regs (machine_with h) = replicate 33 0"
  "m_stacktop (m_syscall_frames (machine_with h)) = 1"
  by (simp_all add: machine_with_def cpu.defs psx.defs cpu_init_def scheduler.defs rreg_def
      stack_push_def empty_frames_def stack_new_def MAX_SYSCALL_FRAMES_def)

lemma machine_with_ok: "cpu_ok (machine_with h)" "quiet (machine_with h)"
proof -
  show "quiet (machine_with h)"
    by (simp add: quiet_def) (simp add: machine_with_def cpu.defs psx.defs cpu_init_def scheduler.defs
        check_interrupts_def Let_def no_write_def cop0_init_def curr_int_enable_def bit_put_flag)
  show "cpu_ok (machine_with h)"
    by (simp add: cpu_ok_def frames_ok_def) (simp add: machine_with_def cpu.defs psx.defs cpu_init_def scheduler.defs
      no_write_def InvalidReg_def stack_push_def empty_frames_def stack_new_def MAX_SYSCALL_FRAMES_def fake_entry_def gte_ok_def gte_init_def)
qed

lemma machine_with_word:
  assumes "a AND 3 = 0" "a < 0x200000"
  shows "ram_word memory_os (machine_with h) a (h (a AND 0x1FFFFFFF))"
proof -
  have "a AND mask 29 \<le> a" by (rule word_and_le2)
  then have "physical_address a < 0x200000" unfolding physical_address_def using assms(2) by (rule le_less_trans)
  moreover have "a < 0x20000000" using assms(2) by (auto simp: word_less_nat_alt)
  ultimately show ?thesis
    using assms(1) by (simp add: ram_word_def memory_bus_def memory_os_def mapper_init_def)
qed

text \<open>Two short programs: \<open>lw $1, 0x100($0); addu $2, $1, $1\<close> and \<open>beq $0, $0, 8; addu $2, $0, $0\<close>.\<close>

definition load_program :: "u32 \<Rightarrow> u32" where
  "load_program a = (if a = 0 then 0x8C010100 else if a = 4 then 0x00211021 else if a = 0x100 then 7 else 0)"

definition branch_program :: "u32 \<Rightarrow> u32" where
  "branch_program a = (if a = 0 then 0x10000008 else if a = 4 then 0x00001021 else 0)"



end
