(* ===== verification/RootCounters.thy ===== *)
theory RootCounters
  imports Machine
begin

text \<open>
  The three root counters (\<open>RootCounters.cpp\<close>): registers, synchronisation with the blanking
  periods, interrupt requests, and the overflow and target events they keep in the scheduler.
\<close>

section \<open>State\<close>

text \<open>The callbacks the devices hand to the scheduler; the counters' ones carry the counter's index.\<close>

datatype (plugins only: code size) callback =
  Overflow_callback | Target_callback | Hblank_callback | Hblank_end_callback | Transfer_end_callback
  | Cd_event_callback | Cd_read_callback | Sample_callback | Fifo_transfer_callback

record counter =
  m_count_value :: u16
  m_count_target :: u16
  m_oneshot_flag :: bool
  m_count_partial :: u64
  m_dotclock_sel :: u16
  m_cycles_per_inc :: u16
  m_curr_event_id :: u64
  m_last_update_timestamp :: u64
  m_stopped :: bool
  m_mode :: u16
  m_hblank :: bool
  m_vblank :: bool

record 'h psx_timers = "(callback, 'h) psx" +
  m_counters :: "counter list"

definition m_sync_enable :: "u16 \<Rightarrow> bool" where "m_sync_enable w = bit w 0"
definition sync_mode :: "u16 \<Rightarrow> u16" where "sync_mode w = get_bits 1 2 w"
definition reset_on_target :: "u16 \<Rightarrow> bool" where "reset_on_target w = bit w 3"
definition irq_on_target :: "u16 \<Rightarrow> bool" where "irq_on_target w = bit w 4"
definition irq_on_ov :: "u16 \<Rightarrow> bool" where "irq_on_ov w = bit w 5"
definition irq_repeat :: "u16 \<Rightarrow> bool" where "irq_repeat w = bit w 6"
definition irq_toggle :: "u16 \<Rightarrow> bool" where "irq_toggle w = bit w 7"
definition clock_src :: "u16 \<Rightarrow> u16" where "clock_src w = get_bits 8 2 w"
definition irq_bit :: "u16 \<Rightarrow> bool" where "irq_bit w = bit w 10"
definition target_reached :: "u16 \<Rightarrow> bool" where "target_reached w = bit w 11"
definition ov_reached :: "u16 \<Rightarrow> bool" where "ov_reached w = bit w 12"

definition counter_at :: "nat \<Rightarrow> ('h, 'm) psx_timers_scheme \<Rightarrow> counter" where
  "counter_at k s = m_counters s ! k"

definition set_counter :: "nat \<Rightarrow> counter \<Rightarrow> ('h, 'm) psx_timers_scheme \<Rightarrow> ('h, 'm) psx_timers_scheme" where
  "set_counter k c s = s\<lparr>m_counters := (m_counters s)[k := c]\<rparr>"

definition DOT_CYCLES :: "u16 list" where "DOT_CYCLES = [6, 5, 4, 3, 2]"

definition CLOCKS_SCANLINE_NTSC :: u16 where "CLOCKS_SCANLINE_NTSC = 2171"

definition TIMER0_IRQ :: u32 where "TIMER0_IRQ = 0x10"

section \<open>Counting\<close>

definition dot_cycles :: "u16 \<Rightarrow> u16 result" where
  "dot_cycles sel =
     (if unat sel < length DOT_CYCLES then Inr (DOT_CYCLES ! unat sel) else Inl UndefinedBehaviour)"

definition compute_cycles_per_inc :: "nat \<Rightarrow> counter \<Rightarrow> u16 result" where
  "compute_cycles_per_inc k c =
     (let src = clock_src (m_mode c) in
      if k = 0 then (if src = 0 \<or> src = 2 then Inr 1 else dot_cycles (m_dotclock_sel c))
      else if k = 1 then Inr (if src = 0 \<or> src = 2 then 1 else CLOCKS_SCANLINE_NTSC)
      else if k = 2 then Inr (if src = 0 \<or> src = 1 then 1 else 8)
      else Inl Unreachable)"

definition update_counter :: "u64 \<Rightarrow> u64 \<Rightarrow> counter \<Rightarrow> counter result" where
  "update_counter now cycles c =
     (if m_stopped c then Inr c
      else if m_cycles_per_inc c = 0 then Inl UndefinedBehaviour
      else
        let partial = m_count_partial c + cycles;
            tot = partial div ucast (m_cycles_per_inc c);
            v = (ucast (ucast (m_count_value c) + tot) :: u16);
            v = (if reset_on_target (m_mode c) then min (m_count_target c) v else v)
        in Inr (c\<lparr>m_count_value := v, m_count_partial := partial mod ucast (m_cycles_per_inc c),
                  m_last_update_timestamp := now\<rparr>))"

definition sync_counter ::
  "nat \<Rightarrow> ('h, 'm) psx_timers_scheme \<Rightarrow> ('h, 'm) psx_timers_scheme result" where
  "sync_counter k s =
     (let c = counter_at k s; diff = m_curr_timestamp s - m_last_update_timestamp c
      in bindE (update_counter (m_curr_timestamp s) diff c) (\<lambda>c. Inr (set_counter k c s)))"

definition update_from_timestamp ::
  "nat \<Rightarrow> ('h, 'm) psx_timers_scheme \<Rightarrow> ('h, 'm) psx_timers_scheme result" where
  "update_from_timestamp k s = sync_counter k s"

definition cycles_till_overflow :: "counter \<Rightarrow> u64" where
  "cycles_till_overflow c = (0x10000 - ucast (m_count_value c)) * ucast (m_cycles_per_inc c)"

text \<open>Whether the target lies behind the count, and the cycles to it.\<close>

definition cycles_till_target :: "counter \<Rightarrow> bool \<times> u64" where
  "cycles_till_target c =
     (let target_diff = int (unat (m_count_target c)) - int (unat (m_count_value c)) in
      if target_diff < 0 then (True, 0)
      else (False, word_of_int target_diff * ucast (m_cycles_per_inc c)))"

definition cycles_till_irq :: "counter \<Rightarrow> u64" where
  "cycles_till_irq c =
     (let ov_diff = 0x10000 - ucast (m_count_value c);
          target_diff = int (unat (m_count_target c)) - int (unat (m_count_value c)) in
      if target_diff < 0 then ov_diff * ucast (m_cycles_per_inc c)
      else min (word_of_int target_diff) ov_diff * ucast (m_cycles_per_inc c))"

section \<open>Events\<close>

datatype irq_source = OV | TARGET

text \<open>Whether the source is enabled in the mode, with its reached flag set.\<close>

definition mark_reached :: "irq_source \<Rightarrow> u16 \<Rightarrow> u16" where
  "mark_reached src w = (case src of TARGET \<Rightarrow> put_flag 11 True w | OV \<Rightarrow> put_flag 12 True w)"

definition irq_enabled :: "irq_source \<Rightarrow> u16 \<Rightarrow> bool" where
  "irq_enabled src w = (case src of TARGET \<Rightarrow> irq_on_target w | OV \<Rightarrow> irq_on_ov w)"

definition fire_irq ::
  "irq_source \<Rightarrow> nat \<Rightarrow> ('h, 'm) psx_timers_scheme \<Rightarrow> ('h, 'm) psx_timers_scheme" where
  "fire_irq src k s =
     (let c = counter_at k s in
      if m_stopped c then s
      else
        let c = c\<lparr>m_mode := mark_reached src (m_mode c)\<rparr> in
        if \<not> irq_enabled src (m_mode c) then set_counter k c s
        else if \<not> irq_repeat (m_mode c) \<and> m_oneshot_flag c then set_counter k c s
        else
          let c = (if \<not> irq_repeat (m_mode c) then c\<lparr>m_oneshot_flag := True\<rparr> else c);
              c = c\<lparr>m_mode := put_flag 10 (if irq_toggle (m_mode c) then \<not> irq_bit (m_mode c) else False) (m_mode c)\<rparr>;
              s = set_counter k c s
          in if \<not> irq_bit (m_mode c) then raise_interrupt (push_bit k TIMER0_IRQ) s else s)"

definition schedule_counter ::
  "u64 \<Rightarrow> callback \<Rightarrow> nat \<Rightarrow> ('h, 'm) psx_timers_scheme \<Rightarrow> ('h, 'm) psx_timers_scheme" where
  "schedule_counter cycles cb k s =
     (let (i, s) = schedule cycles (Some cb) (of_nat k) s
      in set_counter k ((counter_at k s)\<lparr>m_curr_event_id := i\<rparr>) s)"

definition overflow_callback ::
  "nat \<Rightarrow> u64 \<Rightarrow> ('h, 'm) psx_timers_scheme \<Rightarrow> ('h, 'm) psx_timers_scheme" where
  "overflow_callback k cycles_late s =
     (let s = fire_irq OV k s;
          s = set_counter k ((counter_at k s)\<lparr>m_count_value := 0\<rparr>) s;
          c = counter_at k s;
          till_ov = cycles_till_overflow c - cycles_late;
          till_target = snd (cycles_till_target c) - cycles_late
      in if sint till_target < 0 \<or> till_ov \<le> till_target \<or> till_target = 0
         then
           let s = (if ucast (m_count_target c) * ucast (m_cycles_per_inc c) < cycles_late
                    then fire_irq TARGET k s else s)
           in schedule_counter till_ov Overflow_callback k s
         else schedule_counter till_target Target_callback k s)"

definition target_callback ::
  "nat \<Rightarrow> u64 \<Rightarrow> ('h, 'm) psx_timers_scheme \<Rightarrow> ('h, 'm) psx_timers_scheme" where
  "target_callback k cycles_late s =
     (let s = fire_irq TARGET k s;
          c = counter_at k s;
          v = (if reset_on_target (m_mode c) then 0 else m_count_target c + 1);
          s = set_counter k (c\<lparr>m_count_value := v\<rparr>) s;
          till_ov = cycles_till_overflow (counter_at k s) - cycles_late;
          (s, till_ov) =
            (if sint (ucast till_ov :: u32) < 0 then
               (let s = fire_irq OV k s; c = (counter_at k s)\<lparr>m_count_value := 0\<rparr>
                in (set_counter k c s, cycles_till_overflow c))
             else (s, till_ov));
          till_target = snd (cycles_till_target (counter_at k s)) - cycles_late
      in if sint till_target < 0 \<or> till_ov \<le> till_target \<or> till_target = 0
         then schedule_counter till_ov Overflow_callback k s
         else schedule_counter till_target Target_callback k s)"

text \<open>The synchronisation modes that hold counter \<open>k\<close> now.\<close>

definition sync_stops :: "nat \<Rightarrow> counter \<Rightarrow> bool" where
  "sync_stops k c \<longleftrightarrow> m_sync_enable (m_mode c) \<and>
     (let sm = sync_mode (m_mode c) in
      k = 2 \<and> (sm = 1 \<or> sm = 2) \<or>
      k = 0 \<and> (m_hblank c \<and> sm = 0 \<or> \<not> m_hblank c \<and> sm = 2) \<or>
      k = 1 \<and> (m_vblank c \<and> sm = 0 \<or> \<not> m_vblank c \<and> sm = 2))"

text \<open>Drop the pending event and schedule the nearest one.\<close>

definition reschedule :: "nat \<Rightarrow> ('h, 'm) psx_timers_scheme \<Rightarrow> ('h, 'm) psx_timers_scheme" where
  "reschedule k s =
     (let s = snd (deschedule (m_curr_event_id (counter_at k s)) s); c = counter_at k s in
      if sync_stops k c then set_counter k (c\<lparr>m_stopped := True\<rparr>) s
      else
        let c = c\<lparr>m_stopped := False\<rparr>;
            till_ov = cycles_till_overflow c;
            (neg, till_target) = cycles_till_target c
        in if m_count_target c = m_count_value c \<or> m_count_target c = 0
           then schedule_counter till_ov Overflow_callback k
                  (set_counter k (c\<lparr>m_mode := put_flag 11 True (m_mode c)\<rparr>) s)
           else if neg \<or> till_ov \<le> till_target
           then schedule_counter till_ov Overflow_callback k (set_counter k c s)
           else schedule_counter till_target Target_callback k (set_counter k c s))"

definition update_events ::
  "nat \<Rightarrow> ('h, 'm) psx_timers_scheme \<Rightarrow> ('h, 'm) psx_timers_scheme result" where
  "update_events k s =
     bindE (if m_curr_timestamp s - m_last_update_timestamp (counter_at k s) \<noteq> 0
            then sync_counter k s else Inr s) (\<lambda>s. Inr (reschedule k s))"

section \<open>Registers\<close>

definition counter_init :: "nat \<Rightarrow> counter" where
  "counter_init k =
     (let c = \<lparr>m_count_value = 0, m_count_target = 0, m_oneshot_flag = False, m_count_partial = 0,
               m_dotclock_sel = 0, m_cycles_per_inc = 0, m_curr_event_id = INVALID_EVENT,
               m_last_update_timestamp = 0, m_stopped = False, m_mode = 0, m_hblank = False, m_vblank = False\<rparr>
      in c\<lparr>m_cycles_per_inc := (case compute_cycles_per_inc k c of Inr n \<Rightarrow> n | Inl _ \<Rightarrow> 0)\<rparr>)"

definition set_dotclock ::
  "u16 \<Rightarrow> nat \<Rightarrow> ('h, 'm) psx_timers_scheme \<Rightarrow> ('h, 'm) psx_timers_scheme result" where
  "set_dotclock sel k s =
     (let c = (counter_at k s)\<lparr>m_dotclock_sel := sel\<rparr>; s = set_counter k c s; src = clock_src (m_mode c) in
      if k \<noteq> 0 \<or> src \<noteq> 1 \<and> src \<noteq> 3 then Inr s
      else bindE (dot_cycles sel) (\<lambda>n.
        update_events k (set_counter k (c\<lparr>m_cycles_per_inc := n, m_count_partial := 0\<rparr>) s)))"

definition counter_write ::
  "nat \<Rightarrow> u32 \<Rightarrow> u32 \<Rightarrow> ('h, 'm) psx_timers_scheme \<Rightarrow> ('h, 'm) psx_timers_scheme result" where
  "counter_write k address value s =
     (let c = counter_at k s; now = m_curr_timestamp s in
      if in_word 0 address then
        update_events k (set_counter k (c\<lparr>m_count_value := ucast value, m_last_update_timestamp := now\<rparr>) s)
      else if in_word 4 address then
        (let mode = put_flag 11 (target_reached (m_mode c)) (ucast value);
             mode = put_flag 12 (ov_reached (m_mode c)) mode;
             mode = put_flag 10 True mode;
             c = c\<lparr>m_count_value := 0, m_count_partial := 0, m_oneshot_flag := False, m_mode := mode,
                    m_last_update_timestamp := now\<rparr>
         in bindE (compute_cycles_per_inc k c) (\<lambda>n.
              update_events k (set_counter k (c\<lparr>m_cycles_per_inc := n\<rparr>) s)))
      else if in_word 8 address then
        update_events k (set_counter k (c\<lparr>m_count_target := ucast value\<rparr>) s)
      else Inr s)"

definition counter_read ::
  "nat \<Rightarrow> u32 \<Rightarrow> ('h, 'm) psx_timers_scheme \<Rightarrow> (u32 \<times> ('h, 'm) psx_timers_scheme) result" where
  "counter_read k address s =
     (let c = counter_at k s in
      if in_word 0 address then
        bindE (sync_counter k s) (\<lambda>s. Inr (ucast (m_count_value (counter_at k s)), s))
      else if in_word 4 address then
        Inr (ucast (m_mode c), set_counter k (c\<lparr>m_mode := put_flag 12 False (put_flag 11 False (m_mode c))\<rparr>) s)
      else if in_word 8 address then Inr (ucast (m_count_target c), s)
      else Inr (0, s))"

section \<open>Blanking\<close>

text \<open>The effect of a synchronisation mode when the blank starts and when it ends.\<close>

definition blank_start :: "counter \<Rightarrow> counter" where
  "blank_start c =
     (let sm = sync_mode (m_mode c) in
      if sm = 0 then c\<lparr>m_stopped := True\<rparr>
      else if sm = 1 then c\<lparr>m_count_value := 0\<rparr>
      else if sm = 2 then c\<lparr>m_stopped := False, m_count_value := 0\<rparr>
      else c\<lparr>m_stopped := False, m_mode := put_flag 0 False (m_mode c)\<rparr>)"

definition blank_end :: "counter \<Rightarrow> counter" where
  "blank_end c =
     (let sm = sync_mode (m_mode c) in
      if sm = 0 then c\<lparr>m_stopped := False\<rparr>
      else if sm = 2 then c\<lparr>m_stopped := True\<rparr>
      else c)"

definition on_blank ::
  "nat \<Rightarrow> (counter \<Rightarrow> counter) \<Rightarrow> (counter \<Rightarrow> counter) \<Rightarrow> nat \<Rightarrow>
    ('h, 'm) psx_timers_scheme \<Rightarrow> ('h, 'm) psx_timers_scheme result" where
  "on_blank own flag act k s =
     bindE (sync_counter k (set_counter k (flag (counter_at k s)) s)) (\<lambda>s.
       let c = counter_at k s in
       if k \<noteq> own \<or> \<not> m_sync_enable (m_mode c) then Inr s
       else update_events k (set_counter k (act c) s))"

definition counter_hblank :: "nat \<Rightarrow> ('h, 'm) psx_timers_scheme \<Rightarrow> ('h, 'm) psx_timers_scheme result" where
  "counter_hblank = on_blank 0 (m_hblank_update (\<lambda>_. True)) blank_start"

definition counter_hblank_end :: "nat \<Rightarrow> ('h, 'm) psx_timers_scheme \<Rightarrow> ('h, 'm) psx_timers_scheme result" where
  "counter_hblank_end = on_blank 0 (m_hblank_update (\<lambda>_. False)) blank_end"

definition counter_vblank :: "nat \<Rightarrow> ('h, 'm) psx_timers_scheme \<Rightarrow> ('h, 'm) psx_timers_scheme result" where
  "counter_vblank = on_blank 1 (m_vblank_update (\<lambda>_. True)) blank_start"

definition counter_vblank_end :: "nat \<Rightarrow> ('h, 'm) psx_timers_scheme \<Rightarrow> ('h, 'm) psx_timers_scheme result" where
  "counter_vblank_end = on_blank 1 (m_vblank_update (\<lambda>_. False)) blank_end"

end
