(* ===== verification/Dma.thy ===== *)
theory Dma
  imports RootCounters
begin

text \<open>
  The DMA controller and its channels (\<open>DmaController.cpp\<close>, \<open>DmaBase.cpp\<close>, \<open>OTDma.cpp\<close>,
  \<open>GpuDma.cpp\<close>, \<open>CDROMDma.cpp\<close>, \<open>SPUDma.cpp\<close>, \<open>MDECInDma.cpp\<close>, \<open>MDECOutDma.cpp\<close>). The
  channels are an array indexed by their number; channel 5 does not exist. What a channel
  calls outside (the bus, the sound unit's FIFO, the host's memory) is a record of functions.
\<close>

section \<open>State\<close>

definition transfer_dir :: "u32 \<Rightarrow> bool" where "transfer_dir w = bit w 0"
definition decrement :: "u32 \<Rightarrow> bool" where "decrement w = bit w 1"
definition chopping :: "u32 \<Rightarrow> bool" where "chopping w = bit w 8"
definition sync :: "u32 \<Rightarrow> u32" where "sync w = get_bits 9 2 w"
definition start_busy :: "u32 \<Rightarrow> bool" where "start_busy w = bit w 24"
definition force_start :: "u32 \<Rightarrow> bool" where "force_start w = bit w 28"

definition BURST :: u32 where "BURST = 0"
definition SLICE :: u32 where "SLICE = 1"
definition LINKED :: u32 where "LINKED = 2"

text \<open>The halves of a block control word.\<close>

definition blocksize :: "u32 \<Rightarrow> u32" where "blocksize w = get_bits 0 16 w"
definition block_count :: "u32 \<Rightarrow> u32" where "block_count w = get_bits 16 16 w"

record dma_channel =
  m_shadow_base_address :: u32
  m_shadow_block_control :: u32
  m_base_address :: u32
  m_block_control :: u32
  m_control :: u32
  m_words_rem :: u32
  m_blocks_rem :: u32
  m_next_block_add :: u32
  m_curr_address :: u32
  m_running :: bool
  m_transfer_active :: bool
  m_dreq :: bool

record transfer =
  dma_id :: nat
  dma_priority :: u32

record dma_controller =
  dpcr :: u32
  dicr :: u32
  m_channels :: "dma_channel list"
  m_active_dmas :: "transfer list"
  m_num_active :: nat
  m_enable_fast_dma :: bool
  m_use_simd :: bool

record 'h psx_dma = "'h psx_timers" +
  m_dma_controller :: dma_controller

record ('h, 's) dma_env =
  dma_bus :: "'s bus_ops"
  spu_dma_read :: "'s \<Rightarrow> (u32 \<times> 's) result"
  spu_dma_write :: "u32 \<Rightarrow> 's \<Rightarrow> 's result"
  dma_os :: "'h host_os"

definition channel :: "nat \<Rightarrow> ('h, 'm) psx_dma_scheme \<Rightarrow> dma_channel" where
  "channel k s = m_channels (m_dma_controller s) ! k"

definition upd_ctl :: "(dma_controller \<Rightarrow> dma_controller) \<Rightarrow> ('h, 'm) psx_dma_scheme \<Rightarrow> ('h, 'm) psx_dma_scheme" where
  "upd_ctl f s = s\<lparr>m_dma_controller := f (m_dma_controller s)\<rparr>"

definition upd_channel ::
  "nat \<Rightarrow> (dma_channel \<Rightarrow> dma_channel) \<Rightarrow> ('h, 'm) psx_dma_scheme \<Rightarrow> ('h, 'm) psx_dma_scheme" where
  "upd_channel k f s = upd_ctl (\<lambda>d. d\<lparr>m_channels := (m_channels d)[k := f (m_channels d ! k)]\<rparr>) s"

definition DPCR_INIT :: u32 where "DPCR_INIT = 0x07654321"
definition DMA_IRQ :: u32 where "DMA_IRQ = 8"

definition dma_channel_init :: dma_channel where
  "dma_channel_init = \<lparr>m_shadow_base_address = 0, m_shadow_block_control = 0, m_base_address = 0,
     m_block_control = 0, m_control = 0, m_words_rem = 0, m_blocks_rem = 0, m_next_block_add = 0,
     m_curr_address = 0, m_running = False, m_transfer_active = False, m_dreq = False\<rparr>"

text \<open>\<open>m_use_simd\<close> is not initialised by the constructor.\<close>

definition dma_init :: "bool \<Rightarrow> dma_controller" where
  "dma_init simd = \<lparr>dpcr = DPCR_INIT, dicr = 0,
     m_channels = (replicate 7 dma_channel_init)[6 := dma_channel_init\<lparr>m_control := put_flag 1 True 0\<rparr>],
     m_active_dmas = replicate 8 \<lparr>dma_id = 0, dma_priority = 0\<rparr>, m_num_active = 0,
     m_enable_fast_dma = False, m_use_simd = simd\<rparr>"

section \<open>The controller\<close>

definition interrupt_on_block :: "u32 \<Rightarrow> u32" where "interrupt_on_block w = get_bits 0 7 w"
definition bus_error :: "u32 \<Rightarrow> bool" where "bus_error w = bit w 15"
definition channel_int_enable :: "u32 \<Rightarrow> u32" where "channel_int_enable w = get_bits 16 7 w"
definition master_int_enable :: "u32 \<Rightarrow> bool" where "master_int_enable w = bit w 23"
definition channel_int_req :: "u32 \<Rightarrow> u32" where "channel_int_req w = get_bits 24 7 w"
definition master_irq :: "u32 \<Rightarrow> bool" where "master_irq w = bit w 31"

definition update_master_irq :: "u32 \<Rightarrow> u32" where
  "update_master_irq w =
     put_flag 31 (bus_error w \<or> master_int_enable w \<and> channel_int_req w AND channel_int_enable w \<noteq> 0) w"

definition write_dicr :: "u32 \<Rightarrow> u32 \<Rightarrow> u32" where
  "write_dicr value w =
     (let irq = channel_int_req w AND NOT (drop_bit 24 value AND 0x7F);
          v = put_bits 24 7 irq (put_flag 31 (master_irq w) value)
      in update_master_irq v)"

definition channel_enabled :: "nat \<Rightarrow> dma_controller \<Rightarrow> bool" where
  "channel_enabled k d \<longleftrightarrow> bit (dpcr d) (k * 4 + 3)"

text \<open>
  The loop that looks for the position of a new transfer, from the slot behind the last one
  down to slot 0.
\<close>

fun find_slot :: "nat \<Rightarrow> u32 \<Rightarrow> nat \<Rightarrow> transfer list \<Rightarrow> nat" where
  "find_slot k prio 0 ts = 0"
| "find_slot k prio (Suc p) ts =
     (let t = ts ! Suc p in
      if dma_priority t < prio then Suc p
      else if dma_priority t = prio \<and> dma_id t > k then Suc p
      else find_slot k prio p ts)"

definition shift_right_from :: "nat \<Rightarrow> 'a \<Rightarrow> 'a list \<Rightarrow> 'a list" where
  "shift_right_from p x ts = take p ts @ x # butlast (drop p ts)"

definition shift_left_one :: "'a list \<Rightarrow> 'a list" where
  "shift_left_one ts = tl ts @ [last ts]"

definition add_transfer :: "nat \<Rightarrow> dma_controller \<Rightarrow> dma_controller result" where
  "add_transfer k d =
     (if m_num_active d = 7 then Inl DebugBreak
      else if \<not> channel_enabled k d then Inr d
      else
        let prio = get_bits (4 * k) 3 (dpcr d);
            p = find_slot k prio (m_num_active d) (m_active_dmas d)
        in Inr (d\<lparr>m_active_dmas := shift_right_from p \<lparr>dma_id = k, dma_priority = prio\<rparr> (m_active_dmas d),
                  m_num_active := m_num_active d + 1\<rparr>))"

definition remove_transfer :: "dma_controller \<Rightarrow> dma_controller" where
  "remove_transfer d =
     (if m_num_active d = 0 then d
      else d\<lparr>m_active_dmas := shift_left_one (m_active_dmas d), m_num_active := m_num_active d - 1\<rparr>)"

definition interrupt_request_dma ::
  "nat \<Rightarrow> bool \<Rightarrow> ('h, 'm) psx_dma_scheme \<Rightarrow> ('h, 'm) psx_dma_scheme" where
  "interrupt_request_dma k last_block s =
     (let w = dicr (m_dma_controller s) in
      if \<not> last_block \<and> drop_bit k (interrupt_on_block w) = 0 then s
      else
        let (w, s) = (if bit (channel_int_enable w) k
                      then (put_flag (24 + k) True w, raise_interrupt DMA_IRQ s) else (w, s))
        in upd_ctl (\<lambda>d. d\<lparr>dicr := update_master_irq w\<rparr>) s)"

definition signal_exception :: "('h, 'm) psx_dma_scheme \<Rightarrow> ('h, 'm) psx_dma_scheme" where
  "signal_exception s =
     (let w = update_master_irq (put_flag 15 True (dicr (m_dma_controller s)));
          (w, s) = (if \<not> master_irq w then (put_flag 31 True w, raise_interrupt DMA_IRQ s) else (w, s))
      in (upd_ctl (\<lambda>d. d\<lparr>dicr := w\<rparr>) s)\<lparr>exception := False\<rparr>)"

section \<open>Starting and ending a transfer\<close>

text \<open>Reads and writes of a transfer: \<open>Read<u32, Except, false>\<close>.\<close>

definition dma_fetch :: "('h, 's) dma_env \<Rightarrow> bool \<Rightarrow> u32 \<Rightarrow> 's \<Rightarrow> (u32 \<times> 's) result" where
  "dma_fetch env except a s = bus_read (dma_bus env) W32 except False a s"

definition dma_put :: "('h, 's) dma_env \<Rightarrow> u32 \<Rightarrow> u32 \<Rightarrow> 's \<Rightarrow> 's result" where
  "dma_put env a v s = bus_write (dma_bus env) W32 True False a v s"

text \<open>The header of a linked list's node: its words and the next node.\<close>

definition take_header :: "u32 \<Rightarrow> dma_channel \<Rightarrow> dma_channel" where
  "take_header header c = c\<lparr>m_words_rem := get_bits 24 8 header, m_next_block_add := header AND 0xFFFFFC\<rparr>"

definition start_sync ::
  "('h, ('h, 'm) psx_dma_scheme) dma_env \<Rightarrow> bool \<Rightarrow> nat \<Rightarrow> ('h, 'm) psx_dma_scheme \<Rightarrow>
    (bool \<times> ('h, 'm) psx_dma_scheme) result" where
  "start_sync env resume k s =
     (let c = channel k s; mode = sync (m_control c) in
      if mode = BURST then
        (let n = blocksize (m_shadow_block_control c)
         in Inr (True, upd_channel k (\<lambda>c. c\<lparr>m_words_rem := (if n = 0 then 0x10000 else n)\<rparr>) s))
      else if mode = SLICE then
        (let s = upd_channel k (\<lambda>c. c\<lparr>m_words_rem := blocksize (m_shadow_block_control c)\<rparr>) s
         in Inr (True, if resume then s
                       else upd_channel k (\<lambda>c. c\<lparr>m_blocks_rem := block_count (m_shadow_block_control c)\<rparr>) s))
      else if mode = LINKED then
        (if \<not> resume then
           bindE (dma_fetch env False (m_curr_address c) s) (\<lambda>(header, s).
             Inr (True, upd_channel k (\<lambda>c. (take_header header c)\<lparr>m_curr_address := m_curr_address c + 4\<rparr>) s))
         else
           (let s = upd_channel k (\<lambda>c. c\<lparr>m_curr_address := m_next_block_add c + 4\<rparr>) s
            in bindE (dma_fetch env False (m_next_block_add c) s) (\<lambda>(header, s).
                 Inr (True, upd_channel k (take_header header) s))))
      else Inr (False, s))"

definition transfer_start ::
  "('h, ('h, 'm) psx_dma_scheme) dma_env \<Rightarrow> bool \<Rightarrow> nat \<Rightarrow> ('h, 'm) psx_dma_scheme \<Rightarrow>
    ('h, 'm) psx_dma_scheme result" where
  "transfer_start env resume k s =
     (if \<not> channel_enabled k (m_dma_controller s) then Inr s
      else if chopping (m_control (channel k s)) then Inl DebugBreak
      else
        let s = upd_channel k (\<lambda>c. c\<lparr>m_transfer_active := True, m_shadow_base_address := m_base_address c,
                 m_shadow_block_control :=
                   (if blocksize (m_block_control c) = 0 \<and> sync (m_control c) = BURST
                    then 0x10000 else m_block_control c),
                 m_curr_address := m_base_address c\<rparr>) s
        in bindE (start_sync env resume k s) (\<lambda>(go, s).
             if \<not> go then Inr s
             else
               let s = upd_channel k (\<lambda>c. c\<lparr>m_control := put_flag 28 False (m_control c)\<rparr>) s
               in bindE (add_transfer k (m_dma_controller s)) (\<lambda>d.
                    Inr (upd_channel k (\<lambda>c. c\<lparr>m_running := True\<rparr>) (s\<lparr>m_dma_controller := d\<rparr>)))))"

definition transfer_end :: "nat \<Rightarrow> bool \<Rightarrow> ('h, 'm) psx_dma_scheme \<Rightarrow> ('h, 'm) psx_dma_scheme" where
  "transfer_end k last_block s =
     (let s = (if last_block
               then upd_channel k (\<lambda>c. c\<lparr>m_control := put_flag 24 False (m_control c), m_transfer_active := False\<rparr>) s
               else s);
          s = interrupt_request_dma k last_block (upd_ctl remove_transfer s)
      in upd_channel k (\<lambda>c. c\<lparr>m_running := False\<rparr>) s)"

definition dreq :: "nat \<Rightarrow> ('h, 'm) psx_dma_scheme \<Rightarrow> bool" where
  "dreq k s \<longleftrightarrow> k = 6 \<or> m_dreq (channel k s)"

definition set_dreq :: "bool \<Rightarrow> nat \<Rightarrow> ('h, 'm) psx_dma_scheme \<Rightarrow> ('h, 'm) psx_dma_scheme" where
  "set_dreq b k s = upd_channel k (\<lambda>c. c\<lparr>m_dreq := b\<rparr>) s"

definition dreq_rising_edge ::
  "('h, ('h, 'm) psx_dma_scheme) dma_env \<Rightarrow> nat \<Rightarrow> ('h, 'm) psx_dma_scheme \<Rightarrow> ('h, 'm) psx_dma_scheme result" where
  "dreq_rising_edge env k s =
     (let c = channel k s in
      if \<not> start_busy (m_control c) \<or> m_running c then Inr s
      else transfer_start env (m_transfer_active c) k s)"

section \<open>Moving words\<close>

definition get_port :: "nat \<Rightarrow> u32" where
  "get_port k = (if k = 2 then 0x1F801810 else if k = 3 then 0x1F801802 else if k = 4 then 0x1F801DA8
     else if k = 0 \<or> k = 1 then 0x1F801820 else 0)"

definition check_exception :: "('h, 'm) psx_dma_scheme \<Rightarrow> ('h, 'm) psx_dma_scheme" where
  "check_exception s = (if exception s then signal_exception s else s)"

text \<open>One word from the port to memory or back.\<close>

definition move_word ::
  "('h, ('h, 'm) psx_dma_scheme) dma_env \<Rightarrow> nat \<Rightarrow> ('h, 'm) psx_dma_scheme \<Rightarrow> ('h, 'm) psx_dma_scheme result" where
  "move_word env k s =
     (let c = channel k s; (from, to) = (if transfer_dir (m_control c) then (m_curr_address c, get_port k)
                                         else (get_port k, m_curr_address c))
      in bindE (dma_fetch env True from s) (\<lambda>(data, s). dma_put env to data s))"

definition next_word :: "u64 \<Rightarrow> nat \<Rightarrow> ('h, 'm) psx_dma_scheme \<Rightarrow> ('h, 'm) psx_dma_scheme" where
  "next_word cycles k s =
     (let s = upd_channel k (\<lambda>c. c\<lparr>m_curr_address :=
                ((if decrement (m_control c) then m_curr_address c - 4 else m_curr_address c + 4) AND 0xFFFFFC),
                m_words_rem := m_words_rem c - 1\<rparr>) (check_exception s)
      in s\<lparr>m_curr_cycles := m_curr_cycles s + cycles\<rparr>)"

definition do_linked ::
  "('h, ('h, 'm) psx_dma_scheme) dma_env \<Rightarrow> nat \<Rightarrow> ('h, 'm) psx_dma_scheme \<Rightarrow> ('h, 'm) psx_dma_scheme result" where
  "do_linked env k s =
     (let c = channel k s in
      if m_words_rem c = 0 then
        (if m_next_block_add c AND 0x800000 \<noteq> 0 then Inr (transfer_end k True s)
         else if dreq k s then
           (let s = upd_channel k (\<lambda>c. c\<lparr>m_curr_address := m_next_block_add c + 4\<rparr>) (interrupt_request_dma k False s)
            in bindE (dma_fetch env False (m_next_block_add c) s) (\<lambda>(header, s).
                 Inr (upd_channel k (take_header header) s)))
         else Inr (transfer_end k False s))
      else if \<not> transfer_dir (m_control c) then Inl DebugBreak
      else bindE (move_word env k s) (\<lambda>s. Inr (next_word 2 k s)))"

text \<open>A block is over: the counters of the blocks, without the decision that follows.\<close>

definition count_block :: "dma_channel \<Rightarrow> dma_channel" where
  "count_block c = c\<lparr>m_blocks_rem := m_blocks_rem c - 1,
     m_shadow_block_control :=
       put_bits 16 16 (block_count (m_shadow_block_control c) - 1) (m_shadow_block_control c)\<rparr>"

definition do_slice ::
  "('h, ('h, 'm) psx_dma_scheme) dma_env \<Rightarrow> nat \<Rightarrow> ('h, 'm) psx_dma_scheme \<Rightarrow> ('h, 'm) psx_dma_scheme result" where
  "do_slice env k s =
     (if m_words_rem (channel k s) = 0 then
        (let s = upd_channel k count_block s; c = channel k s in
         if m_blocks_rem c = 0 \<or> m_blocks_rem c = -1 then Inr (transfer_end k True s)
         else if dreq k s then
           Inr (upd_channel k (\<lambda>c. c\<lparr>m_words_rem := blocksize (m_shadow_block_control c)\<rparr>)
                  (interrupt_request_dma k False s))
         else Inr (transfer_end k False s))
      else bindE (move_word env k s) (\<lambda>s. Inr (next_word 2 k s)))"

text \<open>\<open>DmaBase::DoBurst\<close> stops the emulator; only the CD-ROM channel has a body of its own.\<close>

definition cdrom_burst ::
  "('h, ('h, 'm) psx_dma_scheme) dma_env \<Rightarrow> ('h, 'm) psx_dma_scheme \<Rightarrow> ('h, 'm) psx_dma_scheme result" where
  "cdrom_burst env s =
     (let c = channel 3 s in
      if m_words_rem c = 0 then Inr (transfer_end 3 True s)
      else if transfer_dir (m_control c) then Inl DebugBreak
      else
        bindE (bus_read (dma_bus env) W16 True False (get_port 3) s) (\<lambda>(low, s).
        bindE (bus_read (dma_bus env) W16 True False (get_port 3) s) (\<lambda>(high, s).
        bindE (dma_put env (m_curr_address c) (push_bit 16 high OR low) s) (\<lambda>s. Inr (next_word 1 3 s)))))"

definition base_advance ::
  "('h, ('h, 'm) psx_dma_scheme) dma_env \<Rightarrow> nat \<Rightarrow> ('h, 'm) psx_dma_scheme \<Rightarrow> ('h, 'm) psx_dma_scheme result" where
  "base_advance env k s =
     (let mode = sync (m_control (channel k s)) in
      if mode = LINKED then do_linked env k s
      else if mode = BURST then (if k = 3 then cdrom_burst env s else Inl DebugBreak)
      else if mode = SLICE then do_slice env k s
      else Inl DebugBreak)"

definition spu_advance ::
  "('h, ('h, 'm) psx_dma_scheme) dma_env \<Rightarrow> ('h, 'm) psx_dma_scheme \<Rightarrow> ('h, 'm) psx_dma_scheme result" where
  "spu_advance env s =
     (let c = channel 4 s in
      if sync (m_control c) \<noteq> SLICE \<or> blocksize (m_shadow_block_control c) * 4 \<noteq> 64 then Inr (transfer_end 4 True s)
      else if m_words_rem c = 0 then
        (let s = upd_channel 4 count_block s; c = channel 4 s in
         if m_blocks_rem c = 0 \<or> m_blocks_rem c = -1 then Inr (set_dreq False 4 (transfer_end 4 True s))
         else Inr (upd_channel 4 (\<lambda>c. c\<lparr>m_words_rem := blocksize (m_shadow_block_control c)\<rparr>)
                     (interrupt_request_dma 4 False s)))
      else
        bindE (if \<not> transfer_dir (m_control c)
               then bindE (spu_dma_read env s) (\<lambda>(data, s). dma_put env (m_curr_address c) data s)
               else bindE (dma_fetch env True (m_curr_address c) s) (\<lambda>(data, s). spu_dma_write env data s))
          (\<lambda>s. Inr (next_word 2 4 s)))"

section \<open>The ordering table channel\<close>

definition OT_END :: u32 where "OT_END = 0x00FFFFFF"

text \<open>\<open>word_count--\<close> on the low half of the shadow register.\<close>

definition count_word :: "dma_channel \<Rightarrow> dma_channel" where
  "count_word c = c\<lparr>m_shadow_block_control :=
     put_bits 0 16 (blocksize (m_shadow_block_control c) - 1) (m_shadow_block_control c)\<rparr>"

definition ot_link :: "dma_channel \<Rightarrow> u32" where
  "ot_link c = (if blocksize (m_shadow_block_control c) = 0 then OT_END else m_shadow_base_address c - 4)"

definition ot_slow ::
  "('h, ('h, 'm) psx_dma_scheme) dma_env \<Rightarrow> ('h, 'm) psx_dma_scheme \<Rightarrow> ('h, 'm) psx_dma_scheme result" where
  "ot_slow env s =
     (let s = upd_channel 6 count_word s; c = channel 6 s in
      bindE (dma_put env (m_shadow_base_address c) (ot_link c AND 0xFFFFFF) s) (\<lambda>s.
        let s = upd_channel 6 (\<lambda>c. c\<lparr>m_shadow_base_address := m_shadow_base_address c - 4\<rparr>) (check_exception s)
        in Inr (s\<lparr>m_curr_cycles := m_curr_cycles s + 1\<rparr>)))"

text \<open>\<open>ram_base[(a & (PSX_MAIN_RAM_SIZE - 1)) >> 2] = v\<close>.\<close>

definition ram_index :: "u32 \<Rightarrow> u32" where
  "ram_index a = (a AND 0x1FFFFF) AND NOT 3"

fun ot_fast_loop ::
  "nat \<Rightarrow> ('h, ('h, 'm) psx_dma_scheme) dma_env \<Rightarrow> ('h, 'm) psx_dma_scheme \<Rightarrow> ('h, 'm) psx_dma_scheme result" where
  "ot_fast_loop 0 env s = Inr s"
| "ot_fast_loop (Suc n) env s =
     (let s = upd_channel 6 count_word s; c = channel 6 s in
      bindE (guest_store (dma_os env) W32 (ram_index (m_shadow_base_address c)) (ot_link c) s) (\<lambda>s.
        ot_fast_loop n env
          (upd_channel 6 (\<lambda>c. c\<lparr>m_shadow_base_address := m_shadow_base_address c - 4\<rparr>) s)))"

text \<open>The eight lanes of one vector store, lowest address first.\<close>

fun store_lanes ::
  "'h host_os \<Rightarrow> u32 \<Rightarrow> u32 list \<Rightarrow> ('c, 'h, 'm) psx_scheme \<Rightarrow> ('c, 'h, 'm) psx_scheme result" where
  "store_lanes os a [] s = Inr s"
| "store_lanes os a (v # vs) s = bindE (guest_store os W32 a v s) (store_lanes os (a + 4) vs)"

fun ot_simd_loop ::
  "nat \<Rightarrow> ('h, ('h, 'm) psx_dma_scheme) dma_env \<Rightarrow> ('h, 'm) psx_dma_scheme \<Rightarrow> ('h, 'm) psx_dma_scheme result" where
  "ot_simd_loop 0 env s = Inr s"
| "ot_simd_loop (Suc n) env s =
     (let b = m_shadow_base_address (channel 6 s);
          lanes = map (\<lambda>d. b - d) [32, 28, 24, 20, 16, 12, 8, 4];
          lanes = (if n = 0 then lanes[0 := OT_END] else lanes);
          s = upd_channel 6 (\<lambda>c. c\<lparr>m_shadow_base_address := b - 32\<rparr>) s
      in bindE (store_lanes (dma_os env) (ram_index (b - 32) + 4) lanes s) (ot_simd_loop n env))"

definition skip_time :: "u64 \<Rightarrow> ('h, 'm) psx_dma_scheme \<Rightarrow> ('h, 'm) psx_dma_scheme" where
  "skip_time n s =
     set_bus (\<lambda>b. b\<lparr>m_event_ignore_overflow_cycles := True\<rparr>) (s\<lparr>m_curr_cycles := m_curr_cycles s + n\<rparr>)"

definition ot_simd ::
  "('h, ('h, 'm) psx_dma_scheme) dma_env \<Rightarrow> ('h, 'm) psx_dma_scheme \<Rightarrow> ('h, 'm) psx_dma_scheme result" where
  "ot_simd env s =
     (let blocks = drop_bit 3 (blocksize (m_shadow_block_control (channel 6 s))) in
      bindE (ot_simd_loop (unat blocks) env (skip_time (push_bit 3 (ucast blocks)) s)) (\<lambda>s.
        Inr (upd_channel 6 (\<lambda>c. c\<lparr>m_shadow_block_control :=
               put_bits 0 16 (blocksize (m_shadow_block_control c) mod 8) (m_shadow_block_control c)\<rparr>) s)))"

definition ot_fast ::
  "('h, ('h, 'm) psx_dma_scheme) dma_env \<Rightarrow> ('h, 'm) psx_dma_scheme \<Rightarrow> ('h, 'm) psx_dma_scheme result" where
  "ot_fast env s =
     bindE (if m_use_simd (m_dma_controller s) then ot_simd env s else Inr s) (\<lambda>s.
       let n = blocksize (m_shadow_block_control (channel 6 s))
       in ot_fast_loop (unat n) env (skip_time (ucast n) s))"

definition ot_advance ::
  "('h, ('h, 'm) psx_dma_scheme) dma_env \<Rightarrow> ('h, 'm) psx_dma_scheme \<Rightarrow> ('h, 'm) psx_dma_scheme result" where
  "ot_advance env s =
     bindE (if m_enable_fast_dma (m_dma_controller s) then ot_fast env s else ot_slow env s) (\<lambda>s.
       if blocksize (m_shadow_block_control (channel 6 s)) = 0 then Inr (transfer_end 6 True s) else Inr s)"

definition advance_transfer ::
  "('h, ('h, 'm) psx_dma_scheme) dma_env \<Rightarrow> ('h, 'm) psx_dma_scheme \<Rightarrow> ('h, 'm) psx_dma_scheme result" where
  "advance_transfer env s =
     (let k = dma_id (m_active_dmas (m_dma_controller s) ! 0) in
      if k \<in> {0, 1, 2, 3} then base_advance env k s
      else if k = 4 then spu_advance env s
      else if k = 6 then ot_advance env s
      else Inl DebugBreak)"

section \<open>Registers\<close>

definition write_block_control :: "u32 \<Rightarrow> u32 \<Rightarrow> dma_channel \<Rightarrow> dma_channel" where
  "write_block_control value msk c =
     c\<lparr>m_block_control := (m_block_control c AND NOT msk) OR (value AND msk)\<rparr>"

definition channel_write ::
  "('h, ('h, 'm) psx_dma_scheme) dma_env \<Rightarrow> nat \<Rightarrow> u32 \<Rightarrow> u32 \<Rightarrow> u32 \<Rightarrow> ('h, 'm) psx_dma_scheme \<Rightarrow>
    ('h, 'm) psx_dma_scheme result" where
  "channel_write env k address value msk s =
     (if in_word 0 address then Inr (upd_channel k (\<lambda>c. c\<lparr>m_base_address := value AND 0xFFFFFF\<rparr>) s)
      else if in_word 4 address then Inr (upd_channel k (write_block_control value msk) s)
      else if in_word 8 address then
        (let old = m_control (channel k s);
             new = (if k = 6 then put_flag 1 True (value AND 0x51000000) else value);
             s = upd_channel k (\<lambda>c. c\<lparr>m_control := new\<rparr>) s;
             start_edge = (\<not> start_busy old \<and> start_busy new);
             force_edge = (\<not> force_start old \<and> force_start new)
         in if force_edge \<or> start_edge \<and> (k = 6 \<or> sync new = BURST \<or> dreq k s)
            then transfer_start env False k s else Inr s)
      else Inr s)"

definition channel_read :: "u32 \<Rightarrow> dma_channel \<Rightarrow> u32" where
  "channel_read address c =
     (if in_word 0 address then m_base_address c else if in_word 4 address then m_block_control c
      else if in_word 8 address then m_control c else 0)"

text \<open>The channel an address of the controller belongs to.\<close>

definition channel_of :: "u32 \<Rightarrow> nat option" where
  "channel_of address =
     (let base = address AND 0xF0 in
      if base = 0xE0 then Some 6 else if base = 0xA0 then Some 2 else if base = 0x80 then Some 0
      else if base = 0x90 then Some 1 else if base = 0xB0 then Some 3 else if base = 0xC0 then Some 4 else None)"

definition dma_controller_write ::
  "('h, ('h, 'm) psx_dma_scheme) dma_env \<Rightarrow> u32 \<Rightarrow> u32 \<Rightarrow> u32 \<Rightarrow> ('h, 'm) psx_dma_scheme \<Rightarrow>
    ('h, 'm) psx_dma_scheme result" where
  "dma_controller_write env address value msk s =
     (if in_word 0xF0 address then Inr (upd_ctl (\<lambda>d. d\<lparr>dpcr := value\<rparr>) s)
      else if in_word 0xF4 address then Inr (upd_ctl (\<lambda>d. d\<lparr>dicr := write_dicr value (dicr d)\<rparr>) s)
      else
        (case channel_of address of
           None \<Rightarrow> Inr s
         | Some k \<Rightarrow> channel_write env k (address - (0x80 + 0x10 * of_nat k)) value msk s))"

definition dma_controller_read :: "u32 \<Rightarrow> ('h, 'm) psx_dma_scheme \<Rightarrow> u32 \<times> ('h, 'm) psx_dma_scheme" where
  "dma_controller_read address s =
     (if in_word 0xF0 address then (dpcr (m_dma_controller s), s)
      else if in_word 0xF4 address then
        (let s = upd_ctl (\<lambda>d. d\<lparr>dicr := update_master_irq (dicr d)\<rparr>) s in (dicr (m_dma_controller s), s))
      else
        (case channel_of address of
           None \<Rightarrow> (0, s)
         | Some k \<Rightarrow> (channel_read (address - (0x80 + 0x10 * of_nat k)) (channel k s), s)))"

end
