(* ===== verification/Pad.thy ===== *)
theory Pad
  imports Containers
begin

text \<open>
  The controllers (\<open>StandardController.cpp\<close>, \<open>NullController.cpp\<close>): polling, the configuration
  mode and its commands, and the button register. The answers and the received bytes are kept in
  the array queues of \<open>Queue.hpp\<close>.
\<close>

section \<open>State\<close>

datatype controller_status = Pad_IDLE | Pad_READ_STAT | Pad_CONFIG | Pad_COMMAND_END
datatype config_status = JUST_ENTERED | CONFIG_IDLE | CONFIG_COMMAND_END
datatype controller_mode = DIGITAL | ANALOG
datatype button_type = NORMAL_button | ANALOG_button

definition READ_cmd :: u8 where "READ_cmd = 0x42"
definition CONFIG_MODE_cmd :: u8 where "CONFIG_MODE_cmd = 0x43"
definition SET_LED_cmd :: u8 where "SET_LED_cmd = 0x44"
definition GET_LED_cmd :: u8 where "GET_LED_cmd = 0x45"
definition RESPONSE_A_cmd :: u8 where "RESPONSE_A_cmd = 0x46"
definition WHATEVER_cmd :: u8 where "WHATEVER_cmd = 0x47"
definition RESPONSE_B_cmd :: u8 where "RESPONSE_B_cmd = 0x4C"
definition RUMBLE_cmd :: u8 where "RUMBLE_cmd = 0x4D"

definition DIGITAL_ID :: "u8 list" where "DIGITAL_ID = [0x41, 0x5A]"
definition ANALOG_ID :: "u8 list" where "ANALOG_ID = [0x73, 0x5A]"
definition CONFIG_ID :: "u8 list" where "CONFIG_ID = [0xF3, 0x5A]"

definition CONFIG_MODE_TRANSFER_LEN :: u64 where "CONFIG_MODE_TRANSFER_LEN = 9"

definition btn_names :: "string list" where
  "btn_names = [''SELECT'', ''L3'', ''R3'', ''START'', ''DPAD-UP'', ''DPAD-RIGHT'', ''DPAD-DOWN'', ''DPAD-LEFT'',
     ''L2'', ''R2'', ''L1'', ''R1'', ''TRIANGLE'', ''CIRCLE'', ''CROSS'', ''SQUARE'']"

record pad =
  m_status :: controller_status
  m_conf_status :: config_status
  m_pad_mode :: controller_mode
  m_response :: "u8 cqueue"
  m_in_fifo :: "u8 cqueue"
  m_btn_status :: u16
  m_led_state :: u8
  m_curr_rumble_protocol :: "u8 list"
  m_key_lock :: bool

definition pad_new :: pad where
  "pad_new = \<lparr>m_status = Pad_IDLE, m_conf_status = JUST_ENTERED, m_pad_mode = DIGITAL,
     m_response = queue_new 16 0, m_in_fifo = queue_new 32 0, m_btn_status = 0xFFFF, m_led_state = 0,
     m_curr_rumble_protocol = replicate 6 0xFF, m_key_lock = False\<rparr>"

definition u8_to_keylock :: "u8 \<Rightarrow> bool" where
  "u8_to_keylock v \<longleftrightarrow> \<not> v AND 3 < 3"

definition set_mode :: "bool \<Rightarrow> pad \<Rightarrow> pad" where
  "set_mode analog p = p\<lparr>m_pad_mode := (if analog then ANALOG else DIGITAL)\<rparr>"

definition get_transfer_length :: "pad \<Rightarrow> u64" where
  "get_transfer_length p = (if m_pad_mode p = ANALOG then 9 else 5)"

text \<open>The index of a button; the first of equal names.\<close>

fun index_of :: "string \<Rightarrow> string list \<Rightarrow> nat option" where
  "index_of x [] = None"
| "index_of x (y # ys) = (if x = y then Some 0 else map_option Suc (index_of x ys))"

definition update_status :: "button_type \<Rightarrow> string \<Rightarrow> bool \<Rightarrow> pad \<Rightarrow> pad" where
  "update_status ty name pressed p =
     (if m_pad_mode p = ANALOG \<and> ty \<noteq> NORMAL_button then p
      else
        (case index_of name btn_names of
           None \<Rightarrow> p
         | Some i \<Rightarrow>
             p\<lparr>m_btn_status := (m_btn_status p AND NOT (push_bit i 1)) OR push_bit i (of_bool (\<not> pressed))\<rparr>))"

section \<open>Answers\<close>

fun push_all :: "u8 list \<Rightarrow> u8 cqueue \<Rightarrow> u8 cqueue result" where
  "push_all [] q = Inr q"
| "push_all (x # xs) q = bindE (queue_push x q) (push_all xs)"

definition respond :: "u8 list \<Rightarrow> pad \<Rightarrow> pad result" where
  "respond bs p = bindE (push_all bs (m_response p)) (\<lambda>q. Inr (p\<lparr>m_response := q\<rparr>))"

definition take_in :: "u8 \<Rightarrow> pad \<Rightarrow> pad result" where
  "take_in v p = bindE (queue_push v (m_in_fifo p)) (\<lambda>q. Inr (p\<lparr>m_in_fifo := q\<rparr>))"

definition next_in :: "pad \<Rightarrow> (u8 \<times> pad) result" where
  "next_in p = bindE (queue_deque (m_in_fifo p)) (\<lambda>(v, q). Inr (v, p\<lparr>m_in_fifo := q\<rparr>))"

definition clear_in :: "pad \<Rightarrow> pad" where
  "clear_in p = p\<lparr>m_in_fifo := queue_clear (m_in_fifo p)\<rparr>"

definition btn_bytes :: "pad \<Rightarrow> u8 list" where
  "btn_bytes p = [ucast (m_btn_status p), ucast (drop_bit 8 (m_btn_status p))]"

definition enqueue_status :: "bool \<Rightarrow> pad \<Rightarrow> pad result" where
  "enqueue_status force_analog p =
     (let analog = (m_pad_mode p = ANALOG \<or> force_analog)
      in respond ((if analog then ANALOG_ID else DIGITAL_ID) @ btn_bytes p @
                  (if analog then [0x80, 0x80, 0x80, 0x80] else [])) p)"

section \<open>Commands\<close>

definition idle_process_byte :: "u8 \<Rightarrow> pad \<Rightarrow> pad result" where
  "idle_process_byte v p =
     (if v = READ_cmd then enqueue_status False (p\<lparr>m_status := Pad_READ_STAT\<rparr>)
      else if v = CONFIG_MODE_cmd then
        bindE (enqueue_status False (p\<lparr>m_status := Pad_CONFIG\<rparr>)) (\<lambda>p. Inr (p\<lparr>m_conf_status := JUST_ENTERED\<rparr>))
      else Inl DebugBreak)"

definition config_idle_process_byte :: "u8 \<Rightarrow> pad \<Rightarrow> pad result" where
  "config_idle_process_byte v p =
     bindE (if v = READ_cmd then respond (CONFIG_ID @ btn_bytes p @ [0, 0, 0, 0]) p
            else if v = SET_LED_cmd then respond (CONFIG_ID @ [0, 0, 0, 0, 0, 0]) p
            else if v = GET_LED_cmd then respond (CONFIG_ID @ [1, 2, m_led_state p, 2, 1, 0]) p
            else if v = RESPONSE_A_cmd \<or> v = RESPONSE_B_cmd then respond CONFIG_ID p
            else if v = WHATEVER_cmd then respond (CONFIG_ID @ [0, 0, 2, 0, 1, 0]) p
            else if v = CONFIG_MODE_cmd then respond (CONFIG_ID @ [0, 0, 0, 0, 0, 0]) p
            else if v = RUMBLE_cmd then respond (CONFIG_ID @ m_curr_rumble_protocol p) p
            else Inl Unreachable)
       (take_in v)"

text \<open>The variable part of the two answers that depend on a parameter.\<close>

definition variable_response :: "u8 \<Rightarrow> u8 \<Rightarrow> u8 list" where
  "variable_response cmd param =
     (if cmd = RESPONSE_A_cmd then
        [0, 0] @ (if param = 0 then [1, 2, 0, 0xA] else if param = 1 then [1, 1, 1, 0x14] else [0, 0, 0, 0])
      else if cmd = RESPONSE_B_cmd then
        [0, 0] @ [if param = 0 then 4 else if param = 1 then 7 else 0] @ [0, 0, 0]
      else [])"

fun next_ins :: "nat \<Rightarrow> pad \<Rightarrow> (u8 list \<times> pad) result" where
  "next_ins 0 p = Inr ([], p)"
| "next_ins (Suc n) p = bindE (next_in p) (\<lambda>(v, p). bindE (next_ins n p) (\<lambda>(vs, p). Inr (v # vs, p)))"

definition config_command_end :: "pad \<Rightarrow> pad result" where
  "config_command_end p =
     bindE (next_in p) (\<lambda>(cmd, p).
     bindE
       (if cmd \<in> {READ_cmd, GET_LED_cmd, RESPONSE_A_cmd, WHATEVER_cmd, RESPONSE_B_cmd} then Inr p
        else if cmd = SET_LED_cmd then
          bindE (next_ins 3 p) (\<lambda>(vs, p).
            Inr ((clear_in p)\<lparr>m_led_state := vs ! 1, m_key_lock := u8_to_keylock (vs ! 2),
                   m_pad_mode := (if vs ! 1 = 1 then ANALOG else DIGITAL)\<rparr>))
        else if cmd = CONFIG_MODE_cmd then
          bindE (next_ins 2 p) (\<lambda>(vs, p).
            Inr (if NOT (vs ! 1) AND 1 = 0 then p\<lparr>m_conf_status := CONFIG_COMMAND_END\<rparr>
                 else p\<lparr>m_conf_status := JUST_ENTERED, m_status := Pad_COMMAND_END\<rparr>))
        else if cmd = RUMBLE_cmd then
          bindE (next_ins 7 p) (\<lambda>(vs, p). Inr (p\<lparr>m_curr_rumble_protocol := tl vs\<rparr>))
        else Inl Unreachable)
       (\<lambda>p. let p = clear_in p in
         Inr (if cmd \<noteq> CONFIG_MODE_cmd then p\<lparr>m_conf_status := CONFIG_COMMAND_END\<rparr> else p)))"

definition just_entered :: "u8 \<Rightarrow> pad \<Rightarrow> pad result" where
  "just_entered v p =
     bindE (take_in v p) (\<lambda>p.
       if m_curr_size (m_in_fifo p) \<noteq> get_transfer_length p - 2 then Inr p
       else bindE (next_ins 2 p) (\<lambda>(vs, p).
         let p = clear_in p in
         Inr (if vs ! 1 = 0 then p\<lparr>m_status := Pad_COMMAND_END\<rparr> else p\<lparr>m_conf_status := CONFIG_COMMAND_END\<rparr>)))"

definition config_idle :: "u8 \<Rightarrow> pad \<Rightarrow> pad result" where
  "config_idle v p =
     (if queue_empty (m_in_fifo p) then config_idle_process_byte v p
      else
        bindE (take_in v p) (\<lambda>p.
        bindE (if m_curr_size (m_in_fifo p) = 3 then
                 bindE (queue_peek (m_in_fifo p)) (\<lambda>cmd. bindE (queue_back (m_in_fifo p)) (\<lambda>param.
                   respond (variable_response cmd param) p))
               else Inr p) (\<lambda>p.
          if m_curr_size (m_in_fifo p) = CONFIG_MODE_TRANSFER_LEN - 1 then config_command_end p else Inr p)))"

definition config_process_byte :: "u8 \<Rightarrow> pad \<Rightarrow> pad result" where
  "config_process_byte v p =
     (case m_conf_status p of
        JUST_ENTERED \<Rightarrow> just_entered v p
      | CONFIG_IDLE \<Rightarrow> config_idle v p
      | CONFIG_COMMAND_END \<Rightarrow> Inl Unreachable)"

section \<open>The interface of the controller\<close>

text \<open>The answer: the next byte of the queue, or \<open>0xFF\<close>.\<close>

definition answer :: "pad \<Rightarrow> (u8 \<times> pad) result" where
  "answer p =
     bindE (if queue_empty (m_response p) then Inr (0xFF, p)
            else bindE (queue_deque (m_response p)) (\<lambda>(v, q). Inr (v, p\<lparr>m_response := q\<rparr>))) (\<lambda>(v, p).
       Inr (v, if queue_empty (m_response p) \<and> m_status p = Pad_READ_STAT then p\<lparr>m_status := Pad_COMMAND_END\<rparr> else p))"

definition pad_send :: "u8 \<Rightarrow> pad \<Rightarrow> (u8 \<times> pad) result" where
  "pad_send v p =
     bindE (case m_status p of
              Pad_IDLE \<Rightarrow> idle_process_byte v p
            | Pad_READ_STAT \<Rightarrow> Inr p
            | Pad_CONFIG \<Rightarrow> config_process_byte v p
            | Pad_COMMAND_END \<Rightarrow> Inr (p\<lparr>m_status := Pad_IDLE\<rparr>)) answer"

definition pad_ack :: "pad \<Rightarrow> bool \<times> pad" where
  "pad_ack p =
     (m_status p = Pad_IDLE \<or> m_status p = Pad_CONFIG \<and> m_conf_status p = CONFIG_IDLE \<or> \<not> queue_empty (m_response p),
      if m_status p = Pad_COMMAND_END then p\<lparr>m_status := Pad_IDLE\<rparr>
      else if m_status p = Pad_CONFIG \<and> m_conf_status p = CONFIG_COMMAND_END then p\<lparr>m_conf_status := CONFIG_IDLE\<rparr>
      else p)"

definition pad_reset :: "pad \<Rightarrow> pad" where
  "pad_reset p = p\<lparr>m_response := queue_clear (m_response p),
     m_status := (if m_status p = Pad_CONFIG then Pad_CONFIG else Pad_IDLE)\<rparr>"

datatype controller = Null_controller | Standard_controller pad

definition controller_send :: "u8 \<Rightarrow> controller \<Rightarrow> (u8 \<times> controller) result" where
  "controller_send v c =
     (case c of
        Null_controller \<Rightarrow> Inr (0xFF, c)
      | Standard_controller p \<Rightarrow> bindE (pad_send v p) (\<lambda>(b, p). Inr (b, Standard_controller p)))"

definition controller_ack :: "controller \<Rightarrow> bool \<times> controller" where
  "controller_ack c =
     (case c of
        Null_controller \<Rightarrow> (False, c)
      | Standard_controller p \<Rightarrow> (let (b, p) = pad_ack p in (b, Standard_controller p)))"

definition controller_reset :: "controller \<Rightarrow> controller" where
  "controller_reset c =
     (case c of Null_controller \<Rightarrow> c | Standard_controller p \<Rightarrow> Standard_controller (pad_reset p))"

end
