(* ===== verification/Memcard.thy ===== *)
theory Memcard
  imports PsxPrelude
begin

text \<open>
  The memory card (\<open>OfficialMemcard.cpp\<close>): the protocol of the read and write commands byte by
  byte, and the frames as the emulator's own file system reads and writes them. The buffer is
  empty until a file is loaded. The empty slot is \<open>NullMemcard.cpp\<close>.
\<close>

section \<open>State\<close>

datatype card_state = Card_IDLE | Card_GETID | Card_READ | Card_WRITE

datatype read_status =
  RS_ID | RS_RECV_SECTOR | RS_SEND_ACK | RS_SEND_CONFIRM | RS_SEND_SECTOR | RS_SEND_CHECKSUM | RS_SEND_END_BYTE

datatype write_status =
  WS_ID | WS_RECV_SECTOR | WS_RECV_DATA | WS_RECV_CHECKSUM | WS_SEND_ACK | WS_SEND_END_BYTE

definition CARD_ID :: "u8 list" where "CARD_ID = [0x5A, 0x5D]"
definition CMD_ACK :: "u8 list" where "CMD_ACK = [0x5C, 0x5D]"

definition MAX_SECTOR :: u32 where "MAX_SECTOR = 0x3FF"
definition MEMCARD_SIZE :: nat where "MEMCARD_SIZE = 128 * 1024"
definition LOGICAL_SECTOR_SIZE :: nat where "LOGICAL_SECTOR_SIZE = MEMCARD_SIZE div (unat MAX_SECTOR + 1)"

definition END_BYTE :: u8 where "END_BYTE = 0x47"
definition BAD_CHECKSUM :: u8 where "BAD_CHECKSUM = 0x4E"
definition BAD_SECTOR :: u8 where "BAD_SECTOR = 0xFF"

definition FLAG_NONE :: u8 where "FLAG_NONE = 0x08"
definition FLAG_DIR_READ :: u8 where "FLAG_DIR_READ = 0x00"

record memcard =
  m_path :: "string option"
  m_state :: card_state
  m_flag :: u8
  m_rd_status :: read_status
  m_wr_status :: write_status
  m_cmd_step :: nat
  m_cmd_max_steps :: nat
  m_selected_sector :: u32
  m_is_sector_valid :: bool
  m_is_checksum_valid :: bool
  m_mc_buffer :: "u8 list"
  m_temp_sector :: "u8 list"
  m_update_seq_number :: u32

definition memcard_new :: memcard where
  "memcard_new = \<lparr>m_path = None, m_state = Card_IDLE, m_flag = FLAG_NONE, m_rd_status = RS_ID, m_wr_status = WS_ID,
     m_cmd_step = 0, m_cmd_max_steps = 0, m_selected_sector = 0, m_is_sector_valid = False,
     m_is_checksum_valid = False, m_mc_buffer = [], m_temp_sector = replicate LOGICAL_SECTOR_SIZE 0,
     m_update_seq_number = 0\<rparr>"

definition card_reset :: "memcard \<Rightarrow> memcard" where
  "card_reset c = c\<lparr>m_state := Card_IDLE, m_rd_status := RS_ID, m_wr_status := WS_ID, m_cmd_step := 0,
     m_selected_sector := 0, m_is_sector_valid := False, m_is_checksum_valid := False\<rparr>"

text \<open>The files of the host: their contents, and whether they can be opened.\<close>

definition load_file ::
  "(string \<Rightarrow> u8 list option) \<Rightarrow> (string \<Rightarrow> bool) \<Rightarrow> string \<Rightarrow> memcard \<Rightarrow> bool \<times> memcard" where
  "load_file files openable path c =
     (case files path of
        None \<Rightarrow> (False, c)
      | Some data \<Rightarrow>
          if length data \<noteq> MEMCARD_SIZE then (False, c)
          else if \<not> openable path then (False, c)
          else (True, c\<lparr>m_mc_buffer := data, m_path := Some path\<rparr>))"

section \<open>Frames\<close>

text \<open>The bytes of a sector in the buffer, and their replacement; both only inside the buffer.\<close>

definition sector_bytes :: "nat \<Rightarrow> u8 list \<Rightarrow> u8 list result" where
  "sector_bytes n buf =
     (if (n + 1) * LOGICAL_SECTOR_SIZE \<le> length buf
      then Inr (take LOGICAL_SECTOR_SIZE (drop (n * LOGICAL_SECTOR_SIZE) buf)) else Inl UndefinedBehaviour)"

definition put_sector :: "nat \<Rightarrow> u8 list \<Rightarrow> u8 list \<Rightarrow> u8 list result" where
  "put_sector n data buf =
     (if (n + 1) * LOGICAL_SECTOR_SIZE \<le> length buf
      then Inr (take (n * LOGICAL_SECTOR_SIZE) buf @ data @ drop ((n + 1) * LOGICAL_SECTOR_SIZE) buf)
      else Inl UndefinedBehaviour)"

definition read_frame :: "u32 \<Rightarrow> memcard \<Rightarrow> u8 list option result" where
  "read_frame n c =
     (if n > MAX_SECTOR then Inr None else bindE (sector_bytes (unat n) (m_mc_buffer c)) (\<lambda>d. Inr (Some d)))"

definition write_frame :: "u32 \<Rightarrow> u8 list \<Rightarrow> memcard \<Rightarrow> (bool \<times> memcard) result" where
  "write_frame n data c =
     (if length data \<noteq> LOGICAL_SECTOR_SIZE then Inr (False, c)
      else if n > MAX_SECTOR then Inr (False, c)
      else bindE (put_sector (unat n) data (m_mc_buffer c)) (\<lambda>b.
        Inr (True, c\<lparr>m_mc_buffer := b, m_update_seq_number := m_update_seq_number c + 1\<rparr>)))"

definition checksum_of :: "u32 \<Rightarrow> u8 list \<Rightarrow> u8" where
  "checksum_of n data = fold (\<lambda>b acc. acc XOR b) data (ucast (drop_bit 8 n) XOR ucast n)"

definition compute_sector_checksum :: "u32 \<Rightarrow> memcard \<Rightarrow> u8 result" where
  "compute_sector_checksum n c =
     bindE (sector_bytes (unat n) (m_mc_buffer c)) (\<lambda>d. Inr (checksum_of n d))"

definition compute_temp_sector_checksum :: "u32 \<Rightarrow> memcard \<Rightarrow> u8" where
  "compute_temp_sector_checksum n c = checksum_of n (take LOGICAL_SECTOR_SIZE (m_temp_sector c))"

section \<open>The protocol\<close>

fun rs_steps :: "read_status \<Rightarrow> nat" where
  "rs_steps RS_ID = 2" | "rs_steps RS_RECV_SECTOR = 2" | "rs_steps RS_SEND_ACK = 2"
| "rs_steps RS_SEND_CONFIRM = 2" | "rs_steps RS_SEND_SECTOR = 128" | "rs_steps RS_SEND_CHECKSUM = 1"
| "rs_steps RS_SEND_END_BYTE = 1"

fun rs_next :: "read_status \<Rightarrow> read_status" where
  "rs_next RS_ID = RS_RECV_SECTOR" | "rs_next RS_RECV_SECTOR = RS_SEND_ACK" | "rs_next RS_SEND_ACK = RS_SEND_CONFIRM"
| "rs_next RS_SEND_CONFIRM = RS_SEND_SECTOR" | "rs_next RS_SEND_SECTOR = RS_SEND_CHECKSUM"
| "rs_next RS_SEND_CHECKSUM = RS_SEND_END_BYTE" | "rs_next RS_SEND_END_BYTE = RS_SEND_END_BYTE"

fun ws_steps :: "write_status \<Rightarrow> nat" where
  "ws_steps WS_ID = 2" | "ws_steps WS_RECV_SECTOR = 2" | "ws_steps WS_RECV_DATA = 128"
| "ws_steps WS_RECV_CHECKSUM = 1" | "ws_steps WS_SEND_ACK = 2" | "ws_steps WS_SEND_END_BYTE = 1"

fun ws_next :: "write_status \<Rightarrow> write_status" where
  "ws_next WS_ID = WS_RECV_SECTOR" | "ws_next WS_RECV_SECTOR = WS_RECV_DATA" | "ws_next WS_RECV_DATA = WS_RECV_CHECKSUM"
| "ws_next WS_RECV_CHECKSUM = WS_SEND_ACK" | "ws_next WS_SEND_ACK = WS_SEND_END_BYTE"
| "ws_next WS_SEND_END_BYTE = WS_SEND_END_BYTE"

definition byte_at :: "nat \<Rightarrow> u8 list \<Rightarrow> u8 result" where
  "byte_at i bs = (if i < length bs then Inr (bs ! i) else Inl UndefinedBehaviour)"

definition recv_sector :: "u8 \<Rightarrow> memcard \<Rightarrow> memcard" where
  "recv_sector v c =
     (let n = ucast (ucast (push_bit 8 (m_selected_sector c) OR ucast v) :: u16)
      in c\<lparr>m_selected_sector := n, m_is_sector_valid := n \<le> MAX_SECTOR\<rparr>)"

definition idle_byte :: "u8 \<Rightarrow> memcard \<Rightarrow> u8 \<times> memcard" where
  "idle_byte v c =
     (let c = (if v = 0x53 then c\<lparr>m_state := Card_GETID\<rparr>
               else if v = 0x52 then c\<lparr>m_rd_status := RS_ID, m_state := Card_READ\<rparr>
               else if v = 0x57 then c\<lparr>m_wr_status := WS_ID, m_state := Card_WRITE\<rparr>
               else c)
      in (m_flag c, c\<lparr>m_cmd_step := 0, m_cmd_max_steps := 2\<rparr>))"

text \<open>The answer of a step of the read command, then the move to the next step or phase.\<close>

definition read_answer :: "u8 \<Rightarrow> memcard \<Rightarrow> (u8 \<times> memcard) result" where
  "read_answer v c =
     (case m_rd_status c of
        RS_ID \<Rightarrow> bindE (byte_at (m_cmd_step c) CARD_ID) (\<lambda>b. Inr (b, c))
      | RS_RECV_SECTOR \<Rightarrow> Inr (0, recv_sector v c)
      | RS_SEND_ACK \<Rightarrow> bindE (byte_at (m_cmd_step c) CMD_ACK) (\<lambda>b. Inr (b, c))
      | RS_SEND_CONFIRM \<Rightarrow>
          Inr (if \<not> m_is_sector_valid c then 0xFF
               else if m_cmd_step c = 0 then ucast (drop_bit 8 (m_selected_sector c))
               else ucast (m_selected_sector c), c)
      | RS_SEND_SECTOR \<Rightarrow>
          bindE (byte_at (unat (m_selected_sector c) * LOGICAL_SECTOR_SIZE + m_cmd_step c) (m_mc_buffer c)) (\<lambda>b. Inr (b, c))
      | RS_SEND_CHECKSUM \<Rightarrow> bindE (compute_sector_checksum (m_selected_sector c) c) (\<lambda>b. Inr (b, c))
      | RS_SEND_END_BYTE \<Rightarrow> Inr (END_BYTE, c))"

definition read_advance :: "memcard \<Rightarrow> memcard" where
  "read_advance c =
     (let c = c\<lparr>m_cmd_step := m_cmd_step c + 1\<rparr> in
      if m_cmd_step c \<noteq> m_cmd_max_steps c then c
      else
        let c = c\<lparr>m_cmd_step := 0\<rparr> in
        if m_rd_status c = RS_SEND_END_BYTE \<or> m_rd_status c = RS_SEND_CONFIRM \<and> \<not> m_is_sector_valid c
        then c\<lparr>m_state := Card_IDLE, m_selected_sector := 0\<rparr>
        else c\<lparr>m_rd_status := rs_next (m_rd_status c), m_cmd_max_steps := rs_steps (rs_next (m_rd_status c))\<rparr>)"

definition read_byte :: "u8 \<Rightarrow> memcard \<Rightarrow> (u8 \<times> memcard) result" where
  "read_byte v c = bindE (read_answer v c) (\<lambda>(b, c). Inr (b, read_advance c))"

definition write_answer :: "u8 \<Rightarrow> memcard \<Rightarrow> (u8 \<times> memcard) result" where
  "write_answer v c =
     (case m_wr_status c of
        WS_ID \<Rightarrow> bindE (byte_at (m_cmd_step c) CARD_ID) (\<lambda>b. Inr (b, c))
      | WS_RECV_SECTOR \<Rightarrow> Inr (0, recv_sector v c)
      | WS_RECV_DATA \<Rightarrow>
          if m_cmd_step c < length (m_temp_sector c)
          then Inr (0, c\<lparr>m_temp_sector := (m_temp_sector c)[m_cmd_step c := v]\<rparr>) else Inl UndefinedBehaviour
      | WS_RECV_CHECKSUM \<Rightarrow>
          Inr (0, c\<lparr>m_is_checksum_valid :=
                 m_is_sector_valid c \<and> compute_temp_sector_checksum (m_selected_sector c) c = v\<rparr>)
      | WS_SEND_ACK \<Rightarrow> bindE (byte_at (m_cmd_step c) CMD_ACK) (\<lambda>b. Inr (b, c))
      | WS_SEND_END_BYTE \<Rightarrow>
          if \<not> m_is_sector_valid c then Inr (BAD_SECTOR, c)
          else if \<not> m_is_checksum_valid c then Inr (BAD_CHECKSUM, c)
          else bindE (put_sector (unat (m_selected_sector c)) (take LOGICAL_SECTOR_SIZE (m_temp_sector c)) (m_mc_buffer c))
            (\<lambda>b. Inr (END_BYTE, c\<lparr>m_mc_buffer := b, m_update_seq_number := m_update_seq_number c + 1\<rparr>)))"

definition write_advance :: "memcard \<Rightarrow> memcard" where
  "write_advance c =
     (let c = c\<lparr>m_cmd_step := m_cmd_step c + 1\<rparr> in
      if m_cmd_step c \<noteq> m_cmd_max_steps c then c
      else
        let c = c\<lparr>m_cmd_step := 0\<rparr> in
        if m_wr_status c = WS_SEND_END_BYTE
        then c\<lparr>m_state := Card_IDLE, m_selected_sector := 0, m_flag := FLAG_DIR_READ\<rparr>
        else c\<lparr>m_wr_status := ws_next (m_wr_status c), m_cmd_max_steps := ws_steps (ws_next (m_wr_status c))\<rparr>)"

definition write_byte :: "u8 \<Rightarrow> memcard \<Rightarrow> (u8 \<times> memcard) result" where
  "write_byte v c = bindE (write_answer v c) (\<lambda>(b, c). Inr (b, write_advance c))"

definition card_send :: "u8 \<Rightarrow> memcard \<Rightarrow> (u8 \<times> memcard) result" where
  "card_send v c =
     (case m_state c of
        Card_IDLE \<Rightarrow> Inr (idle_byte v c)
      | Card_GETID \<Rightarrow> Inl DebugBreak
      | Card_READ \<Rightarrow> read_byte v c
      | Card_WRITE \<Rightarrow> write_byte v c)"

definition card_ack :: "memcard \<Rightarrow> bool" where
  "card_ack c = True"

end
