(* ===== verification/Sio.thy ===== *)
theory Sio
  imports Dma Pad Memcard
begin

text \<open>
  The serial ports (\<open>SIOPort.cpp\<close>) and the driver that shares a port between a controller and a
  memory card (\<open>SIOPadMemcardDriver.cpp\<close>): registers, the receive buffer, and the transfer of a
  byte, whose end is an event of the scheduler.
\<close>

section \<open>The driver\<close>

datatype card = Null_card | Official_card memcard

definition any_card_send :: "u8 \<Rightarrow> card \<Rightarrow> (u8 \<times> card) result" where
  "any_card_send v c =
     (case c of
        Null_card \<Rightarrow> Inr (0xFF, c)
      | Official_card m \<Rightarrow> bindE (card_send v m) (\<lambda>(b, m). Inr (b, Official_card m)))"

definition any_card_ack :: "card \<Rightarrow> bool" where
  "any_card_ack c = (case c of Null_card \<Rightarrow> False | Official_card m \<Rightarrow> card_ack m)"

definition any_card_reset :: "card \<Rightarrow> card" where
  "any_card_reset c = (case c of Null_card \<Rightarrow> c | Official_card m \<Rightarrow> Official_card (card_reset m))"

datatype selected_device = No_device | Pad_device | Memcard_device

record driver =
  m_selected :: selected_device
  m_controller :: controller
  m_card :: card

definition select_device :: "u8 \<Rightarrow> driver \<Rightarrow> driver" where
  "select_device address d =
     (if address = 0 then d\<lparr>m_selected := No_device\<rparr>
      else if address = 1 then d\<lparr>m_selected := Pad_device\<rparr>
      else if address = 0x81 then d\<lparr>m_selected := Memcard_device\<rparr>
      else d)"

text \<open>The answer, whether it is data, and the driver.\<close>

definition driver_send :: "u8 \<Rightarrow> driver \<Rightarrow> (u8 \<times> bool \<times> driver) result" where
  "driver_send v d =
     (case m_selected d of
        No_device \<Rightarrow> Inr (0xFF, False, select_device v d)
      | Pad_device \<Rightarrow> bindE (controller_send v (m_controller d)) (\<lambda>(b, c). Inr (b, True, d\<lparr>m_controller := c\<rparr>))
      | Memcard_device \<Rightarrow> bindE (any_card_send v (m_card d)) (\<lambda>(b, c). Inr (b, True, d\<lparr>m_card := c\<rparr>)))"

definition driver_ack :: "driver \<Rightarrow> bool \<times> driver" where
  "driver_ack d =
     (let (ack, d) =
            (case m_selected d of
               No_device \<Rightarrow> (False, d)
             | Pad_device \<Rightarrow> (let (a, c) = controller_ack (m_controller d) in (a, d\<lparr>m_controller := c\<rparr>))
             | Memcard_device \<Rightarrow> (any_card_ack (m_card d), d))
      in (ack, if ack then d else d\<lparr>m_selected := No_device\<rparr>))"

definition unselect :: "driver \<Rightarrow> driver" where
  "unselect d = d\<lparr>m_selected := No_device, m_controller := controller_reset (m_controller d),
     m_card := any_card_reset (m_card d)\<rparr>"

section \<open>The port\<close>

record sio_port =
  m_pending_transfer :: bool
  m_new_transfer :: bool
  m_tx_enable_latch :: bool
  m_tx_data :: u8
  m_old_tx :: u8
  m_new_rx_data :: u8
  m_has_ack :: bool
  m_has_data :: bool
  rx_entries :: "u8 list"
  rx_num_bytes :: nat
  m_stat :: u32
  m_sio_mode :: u16
  m_sio_control :: u16
  m_baud_rate :: u16
  m_baud_counter :: u16
  m_clocks_per_bit :: u64
  m_event_id :: u64
  m_port1 :: "driver option"
  m_port2 :: "driver option"

record 'h psx_sio = "'h psx_dma" +
  m_sio :: "sio_port list"

definition sio_new :: sio_port where
  "sio_new = \<lparr>m_pending_transfer = False, m_new_transfer = False, m_tx_enable_latch = False, m_tx_data = 0,
     m_old_tx = 0, m_new_rx_data = 0, m_has_ack = False, m_has_data = False, rx_entries = replicate 8 0,
     rx_num_bytes = 0, m_stat = put_flag 0 True (put_flag 2 True 0), m_sio_mode = 0, m_sio_control = 0,
     m_baud_rate = 0, m_baud_counter = 0, m_clocks_per_bit = 0, m_event_id = INVALID_EVENT,
     m_port1 = None, m_port2 = None\<rparr>"

definition tx_not_full :: "u32 \<Rightarrow> bool" where "tx_not_full w = bit w 0"
definition tx_idle :: "u32 \<Rightarrow> bool" where "tx_idle w = bit w 2"
definition set_tx_not_full :: "bool \<Rightarrow> sio_port \<Rightarrow> sio_port" where
  "set_tx_not_full b p = p\<lparr>m_stat := put_flag 0 b (m_stat p)\<rparr>"
definition set_rx_not_empty :: "bool \<Rightarrow> sio_port \<Rightarrow> sio_port" where
  "set_rx_not_empty b p = p\<lparr>m_stat := put_flag 1 b (m_stat p)\<rparr>"
definition set_tx_idle :: "bool \<Rightarrow> sio_port \<Rightarrow> sio_port" where
  "set_tx_idle b p = p\<lparr>m_stat := put_flag 2 b (m_stat p)\<rparr>"

definition baudrate_reload_factor :: "u16 \<Rightarrow> nat" where "baudrate_reload_factor w = unat (get_bits 0 2 w)"
definition char_len :: "u16 \<Rightarrow> u16" where "char_len w = get_bits 2 2 w"

definition tx_enable :: "u16 \<Rightarrow> bool" where "tx_enable w = bit w 0"
definition dtr_output_level :: "u16 \<Rightarrow> bool" where "dtr_output_level w = bit w 1"
definition rx_enable :: "u16 \<Rightarrow> bool" where "rx_enable w = bit w 2"
definition rx_irq_after_n_bytes :: "u16 \<Rightarrow> nat" where "rx_irq_after_n_bytes w = unat (get_bits 8 2 w)"
definition rx_int_enable :: "u16 \<Rightarrow> bool" where "rx_int_enable w = bit w 11"
definition dsr_int_enable :: "u16 \<Rightarrow> bool" where "dsr_int_enable w = bit w 12"
definition port_select :: "u16 \<Rightarrow> bool" where "port_select w = bit w 13"

definition PAD_CARD_IRQ :: u32 where "PAD_CARD_IRQ = 0x80"

definition MULS :: "u32 list" where "MULS = [1, 1, 16, 64]"
definition N_BYTES :: "nat list" where "N_BYTES = [1, 2, 4, 8]"

definition port_at :: "nat \<Rightarrow> ('h, 'm) psx_sio_scheme \<Rightarrow> sio_port" where
  "port_at k s = m_sio s ! k"

definition upd_port :: "nat \<Rightarrow> (sio_port \<Rightarrow> sio_port) \<Rightarrow> ('h, 'm) psx_sio_scheme \<Rightarrow> ('h, 'm) psx_sio_scheme" where
  "upd_port k f s = s\<lparr>m_sio := (m_sio s)[k := f (m_sio s ! k)]\<rparr>"

definition compute_clocks_per_bit :: "nat \<Rightarrow> sio_port \<Rightarrow> sio_port" where
  "compute_clocks_per_bit k p =
     (let mul = MULS ! baudrate_reload_factor (m_sio_mode p);
          n = (ucast (m_baud_rate p) * mul) AND NOT 1
      in p\<lparr>m_clocks_per_bit := ucast (if k = 0 then max n 1 else max n mul)\<rparr>)"

definition get_transfer_time :: "sio_port \<Rightarrow> u64" where
  "get_transfer_time p = (ucast (char_len (m_sio_mode p)) + 5) * m_clocks_per_bit p"

section \<open>Transfers\<close>

text \<open>The exchange with the device of the selected port; calling through a null pointer is undefined.\<close>

definition exchange_byte :: "sio_port \<Rightarrow> sio_port result" where
  "exchange_byte p =
     (case (if port_select (m_sio_control p) then m_port2 p else m_port1 p) of
        None \<Rightarrow> Inl UndefinedBehaviour
      | Some d \<Rightarrow>
          bindE (driver_send (m_old_tx p) d) (\<lambda>(b, data, d).
            let (ack, d) = driver_ack d;
                p = p\<lparr>m_new_rx_data := b, m_has_data := data, m_has_ack := ack\<rparr>
            in Inr (if port_select (m_sio_control p) then p\<lparr>m_port2 := Some d\<rparr> else p\<lparr>m_port1 := Some d\<rparr>)))"

definition can_transfer :: "sio_port \<Rightarrow> bool" where
  "can_transfer p \<longleftrightarrow> m_pending_transfer p \<and> (tx_enable (m_sio_control p) \<or> m_tx_enable_latch p) \<and>
     tx_idle (m_stat p) \<and> dtr_output_level (m_sio_control p)"

definition handle_pending_transfer ::
  "nat \<Rightarrow> ('h, 'm) psx_sio_scheme \<Rightarrow> ('h, 'm) psx_sio_scheme result" where
  "handle_pending_transfer k s =
     (let p = port_at k s; delay = get_transfer_time p in
      if \<not> can_transfer p then Inr s
      else
        bindE (exchange_byte (set_tx_not_full True (set_tx_idle False p))) (\<lambda>p.
          let (i, s) = schedule delay (Some Transfer_end_callback) (of_nat k) (upd_port k (\<lambda>_. p) s)
          in Inr (upd_port k (\<lambda>p. p\<lparr>m_event_id := i\<rparr>) s)))"

text \<open>A byte arrives: the port and whether it asks for an interrupt.\<close>

definition receive_byte :: "nat \<Rightarrow> sio_port \<Rightarrow> bool \<times> sio_port" where
  "receive_byte k p =
     (let c = m_sio_control p in
      if (k = 1 \<and> rx_enable c) \<or> (k = 0 \<and> dtr_output_level c \<and> \<not> rx_enable c) \<or> (k = 0 \<and> rx_enable c) then
        (let p = (if k = 0 \<and> rx_enable c then p\<lparr>m_sio_control := put_flag 2 False c\<rparr> else p) in
         if rx_num_bytes p = 8 then
           (let p = p\<lparr>rx_entries := (rx_entries p)[7 := m_new_rx_data p]\<rparr>
            in (False, if k = 1 then p\<lparr>m_stat := put_flag 4 True (m_stat p)\<rparr> else p))
         else
           (let p = p\<lparr>rx_entries := (rx_entries p)[rx_num_bytes p := m_new_rx_data p],
                      rx_num_bytes := rx_num_bytes p + 1\<rparr>
            in (rx_int_enable c \<and> rx_num_bytes p = N_BYTES ! rx_irq_after_n_bytes c, set_rx_not_empty True p)))
      else (False, p))"

text \<open>The port after a transfer, and whether it requests the interrupt.\<close>

definition complete_port :: "nat \<Rightarrow> sio_port \<Rightarrow> bool \<times> sio_port" where
  "complete_port k p =
     (let p = set_tx_idle True p;
          p = p\<lparr>m_pending_transfer := m_new_transfer p, m_old_tx := m_tx_data p\<rparr>;
          (full, p') = receive_byte k p;
          request = (m_has_ack p \<and> dsr_int_enable (m_sio_control p) \<or> full);
          p' = (if request then p'\<lparr>m_stat := put_flag 9 True (m_stat p')\<rparr> else p')
      in (request, p'\<lparr>m_event_id := INVALID_EVENT\<rparr>))"

definition transfer_complete ::
  "nat \<Rightarrow> ('h, 'm) psx_sio_scheme \<Rightarrow> ('h, 'm) psx_sio_scheme result" where
  "transfer_complete k s =
     (let (request, p) = complete_port k (port_at k s); s = upd_port k (\<lambda>_. p) s
      in handle_pending_transfer k (if request then raise_interrupt PAD_CARD_IRQ s else s))"

text \<open>A read of the data or the status finishes the transfer under way.\<close>

definition finish_transfer ::
  "nat \<Rightarrow> ('h, 'm) psx_sio_scheme \<Rightarrow> ('h, 'm) psx_sio_scheme result" where
  "finish_transfer k s =
     (if m_event_id (port_at k s) = INVALID_EVENT then Inr s
      else transfer_complete k (snd (deschedule (m_event_id (port_at k s)) s)))"

section \<open>Registers\<close>

definition pop_rx :: "sio_port \<Rightarrow> sio_port" where
  "pop_rx p =
     (let p = p\<lparr>rx_entries := tl (rx_entries p) @ [last (rx_entries p)], rx_num_bytes := rx_num_bytes p - 1\<rparr>
      in if rx_num_bytes p = 0 then set_rx_not_empty False p else p)"

definition sio_read8 ::
  "nat \<Rightarrow> u32 \<Rightarrow> ('h, 'm) psx_sio_scheme \<Rightarrow> (u8 \<times> ('h, 'm) psx_sio_scheme) result" where
  "sio_read8 k address s =
     (if \<not> in_word 0 address then Inl DebugBreak
      else
        bindE (finish_transfer k s) (\<lambda>s.
          let p = port_at k s; offset = unat address in
          if rx_num_bytes p \<le> offset then Inr (0, s)
          else
            Inr (rx_entries p ! offset,
              if offset \<noteq> 0 then s
              else upd_port k pop_rx s)))"

text \<open>Several reads of the data register, the first in the low byte.\<close>

fun sio_read_bytes ::
  "nat \<Rightarrow> nat \<Rightarrow> ('h, 'm) psx_sio_scheme \<Rightarrow> (u32 \<times> ('h, 'm) psx_sio_scheme) result" where
  "sio_read_bytes 0 k s = Inr (0, s)"
| "sio_read_bytes (Suc n) k s =
     bindE (sio_read8 k 0 s) (\<lambda>(b, s). bindE (sio_read_bytes n k s) (\<lambda>(v, s). Inr (ucast b OR push_bit 8 v, s)))"

definition in_half :: "u32 \<Rightarrow> u32 \<Rightarrow> bool" where
  "in_half r address \<longleftrightarrow> address \<ge> r \<and> address < r + 2"

definition sio_read_stat ::
  "nat \<Rightarrow> ('h, 'm) psx_sio_scheme \<Rightarrow> (u32 \<times> ('h, 'm) psx_sio_scheme) result" where
  "sio_read_stat k s =
     bindE (finish_transfer k s) (\<lambda>s.
       let p = port_at k s in
       if m_baud_rate p = 0 then Inl UndefinedBehaviour
       else
         let timer = (ucast (m_curr_timestamp s mod ucast (m_baud_rate p)) :: u32)
         in Inr (m_stat p OR push_bit 11 timer, upd_port k (\<lambda>p. p\<lparr>m_stat := put_flag 7 (\<not> m_has_ack p) (m_stat p)\<rparr>) s))"

definition sio_read16 ::
  "nat \<Rightarrow> u32 \<Rightarrow> ('h, 'm) psx_sio_scheme \<Rightarrow> (u32 \<times> ('h, 'm) psx_sio_scheme) result" where
  "sio_read16 k address s =
     (if in_word 0 address then (if address = 2 then Inl DebugBreak else sio_read_bytes 2 k s)
      else if in_word 4 address then
        bindE (sio_read_stat k s) (\<lambda>(v, s). Inr (drop_bit (8 * (unat (address - 4) div 2)) v AND 0xFFFF, s))
      else if in_half 8 address then Inr (ucast (m_sio_mode (port_at k s)), s)
      else if in_half 0xA address then Inr (ucast (m_sio_control (port_at k s)), s)
      else if in_half 0xE address then Inr (ucast (m_baud_rate (port_at k s)), s)
      else Inr (0, s))"

definition sio_read32 ::
  "nat \<Rightarrow> u32 \<Rightarrow> ('h, 'm) psx_sio_scheme \<Rightarrow> (u32 \<times> ('h, 'm) psx_sio_scheme) result" where
  "sio_read32 k address s =
     (let p = port_at k s in
      if in_word 0 address then sio_read_bytes 4 k s
      else if in_word 4 address then sio_read_stat k s
      else if address \<ge> 8 \<and> address < 0xC then
        Inr (ucast (m_sio_mode p) OR push_bit 16 (ucast (m_sio_control p)), s)
      else if address \<ge> 0xC \<and> address < 0x10 then Inr (push_bit 16 (ucast (m_baud_rate p)), s)
      else Inr (0, s))"

definition write_baud :: "nat \<Rightarrow> u16 \<Rightarrow> sio_port \<Rightarrow> sio_port" where
  "write_baud k value p =
     compute_clocks_per_bit k (p\<lparr>m_baud_rate := value,
       m_baud_counter := ucast ((ucast value * MULS ! baudrate_reload_factor (m_sio_mode p)) div 2)\<rparr>)"

definition write_mode :: "nat \<Rightarrow> u16 \<Rightarrow> sio_port \<Rightarrow> sio_port" where
  "write_mode k value p =
     (let v = value AND 0x1FF; v = (if k = 0 then put_bits 6 2 0 v else put_flag 8 False v)
      in compute_clocks_per_bit k (p\<lparr>m_sio_mode := v\<rparr>))"

definition queue_tx :: "u8 \<Rightarrow> sio_port \<Rightarrow> sio_port" where
  "queue_tx value p =
     (let p = set_tx_not_full False (p\<lparr>m_tx_enable_latch := tx_enable (m_sio_control p)\<rparr>)
      in if m_pending_transfer p then p\<lparr>m_new_transfer := True, m_tx_data := value\<rparr>
         else p\<lparr>m_pending_transfer := True, m_old_tx := value\<rparr>)"

text \<open>The change of the control register up to the start of a transfer, and the bits that act after it.\<close>

definition change_control :: "u16 \<Rightarrow> sio_port \<Rightarrow> sio_port" where
  "change_control value p =
     (let old = m_sio_control p; p = p\<lparr>m_sio_control := value\<rparr>;
          p = (if port_select old \<noteq> port_select value then
                 (let p = (if \<not> port_select old \<and> m_port1 p \<noteq> None then p\<lparr>m_port1 := map_option unselect (m_port1 p)\<rparr>
                           else p\<lparr>m_port2 := map_option unselect (m_port2 p)\<rparr>)
                  in set_rx_not_empty False (p\<lparr>rx_num_bytes := 0\<rparr>))
               else p)
      in if \<not> dtr_output_level value
         then p\<lparr>m_port1 := map_option unselect (m_port1 p), m_port2 := map_option unselect (m_port2 p)\<rparr> else p)"

definition ack_control :: "sio_port \<Rightarrow> sio_port" where
  "ack_control p =
     (let p = (if bit (m_sio_control p) 4
               then p\<lparr>m_sio_control := put_flag 4 False (m_sio_control p),
                      m_stat := put_flag 9 False (put_bits 3 3 0 (m_stat p))\<rparr> else p)
      in if bit (m_sio_control p) 6 then p\<lparr>m_sio_control := put_flag 6 False (m_sio_control p)\<rparr> else p)"

definition sio_write16 ::
  "nat \<Rightarrow> u32 \<Rightarrow> u16 \<Rightarrow> ('h, 'm) psx_sio_scheme \<Rightarrow> ('h, 'm) psx_sio_scheme result" where
  "sio_write16 k address value s =
     (if in_half 0xE address then Inr (upd_port k (write_baud k value) s)
      else if in_word 4 address then Inr s
      else if in_word 0 address then
        (if \<not> tx_not_full (m_stat (port_at k s)) then Inr s
         else handle_pending_transfer k (upd_port k (queue_tx (ucast value)) s))
      else if in_half 8 address then Inr (upd_port k (write_mode k value) s)
      else if in_half 0xA address then
        (let old = tx_enable (m_sio_control (port_at k s)); s = upd_port k (change_control value) s
         in bindE (if \<not> old \<and> tx_enable value then handle_pending_transfer k s else Inr s) (\<lambda>s.
              Inr (upd_port k ack_control s)))
      else Inr s)"

text \<open>The shift of an 8-bit write is by the address; a shift of a 32-bit integer by 32 or more is undefined.\<close>

definition sio_write8 ::
  "nat \<Rightarrow> u32 \<Rightarrow> u8 \<Rightarrow> ('h, 'm) psx_sio_scheme \<Rightarrow> ('h, 'm) psx_sio_scheme result" where
  "sio_write8 k address value s =
     (let a = address AND NOT 1 in
      if 32 \<le> 8 * unat a then Inl UndefinedBehaviour
      else sio_write16 k a (ucast (push_bit (8 * unat a) (ucast value :: u32))) s)"

definition sio_port_read ::
  "nat \<Rightarrow> width \<Rightarrow> u32 \<Rightarrow> ('h, 'm) psx_sio_scheme \<Rightarrow> (u32 \<times> ('h, 'm) psx_sio_scheme) result" where
  "sio_port_read k w address s =
     (case w of
        W32 \<Rightarrow> sio_read32 k address s
      | W16 \<Rightarrow> sio_read16 k address s
      | W8 \<Rightarrow> bindE (sio_read8 k address s) (\<lambda>(b, s). Inr (ucast b, s)))"

definition sio_port_write ::
  "nat \<Rightarrow> width \<Rightarrow> u32 \<Rightarrow> u32 \<Rightarrow> ('h, 'm) psx_sio_scheme \<Rightarrow> ('h, 'm) psx_sio_scheme result" where
  "sio_port_write k w address value s =
     (case w of
        W32 \<Rightarrow> sio_write16 k address (ucast value) s
      | W16 \<Rightarrow> sio_write16 k address (ucast value) s
      | W8 \<Rightarrow> sio_write8 k address (ucast value) s)"

end
