(* ===== verification/PadSpec.thy ===== *)
theory PadSpec
  imports Pad
begin

text \<open>
  The controller's queues never overflow, whatever the program sends, and a poll returns the
  buttons. A byte is an exchange: it is sent and then acknowledged, as the port does.
\<close>

section \<open>The queues as lists\<close>

definition fifos :: "pad \<Rightarrow> bool" where
  "fifos p \<longleftrightarrow> queue_ok (m_response p) \<and> length (arr (m_response p)) = 16 \<and>
     queue_ok (m_in_fifo p) \<and> length (arr (m_in_fifo p)) = 32"

definition resp :: "pad \<Rightarrow> u8 list" where "resp p = queue_contents (m_response p)"
definition inq :: "pad \<Rightarrow> u8 list" where "inq p = queue_contents (m_in_fifo p)"

lemma push_all_ok:
  assumes "queue_ok q" "length (queue_contents q) + length xs \<le> length (arr q)"
  obtains q' where "push_all xs q = Inr q'" "queue_ok q'" "length (arr q') = length (arr q)"
    "queue_contents q' = queue_contents q @ xs"
proof -
  have "\<exists>q'. push_all xs q = Inr q' \<and> queue_ok q' \<and> length (arr q') = length (arr q) \<and>
    queue_contents q' = queue_contents q @ xs"
    using assms
  proof (induction xs arbitrary: q)
    case (Cons x xs)
    then obtain q1 where q1: "queue_push x q = Inr q1" "queue_ok q1" "length (arr q1) = length (arr q)"
      "queue_contents q1 = queue_contents q @ [x]"
      using cq.enq_room[of q x] by auto
    then obtain q2 where "push_all xs q1 = Inr q2" "queue_ok q2" "length (arr q2) = length (arr q1)"
      "queue_contents q2 = queue_contents q1 @ xs"
      using Cons.IH[of q1] Cons.prems by auto
    then show ?case using q1 by auto
  qed simp
  then show thesis using that by blast
qed

lemma respond_ok:
  assumes "fifos p" "length (resp p) + length bs \<le> 16"
  obtains q where "respond bs p = Inr (p\<lparr>m_response := q\<rparr>)" "fifos (p\<lparr>m_response := q\<rparr>)"
    "queue_contents q = resp p @ bs"
proof (rule push_all_ok[of "m_response p" bs])
  show "queue_ok (m_response p)" using assms by (simp add: fifos_def)
  show "length (queue_contents (m_response p)) + length bs \<le> length (arr (m_response p))"
    using assms by (simp add: fifos_def resp_def)
  fix q
  assume "push_all bs (m_response p) = Inr q" "queue_ok q" "length (arr q) = length (arr (m_response p))"
    "queue_contents q = queue_contents (m_response p) @ bs"
  then show thesis using assms(1) by (intro that[of q]) (simp_all add: respond_def resp_def fifos_def)
qed

lemma take_in_ok:
  assumes "fifos p" "length (inq p) < 32"
  obtains q where "take_in v p = Inr (p\<lparr>m_in_fifo := q\<rparr>)" "fifos (p\<lparr>m_in_fifo := q\<rparr>)"
    "queue_contents q = inq p @ [v]"
  using cq.enq_room[of "m_in_fifo p" v] assms by (auto simp: take_in_def fifos_def inq_def)

lemma next_ins_ok:
  assumes "fifos p" "inq p = vs @ ws"
  obtains q where "next_ins (length vs) p = Inr (vs, p\<lparr>m_in_fifo := q\<rparr>)" "fifos (p\<lparr>m_in_fifo := q\<rparr>)"
    "queue_contents q = ws"
proof -
  have "\<exists>q. next_ins (length vs) p = Inr (vs, p\<lparr>m_in_fifo := q\<rparr>) \<and> fifos (p\<lparr>m_in_fifo := q\<rparr>) \<and> queue_contents q = ws"
    using assms
  proof (induction vs arbitrary: p)
    case Nil
    then show ?case by (intro exI[of _ "m_in_fifo p"]) (simp add: inq_def)
  next
    case (Cons v vs)
    obtain q1 where q1: "queue_deque (m_in_fifo p) = Inr (v, q1)" "queue_ok q1" "length (arr q1) = length (arr (m_in_fifo p))"
      "queue_contents q1 = vs @ ws"
      using cq.deq_head[of "m_in_fifo p" v "vs @ ws"] Cons.prems by (auto simp: fifos_def inq_def)
    then have "fifos (p\<lparr>m_in_fifo := q1\<rparr>)" "inq (p\<lparr>m_in_fifo := q1\<rparr>) = vs @ ws"
      using Cons.prems by (simp_all add: fifos_def inq_def)
    then show ?case using Cons.IH[of "p\<lparr>m_in_fifo := q1\<rparr>"] q1 by (auto simp: next_in_def)
  qed
  then show thesis using that by blast
qed

lemma clear_in_ok: "fifos p \<Longrightarrow> fifos (clear_in p) \<and> inq (clear_in p) = [] \<and> resp (clear_in p) = resp p"
  using cq.reset_ok[of "m_in_fifo p"] by (simp add: fifos_def clear_in_def inq_def resp_def)

lemma queue_empty_iff: "queue_ok q \<Longrightarrow> queue_empty q \<longleftrightarrow> queue_contents q = []"
  by (auto simp: queue_empty_def queue_contents_def queue_ok_def unat_eq_0)

lemma queue_len: "queue_ok q \<Longrightarrow> m_curr_size q = of_nat (length (queue_contents q))"
  by (simp add: length_queue_contents)

lemma answer_ok:
  assumes "fifos p"
  obtains q where "answer p = Inr (case resp p of [] \<Rightarrow> 0xFF | b # bs \<Rightarrow> b,
      let p' = p\<lparr>m_response := q\<rparr> in if tl (resp p) = [] \<and> m_status p = Pad_READ_STAT then p'\<lparr>m_status := Pad_COMMAND_END\<rparr> else p')"
    "fifos (p\<lparr>m_response := q\<rparr>)" "queue_contents q = tl (resp p)"
proof (cases "resp p")
  case Nil
  then show ?thesis
    using that[of "m_response p"] assms by (simp add: answer_def queue_empty_iff fifos_def resp_def Let_def)
next
  case (Cons b bs)
  then obtain q where q: "queue_deque (m_response p) = Inr (b, q)" "queue_ok q"
    "length (arr q) = length (arr (m_response p))" "queue_contents q = bs"
    using cq.deq_head[of "m_response p" b bs] assms by (auto simp: fifos_def resp_def)
  show ?thesis
    by (rule that[of q]) (use q assms Cons in \<open>simp_all add: answer_def queue_empty_iff fifos_def resp_def Let_def\<close>)
qed

section \<open>The states between exchanges\<close>

definition exchange :: "u8 \<Rightarrow> pad \<Rightarrow> ((u8 \<times> bool) \<times> pad) result" where
  "exchange v p = bindE (pad_send v p) (\<lambda>(b, p). let (a, p) = pad_ack p in Inr ((b, a), p))"

definition tlen :: "pad \<Rightarrow> nat" where "tlen p = (if m_pad_mode p = ANALOG then 9 else 5)"

definition pad_inv :: "pad \<Rightarrow> bool" where
  "pad_inv p \<longleftrightarrow> fifos p \<and> length (m_curr_rumble_protocol p) = 6 \<and>
     (case m_status p of
        Pad_IDLE \<Rightarrow> resp p = [] \<and> inq p = []
      | Pad_READ_STAT \<Rightarrow> length (resp p) \<le> 7 \<and> inq p = []
      | Pad_COMMAND_END \<Rightarrow> False
      | Pad_CONFIG \<Rightarrow>
          (case m_conf_status p of
             JUST_ENTERED \<Rightarrow> length (inq p) < tlen p - 2 \<and> length (resp p) + length (inq p) \<le> tlen p - 2
           | CONFIG_IDLE \<Rightarrow> length (inq p) \<le> 7 \<and> length (resp p) \<le> 8 - length (inq p) \<and> (inq p = [] \<longrightarrow> resp p = []) \<and>
               (inq p \<noteq> [] \<and> hd (inq p) \<in> {RESPONSE_A_cmd, RESPONSE_B_cmd} \<and> length (inq p) \<le> 2 \<longrightarrow>
                  length (resp p) \<le> 2 - length (inq p))
           | CONFIG_COMMAND_END \<Rightarrow> False))"

abbreviation pad_faults :: "fault set" where "pad_faults \<equiv> {DebugBreak, Unreachable}"

text \<open>The state a command leaves, before the answer is taken and the byte acknowledged.\<close>

definition pad_mid :: "pad \<Rightarrow> bool" where
  "pad_mid p \<longleftrightarrow> fifos p \<and> length (m_curr_rumble_protocol p) = 6 \<and>
     (case m_status p of
        Pad_IDLE \<Rightarrow> resp p = [] \<and> inq p = []
      | Pad_READ_STAT \<Rightarrow> length (resp p) \<le> 8 \<and> inq p = []
      | Pad_COMMAND_END \<Rightarrow> length (resp p) \<le> 1 \<and> inq p = []
      | Pad_CONFIG \<Rightarrow>
          (case m_conf_status p of
             JUST_ENTERED \<Rightarrow> length (inq p) < tlen p - 2 \<and> length (resp p) + length (inq p) \<le> tlen p - 1
           | CONFIG_IDLE \<Rightarrow> 0 < length (inq p) \<and> length (inq p) \<le> 7 \<and> length (resp p) \<le> 9 - length (inq p) \<and>
               (hd (inq p) \<in> {RESPONSE_A_cmd, RESPONSE_B_cmd} \<and> length (inq p) \<le> 2 \<longrightarrow>
                  length (resp p) \<le> 3 - length (inq p))
           | CONFIG_COMMAND_END \<Rightarrow> length (resp p) \<le> 1 \<and> inq p = []))"

lemma tl_short: "length xs \<le> Suc 0 \<Longrightarrow> tl xs = []"
  by (cases xs) auto

lemma small_len: "n \<le> 32 \<Longrightarrow> k \<le> 32 \<Longrightarrow> (of_nat n :: u64) = of_nat k \<longleftrightarrow> n = k"
proof -
  assume "n \<le> 32" "k \<le> 32"
  then have "unat (of_nat n :: u64) = n" "unat (of_nat k :: u64) = k" by (simp_all add: unat_of_nat take_bit_nat_eq_self)
  then show ?thesis by metis
qed

lemma exchange_after_mid:
  assumes "pad_mid p"
  shows "ensures pad_faults (\<lambda>(r, p'). pad_inv p') (bindE (answer p) (\<lambda>(b, p). let (a, p) = pad_ack p in Inr ((b, a), p)))"
proof -
  have f: "fifos p" using assms by (simp add: pad_mid_def)
  obtain q where q: "answer p = Inr (case resp p of [] \<Rightarrow> 0xFF | b # bs \<Rightarrow> b,
      let p' = p\<lparr>m_response := q\<rparr> in if tl (resp p) = [] \<and> m_status p = Pad_READ_STAT then p'\<lparr>m_status := Pad_COMMAND_END\<rparr> else p')"
    "fifos (p\<lparr>m_response := q\<rparr>)" "queue_contents q = tl (resp p)"
    using answer_ok[OF f] .
  have e: "fifos (p\<lparr>m_response := q, m_status := st\<rparr>) = fifos (p\<lparr>m_response := q\<rparr>)"
    "fifos (p\<lparr>m_response := q, m_conf_status := cs\<rparr>) = fifos (p\<lparr>m_response := q\<rparr>)" for st cs
    by (simp_all add: fifos_def)
  show ?thesis
    using assms q(2,3)
    by (cases "m_status p"; cases "m_conf_status p")
      (auto simp: q(1) pad_mid_def pad_inv_def pad_ack_def resp_def inq_def tlen_def e Let_def tl_short)
qed

lemma idle_mid:
  assumes "pad_inv p" "m_status p = Pad_IDLE"
  shows "ensures pad_faults pad_mid (idle_process_byte v p)"
proof -
  let ?bs = "(if m_pad_mode p = ANALOG then ANALOG_ID else DIGITAL_ID) @ btn_bytes p @
    (if m_pad_mode p = ANALOG then [0x80, 0x80, 0x80, 0x80] else [])"
  have e: "btn_bytes (p\<lparr>m_status := st\<rparr>) = btn_bytes p" for st by (simp add: btn_bytes_def)
  have n: "length ?bs = tlen p - 1" by (simp add: ANALOG_ID_def DIGITAL_ID_def btn_bytes_def tlen_def)
  have p: "fifos (p\<lparr>m_status := st\<rparr>)" "resp (p\<lparr>m_status := st\<rparr>) = []" "inq p = []" "length (m_curr_rumble_protocol p) = 6" for st
    using assms by (simp_all add: pad_inv_def fifos_def resp_def inq_def)
  obtain q where q: "respond ?bs (p\<lparr>m_status := st\<rparr>) = Inr (p\<lparr>m_status := st, m_response := q st\<rparr>)"
    "fifos (p\<lparr>m_status := st, m_response := q st\<rparr>)" "queue_contents (q st) = ?bs" for st
  proof -
    have "\<exists>q. respond ?bs (p\<lparr>m_status := st\<rparr>) = Inr (p\<lparr>m_status := st, m_response := q\<rparr>) \<and>
      fifos (p\<lparr>m_status := st, m_response := q\<rparr>) \<and> queue_contents q = ?bs" for st
      using respond_ok[OF p(1), of st ?bs] p(2) n by (auto simp: tlen_def split: if_splits)
    then show thesis using that by metis
  qed
  have st: "enqueue_status False (p\<lparr>m_status := st\<rparr>) = Inr (p\<lparr>m_status := st, m_response := q st\<rparr>)" for st
    unfolding enqueue_status_def Let_def e using q(1)[of st] by simp
  have f: "fifos (p\<lparr>m_status := st, m_response := q st, m_conf_status := cs\<rparr>)" for st cs
    using q(2)[of st] by (simp add: fifos_def)
  show ?thesis
    using n p(3,4) f q(2)
    by (auto simp: idle_process_byte_def st pad_mid_def resp_def inq_def q(3) tlen_def)
qed

lemma just_entered_mid:
  assumes "pad_inv p" "m_status p = Pad_CONFIG" "m_conf_status p = JUST_ENTERED"
  shows "ensures pad_faults pad_mid (just_entered v p)"
proof -
  have p: "fifos p" "length (inq p) < tlen p - 2" "length (resp p) + length (inq p) \<le> tlen p - 2"
    "length (m_curr_rumble_protocol p) = 6"
    using assms by (simp_all add: pad_inv_def)
  obtain q where q: "take_in v p = Inr (p\<lparr>m_in_fifo := q\<rparr>)" "fifos (p\<lparr>m_in_fifo := q\<rparr>)" "queue_contents q = inq p @ [v]"
    using take_in_ok[OF p(1), of v] p(2) by (auto simp: tlen_def split: if_splits)
  let ?p = "p\<lparr>m_in_fifo := q\<rparr>"
  have t: "get_transfer_length ?p - 2 = of_nat (tlen p - 2)" by (simp add: get_transfer_length_def tlen_def)
  have sz: "m_curr_size q = of_nat (Suc (length (inq p)))"
    using queue_len[of q] q(2,3) by (simp add: fifos_def)
  show ?thesis
  proof (cases "Suc (length (inq p)) = tlen p - 2")
    case False
    then have "m_curr_size q \<noteq> of_nat (tlen p - 2)"
      using p(2) False unfolding sz by (subst small_len) (auto simp: tlen_def split: if_splits)
    then show ?thesis using q p False assms
      by (simp add: just_entered_def t pad_mid_def resp_def inq_def tlen_def)
  next
    case True
    then have "3 \<le> length (inq ?p)" using q(3) by (auto simp: inq_def tlen_def split: if_splits)
    then obtain x y ws where xs: "inq ?p = [x, y] @ ws" by (auto simp: numeral_3_eq_3 Suc_le_length_iff)
    obtain r where r: "next_ins 2 ?p = Inr ([x, y], ?p\<lparr>m_in_fifo := r\<rparr>)" "fifos (?p\<lparr>m_in_fifo := r\<rparr>)"
      using next_ins_ok[OF q(2) xs] by (auto simp: numeral_2_eq_2)
    have c: "fifos (clear_in (?p\<lparr>m_in_fifo := r\<rparr>))" "inq (clear_in (?p\<lparr>m_in_fifo := r\<rparr>)) = []"
      "resp (clear_in (?p\<lparr>m_in_fifo := r\<rparr>)) = resp p"
      using clear_in_ok[OF r(2)] by (simp_all add: resp_def)
    have "length (resp p) \<le> 1" using p(3) True by simp
    moreover have "m_curr_size q = of_nat (tlen p - 2)" unfolding sz True ..
    ultimately show ?thesis using c p(4) assms
      by (simp add: just_entered_def q(1) t r(1) pad_mid_def Let_def clear_in_def fifos_def resp_def inq_def)
  qed
qed

lemma config_command_mid:
  assumes "fifos p" "length (inq p) = 8" "length (resp p) \<le> 1" "length (m_curr_rumble_protocol p) = 6"
    and "m_status p = Pad_CONFIG" "m_conf_status p = CONFIG_IDLE"
  shows "ensures pad_faults pad_mid (config_command_end p)"
proof -
  obtain cmd vs where i: "inq p = [cmd] @ vs" "length vs = 7" using assms(2) by (cases "inq p") auto
  obtain q0 where n: "next_in p = Inr (cmd, p\<lparr>m_in_fifo := q0\<rparr>)" "fifos (p\<lparr>m_in_fifo := q0\<rparr>)" "queue_contents q0 = vs"
    using next_ins_ok[OF assms(1) i(1)] by (auto simp: bindE_Inr_iff split: prod.splits)
  let ?p = "p\<lparr>m_in_fifo := q0\<rparr>"
  have iq: "inq ?p = take k vs @ drop k vs" for k using n(3) by (simp add: inq_def)
  have c: "fifos (clear_in r) \<and> inq (clear_in r) = [] \<and> resp (clear_in r) = resp r" if "fifos r" for r
    by (rule clear_in_ok[OF that])
  have ni: "\<exists>q. next_ins k ?p = Inr (take k vs, ?p\<lparr>m_in_fifo := q\<rparr>) \<and> fifos (?p\<lparr>m_in_fifo := q\<rparr>)" if "k \<le> 7" for k
    using next_ins_ok[OF n(2) iq[of k]] i(2) that by (metis length_take min.absorb2)
  obtain q2 where q2: "next_ins 2 ?p = Inr (take 2 vs, ?p\<lparr>m_in_fifo := q2\<rparr>)" "fifos (?p\<lparr>m_in_fifo := q2\<rparr>)" using ni[of 2] by auto
  obtain q3 where q3: "next_ins 3 ?p = Inr (take 3 vs, ?p\<lparr>m_in_fifo := q3\<rparr>)" "fifos (?p\<lparr>m_in_fifo := q3\<rparr>)" using ni[of 3] by auto
  obtain q7 where q7: "next_ins 7 ?p = Inr (take 7 vs, ?p\<lparr>m_in_fifo := q7\<rparr>)" "fifos (?p\<lparr>m_in_fifo := q7\<rparr>)" using ni[of 7] by auto
  let ?Q = "\<lambda>r. fifos r \<and> length (resp r) \<le> 1 \<and> length (m_curr_rumble_protocol r) = 6 \<and>
    (m_status r = Pad_CONFIG \<and> (cmd = CONFIG_MODE_cmd \<longrightarrow> m_conf_status r = CONFIG_COMMAND_END) \<or>
     cmd = CONFIG_MODE_cmd \<and> m_status r = Pad_COMMAND_END)"
  have last: "ensures pad_faults pad_mid (let r = clear_in r in
      Inr (if cmd \<noteq> CONFIG_MODE_cmd then r\<lparr>m_conf_status := CONFIG_COMMAND_END\<rparr> else r))" if "?Q r" for r
  proof -
    have "fifos (clear_in r) \<and> inq (clear_in r) = [] \<and> resp (clear_in r) = resp r" using clear_in_ok that by simp
    then show ?thesis using that by (auto simp: pad_mid_def Let_def fifos_def inq_def resp_def clear_in_def)
  qed
  have base: "fifos r \<Longrightarrow> fifos (r\<lparr>m_led_state := x, m_key_lock := y, m_pad_mode := z\<rparr>)"
    "fifos r \<Longrightarrow> fifos (r\<lparr>m_conf_status := cs\<rparr>)" "fifos r \<Longrightarrow> fifos (r\<lparr>m_conf_status := cs, m_status := st\<rparr>)"
    "fifos r \<Longrightarrow> fifos (r\<lparr>m_curr_rumble_protocol := ru\<rparr>)" for r x y z cs st ru
    by (simp_all add: fifos_def)
  have led: "?Q ((clear_in (?p\<lparr>m_in_fifo := q3\<rparr>))\<lparr>m_led_state := x, m_key_lock := y, m_pad_mode := z\<rparr>)" if "cmd \<noteq> CONFIG_MODE_cmd" for x y z
    using base(1)[OF conjunct1[OF clear_in_ok[OF q3(2)]]] assms that by (simp add: clear_in_def resp_def)
  have rumble: "?Q (?p\<lparr>m_in_fifo := q7, m_curr_rumble_protocol := tl (take 7 vs)\<rparr>)" if "cmd \<noteq> CONFIG_MODE_cmd"
    using base(4)[OF q7(2)] assms that i(2) by (simp add: resp_def)
  have leave: "?Q (?p\<lparr>m_in_fifo := q2, m_conf_status := JUST_ENTERED, m_status := Pad_COMMAND_END\<rparr>)" if "cmd = CONFIG_MODE_cmd"
    using base(3)[OF q2(2)] assms that by (simp add: resp_def)
  have stay: "?Q (?p\<lparr>m_in_fifo := q2, m_conf_status := CONFIG_COMMAND_END\<rparr>)"
    using base(2)[OF q2(2)] assms by (simp add: resp_def)
  have quiet: "?Q ?p" if "cmd \<noteq> CONFIG_MODE_cmd" using n(2) assms that by (simp add: resp_def)
  have codes: "CONFIG_MODE_cmd \<notin> {READ_cmd, GET_LED_cmd, RESPONSE_A_cmd, WHATEVER_cmd, RESPONSE_B_cmd, SET_LED_cmd, RUMBLE_cmd}"
    by (simp add: READ_cmd_def GET_LED_cmd_def RESPONSE_A_cmd_def WHATEVER_cmd_def RESPONSE_B_cmd_def SET_LED_cmd_def
        RUMBLE_cmd_def CONFIG_MODE_cmd_def)
  show ?thesis
    unfolding config_command_end_def n(1) bindE_simps prod.case
  proof (rule ensures_bind[where Q = ?Q], goal_cases)
    case (2 r)
    then show ?case by (rule last)
  next
    case 1
    have ne: "cmd \<noteq> CONFIG_MODE_cmd" if "cmd \<in> {READ_cmd, GET_LED_cmd, RESPONSE_A_cmd, WHATEVER_cmd, RESPONSE_B_cmd, SET_LED_cmd, RUMBLE_cmd}"
      using that codes by blast
    show ?case
    proof (intro ensures_cond, goal_cases)
      case 1
      then have "cmd \<noteq> CONFIG_MODE_cmd" using ne by blast
      then show ?case unfolding ensures_simps by (rule quiet)
    next
      case 2
      then have "cmd \<noteq> CONFIG_MODE_cmd" using ne by blast
      then show ?case unfolding q3(1) bindE_simps prod.case ensures_simps by (rule led)
    next
      case 3
      then show ?case unfolding q2(1) bindE_simps prod.case ensures_simps using leave stay by simp
    next
      case 4
      then have "cmd \<noteq> CONFIG_MODE_cmd" using ne by blast
      then show ?case unfolding q7(1) bindE_simps prod.case ensures_simps by (rule rumble)
    qed simp
  qed
qed

lemma first_byte_mid:
  assumes "pad_inv p" "m_status p = Pad_CONFIG" "m_conf_status p = CONFIG_IDLE" "inq p = []"
  shows "ensures pad_faults pad_mid (config_idle_process_byte v p)"
proof -
  have f: "fifos p" "resp p = []" "length (m_curr_rumble_protocol p) = 6" using assms by (auto simp: pad_inv_def)
  have step: "ensures pad_faults pad_mid (bindE (respond bs p) (take_in v))"
    if "length bs \<le> 8" "v \<in> {RESPONSE_A_cmd, RESPONSE_B_cmd} \<longrightarrow> length bs \<le> 2" for bs
  proof -
    obtain q where q: "respond bs p = Inr (p\<lparr>m_response := q\<rparr>)" "fifos (p\<lparr>m_response := q\<rparr>)" "queue_contents q = bs"
      using respond_ok[OF f(1), of bs] f(2) \<open>length bs \<le> 8\<close> by auto
    have "inq (p\<lparr>m_response := q\<rparr>) = []" using assms(4) by (simp add: inq_def)
    then obtain r where r: "take_in v (p\<lparr>m_response := q\<rparr>) = Inr (p\<lparr>m_response := q, m_in_fifo := r\<rparr>)"
      "fifos (p\<lparr>m_response := q, m_in_fifo := r\<rparr>)" "queue_contents r = [v]"
      using take_in_ok[OF q(2), of v] by auto
    show ?thesis using that q(3) r f(3) assms
      by (simp add: q(1) pad_mid_def resp_def inq_def)
  qed
  have l: "length CONFIG_ID = 2" "length (btn_bytes p) = 2" by (simp_all add: CONFIG_ID_def btn_bytes_def)
  have fault: "ensures pad_faults pad_mid (bindE (Inl Unreachable) (take_in v))" by simp
  have cmds: "RESPONSE_A_cmd \<notin> {READ_cmd, SET_LED_cmd, GET_LED_cmd}" "RESPONSE_B_cmd \<notin> {READ_cmd, SET_LED_cmd, GET_LED_cmd}"
    by (simp_all add: READ_cmd_def SET_LED_cmd_def GET_LED_cmd_def RESPONSE_A_cmd_def RESPONSE_B_cmd_def)
  show ?thesis unfolding config_idle_process_byte_def if_distrib[of "\<lambda>m. bindE m (take_in v)"]
    by (intro ensures_cond step fault) (use cmds l f(3) in auto)
qed

lemma config_idle_mid:
  assumes "pad_inv p" "m_status p = Pad_CONFIG" "m_conf_status p = CONFIG_IDLE"
  shows "ensures pad_faults pad_mid (config_idle v p)"
proof (cases "inq p = []")
  case True
  then have "queue_empty (m_in_fifo p)" using assms by (simp add: queue_empty_iff inq_def pad_inv_def fifos_def)
  then show ?thesis using first_byte_mid[OF assms True] by (simp add: config_idle_def)
next
  case False
  have f: "fifos p" "length (m_curr_rumble_protocol p) = 6" "length (inq p) \<le> 7" "length (resp p) \<le> 8 - length (inq p)"
    and ab: "hd (inq p) \<in> {RESPONSE_A_cmd, RESPONSE_B_cmd} \<Longrightarrow> length (inq p) \<le> 2 \<Longrightarrow> length (resp p) \<le> 2 - length (inq p)"
    using assms False by (auto simp: pad_inv_def)
  have ne: "\<not> queue_empty (m_in_fifo p)" using False f by (simp add: queue_empty_iff inq_def fifos_def)
  obtain q where q: "take_in v p = Inr (p\<lparr>m_in_fifo := q\<rparr>)" "fifos (p\<lparr>m_in_fifo := q\<rparr>)" "queue_contents q = inq p @ [v]"
    using take_in_ok[OF f(1), of v] f(3) by auto
  let ?p = "p\<lparr>m_in_fifo := q\<rparr>" and ?n = "length (inq p)"
  have sz: "m_curr_size q = of_nat (Suc ?n)" using queue_len[of q] q(2,3) by (simp add: fifos_def)
  have n3: "m_curr_size q = 3 \<longleftrightarrow> ?n = 2" using small_len[of "Suc ?n" 3] f(3) by (simp add: sz)
  have n8: "m_curr_size q = CONFIG_MODE_TRANSFER_LEN - 1 \<longleftrightarrow> ?n = 7"
    using small_len[of "Suc ?n" 8] f(3) by (simp add: sz CONFIG_MODE_TRANSFER_LEN_def)
  show ?thesis
  proof (cases "?n = 2")
    case True
    have q3: "unat (m_curr_size q) = 3" using n3 True by simp
    then have cont: "take 3 (arr q) = inq p @ [v]" using q(3) by (simp add: queue_contents_def)
    have arr: "length (arr q) = 32" using q(2) by (simp add: fifos_def)
    obtain cmd w where iw: "inq p = [cmd, w]" using True by (cases "inq p"; cases "tl (inq p)") auto
    have pk: "queue_peek q = Inr cmd"
      using cont iw arr by (auto simp: queue_peek_def queue_at_def take_Suc_conv_app_nth numeral_3_eq_3 hd_conv_nth[symmetric]
        dest: arg_cong[of _ _ hd] simp: take_hd_drop)
    obtain param where bk: "queue_back q = Inr param"
      using arr n3 True by (auto simp: queue_back_def queue_at_def)
    have l: "length (variable_response cmd param) \<le> 6" "cmd \<notin> {RESPONSE_A_cmd, RESPONSE_B_cmd} \<Longrightarrow> variable_response cmd param = []"
      by (auto simp: variable_response_def)
    have r0: "cmd \<in> {RESPONSE_A_cmd, RESPONSE_B_cmd} \<Longrightarrow> resp p = []" using ab True iw by auto
    have rp: "resp ?p = resp p" by (simp add: resp_def)
    obtain t where t: "respond (variable_response cmd param) ?p = Inr (?p\<lparr>m_response := t\<rparr>)" "fifos (?p\<lparr>m_response := t\<rparr>)"
      "queue_contents t = resp p @ variable_response cmd param"
      using respond_ok[OF q(2), of "variable_response cmd param"] rp l(1) f(4) True by auto
    have "length (resp p) + length (variable_response cmd param) \<le> 6"
      using r0 l f(4) True by (cases "cmd \<in> {RESPONSE_A_cmd, RESPONSE_B_cmd}") auto
    then show ?thesis using True n8 n3 t(2,3) q(3) f(2) assms iw
      by (simp add: config_idle_def ne q(1) pk bk t(1) pad_mid_def resp_def inq_def)
  next
    case n2: False
    show ?thesis
    proof (cases "?n = 7")
      case True
      have "ensures pad_faults pad_mid (config_command_end ?p)"
        by (rule config_command_mid) (use q f assms True in \<open>simp_all add: inq_def resp_def\<close>)
      then show ?thesis using True n2 n3 n8 by (simp add: config_idle_def ne q(1))
    next
      case False
      have "hd (inq p @ [v]) = hd (inq p)" using \<open>inq p \<noteq> []\<close> by simp
      then show ?thesis using False n2 n3 n8 q(2,3) f ab assms
        by (auto simp: config_idle_def ne q(1) pad_mid_def resp_def inq_def)
    qed
  qed
qed

lemma exchange_keeps:
  assumes "pad_inv p"
  shows "ensures pad_faults (\<lambda>(r, p'). pad_inv p') (exchange v p)"
proof -
  have "ensures pad_faults pad_mid (case m_status p of
              Pad_IDLE \<Rightarrow> idle_process_byte v p
            | Pad_READ_STAT \<Rightarrow> Inr p
            | Pad_CONFIG \<Rightarrow> config_process_byte v p
            | Pad_COMMAND_END \<Rightarrow> Inr (p\<lparr>m_status := Pad_IDLE\<rparr>))"
  proof (cases "m_status p")
    case Pad_READ_STAT
    then show ?thesis using assms by (simp add: pad_inv_def pad_mid_def)
  next
    case Pad_CONFIG
    then show ?thesis
      using assms just_entered_mid config_idle_mid by (cases "m_conf_status p") (auto simp: config_process_byte_def)
  qed (use assms idle_mid in \<open>auto simp: pad_inv_def\<close>)
  then show ?thesis unfolding exchange_def pad_send_def bindE_assoc
    by (rule ensures_bind) (rule exchange_after_mid)
qed

section \<open>Any conversation\<close>

datatype pad_op = Exchange u8 | Unselect | Button string bool

fun run_pad :: "pad_op list \<Rightarrow> pad \<Rightarrow> pad result" where
  "run_pad [] p = Inr p"
| "run_pad (Exchange v # ops) p = bindE (exchange v p) (\<lambda>(r, p). run_pad ops p)"
| "run_pad (Unselect # ops) p = run_pad ops (pad_reset p)"
| "run_pad (Button name pressed # ops) p = run_pad ops (update_status NORMAL_button name pressed p)"

lemma reset_keeps: "pad_inv p \<Longrightarrow> pad_inv (pad_reset p)"
  by (cases "m_status p"; cases "m_conf_status p")
    (auto simp: pad_inv_def pad_reset_def fifos_def queue_clear_def queue_ok_def resp_def inq_def queue_contents_def tlen_def)

lemma button_keeps: "pad_inv p \<Longrightarrow> pad_inv (update_status ty name b p)"
  by (auto simp: update_status_def pad_inv_def fifos_def resp_def inq_def tlen_def
      split: option.split controller_status.splits config_status.splits)

text \<open>
  C30. The controller's queues never overflow: whatever bytes are exchanged, in whatever order,
  with the port unselected and buttons pressed at any point, every access is inside the arrays;
  only an unknown command stops the emulator.
\<close>

theorem pad_queues_never_overflow:
  assumes "pad_inv p"
  shows "(\<exists>p'. run_pad ops p = Inr p' \<and> pad_inv p') \<or> run_pad ops p \<in> {Inl DebugBreak, Inl Unreachable}"
  using assms
proof (induction ops arbitrary: p)
  case (Cons op ops)
  show ?case
  proof (cases op)
    case (Exchange v)
    consider (fault) e where "exchange v p = Inl e" "e \<in> pad_faults"
      | (ok) r p' where "exchange v p = Inr (r, p')" "pad_inv p'"
      using exchange_keeps[OF Cons.prems, of v] by (cases "exchange v p") auto
    then show ?thesis
      by cases (use Exchange Cons.IH in auto)
  next
    case Unselect
    then show ?thesis using Cons.IH[OF reset_keeps[OF Cons.prems]] by simp
  next
    case (Button name b)
    then show ?thesis using Cons.IH[OF button_keeps[OF Cons.prems]] by simp
  qed
qed simp

section \<open>The poll\<close>

fun exchanges :: "u8 list \<Rightarrow> pad \<Rightarrow> ((u8 \<times> bool) list \<times> pad) result" where
  "exchanges [] p = Inr ([], p)"
| "exchanges (v # vs) p = bindE (exchange v p) (\<lambda>(r, p). bindE (exchanges vs p) (\<lambda>(rs, p). Inr (r # rs, p)))"

definition pad_at_rest :: "pad \<Rightarrow> bool" where
  "pad_at_rest p \<longleftrightarrow> fifos p \<and> m_status p = Pad_IDLE \<and> resp p = [] \<and> inq p = []"

lemma exchange_reading:
  assumes "fifos p" "m_status p = Pad_READ_STAT" "resp p = b # bs"
  obtains q where "fifos (p\<lparr>m_response := q\<rparr>)" "queue_contents q = bs"
    "exchange v p = Inr ((b, bs \<noteq> []), p\<lparr>m_response := q, m_status := (if bs = [] then Pad_IDLE else Pad_READ_STAT)\<rparr>)"
proof -
  obtain q where q: "answer p = Inr (case resp p of [] \<Rightarrow> 0xFF | b # bs \<Rightarrow> b,
      let p' = p\<lparr>m_response := q\<rparr> in if tl (resp p) = [] \<and> m_status p = Pad_READ_STAT then p'\<lparr>m_status := Pad_COMMAND_END\<rparr> else p')"
    "fifos (p\<lparr>m_response := q\<rparr>)" "queue_contents q = tl (resp p)"
    using answer_ok[OF assms(1)] .
  have e: "queue_empty q \<longleftrightarrow> bs = []" using q(2,3) assms(3) by (simp add: queue_empty_iff fifos_def)
  have r: "p\<lparr>m_response := q\<rparr> = p\<lparr>m_response := q, m_status := Pad_READ_STAT\<rparr>" using assms(2) by simp
  show thesis
    by (rule that[OF q(2)]) (use q(3) assms e r in \<open>auto simp: exchange_def pad_send_def q(1) pad_ack_def Let_def\<close>)
qed

text \<open>
  A poll of a digital controller at rest answers its identifier and the two bytes of the
  button register, acknowledges every byte but the last, and leaves the controller at rest.
\<close>

theorem poll_reads_buttons:
  assumes "pad_at_rest p" "m_pad_mode p = DIGITAL"
  shows "\<exists>p'. exchanges [0x42, a, b, c] p = Inr (zip [0x41, 0x5A, ucast (m_btn_status p), ucast (drop_bit 8 (m_btn_status p))]
      [True, True, True, False], p') \<and> pad_at_rest p' \<and> m_btn_status p' = m_btn_status p \<and> m_pad_mode p' = DIGITAL"
proof -
  let ?lo = "ucast (m_btn_status p) :: u8" and ?hi = "ucast (drop_bit 8 (m_btn_status p)) :: u8"
  let ?p = "p\<lparr>m_status := Pad_READ_STAT\<rparr>"
  have p: "fifos ?p" "resp ?p = []" "inq p = []" using assms by (simp_all add: pad_at_rest_def fifos_def resp_def)
  obtain q where q: "respond [0x41, 0x5A, ?lo, ?hi] ?p = Inr (?p\<lparr>m_response := q\<rparr>)" "fifos (?p\<lparr>m_response := q\<rparr>)"
    "queue_contents q = [0x41, 0x5A, ?lo, ?hi]"
    by (rule respond_ok[OF p(1), of "[0x41, 0x5A, ?lo, ?hi]"]) (simp_all add: p(2))
  have idle: "idle_process_byte 0x42 p = Inr (?p\<lparr>m_response := q\<rparr>)"
    using q(1) assms(2) by (simp add: idle_process_byte_def READ_cmd_def enqueue_status_def DIGITAL_ID_def btn_bytes_def)
  have first: "exchange 0x42 p = exchange v (?p\<lparr>m_response := q\<rparr>)" for v
    using assms(1) idle by (simp add: exchange_def pad_send_def pad_at_rest_def)
  have step: "\<exists>y. fifos (?p\<lparr>m_response := y\<rparr>) \<and> queue_contents y = bs \<and>
      exchange v (?p\<lparr>m_response := x\<rparr>) = Inr ((b, bs \<noteq> []), ?p\<lparr>m_response := y, m_status := (if bs = [] then Pad_IDLE else Pad_READ_STAT)\<rparr>)"
    if x: "fifos (?p\<lparr>m_response := x\<rparr>)" "queue_contents x = b # bs" for x b bs v
  proof -
    have "m_status (?p\<lparr>m_response := x\<rparr>) = Pad_READ_STAT" "resp (?p\<lparr>m_response := x\<rparr>) = b # bs"
      using x(2) by (simp_all add: resp_def)
    from exchange_reading[OF x(1) this, of v] obtain y where
      "fifos (?p\<lparr>m_response := x, m_response := y\<rparr>)" "queue_contents y = bs"
      "exchange v (?p\<lparr>m_response := x\<rparr>) = Inr ((b, bs \<noteq> []),
         ?p\<lparr>m_response := x, m_response := y, m_status := (if bs = [] then Pad_IDLE else Pad_READ_STAT)\<rparr>)" .
    then show ?thesis by (intro exI[of _ y]) simp
  qed
  have id: "?p\<lparr>m_response := y, m_status := Pad_READ_STAT\<rparr> = ?p\<lparr>m_response := y\<rparr>" for y by simp
  obtain q1 where q1: "fifos (?p\<lparr>m_response := q1\<rparr>)" "queue_contents q1 = [0x5A, ?lo, ?hi]"
    "exchange 0x42 p = Inr ((0x41, True), ?p\<lparr>m_response := q1\<rparr>)"
    using step[OF q(2,3), of "0x42", folded first] that
    by (simp only: list.distinct not_False_eq_True if_False id) metis
  obtain q2 where q2: "fifos (?p\<lparr>m_response := q2\<rparr>)" "queue_contents q2 = [?lo, ?hi]"
    "exchange a (?p\<lparr>m_response := q1\<rparr>) = Inr ((0x5A, True), ?p\<lparr>m_response := q2\<rparr>)"
    using step[OF q1(1,2), of a] that
    by (simp only: list.distinct not_False_eq_True if_False id) metis
  obtain q3 where q3: "fifos (?p\<lparr>m_response := q3\<rparr>)" "queue_contents q3 = [?hi]"
    "exchange b (?p\<lparr>m_response := q2\<rparr>) = Inr ((?lo, True), ?p\<lparr>m_response := q3\<rparr>)"
    using step[OF q2(1,2), of b] that
    by (simp only: list.distinct not_False_eq_True if_False id) metis
  obtain q4 where q4: "fifos (?p\<lparr>m_response := q4\<rparr>)" "queue_contents q4 = []"
    "exchange c (?p\<lparr>m_response := q3\<rparr>) = Inr ((?hi, False), ?p\<lparr>m_response := q4, m_status := Pad_IDLE\<rparr>)"
    using step[OF q3(1,2), of c] that
    by (simp only: simp_thms if_True) metis
  have "pad_at_rest (?p\<lparr>m_response := q4, m_status := Pad_IDLE\<rparr>)"
    using q4(1,2) p(3) by (simp add: pad_at_rest_def fifos_def resp_def inq_def)
  then show ?thesis using q1(3) q2(3) q3(3) q4(3) assms(2) by simp
qed

section \<open>A controller just plugged in\<close>

lemma pad_new_ok: "pad_inv pad_new" "pad_at_rest pad_new"
  by (simp_all add: pad_inv_def pad_at_rest_def pad_new_def fifos_def queue_new_def queue_ok_def resp_def inq_def queue_contents_def)

theorem pad_queues_never_overflow_witness:
  "(\<exists>p'. run_pad [Exchange 0x43, Exchange 0, Unselect, Button ''CROSS'' True, Exchange 1] pad_new = Inr p' \<and> pad_inv p') \<or>
   run_pad [Exchange 0x43, Exchange 0, Unselect, Button ''CROSS'' True, Exchange 1] pad_new \<in> {Inl DebugBreak, Inl Unreachable}"
  by (rule pad_queues_never_overflow[OF pad_new_ok(1)])

theorem poll_reads_buttons_witness:
  "\<exists>p'. exchanges [0x42, 0, 0, 0] (update_status NORMAL_button ''CROSS'' True pad_new) =
     Inr ([(0x41, True), (0x5A, True), (0xFF, True), (0xBF, False)], p')"
proof -
  let ?p = "update_status NORMAL_button ''CROSS'' True pad_new"
  have b: "m_btn_status ?p = 0xBFFF" "m_pad_mode ?p = DIGITAL"
    by (simp_all add: update_status_def pad_new_def btn_names_def)
  have "pad_at_rest ?p" using pad_new_ok(2)
    by (simp add: update_status_def pad_at_rest_def fifos_def resp_def inq_def split: option.split)
  from poll_reads_buttons[OF this b(2), of 0 0 0] show ?thesis by (auto simp: b(1))
qed

end
