(* ===== verification/MemcardSpec.thy ===== *)
theory MemcardSpec
  imports Memcard
begin

text \<open>
  Conversations with the memory card: what the two commands answer and leave in the buffer, the
  round trip of a sector, and the safety of any conversation.
\<close>

section \<open>Conversations\<close>

fun talk :: "u8 list \<Rightarrow> memcard \<Rightarrow> (u8 list \<times> memcard) result" where
  "talk [] c = Inr ([], c)"
| "talk (v # vs) c = bindE (card_send v c) (\<lambda>(b, c). bindE (talk vs c) (\<lambda>(bs, c). Inr (b # bs, c)))"

lemma talk_append: "talk (vs @ ws) c = bindE (talk vs c) (\<lambda>(bs, c). bindE (talk ws c) (\<lambda>(cs, c). Inr (bs @ cs, c)))"
  by (induction vs arbitrary: c) (auto simp: bindE_def split: sum.split prod.split)

definition write_command :: "u32 \<Rightarrow> u8 list \<Rightarrow> u8 \<Rightarrow> u8 list" where
  "write_command n data k = [0x57, 0, 0, ucast (drop_bit 8 n), ucast n] @ data @ [k, 0, 0, 0]"

definition read_command :: "u32 \<Rightarrow> u8 list" where
  "read_command n = [0x52, 0, 0, ucast (drop_bit 8 n), ucast n, 0, 0, 0, 0] @ replicate 128 0 @ [0, 0]"

lemma sector_size [simp]: "LOGICAL_SECTOR_SIZE = 128" "MEMCARD_SIZE = 131072"
  by (simp_all add: LOGICAL_SECTOR_SIZE_def MEMCARD_SIZE_def MAX_SECTOR_def)

section \<open>The phases of the commands\<close>

text \<open>The sector number arrives in two bytes, whatever was in the register.\<close>

lemma two_bytes:
  fixes n m :: u32
  assumes "n < 0x10000"
  shows "ucast (ucast (push_bit 8 (ucast (ucast (push_bit 8 m OR ucast (ucast (drop_bit 8 n) :: u8)) :: u16) :: u32) OR
      ucast (ucast n :: u8)) :: u16) = n"
proof (rule bit_word_eqI)
  fix i assume "i < LENGTH(32)"
  have "unat n < 2 ^ 16" using assms by (simp add: word_less_nat_alt)
  then have "take_bit 16 n = n"
    by (intro iffD2[OF word_unat_eq_iff]) (simp add: unsigned_take_bit_eq take_bit_nat_eq_self)
  then have "bit n i \<Longrightarrow> i < 16" by (metis bit_take_bit_iff)
  then show "bit (ucast (ucast (push_bit 8 (ucast (ucast (push_bit 8 m OR ucast (ucast (drop_bit 8 n) :: u8)) :: u16) :: u32) OR
      ucast (ucast n :: u8)) :: u16) :: u32) i = bit n i"
    by (auto simp: bit_simps)
qed

definition selected :: "u32 \<Rightarrow> memcard \<Rightarrow> memcard" where
  "selected n c = c\<lparr>m_selected_sector := n, m_is_sector_valid := n \<le> MAX_SECTOR\<rparr>"

lemma write_header:
  assumes "m_state c = Card_IDLE" "n < 0x10000"
  shows "talk [0x57, 0, 0, ucast (drop_bit 8 n), ucast n] c = Inr ([m_flag c, 0x5A, 0x5D, 0, 0],
    (selected n c)\<lparr>m_state := Card_WRITE, m_wr_status := WS_RECV_DATA, m_cmd_step := 0, m_cmd_max_steps := 128\<rparr>)"
  using assms two_bytes[OF assms(2), of "m_selected_sector c"]
  by (simp add: card_send_def idle_byte_def write_byte_def write_answer_def write_advance_def byte_at_def CARD_ID_def
      recv_sector_def selected_def Let_def)

lemma read_header:
  assumes "m_state c = Card_IDLE" "n < 0x10000" "n \<le> MAX_SECTOR"
  shows "talk [0x52, 0, 0, ucast (drop_bit 8 n), ucast n, 0, 0, 0, 0] c =
    Inr ([m_flag c, 0x5A, 0x5D, 0, 0, 0x5C, 0x5D, ucast (drop_bit 8 n), ucast n],
      (selected n c)\<lparr>m_state := Card_READ, m_rd_status := RS_SEND_SECTOR, m_cmd_step := 0, m_cmd_max_steps := 128\<rparr>)"
  using assms two_bytes[OF assms(2), of "m_selected_sector c"]
  by (simp add: card_send_def idle_byte_def read_byte_def read_answer_def read_advance_def byte_at_def CARD_ID_def CMD_ACK_def
      recv_sector_def selected_def Let_def)

lemma receive_data:
  assumes "m_state c = Card_WRITE" "m_wr_status c = WS_RECV_DATA" "m_cmd_max_steps c = 128" "length (m_temp_sector c) = 128"
    and "m_cmd_step c + length vs \<le> 128" "m_cmd_step c < 128"
  shows "talk vs c = Inr (replicate (length vs) 0,
    let c' = c\<lparr>m_temp_sector := take (m_cmd_step c) (m_temp_sector c) @ vs @ drop (m_cmd_step c + length vs) (m_temp_sector c)\<rparr>
    in if m_cmd_step c + length vs = 128 then c'\<lparr>m_cmd_step := 0, m_wr_status := WS_RECV_CHECKSUM, m_cmd_max_steps := 1\<rparr>
       else c'\<lparr>m_cmd_step := m_cmd_step c + length vs\<rparr>)"
  using assms
proof (induction vs arbitrary: c)
  case (Cons v vs)
  let ?t = "(m_temp_sector c)[m_cmd_step c := v]"
  have t: "take (Suc (m_cmd_step c)) ?t = take (m_cmd_step c) (m_temp_sector c) @ [v]"
    "drop (Suc (m_cmd_step c) + k) ?t = drop (Suc (m_cmd_step c) + k) (m_temp_sector c)" for k
    using Cons.prems by (simp_all add: mset_take_Suc_update)
  show ?case
  proof (cases "Suc (m_cmd_step c) = 128")
    case True
    then have e: "vs = []" using Cons.prems(5) by simp
    have "?t = take (m_cmd_step c) (m_temp_sector c) @ [v]" using t(1) Cons.prems(4) True by simp
    then show ?thesis using Cons.prems True e
      by (simp add: card_send_def write_byte_def write_answer_def write_advance_def Let_def)
  next
    case False
    let ?c = "c\<lparr>m_temp_sector := ?t, m_cmd_step := Suc (m_cmd_step c)\<rparr>"
    have s: "card_send v c = Inr (0, ?c)"
      using Cons.prems False by (simp add: card_send_def write_byte_def write_answer_def write_advance_def Let_def)
    have "talk vs ?c = Inr (replicate (length vs) 0,
      let c' = ?c\<lparr>m_temp_sector := take (m_cmd_step ?c) ?t @ vs @ drop (m_cmd_step ?c + length vs) ?t\<rparr>
      in if m_cmd_step ?c + length vs = 128 then c'\<lparr>m_cmd_step := 0, m_wr_status := WS_RECV_CHECKSUM, m_cmd_max_steps := 1\<rparr>
         else c'\<lparr>m_cmd_step := m_cmd_step ?c + length vs\<rparr>)"
      using Cons.IH[of ?c] Cons.prems False by simp
    then show ?thesis using s t by (simp add: Let_def)
  qed
qed simp

lemma send_data:
  assumes "m_state c = Card_READ" "m_rd_status c = RS_SEND_SECTOR" "m_cmd_max_steps c = 128" "m_cmd_step c < 128"
    and "m_cmd_step c + length vs \<le> 128" "(unat (m_selected_sector c) + 1) * 128 \<le> length (m_mc_buffer c)"
  shows "talk vs c = Inr (take (length vs) (drop (unat (m_selected_sector c) * 128 + m_cmd_step c) (m_mc_buffer c)),
    if m_cmd_step c + length vs = 128 then c\<lparr>m_cmd_step := 0, m_rd_status := RS_SEND_CHECKSUM, m_cmd_max_steps := 1\<rparr>
    else c\<lparr>m_cmd_step := m_cmd_step c + length vs\<rparr>)"
  using assms
proof (induction vs arbitrary: c)
  case (Cons v vs)
  let ?i = "unat (m_selected_sector c) * 128 + m_cmd_step c"
  have b: "?i < length (m_mc_buffer c)" using Cons.prems by simp
  have tk: "take (Suc n) (drop ?i (m_mc_buffer c)) = m_mc_buffer c ! ?i # take n (drop (Suc ?i) (m_mc_buffer c))" for n
    using b by (simp add: Cons_nth_drop_Suc[symmetric])
  show ?case
  proof (cases "Suc (m_cmd_step c) = 128")
    case True
    then have e: "vs = []" using Cons.prems(5) by simp
    show ?thesis using Cons.prems True e b tk[of 0]
      by (simp add: card_send_def read_byte_def read_answer_def read_advance_def byte_at_def Let_def)
  next
    case False
    let ?c = "c\<lparr>m_cmd_step := Suc (m_cmd_step c)\<rparr>"
    have s: "card_send v c = Inr (m_mc_buffer c ! ?i, ?c)"
      using Cons.prems False b by (simp add: card_send_def read_byte_def read_answer_def read_advance_def byte_at_def Let_def)
    show ?thesis using Cons.IH[of ?c] Cons.prems False by (simp add: s tk)
  qed
qed simp

section \<open>The two commands\<close>

definition card_ready :: "memcard \<Rightarrow> bool" where
  "card_ready c \<longleftrightarrow> m_state c = Card_IDLE \<and> length (m_mc_buffer c) = MEMCARD_SIZE \<and> length (m_temp_sector c) = 128"

text \<open>The byte that ends a write, and the buffer it leaves.\<close>

definition write_verdict :: "u32 \<Rightarrow> u8 list \<Rightarrow> u8 \<Rightarrow> u8" where
  "write_verdict n data k = (if n > MAX_SECTOR then BAD_SECTOR else if checksum_of n data \<noteq> k then BAD_CHECKSUM else END_BYTE)"

definition sector_of :: "u32 \<Rightarrow> memcard \<Rightarrow> u8 list" where
  "sector_of n c = take 128 (drop (unat n * 128) (m_mc_buffer c))"

definition stored :: "u32 \<Rightarrow> u8 list \<Rightarrow> u8 list \<Rightarrow> u8 list" where
  "stored n data buf = take (unat n * 128) buf @ data @ drop ((unat n + 1) * 128) buf"

lemma sector_bound: "n \<le> MAX_SECTOR \<Longrightarrow> (unat n + 1) * 128 \<le> 131072"
  by (simp add: MAX_SECTOR_def word_le_nat_alt)

lemma write_talk:
  assumes "card_ready c" "n < 0x10000" "length data = 128"
  shows "\<exists>c'. talk (write_command n data k) c =
      Inr ([m_flag c, 0x5A, 0x5D, 0, 0] @ replicate 128 0 @ [0, 0x5C, 0x5D, write_verdict n data k], c') \<and>
    card_ready c' \<and>
    (if write_verdict n data k = END_BYTE
     then m_mc_buffer c' = stored n data (m_mc_buffer c) \<and> m_update_seq_number c' = m_update_seq_number c + 1
     else m_mc_buffer c' = m_mc_buffer c \<and> m_update_seq_number c' = m_update_seq_number c)"
proof -
  let ?c1 = "(selected n c)\<lparr>m_state := Card_WRITE, m_wr_status := WS_RECV_DATA, m_cmd_step := 0, m_cmd_max_steps := 128\<rparr>"
  let ?c2 = "?c1\<lparr>m_temp_sector := data, m_cmd_step := 0, m_wr_status := WS_RECV_CHECKSUM, m_cmd_max_steps := 1\<rparr>"
  have h: "talk [0x57, 0, 0, ucast (drop_bit 8 n), ucast n] c = Inr ([m_flag c, 0x5A, 0x5D, 0, 0], ?c1)"
    using write_header[OF _ assms(2), of c] assms(1) by (simp only: card_ready_def simp_thms)
  have d: "talk data ?c1 = Inr (replicate 128 0, ?c2)"
    using receive_data[of ?c1 data] assms by (simp add: card_ready_def selected_def Let_def)
  have put: "put_sector (unat n) data (m_mc_buffer c) = Inr (stored n data (m_mc_buffer c))" if "n \<le> MAX_SECTOR"
    using assms(1) sector_bound[OF that] by (simp add: put_sector_def stored_def card_ready_def)
  have f: "\<exists>c'. talk [k, 0, 0, 0] ?c2 = Inr ([0, 0x5C, 0x5D, write_verdict n data k], c') \<and> card_ready c' \<and>
    (if write_verdict n data k = END_BYTE
     then m_mc_buffer c' = stored n data (m_mc_buffer c) \<and> m_update_seq_number c' = m_update_seq_number c + 1
     else m_mc_buffer c' = m_mc_buffer c \<and> m_update_seq_number c' = m_update_seq_number c)"
  proof -
    have stored_len: "length (stored n data (m_mc_buffer c)) = 131072" if "n \<le> MAX_SECTOR"
      using assms sector_bound[OF that] by (simp add: stored_def card_ready_def)
    consider "n > MAX_SECTOR" | "n \<le> MAX_SECTOR" "checksum_of n data \<noteq> k" | "n \<le> MAX_SECTOR" "checksum_of n data = k"
      by force
    then show ?thesis
      by cases (use assms put stored_len in \<open>simp add: card_send_def write_byte_def write_answer_def write_advance_def Let_def
        byte_at_def CMD_ACK_def selected_def compute_temp_sector_checksum_def write_verdict_def card_ready_def
        BAD_SECTOR_def END_BYTE_def BAD_CHECKSUM_def linorder_not_less[symmetric]\<close>)+
  qed
  then show ?thesis by (auto simp only: write_command_def talk_append h d bindE_simps prod.case)
qed

lemma read_talk:
  assumes "card_ready c" "n \<le> MAX_SECTOR"
  shows "\<exists>c'. talk (read_command n) c =
      Inr ([m_flag c, 0x5A, 0x5D, 0, 0, 0x5C, 0x5D, ucast (drop_bit 8 n), ucast n] @ sector_of n c @
           [checksum_of n (sector_of n c), END_BYTE], c') \<and>
    card_ready c' \<and> m_mc_buffer c' = m_mc_buffer c"
proof -
  let ?c1 = "(selected n c)\<lparr>m_state := Card_READ, m_rd_status := RS_SEND_SECTOR, m_cmd_step := 0, m_cmd_max_steps := 128\<rparr>"
  let ?c2 = "?c1\<lparr>m_cmd_step := 0, m_rd_status := RS_SEND_CHECKSUM, m_cmd_max_steps := 1\<rparr>"
  have n: "n < 0x10000" using assms(2) by (simp add: MAX_SECTOR_def word_le_nat_alt word_less_nat_alt)
  have h: "talk [0x52, 0, 0, ucast (drop_bit 8 n), ucast n, 0, 0, 0, 0] c =
      Inr ([m_flag c, 0x5A, 0x5D, 0, 0, 0x5C, 0x5D, ucast (drop_bit 8 n), ucast n], ?c1)"
    using read_header[OF _ n assms(2), of c] assms(1) by (simp only: card_ready_def simp_thms)
  have d: "talk (replicate 128 0) ?c1 = Inr (sector_of n c, ?c2)"
    using send_data[of ?c1 "replicate 128 0"] assms sector_bound[OF assms(2)]
    by (simp add: card_ready_def selected_def sector_of_def)
  have "\<exists>c'. talk [0, 0] ?c2 = Inr ([checksum_of n (sector_of n c), END_BYTE], c') \<and> card_ready c' \<and> m_mc_buffer c' = m_mc_buffer c"
    using assms sector_bound[OF assms(2)]
    by (simp add: card_send_def read_byte_def read_answer_def read_advance_def Let_def compute_sector_checksum_def
        sector_bytes_def selected_def sector_of_def card_ready_def)
  then show ?thesis by (auto simp only: read_command_def talk_append h d bindE_simps prod.case append.assoc)
qed

lemma sector_of_stored:
  assumes "length data = 128" "(unat n + 1) * 128 \<le> length (m_mc_buffer c)" "m_mc_buffer c' = stored n data (m_mc_buffer c)"
  shows "sector_of n c' = data" "m \<noteq> n \<Longrightarrow> (unat m + 1) * 128 \<le> length (m_mc_buffer c) \<Longrightarrow> sector_of m c' = sector_of m c"
proof -
  let ?b = "m_mc_buffer c"
  show "sector_of n c' = data" using assms by (simp add: sector_of_def stored_def)
  assume m: "m \<noteq> n" "(unat m + 1) * 128 \<le> length ?b"
  then have "unat m < unat n \<or> unat n < unat m" by (auto simp: word_unat_eq_iff)
  then show "sector_of m c' = sector_of m c"
  proof
    assume lt: "unat m < unat n"
    then have le: "unat m * 128 + 128 \<le> unat n * 128" by simp
    have "unat n * 128 \<le> length ?b" using assms(2) by simp
    then show ?thesis unfolding sector_of_def assms(3) stored_def
      by (intro nth_equalityI) (use le in \<open>simp_all add: nth_append\<close>)
  next
    assume lt: "unat n < unat m"
    then obtain j where j: "unat m = unat n + 1 + j" using less_iff_Suc_add by (metis add.commute add_Suc_right plus_1_eq_Suc)
    show ?thesis using assms m by (simp add: sector_of_def stored_def j algebra_simps)
  qed
qed

text \<open>
  C28. A sector written to a memory card reads back: the write command with the right checksum is
  acknowledged, changes that sector only, and the read command then returns the data with its
  checksum.
\<close>

theorem saved_sector_reads_back:
  assumes "card_ready c" "n \<le> MAX_SECTOR" "length data = 128"
  shows "\<exists>r c1 r' c2. talk (write_command n data (checksum_of n data)) c = Inr (r, c1) \<and> last r = END_BYTE \<and>
    (\<forall>m \<in> {0..MAX_SECTOR} - {n}. sector_of m c1 = sector_of m c) \<and>
    talk (read_command n) c1 = Inr (r', c2) \<and> drop 9 r' = data @ [checksum_of n data, END_BYTE] \<and> card_ready c2"
proof -
  have n: "n < 0x10000" using assms(2) by (simp add: MAX_SECTOR_def word_le_nat_alt word_less_nat_alt)
  have v: "write_verdict n data (checksum_of n data) = END_BYTE"
    using assms(2) by (simp add: write_verdict_def linorder_not_less[symmetric])
  obtain c1 where c1: "talk (write_command n data (checksum_of n data)) c =
      Inr ([m_flag c, 0x5A, 0x5D, 0, 0] @ replicate 128 0 @ [0, 0x5C, 0x5D, END_BYTE], c1)"
    "card_ready c1" "m_mc_buffer c1 = stored n data (m_mc_buffer c)"
    using write_talk[OF assms(1) n assms(3), of "checksum_of n data"] unfolding v by auto
  have l: "(unat m + 1) * 128 \<le> length (m_mc_buffer c)" if "m \<le> MAX_SECTOR" for m
    using sector_bound[OF that] assms(1) by (simp add: card_ready_def)
  note so = sector_of_stored[OF assms(3) l[OF assms(2)] c1(3)]
  obtain c2 where "talk (read_command n) c1 =
      Inr ([m_flag c1, 0x5A, 0x5D, 0, 0, 0x5C, 0x5D, ucast (drop_bit 8 n), ucast n] @ data @
           [checksum_of n data, END_BYTE], c2)" "card_ready c2"
    using read_talk[OF c1(2) assms(2)] unfolding so(1) by auto
  then show ?thesis using c1(1) so(2) l by (auto simp: l)
qed

text \<open>
  A write to a sector that does not exist, or with a wrong checksum, is answered with the
  error byte and leaves the card as it was.
\<close>

theorem rejected_write_changes_nothing:
  assumes "card_ready c" "n < 0x10000" "length data = 128" "n > MAX_SECTOR \<or> checksum_of n data \<noteq> k"
  shows "\<exists>r c'. talk (write_command n data k) c = Inr (r, c') \<and>
    last r = (if n > MAX_SECTOR then BAD_SECTOR else BAD_CHECKSUM) \<and>
    m_mc_buffer c' = m_mc_buffer c \<and> m_update_seq_number c' = m_update_seq_number c \<and> card_ready c'"
proof -
  have "write_verdict n data k = (if n > MAX_SECTOR then BAD_SECTOR else BAD_CHECKSUM)"
    "write_verdict n data k \<noteq> END_BYTE"
    using assms(4) by (auto simp: write_verdict_def END_BYTE_def BAD_SECTOR_def BAD_CHECKSUM_def)
  then show ?thesis using write_talk[OF assms(1-3), of k] by auto
qed

section \<open>Any conversation\<close>

definition card_inv :: "memcard \<Rightarrow> bool" where
  "card_inv c \<longleftrightarrow> length (m_mc_buffer c) = MEMCARD_SIZE \<and> length (m_temp_sector c) = 128 \<and>
     (m_state c = Card_READ \<longrightarrow> m_cmd_step c < m_cmd_max_steps c \<and> m_cmd_max_steps c = rs_steps (m_rd_status c) \<and>
        (m_rd_status c \<in> {RS_SEND_ACK, RS_SEND_CONFIRM} \<longrightarrow> m_is_sector_valid c = (m_selected_sector c \<le> MAX_SECTOR)) \<and>
        (m_rd_status c = RS_RECV_SECTOR \<and> m_cmd_step c = 1 \<longrightarrow> m_is_sector_valid c = (m_selected_sector c \<le> MAX_SECTOR)) \<and>
        (m_rd_status c \<in> {RS_SEND_SECTOR, RS_SEND_CHECKSUM} \<longrightarrow> m_selected_sector c \<le> MAX_SECTOR)) \<and>
     (m_state c = Card_WRITE \<longrightarrow> m_cmd_step c < m_cmd_max_steps c \<and> m_cmd_max_steps c = ws_steps (m_wr_status c) \<and>
        (m_wr_status c \<in> {WS_RECV_DATA, WS_RECV_CHECKSUM, WS_SEND_ACK, WS_SEND_END_BYTE} \<longrightarrow>
           m_is_sector_valid c = (m_selected_sector c \<le> MAX_SECTOR)))"

definition safe_answer :: "(u8 \<times> memcard) result \<Rightarrow> bool" where
  "safe_answer m = (case m of Inr (b, c) \<Rightarrow> card_inv c | Inl e \<Rightarrow> e = DebugBreak)"

lemma idle_safe: "card_inv c \<Longrightarrow> m_state c = Card_IDLE \<Longrightarrow> safe_answer (card_send v c)"
  by (simp add: safe_answer_def card_send_def idle_byte_def Let_def card_inv_def)

lemma read_safe:
  assumes "card_inv c" "m_state c = Card_READ"
  shows "safe_answer (card_send v c)"
proof -
  have l: "length (m_mc_buffer c) = 131072" and st: "m_cmd_step c < rs_steps (m_rd_status c)"
    and mx: "m_cmd_max_steps c = rs_steps (m_rd_status c)"
    using assms by (simp_all add: card_inv_def)
  show ?thesis
  proof (cases "m_rd_status c")
    case RS_SEND_SECTOR
    then have "unat (m_selected_sector c) * 128 + m_cmd_step c < 131072"
      using assms sector_bound[of "m_selected_sector c"] st by (simp add: card_inv_def)
    then show ?thesis using assms RS_SEND_SECTOR l
      by (auto simp: safe_answer_def card_send_def read_byte_def read_answer_def read_advance_def Let_def byte_at_def card_inv_def)
  next
    case RS_SEND_CHECKSUM
    then show ?thesis using assms l sector_bound[of "m_selected_sector c"]
      by (auto simp: safe_answer_def card_send_def read_byte_def read_answer_def read_advance_def Let_def card_inv_def
          compute_sector_checksum_def sector_bytes_def)
  qed (use assms st in \<open>auto simp: safe_answer_def card_send_def read_byte_def read_answer_def read_advance_def Let_def
      byte_at_def card_inv_def CARD_ID_def CMD_ACK_def recv_sector_def less_2_cases_iff\<close>)
qed

lemma write_safe:
  assumes "card_inv c" "m_state c = Card_WRITE"
  shows "safe_answer (card_send v c)"
proof -
  have st: "m_cmd_step c < ws_steps (m_wr_status c)" using assms by (simp add: card_inv_def)
  show ?thesis
    by (cases "m_wr_status c") (use assms st sector_bound[of "m_selected_sector c"] in
      \<open>auto simp: safe_answer_def card_send_def write_byte_def write_answer_def write_advance_def Let_def
      byte_at_def card_inv_def CARD_ID_def CMD_ACK_def recv_sector_def less_2_cases_iff put_sector_def\<close>)
qed

lemma card_send_safe: "card_inv c \<Longrightarrow> safe_answer (card_send v c)"
  using idle_safe read_safe write_safe by (cases "m_state c") (auto simp: card_send_def safe_answer_def)

lemma frame_safe:
  assumes "card_inv c"
  shows "\<exists>b c'. write_frame n d c = Inr (b, c') \<and> card_inv c'"
proof (cases "length d = 128 \<and> n \<le> MAX_SECTOR")
  case True
  then have "(unat n + 1) * 128 \<le> length (m_mc_buffer c)" using sector_bound assms by (simp add: card_inv_def)
  then have "write_frame n d c = Inr (True, c\<lparr>m_mc_buffer := stored n d (m_mc_buffer c),
      m_update_seq_number := m_update_seq_number c + 1\<rparr>)" "length (stored n d (m_mc_buffer c)) = length (m_mc_buffer c)"
    using True by (simp_all add: write_frame_def put_sector_def stored_def linorder_not_less[symmetric])
  moreover have "card_inv (c\<lparr>m_mc_buffer := b, m_update_seq_number := k\<rparr>)" if "length b = length (m_mc_buffer c)" for b k
    using assms that by (cases "m_state c") (simp_all add: card_inv_def)
  ultimately show ?thesis by blast
next
  case False
  then show ?thesis using assms by (auto simp: write_frame_def)
qed

datatype card_op = Card_byte u8 | Card_unselect | Card_frame_write u32 "u8 list"

fun run_card :: "card_op list \<Rightarrow> memcard \<Rightarrow> memcard result" where
  "run_card [] c = Inr c"
| "run_card (Card_byte v # ops) c = bindE (card_send v c) (\<lambda>(b, c). run_card ops c)"
| "run_card (Card_unselect # ops) c = run_card ops (card_reset c)"
| "run_card (Card_frame_write n d # ops) c = bindE (write_frame n d c) (\<lambda>(b, c). run_card ops c)"

text \<open>
  C31. No conversation leaves the buffers of the card: whatever bytes are sent, in whatever
  order, with the card unselected at any point and frames written from outside, the accesses
  are inside the two buffers; only the command GETID stops the emulator.
\<close>

theorem card_stays_in_buffers:
  assumes "card_inv c"
  shows "(\<exists>c'. run_card ops c = Inr c' \<and> card_inv c') \<or> run_card ops c = Inl DebugBreak"
  using assms
proof (induction ops arbitrary: c)
  case (Cons op ops)
  show ?case
  proof (cases op)
    case (Card_byte v)
    then show ?thesis using card_send_safe[OF Cons.prems, of v] Cons.IH
      by (auto simp: safe_answer_def split: sum.splits prod.splits)
  next
    case Card_unselect
    have "card_inv (card_reset c)" using Cons.prems by (simp add: card_inv_def card_reset_def)
    then show ?thesis using Cons.IH Card_unselect by simp
  next
    case (Card_frame_write n d)
    obtain b c' where "write_frame n d c = Inr (b, c')" "card_inv c'" using frame_safe[OF Cons.prems] by blast
    then show ?thesis using Cons.IH[of c'] by (simp add: Card_frame_write)
  qed
qed simp

section \<open>A card with a file\<close>

definition blank_card :: memcard where
  "blank_card = memcard_new\<lparr>m_mc_buffer := replicate 131072 0, m_path := Some ''card''\<rparr>"

lemma blank_card_ok: "card_ready blank_card" "card_inv blank_card"
  by (simp_all add: card_ready_def card_inv_def blank_card_def memcard_new_def)

theorem saved_sector_reads_back_witness:
  "\<exists>r c1 r' c2. talk (write_command 5 (replicate 128 7) (checksum_of 5 (replicate 128 7))) blank_card = Inr (r, c1) \<and>
    last r = END_BYTE \<and> talk (read_command 5) c1 = Inr (r', c2) \<and> take 128 (drop 9 r') = replicate 128 7"
proof -
  have "\<exists>r c1 r' c2. talk (write_command 5 (replicate 128 7) (checksum_of 5 (replicate 128 7))) blank_card = Inr (r, c1) \<and>
    last r = END_BYTE \<and> (\<forall>m \<in> {0..MAX_SECTOR} - {5}. sector_of m c1 = sector_of m blank_card) \<and>
    talk (read_command 5) c1 = Inr (r', c2) \<and>
    drop 9 r' = replicate 128 7 @ [checksum_of 5 (replicate 128 7), END_BYTE] \<and> card_ready c2"
    by (rule saved_sector_reads_back[OF blank_card_ok(1)]) (simp_all add: MAX_SECTOR_def)
  then show ?thesis by force
qed

theorem rejected_write_changes_nothing_witness:
  "\<exists>r c'. talk (write_command 0x400 (replicate 128 7) 0) blank_card = Inr (r, c') \<and> last r = BAD_SECTOR \<and>
     m_mc_buffer c' = m_mc_buffer blank_card"
  using rejected_write_changes_nothing[OF blank_card_ok(1), of "0x400" "replicate 128 7" 0]
  by (auto simp: MAX_SECTOR_def)

theorem card_stays_in_buffers_witness:
  "(\<exists>c'. run_card [Card_byte 0x52, Card_byte 0, Card_unselect, Card_byte 0x57] blank_card = Inr c' \<and> card_inv c') \<or>
   run_card [Card_byte 0x52, Card_byte 0, Card_unselect, Card_byte 0x57] blank_card = Inl DebugBreak"
  by (rule card_stays_in_buffers[OF blank_card_ok(2)])

end
