(* ===== verification/CounterSpec.thy ===== *)
theory CounterSpec
  imports RootCounters
begin

text \<open>
  What the root counters keep and promise: the invariant behind the division by the cycles
  per increment, transparency of reads, one-shot interrupts and the time of the next event.
\<close>

named_theorems counter_oks \<open>operations that keep the counters well formed\<close>

section \<open>Operations as data\<close>

datatype timer_op =
  Op_write nat u32 u32 | Op_read nat u32 | Op_dotclock u16 | Op_hblank nat | Op_hblank_end nat
  | Op_vblank nat | Op_vblank_end nat | Op_overflow nat u64 | Op_target nat u64 | Op_elapse u64

fun exec_op :: "timer_op \<Rightarrow> ('h, 'm) psx_timers_scheme \<Rightarrow> ('h, 'm) psx_timers_scheme result" where
  "exec_op (Op_write k a v) s = counter_write k a v s"
| "exec_op (Op_read k a) s = bindE (counter_read k a s) (\<lambda>(v, s). Inr s)"
| "exec_op (Op_dotclock sel) s = set_dotclock sel 0 s"
| "exec_op (Op_hblank k) s = counter_hblank k s"
| "exec_op (Op_hblank_end k) s = counter_hblank_end k s"
| "exec_op (Op_vblank k) s = counter_vblank k s"
| "exec_op (Op_vblank_end k) s = counter_vblank_end k s"
| "exec_op (Op_overflow k late) s = Inr (overflow_callback k late s)"
| "exec_op (Op_target k late) s = Inr (target_callback k late s)"
| "exec_op (Op_elapse n) s = Inr (s\<lparr>m_curr_timestamp := m_curr_timestamp s + n\<rparr>)"

fun op_counter :: "timer_op \<Rightarrow> nat" where
  "op_counter (Op_write k a v) = k" | "op_counter (Op_read k a) = k" | "op_counter (Op_dotclock sel) = 0"
| "op_counter (Op_hblank k) = k" | "op_counter (Op_hblank_end k) = k" | "op_counter (Op_vblank k) = k"
| "op_counter (Op_vblank_end k) = k" | "op_counter (Op_overflow k late) = k"
| "op_counter (Op_target k late) = k" | "op_counter (Op_elapse n) = 0"

text \<open>The operations the machine makes: a counter it has, a dot clock of the table.\<close>

definition op_ok :: "timer_op \<Rightarrow> bool" where
  "op_ok p \<longleftrightarrow> op_counter p < 3 \<and> (case p of Op_dotclock sel \<Rightarrow> unat sel < 5 | _ \<Rightarrow> True)"

fun exec_ops :: "timer_op list \<Rightarrow> ('h, 'm) psx_timers_scheme \<Rightarrow> ('h, 'm) psx_timers_scheme result" where
  "exec_ops [] s = Inr s"
| "exec_ops (p # ps) s = bindE (exec_op p s) (exec_ops ps)"

section \<open>Well-formed counters\<close>

definition counter_ok :: "counter \<Rightarrow> bool" where
  "counter_ok c \<longleftrightarrow> m_cycles_per_inc c \<in> {1, 2, 3, 4, 5, 6, 8, 2171} \<and> unat (m_dotclock_sel c) < 5 \<and>
     m_count_partial c < ucast (m_cycles_per_inc c)"

definition counters_ok :: "('h, 'm) psx_timers_scheme \<Rightarrow> bool" where
  "counters_ok s \<longleftrightarrow> length (m_counters s) = 3 \<and> (\<forall>k < 3. counter_ok (counter_at k s))"

lemma counter_at_set [simp]:
  "k < length (m_counters s) \<Longrightarrow> counter_at k (set_counter k c s) = c"
  "j \<noteq> k \<Longrightarrow> counter_at j (set_counter k c s) = counter_at j s"
  "length (m_counters (set_counter k c s)) = length (m_counters s)"
  "m_curr_timestamp (set_counter k c s) = m_curr_timestamp s"
  "interrupt_request (set_counter k c s) = interrupt_request s"
  by (simp_all add: counter_at_def set_counter_def)

lemma counters_ok_at: "counters_ok s \<Longrightarrow> k < 3 \<Longrightarrow> counter_ok (counter_at k s)"
  by (simp add: counters_ok_def)

lemma counters_ok_length: "counters_ok s \<Longrightarrow> length (m_counters s) = 3"
  by (simp add: counters_ok_def)

lemma counters_ok_set [counter_oks]:
  "counters_ok s \<Longrightarrow> counter_ok c \<Longrightarrow> counters_ok (set_counter k c s)"
  by (cases "k < length (m_counters s)")
    (auto simp: counters_ok_def counter_at_def set_counter_def nth_list_update)

lemma counter_ok_updates [simp]:
  "counter_ok (c\<lparr>m_count_value := a\<rparr>) = counter_ok c" "counter_ok (c\<lparr>m_count_target := a\<rparr>) = counter_ok c"
  "counter_ok (c\<lparr>m_oneshot_flag := b\<rparr>) = counter_ok c" "counter_ok (c\<lparr>m_curr_event_id := t\<rparr>) = counter_ok c"
  "counter_ok (c\<lparr>m_last_update_timestamp := t\<rparr>) = counter_ok c" "counter_ok (c\<lparr>m_stopped := b\<rparr>) = counter_ok c"
  "counter_ok (c\<lparr>m_mode := a\<rparr>) = counter_ok c" "counter_ok (c\<lparr>m_hblank := b\<rparr>) = counter_ok c"
  "counter_ok (c\<lparr>m_vblank := b\<rparr>) = counter_ok c"
  by (simp_all add: counter_ok_def)

text \<open>The scheduler and the interrupt lines are apart from the counters.\<close>

lemma counters_elsewhere [simp]:
  "m_counters (snd (schedule t cb u s)) = m_counters s" "m_counters (snd (deschedule i s)) = m_counters s"
  "m_counters (raise_interrupt c s) = m_counters s"
  "m_curr_timestamp (snd (schedule t cb u s)) = m_curr_timestamp s"
  "m_curr_timestamp (snd (deschedule i s)) = m_curr_timestamp s"
  "interrupt_request (snd (schedule t cb u s)) = interrupt_request s"
  "interrupt_request (snd (deschedule i s)) = interrupt_request s"
  for s :: "('h, 'm) psx_timers_scheme"
  by (simp_all add: schedule_def schedule_absolute_def deschedule_def raise_interrupt_def Let_def)

lemma counter_at_elsewhere [simp]:
  "counter_at k (snd (schedule t cb u s)) = counter_at k s"
  "counter_at k (snd (deschedule i s)) = counter_at k s"
  "counter_at k (raise_interrupt c s) = counter_at k s" "counter_at k (s\<lparr>m_curr_timestamp := t\<rparr>) = counter_at k s"
  for s :: "('h, 'm) psx_timers_scheme"
  by (simp_all add: counter_at_def)

lemma counters_ok_elsewhere [simp]:
  "counters_ok (snd (schedule t cb u s)) = counters_ok s" "counters_ok (snd (deschedule i s)) = counters_ok s"
  "counters_ok (raise_interrupt c s) = counters_ok s" "counters_ok (s\<lparr>m_curr_timestamp := t\<rparr>) = counters_ok s"
  for s :: "('h, 'm) psx_timers_scheme"
  by (simp_all add: counters_ok_def)

lemma fire_irq_ok [counter_oks]: "counters_ok s \<Longrightarrow> k < 3 \<Longrightarrow> counters_ok (fire_irq src k s)"
  by (simp add: fire_irq_def Let_def counter_oks counters_ok_at)

lemma schedule_counter_split:
  "schedule_counter t cb k s =
    set_counter k ((counter_at k s)\<lparr>m_curr_event_id := fst (schedule t (Some cb) (of_nat k) s)\<rparr>)
      (snd (schedule t (Some cb) (of_nat k) s))"
  by (simp add: schedule_counter_def split_beta)

lemma schedule_counter_ok [counter_oks]:
  "counters_ok s \<Longrightarrow> k < 3 \<Longrightarrow> counters_ok (schedule_counter t cb k s)"
  by (simp add: schedule_counter_split counter_oks counters_ok_at)

lemma callbacks_ok [counter_oks]:
  assumes "counters_ok s" "k < 3"
  shows "counters_ok (overflow_callback k late s)" "counters_ok (target_callback k late s)"
  using assms by (simp_all add: overflow_callback_def target_callback_def Let_def counter_oks counters_ok_at)

lemma dot_cycles_ok: "unat sel < 5 \<Longrightarrow> \<exists>n \<in> {6, 5, 4, 3, 2}. dot_cycles sel = Inr n"
proof -
  assume "unat sel < 5"
  then have "unat sel \<in> {0, 1, 2, 3, 4}" by auto
  then show ?thesis by (auto simp: dot_cycles_def DOT_CYCLES_def)
qed

lemma compute_cycles_ok:
  assumes "k < 3" "unat (m_dotclock_sel c) < 5"
  shows "\<exists>n \<in> {1, 2, 3, 4, 5, 6, 8, 2171}. compute_cycles_per_inc k c = Inr n"
  using assms dot_cycles_ok[OF assms(2)]
  by (auto simp: compute_cycles_per_inc_def Let_def CLOCKS_SCANLINE_NTSC_def)

lemma update_counter_ok:
  assumes "counter_ok c"
  shows "\<exists>c'. update_counter now d c = Inr c' \<and> counter_ok c'"
proof (cases "m_stopped c")
  case True
  then show ?thesis using assms by (simp add: update_counter_def)
next
  case False
  have "p mod ucast (m_cycles_per_inc c) < (ucast (m_cycles_per_inc c) :: u64)" for p
    using assms by (intro word_mod_less_divisor) (auto simp: counter_ok_def)
  then show ?thesis using assms False by (auto simp: update_counter_def Let_def counter_ok_def)
qed

lemma sync_counter_ok:
  assumes "counters_ok s" "k < 3"
  shows "\<exists>s'. sync_counter k s = Inr s' \<and> counters_ok s'"
  using update_counter_ok[OF counters_ok_at[OF assms], of "m_curr_timestamp s"
      "m_curr_timestamp s - m_last_update_timestamp (counter_at k s)"] assms
  by (auto simp: sync_counter_def Let_def counter_oks)

lemma update_events_ok:
  assumes "counters_ok s" "k < 3"
  shows "\<exists>s'. update_events k s = Inr s' \<and> counters_ok s'"
proof -
  have "\<exists>t. (if m_curr_timestamp s - m_last_update_timestamp (counter_at k s) \<noteq> 0
      then sync_counter k s else Inr s) = Inr t \<and> counters_ok t"
    using sync_counter_ok[OF assms] assms by simp
  then obtain t where t: "(if m_curr_timestamp s - m_last_update_timestamp (counter_at k s) \<noteq> 0
      then sync_counter k s else Inr s) = Inr t" "counters_ok t" by blast
  show ?thesis
    unfolding update_events_def t(1) bindE_simps reschedule_def Let_def
    using t(2) assms(2) by (auto simp: counter_oks counters_ok_at split: prod.split)
qed

lemma on_blank_ok:
  assumes "counters_ok s" "k < 3" "\<And>c. counter_ok c \<Longrightarrow> counter_ok (flag c)" "\<And>c. counter_ok c \<Longrightarrow> counter_ok (act c)"
  shows "\<exists>s'. on_blank own flag act k s = Inr s' \<and> counters_ok s'"
proof -
  have "counters_ok (set_counter k (flag (counter_at k s)) s)"
    using assms by (intro counter_oks) (simp_all add: counters_ok_at)
  then obtain t where t: "sync_counter k (set_counter k (flag (counter_at k s)) s) = Inr t" "counters_ok t"
    using sync_counter_ok assms(2) by blast
  moreover from this have "counters_ok (set_counter k (act (counter_at k t)) t)"
    using assms by (intro counter_oks) (simp_all add: counters_ok_at)
  ultimately show ?thesis
    using update_events_ok[OF _ assms(2)] assms by (auto simp: on_blank_def Let_def)
qed

lemma blank_ok: "counter_ok c \<Longrightarrow> counter_ok (blank_start c)" "counter_ok c \<Longrightarrow> counter_ok (blank_end c)"
  by (simp_all add: blank_start_def blank_end_def Let_def)

lemma blanking_ok:
  assumes "counters_ok s" "k < 3"
  shows "\<exists>s'. counter_hblank k s = Inr s' \<and> counters_ok s'" "\<exists>s'. counter_hblank_end k s = Inr s' \<and> counters_ok s'"
    "\<exists>s'. counter_vblank k s = Inr s' \<and> counters_ok s'" "\<exists>s'. counter_vblank_end k s = Inr s' \<and> counters_ok s'"
  unfolding counter_hblank_def counter_hblank_end_def counter_vblank_def counter_vblank_end_def
  by (rule on_blank_ok[OF assms]; simp add: blank_ok)+

lemma counter_write_ok:
  assumes "counters_ok s" "k < 3"
  shows "\<exists>s'. counter_write k a v s = Inr s' \<and> counters_ok s'"
proof -
  have ok: "counter_ok (counter_at k s)" by (rule counters_ok_at[OF assms])
  have e: "\<exists>s'. update_events k (set_counter k c s) = Inr s' \<and> counters_ok s'" if "counter_ok c" for c
    using assms that by (intro update_events_ok counter_oks)
  let ?c = "\<lambda>mode. (counter_at k s)\<lparr>m_count_value := 0, m_count_partial := 0, m_oneshot_flag := False, m_mode := mode,
      m_last_update_timestamp := m_curr_timestamp s\<rparr>"
  have "\<exists>s'. bindE (compute_cycles_per_inc k (?c mode)) (\<lambda>n. update_events k (set_counter k ((?c mode)\<lparr>m_cycles_per_inc := n\<rparr>) s)) = Inr s' \<and>
      counters_ok s'" for mode
  proof -
    have "unat (m_dotclock_sel (?c mode)) < 5" using ok by (simp add: counter_ok_def)
    from compute_cycles_ok[OF assms(2) this] obtain n where n: "n \<in> {1, 2, 3, 4, 5, 6, 8, 2171}"
      "compute_cycles_per_inc k (?c mode) = Inr n" by blast
    have "counter_ok ((?c mode)\<lparr>m_cycles_per_inc := n\<rparr>)" using ok n(1) by (auto simp: counter_ok_def)
    from e[OF this] show ?thesis by (simp add: n(2))
  qed
  then show ?thesis using assms e ok by (simp add: counter_write_def Let_def)
qed

lemma exec_op_ok:
  assumes "counters_ok s" "op_ok p"
  shows "\<exists>s'. exec_op p s = Inr s' \<and> counters_ok s'"
proof (cases p)
  case (Op_read k a)
  then show ?thesis
    using assms sync_counter_ok[OF assms(1), of k]
    by (auto simp: op_ok_def counter_read_def Let_def counter_oks counters_ok_at)
next
  case (Op_dotclock sel)
  have s: "unat sel < 5" using assms(2) Op_dotclock by (simp add: op_ok_def)
  have "counter_ok ((counter_at 0 s)\<lparr>m_dotclock_sel := sel\<rparr>)"
    using counters_ok_at[OF assms(1), of 0] s by (simp add: counter_ok_def)
  then have t: "counters_ok (set_counter 0 ((counter_at 0 s)\<lparr>m_dotclock_sel := sel\<rparr>) s)"
    using assms(1) by (intro counter_oks)
  obtain n where n: "n \<in> {6, 5, 4, 3, 2}" "dot_cycles sel = Inr n" using dot_cycles_ok[OF s] by blast
  have "counter_ok ((counter_at 0 s)\<lparr>m_dotclock_sel := sel, m_cycles_per_inc := n, m_count_partial := 0\<rparr>)"
    using s n(1) by (auto simp: counter_ok_def)
  then have "\<exists>s'. update_events 0 (set_counter 0 ((counter_at 0 s)\<lparr>m_dotclock_sel := sel, m_cycles_per_inc := n, m_count_partial := 0\<rparr>)
      (set_counter 0 ((counter_at 0 s)\<lparr>m_dotclock_sel := sel\<rparr>) s)) = Inr s' \<and> counters_ok s'"
    by (intro update_events_ok counters_ok_set[OF t]) simp_all
  then show ?thesis using t n(2) by (simp add: Op_dotclock set_dotclock_def Let_def)
qed (use assms blanking_ok counter_write_ok in \<open>auto simp: op_ok_def counter_oks\<close>)

text \<open>
  C24. Whatever registers are read and written, blanking signals arrive and events fire, the
  counters never divide by zero nor leave the dot clock table: every operation returns, and
  the fraction of an increment stays below one.
\<close>

theorem counters_never_fault:
  assumes "counters_ok s" "\<forall>p \<in> set ps. op_ok p"
  shows "\<exists>s'. exec_ops ps s = Inr s' \<and> counters_ok s'"
  using assms
proof (induction ps arbitrary: s)
  case (Cons p ps)
  obtain t where "exec_op p s = Inr t" "counters_ok t" using exec_op_ok[of s p] Cons.prems by auto
  then show ?case using Cons.IH[of t] Cons.prems by auto
qed simp

definition timers_with :: "'h \<Rightarrow> 'h psx_timers" where
  "timers_with h = psx.extend (machine_with h) (psx_timers.fields (map counter_init [0, 1, 2]))"

lemma timers_with_counters [simp]: "m_counters (timers_with h) = map counter_init [0, 1, 2]"
  by (simp add: timers_with_def psx.defs psx_timers.defs)

lemma counter_init_ok: "k < 3 \<Longrightarrow> counter_ok (counter_init k)"
proof -
  assume "k < 3"
  then have "k = 0 \<or> k = 1 \<or> k = 2" by auto
  moreover have "clock_src 0 = 0" by (simp add: clock_src_def get_bits_def)
  ultimately show ?thesis
    by (auto simp: counter_init_def counter_ok_def compute_cycles_per_inc_def Let_def)
qed

lemma timers_with_ok: "counters_ok (timers_with h)"
proof -
  have "counter_at k (timers_with h) = counter_init k" if "k < 3" for k
    using that by (auto simp: counter_at_def less_Suc_eq numeral_3_eq_3 numeral_2_eq_2)
  then show ?thesis by (simp add: counters_ok_def counter_init_ok)
qed

theorem counters_never_fault_witness:
  "\<exists>s'. exec_ops [Op_write 1 4 0x100, Op_elapse 5000, Op_read 1 0, Op_vblank 1, Op_target 2 3]
      (timers_with ()) = Inr s' \<and> counters_ok s'"
  by (rule counters_never_fault[OF timers_with_ok]) (simp add: op_ok_def)

section \<open>One-shot interrupts\<close>

text \<open>The counter has used up its one interrupt.\<close>

definition spent :: "counter \<Rightarrow> bool" where
  "spent c \<longleftrightarrow> \<not> irq_repeat (m_mode c) \<and> m_oneshot_flag c"

definition counter_silent :: "nat \<Rightarrow> bool \<Rightarrow> ('h, 'm) psx_timers_scheme \<Rightarrow> bool" where
  "counter_silent k b s \<longleftrightarrow> length (m_counters s) = 3 \<and> spent (counter_at k s) \<and> bit (interrupt_request s) (4 + k) = b"

definition mode_write :: "nat \<Rightarrow> timer_op \<Rightarrow> bool" where
  "mode_write k p \<longleftrightarrow> (\<exists>a v. p = Op_write k a v \<and> in_word 4 a)"

lemma irq_repeat_put [simp]:
  "i \<noteq> 6 \<Longrightarrow> irq_repeat (put_flag i b w) = irq_repeat w" "irq_repeat (mark_reached src w) = irq_repeat w"
  by (simp_all add: irq_repeat_def bit_put_flag mark_reached_def split: irq_source.split)

lemma spent_updates [simp]:
  "spent (c\<lparr>m_count_value := a\<rparr>) = spent c" "spent (c\<lparr>m_count_target := a\<rparr>) = spent c"
  "spent (c\<lparr>m_curr_event_id := t\<rparr>) = spent c" "spent (c\<lparr>m_count_partial := t\<rparr>) = spent c"
  "spent (c\<lparr>m_last_update_timestamp := t\<rparr>) = spent c" "spent (c\<lparr>m_stopped := b\<rparr>) = spent c"
  "spent (c\<lparr>m_hblank := b\<rparr>) = spent c" "spent (c\<lparr>m_vblank := b\<rparr>) = spent c"
  "spent (c\<lparr>m_dotclock_sel := a\<rparr>) = spent c" "spent (c\<lparr>m_cycles_per_inc := a\<rparr>) = spent c"
  "irq_repeat w = irq_repeat (m_mode c) \<Longrightarrow> spent (c\<lparr>m_mode := w\<rparr>) = spent c"
  by (simp_all add: spent_def)

lemma bit_timer_irq: "bit TIMER0_IRQ n \<longleftrightarrow> n = 4"
  unfolding TIMER0_IRQ_def by (rule bit_u32_iff) (code_simp, auto)

lemma silent_set: "counter_silent k b s \<Longrightarrow> (j = k \<Longrightarrow> spent c) \<Longrightarrow> k < 3 \<Longrightarrow> counter_silent k b (set_counter j c s)"
  by (cases "j = k") (simp_all add: counter_silent_def)

lemma silent_elsewhere [simp]:
  "counter_silent k b (snd (schedule t cb u s)) = counter_silent k b s" "counter_silent k b (snd (deschedule i s)) = counter_silent k b s"
  "counter_silent k b (s\<lparr>m_curr_timestamp := t\<rparr>) = counter_silent k b s"
  for s :: "('h, 'm) psx_timers_scheme"
  by (simp_all add: counter_silent_def)

lemma silent_at: "counter_silent k b s \<Longrightarrow> spent (counter_at k s)"
  by (simp add: counter_silent_def)

lemma raise_other:
  "\<not> bit c n \<Longrightarrow> bit (interrupt_request (raise_interrupt c s)) n = bit (interrupt_request s) n"
  by (simp add: raise_interrupt_def bit_or_iff)

lemma silent_fire:
  assumes "counter_silent k b s" "k < 3"
  shows "counter_silent k b (fire_irq src j s)"
proof (cases "j = k")
  case True
  have "\<not> irq_repeat (m_mode (counter_at k s))" "m_oneshot_flag (counter_at k s)"
    using silent_at[OF assms(1)] by (simp_all add: spent_def)
  then show ?thesis
    using True assms by (simp add: fire_irq_def Let_def silent_set silent_at)
next
  case False
  have r: "counter_silent k b (raise_interrupt (push_bit j TIMER0_IRQ) t)" if "counter_silent k b t" for t :: "('a, 'b) psx_timers_scheme"
  proof -
    have "\<not> bit (push_bit j TIMER0_IRQ) (4 + k)"
      using False by (auto simp: bit_push_bit_iff bit_timer_irq)
    then show ?thesis using that by (simp add: counter_silent_def raise_other)
  qed
  show ?thesis using assms False by (simp add: fire_irq_def Let_def r silent_set)
qed

lemma silent_schedule_counter: "counter_silent k b s \<Longrightarrow> k < 3 \<Longrightarrow> counter_silent k b (schedule_counter t cb j s)"
  by (simp add: schedule_counter_split silent_set silent_at)

lemma silent_value: "counter_silent k b s \<Longrightarrow> k < 3 \<Longrightarrow> counter_silent k b (set_counter j ((counter_at j s)\<lparr>m_count_value := v\<rparr>) s)"
  by (simp add: silent_set silent_at)

lemma silent_callbacks:
  assumes "counter_silent k b s" "k < 3"
  shows "counter_silent k b (overflow_callback j late s)" "counter_silent k b (target_callback j late s)"
  using assms
  by (simp_all add: overflow_callback_def target_callback_def Let_def silent_schedule_counter silent_fire
      silent_value)

lemma silent_sync:
  assumes "counter_silent k b s" "k < 3" "sync_counter j s = Inr s'"
  shows "counter_silent k b s'"
proof -
  obtain c where c: "update_counter (m_curr_timestamp s) (m_curr_timestamp s - m_last_update_timestamp (counter_at j s))
      (counter_at j s) = Inr c" "s' = set_counter j c s"
    using assms(3) by (auto simp: sync_counter_def Let_def bindE_Inr_iff)
  have "spent c" if "j = k"
    using c(1) silent_at[OF assms(1)] that by (auto simp: update_counter_def Let_def split: if_splits)
  then show ?thesis using assms c(2) by (simp add: silent_set)
qed

lemma silent_reschedule: "counter_silent k b s \<Longrightarrow> k < 3 \<Longrightarrow> counter_silent k b (reschedule j s)"
  by (simp add: reschedule_def Let_def silent_schedule_counter silent_set silent_at split: prod.split)

lemma silent_update_events:
  assumes "counter_silent k b s" "k < 3" "update_events j s = Inr s'"
  shows "counter_silent k b s'"
proof (cases "m_curr_timestamp s - m_last_update_timestamp (counter_at j s) = 0")
  case True
  then show ?thesis using assms silent_reschedule[OF assms(1,2), of j] by (auto simp: update_events_def)
next
  case False
  then obtain t where t: "sync_counter j s = Inr t" "s' = reschedule j t"
    using assms(3) by (auto simp: update_events_def elim: bindE_InrE)
  show ?thesis unfolding t(2) by (rule silent_reschedule[OF silent_sync[OF assms(1,2) t(1)] assms(2)])
qed

lemma silent_on_blank:
  assumes "counter_silent k b s" "k < 3" "on_blank own flag act j s = Inr s'"
    and "\<And>c. spent (flag c) = spent c" "\<And>c. spent c \<Longrightarrow> spent (act c)"
  shows "counter_silent k b s'"
proof -
  obtain t where t: "sync_counter j (set_counter j (flag (counter_at j s)) s) = Inr t"
    "(let c = counter_at j t in if j \<noteq> own \<or> \<not> m_sync_enable (m_mode c) then Inr t
       else update_events j (set_counter j (act c) t)) = Inr s'"
    using assms(3) by (auto simp: on_blank_def elim!: bindE_InrE)
  have "counter_silent k b (set_counter j (flag (counter_at j s)) s)"
    using assms by (intro silent_set) (auto simp: silent_at)
  from silent_sync[OF this assms(2) t(1)] have u: "counter_silent k b t" .
  then have "counter_silent k b (set_counter j (act (counter_at j t)) t)"
    using assms by (intro silent_set) (auto simp: silent_at)
  then show ?thesis using t(2) u assms(2) by (auto simp: Let_def split: if_splits dest: silent_update_events)
qed

lemma spent_blank: "spent c \<Longrightarrow> spent (blank_start c)" "spent c \<Longrightarrow> spent (blank_end c)"
  by (simp_all add: blank_start_def blank_end_def Let_def)

lemma silent_blanking:
  assumes "counter_silent k b s" "k < 3"
  shows "counter_hblank j s = Inr s' \<Longrightarrow> counter_silent k b s'" "counter_hblank_end j s = Inr s' \<Longrightarrow> counter_silent k b s'"
    "counter_vblank j s = Inr s' \<Longrightarrow> counter_silent k b s'" "counter_vblank_end j s = Inr s' \<Longrightarrow> counter_silent k b s'"
  unfolding counter_hblank_def counter_hblank_end_def counter_vblank_def counter_vblank_end_def
  by (erule silent_on_blank[OF assms]; simp add: spent_blank)+

lemma silent_op:
  assumes "counter_silent k b s" "k < 3" "\<not> mode_write k p" "exec_op p s = Inr s'"
  shows "counter_silent k b s'"
proof (cases p)
  case (Op_write j a v)
  have u: "counter_silent k b s'" if "update_events j (set_counter j c s) = Inr s'" "j = k \<Longrightarrow> spent c" for c
    using that assms by (blast intro: silent_update_events silent_set)
  show ?thesis
    using assms Op_write u
    by (auto simp: counter_write_def Let_def mode_write_def silent_at elim!: bindE_InrE split: if_splits)
next
  case (Op_read j a)
  then show ?thesis
    using assms by (auto simp: counter_read_def Let_def silent_at silent_sync elim!: bindE_InrE
        intro!: silent_set split: if_splits)
next
  case (Op_dotclock sel)
  let ?c = "(counter_at 0 s)\<lparr>m_dotclock_sel := sel\<rparr>"
  let ?t = "set_counter 0 ?c s"
  have sp: "spent (counter_at 0 s)" if "0 = k" using silent_at[OF assms(1)] that by simp
  have t: "counter_silent k b ?t" by (rule silent_set[OF assms(1) _ assms(2)]) (simp add: sp)
  have "s' = ?t \<or> (\<exists>n. update_events 0 (set_counter 0 (?c\<lparr>m_cycles_per_inc := n, m_count_partial := 0\<rparr>) ?t) = Inr s')"
    using assms(4) by (auto simp: Op_dotclock set_dotclock_def Let_def elim!: bindE_InrE split: if_splits)
  then show ?thesis
  proof (elim disjE exE)
    fix n assume u: "update_events 0 (set_counter 0 (?c\<lparr>m_cycles_per_inc := n, m_count_partial := 0\<rparr>) ?t) = Inr s'"
    show ?thesis by (rule silent_update_events[OF silent_set[OF t _ assms(2)] assms(2) u]) (simp add: sp)
  qed (simp add: t)
qed (use assms silent_blanking in \<open>auto simp: silent_callbacks\<close>)

lemma silent_ops:
  assumes "counter_silent k b s" "k < 3" "\<forall>p \<in> set ps. \<not> mode_write k p" "exec_ops ps s = Inr s'"
  shows "counter_silent k b s'"
  using assms
proof (induction ps arbitrary: s)
  case (Cons p ps)
  obtain t where t: "exec_op p s = Inr t" "exec_ops ps t = Inr s'"
    using Cons.prems(4) by (auto elim: bindE_InrE)
  have "counter_silent k b t" by (rule silent_op[OF Cons.prems(1,2) _ t(1)]) (use Cons.prems(3) in simp)
  from Cons.IH[OF this Cons.prems(2) _ t(2)] Cons.prems(3) show ?case by simp
qed simp

text \<open>
  A counter in one-shot mode raises its interrupt at the first enabled event and no other
  until its mode is written again: whatever the program leaves in the request register and
  whatever then happens to the three counters, the counter's bit is not raised anew.
\<close>

theorem oneshot_fires_once:
  assumes "k < 3" "counters_ok s" "\<not> m_stopped (counter_at k s)" "irq_enabled src (m_mode (counter_at k s))"
    and "\<not> irq_repeat (m_mode (counter_at k s))" "\<not> irq_toggle (m_mode (counter_at k s))"
    and "\<not> m_oneshot_flag (counter_at k s)" "\<forall>p \<in> set ps. \<not> mode_write k p"
    and "exec_ops ps ((fire_irq src k s)\<lparr>interrupt_request := r\<rparr>) = Inr s'"
  shows "bit (interrupt_request (fire_irq src k s)) (4 + k) \<and>
    bit (interrupt_request s') (4 + k) = bit r (4 + k)"
proof -
  have n: "irq_bit (put_flag 10 False w) = False" "irq_enabled src (mark_reached src w) = irq_enabled src w"
    "irq_toggle (mark_reached src w) = irq_toggle w" for w
    by (simp_all add: irq_bit_def irq_enabled_def mark_reached_def irq_toggle_def irq_on_target_def irq_on_ov_def
        bit_put_flag split: irq_source.split)
  have r: "bit (interrupt_request (raise_interrupt (push_bit k TIMER0_IRQ) t)) (4 + k)" for t :: "('a, 'b) psx_timers_scheme"
  proof (cases "interrupt_request t AND push_bit k TIMER0_IRQ = 0")
    case True
    then show ?thesis using assms(1) by (simp add: raise_interrupt_def bit_or_iff bit_push_bit_iff bit_timer_irq)
  next
    case False
    then obtain i where "bit (interrupt_request t) i" "bit (push_bit k TIMER0_IRQ) i"
      by (auto simp: word_neq_0_iff_bit bit_and_iff)
    then have "i = 4 + k" by (auto simp: bit_push_bit_iff bit_timer_irq)
    with \<open>bit (interrupt_request t) i\<close> False show ?thesis by (simp add: raise_interrupt_def)
  qed
  have f: "spent (counter_at k (fire_irq src k s)) \<and> bit (interrupt_request (fire_irq src k s)) (4 + k) \<and>
      length (m_counters (fire_irq src k s)) = 3"
    using assms(1-7) counters_ok_length[OF assms(2)] by (simp add: fire_irq_def Let_def n r) (simp add: spent_def)
  then have "counter_silent k (bit r (4 + k)) ((fire_irq src k s)\<lparr>interrupt_request := r\<rparr>)"
    by (simp add: counter_silent_def counter_at_def)
  then have "counter_silent k (bit r (4 + k)) s'"
    by (rule silent_ops[OF _ assms(1,8,9)])
  with f show ?thesis by (simp add: counter_silent_def)
qed

text \<open>Counter 0 counting to 100 with a single interrupt at the target.\<close>

definition pulse_machine :: "unit psx_timers" where
  "pulse_machine = set_counter 0 ((counter_init 0)\<lparr>m_mode := 0x10, m_count_target := 100\<rparr>) (timers_with ())"

lemma pulse_machine_at: "counter_at 0 pulse_machine = (counter_init 0)\<lparr>m_mode := 0x10, m_count_target := 100\<rparr>"
  "counters_ok pulse_machine"
proof -
  show "counter_at 0 pulse_machine = (counter_init 0)\<lparr>m_mode := 0x10, m_count_target := 100\<rparr>"
    unfolding pulse_machine_def by (rule counter_at_set) simp
  show "counters_ok pulse_machine"
    unfolding pulse_machine_def by (rule counters_ok_set[OF timers_with_ok]) (simp add: counter_init_ok)
qed

theorem oneshot_fires_once_witness:
  "\<exists>s'. exec_ops [Op_target 0 0, Op_overflow 0 0] ((fire_irq TARGET 0 pulse_machine)\<lparr>interrupt_request := 0\<rparr>) = Inr s' \<and>
    bit (interrupt_request (fire_irq TARGET 0 pulse_machine)) (4 + 0) \<and>
    bit (interrupt_request s') (4 + 0) = bit (0 :: u32) (4 + 0)"
proof -
  have s': "exec_ops [Op_target 0 0, Op_overflow 0 0] ((fire_irq TARGET 0 pulse_machine)\<lparr>interrupt_request := 0\<rparr>) =
      Inr (overflow_callback 0 0 (target_callback 0 0 ((fire_irq TARGET 0 pulse_machine)\<lparr>interrupt_request := 0\<rparr>)))"
    by simp
  show ?thesis
    by (rule exI, rule conjI[OF s'], rule oneshot_fires_once[OF _ pulse_machine_at(2) _ _ _ _ _ _ s'])
       (simp_all add: pulse_machine_at(1) counter_init_def Let_def irq_enabled_def irq_on_target_def irq_repeat_def irq_toggle_def mode_write_def)
qed

section \<open>Reads are transparent\<close>

lemma div_mod_steps: "x div n + (x mod n + b) div n = (x + b) div n" for x b n :: nat
proof (cases "n = 0")
  case False
  have "x + b = x mod n + b + n * (x div n)" using mult_div_mod_eq[of n x] by linarith
  then have "(x + b) div n = (x mod n + b + n * (x div n)) div n" by (rule arg_cong)
  also have "\<dots> = x div n + (x mod n + b) div n" using False by (rule div_mult_self2)
  finally show ?thesis by (rule sym)
qed simp

lemma unat_widen: "unat (ucast w :: u64) = unat w" for w :: u16
proof -
  have "unat w < 2 ^ LENGTH(16)" by (rule unsigned_less)
  then have "unat w < 2 ^ 64" by simp
  then show ?thesis by (simp add: unsigned_ucast_eq take_bit_nat_eq_self)
qed

lemma unat_narrow: "unat (ucast d :: u16) = unat d mod 2 ^ 16" for d :: u64
  by (simp add: unsigned_ucast_eq take_bit_eq_mod)

lemma unat_count: "unat (ucast (ucast v + d :: u64) :: u16) = (unat v + unat d) mod 2 ^ 16" for v :: u16
  by (simp only: unat_narrow unat_word_ariths(1) unat_widen) (simp add: mod_mod_cancel)

lemma count_steps:
  fixes v T :: u16 and t t1 t2 :: u64
  assumes "unat t1 + unat t2 = unat t"
  shows "(ucast (ucast (ucast (ucast v + t1) :: u16) + t2) :: u16) = ucast (ucast v + t)"
    and "unat v + unat t < 2 ^ 16 \<Longrightarrow>
      min T (ucast (ucast (min T (ucast (ucast v + t1))) + t2)) = min T (ucast (ucast v + t))"
proof -
  show "(ucast (ucast (ucast (ucast v + t1) :: u16) + t2) :: u16) = ucast (ucast v + t)"
    unfolding word_unat_eq_iff unat_count using assms by (simp add: mod_add_left_eq flip: assms add.assoc)
  assume w: "unat v + unat t < 2 ^ 16"
  have m: "unat (min x y) = min (unat x) (unat y)" for x y :: u16
    by (simp add: min_def word_le_nat_alt)
  have "unat T < 2 ^ LENGTH(16)" by (rule unsigned_less)
  then show "min T (ucast (ucast (min T (ucast (ucast v + t1))) + t2)) = min T (ucast (ucast v + t))"
    unfolding word_unat_eq_iff m unat_count using assms w by (auto simp: min_def)
qed

text \<open>
  Reading a running counter does not disturb it: read at one time and again later, it shows
  what the later read alone would have shown, and is left in the same state.
\<close>

theorem reads_transparent:
  assumes "counter_ok c" "\<not> m_stopped c"
    and "unat (m_count_partial c) + unat a + unat b < 2 ^ 64"
    and "reset_on_target (m_mode c) \<longrightarrow>
      unat (m_count_value c) + (unat (m_count_partial c) + unat a + unat b) div unat (m_cycles_per_inc c) < 2 ^ 16"
  shows "bindE (update_counter now a c) (update_counter later b) = update_counter later (a + b) c"
proof -
  define n p v where "n = unat (m_cycles_per_inc c)" and "p = unat (m_count_partial c)" and "v = unat (m_count_value c)"
  have n0: "m_cycles_per_inc c \<noteq> 0" using assms(1) by (auto simp: counter_ok_def)
  have sa: "unat (m_count_partial c + a) = p + unat a" "unat (m_count_partial c + (a + b)) = p + unat a + unat b"
    using assms(3) by (simp_all add: unat_word_ariths p_def)
  have md: "unat (x mod ucast (m_cycles_per_inc c)) = unat x mod n" "unat (x div ucast (m_cycles_per_inc c)) = unat x div n"
    for x :: u64
    by (simp_all add: unat_mod unat_div n_def unat_widen)
  have "p + unat a + unat b < 2 ^ 64" using assms(3) by (simp add: p_def)
  then have sb: "unat ((m_count_partial c + a) mod ucast (m_cycles_per_inc c) + b) = (p + unat a) mod n + unat b"
    using mod_less_eq_dividend[of "p + unat a" n]
    by (subst unat_add_lem[THEN iffD1]) (simp_all add: md sa del: mod_less_eq_dividend)
  let ?t1 = "(m_count_partial c + a) div ucast (m_cycles_per_inc c)"
  let ?t2 = "((m_count_partial c + a) mod ucast (m_cycles_per_inc c) + b) div ucast (m_cycles_per_inc c)"
  let ?t = "(m_count_partial c + (a + b)) div ucast (m_cycles_per_inc c)"
  have t: "unat ?t1 + unat ?t2 = unat ?t"
    by (simp only: md sa sb div_mod_steps)
  have r: "((m_count_partial c + a) mod ucast (m_cycles_per_inc c) + b) mod ucast (m_cycles_per_inc c) =
      (m_count_partial c + (a + b)) mod ucast (m_cycles_per_inc c)"
    by (rule iffD2[OF word_unat_eq_iff]) (simp only: md sa sb mod_add_left_eq)
  let ?w = "\<lambda>t. ucast (ucast (m_count_value c) + t) :: u16"
  show ?thesis
  proof (cases "reset_on_target (m_mode c)")
    case True
    have "unat (m_count_value c) + unat ?t < 2 ^ 16"
      using True assms(4) by (simp only: md sa) (simp add: p_def n_def add.assoc)
    then show ?thesis
      using True assms(2) n0 count_steps(2)[OF t] r by (simp add: update_counter_def Let_def)
  next
    case False
    then show ?thesis
      using assms(2) n0 count_steps(1)[OF t] r by (simp add: update_counter_def Let_def)
  qed
qed

theorem reads_transparent_witness:
  "bindE (update_counter 50 40 ((counter_init 0)\<lparr>m_mode := 0x8, m_count_target := 100\<rparr>)) (update_counter 90 40) =
    update_counter 90 (40 + 40) ((counter_init 0)\<lparr>m_mode := 0x8, m_count_target := 100\<rparr>)"
proof -
  have z: "clock_src 0 = 0" by (simp add: clock_src_def get_bits_def)
  show ?thesis
    by (rule reads_transparent) (simp_all add: counter_ok_def counter_init_def compute_cycles_per_inc_def Let_def z)
qed

section \<open>Events\<close>

text \<open>What is left to the next event of a running counter, and its callback.\<close>

definition next_event_in :: "counter \<Rightarrow> u64 \<times> callback" where
  "next_event_in c =
     (let v = unat (m_count_value c); T = unat (m_count_target c) in
      if v < T then (of_nat ((T - v) * unat (m_cycles_per_inc c)), Target_callback)
      else (of_nat ((0x10000 - v) * unat (m_cycles_per_inc c)), Overflow_callback))"

lemma cycles_exact:
  assumes "counter_ok c"
  shows "cycles_till_overflow c = of_nat ((0x10000 - unat (m_count_value c)) * unat (m_cycles_per_inc c))"
    and "unat (m_count_value c) \<le> unat (m_count_target c) \<Longrightarrow>
      cycles_till_target c = (False, of_nat ((unat (m_count_target c) - unat (m_count_value c)) * unat (m_cycles_per_inc c)))"
    and "unat (m_count_target c) < unat (m_count_value c) \<Longrightarrow> cycles_till_target c = (True, 0)"
proof -
  define n v T where "n = unat (m_cycles_per_inc c)" and "v = unat (m_count_value c)" and "T = unat (m_count_target c)"
  have lt: "v < 2 ^ LENGTH(16)" "T < 2 ^ LENGTH(16)" unfolding v_def T_def by (rule unsigned_less)+
  have w: "ucast x = (of_nat (unat x) :: u64)" for x :: u16
  proof -
    have "unat x < 2 ^ LENGTH(16)" by (rule unsigned_less)
    then have "unat x < 2 ^ 64" by simp
    then show ?thesis by (simp add: word_unat_eq_iff unat_widen unsigned_of_nat take_bit_nat_eq_self)
  qed
  have "v \<le> 0x10000" using lt by simp
  then show "cycles_till_overflow c = of_nat ((0x10000 - unat (m_count_value c)) * unat (m_cycles_per_inc c))"
    unfolding cycles_till_overflow_def w v_def by (simp only: of_nat_mult of_nat_diff) simp
  show "cycles_till_target c = (False, of_nat ((unat (m_count_target c) - unat (m_count_value c)) * unat (m_cycles_per_inc c)))"
    if "unat (m_count_value c) \<le> unat (m_count_target c)"
  proof -
    have "\<not> int (unat (m_count_target c)) - int (unat (m_count_value c)) < 0" using that by linarith
    then show ?thesis
      unfolding cycles_till_target_def w Let_def using that by (simp only: of_nat_mult of_nat_diff if_False) simp
  qed
  show "cycles_till_target c = (True, 0)" if "unat (m_count_target c) < unat (m_count_value c)"
  proof -
    have "int (unat (m_count_target c)) - int (unat (m_count_value c)) < 0" using that by linarith
    then show ?thesis unfolding cycles_till_target_def Let_def by (simp only: if_True)
  qed
qed

lemma unat_of_nat_u64: "a < 2 ^ 64 \<Longrightarrow> unat (of_nat a :: u64) = a"
  by (simp add: unsigned_of_nat take_bit_nat_eq_self)

lemma of_nat_le_iff: "a < 2 ^ 64 \<Longrightarrow> b < 2 ^ 64 \<Longrightarrow> (of_nat a :: u64) \<le> of_nat b \<longleftrightarrow> a \<le> b"
  by (simp add: word_le_nat_alt unsigned_of_nat take_bit_nat_eq_self)

text \<open>Rescheduling a counter that no synchronisation mode holds schedules exactly that event.\<close>

lemma reschedule_event:
  assumes "counter_ok (counter_at k s)" "\<not> sync_stops k (counter_at k s)"
  shows "\<exists>c. reschedule k s = schedule_counter (fst (next_event_in (counter_at k s))) (snd (next_event_in (counter_at k s))) k
      (set_counter k c (snd (deschedule (m_curr_event_id (counter_at k s)) s)))"
proof -
  let ?c = "(counter_at k s)\<lparr>m_stopped := False\<rparr>"
  let ?v = "unat (m_count_value ?c)" and ?T = "unat (m_count_target ?c)" and ?n = "unat (m_cycles_per_inc ?c)"
  have ok: "counter_ok ?c" using assms(1) by simp
  have lt: "?v < 2 ^ LENGTH(16)" "?T < 2 ^ LENGTH(16)" "?n < 2 ^ LENGTH(16)" by (rule unsigned_less)+
  have n: "0 < ?n" using ok by (auto simp: counter_ok_def)
  have b: "x * ?n < 2 ^ 64" if "x \<le> 0x10000" for x
  proof -
    have "x * ?n \<le> 0x10000 * 0x10000" by (rule mult_le_mono) (use that lt in simp_all)
    also have "\<dots> < (2 :: nat) ^ 64" by simp
    finally show ?thesis .
  qed
  have e: "m_count_target ?c = m_count_value ?c \<longleftrightarrow> ?T = ?v" "m_count_target ?c = 0 \<longleftrightarrow> ?T = 0"
    by (simp_all add: word_unat_eq_iff)
  have d: "reschedule k s = (let (neg, till_target) = cycles_till_target ?c; t = snd (deschedule (m_curr_event_id (counter_at k s)) s)
      in if ?T = ?v \<or> ?T = 0
         then schedule_counter (cycles_till_overflow ?c) Overflow_callback k
                (set_counter k (?c\<lparr>m_mode := put_flag 11 True (m_mode ?c)\<rparr>) t)
         else if neg \<or> cycles_till_overflow ?c \<le> till_target
         then schedule_counter (cycles_till_overflow ?c) Overflow_callback k (set_counter k ?c t)
         else schedule_counter till_target Target_callback k (set_counter k ?c t))"
    using assms(2) unfolding e[symmetric] by (simp add: reschedule_def Let_def)
  consider "?T = ?v" | "?T < ?v" | "?v < ?T" by linarith
  then show ?thesis
  proof cases
    case 1
    then show ?thesis unfolding d cycles_exact(1)[OF ok] cycles_exact(2)[OF ok eq_refl[OF 1[symmetric]]]
      by (auto simp: next_event_in_def Let_def)
  next
    case 2
    then show ?thesis unfolding d cycles_exact(1)[OF ok] cycles_exact(3)[OF ok 2]
      by (auto simp: next_event_in_def Let_def)
  next
    case 3
    have "\<not> (0x10000 - ?v) * ?n \<le> (?T - ?v) * ?n" using 3 lt n by simp
    moreover have "?T - ?v \<le> 0x10000" using lt by simp
    ultimately have "\<not> (of_nat ((0x10000 - ?v) * ?n) :: u64) \<le> of_nat ((?T - ?v) * ?n)"
      by (subst of_nat_le_iff[OF b b]) simp_all
    then show ?thesis using 3 unfolding d cycles_exact(1)[OF ok] cycles_exact(2)[OF ok less_imp_le[OF 3]]
      by (auto simp: next_event_in_def Let_def)
  qed
qed

text \<open>The count \<open>t\<close> cycles on, before it is reduced to 16 bits.\<close>

definition count_after :: "counter \<Rightarrow> nat \<Rightarrow> nat" where
  "count_after c t = unat (m_count_value c) + (unat (m_count_partial c) + t) div unat (m_cycles_per_inc c)"

lemma next_in_exact:
  assumes "counter_ok c" "m_count_partial c = 0"
  shows "let goal = (if snd (next_event_in c) = Target_callback then unat (m_count_target c) else 2 ^ 16) in
    count_after c (unat (fst (next_event_in c))) = goal \<and> (\<forall>t < unat (fst (next_event_in c)). count_after c t < goal) \<and>
    (snd (next_event_in c) = Target_callback \<longleftrightarrow> m_count_value c < m_count_target c)"
proof -
  let ?v = "unat (m_count_value c)" and ?T = "unat (m_count_target c)" and ?n = "unat (m_cycles_per_inc c)"
  have lt: "?v < 2 ^ LENGTH(16)" "?T < 2 ^ LENGTH(16)" "?n < 2 ^ LENGTH(16)" by (rule unsigned_less)+
  have n: "0 < ?n" using assms(1) by (auto simp: counter_ok_def)
  have u: "unat (of_nat (x * ?n) :: u64) = x * ?n" if "x \<le> 0x10000" for x
  proof -
    have "x * ?n \<le> 0x10000 * 0x10000" by (rule mult_le_mono) (use that lt in simp_all)
    then have "x * ?n < 2 ^ 64" by simp
    then show ?thesis by (rule unat_of_nat_u64)
  qed
  have g: "?v + t div ?n < goal" if "t < (goal - ?v) * ?n" "?v \<le> goal" for t goal
    using that n by (metis add.commute less_diff_conv div_less_iff_less_mult)
  have ge: "?v + (goal - ?v) * ?n div ?n = goal" if "?v \<le> goal" for goal
    using that n by simp
  show ?thesis
  proof (cases "?v < ?T")
    case True
    then have "snd (next_event_in c) = Target_callback" "fst (next_event_in c) = of_nat ((?T - ?v) * ?n)"
      by (simp_all only: next_event_in_def Let_def if_True fst_conv snd_conv)
    moreover have "unat (of_nat ((?T - ?v) * ?n) :: u64) = (?T - ?v) * ?n" by (rule u) (use lt in simp)
    ultimately show ?thesis
      using True assms(2) g[of _ ?T] ge[of ?T] by (simp only: Let_def count_after_def) (simp add: word_less_nat_alt)
  next
    case False
    then have "snd (next_event_in c) = Overflow_callback" "fst (next_event_in c) = of_nat ((0x10000 - ?v) * ?n)"
      by (simp_all only: next_event_in_def Let_def if_False fst_conv snd_conv)
    moreover have "unat (of_nat ((0x10000 - ?v) * ?n) :: u64) = (0x10000 - ?v) * ?n" by (rule u) simp
    ultimately show ?thesis
      using False assms(2) g[of _ "2 ^ 16"] ge[of "2 ^ 16"] lt
      by (simp only: Let_def count_after_def) (simp add: word_less_nat_alt)
  qed
qed


lemma pulse_machine_sched:
  "sched_inv pulse_machine" "ids_ok pulse_machine" "m_last_id pulse_machine + 1 \<noteq> 0"
  "m_num_events pulse_machine < MAX_EVENTS" "m_curr_timestamp pulse_machine = 0"
  by (simp_all add: pulse_machine_def set_counter_def timers_with_def machine_with_def psx.defs psx_timers.defs
      cpu.defs cpu_init_def scheduler.defs init_scheduler_def sched_inv_def ids_ok_def live_def heap_from_def MAX_EVENTS_def)


section \<open>Reads after an event\<close>

lemma fire_irq_counter:
  assumes "k < length (m_counters s)"
  obtains m f where "counter_at k (fire_irq src k s) = (counter_at k s)\<lparr>m_mode := m, m_oneshot_flag := f\<rparr>"
    "reset_on_target m = reset_on_target (m_mode (counter_at k s))"
    "length (m_counters (fire_irq src k s)) = length (m_counters s)" "m_curr_timestamp (fire_irq src k s) = m_curr_timestamp s"
proof -
  have m: "reset_on_target (mark_reached src w) = reset_on_target w" "i \<noteq> 3 \<Longrightarrow> reset_on_target (put_flag i b w) = reset_on_target w" for w i b
    by (simp_all add: reset_on_target_def mark_reached_def bit_put_flag split: irq_source.split)
  have eq: "c = c\<lparr>m_mode := m_mode c, m_oneshot_flag := m_oneshot_flag c\<rparr>" for c :: counter by simp
  have r: "m_curr_timestamp (raise_interrupt x t) = m_curr_timestamp t" for x and t :: "('a, 'b) psx_timers_scheme"
    by (simp add: raise_interrupt_def)
  let ?c = "counter_at k (fire_irq src k s)"
  have "?c = (counter_at k s)\<lparr>m_mode := m_mode ?c, m_oneshot_flag := m_oneshot_flag ?c\<rparr> \<and>
    reset_on_target (m_mode ?c) = reset_on_target (m_mode (counter_at k s)) \<and>
    length (m_counters (fire_irq src k s)) = length (m_counters s) \<and> m_curr_timestamp (fire_irq src k s) = m_curr_timestamp s"
    using assms by (simp add: fire_irq_def Let_def m r)
  then show thesis by (elim conjE) (rule that[where m = "m_mode ?c" and f = "m_oneshot_flag ?c"])
qed

text \<open>
  The callbacks set the count but not the time it was taken at. So when the target event of
  a counter that resets at its target has fired, a read \<open>d\<close> cycles later counts the cycles before
  the event a second time and shows the target, where \<open>d\<close> cycles have been counted since the reset.
\<close>

theorem stale_read_after_target:
  assumes "counters_ok s" "k < 3" "c = counter_at k s" "\<not> m_stopped c" "m_cycles_per_inc c = 1" "m_count_value c = 0"
    and "reset_on_target (m_mode c)" "unat (m_count_target c) + d < 2 ^ 16"
    and "m_curr_timestamp s = m_last_update_timestamp c + ucast (m_count_target c)"
  shows "\<exists>s'. counter_read k 0 ((target_callback k 0 s)\<lparr>m_curr_timestamp := m_curr_timestamp s + of_nat d\<rparr>) =
    Inr (ucast (m_count_target c), s')"
proof -
  have l: "k < length (m_counters s)" using counters_ok_length[OF assms(1)] assms(2) by simp
  obtain m f where f: "counter_at k (fire_irq TARGET k s) = c\<lparr>m_mode := m, m_oneshot_flag := f\<rparr>" "reset_on_target m"
    "length (m_counters (fire_irq TARGET k s)) = length (m_counters s)"
    using fire_irq_counter[OF l, of TARGET] assms(3,7) by metis
  let ?c = "c\<lparr>m_mode := m, m_oneshot_flag := f, m_count_value := 0\<rparr>"
  have o: "cycles_till_overflow ?c = 0x10000" using assms(5) by (simp add: cycles_till_overflow_def)
  have t: "\<exists>i. counter_at k (target_callback k 0 s) = ?c\<lparr>m_curr_event_id := i\<rparr>"
    using l f o by (auto simp: target_callback_def Let_def schedule_counter_split)
  then obtain i where i: "counter_at k (target_callback k 0 s) = ?c\<lparr>m_curr_event_id := i\<rparr>" by blast
  have "counter_ok c" using counters_ok_at[OF assms(1,2)] assms(3) by simp
  then have "m_count_partial c < 1" using assms(5) by (simp add: counter_ok_def)
  then have p: "m_count_partial c = 0" by (simp add: word_less_nat_alt unat_eq_zero)
  let ?v = "ucast (ucast (m_count_target c) + of_nat d :: u64) :: u16"
  have dd: "d < 2 ^ 64" using assms(8) by simp
  have "unat ?v = unat (m_count_target c) + d"
    unfolding unat_count unat_of_nat_u64[OF dd] using assms(8) by simp
  then have v: "min (m_count_target c) ?v = m_count_target c" by (simp add: min_def word_le_nat_alt)
  have u: "update_counter now (ucast (m_count_target c) + of_nat d) (?c\<lparr>m_curr_event_id := i\<rparr>) =
      Inr (?c\<lparr>m_curr_event_id := i, m_count_value := m_count_target c, m_count_partial := 0, m_last_update_timestamp := now\<rparr>)" for now
    using assms(4,5) f(2) p v by (simp add: update_counter_def Let_def)
  have w: "in_word 0 0" by (simp add: in_word_def)
  have len: "length (m_counters (target_callback k 0 s)) = length (m_counters s)"
    using callbacks_ok(2)[OF assms(1,2)] assms(1) by (simp add: counters_ok_def)
  show ?thesis
    using u l len by (simp add: counter_read_def Let_def w sync_counter_def i assms(9) algebra_simps)
qed

definition reset_machine :: "unit psx_timers" where
  "reset_machine = set_counter 0 ((counter_init 0)\<lparr>m_mode := 0x8, m_count_target := 100\<rparr>)
     (timers_with ()\<lparr>m_curr_timestamp := 100\<rparr>)"

theorem stale_read_after_target_witness:
  "\<exists>s'. counter_read 0 0 ((target_callback 0 0 reset_machine)\<lparr>m_curr_timestamp := m_curr_timestamp reset_machine + of_nat 50\<rparr>) =
    Inr (100, s')"
proof -
  have c: "counter_at 0 reset_machine = (counter_init 0)\<lparr>m_mode := 0x8, m_count_target := 100\<rparr>"
    unfolding reset_machine_def by (rule counter_at_set) simp
  have ok: "counters_ok reset_machine"
    unfolding reset_machine_def by (intro counters_ok_set) (simp_all add: timers_with_ok counter_init_ok)
  have t: "m_curr_timestamp reset_machine = 100" by (simp add: reset_machine_def)
  have z: "clock_src 0 = 0" by (simp add: clock_src_def get_bits_def)
  show ?thesis
    using stale_read_after_target[OF ok _ c[symmetric], of 50] t
    by (simp add: counter_init_def Let_def compute_cycles_per_inc_def z reset_on_target_def)
qed

end
