(* ===== verification/DmaSpec.thy ===== *)
theory DmaSpec
  imports Dma CounterSpec
begin

text \<open>
  The DMA controller's queue, the two ways of writing an ordering table, and the words a
  transfer in slices moves.
\<close>

section \<open>The queue of transfers\<close>

definition idle_transfer :: transfer where "idle_transfer = \<lparr>dma_id = 0, dma_priority = 0\<rparr>"

text \<open>The slots behind the active ones are zero; a queue has at most seven transfers.\<close>

definition transfer_queue_ok :: "dma_controller \<Rightarrow> bool" where
  "transfer_queue_ok d \<longleftrightarrow> length (m_active_dmas d) = 8 \<and> m_num_active d \<le> 7 \<and>
     (\<forall>i. m_num_active d \<le> i \<and> i < 8 \<longrightarrow> m_active_dmas d ! i = idle_transfer)"

definition active :: "dma_controller \<Rightarrow> nat list" where
  "active d = map dma_id (take (m_num_active d) (m_active_dmas d))"

lemma find_slot_end:
  assumes "transfer_queue_ok d" "prio \<noteq> 0"
  shows "find_slot k prio (m_num_active d) (m_active_dmas d) = m_num_active d"
proof (cases "m_num_active d")
  case (Suc p)
  then have "m_active_dmas d ! Suc p = idle_transfer" using assms(1) by (simp add: transfer_queue_ok_def)
  moreover have "0 < prio" using assms(2) by (simp add: word_neq_0_conv)
  ultimately show ?thesis by (simp add: Suc idle_transfer_def)
qed simp

text \<open>
  The queue is served in the order of arrival: whatever the priorities in the control
  register, a transfer with a priority other than 0 is put behind all the others, and the one
  removed is the one that was added first.
\<close>

theorem transfers_in_order_of_arrival:
  assumes "transfer_queue_ok d" "add_transfer k d = Inr d'" "channel_enabled k d" "get_bits (4 * k) 3 (dpcr d) \<noteq> 0"
  shows "active d' = active d @ [k] \<and> transfer_queue_ok d' \<and> transfer_queue_ok (remove_transfer d') \<and>
    active (remove_transfer d') = tl (active d @ [k])"
proof -
  let ?n = "m_num_active d" and ?ts = "m_active_dmas d" and ?t = "\<lparr>dma_id = k, dma_priority = get_bits (4 * k) 3 (dpcr d)\<rparr>"
  have n: "?n < 7" "length ?ts = 8" using assms(1,2) by (auto simp: add_transfer_def transfer_queue_ok_def split: if_splits)
  have d': "d' = d\<lparr>m_active_dmas := shift_right_from ?n ?t ?ts, m_num_active := ?n + 1\<rparr>"
    using assms(2,3) n by (simp add: add_transfer_def Let_def find_slot_end[OF assms(1,4)])
  have tk: "take (Suc ?n) (shift_right_from ?n ?t ?ts) = take ?n ?ts @ [?t]"
    using n by (simp add: shift_right_from_def)
  have len: "length (shift_right_from ?n ?t ?ts) = 8" using n by (simp add: shift_right_from_def)
  have rest: "shift_right_from ?n ?t ?ts ! i = idle_transfer" if i: "Suc ?n \<le> i" "i < 8" for i
  proof -
    obtain j where j: "i = Suc ?n + j" using le_Suc_ex[OF i(1)] by blast
    have "shift_right_from ?n ?t ?ts ! i = butlast (drop ?n ?ts) ! j"
      using n by (simp add: shift_right_from_def j nth_append)
    also have "\<dots> = ?ts ! (?n + j)" using n i j by (simp add: nth_butlast)
    finally show ?thesis using assms(1) i j by (simp add: transfer_queue_ok_def)
  qed
  have ok: "transfer_queue_ok d'" using n len rest by (simp add: transfer_queue_ok_def d')
  have a: "active d' = active d @ [k]" by (simp add: active_def d' tk)
  have "transfer_queue_ok (remove_transfer d') \<and> active (remove_transfer d') = tl (active d')" if "0 < m_num_active d'"
  proof -
    let ?us = "m_active_dmas d'" and ?m = "m_num_active d'"
    have l: "length ?us = 8" "?m \<le> 7" "length (tl ?us) = 7" using ok by (simp_all add: transfer_queue_ok_def)
    have "?us ! 7 = idle_transfer" using ok by (simp add: transfer_queue_ok_def)
    moreover have "last ?us = ?us ! 7" using l(1) by (subst last_conv_nth) auto
    ultimately have "shift_left_one ?us ! i = idle_transfer" if "?m - 1 \<le> i" "i < 8" for i
      using that ok l \<open>0 < ?m\<close> by (cases "i = 7") (simp_all add: shift_left_one_def nth_append nth_tl transfer_queue_ok_def)
    moreover have "take (?m - 1) (shift_left_one ?us) = tl (take ?m ?us)"
      using l \<open>0 < ?m\<close> by (simp add: shift_left_one_def tl_take)
    ultimately show ?thesis
      using that l by (auto simp: remove_transfer_def transfer_queue_ok_def active_def shift_left_one_def map_tl)
  qed
  then show ?thesis using a ok by (simp add: d')
qed

section \<open>The ordering table\<close>

text \<open>The word by word transfer, \<open>n\<close> times; and the environment in which the channel is on the bus.\<close>

fun ot_slow_run ::
  "nat \<Rightarrow> ('h, ('h, 'm) psx_dma_scheme) dma_env \<Rightarrow> ('h, 'm) psx_dma_scheme \<Rightarrow> ('h, 'm) psx_dma_scheme result" where
  "ot_slow_run 0 env s = Inr s"
| "ot_slow_run (Suc n) env s = bindE (ot_slow env s) (ot_slow_run n env)"

definition on_machine ::
  "'h host_os \<Rightarrow> ('h, 'm) psx_dma_scheme device_ops \<Rightarrow> ('h, ('h, 'm) psx_dma_scheme) dma_env \<Rightarrow> bool" where
  "on_machine os dev env \<longleftrightarrow> dma_os env = os \<and> bus_write (dma_bus env) = system_write os dev"

text \<open>\<open>n\<close> words from the base downwards are in the 2 MB of main memory.\<close>

definition table_ok :: "nat \<Rightarrow> ('h, 'm) psx_dma_scheme \<Rightarrow> bool" where
  "table_ok n s \<longleftrightarrow>
     (let b = m_shadow_base_address (channel 6 s) in
      b AND 3 = 0 \<and> 4 * n \<le> unat b + 4 \<and> b < 0x200000 \<and>
      unat (blocksize (m_shadow_block_control (channel 6 s))) = n) \<and>
     0x200000 \<le> m_ram_end (bus s) \<and> \<not> curr_mode s \<and> \<not> exception s \<and> length (m_channels (m_dma_controller s)) = 7"

lemma channel_upd_channel [simp]:
  "k < length (m_channels (m_dma_controller s)) \<Longrightarrow>
   channel k (upd_channel j f s) = (if j = k then f (channel k s) else channel k s)"
  by (simp add: channel_def upd_channel_def upd_ctl_def)

lemma upd_channel_frame [simp]:
  "bus (upd_channel k f s) = bus s" "curr_mode (upd_channel k f s) = curr_mode s"
  "exception (upd_channel k f s) = exception s" "m_curr_cycles (upd_channel k f s) = m_curr_cycles s"
  "length (m_channels (m_dma_controller (upd_channel k f s))) = length (m_channels (m_dma_controller s))"
  by (simp_all add: upd_channel_def upd_ctl_def)

lemma guest_store_frame:
  assumes "guest_store os w a v s = Inr t"
  obtains h where "t = set_bus (\<lambda>b. b\<lparr>m_mapper := (m_mapper b)\<lparr>host := h\<rparr>\<rparr>) s"
  using assms by (auto simp: guest_store_def bindE_Inr_iff)

lemma ram_store:
  assumes "a AND 3 = 0" "a < 0x200000" "0x200000 \<le> m_ram_end (bus s)" "\<not> curr_mode s"
  shows "system_write os dev W32 e False a v s = guest_store os W32 a v s"
proof -
  have "a AND mask 29 \<le> a" by (rule word_and_le2)
  then have p: "physical_address a < m_ram_end (bus s)"
    unfolding physical_address_def using assms(2,3) by (auto simp: word_less_nat_alt word_le_nat_alt)
  have "\<not> between 0x20000000 0x80000000 a" "a \<noteq> 0xFFFE0130"
    using assms(2) by (auto simp: between_def word_less_nat_alt word_le_nat_alt)
  then show ?thesis
    using assms p by (simp add: system_write_def Let_def misaligned_def between_physical_def not_le)
qed

lemma unat_and_3: "unat (a AND 3) = unat a mod 4" for a :: u32
proof -
  have "a AND 3 = take_bit 2 a" by (simp add: take_bit_eq_mask mask_numeral)
  then show ?thesis by (simp only: unsigned_take_bit_eq) (simp add: take_bit_eq_mod)
qed

lemma ram_index_id: "a AND 3 = 0 \<Longrightarrow> a < 0x200000 \<Longrightarrow> ram_index a = a" for a :: u32
proof -
  assume "a AND 3 = 0" "a < 0x200000"
  have "take_bit 21 a = a"
    by (rule iffD2[OF word_unat_eq_iff])
      (use \<open>a < 0x200000\<close> in \<open>simp add: word_less_nat_alt unsigned_take_bit_eq take_bit_nat_eq_self\<close>)
  then have "a AND 0x1FFFFF = a" by (simp add: take_bit_eq_mask mask_numeral)
  moreover have "a AND NOT 3 = a"
  proof -
    have "(a AND 3) OR (a AND NOT 3) = a" by (rule bit_word_eqI) (auto simp: bit_simps)
    then show ?thesis by (simp add: \<open>a AND 3 = 0\<close>)
  qed
  ultimately show ?thesis by (simp add: ram_index_def)
qed

text \<open>The time and the flag of the scheduler play no part in the fast loop.\<close>

definition time_only :: "(('h, 'm) psx_dma_scheme \<Rightarrow> ('h, 'm) psx_dma_scheme) \<Rightarrow> bool" where
  "time_only f \<longleftrightarrow> (\<forall>s. channel 6 (f s) = channel 6 s) \<and> (\<forall>g s. upd_channel 6 g (f s) = f (upd_channel 6 g s)) \<and>
     (\<forall>os w a v s. guest_store os w a v (f s) = bindE (guest_store os w a v s) (\<lambda>t. Inr (f t)))"

lemma time_only_skip: "time_only (skip_time n)" and time_only_cycles: "time_only (m_curr_cycles_update g)"
  by (auto simp: time_only_def skip_time_def channel_def upd_channel_def upd_ctl_def set_bus_def guest_store_def
      bindE_def split: sum.split)

lemma fast_loop_time_only:
  assumes "time_only f"
  shows "ot_fast_loop n env (f s) = bindE (ot_fast_loop n env s) (\<lambda>t. Inr (f t))"
  using assms by (induction n arbitrary: s) (simp_all add: time_only_def Let_def bindE_assoc)

lemma blocksize_count_word:
  assumes "blocksize (m_shadow_block_control c) \<noteq> 0"
  shows "unat (blocksize (m_shadow_block_control (count_word c))) = unat (blocksize (m_shadow_block_control c)) - 1"
proof -
  let ?w = "blocksize (m_shadow_block_control c)"
  have "unat ?w < 2 ^ 16" unfolding blocksize_def by (rule get_bits_less)
  then have "unat (?w - 1) < 2 ^ 16" using assms by (simp add: unat_minus_one)
  then have "take_bit 16 (?w - 1) = ?w - 1"
    by (intro iffD2[OF word_unat_eq_iff]) (simp add: unsigned_take_bit_eq take_bit_nat_eq_self)
  moreover have "blocksize (m_shadow_block_control (count_word c)) = (?w - 1) AND mask 16"
    unfolding count_word_def by (subst blocksize_def) (simp add: get_put_bits_same)
  ultimately show ?thesis using assms by (simp add: take_bit_eq_mask unat_minus_one)
qed

lemma ot_slow_step:
  assumes "on_machine os dev env" "table_ok (Suc n) s"
  defines "s1 \<equiv> upd_channel 6 count_word s"
  shows "ot_slow env s =
    bindE (guest_store os W32 (ram_index (m_shadow_base_address (channel 6 s1))) (ot_link (channel 6 s1)) s1) (\<lambda>t.
      Inr (m_curr_cycles_update (\<lambda>n. n + 1)
        (upd_channel 6 (\<lambda>c. c\<lparr>m_shadow_base_address := m_shadow_base_address c - 4\<rparr>) t)))"
proof -
  let ?c = "channel 6 s1" let ?b = "m_shadow_base_address (channel 6 s)"
  have l: "6 < length (m_channels (m_dma_controller s))" and k: "\<not> curr_mode s1" "\<not> exception s" "0x200000 \<le> m_ram_end (bus s1)"
    and b: "?b AND 3 = 0" "4 * Suc n \<le> unat ?b + 4" "?b < 0x200000"
    and sz: "unat (blocksize (m_shadow_block_control (channel 6 s))) = Suc n"
    using assms(2) by (simp_all add: table_ok_def Let_def s1_def)
  have c: "?c = count_word (channel 6 s)" "m_shadow_base_address ?c = ?b"
    using l by (simp_all add: s1_def count_word_def)
  have n: "unat (blocksize (m_shadow_block_control ?c)) = n"
    using sz blocksize_count_word[of "channel 6 s"] unfolding c(1) by (metis Zero_not_Suc diff_Suc_1 unat_0)
  have link: "ot_link ?c AND 0xFFFFFF = ot_link ?c"
  proof (cases "n = 0")
    case True
    then show ?thesis using n by (simp add: ot_link_def OT_END_def unat_eq_0)
  next
    case False
    then have "4 \<le> unat ?b" "unat ?b < 0x200000" using b by (simp_all add: word_less_nat_alt)
    then have "unat (?b - 4) < 2 ^ 24" by (simp add: unat_sub word_le_nat_alt)
    then have "take_bit 24 (?b - 4) = ?b - 4"
      by (intro iffD2[OF word_unat_eq_iff]) (simp add: unsigned_take_bit_eq take_bit_nat_eq_self)
    then have "(?b - 4) AND 0xFFFFFF = ?b - 4" by (simp add: take_bit_eq_mask mask_numeral)
    moreover have "ot_link ?c = ?b - 4" using n False by (auto simp: ot_link_def c(2))
    ultimately show ?thesis by simp
  qed
  have after: "check_exception t = t" if st: "guest_store os W32 a v s1 = Inr t" for a v t
  proof -
    obtain h where "t = set_bus (\<lambda>b. b\<lparr>m_mapper := (m_mapper b)\<lparr>host := h\<rparr>\<rparr>) s1"
      using guest_store_frame[OF st] .
    then show ?thesis using k(2) by (simp add: check_exception_def set_bus_def s1_def)
  qed
  have "dma_put env ?b (ot_link ?c AND 0xFFFFFF) s1 = guest_store os W32 (ram_index ?b) (ot_link ?c) s1"
    using assms(1) unfolding dma_put_def on_machine_def link by (simp only: ram_index_id[OF b(1,3)] ram_store[OF b(1,3) k(3,1)])
  then show ?thesis
    unfolding ot_slow_def Let_def s1_def[symmetric] c(2)
    by (cases "guest_store os W32 (ram_index ?b) (ot_link ?c) s1") (simp_all add: after)
qed

lemma table_ok_next:
  assumes "table_ok (Suc (Suc n)) s" "guest_store os W32 a v (upd_channel 6 count_word s) = Inr t"
  shows "table_ok (Suc n) (m_curr_cycles_update g
    (upd_channel 6 (\<lambda>c. c\<lparr>m_shadow_base_address := m_shadow_base_address c - 4\<rparr>) t))"
proof -
  let ?b = "m_shadow_base_address (channel 6 s)"
  obtain h where t: "t = set_bus (\<lambda>b. b\<lparr>m_mapper := (m_mapper b)\<lparr>host := h\<rparr>\<rparr>) (upd_channel 6 count_word s)"
    using guest_store_frame[OF assms(2)] .
  have l: "6 < length (m_channels (m_dma_controller s))"
    and b: "?b AND 3 = 0" "4 * Suc (Suc n) \<le> unat ?b + 4" "?b < 0x200000"
    and sz: "unat (blocksize (m_shadow_block_control (channel 6 s))) = Suc (Suc n)"
    using assms(1) by (simp_all add: table_ok_def Let_def)
  have n: "unat (blocksize (m_shadow_block_control (count_word (channel 6 s)))) = Suc n"
    using sz blocksize_count_word[of "channel 6 s"] by (metis Zero_not_Suc diff_Suc_1 unat_0)
  have "4 \<le> ?b" using b(2) by (simp add: word_le_nat_alt)
  then have u: "unat (?b - 4) = unat ?b - 4" by (simp add: unat_sub)
  have "(?b - 4) AND 3 = 0"
  proof -
    have "unat ?b mod 4 = 0" using b(1) unat_and_3[of ?b] by simp
    then have "unat (?b - 4) mod 4 = 0" using b(2) by (simp only: u) presburger
    then show ?thesis using unat_and_3[of "?b - 4"] by (simp add: unat_eq_0)
  qed
  moreover have "?b - 4 < 0x200000" using b(3) u by (simp add: word_less_nat_alt)
  ultimately show ?thesis
    using assms(1) l b u n by (auto simp: table_ok_def Let_def t set_bus_def channel_def upd_channel_def upd_ctl_def count_word_def)
qed

lemma slow_run_is_fast_loop:
  assumes "on_machine os dev env" "table_ok (Suc n) s"
  shows "ot_slow_run (Suc n) env s =
    bindE (ot_fast_loop (Suc n) env s) (\<lambda>t. Inr (m_curr_cycles_update (\<lambda>c. c + of_nat (Suc n)) t))"
  using assms(2)
proof (induction n arbitrary: s)
  case 0
  then show ?case using assms(1) ot_slow_step[OF assms(1) 0]
    by (simp add: Let_def bindE_assoc on_machine_def)
next
  case (Suc n)
  let ?next = "upd_channel 6 (\<lambda>c. c\<lparr>m_shadow_base_address := m_shadow_base_address c - 4\<rparr>)"
  let ?s1 = "upd_channel 6 count_word s"
  let ?store = "guest_store os W32 (ram_index (m_shadow_base_address (channel 6 ?s1))) (ot_link (channel 6 ?s1)) ?s1"
  show ?case
  proof (cases ?store)
    case (Inr t)
    have step: "ot_slow env s = Inr (m_curr_cycles_update (\<lambda>n. n + 1) (?next t))"
      using ot_slow_step[OF assms(1) Suc.prems] Inr by simp
    have ok: "table_ok (Suc n) (m_curr_cycles_update (\<lambda>n. n + 1) (?next t))"
      by (rule table_ok_next[OF Suc.prems Inr])
    have fast: "ot_fast_loop (Suc (Suc n)) env s = ot_fast_loop (Suc n) env (?next t)"
      using Inr assms(1) by (subst ot_fast_loop.simps(2)) (simp only: Let_def bindE_simps on_machine_def)
    have "ot_slow_run (Suc (Suc n)) env s = ot_slow_run (Suc n) env (m_curr_cycles_update (\<lambda>n. n + 1) (?next t))"
      by (subst ot_slow_run.simps(2)) (simp only: step bindE_simps)
    also have "\<dots> = bindE (ot_fast_loop (Suc n) env (?next t)) (\<lambda>t.
        Inr (m_curr_cycles_update (\<lambda>c. c + of_nat (Suc n)) (m_curr_cycles_update (\<lambda>n. n + 1) t)))"
      unfolding Suc.IH[OF ok] fast_loop_time_only[OF time_only_cycles] bindE_assoc bindE_simps ..
    also have "\<dots> = bindE (ot_fast_loop (Suc (Suc n)) env s) (\<lambda>t.
        Inr (m_curr_cycles_update (\<lambda>c. c + of_nat (Suc (Suc n))) t))"
      unfolding fast by (rule arg_cong[where f = "bindE _"]) (auto simp: fun_eq_iff algebra_simps o_def)
    finally show ?thesis .
  next
    case (Inl e)
    then show ?thesis using ot_slow_step[OF assms(1) Suc.prems] assms(1)
      by (simp add: Let_def on_machine_def)
  qed
qed


section \<open>Transfers in slices\<close>

fun slice_run ::
  "nat \<Rightarrow> ('h, ('h, 'm) psx_dma_scheme) dma_env \<Rightarrow> nat \<Rightarrow> ('h, 'm) psx_dma_scheme \<Rightarrow> ('h, 'm) psx_dma_scheme result" where
  "slice_run 0 env k s = Inr s"
| "slice_run (Suc n) env k s = bindE (do_slice env k s) (slice_run n env k)"

lemma slice_run_add: "slice_run (m + n) env k s = bindE (slice_run m env k s) (slice_run n env k)"
proof (induction m arbitrary: s)
  case (Suc m)
  have "slice_run (m + n) env k = (\<lambda>t. bindE (slice_run m env k t) (slice_run n env k))" by (rule ext) (rule Suc)
  then show ?case by (simp add: bindE_assoc)
qed simp

text \<open>The device and the memory answer, and leave the controller alone.\<close>

definition answers :: "('h, ('h, 'm) psx_dma_scheme) dma_env \<Rightarrow> nat \<Rightarrow> bool" where
  "answers env k \<longleftrightarrow> (\<forall>s. \<exists>t. move_word env k s = Inr t \<and> m_dma_controller t = m_dma_controller s)"

text \<open>\<open>b\<close> blocks of \<open>bs\<close> words to go, \<open>w\<close> of them left of the first.\<close>

definition to_go :: "nat \<Rightarrow> nat \<Rightarrow> nat \<Rightarrow> nat \<Rightarrow> ('h, 'm) psx_dma_scheme \<Rightarrow> bool" where
  "to_go k bs b w s \<longleftrightarrow> k < length (m_channels (m_dma_controller s)) \<and> dreq k s \<and>
     unat (blocksize (m_shadow_block_control (channel k s))) = bs \<and>
     unat (m_blocks_rem (channel k s)) = b \<and> unat (m_words_rem (channel k s)) = w"

definition transfer_over :: "nat \<Rightarrow> ('h, 'm) psx_dma_scheme \<Rightarrow> bool" where
  "transfer_over k s \<longleftrightarrow> \<not> start_busy (m_control (channel k s)) \<and> \<not> m_transfer_active (channel k s) \<and> \<not> m_running (channel k s)"

lemma channel_upd_ctl:
  "m_channels (f (m_dma_controller s)) = m_channels (m_dma_controller s) \<Longrightarrow> channel k (upd_ctl f s) = channel k s"
  by (simp add: channel_def upd_ctl_def)

lemma interrupt_channels [simp]:
  "m_channels (m_dma_controller (interrupt_request_dma k l s)) = m_channels (m_dma_controller s)"
  "m_channels (m_dma_controller (signal_exception s)) = m_channels (m_dma_controller s)"
  "m_channels (m_dma_controller (check_exception s)) = m_channels (m_dma_controller s)"
  "m_channels (remove_transfer d) = m_channels d"
  by (simp_all add: interrupt_request_dma_def signal_exception_def check_exception_def upd_ctl_def raise_interrupt_def
      remove_transfer_def Let_def split: prod.split)

lemma slice_word:
  assumes "answers env k" "to_go k bs b (Suc w) s"
  obtains t where "do_slice env k s = Inr t" "to_go k bs b w t"
proof -
  obtain t where t: "move_word env k s = Inr t" "m_dma_controller t = m_dma_controller s"
    using assms(1) unfolding answers_def by metis
  have w0: "unat (m_words_rem (channel k s)) = Suc w" using assms(2) by (simp add: to_go_def)
  then have "m_words_rem (channel k s) \<noteq> 0" by auto
  with w0 have w: "m_words_rem (channel k s) \<noteq> 0" "unat (m_words_rem (channel k s) - 1) = w"
    by (simp_all add: unat_minus_one)
  have "to_go k bs b w (next_word 2 k t)"
    using assms(2) w t(2)
    by (simp add: to_go_def next_word_def dreq_def channel_def upd_channel_def upd_ctl_def Let_def)
  then show thesis using that[of "next_word 2 k t"] t w by (simp add: do_slice_def Let_def)
qed

lemma slice_words:
  assumes "answers env k" "to_go k bs b w s"
  shows "\<exists>t. slice_run w env k s = Inr t \<and> to_go k bs b 0 t"
  using assms(2)
proof (induction w arbitrary: s)
  case (Suc w)
  obtain t where "do_slice env k s = Inr t" "to_go k bs b w t" using slice_word[OF assms(1) Suc.prems] .
  then show ?case using Suc.IH by auto
qed simp

lemma count_block_fields [simp]:
  "m_blocks_rem (count_block c) = m_blocks_rem c - 1" "m_words_rem (count_block c) = m_words_rem c"
  "blocksize (m_shadow_block_control (count_block c)) = blocksize (m_shadow_block_control c)"
  "m_dreq (count_block c) = m_dreq c"
  by (simp_all add: count_block_def blocksize_def get_put_bits_other)

lemma slice_end:
  assumes "to_go k bs 1 0 s"
  obtains t where "do_slice env k s = Inr t" "transfer_over k t"
proof -
  have b: "m_words_rem (channel k s) = 0" "m_blocks_rem (channel k s) = 1"
    using assms by (simp_all add: to_go_def unat_eq_0 word_unat_eq_iff[of _ 1])
  have "transfer_over k (transfer_end k True (upd_channel k count_block s))"
    using assms by (simp add: transfer_over_def transfer_end_def to_go_def channel_def upd_channel_def upd_ctl_def
        start_busy_def bit_put_flag Let_def)
  then show thesis using that assms b by (simp add: do_slice_def to_go_def)
qed

lemma slice_next_block:
  assumes "to_go k bs (Suc (Suc b)) 0 s" "b < 2 ^ 16"
  obtains t where "do_slice env k s = Inr t" "to_go k bs (Suc b) bs t"
proof -
  have w: "m_words_rem (channel k s) = 0" using assms by (auto simp: to_go_def unat_eq_0)
  have n: "unat (m_blocks_rem (channel k s)) = Suc (Suc b)" using assms by (simp add: to_go_def)
  then have "m_blocks_rem (channel k s) \<noteq> 0" by auto
  then have n1: "unat (m_blocks_rem (channel k s) - 1) = Suc b" using n by (simp add: unat_minus_one)
  have top: "unat (- 1 :: u32) = 0xFFFFFFFF" by (simp add: unsigned_minus_1_eq_mask mask_eq_exp_minus_1)
  from n1 have "m_blocks_rem (channel k s) - 1 \<noteq> 0" "m_blocks_rem (channel k s) - 1 \<noteq> -1"
    using assms(2) top by (auto dest: arg_cong[of _ _ unat])
  then have ne: "\<not> (m_blocks_rem (channel k s) - 1 = 0 \<or> m_blocks_rem (channel k s) - 1 = -1)" by blast
  let ?t = "upd_channel k (\<lambda>c. c\<lparr>m_words_rem := blocksize (m_shadow_block_control c)\<rparr>)
        (interrupt_request_dma k False (upd_channel k count_block s))"
  have l: "k < length (m_channels (m_dma_controller s))" and d: "dreq k (upd_channel k count_block s)"
    using assms by (simp_all add: to_go_def dreq_def)
  have "do_slice env k s = Inr ?t"
    unfolding do_slice_def Let_def using l d w ne
    by (simp only: channel_upd_channel count_block_fields if_True if_False refl)
  moreover have "to_go k bs (Suc b) bs ?t"
    using assms n1 by (simp add: to_go_def dreq_def channel_def upd_channel_def upd_ctl_def)
  ultimately show thesis by (rule that)
qed


section \<open>Concrete transfers\<close>

definition dma_with :: "dma_controller \<Rightarrow> 'h \<Rightarrow> 'h psx_dma" where
  "dma_with d h = psx_timers.extend (timers_with h) (psx_dma.fields d)"

lemma dma_with_fields [simp]:
  "m_dma_controller (dma_with d h) = d" "bus (dma_with d h) = memory_bus h" "curr_mode (dma_with d h) = False"
  "exception (dma_with d h) = False" "channel k (dma_with d h) = m_channels d ! k"
  by (simp_all add: channel_def dma_with_def timers_with_def machine_with_def cpu.defs psx.defs psx_timers.defs
      psx_dma.defs cpu_init_def scheduler.defs)

text \<open>The controller at reset, with one channel in a given state.\<close>

definition one_channel :: "nat \<Rightarrow> dma_channel \<Rightarrow> dma_controller" where
  "one_channel k c = (dma_init False)\<lparr>m_channels := (m_channels (dma_init False))[k := c]\<rparr>"

lemma one_channel_simps [simp]:
  "k < 7 \<Longrightarrow> m_channels (one_channel k c) ! k = c" "length (m_channels (one_channel k c)) = 7"
  "\<not> m_use_simd (one_channel k c)"
  by (simp_all add: one_channel_def dma_init_def)

definition busy_queue :: dma_controller where
  "busy_queue = (dma_init False)\<lparr>dpcr := 0xF00,
     m_active_dmas := \<lparr>dma_id = 6, dma_priority = 1\<rparr> # replicate 7 idle_transfer, m_num_active := 1\<rparr>"

theorem transfers_in_order_of_arrival_witness:
  "\<exists>d'. add_transfer 2 busy_queue = Inr d' \<and> active d' = [6, 2] \<and> active (remove_transfer d') = [2]"
proof -
  have q: "transfer_queue_ok busy_queue"
    by (auto simp: transfer_queue_ok_def busy_queue_def dma_init_def nth_Cons less_Suc_eq_le split: nat.split)
  have e: "channel_enabled 2 busy_queue" "get_bits (4 * 2) 3 (dpcr busy_queue) \<noteq> 0" "active busy_queue = [6]"
    by code_simp+
  have "m_num_active busy_queue \<noteq> 7" by (simp add: busy_queue_def)
  then obtain d' where d: "add_transfer 2 busy_queue = Inr d'" using e(1) by (simp add: add_transfer_def Let_def)
  show ?thesis using transfers_in_order_of_arrival[OF q d e(1,2)] d e(3) by simp
qed

definition table_channel :: dma_channel where
  "table_channel = dma_channel_init\<lparr>m_shadow_base_address := 0x10C, m_shadow_block_control := 4\<rparr>"

definition dma_env_on ::
  "'h host_os \<Rightarrow> ('h, 'm) psx_dma_scheme bus_ops \<Rightarrow> ('h, ('h, 'm) psx_dma_scheme) dma_env" where
  "dma_env_on os ops = \<lparr>dma_bus = ops, spu_dma_read = (\<lambda>s. Inr (0, s)), spu_dma_write = (\<lambda>v s. Inr s), dma_os = os\<rparr>"


text \<open>A port that gives zeros and takes anything: two blocks of sixteen words.\<close>

definition quiet_port :: "('h, 'm) psx_dma_scheme bus_ops" where
  "quiet_port = \<lparr>bus_read = (\<lambda>w e c a s. Inr (0, s)), bus_write = (\<lambda>w e c a v s. Inr s), cache_enabled = (\<lambda>s. False),
     undefined_instruction = (\<lambda>i s. Inr (False, s)), hle_bios_handler = (\<lambda>a e s. Inr (False, s))\<rparr>"

definition slice_channel :: dma_channel where
  "slice_channel = dma_channel_init\<lparr>m_shadow_block_control := 0x00020010, m_words_rem := 16, m_blocks_rem := 2,
     m_control := 0x01000200, m_running := True, m_transfer_active := True, m_dreq := True\<rparr>"


end
