(* ===== verification/SioSpec.thy ===== *)
theory SioSpec
  imports Sio PadSpec MemcardSpec DmaSpec
begin

text \<open>
  The serial port: the receive buffer and its flag in the status register agree in every
  reachable state, a byte written to an idle port is answered by the device, and a byte that
  waited for the transmitter is sent again and again.
\<close>

section \<open>The receive buffer\<close>

definition port_ok :: "sio_port \<Rightarrow> bool" where
  "port_ok p \<longleftrightarrow> length (rx_entries p) = 8 \<and> rx_num_bytes p \<le> 8 \<and> (bit (m_stat p) 1 \<longleftrightarrow> 0 < rx_num_bytes p)"

definition ports_ok :: "('h, 'm) psx_sio_scheme \<Rightarrow> bool" where
  "ports_ok s \<longleftrightarrow> length (m_sio s) = 2 \<and> (\<forall>k < 2. port_ok (port_at k s))"

named_theorems port_oks \<open>operations that keep the ports well formed\<close>

lemma port_at_upd [simp]:
  "k < length (m_sio s) \<Longrightarrow> port_at j (upd_port k f s) = (if j = k then f (port_at k s) else port_at j s)"
  by (simp add: port_at_def upd_port_def)

lemma length_upd_port [simp]: "length (m_sio (upd_port k f s)) = length (m_sio s)"
  by (simp add: upd_port_def)

lemma m_sio_elsewhere [simp]:
  "m_sio (snd (schedule c cb ud s)) = m_sio s" "m_sio (snd (deschedule i s)) = m_sio s"
  "m_sio (raise_interrupt irq s) = m_sio s"
  by (simp_all add: schedule_def schedule_absolute_def deschedule_def raise_interrupt_def Let_def)

lemma port_at_elsewhere [simp]:
  "port_at k (snd (schedule c cb ud s)) = port_at k s" "port_at k (snd (deschedule i s)) = port_at k s"
  "port_at k (raise_interrupt irq s) = port_at k s"
  by (simp_all add: port_at_def)

lemma ports_ok_elsewhere [port_oks]:
  "ports_ok s \<Longrightarrow> ports_ok (snd (schedule c cb ud s))" "ports_ok s \<Longrightarrow> ports_ok (snd (deschedule i s))"
  "ports_ok s \<Longrightarrow> ports_ok (raise_interrupt irq s)"
  by (simp_all add: ports_ok_def)

lemma ports_ok_upd [port_oks]:
  "ports_ok s \<Longrightarrow> k < 2 \<Longrightarrow> port_ok (f (port_at k s)) \<Longrightarrow> ports_ok (upd_port k f s)"
  by (simp add: ports_ok_def)

lemma ports_ok_at: "ports_ok s \<Longrightarrow> k < 2 \<Longrightarrow> port_ok (port_at k s)"
  by (simp add: ports_ok_def)

lemma port_ok_flags [port_oks]:
  "port_ok p \<Longrightarrow> port_ok (set_tx_not_full b p)" "port_ok p \<Longrightarrow> port_ok (set_tx_idle b p)"
  "port_ok p \<Longrightarrow> 1 < i \<Longrightarrow> port_ok (p\<lparr>m_stat := put_flag i b (m_stat p)\<rparr>)"
  "port_ok p \<Longrightarrow> port_ok (p\<lparr>m_event_id := e\<rparr>)"
  by (simp_all add: port_ok_def set_tx_not_full_def set_tx_idle_def bit_put_flag)

lemma exchange_byte_ok: "port_ok p \<Longrightarrow> ensures UNIV port_ok (exchange_byte p)"
  by (auto simp: exchange_byte_def port_ok_def Let_def ensures_def bindE_def split: option.splits sum.splits prod.splits)

lemma handle_pending_ok [port_oks]:
  assumes "ports_ok s" "k < 2"
  shows "ensures UNIV ports_ok (handle_pending_transfer k s)"
proof -
  have "ensures UNIV port_ok (exchange_byte (set_tx_not_full True (set_tx_idle False (port_at k s))))"
    using assms by (intro exchange_byte_ok port_oks ports_ok_at)
  then show ?thesis unfolding handle_pending_transfer_def Let_def
    by (intro ensures_cond; (elim ensures_bind)?)
      (use assms in \<open>auto simp: split_beta intro!: ports_ok_upd ports_ok_elsewhere port_ok_flags(4)
        simp del: port_at_upd dest: ports_ok_at\<close>, (simp add: ports_ok_def port_ok_def)?)
qed

lemma receive_byte_ok: "port_ok p \<Longrightarrow> port_ok (snd (receive_byte k p))"
  by (auto simp: receive_byte_def port_ok_def Let_def bit_put_flag set_rx_not_empty_def)

lemma complete_port_ok:
  assumes "port_ok p"
  shows "port_ok (snd (complete_port k p))"
proof -
  let ?p = "set_tx_idle True p"
  let ?q = "?p\<lparr>m_pending_transfer := m_new_transfer ?p, m_old_tx := m_tx_data ?p\<rparr>"
  have "port_ok ?q" using port_ok_flags(2)[OF assms] by (simp add: port_ok_def)
  then have r: "port_ok (snd (receive_byte k ?q))" by (rule receive_byte_ok)
  show ?thesis unfolding complete_port_def Let_def split_beta by (auto intro!: port_ok_flags r)
qed

lemma transfer_complete_ok [port_oks]:
  assumes "ports_ok s" "k < 2"
  shows "ensures UNIV ports_ok (transfer_complete k s)"
  unfolding transfer_complete_def Let_def split_beta
  by (intro handle_pending_ok assms) (auto intro!: port_oks assms complete_port_ok ports_ok_at)

lemma finish_transfer_ok [port_oks]: "ports_ok s \<Longrightarrow> k < 2 \<Longrightarrow> ensures UNIV ports_ok (finish_transfer k s)"
  by (simp add: finish_transfer_def port_oks)

lemma pop_rx_ok: "port_ok p \<Longrightarrow> 0 < rx_num_bytes p \<Longrightarrow> port_ok (pop_rx p)"
  by (auto simp: pop_rx_def port_ok_def Let_def set_rx_not_empty_def bit_put_flag)

lemma sio_read8_ok [port_oks]:
  assumes "ports_ok s" "k < 2"
  shows "ensures UNIV (\<lambda>(v, s'). ports_ok s') (sio_read8 k a s)"
  unfolding sio_read8_def Let_def
  by (intro ensures_cond ensures_bind[OF finish_transfer_ok[OF assms]])
    (use assms in \<open>auto intro!: ports_ok_upd pop_rx_ok dest: ports_ok_at\<close>)

lemma sio_read_bytes_ok [port_oks]:
  "ports_ok s \<Longrightarrow> k < 2 \<Longrightarrow> ensures UNIV (\<lambda>(v, s'). ports_ok s') (sio_read_bytes n k s)"
proof (induction n arbitrary: s)
  case (Suc n)
  show ?case unfolding sio_read_bytes.simps
    by (rule ensures_bind[OF sio_read8_ok[OF Suc.prems]])
      (use Suc in \<open>auto intro!: ensures_bind[OF Suc.IH]\<close>)
qed simp

lemma sio_read_stat_ok [port_oks]:
  assumes "ports_ok s" "k < 2"
  shows "ensures UNIV (\<lambda>(v, s'). ports_ok s') (sio_read_stat k s)"
  unfolding sio_read_stat_def Let_def
  by (rule ensures_bind[OF finish_transfer_ok[OF assms]])
    (use assms in \<open>auto intro!: ports_ok_upd port_ok_flags dest: ports_ok_at\<close>)

lemma sio_read_ok [port_oks]:
  assumes "ports_ok s" "k < 2"
  shows "ensures UNIV (\<lambda>(v, s'). ports_ok s') (sio_port_read k w a s)"
  using assms
  by (cases w) (auto simp: sio_port_read_def sio_read32_def sio_read16_def Let_def port_oks
    intro!: ensures_bind[OF sio_read_stat_ok[OF assms]] ensures_bind[OF sio_read8_ok[OF assms]])

lemma control_ok:
  "port_ok p \<Longrightarrow> port_ok (change_control v p)" "port_ok p \<Longrightarrow> port_ok (ack_control p)"
  "port_ok p \<Longrightarrow> port_ok (write_mode k v p)" "port_ok p \<Longrightarrow> port_ok (write_baud k v p)"
  "port_ok p \<Longrightarrow> port_ok (queue_tx b p)"
  by (auto simp: change_control_def ack_control_def write_mode_def write_baud_def queue_tx_def compute_clocks_per_bit_def
      port_ok_def Let_def set_rx_not_empty_def set_tx_not_full_def bit_put_flag bit_put_bits)

lemma sio_write16_ok [port_oks]:
  assumes "ports_ok s" "k < 2"
  shows "ensures UNIV ports_ok (sio_write16 k a v s)"
proof -
  have u: "ports_ok (upd_port k (change_control v) s)" "ports_ok (upd_port k (queue_tx b) s)" for b
    using assms by (auto intro!: ports_ok_upd control_ok ports_ok_at)
  have c: "ensures UNIV ports_ok (if b then handle_pending_transfer k (upd_port k (change_control v) s)
      else Inr (upd_port k (change_control v) s))" for b
    using u(1) assms(2) by (simp add: port_oks)
  show ?thesis unfolding sio_write16_def Let_def
    by (intro ensures_cond ensures_bind[OF c] port_oks u assms)
      (use assms in \<open>auto intro!: ports_ok_upd control_ok dest: ports_ok_at\<close>)
qed

lemma sio_write_ok [port_oks]:
  "ports_ok s \<Longrightarrow> k < 2 \<Longrightarrow> ensures UNIV ports_ok (sio_port_write k w a v s)"
  by (cases w) (simp_all add: sio_port_write_def sio_write8_def Let_def port_oks)

datatype sio_op = Sio_read nat width u32 | Sio_write nat width u32 u32 | Sio_complete nat

fun run_sio :: "sio_op list \<Rightarrow> ('h, 'm) psx_sio_scheme \<Rightarrow> ('h, 'm) psx_sio_scheme result" where
  "run_sio [] s = Inr s"
| "run_sio (Sio_read k w a # ops) s = bindE (sio_port_read k w a s) (\<lambda>(v, s). run_sio ops s)"
| "run_sio (Sio_write k w a v # ops) s = bindE (sio_port_write k w a v s) (run_sio ops)"
| "run_sio (Sio_complete k # ops) s = bindE (transfer_complete k s) (run_sio ops)"

fun sio_op_ok :: "sio_op \<Rightarrow> bool" where
  "sio_op_ok (Sio_read k w a) = (k < 2)" | "sio_op_ok (Sio_write k w a v) = (k < 2)" | "sio_op_ok (Sio_complete k) = (k < 2)"

lemma run_sio_ok:
  assumes "ports_ok s" "list_all sio_op_ok ops"
  shows "ensures UNIV ports_ok (run_sio ops s)"
  using assms
proof (induction ops arbitrary: s)
  case (Cons op ops)
  then show ?case
    by (cases op) (auto intro!: ensures_bind[OF sio_read_ok] ensures_bind[OF sio_write_ok] ensures_bind[OF transfer_complete_ok])
qed simp

text \<open>
  The receive buffer of a port holds at most eight bytes and the flag in the status register
  tells whether it is empty, after any sequence of register accesses and transfers.
\<close>

theorem receive_flag_tells:
  assumes "ports_ok s" "list_all sio_op_ok ops" "run_sio ops s = Inr s'" "k < 2"
  shows "rx_num_bytes (port_at k s') \<le> 8 \<and> (bit (m_stat (port_at k s')) 1 \<longleftrightarrow> 0 < rx_num_bytes (port_at k s'))"
  using run_sio_ok[OF assms(1,2)] assms(3,4) by (simp add: ports_ok_def port_ok_def)

section \<open>One byte\<close>

text \<open>A port at rest with a device on its first connector, ready to transmit.\<close>

definition ready_port :: "driver \<Rightarrow> sio_port \<Rightarrow> bool" where
  "ready_port d p \<longleftrightarrow> \<not> m_pending_transfer p \<and> \<not> m_new_transfer p \<and> tx_idle (m_stat p) \<and> tx_not_full (m_stat p) \<and>
     tx_enable (m_sio_control p) \<and> dtr_output_level (m_sio_control p) \<and> \<not> port_select (m_sio_control p) \<and>
     m_event_id p = INVALID_EVENT \<and> rx_num_bytes p = 0 \<and> m_port1 p = Some d"

lemma schedule_id:
  "m_num_events s \<noteq> MAX_EVENTS \<Longrightarrow> fst (schedule c cb ud s) = m_last_id s"
  by (simp add: schedule_def schedule_absolute_def Let_def)

lemma interrupt_sets: "interrupt_request (raise_interrupt irq s) AND irq = (if interrupt_request s AND irq = 0 then irq else interrupt_request s AND irq)"
  by (auto simp: raise_interrupt_def bit.conj_disj_distrib2)

text \<open>
  C29. A byte written to a port at rest is answered by the device: reading the data register
  returns its answer, and when the device acknowledges and the interrupt is enabled the
  controller interrupt is requested.
\<close>

theorem byte_is_answered:
  assumes "ports_ok s" "ready_port d (port_at 0 s)" "m_num_events s \<noteq> MAX_EVENTS" "m_last_id s \<noteq> INVALID_EVENT"
    and "driver_send v d = Inr (b, data, d1)" "driver_ack d1 = (ack, d2)"
  shows "\<exists>s1 s2. sio_port_write 0 W8 0 (ucast v) s = Inr s1 \<and> sio_port_read 0 W8 0 s1 = Inr (ucast b, s2) \<and>
    m_port1 (port_at 0 s2) = Some d2 \<and> m_event_id (port_at 0 s1) \<noteq> INVALID_EVENT \<and>
    tx_idle (m_stat (port_at 0 s2)) \<and> \<not> m_pending_transfer (port_at 0 s2) \<and>
    (ack \<and> dsr_int_enable (m_sio_control (port_at 0 s)) \<longrightarrow> interrupt_request s2 AND PAD_CARD_IRQ \<noteq> 0)"
proof -
  let ?p = "port_at 0 s"
  have l: "length (m_sio s) = 2" "length (rx_entries ?p) = 8" using assms(1) by (auto simp: ports_ok_def port_ok_def)
  have r: "\<not> m_pending_transfer ?p" "\<not> m_new_transfer ?p" "bit (m_stat ?p) 2" "bit (m_stat ?p) 0"
    "bit (m_sio_control ?p) 0" "bit (m_sio_control ?p) 1" "\<not> bit (m_sio_control ?p) 13"
    "m_event_id ?p = INVALID_EVENT" "rx_num_bytes ?p = 0" "m_port1 ?p = Some d"
    using assms(2) by (simp_all add: ready_port_def tx_idle_def tx_not_full_def tx_enable_def dtr_output_level_def port_select_def)
  let ?q = "set_tx_not_full True (set_tx_idle False (queue_tx v ?p))"
  let ?x = "?q\<lparr>m_new_rx_data := b, m_has_data := data, m_has_ack := ack, m_port1 := Some d2\<rparr>"
  have can: "can_transfer (queue_tx v ?p)"
    using r by (simp add: can_transfer_def queue_tx_def tx_idle_def tx_enable_def dtr_output_level_def Let_def
        set_tx_not_full_def bit_put_flag)
  have ex: "exchange_byte ?q = Inr ?x"
    using r assms(5,6) by (simp add: exchange_byte_def port_select_def queue_tx_def Let_def set_tx_not_full_def set_tx_idle_def)
  define sch where "sch = schedule (get_transfer_time (queue_tx v ?p)) (Some Transfer_end_callback) 0
    (upd_port 0 (\<lambda>_. ?x) (upd_port 0 (queue_tx v) s))"
  define s1 where "s1 = upd_port 0 (\<lambda>p. p\<lparr>m_event_id := m_last_id s\<rparr>) (snd sch)"
  have id: "fst sch = m_last_id s"
    unfolding sch_def by (subst schedule_id) (simp_all add: assms(3) upd_port_def)
  have w16: "sio_port_write 0 W8 0 (ucast v) s = sio_write16 0 0 (ucast v) s"
  proof -
    have "ucast (ucast (ucast (ucast v :: u32) :: u8) :: u32) = (ucast v :: u16)"
      by (rule bit_word_eqI) (auto simp: bit_simps dest: bit_imp_le_length)
    then show ?thesis by (simp add: sio_port_write_def sio_write8_def Let_def)
  qed
  have byte: "ucast (ucast v :: u16) = v" by (rule bit_word_eqI) (auto simp: bit_simps)
  have w: "sio_write16 0 0 (ucast v) s = Inr s1"
    using r(4) can ex id l byte
    by (simp add: sio_write16_def in_half_def in_word_def tx_not_full_def handle_pending_transfer_def Let_def
        s1_def sch_def[symmetric] split_beta)
  have p1: "port_at 0 s1 = ?x\<lparr>m_event_id := m_last_id s\<rparr>" "length (m_sio s1) = 2"
    using l by (simp_all add: s1_def sch_def)
  let ?s1 = "snd (deschedule (m_last_id s) s1)"
  let ?y = "set_tx_idle True (?x\<lparr>m_event_id := m_last_id s\<rparr>)"
  let ?z = "?y\<lparr>m_pending_transfer := False, m_old_tx := m_tx_data ?y\<rparr>"
  have new: "m_new_transfer ?y = False" using r by (simp add: queue_tx_def Let_def set_tx_idle_def set_tx_not_full_def)
  obtain full z where rec: "receive_byte 0 ?z = (full, z)" by (cases "receive_byte 0 ?z")
  have z: "m_port1 z = Some d2" "\<not> m_pending_transfer z" "bit (m_stat z) 2" "rx_num_bytes z = 1" "rx_entries z ! 0 = b"
    "length (rx_entries z) = 8"
    using rec r l by (auto simp: receive_byte_def Let_def queue_tx_def set_tx_idle_def set_tx_not_full_def
        dtr_output_level_def set_rx_not_empty_def bit_put_flag split: if_splits)
  define req where "req = (m_has_ack ?z \<and> dsr_int_enable (m_sio_control ?z) \<or> full)"
  define z' where "z' = (if req then z\<lparr>m_stat := put_flag 9 True (m_stat z)\<rparr> else z)\<lparr>m_event_id := INVALID_EVENT\<rparr>"
  define s2 where "s2 = (if req then raise_interrupt PAD_CARD_IRQ (upd_port 0 (\<lambda>_. z') ?s1) else upd_port 0 (\<lambda>_. z') ?s1)"
  have p2: "port_at 0 s2 = z'" "length (m_sio s2) = 2" using p1(2) by (simp_all add: s2_def)
  have z': "m_port1 z' = Some d2" "\<not> m_pending_transfer z'" "bit (m_stat z') 2" "rx_num_bytes z' = 1" "rx_entries z' ! 0 = b"
    using z by (simp_all add: z'_def bit_put_flag)
  have "transfer_complete 0 ?s1 = handle_pending_transfer 0 s2"
    unfolding transfer_complete_def complete_port_def Let_def port_at_elsewhere p1(1) new rec prod.case
    by (simp add: s2_def z'_def req_def)
  also have "\<dots> = Inr s2" using z'(2) by (simp add: handle_pending_transfer_def Let_def p2 can_transfer_def)
  finally have fin: "finish_transfer 0 s1 = Inr s2"
    using assms(4) by (simp add: finish_transfer_def p1(1))
  have rd: "sio_port_read 0 W8 0 s1 = Inr (ucast b, upd_port 0 pop_rx s2)"
    using z'(4,5) by (simp add: sio_port_read_def sio_read8_def in_word_def fin p2 Let_def)
  have p3: "port_at 0 (upd_port 0 pop_rx s2) = pop_rx z'" using p2 by simp
  have irq: "interrupt_request (upd_port 0 pop_rx s2) AND PAD_CARD_IRQ \<noteq> 0" if "ack" "dsr_int_enable (m_sio_control ?p)"
  proof -
    have req using that by (simp add: req_def queue_tx_def Let_def set_tx_idle_def set_tx_not_full_def)
    then show ?thesis using interrupt_sets[of PAD_CARD_IRQ "upd_port 0 (\<lambda>_. z') ?s1"]
      by (auto simp: upd_port_def s2_def PAD_CARD_IRQ_def split: if_splits)
  qed
  have pop: "m_port1 (pop_rx z') = Some d2" "tx_idle (m_stat (pop_rx z'))" "\<not> m_pending_transfer (pop_rx z')"
    using z' by (simp_all add: pop_rx_def Let_def set_rx_not_empty_def tx_idle_def bit_put_flag)
  show ?thesis
    by (intro exI[of _ s1] exI[of _ "upd_port 0 pop_rx s2"])
      (use w16 w rd p3 pop irq assms(4) in \<open>simp add: p1(1)\<close>)
qed

section \<open>The byte that waits\<close>

text \<open>A second byte was written during a transfer, and the port may go on transmitting.\<close>

definition resending :: "nat \<Rightarrow> ('h, 'm) psx_sio_scheme \<Rightarrow> bool" where
  "resending k s \<longleftrightarrow> k < length (m_sio s) \<and> m_new_transfer (port_at k s) \<and>
     tx_enable (m_sio_control (port_at k s)) \<and> dtr_output_level (m_sio_control (port_at k s))"

fun completions :: "nat \<Rightarrow> nat \<Rightarrow> ('h, 'm) psx_sio_scheme \<Rightarrow> ('h, 'm) psx_sio_scheme result" where
  "completions 0 k s = Inr s"
| "completions (Suc n) k s = bindE (transfer_complete k s) (completions n k)"

lemma receive_byte_keeps:
  "m_new_transfer (snd (receive_byte k p)) = m_new_transfer p" "m_old_tx (snd (receive_byte k p)) = m_old_tx p"
  "m_pending_transfer (snd (receive_byte k p)) = m_pending_transfer p" "m_tx_data (snd (receive_byte k p)) = m_tx_data p"
  "tx_idle (m_stat (snd (receive_byte k p))) = tx_idle (m_stat p)"
  "tx_enable (m_sio_control (snd (receive_byte k p))) = tx_enable (m_sio_control p)"
  "dtr_output_level (m_sio_control (snd (receive_byte k p))) = dtr_output_level (m_sio_control p)"
  by (simp_all add: receive_byte_def Let_def set_rx_not_empty_def tx_idle_def tx_enable_def dtr_output_level_def bit_put_flag)

lemma exchange_byte_keeps:
  assumes "exchange_byte p = Inr q"
  shows "m_new_transfer q = m_new_transfer p" "m_old_tx q = m_old_tx p" "m_tx_data q = m_tx_data p"
    "m_stat q = m_stat p" "m_sio_control q = m_sio_control p"
  using assms by (auto simp: exchange_byte_def Let_def bindE_Inr_iff split_beta split: option.splits if_splits)

lemma complete_port_keeps:
  "m_new_transfer (snd (complete_port k p)) = m_new_transfer p" "m_pending_transfer (snd (complete_port k p)) = m_new_transfer p"
  "m_old_tx (snd (complete_port k p)) = m_tx_data p" "m_tx_data (snd (complete_port k p)) = m_tx_data p"
  "tx_idle (m_stat (snd (complete_port k p)))"
  "tx_enable (m_sio_control (snd (complete_port k p))) = tx_enable (m_sio_control p)"
  "dtr_output_level (m_sio_control (snd (complete_port k p))) = dtr_output_level (m_sio_control p)"
  using receive_byte_keeps[of k "(set_tx_idle True p)\<lparr>m_pending_transfer := m_new_transfer (set_tx_idle True p),
      m_old_tx := m_tx_data (set_tx_idle True p)\<rparr>"]
  by (simp_all add: complete_port_def Let_def split_beta set_tx_idle_def tx_idle_def bit_put_flag)

lemma transfer_started:
  assumes "handle_pending_transfer k s = Inr s'" "can_transfer (port_at k s)" "k < length (m_sio s)"
  obtains y i where "exchange_byte (set_tx_not_full True (set_tx_idle False (port_at k s))) = Inr y"
    "port_at k s' = y\<lparr>m_event_id := i\<rparr>" "length (m_sio s') = length (m_sio s)"
proof -
  let ?sch = "\<lambda>y. schedule (get_transfer_time (port_at k s)) (Some Transfer_end_callback) (of_nat k) (upd_port k (\<lambda>_. y) s)"
  have "bindE (exchange_byte (set_tx_not_full True (set_tx_idle False (port_at k s))))
    (\<lambda>y. Inr (upd_port k (\<lambda>p. p\<lparr>m_event_id := fst (?sch y)\<rparr>) (snd (?sch y)))) = Inr s'"
    using assms(1,2) by (simp add: handle_pending_transfer_def Let_def split_beta)
  then obtain y where y: "exchange_byte (set_tx_not_full True (set_tx_idle False (port_at k s))) = Inr y"
    "s' = upd_port k (\<lambda>p. p\<lparr>m_event_id := fst (?sch y)\<rparr>) (snd (?sch y))"
    by (auto elim: bindE_InrE)
  show thesis by (rule that[OF y(1)]) (use y(2) assms(3) in simp_all)
qed

lemma resending_step:
  assumes "resending k s" "transfer_complete k s = Inr s'"
  shows "resending k s' \<and> \<not> tx_idle (m_stat (port_at k s')) \<and> m_old_tx (port_at k s') = m_tx_data (port_at k s) \<and>
    m_tx_data (port_at k s') = m_tx_data (port_at k s)"
proof -
  let ?z = "snd (complete_port k (port_at k s))"
  have k: "k < length (m_sio s)" using assms(1) by (simp add: resending_def)
  obtain t where t: "handle_pending_transfer k t = Inr s'" "port_at k t = ?z" "length (m_sio t) = length (m_sio s)"
    using assms(2) k by (simp add: transfer_complete_def Let_def split_beta split: if_splits)
  have z: "m_new_transfer ?z" "can_transfer ?z" "m_old_tx ?z = m_tx_data (port_at k s)" "m_tx_data ?z = m_tx_data (port_at k s)"
    "tx_enable (m_sio_control ?z)" "dtr_output_level (m_sio_control ?z)"
    using assms(1) by (simp_all add: can_transfer_def complete_port_keeps resending_def)
  obtain y i where y: "exchange_byte (set_tx_not_full True (set_tx_idle False ?z)) = Inr y"
    "port_at k s' = y\<lparr>m_event_id := i\<rparr>" "length (m_sio s') = length (m_sio s)"
    using transfer_started[OF t(1)] t(2,3) z(2) k by metis
  then show ?thesis using exchange_byte_keeps[OF y(1)] z k
    by (simp add: resending_def set_tx_not_full_def set_tx_idle_def tx_idle_def bit_put_flag)
qed

text \<open>
  A byte that waited for the transmitter is sent forever: once a second byte was written
  during a transfer, every completed transfer starts another one of the same byte, for as long
  as the port stays enabled.
\<close>

theorem waiting_byte_is_sent_forever:
  assumes "resending k s" "completions n k s = Inr s'" "0 < n"
  shows "\<not> tx_idle (m_stat (port_at k s')) \<and> m_old_tx (port_at k s') = m_tx_data (port_at k s)"
proof -
  have "resending k s' \<and> m_tx_data (port_at k s') = m_tx_data (port_at k s) \<and>
    (0 < n \<longrightarrow> \<not> tx_idle (m_stat (port_at k s')) \<and> m_old_tx (port_at k s') = m_tx_data (port_at k s))"
    using assms(1,2)
  proof (induction n arbitrary: s)
    case (Suc n)
    obtain t where t: "transfer_complete k s = Inr t" "completions n k t = Inr s'"
      using Suc.prems(2) by (auto elim: bindE_InrE)
    show ?case using Suc.IH[OF _ t(2)] resending_step[OF Suc.prems(1) t(1)] t(2) by (cases n) auto
  qed simp
  then show ?thesis using assms(3) by blast
qed

section \<open>A machine with a controller\<close>

definition sio_with :: "sio_port \<Rightarrow> unit psx_sio" where
  "sio_with p = psx_dma.extend (dma_with (dma_init False) ()) (psx_sio.fields [p, sio_new])"

lemma sio_with_fields [simp]:
  "m_sio (sio_with p) = [p, sio_new]" "m_num_events (sio_with p) = 0" "m_last_id (sio_with p) = 0"
  "port_at 0 (sio_with p) = p"
  by (simp_all add: port_at_def sio_with_def dma_with_def timers_with_def machine_with_def cpu.defs psx.defs psx_timers.defs
      psx_dma.defs psx_sio.defs cpu_init_def scheduler.defs init_scheduler_def)

lemma sio_with_ok: "port_ok p \<Longrightarrow> ports_ok (sio_with p)"
  by (auto simp: ports_ok_def port_at_def less_2_cases_iff port_ok_def sio_new_def bit_put_flag)

text \<open>The transmitter and the outputs are on, with the interrupt of the device enabled.\<close>

definition pad_port :: sio_port where
  "pad_port = sio_new\<lparr>m_sio_control := 0x1003,
     m_port1 := Some \<lparr>m_selected = No_device, m_controller = Standard_controller pad_new, m_card = Null_card\<rparr>\<rparr>"

lemma pad_port_ok: "port_ok pad_port"
  by (simp add: port_ok_def pad_port_def sio_new_def bit_put_flag)

theorem receive_flag_tells_witness:
  "\<exists>s'. run_sio [Sio_read 0 W16 8, Sio_write 0 W16 0xE 0x88] (sio_with pad_port) = Inr s' \<and>
     rx_num_bytes (port_at 0 s') \<le> 8 \<and> (bit (m_stat (port_at 0 s')) 1 \<longleftrightarrow> 0 < rx_num_bytes (port_at 0 s'))"
proof -
  let ?ops = "[Sio_read 0 W16 8, Sio_write 0 W16 0xE 0x88]"
  obtain s' where r: "run_sio ?ops (sio_with pad_port) = Inr s'"
    by (simp add: sio_port_read_def sio_port_write_def sio_read16_def sio_write16_def in_word_def in_half_def)
  show ?thesis using receive_flag_tells[OF sio_with_ok[OF pad_port_ok] _ r, of 0] r by simp
qed

theorem byte_is_answered_witness:
  "\<exists>s1 s2. sio_port_write 0 W8 0 1 (sio_with pad_port) = Inr s1 \<and> sio_port_read 0 W8 0 s1 = Inr (0xFF, s2) \<and>
     interrupt_request s2 AND PAD_CARD_IRQ \<noteq> 0"
proof -
  let ?d = "\<lparr>m_selected = No_device, m_controller = Standard_controller pad_new, m_card = Null_card\<rparr>"
  have r: "ready_port ?d (port_at 0 (sio_with pad_port))"
    by (simp add: ready_port_def pad_port_def sio_new_def tx_idle_def tx_not_full_def tx_enable_def dtr_output_level_def
        port_select_def bit_put_flag)
  have d: "driver_send 1 ?d = Inr (0xFF, False, ?d\<lparr>m_selected := Pad_device\<rparr>)"
    by (simp add: driver_send_def select_device_def)
  have a: "driver_ack (?d\<lparr>m_selected := Pad_device\<rparr>) = (True, ?d\<lparr>m_selected := Pad_device\<rparr>)"
    by (simp add: driver_ack_def controller_ack_def pad_ack_def pad_new_def Let_def)
  have i: "dsr_int_enable (m_sio_control (port_at 0 (sio_with pad_port)))"
    by (simp add: pad_port_def dsr_int_enable_def)
  show ?thesis
    using byte_is_answered[OF sio_with_ok[OF pad_port_ok] r _ _ d a] i by (auto simp: MAX_EVENTS_def INVALID_EVENT_def)
qed

definition waiting_port :: sio_port where
  "waiting_port = sio_new\<lparr>m_sio_control := 3, m_pending_transfer := True, m_new_transfer := True, m_old_tx := 1, m_tx_data := 0x42,
     m_port1 := Some \<lparr>m_selected = Pad_device, m_controller = Null_controller, m_card = Null_card\<rparr>\<rparr>"

theorem waiting_byte_is_sent_forever_witness:
  "\<exists>s'. completions 1 0 (sio_with waiting_port) = Inr s' \<and> m_old_tx (port_at 0 s') = 0x42"
proof -
  let ?z = "snd (complete_port 0 waiting_port)"
  have r: "resending 0 (sio_with waiting_port)"
    by (simp add: resending_def waiting_port_def tx_enable_def dtr_output_level_def)
  have c: "can_transfer ?z" "m_port1 ?z = m_port1 waiting_port" "\<not> port_select (m_sio_control ?z)"
    by (simp_all add: can_transfer_def complete_port_def receive_byte_def Let_def waiting_port_def sio_new_def set_tx_idle_def
        tx_idle_def tx_enable_def dtr_output_level_def port_select_def set_rx_not_empty_def bit_put_flag rx_enable_def rx_int_enable_def dsr_int_enable_def)
  have "\<exists>s'. transfer_complete 0 (sio_with waiting_port) = Inr s'"
    using c by (simp add: transfer_complete_def Let_def split_beta handle_pending_transfer_def exchange_byte_def
        set_tx_not_full_def set_tx_idle_def driver_send_def controller_send_def waiting_port_def)
  then obtain s' where s': "completions 1 0 (sio_with waiting_port) = Inr s'" by auto
  then show ?thesis using waiting_byte_is_sent_forever[OF r s'] by (simp add: waiting_port_def)
qed

end
