(* ===== verification/Cd.thy ===== *)
theory Cd
  imports PsxPrelude
begin

text \<open>
  Addresses on a disc (\<open>CdLocation.hpp\<close>), cue sheets (\<open>CueSheet.cpp\<close>) and the disc image they
  describe (\<open>CueBin.cpp\<close>, the only implementation of the interface \<open>CDROM\<close>). Text is a list of
  characters and positions in it are 64-bit words, as the source computes with \<open>npos\<close>. The files of
  the host are functions of their path.
\<close>

section \<open>Addresses\<close>

definition MINUTES_PER_DISK :: u64 where "MINUTES_PER_DISK = 74"
definition SECONDS_PER_MINUTE :: u64 where "SECONDS_PER_MINUTE = 60"
definition SECTORS_PER_SECOND :: u64 where "SECTORS_PER_SECOND = 75"
definition CD_LOGICAL_SECTOR_SIZE :: nat where "CD_LOGICAL_SECTOR_SIZE = 0x800"
definition FULL_SECTOR_SIZE :: nat where "FULL_SECTOR_SIZE = 0x930"
definition SECTOR_WITHOUT_SYNC_SIZE :: nat where "SECTOR_WITHOUT_SYNC_SIZE = 0x924"

lemmas cd_sizes = MINUTES_PER_DISK_def SECONDS_PER_MINUTE_def SECTORS_PER_SECOND_def
  CD_LOGICAL_SECTOR_SIZE_def FULL_SECTOR_SIZE_def SECTOR_WITHOUT_SYNC_SIZE_def

record cd_location =
  mm :: u64
  ss :: u64
  sect :: u64

definition cd_loc :: "u64 \<Rightarrow> u64 \<Rightarrow> u64 \<Rightarrow> cd_location" where
  "cd_loc m s f = \<lparr>mm = m, ss = s, sect = f\<rparr>"

definition cd_next :: "cd_location \<Rightarrow> cd_location" where
  "cd_next l =
     (let l = l\<lparr>sect := sect l + 1\<rparr>;
          l = (if sect l \<ge> SECTORS_PER_SECOND then l\<lparr>ss := ss l + 1, sect := sect l mod SECTORS_PER_SECOND\<rparr> else l);
          l = (if ss l \<ge> SECONDS_PER_MINUTE then l\<lparr>mm := mm l + 1, ss := ss l mod SECONDS_PER_MINUTE\<rparr> else l)
      in if mm l \<ge> MINUTES_PER_DISK then l\<lparr>mm := 0\<rparr> else l)"

definition sect_to_location :: "u64 \<Rightarrow> cd_location" where
  "sect_to_location n =
     (let l = cd_loc 0 0 n;
          l = (if sect l \<ge> SECTORS_PER_SECOND
               then l\<lparr>ss := sect l div SECTORS_PER_SECOND, sect := sect l mod SECTORS_PER_SECOND\<rparr> else l)
      in if ss l \<ge> SECONDS_PER_MINUTE then l\<lparr>mm := ss l div SECONDS_PER_MINUTE, ss := ss l mod SECONDS_PER_MINUTE\<rparr> else l)"

definition to_sect :: "cd_location \<Rightarrow> u64" where
  "to_sect l = mm l * SECONDS_PER_MINUTE * SECTORS_PER_SECOND + ss l * SECTORS_PER_SECOND + sect l"

definition to_lba :: "cd_location \<Rightarrow> u64" where
  "to_lba l = (mm l * SECONDS_PER_MINUTE * SECTORS_PER_SECOND + ss l * SECTORS_PER_SECOND + sect l) * of_nat FULL_SECTOR_SIZE"

definition from_lba :: "u64 \<Rightarrow> cd_location" where
  "from_lba lba =
     (let abs_sect = lba div of_nat FULL_SECTOR_SIZE; abs_second = abs_sect div SECTORS_PER_SECOND
      in cd_loc (abs_second div SECONDS_PER_MINUTE) (abs_second mod SECONDS_PER_MINUTE) (abs_sect mod SECTORS_PER_SECOND))"

definition cd_add :: "cd_location \<Rightarrow> cd_location \<Rightarrow> cd_location" where
  "cd_add a b = sect_to_location (to_sect a + to_sect b)"

definition cd_sub :: "cd_location \<Rightarrow> cd_location \<Rightarrow> cd_location" where
  "cd_sub a b = (if to_sect a < to_sect b then cd_loc 0 0 0 else sect_to_location (to_sect a - to_sect b))"

definition cd_after :: "cd_location \<Rightarrow> cd_location \<Rightarrow> bool" where
  "cd_after a b \<longleftrightarrow> to_lba a > to_lba b"

lemma drop_bit_shrinks: "v \<noteq> 0 \<Longrightarrow> unat (drop_bit 4 (v :: u64)) < unat v"
proof -
  assume "v \<noteq> 0"
  then have "unat v div 16 < unat v" by (simp add: unat_gt_0)
  then show ?thesis by (simp add: drop_bit_eq_div unat_div)
qed

function bcd_digits :: "u64 \<Rightarrow> u64 \<Rightarrow> u64 \<Rightarrow> u64" where
  "bcd_digits r pw v =
     (if v = 0 then r else bcd_digits (r + (v AND 0xF) * pw) (pw * 10) (drop_bit 4 v))"
  by auto

termination
  by (relation "measure (\<lambda>(r, p, v). unat v)") (simp_all add: drop_bit_shrinks)

definition bcd_to_normal :: "u64 \<Rightarrow> u64" where "bcd_to_normal v = bcd_digits 0 1 v"

section \<open>Tracks\<close>

datatype track_type = MODE2_2352 | AUDIO

record cd_index =
  position :: cd_location
  index_id :: u64

record track =
  track_index :: u64
  track_kind :: track_type
  pregap :: cd_location
  postgap :: cd_location
  indexes :: "cd_index list"
  track_begin :: cd_location
  track_end :: cd_location
  track_path :: string
  file_offset :: u64

section \<open>Text\<close>

definition NPOS :: u64 where "NPOS = - 1"

text \<open>The first position, from \<open>start\<close> on, of a character with \<open>P\<close>, and the last one; \<open>substr\<close> throws when
it starts behind the end.\<close>

fun find_at :: "(char \<Rightarrow> bool) \<Rightarrow> u64 \<Rightarrow> string \<Rightarrow> u64" where
  "find_at P k [] = NPOS"
| "find_at P k (c # cs) = (if P c then k else find_at P (k + 1) cs)"

definition find_from :: "(char \<Rightarrow> bool) \<Rightarrow> u64 \<Rightarrow> string \<Rightarrow> u64" where
  "find_from P start s = find_at P start (drop (unat start) s)"

definition find_last :: "(char \<Rightarrow> bool) \<Rightarrow> string \<Rightarrow> u64" where
  "find_last P s = (let k = find_at P 0 (rev s) in if k = NPOS then NPOS else of_nat (length s) - 1 - k)"

definition substr :: "u64 \<Rightarrow> u64 \<Rightarrow> string \<Rightarrow> string result" where
  "substr start n s = (if unat start > length s then Inl Thrown else Inr (take (unat n) (drop (unat start) s)))"

definition substr_from :: "u64 \<Rightarrow> string \<Rightarrow> string result" where
  "substr_from start s = substr start NPOS s"

fun contains :: "string \<Rightarrow> string \<Rightarrow> bool" where
  "contains p [] \<longleftrightarrow> p = []"
| "contains p (c # cs) \<longleftrightarrow> take (length p) (c # cs) = p \<or> contains p cs"

text \<open>\<open>std::getline\<close> until the end of the file.\<close>

fun text_lines :: "string \<Rightarrow> string \<Rightarrow> string list" where
  "text_lines acc [] = (if acc = [] then [] else [rev acc])"
| "text_lines acc (c # cs) = (if c = CHR 0x0A then rev acc # text_lines [] cs else text_lines (c # acc) cs)"

definition getlines :: "string \<Rightarrow> string list" where "getlines t = text_lines [] t"

text \<open>\<open>std::stoi\<close>; \<open>None\<close> stands for either of its exceptions.\<close>

definition is_space :: "char \<Rightarrow> bool" where
  "is_space c \<longleftrightarrow> c \<in> {CHR '' '', CHR 0x09, CHR 0x0A, CHR 0x0B, CHR 0x0C, CHR 0x0D}"

definition is_digit :: "char \<Rightarrow> bool" where
  "is_digit c \<longleftrightarrow> 48 \<le> (of_char c :: nat) \<and> (of_char c :: nat) \<le> 57"

definition digit_value :: "char \<Rightarrow> int" where "digit_value c = int (of_char c) - 48"

definition number_of :: "string \<Rightarrow> int" where
  "number_of ds = foldl (\<lambda>n c. n * 10 + digit_value c) 0 ds"

definition stoi :: "string \<Rightarrow> int option" where
  "stoi s =
     (let s = dropWhile is_space s;
          neg = (s \<noteq> [] \<and> hd s = CHR ''-''); s = (if s \<noteq> [] \<and> hd s \<in> {CHR ''-'', CHR ''+''} then tl s else s);
          ds = takeWhile is_digit s; n = (if neg then - number_of ds else number_of ds)
      in if ds = [] \<or> n < - (2 ^ 31) \<or> n \<ge> 2 ^ 31 then None else Some n)"

definition stou :: "string \<Rightarrow> u64 option" where "stou s = map_option word_of_int (stoi s)"

section \<open>Cue sheets\<close>

definition first_word :: "string \<Rightarrow> string result" where
  "first_word l = substr 0 (find_from ((=) CHR '' '') 0 l) l"

definition get_cd_position :: "u64 \<Rightarrow> string \<Rightarrow> cd_location option result" where
  "get_cd_position start l =
     (let mm_end = find_from ((=) CHR '':'') start l; ss_end = find_from ((=) CHR '':'') (mm_end + 1) l in
      if mm_end = NPOS \<or> ss_end = NPOS then Inr None
      else
        bindE (substr start (mm_end - start) l) (\<lambda>m.
        bindE (substr (mm_end + 1) (ss_end - (mm_end + 1)) l) (\<lambda>s.
        bindE (substr_from (ss_end + 1) l) (\<lambda>f.
          Inr (case (stou m, stou s, stou f) of
                 (Some m, Some s, Some f) \<Rightarrow> Some (cd_loc m s f)
               | _ \<Rightarrow> None)))))"

text \<open>A number between the first blank of a line and the next one, and the position of the latter.\<close>

definition second_word :: "string \<Rightarrow> (u64 \<times> u64 option) option result" where
  "second_word l =
     (let sp = find_from ((=) CHR '' '') 0 l; next_sp = find_from ((=) CHR '' '') (sp + 1) l; distance = next_sp - sp in
      if distance \<le> 1 then Inr None
      else bindE (substr (sp + 1) (distance - 1) l) (\<lambda>w. Inr (Some (next_sp, stou w))))"

text \<open>
  The lines of a track, until one that is none of them. The second component is what is left of the
  sheet, also where the track is given up.
\<close>

fun track_lines :: "track \<Rightarrow> bool \<Rightarrow> bool \<Rightarrow> string list \<Rightarrow> (track option \<times> string list) result" where
  "track_lines t pre post [] = Inr (Some t, [])"
| "track_lines t pre post (l # ls) =
     bindE (first_word l) (\<lambda>w.
       if w = ''PREGAP'' then
         (if pre then track_lines t True post ls
          else bindE (get_cd_position (find_from ((=) CHR '' '') 0 l + 1) l) (\<lambda>p.
            case p of None \<Rightarrow> Inr (None, l # ls) | Some p \<Rightarrow> track_lines (t\<lparr>pregap := p\<rparr>) True post ls))
       else if w = ''POSTGAP'' then
         (if post then track_lines t pre True ls
          else bindE (get_cd_position (find_from ((=) CHR '' '') 0 l + 1) l) (\<lambda>p.
            case p of None \<Rightarrow> Inr (None, l # ls) | Some p \<Rightarrow> track_lines (t\<lparr>postgap := p\<rparr>) pre True ls))
       else if w = ''INDEX'' then
         bindE (second_word l) (\<lambda>i.
           case i of
             Some (next_sp, Some n) \<Rightarrow>
               bindE (get_cd_position (next_sp + 1) l) (\<lambda>p.
                 case p of None \<Rightarrow> Inr (None, l # ls)
                 | Some p \<Rightarrow> track_lines (t\<lparr>indexes := indexes t @ [\<lparr>position = p, index_id = n\<rparr>]\<rparr>) pre post ls)
           | _ \<Rightarrow> Inr (None, l # ls))
       else Inr (Some t, l # ls))"

definition new_track :: "u64 \<Rightarrow> track_type \<Rightarrow> track" where
  "new_track n ty = \<lparr>track_index = n, track_kind = ty, pregap = cd_loc 0 0 0, postgap = cd_loc 0 0 0, indexes = [],
     track_begin = cd_loc 0 0 0, track_end = cd_loc 0 0 0, track_path = [], file_offset = 0\<rparr>"

definition read_track_entry :: "string list \<Rightarrow> (track option \<times> string list) result" where
  "read_track_entry lines =
     (case lines of
        [] \<Rightarrow> Inr (None, [])
      | l # ls \<Rightarrow>
          bindE (first_word l) (\<lambda>w.
            if w \<noteq> ''TRACK'' then Inr (None, l # ls)
            else bindE (second_word l) (\<lambda>i.
              case i of
                Some (next_sp, Some n) \<Rightarrow>
                  bindE (substr_from (next_sp + 1) l) (\<lambda>mode.
                    if mode \<noteq> ''MODE2/2352'' \<and> mode \<noteq> ''AUDIO'' then Inr (None, l # ls)
                    else if ls = [] then Inr (None, [])
                    else
                      bindE (track_lines (new_track n (if mode = ''AUDIO'' then AUDIO else MODE2_2352)) False False ls) (\<lambda>(t, rest).
                        Inr (case t of
                               Some t \<Rightarrow> if indexes t = [] then None else Some t
                             | None \<Rightarrow> None, rest)))
              | _ \<Rightarrow> Inr (None, l # ls))))"

text \<open>A track is placed behind the gaps of the tracks of its file; without an \<open>INDEX 01\<close> it is left out.\<close>

definition place_track :: "string \<Rightarrow> track \<Rightarrow> cd_location \<times> track list \<Rightarrow> cd_location \<times> track list" where
  "place_track path t acc =
     (let (all_offsets, tracks) = acc; t = t\<lparr>track_path := path\<rparr> in
      if tracks = [] then
        (let t = t\<lparr>pregap := cd_add (pregap t) all_offsets\<rparr>
         in (all_offsets, [t\<lparr>track_begin := pregap t, file_offset := 0\<rparr>]))
      else
        let all_offsets = cd_add all_offsets (pregap t) in
        case find (\<lambda>i. index_id i = 1) (indexes t) of
          None \<Rightarrow> (all_offsets, tracks)
        | Some i \<Rightarrow>
            (cd_add all_offsets (postgap t),
             tracks @ [t\<lparr>track_begin := cd_add (position i) all_offsets,
                file_offset := (if track_path (last tracks) \<noteq> path then 0 else to_lba (position i))\<rparr>]))"

fun read_tracks :: "nat \<Rightarrow> string \<Rightarrow> cd_location \<times> track list \<Rightarrow> string list \<Rightarrow> (track list \<times> string list) result" where
  "read_tracks 0 path acc lines = Inl OutOfFuel"
| "read_tracks (Suc n) path acc lines =
     bindE (read_track_entry lines) (\<lambda>(t, rest).
       case t of
         None \<Rightarrow> Inr (snd acc, rest)
       | Some t \<Rightarrow> read_tracks n path (place_track path t acc) rest)"

text \<open>
  What the host says of its files: the path of a name next to another path, the extension of a path, whether a path is a file, and
  its text (as read in text mode) and bytes.
\<close>

record host_files =
  sibling :: "string \<Rightarrow> string \<Rightarrow> string"
  extension :: "string \<Rightarrow> string"
  regular_file :: "string \<Rightarrow> bool"
  file_bytes :: "string \<Rightarrow> u8 list option"
  file_text :: "string \<Rightarrow> string option"

definition read_file_entry ::
  "host_files \<Rightarrow> string \<Rightarrow> track list \<Rightarrow> string list \<Rightarrow> (bool \<times> track list \<times> string list) result" where
  "read_file_entry host cue tracks lines =
     (case lines of
        [] \<Rightarrow> Inl UndefinedBehaviour
      | l # ls \<Rightarrow>
          bindE (first_word l) (\<lambda>w.
            let path_begin = find_from ((=) CHR 0x22) 0 l; path_end = find_last ((=) CHR 0x22) l;
                distance = path_end - path_begin in
            if w \<noteq> ''FILE'' \<or> distance \<le> 1 then Inr (False, tracks, l # ls)
            else
              bindE (substr (path_begin + 1) (distance - 1) l) (\<lambda>name.
                let path = sibling host cue name in
                if \<not> regular_file host path then Inr (False, tracks, l # ls)
                else
                  bindE (substr_from (path_end + 2) l) (\<lambda>format.
                    if format \<noteq> ''BINARY'' then Inr (False, tracks, l # ls)
                    else if ls = [] then Inr (False, tracks, [])
                    else
                      bindE (read_tracks (Suc (length ls)) path
                          (if tracks = [] then cd_loc 0 2 0 else cd_loc 0 0 0, tracks) ls) (\<lambda>(tracks, rest).
                        Inr (tracks \<noteq> [], tracks, rest))))))"

definition is_remark :: "string \<Rightarrow> bool" where
  "is_remark l \<longleftrightarrow> contains ''REM'' l \<or> contains ''PERFORMER'' l \<or> contains ''TITLE'' l"

fun read_entries :: "nat \<Rightarrow> host_files \<Rightarrow> string \<Rightarrow> track list \<Rightarrow> string list \<Rightarrow> (bool \<times> track list) result" where
  "read_entries 0 host cue tracks lines = Inl OutOfFuel"
| "read_entries (Suc n) host cue tracks lines =
     (case lines of
        [] \<Rightarrow> Inr (True, tracks)
      | l # ls \<Rightarrow>
          bindE (read_file_entry host cue tracks (if is_remark l then ls else l # ls)) (\<lambda>(ok, tracks, rest).
            if \<not> ok then Inr (False, tracks) else read_entries n host cue tracks rest))"

text \<open>Leading blanks are cut off; a blank line throws, as nothing is found to start at.\<close>

fun strip_lines :: "string list \<Rightarrow> string list result" where
  "strip_lines [] = Inr []"
| "strip_lines (l # ls) =
     bindE (substr_from (find_from ((\<noteq>) CHR '' '') 0 l) l) (\<lambda>x. bindE (strip_lines ls) (\<lambda>xs. Inr (x # xs)))"

definition read_cue :: "host_files \<Rightarrow> string \<Rightarrow> (bool \<times> track list) result" where
  "read_cue host path =
     (case file_text host path of
        None \<Rightarrow> Inr (False, [])
      | Some t \<Rightarrow>
          bindE (strip_lines (getlines t)) (\<lambda>lines. read_entries (Suc (length lines)) host path [] lines))"

section \<open>Disc images\<close>

text \<open>
  An open image: its tracks, the files they are in, and the files whose stream has failed (a short read
  sets its fail bit, and nothing clears it).
\<close>

record cue_bin =
  m_tracks :: "track list"
  m_cd_files :: "string \<Rightarrow> u8 list"
  m_failed_streams :: "string list"

fun open_files :: "host_files \<Rightarrow> track list \<Rightarrow> (string \<Rightarrow> u8 list) \<Rightarrow> (string \<Rightarrow> u8 list) option" where
  "open_files host [] fs = Some fs"
| "open_files host (t # ts) fs =
     (case file_bytes host (track_path t) of
        None \<Rightarrow> None
      | Some b \<Rightarrow> open_files host ts (fs(track_path t := b)))"

definition cue_bin_init :: "host_files \<Rightarrow> string \<Rightarrow> cue_bin option result" where
  "cue_bin_init host path =
     bindE (read_cue host path) (\<lambda>(ok, tracks).
       Inr (if \<not> ok \<or> tracks = [] then None
            else map_option (\<lambda>fs. \<lparr>m_tracks = tracks, m_cd_files = fs, m_failed_streams = []\<rparr>)
              (open_files host tracks (\<lambda>_. []))))"

fun track_number_from :: "u64 \<Rightarrow> cd_location \<Rightarrow> track list \<Rightarrow> u64 option" where
  "track_number_from k loc [] = None"
| "track_number_from k loc (t # ts) = (if cd_after (track_begin t) loc then Some (k - 1) else track_number_from (k + 1) loc ts)"

definition get_track_number :: "cd_location \<Rightarrow> cue_bin \<Rightarrow> u64" where
  "get_track_number loc c =
     (case track_number_from 0 loc (m_tracks c) of
        Some k \<Rightarrow> k
      | None \<Rightarrow> of_nat (length (m_tracks c)) - 1)"

definition get_track_number_lba :: "u64 \<Rightarrow> cue_bin \<Rightarrow> u64" where
  "get_track_number_lba lba c = get_track_number (cd_add (from_lba lba) (cd_loc 0 2 0)) c"

definition get_track :: "u64 \<Rightarrow> cue_bin \<Rightarrow> track result" where
  "get_track k c = (if unat k < length (m_tracks c) then Inr (m_tracks c ! unat k) else Inl UndefinedBehaviour)"

definition get_file_size :: "u64 \<Rightarrow> cue_bin \<Rightarrow> u64 result" where
  "get_file_size k c = bindE (get_track k c) (\<lambda>t. Inr (of_nat (length (m_cd_files c (track_path t)))))"

text \<open>Seeking and reading a stream: the bytes there are replace the first ones of the buffer.\<close>

definition read_stream :: "string \<Rightarrow> nat \<Rightarrow> u8 list \<Rightarrow> cue_bin \<Rightarrow> u8 list \<times> cue_bin" where
  "read_stream path pos buf c =
     (if path \<in> set (m_failed_streams c) then (buf, c)
      else
        let bs = take FULL_SECTOR_SIZE (drop pos (m_cd_files c path))
        in (bs @ drop (length bs) buf,
            if length bs < FULL_SECTOR_SIZE then c\<lparr>m_failed_streams := path # m_failed_streams c\<rparr> else c))"

definition read_sector :: "cd_location \<Rightarrow> u8 list \<Rightarrow> cue_bin \<Rightarrow> (u8 list \<times> cue_bin) result" where
  "read_sector loc buf c =
     (if mm loc = 0 \<and> ss loc < 2 then Inl DebugBreak
      else
        let k = get_track_number loc c in
        bindE (get_track k c) (\<lambda>t.
          let pos = to_lba (cd_sub loc (track_begin t)) + file_offset t in
          bindE (get_file_size k c) (\<lambda>n.
            if pos \<ge> n then Inl Thrown else Inr (read_stream (track_path t) (unat pos) buf c))))"

definition empty_sector :: "u8 list" where "empty_sector = replicate FULL_SECTOR_SIZE 0"

definition sector_data :: "u8 list \<Rightarrow> u8 list" where "sector_data s = take CD_LOGICAL_SECTOR_SIZE (drop 0x18 s)"

definition read_sector_data :: "cd_location \<Rightarrow> u8 list \<Rightarrow> cue_bin \<Rightarrow> (u8 list \<times> cue_bin) result" where
  "read_sector_data loc buf c =
     bindE (read_sector loc empty_sector c) (\<lambda>(s, c).
       Inr (sector_data s @ drop CD_LOGICAL_SECTOR_SIZE buf, c))"

definition logical_to_physical :: "u64 \<Rightarrow> cue_bin \<Rightarrow> cd_location result" where
  "logical_to_physical lba c =
     bindE (get_track (get_track_number_lba lba c) c) (\<lambda>t.
       let loc = from_lba (case track_kind t of MODE2_2352 \<Rightarrow> lba div of_nat CD_LOGICAL_SECTOR_SIZE * of_nat FULL_SECTOR_SIZE
                           | AUDIO \<Rightarrow> lba)
       in Inr (loc\<lparr>ss := ss loc + 2\<rparr>))"

end
