(* ===== verification/Adpcm.thy ===== *)
theory Adpcm
  imports Gte
begin

text \<open>
  The sample decoders of the sound unit: the ADPCM blocks of the voices and their interpolation
  (\<open>ADPCM.cpp\<close>), the XA sectors of the drive (\<open>DecodeXAADPCMSector\<close>), their conversion to
  44100 samples per second and the mixing of the channels (\<open>SPU::DecodeStoreXAADPCM\<close>), and the filter
  behind the reverberation (\<open>FirResample.cpp\<close>). Samples are integers; \<open>i16\<close> and \<open>i32\<close> are the
  conversions of the source.
\<close>

section \<open>Blocks of the voices\<close>

definition MIN_VOLUME :: int where "MIN_VOLUME = - 0x8000"
definition MAX_VOLUME :: int where "MAX_VOLUME = 0x7FFF"

definition clamp16 :: "int \<Rightarrow> int" where "clamp16 v = clamp v MIN_VOLUME MAX_VOLUME"

definition POS_XA_ADPCM_TABLE :: "int list" where "POS_XA_ADPCM_TABLE = [0, 60, 115, 98, 122]"
definition NEG_XA_ADPCM_TABLE :: "int list" where "NEG_XA_ADPCM_TABLE = [0, 0, - 52, - 55, - 60]"

record adpcm_block =
  block_header :: u8
  block_flags :: u8
  compressed_samples :: "u8 list"

text \<open>A shift above 12 acts as 9.\<close>

definition adpcm_shift :: "u8 \<Rightarrow> nat" where
  "adpcm_shift h = (let s = unat (h AND 0xF) in if s > 12 then 9 else s)"

definition adpcm_sample :: "nat \<Rightarrow> int \<Rightarrow> int \<Rightarrow> u8 \<Rightarrow> int \<Rightarrow> int \<Rightarrow> int" where
  "adpcm_sample shift f0 f1 nibble prev prev2 =
     clamp16 (drop_bit shift (i16 (push_bit 12 (uint nibble))) + (prev * f0 + prev2 * f1 + 32) sdiv 64)"

fun adpcm_samples :: "nat \<Rightarrow> int \<Rightarrow> int \<Rightarrow> u8 list \<Rightarrow> int \<Rightarrow> int \<Rightarrow> int list \<times> int \<times> int" where
  "adpcm_samples shift f0 f1 [] prev prev2 = ([], prev, prev2)"
| "adpcm_samples shift f0 f1 (x # xs) prev prev2 =
     (let s = adpcm_sample shift f0 f1 x prev prev2; (ss, rest) = adpcm_samples shift f0 f1 xs s prev
      in (s # ss, rest))"

text \<open>Two samples per byte, the low half first.\<close>

definition block_nibbles :: "u8 list \<Rightarrow> u8 list" where
  "block_nibbles bs =
     map (\<lambda>i. if odd i then drop_bit 4 (bs ! (i div 2)) AND 0xF else bs ! (i div 2) AND 0xF) [0..<28]"

definition decode_adpcm_block :: "adpcm_block \<Rightarrow> int \<Rightarrow> int \<Rightarrow> int list \<times> int \<times> int" where
  "decode_adpcm_block b prev prev2 =
     (let filt = min 4 (unat (get_bits 4 3 (block_header b)))
      in adpcm_samples (adpcm_shift (block_header b)) (POS_XA_ADPCM_TABLE ! filt) (NEG_XA_ADPCM_TABLE ! filt)
           (block_nibbles (compressed_samples b)) prev prev2)"

definition GAUSS_TABLE :: "int list" where
  "GAUSS_TABLE =
    [- 0x1, - 0x1, - 0x1, - 0x1, - 0x1, - 0x1, - 0x1, - 0x1, - 0x1, - 0x1, - 0x1, - 0x1, - 0x1, - 0x1, - 0x1, - 0x1,
     0x0, 0x0, 0x0, 0x0, 0x0, 0x0, 0x0, 0x1, 0x1, 0x1, 0x1, 0x2, 0x2, 0x2, 0x3, 0x3,
     0x3, 0x4, 0x4, 0x5, 0x5, 0x6, 0x7, 0x7, 0x8, 0x9, 0x9, 0xA, 0xB, 0xC, 0xD, 0xE,
     0xF, 0x10, 0x11, 0x12, 0x13, 0x15, 0x16, 0x18, 0x19, 0x1B, 0x1C, 0x1E, 0x20, 0x21, 0x23, 0x25,
     0x27, 0x29, 0x2C, 0x2E, 0x30, 0x33, 0x35, 0x38, 0x3A, 0x3D, 0x40, 0x43, 0x46, 0x49, 0x4D, 0x50,
     0x54, 0x57, 0x5B, 0x5F, 0x63, 0x67, 0x6B, 0x6F, 0x74, 0x78, 0x7D, 0x82, 0x87, 0x8C, 0x91, 0x96,
     0x9C, 0xA1, 0xA7, 0xAD, 0xB3, 0xBA, 0xC0, 0xC7, 0xCD, 0xD4, 0xDB, 0xE3, 0xEA, 0xF2, 0xFA, 0x101,
     0x10A, 0x112, 0x11B, 0x123, 0x12C, 0x135, 0x13F, 0x148, 0x152, 0x15C, 0x166, 0x171, 0x17B, 0x186, 0x191, 0x19C,
     0x1A8, 0x1B4, 0x1C0, 0x1CC, 0x1D9, 0x1E5, 0x1F2, 0x200, 0x20D, 0x21B, 0x229, 0x237, 0x246, 0x255, 0x264, 0x273,
     0x283, 0x293, 0x2A3, 0x2B4, 0x2C4, 0x2D6, 0x2E7, 0x2F9, 0x30B, 0x31D, 0x330, 0x343, 0x356, 0x36A, 0x37E, 0x392,
     0x3A7, 0x3BC, 0x3D1, 0x3E7, 0x3FC, 0x413, 0x42A, 0x441, 0x458, 0x470, 0x488, 0x4A0, 0x4B9, 0x4D2, 0x4EC, 0x506,
     0x520, 0x53B, 0x556, 0x572, 0x58E, 0x5AA, 0x5C7, 0x5E4, 0x601, 0x61F, 0x63E, 0x65C, 0x67C, 0x69B, 0x6BB, 0x6DC,
     0x6FD, 0x71E, 0x740, 0x762, 0x784, 0x7A7, 0x7CB, 0x7EF, 0x813, 0x838, 0x85D, 0x883, 0x8A9, 0x8D0, 0x8F7, 0x91E,
     0x946, 0x96F, 0x998, 0x9C1, 0x9EB, 0xA16, 0xA40, 0xA6C, 0xA98, 0xAC4, 0xAF1, 0xB1E, 0xB4C, 0xB7A, 0xBA9, 0xBD8,
     0xC07, 0xC38, 0xC68, 0xC99, 0xCCB, 0xCFD, 0xD30, 0xD63, 0xD97, 0xDCB, 0xE00, 0xE35, 0xE6B, 0xEA1, 0xED7, 0xF0F,
     0xF46, 0xF7F, 0xFB7, 0xFF1, 0x102A, 0x1065, 0x109F, 0x10DB, 0x1116, 0x1153, 0x118F, 0x11CD, 0x120B, 0x1249, 0x1288, 0x12C7,
     0x1307, 0x1347, 0x1388, 0x13C9, 0x140B, 0x144D, 0x1490, 0x14D4, 0x1517, 0x155C, 0x15A0, 0x15E6, 0x162C, 0x1672, 0x16B9, 0x1700,
     0x1747, 0x1790, 0x17D8, 0x1821, 0x186B, 0x18B5, 0x1900, 0x194B, 0x1996, 0x19E2, 0x1A2E, 0x1A7B, 0x1AC8, 0x1B16, 0x1B64, 0x1BB3,
     0x1C02, 0x1C51, 0x1CA1, 0x1CF1, 0x1D42, 0x1D93, 0x1DE5, 0x1E37, 0x1E89, 0x1EDC, 0x1F2F, 0x1F82, 0x1FD6, 0x202A, 0x207F, 0x20D4,
     0x2129, 0x217F, 0x21D5, 0x222C, 0x2282, 0x22DA, 0x2331, 0x2389, 0x23E1, 0x2439, 0x2492, 0x24EB, 0x2545, 0x259E, 0x25F8, 0x2653,
     0x26AD, 0x2708, 0x2763, 0x27BE, 0x281A, 0x2876, 0x28D2, 0x292E, 0x298B, 0x29E7, 0x2A44, 0x2AA1, 0x2AFF, 0x2B5C, 0x2BBA, 0x2C18,
     0x2C76, 0x2CD4, 0x2D33, 0x2D91, 0x2DF0, 0x2E4F, 0x2EAE, 0x2F0D, 0x2F6C, 0x2FCC, 0x302B, 0x308B, 0x30EA, 0x314A, 0x31AA, 0x3209,
     0x3269, 0x32C9, 0x3329, 0x3389, 0x33E9, 0x3449, 0x34A9, 0x3509, 0x3569, 0x35C9, 0x3629, 0x3689, 0x36E8, 0x3748, 0x37A8, 0x3807,
     0x3867, 0x38C6, 0x3926, 0x3985, 0x39E4, 0x3A43, 0x3AA2, 0x3B00, 0x3B5F, 0x3BBD, 0x3C1B, 0x3C79, 0x3CD7, 0x3D35, 0x3D92, 0x3DEF,
     0x3E4C, 0x3EA9, 0x3F05, 0x3F62, 0x3FBD, 0x4019, 0x4074, 0x40D0, 0x412A, 0x4185, 0x41DF, 0x4239, 0x4292, 0x42EB, 0x4344, 0x439C,
     0x43F4, 0x444C, 0x44A3, 0x44FA, 0x4550, 0x45A6, 0x45FC, 0x4651, 0x46A6, 0x46FA, 0x474E, 0x47A1, 0x47F4, 0x4846, 0x4898, 0x48E9,
     0x493A, 0x498A, 0x49D9, 0x4A29, 0x4A77, 0x4AC5, 0x4B13, 0x4B5F, 0x4BAC, 0x4BF7, 0x4C42, 0x4C8D, 0x4CD7, 0x4D20, 0x4D68, 0x4DB0,
     0x4DF7, 0x4E3E, 0x4E84, 0x4EC9, 0x4F0E, 0x4F52, 0x4F95, 0x4FD7, 0x5019, 0x505A, 0x509A, 0x50DA, 0x5118, 0x5156, 0x5194, 0x51D0,
     0x520C, 0x5247, 0x5281, 0x52BA, 0x52F3, 0x532A, 0x5361, 0x5397, 0x53CC, 0x5401, 0x5434, 0x5467, 0x5499, 0x54CA, 0x54FA, 0x5529,
     0x5558, 0x5585, 0x55B2, 0x55DE, 0x5609, 0x5632, 0x565B, 0x5684, 0x56AB, 0x56D1, 0x56F6, 0x571B, 0x573E, 0x5761, 0x5782, 0x57A3,
     0x57C3, 0x57E2, 0x57FF, 0x581C, 0x5838, 0x5853, 0x586D, 0x5886, 0x589E, 0x58B5, 0x58CB, 0x58E0, 0x58F4, 0x5907, 0x5919, 0x592A,
     0x593A, 0x5949, 0x5958, 0x5965, 0x5971, 0x597C, 0x5986, 0x598F, 0x5997, 0x599E, 0x59A4, 0x59A9, 0x59AD, 0x59B0, 0x59B2, 0x59B3]"

definition gauss_term :: "nat \<Rightarrow> int \<Rightarrow> int" where
  "gauss_term i v = drop_bit 15 (GAUSS_TABLE ! i * v)"

definition interpolate_samples :: "int list \<Rightarrow> int \<Rightarrow> nat \<Rightarrow> int" where
  "interpolate_samples prev new_sample i =
     i16 (gauss_term (0xFF - i) (prev ! 0) + gauss_term (0x1FF - i) (prev ! 1)
        + gauss_term (0x100 + i) (prev ! 2) + gauss_term i new_sample)"

section \<open>Sectors of the drive\<close>

definition XA_BLOCK_SIZE :: nat where "XA_BLOCK_SIZE = 16 + 28 * 4"
definition XA_TOTAL_BLOCKS :: nat where "XA_TOTAL_BLOCKS = 0x914 div XA_BLOCK_SIZE"
definition TOTAL_SAMPLES_PER_SECTOR :: nat where "TOTAL_SAMPLES_PER_SECTOR = 4032 * 2"

record xa_coding =
  stereo :: bool
  hz18900 :: bool
  bit8 :: bool

definition xa_filter :: "u8 \<Rightarrow> nat" where
  "xa_filter h = min 3 (unat (drop_bit 4 (h AND 0x30)))"

text \<open>Half \<open>n\<close> of unit \<open>blk\<close> of the block at \<open>src\<close>.\<close>

definition unit_nibbles :: "u8 list \<Rightarrow> nat \<Rightarrow> nat \<Rightarrow> u8 list" where
  "unit_nibbles src blk n = map (\<lambda>j. drop_bit (4 * n) (src ! (16 + blk + j * 4)) AND 0xF) [0..<28]"

definition decode_28 :: "u8 list \<Rightarrow> nat \<Rightarrow> nat \<Rightarrow> int \<Rightarrow> int \<Rightarrow> int list \<times> int \<times> int" where
  "decode_28 src blk n prev prev2 =
     (let h = src ! (4 + blk * 2 + n)
      in adpcm_samples (adpcm_shift h) (POS_XA_ADPCM_TABLE ! xa_filter h) (NEG_XA_ADPCM_TABLE ! xa_filter h)
           (unit_nibbles src blk n) prev prev2)"

text \<open>
  Both references of the mono case are the same variable: what was the last sample but one is
  the last sample.
\<close>

fun aliased_samples :: "nat \<Rightarrow> int \<Rightarrow> int \<Rightarrow> u8 list \<Rightarrow> int \<Rightarrow> int list \<times> int" where
  "aliased_samples shift f0 f1 [] x = ([], x)"
| "aliased_samples shift f0 f1 (n # ns) x =
     (let s = adpcm_sample shift f0 f1 n x x; (ss, y) = aliased_samples shift f0 f1 ns s in (s # ss, y))"

definition decode_28_mono :: "u8 list \<Rightarrow> nat \<Rightarrow> nat \<Rightarrow> int \<Rightarrow> int list \<times> int" where
  "decode_28_mono src blk n x =
     (let h = src ! (4 + blk * 2 + n)
      in aliased_samples (adpcm_shift h) (POS_XA_ADPCM_TABLE ! xa_filter h) (NEG_XA_ADPCM_TABLE ! xa_filter h)
           (unit_nibbles src blk n) x)"

text \<open>The units of a sector, as pairs of the block and the unit in it.\<close>

definition xa_units :: "u8 list \<Rightarrow> (u8 list \<times> nat) list" where
  "xa_units sector = List.product (map (\<lambda>i. drop (i * XA_BLOCK_SIZE) sector) [0..<XA_TOTAL_BLOCKS]) [0..<4]"

fun decode_stereo :: "(u8 list \<times> nat) list \<Rightarrow> int \<times> int \<Rightarrow> int \<times> int \<Rightarrow> int list \<times> int list" where
  "decode_stereo [] l r = ([], [])"
| "decode_stereo ((src, blk) # us) l r =
     (let (ls, l) = decode_28 src blk 0 (fst l) (snd l); (rs, r) = decode_28 src blk 1 (fst r) (snd r);
          (ls', rs') = decode_stereo us l r
      in (ls @ ls', rs @ rs'))"

fun decode_mono :: "(u8 list \<times> nat) list \<Rightarrow> int \<Rightarrow> int list" where
  "decode_mono [] x = []"
| "decode_mono ((src, blk) # us) x =
     (let (as, x) = decode_28_mono src blk 0 x; (bs, x) = decode_28_mono src blk 1 x
      in as @ bs @ decode_mono us x)"

text \<open>
  A sector recorded at 18900 samples per second has every sample twice; the copies are written behind
  the samples, from the end of the decoder's pointer on.
\<close>

definition doubled :: "nat \<Rightarrow> int list \<Rightarrow> int list" where
  "doubled n xs = xs @ concat (map (\<lambda>x. [x, x]) (take n xs))"

definition decode_xa_sector :: "xa_coding \<Rightarrow> u8 list \<Rightarrow> (nat \<times> int list \<times> int list) result" where
  "decode_xa_sector c sector =
     (let (ls, rs) = (if stereo c then decode_stereo (xa_units sector) (0, 0) (0, 0)
                      else (let ms = decode_mono (xa_units sector) 0 in (ms, ms)));
          n = 8 * 28 * XA_TOTAL_BLOCKS; n = (if bit8 c then n div 2 else n); n = (if stereo c then n div 2 else n)
      in if \<not> hz18900 c then Inr (n, ls, rs)
         else if length ls + 2 * n > TOTAL_SAMPLES_PER_SECTOR then Inl UndefinedBehaviour
         else Inr (2 * n, doubled n ls, doubled n rs))"

section \<open>From 37800 to 44100 samples\<close>

definition RESAMPLE_LUT :: "int list" where
  "RESAMPLE_LUT =
    [0x0, 0x0, 0x0, 0x0, - 0x1, 0x2, - 0x5,
     0x0, 0x0, 0x0, - 0x1, 0x3, - 0x8, 0x11,
     0x0, 0x0, - 0x1, 0x3, - 0x8, 0x10, - 0x23,
     0x0, - 0x2, 0x3, - 0x8, 0x11, - 0x23, 0x46,
     0x0, 0x0, - 0x2, 0x6, - 0x10, 0x2B, - 0x17,
     - 0x2, 0x3, - 0x5, 0x5, 0xA, 0x1A, - 0x44,
     0xA, - 0x13, 0x1F, - 0x1B, 0x6B, - 0xEB, 0x15B,
     - 0x22, 0x3C, - 0x4A, 0xA6, - 0x16D, 0x27B, - 0x347,
     0x41, - 0x4B, 0xB3, - 0x1A8, 0x350, - 0x548, 0x80E,
     - 0x54, 0xA2, - 0x192, 0x372, - 0x623, 0xAFA, - 0x1249,
     0x34, - 0xE3, 0x2B1, - 0x5BF, 0xBCD, - 0x16FA, 0x3C07,
     0x9, 0x132, - 0x39E, 0x9B8, - 0x1780, 0x53E0, 0x53E0,
     - 0x10A, - 0x43, 0x4F8, - 0x11B4, 0x6794, 0x3C07, - 0x16FA,
     0x400, - 0x267, - 0x5A6, 0x74BB, 0x234C, - 0x1249, 0xAFA,
     - 0xA78, 0xC9D, 0x7939, 0xC9D, - 0xA78, 0x80E, - 0x548,
     0x234C, 0x74BB, - 0x5A6, - 0x267, 0x400, - 0x347, 0x27B,
     0x6794, - 0x11B4, 0x4F8, - 0x43, - 0x10A, 0x15B, - 0xEB,
     - 0x1780, 0x9B8, - 0x39E, 0x132, 0x9, - 0x44, 0x1A,
     0xBCD, - 0x5BF, 0x2B1, - 0xE3, 0x34, - 0x17, 0x2B,
     - 0x623, 0x372, - 0x192, 0xA2, - 0x54, 0x46, - 0x23,
     0x350, - 0x1A8, 0xB3, - 0x4B, 0x41, - 0x23, 0x10,
     - 0x16D, 0xA6, - 0x4A, 0x3C, - 0x22, 0x11, - 0x8,
     0x6B, - 0x1B, 0x1F, - 0x13, 0xA, - 0x5, 0x2,
     0xA, 0x5, - 0x5, 0x3, - 0x1, 0x0, 0x0,
     - 0x10, 0x6, - 0x2, 0x0, 0x0, 0x0, 0x0,
     0x11, - 0x8, 0x3, - 0x2, 0x1, 0x0, 0x0,
     - 0x8, 0x3, - 0x1, 0x0, 0x0, 0x0, 0x0,
     0x3, - 0x1, 0x0, 0x0, 0x0, 0x0, 0x0,
     - 0x1, 0x0, 0x0, 0x0, 0x0, 0x0, 0x0]"

definition zigzag_interpolate :: "int list \<Rightarrow> nat \<Rightarrow> nat \<Rightarrow> int" where
  "zigzag_interpolate ring pos table =
     clamp16 (sum_list (map (\<lambda>i. drop_bit 15 (ring ! ((pos + 32 - i) mod 32) * RESAMPLE_LUT ! (i * 7 + table))) [0..<29]))"

text \<open>Every sixth sample gives seven.\<close>

fun resample :: "nat \<Rightarrow> nat \<Rightarrow> int list \<Rightarrow> int list \<Rightarrow> nat \<times> int list \<times> int list" where
  "resample k six ring [] = (six, ring, [])"
| "resample k six ring (x # xs) =
     (let ring = ring[k mod 32 := x] in
      if six = 1 then
        (let (six, ring', out) = resample (Suc k) 6 ring xs in (six, ring', map (zigzag_interpolate ring k) [0..<7] @ out))
      else resample (Suc k) (six - 1) ring xs)"

text \<open>\<open>m_cd_sample_count *= 44100.0 / 37800.0\<close>: the factor is 7/6 rounded up, and the counts are multiples of 6.\<close>

definition resampled_count :: "nat \<Rightarrow> nat" where "resampled_count n = n * 7 div 6"

definition RESAMPLED_TOTAL :: nat where "RESAMPLED_TOTAL = resampled_count TOTAL_SAMPLES_PER_SECTOR"

text \<open>The volumes are bytes moved to the upper half of an \<open>i16\<close>; products and sums are unsigned.\<close>

definition expanded :: "u8 \<Rightarrow> u32" where "expanded v = word_of_int (i16 (uint v * 256))"

definition mixed :: "int \<Rightarrow> u8 \<Rightarrow> int \<Rightarrow> u8 \<Rightarrow> int" where
  "mixed a va b vb =
     i16 (uint (drop_bit 15 (word_of_int a * expanded va) + drop_bit 15 (word_of_int b * expanded vb)))"

section \<open>The filter behind the reverberation\<close>

definition FIR_SIZE :: nat where "FIR_SIZE = 39"

definition FIR_FILTER :: "int list" where
  "FIR_FILTER =
    [- 0x1, 0, 0x2, 0, - 0xA, 0, 0x23, 0, - 0x67, 0, 0x10A, 0, - 0x268, 0, 0x534, 0,
     - 0xB90, 0, 0x2806, 0x4000, 0x2806, 0, - 0xB90, 0, 0x534, 0, - 0x268, 0, 0x10A, 0, - 0x67, 0,
     0x23, 0, - 0xA, 0, 0x2, 0, - 0x1]"

definition fir_push :: "int \<Rightarrow> int list \<Rightarrow> int list" where
  "fir_push v buf = v # (if length buf \<ge> FIR_SIZE then butlast buf else buf)"

definition fir_apply :: "int list \<Rightarrow> int" where
  "fir_apply buf = i32 (sum_list (map (\<lambda>(v, c). drop_bit 15 (i32 (v * c))) (zip buf FIR_FILTER)))"

end
