(* ===== verification/Mdec.thy ===== *)
theory Mdec
  imports Sio Gte
begin

text \<open>
  The motion decoder (\<open>MDEC.cpp\<close>): commands and their parameters, the run-length decoder, the
  inverse cosine transform, the conversion of colours and the output queue, each with the vector
  form where the source has one. Blocks are lists of 64 integers in the range of \<open>i16\<close>.
\<close>

section \<open>State\<close>

datatype mdec_cmd = Mdec_IDLE | Mdec_DECODE | Mdec_SET_QUANT | Mdec_SET_SCALE

record mdec =
  mdec_stat :: u32
  m_enable_dma0 :: bool
  m_enable_dma1 :: bool
  m_num_params :: u32
  m_luminance_table :: "u8 list"
  m_color_table :: "u8 list"
  m_scale_table :: "int list"
  m_curr_cmd :: mdec_cmd
  m_can_use_fast_idct :: bool
  mdec_in_fifo :: "u16 list"
  mdec_out_fifo :: "u32 list"
  m_curr_in_pos :: nat
  m_run_thread :: bool
  m_start_decode :: bool
  mdec_use_simd :: bool
  m_accurate_idct :: bool

text \<open>
  The decoder's thread tells the machine what it has produced through a queue of callbacks
  (\<open>system_status::sync_callback_buffer\<close>), which the run loop empties.
\<close>

datatype sync_callback = Mono_dma1_update | Rgb_dma1_update

record 'h psx_mdec = "'h psx_sio" +
  m_mdec :: mdec
  sync_callback_buffer :: "sync_callback list"

definition STAT_RESET_VALUE :: u32 where "STAT_RESET_VALUE = 0x80040000"
definition RINGBUF_SIZE :: nat where "RINGBUF_SIZE = 524288"
definition SYNC_BUFFER_SIZE :: nat where "SYNC_BUFFER_SIZE = 32"

definition mdec_new :: mdec where
  "mdec_new = \<lparr>mdec_stat = 0, m_enable_dma0 = False, m_enable_dma1 = False, m_num_params = 0,
     m_luminance_table = replicate 64 0, m_color_table = replicate 64 0, m_scale_table = replicate 64 0,
     m_curr_cmd = Mdec_IDLE, m_can_use_fast_idct = False, mdec_in_fifo = [], mdec_out_fifo = [],
     m_curr_in_pos = 0, m_run_thread = False, m_start_decode = False, mdec_use_simd = False,
     m_accurate_idct = True\<rparr>"

definition data_out_bit15 :: "u32 \<Rightarrow> bool" where "data_out_bit15 w = bit w 23"
definition data_out_signed :: "u32 \<Rightarrow> bool" where "data_out_signed w = bit w 24"
definition out_depth :: "u32 \<Rightarrow> u32" where "out_depth w = get_bits 25 2 w"
definition BIT4 :: u32 where "BIT4 = 0"
definition BIT8 :: u32 where "BIT8 = 1"
definition BIT24 :: u32 where "BIT24 = 2"
definition BIT15 :: u32 where "BIT15 = 3"

definition upd_stat :: "(u32 \<Rightarrow> u32) \<Rightarrow> mdec \<Rightarrow> mdec" where
  "upd_stat f m = m\<lparr>mdec_stat := f (mdec_stat m)\<rparr>"

definition set_missing_params :: "u32 \<Rightarrow> mdec \<Rightarrow> mdec" where "set_missing_params v = upd_stat (put_bits 0 16 v)"
definition set_curr_block :: "u32 \<Rightarrow> mdec \<Rightarrow> mdec" where "set_curr_block v = upd_stat (put_bits 16 3 v)"
definition set_out_request :: "bool \<Rightarrow> mdec \<Rightarrow> mdec" where "set_out_request b = upd_stat (put_flag 27 b)"
definition set_in_request :: "bool \<Rightarrow> mdec \<Rightarrow> mdec" where "set_in_request b = upd_stat (put_flag 28 b)"
definition set_cmd_busy :: "bool \<Rightarrow> mdec \<Rightarrow> mdec" where "set_cmd_busy b = upd_stat (put_flag 29 b)"
definition set_in_full :: "bool \<Rightarrow> mdec \<Rightarrow> mdec" where "set_in_full b = upd_stat (put_flag 30 b)"
definition set_out_empty :: "bool \<Rightarrow> mdec \<Rightarrow> mdec" where "set_out_empty b = upd_stat (put_flag 31 b)"

definition upd_mdec :: "(mdec \<Rightarrow> mdec) \<Rightarrow> ('h, 'm) psx_mdec_scheme \<Rightarrow> ('h, 'm) psx_mdec_scheme" where
  "upd_mdec f s = s\<lparr>m_mdec := f (m_mdec s)\<rparr>"

section \<open>Tables\<close>

definition DEFAULT_SCALE_TABLE :: "int list" where
  "DEFAULT_SCALE_TABLE = map i16
    [0x5A82, 0x5A82, 0x5A82, 0x5A82, 0x5A82, 0x5A82, 0x5A82, 0x5A82,
     0x7D8A, 0x6A6D, 0x471C, 0x18F8, 0xE707, 0xB8E3, 0x9592, 0x8275,
     0x7641, 0x30FB, 0xCF04, 0x89BE, 0x89BE, 0xCF04, 0x30FB, 0x7641,
     0x6A6D, 0xE707, 0x8275, 0xB8E3, 0x471C, 0x7D8A, 0x18F8, 0x9592,
     0x5A82, 0xA57D, 0xA57D, 0x5A82, 0x5A82, 0xA57D, 0xA57D, 0x5A82,
     0x471C, 0x8275, 0x18F8, 0x6A6D, 0x9592, 0xE707, 0x7D8A, 0xB8E3,
     0x30FB, 0x89BE, 0x7641, 0xCF04, 0xCF04, 0x7641, 0x89BE, 0x30FB,
     0x18F8, 0xB8E3, 0x6A6D, 0x8275, 0x7D8A, 0x9592, 0x471C, 0xE707]"

definition ZIGZAG :: "nat list" where
  "ZIGZAG =
    [0, 1, 5, 6, 14, 15, 27, 28,
     2, 4, 7, 13, 16, 26, 29, 42,
     3, 8, 12, 17, 25, 30, 41, 43,
     9, 11, 18, 24, 31, 40, 44, 53,
     10, 19, 23, 32, 39, 45, 52, 54,
     20, 22, 33, 38, 46, 51, 55, 60,
     21, 34, 37, 47, 50, 56, 59, 61,
     35, 36, 48, 49, 57, 58, 62, 63]"

definition ZAGZIG :: "nat list" where
  "ZAGZIG = foldl (\<lambda>t i. t[ZIGZAG ! i := i]) (replicate 64 0) [0..<64]"

section \<open>The inverse transform\<close>

text \<open>\<open>sum8 f\<close> is the loop \<open>for z < 8\<close> that adds up \<open>f z\<close>.\<close>

definition sum8 :: "(nat \<Rightarrow> int) \<Rightarrow> int" where
  "sum8 f = foldl (\<lambda>acc z. acc + f z) 0 [0..<8]"

definition grid8 :: "(nat \<Rightarrow> nat \<Rightarrow> 'a) \<Rightarrow> 'a list" where
  "grid8 f = map (\<lambda>i. f (i mod 8) (i div 8)) [0..<64]"

definition idct_pass1 :: "int list \<Rightarrow> int list \<Rightarrow> int list" where
  "idct_pass1 scale blk = grid8 (\<lambda>x y. sum8 (\<lambda>z. blk ! (x + z * 8) * scale ! (y * 8 + z)))"

definition idct_round :: "int \<Rightarrow> int" where
  "idct_round s = i16 (drop_bit 32 s + of_bool (bit s 31))"

definition idct_pass2 :: "int list \<Rightarrow> int list \<Rightarrow> int list" where
  "idct_pass2 scale temp = grid8 (\<lambda>x y. idct_round (sum8 (\<lambda>z. temp ! (y * 8 + z) * scale ! (x * 8 + z))))"

text \<open>
  The vector form of the first pass takes four neighbours at a time: \<open>cvtepi16_epi32\<close>, a 32-bit
  product, \<open>cvtepi32_epi64\<close>, and 64-bit sums.
\<close>

definition add4 :: "u64 list \<Rightarrow> u64 list \<Rightarrow> u64 list" where
  "add4 a b = map2 (+) a b"

definition idct_row4 :: "int list \<Rightarrow> int list \<Rightarrow> nat \<Rightarrow> nat \<Rightarrow> u64 list" where
  "idct_row4 scale blk y x =
     foldl (\<lambda>acc z. add4 acc (map (\<lambda>j. scast ((word_of_int (blk ! (z * 8 + x + j)) :: u32)
                                        * word_of_int (scale ! (y * 8 + z)))) [0..<4]))
       (replicate 4 0) [0..<8]"

definition idct_pass1_simd :: "int list \<Rightarrow> int list \<Rightarrow> int list" where
  "idct_pass1_simd scale blk =
     concat (map (\<lambda>y. map sint (idct_row4 scale blk y 0) @ map sint (idct_row4 scale blk y 4)) [0..<8])"

text \<open>
  The inaccurate second pass drops eight bits of the first sums and multiplies in 32 bits.
\<close>

definition idct_pass2_fast :: "int list \<Rightarrow> int list \<Rightarrow> int list" where
  "idct_pass2_fast scale temp =
     grid8 (\<lambda>x y.
       let prod = (\<lambda>z. (ucast (drop_bit 8 (word_of_int (temp ! (y * 8 + z)) :: u64)) :: u32)
                        * word_of_int (scale ! (x * 8 + z)));
           lane = (\<lambda>j. push_bit 8 (scast (prod j) :: u64) + push_bit 8 (scast (prod (4 + j))));
           true_sum = lane 0 + lane 1 + lane 2 + lane 3
       in idct_round (sint true_sum))"

definition idct_core :: "mdec \<Rightarrow> int list \<Rightarrow> int list" where
  "idct_core m blk =
     (let scale = m_scale_table m;
          temp = (if mdec_use_simd m then idct_pass1_simd scale blk else idct_pass1 scale blk)
      in if mdec_use_simd m \<and> \<not> m_accurate_idct m then idct_pass2_fast scale temp
         else idct_pass2 scale temp)"

section \<open>Run-length decoding\<close>

text \<open>
  The halfwords that are left stand for the iterator. The source computes the last product with
  \<open>qt[k]\<close> for a \<open>k\<close> beyond the table when a block ends; the value is not used.
\<close>

definition level :: "u16 \<Rightarrow> int" where "level n = sign_extend 9 (uint (n AND 0x3FF))"
definition run :: "u16 \<Rightarrow> nat" where "run n = unat (drop_bit 10 n AND 0x3F)"

definition quantised :: "u8 list \<Rightarrow> nat \<Rightarrow> nat \<Rightarrow> u16 \<Rightarrow> int" where
  "quantised qt qscale k n =
     (if k < 64 then (level n * uint (qt ! k) * int qscale + 4) sdiv 8 else 0)"

definition put_coeff :: "nat \<Rightarrow> nat \<Rightarrow> u16 \<Rightarrow> int \<Rightarrow> int list \<Rightarrow> int list" where
  "put_coeff qscale k n val blk =
     (let v = clamp (if qscale = 0 then level n * 2 else val) (- 0x400) 0x3FF
      in blk[(if qscale > 0 then ZAGZIG ! k else k) := v])"

fun fill_block :: "u8 list \<Rightarrow> nat \<Rightarrow> nat \<Rightarrow> u16 \<Rightarrow> int \<Rightarrow> int list \<Rightarrow> u16 list \<Rightarrow> int list option \<times> u16 list" where
  "fill_block qt qscale k n val blk [] =
     (if k < 63 then (None, []) else (Some blk, []))"
| "fill_block qt qscale k n val blk (n' # rest) =
     (if k < 63 then
        (let k' = k + run n' + 1
         in fill_block qt qscale k' n' (quantised qt qscale k' n') (put_coeff qscale k n val blk) rest)
      else (Some blk, n' # rest))"

definition decode_single_block :: "mdec \<Rightarrow> u8 list \<Rightarrow> u16 list \<Rightarrow> int list option \<times> u16 list" where
  "decode_single_block m qt iter =
     (case dropWhile (\<lambda>h. h = 0xFE00) iter of
        [] \<Rightarrow> (None, [])
      | n # rest \<Rightarrow>
          (let (blk, rest) = fill_block qt (run n) 0 n (level n * uint (qt ! 0)) (replicate 64 0) rest
           in (map_option (idct_core m) blk, rest)))"

section \<open>Colours\<close>

definition mono_scalar :: "bool \<Rightarrow> int \<Rightarrow> u32" where
  "mono_scalar sgnd v =
     word_of_int (if sgnd then clamp v (- 128) 127 else clamp (i16 (v + 0x80)) 0 255)"

text \<open>\<open>_mm_add_epi16\<close> wraps, \<open>_mm_max_epi16\<close> and \<open>_mm_min_epi16\<close> clamp.\<close>

definition mono_simd :: "bool \<Rightarrow> int \<Rightarrow> u32" where
  "mono_simd sgnd v =
     (let w = (word_of_int v :: u16);
          r = (if sgnd then min (max (sint w) (- 128)) 127 else min (max (sint (w + 128)) 0) 255)
      in word_of_int r)"

definition y_to_mono :: "mdec \<Rightarrow> int list \<Rightarrow> u32 list" where
  "y_to_mono m blk =
     map (\<lambda>i. (if mdec_use_simd m then mono_simd else mono_scalar) (data_out_signed (mdec_stat m)) (blk ! i)) [0..<64]
       @ replicate 192 0"

text \<open>
  Single-precision arithmetic: a number is an integer in units of \<open>2 ^ -25\<close>; a result is rounded
  to 24 significant bits, ties to even.
\<close>

fun bit_length :: "nat \<Rightarrow> nat" where
  "bit_length n = (if n = 0 then 0 else Suc (bit_length (n div 2)))"

declare bit_length.simps [simp del]

definition round_even :: "nat \<Rightarrow> nat \<Rightarrow> nat" where
  "round_even d n =
     (let q = n div d; r = n mod d
      in if 2 * r < d then q else if d < 2 * r then q + 1 else if even q then q else q + 1)"

definition f32_round :: "int \<Rightarrow> int" where
  "f32_round x =
     (let a = nat \<bar>x\<bar>; e = bit_length a - 24
      in sgn x * int (round_even (2 ^ e) a * 2 ^ e))"

definition FONE :: int where "FONE = 2 ^ 25"
definition F1402 :: int where "F1402 = 47043312"
definition F1772 :: int where "F1772 = 59458452"
definition F3437 :: int where "F3437 = 11532658"
definition F7143 :: int where "F7143 = 23967930"

definition f32_to_int :: "int \<Rightarrow> int" where "f32_to_int x = x sdiv FONE"

definition chroma_r :: "int \<Rightarrow> int" where "chroma_r cr = f32_round (F1402 * cr)"
definition chroma_b :: "int \<Rightarrow> int" where "chroma_b cb = f32_round (F1772 * cb)"
definition chroma_g :: "int \<Rightarrow> int \<Rightarrow> int" where
  "chroma_g cr cb = f32_round (- f32_round (F3437 * cb) - f32_round (F7143 * cr))"

definition to_byte :: "bool \<Rightarrow> int \<Rightarrow> u32" where
  "to_byte sgnd v = ucast (word_of_int (if sgnd then clamp v (- 128) 127 else clamp (v + 0x80) 0 255) :: u8)"

definition yuv_scalar :: "bool \<Rightarrow> int \<Rightarrow> int \<Rightarrow> int \<Rightarrow> u32" where
  "yuv_scalar sgnd y cr cb =
     to_byte sgnd (y + f32_to_int (chroma_r cr))
       OR push_bit 8 (to_byte sgnd (y + f32_to_int (chroma_g cr cb)))
       OR push_bit 16 (to_byte sgnd (y + f32_to_int (chroma_b cb)))"

text \<open>
  The vector form adds in single precision, clamps there and rounds to the nearest integer
  (\<open>cvtps_epi32\<close>); the components are not cut to a byte.
\<close>

definition nearest :: "int \<Rightarrow> int" where
  "nearest x = sgn x * int (round_even (nat FONE) (nat \<bar>x\<bar>))"

definition simd_component :: "bool \<Rightarrow> int \<Rightarrow> int \<Rightarrow> u32" where
  "simd_component sgnd y c =
     (let v = f32_round (y * FONE + c);
          v = (if sgnd then min (max v (- 128 * FONE)) (127 * FONE)
               else min (max (f32_round (v + 128 * FONE)) 0) (255 * FONE))
      in word_of_int (nearest v))"

definition yuv_simd :: "bool \<Rightarrow> int \<Rightarrow> int \<Rightarrow> int \<Rightarrow> u32" where
  "yuv_simd sgnd y cr cb =
     simd_component sgnd y (chroma_r cr)
       OR push_bit 8 (simd_component sgnd y (chroma_g cr cb))
       OR push_bit 16 (simd_component sgnd y (chroma_b cb))"

text \<open>One of the four luminance blocks, at \<open>(xx, yy)\<close> of the 16 by 16 macroblock.\<close>

definition yuv_to_rgb ::
  "mdec \<Rightarrow> int list \<Rightarrow> int list \<Rightarrow> int list \<Rightarrow> nat \<Rightarrow> nat \<Rightarrow> u32 list \<Rightarrow> u32 list" where
  "yuv_to_rgb m blk cr cb xx yy out =
     foldl (\<lambda>out i.
       let x = i mod 8; y = i div 8;
           k = (x + xx) div 2 + (y + yy) div 2 * 8;
           colour = (if mdec_use_simd m then yuv_simd else yuv_scalar)
                      (data_out_signed (mdec_stat m)) (blk ! (x + y * 8)) (cr ! k) (cb ! k)
       in out[(x + xx) + (y + yy) * 16 := colour]) out [0..<64]"

section \<open>Packing\<close>

definition pack4 :: "u32 list \<Rightarrow> nat \<Rightarrow> u32" where
  "pack4 src i =
     foldl (\<lambda>w j. w OR push_bit (4 * j) (drop_bit 4 (src ! (i + j)))) 0 [0..<8]"

definition pack8 :: "u32 list \<Rightarrow> nat \<Rightarrow> u32" where
  "pack8 src i =
     src ! i OR push_bit 8 (src ! (i + 1)) OR push_bit 16 (src ! (i + 2)) OR push_bit 24 (src ! (i + 3))"

definition rgb15 :: "bool \<Rightarrow> u32 \<Rightarrow> u32" where
  "rgb15 mask_bit c =
     (let v = (drop_bit 3 c AND 0x1F) OR push_bit 5 (drop_bit 11 c AND 0x1F) OR push_bit 10 (drop_bit 19 c AND 0x1F)
      in if mask_bit then v OR 0x8000 else v)"

definition pack15 :: "bool \<Rightarrow> u32 list \<Rightarrow> nat \<Rightarrow> u32" where
  "pack15 mask_bit src i = rgb15 mask_bit (src ! i) OR push_bit 16 (rgb15 mask_bit (src ! (i + 1)))"

text \<open>The four states of the 24-bit packer; it keeps the bytes left over in \<open>colour\<close>.\<close>

fun pack24 :: "nat \<Rightarrow> u32 \<Rightarrow> u32 list \<Rightarrow> u32 list" where
  "pack24 st colour [] = []"
| "pack24 st colour (p # ps) =
     (if st = 0 then pack24 1 p ps
      else if st = 1 then (colour OR push_bit 24 (p AND 0xFF)) # pack24 2 (drop_bit 8 p) ps
      else if st = 2 then (colour OR push_bit 16 (p AND 0xFFFF)) # pack24 3 (drop_bit 16 p) ps
      else (colour OR push_bit 8 (p AND 0xFFFFFF)) # pack24 0 colour ps)"

text \<open>The vector forms, lane by lane: shifts of 32-bit lanes, and of pairs of lanes as 64 bits.\<close>

definition pair :: "u32 \<Rightarrow> u32 \<Rightarrow> u64" where
  "pair a b = ucast a OR push_bit 32 (ucast b)"

definition low32 :: "u64 \<Rightarrow> u32" where "low32 w = ucast w"
definition high32 :: "u64 \<Rightarrow> u32" where "high32 w = ucast (drop_bit 32 w)"

definition pack4_simd :: "u32 list \<Rightarrow> nat \<Rightarrow> u32" where
  "pack4_simd src i =
     (let lane = (\<lambda>j. push_bit (4 * j) (drop_bit 4 (src ! (i + j))));
          ored = (\<lambda>j. lane j OR lane (4 + j));
          o0 = ored 0 OR ored 2; o1 = ored 1 OR ored 3
      in o0 OR low32 (drop_bit 32 (pair o0 o1)))"

definition pack8_simd :: "u32 list \<Rightarrow> nat \<Rightarrow> u32" where
  "pack8_simd src i =
     (let l0 = src ! i OR push_bit 16 (src ! (i + 2));
          l1 = push_bit 8 (src ! (i + 1)) OR push_bit 24 (src ! (i + 3))
      in l0 OR low32 (drop_bit 32 (pair l0 l1)))"

definition pack15_simd :: "bool \<Rightarrow> u32 list \<Rightarrow> nat \<Rightarrow> u32" where
  "pack15_simd mask_bit src i =
     (let field = (\<lambda>c. (drop_bit 3 c AND 0x1F) OR push_bit 5 (drop_bit 11 c AND 0x1F) OR push_bit 10 (drop_bit 19 c AND 0x1F));
          lane = (\<lambda>c. if mask_bit then field c OR 0x8000 else field c);
          c0 = lane (src ! i); c1 = lane (src ! (i + 1))
      in c0 OR low32 (drop_bit 16 (pair c0 c1)))"

definition pack24_simd :: "u32 list \<Rightarrow> nat \<Rightarrow> u32 list" where
  "pack24_simd src i =
     (let p = (\<lambda>j. src ! (i + j));
          q0 = push_bit 16 (pair (push_bit 8 (p 1)) (p 2));
          q1 = drop_bit 24 (pair (push_bit 8 (p 2)) (p 3))
      in [low32 q0 OR p 0, high32 q0, low32 q1])"

definition packed :: "mdec \<Rightarrow> u32 list \<Rightarrow> u32 list" where
  "packed m src =
     (let d = out_depth (mdec_stat m); mb = data_out_bit15 (mdec_stat m); simd = mdec_use_simd m in
      if d = BIT4 then map (\<lambda>k. (if simd then pack4_simd else pack4) src (8 * k)) [0..<8]
      else if d = BIT8 then map (\<lambda>k. (if simd then pack8_simd else pack8) src (4 * k)) [0..<16]
      else if d = BIT15 then map (\<lambda>k. (if simd then pack15_simd else pack15) mb src (2 * k)) [0..<128]
      else if simd then concat (map (\<lambda>k. pack24_simd src (4 * k)) [0..<64])
      else pack24 0 0 src)"

definition required_space :: "u32 \<Rightarrow> nat" where
  "required_space d = (if d = BIT4 then 8 else if d = BIT8 then 16 else if d = BIT15 then 128 else 256)"

definition write_available :: "mdec \<Rightarrow> nat" where
  "write_available m = RINGBUF_SIZE - length (mdec_out_fifo m)"

text \<open>
  Without space the emulator stops when the decoder runs on the main thread; the decoder's
  own thread waits, which is \<open>None\<close>.
\<close>

definition vec_to_out_fifo :: "u32 list \<Rightarrow> mdec \<Rightarrow> mdec option result" where
  "vec_to_out_fifo src m =
     (if write_available m < required_space (out_depth (mdec_stat m)) then
        (if m_run_thread m then Inr None else Inl DebugBreak)
      else Inr (Some (m\<lparr>mdec_out_fifo := mdec_out_fifo m @ packed m src\<rparr>)))"

section \<open>Requests to the DMA channels\<close>

definition update_dma0_req ::
  "('h, ('h, 'm) psx_mdec_scheme) dma_env \<Rightarrow> ('h, 'm) psx_mdec_scheme \<Rightarrow> ('h, 'm) psx_mdec_scheme result" where
  "update_dma0_req env s =
     (let b = m_enable_dma0 (m_mdec s); s = set_dreq b 0 (upd_mdec (set_in_request b) s)
      in if b then dreq_rising_edge env 0 s else Inr s)"

definition update_dma1_req ::
  "('h, ('h, 'm) psx_mdec_scheme) dma_env \<Rightarrow> ('h, 'm) psx_mdec_scheme \<Rightarrow> ('h, 'm) psx_mdec_scheme result" where
  "update_dma1_req env s =
     (let b = m_enable_dma1 (m_mdec s) \<and> mdec_out_fifo (m_mdec s) \<noteq> [];
          s = set_dreq b 1 (upd_mdec (set_out_request b) s)
      in if b then dreq_rising_edge env 1 s else Inr s)"

definition update_dma1_mono ::
  "('h, ('h, 'm) psx_mdec_scheme) dma_env \<Rightarrow> ('h, 'm) psx_mdec_scheme \<Rightarrow> ('h, 'm) psx_mdec_scheme result" where
  "update_dma1_mono env s = bindE (update_dma1_req env s) (\<lambda>s. Inr (upd_mdec (set_curr_block 4) s))"

definition run_sync_callback ::
  "('h, ('h, 'm) psx_mdec_scheme) dma_env \<Rightarrow> sync_callback \<Rightarrow> ('h, 'm) psx_mdec_scheme \<Rightarrow>
    ('h, 'm) psx_mdec_scheme result" where
  "run_sync_callback env cb s =
     (case cb of Mono_dma1_update \<Rightarrow> update_dma1_mono env s | Rgb_dma1_update \<Rightarrow> update_dma1_req env s)"

text \<open>Decoded data on the main thread is announced at once, in the decoder's thread through the queue.\<close>

definition announce ::
  "('h, ('h, 'm) psx_mdec_scheme) dma_env \<Rightarrow> sync_callback \<Rightarrow> ('h, 'm) psx_mdec_scheme \<Rightarrow>
    ('h, 'm) psx_mdec_scheme result" where
  "announce env cb s =
     (if m_start_decode (m_mdec s) then
        Inr (if length (sync_callback_buffer s) < SYNC_BUFFER_SIZE
             then s\<lparr>sync_callback_buffer := sync_callback_buffer s @ [cb]\<rparr> else s)
      else run_sync_callback env cb s)"

section \<open>Decoding\<close>

definition emit ::
  "('h, ('h, 'm) psx_mdec_scheme) dma_env \<Rightarrow> sync_callback \<Rightarrow> u32 list \<Rightarrow> ('h, 'm) psx_mdec_scheme \<Rightarrow>
    ('h, 'm) psx_mdec_scheme option result" where
  "emit env cb src s =
     bindE (vec_to_out_fifo src (m_mdec s)) (\<lambda>r.
       case r of None \<Rightarrow> Inr None
       | Some m \<Rightarrow> bindE (announce env cb (upd_mdec (\<lambda>_. m) s)) (\<lambda>s. Inr (Some s)))"

definition is_mono :: "mdec \<Rightarrow> bool" where
  "is_mono m \<longleftrightarrow> out_depth (mdec_stat m) = BIT4 \<or> out_depth (mdec_stat m) = BIT8"

definition macroblock :: "mdec \<Rightarrow> int list \<Rightarrow> int list \<Rightarrow> int list \<times> int list \<times> int list \<times> int list \<Rightarrow> u32 list" where
  "macroblock m cr cb ys =
     (let (y1, y2, y3, y4) = ys
      in yuv_to_rgb m y4 cr cb 8 8 (yuv_to_rgb m y3 cr cb 0 8
           (yuv_to_rgb m y2 cr cb 8 0 (yuv_to_rgb m y1 cr cb 0 0 (replicate 256 0)))))"

definition decode_macroblock :: "mdec \<Rightarrow> u16 list \<Rightarrow> u32 list option \<times> u16 list" where
  "decode_macroblock m iter =
     (let (cr, iter) = decode_single_block m (m_color_table m) iter;
          (cb, iter) = decode_single_block m (m_color_table m) iter;
          (y1, iter) = decode_single_block m (m_luminance_table m) iter;
          (y2, iter) = decode_single_block m (m_luminance_table m) iter;
          (y3, iter) = decode_single_block m (m_luminance_table m) iter;
          (y4, iter) = decode_single_block m (m_luminance_table m) iter
      in case (cr, cb, y1, y2, y3, y4) of
           (Some cr, Some cb, Some y1, Some y2, Some y3, Some y4) \<Rightarrow>
             (Some (macroblock m cr cb (y1, y2, y3, y4)), iter)
         | _ \<Rightarrow> (None, iter))"

text \<open>One round of the loop of \<open>Decode\<close>; \<open>None\<close> when the thread waits for space.\<close>

definition decode_round ::
  "('h, ('h, 'm) psx_mdec_scheme) dma_env \<Rightarrow> u16 list \<Rightarrow> ('h, 'm) psx_mdec_scheme \<Rightarrow>
    (('h, 'm) psx_mdec_scheme \<times> u16 list) option result" where
  "decode_round env iter s =
     (let m = m_mdec s;
          (pixels, iter', cb) =
            (if is_mono m then
               (let (blk, it) = decode_single_block m (m_luminance_table m) iter
                in (map_option (y_to_mono m) blk, it, Mono_dma1_update))
             else (let (px, it) = decode_macroblock m iter in (px, it, Rgb_dma1_update)))
      in case pixels of None \<Rightarrow> Inr (Some (s, iter'))
         | Some src \<Rightarrow> bindE (emit env cb src s) (\<lambda>r. Inr (map_option (\<lambda>s. (s, iter')) r)))"

fun decode_loop ::
  "nat \<Rightarrow> ('h, ('h, 'm) psx_mdec_scheme) dma_env \<Rightarrow> u16 list \<Rightarrow> ('h, 'm) psx_mdec_scheme \<Rightarrow>
    ('h, 'm) psx_mdec_scheme result" where
  "decode_loop fuel env [] s = Inr s"
| "decode_loop 0 env (h # iter) s = Inl OutOfFuel"
| "decode_loop (Suc fuel) env (h # iter) s =
     bindE (decode_round env (h # iter) s) (\<lambda>r.
       case r of None \<Rightarrow> Inl OutOfFuel | Some (s, iter) \<Rightarrow> decode_loop fuel env iter s)"

definition parameters :: "mdec \<Rightarrow> u16 list" where
  "parameters m = take (m_curr_in_pos m) (mdec_in_fifo m)"

definition mdec_decode ::
  "('h, ('h, 'm) psx_mdec_scheme) dma_env \<Rightarrow> ('h, 'm) psx_mdec_scheme \<Rightarrow> ('h, 'm) psx_mdec_scheme result" where
  "mdec_decode env s =
     decode_loop (length (parameters (m_mdec s))) env (parameters (m_mdec s)) s"

section \<open>Commands\<close>

definition halfword_bytes :: "u16 list \<Rightarrow> u8 list" where
  "halfword_bytes hs = concat (map (\<lambda>h. [ucast h, ucast (drop_bit 8 h)]) hs)"

definition copy_table :: "nat \<Rightarrow> mdec \<Rightarrow> u8 list result" where
  "copy_table base m =
     (if base + 32 \<le> length (mdec_in_fifo m) then Inr (halfword_bytes (take 32 (drop base (mdec_in_fifo m))))
      else Inl UndefinedBehaviour)"

definition fill_color :: "nat \<Rightarrow> mdec \<Rightarrow> mdec result" where
  "fill_color base m = bindE (copy_table base m) (\<lambda>t. Inr (m\<lparr>m_color_table := t\<rparr>))"

definition fill_luminance :: "mdec \<Rightarrow> mdec result" where
  "fill_luminance m =
     bindE (copy_table 0 m) (\<lambda>t.
       let m = m\<lparr>m_luminance_table := t\<rparr>
       in if m_curr_in_pos m > 32 then fill_color 32 m else Inr m)"

definition fill_scale :: "mdec \<Rightarrow> mdec result" where
  "fill_scale m =
     (if length (mdec_in_fifo m) < 64 then Inl UndefinedBehaviour
      else
        let t = grid8 (\<lambda>x y. sint (mdec_in_fifo m ! (x * 8 + y)))
        in Inr (m\<lparr>m_scale_table := t, m_can_use_fast_idct := (t = DEFAULT_SCALE_TABLE)\<rparr>))"

definition resize :: "nat \<Rightarrow> u16 list \<Rightarrow> u16 list" where
  "resize n xs = (if length xs < n then xs @ replicate (n - length xs) 0 else xs)"

definition begin_command :: "mdec_cmd \<Rightarrow> u32 \<Rightarrow> mdec \<Rightarrow> mdec" where
  "begin_command c n m =
     set_cmd_busy True (set_missing_params (n - 1) (m\<lparr>m_curr_cmd := c, m_num_params := n\<rparr>))"

definition cmd_select :: "u32 \<Rightarrow> mdec \<Rightarrow> mdec" where
  "cmd_select value m =
     (let cmd = drop_bit 29 value in
      if cmd = 1 then
        (set_curr_block 4 (begin_command Mdec_DECODE (value AND 0xFFFF) m))\<lparr>mdec_out_fifo := []\<rparr>
      else if cmd = 2 then begin_command Mdec_SET_QUANT (if bit value 0 then 32 else 16) m
      else if cmd = 3 then begin_command Mdec_SET_SCALE 32 m
      else set_missing_params (value AND 0xFFFF) m)"

definition cmd_start ::
  "('h, ('h, 'm) psx_mdec_scheme) dma_env \<Rightarrow> u32 \<Rightarrow> ('h, 'm) psx_mdec_scheme \<Rightarrow> ('h, 'm) psx_mdec_scheme result" where
  "cmd_start env value s =
     update_dma0_req env (upd_mdec (\<lambda>m.
       let m = cmd_select value (upd_stat (put_bits 23 4 (drop_bit 25 value)) m)
       in m\<lparr>mdec_in_fifo := resize (unat (m_num_params m) * 2) (mdec_in_fifo m), m_curr_in_pos := 0\<rparr>) s)"

definition on_mdec ::
  "(mdec \<Rightarrow> mdec result) \<Rightarrow> ('h, 'm) psx_mdec_scheme \<Rightarrow> ('h, 'm) psx_mdec_scheme result" where
  "on_mdec f s = bindE (f (m_mdec s)) (\<lambda>m. Inr (upd_mdec (\<lambda>_. m) s))"

definition run_command ::
  "('h, ('h, 'm) psx_mdec_scheme) dma_env \<Rightarrow> ('h, 'm) psx_mdec_scheme \<Rightarrow> ('h, 'm) psx_mdec_scheme result" where
  "run_command env s =
     (case m_curr_cmd (m_mdec s) of
        Mdec_DECODE \<Rightarrow>
          if \<not> m_run_thread (m_mdec s) then mdec_decode env s
          else Inr (upd_mdec (\<lambda>m. m\<lparr>m_start_decode := True\<rparr>) s)
      | Mdec_SET_QUANT \<Rightarrow> on_mdec fill_luminance s
      | Mdec_SET_SCALE \<Rightarrow> on_mdec fill_scale s
      | Mdec_IDLE \<Rightarrow> Inl Unreachable)"

definition push_params :: "u32 \<Rightarrow> mdec \<Rightarrow> mdec result" where
  "push_params value m =
     (let p = m_curr_in_pos m in
      if p + 1 < length (mdec_in_fifo m) then
        Inr (m\<lparr>mdec_in_fifo := (mdec_in_fifo m)[p := ucast value, p + 1 := ucast (drop_bit 16 value)],
               m_curr_in_pos := p + 2\<rparr>)
      else Inl UndefinedBehaviour)"

definition end_command :: "mdec \<Rightarrow> mdec" where
  "end_command m = (set_cmd_busy (m_num_params m > 0) (set_in_full False m))\<lparr>m_curr_cmd := Mdec_IDLE\<rparr>"

definition mdec_command ::
  "('h, ('h, 'm) psx_mdec_scheme) dma_env \<Rightarrow> u32 \<Rightarrow> ('h, 'm) psx_mdec_scheme \<Rightarrow> ('h, 'm) psx_mdec_scheme result" where
  "mdec_command env value s =
     (if m_num_params (m_mdec s) > 0 then
        bindE (on_mdec (push_params value) s) (\<lambda>s.
          let s = upd_mdec (\<lambda>m. let m = m\<lparr>m_num_params := m_num_params m - 1\<rparr>
                                 in set_in_full (m_num_params m = 0) m) s
          in bindE (if m_num_params (m_mdec s) = 0
                    then bindE (run_command env s) (\<lambda>s. Inr (upd_mdec end_command s))
                    else Inr (upd_mdec (\<lambda>m. set_missing_params (m_num_params m - 1) m) s))
               (update_dma0_req env))
      else cmd_start env value s)"

definition mdec_reset ::
  "('h, ('h, 'm) psx_mdec_scheme) dma_env \<Rightarrow> ('h, 'm) psx_mdec_scheme \<Rightarrow> ('h, 'm) psx_mdec_scheme result" where
  "mdec_reset env s =
     bindE (update_dma0_req env (upd_mdec (\<lambda>m. m\<lparr>mdec_stat := STAT_RESET_VALUE, m_num_params := 0,
              mdec_in_fifo := [], mdec_out_fifo := [], m_enable_dma0 := False, m_enable_dma1 := False,
              m_curr_in_pos := 0\<rparr>) s))
       (update_dma1_req env)"

definition mdec_control ::
  "('h, ('h, 'm) psx_mdec_scheme) dma_env \<Rightarrow> u32 \<Rightarrow> ('h, 'm) psx_mdec_scheme \<Rightarrow> ('h, 'm) psx_mdec_scheme result" where
  "mdec_control env value s =
     bindE (if bit value 31 then mdec_reset env s else Inr s) (\<lambda>s.
       let s = (if bit value 30 then upd_mdec (\<lambda>m. m\<lparr>m_enable_dma0 := True\<rparr>) s else s);
           s = (if bit value 29 then upd_mdec (\<lambda>m. m\<lparr>m_enable_dma1 := True\<rparr>) s else s)
       in bindE (update_dma0_req env s) (update_dma1_req env))"

definition mdec_data ::
  "('h, ('h, 'm) psx_mdec_scheme) dma_env \<Rightarrow> ('h, 'm) psx_mdec_scheme \<Rightarrow> (u32 \<times> ('h, 'm) psx_mdec_scheme) result" where
  "mdec_data env s =
     (case mdec_out_fifo (m_mdec s) of
        [] \<Rightarrow> Inr (0, s)
      | colour # rest \<Rightarrow>
          bindE (update_dma0_req env (upd_mdec (\<lambda>m. m\<lparr>mdec_out_fifo := rest\<rparr>) s)) (\<lambda>s.
          bindE (update_dma1_req env s) (\<lambda>s. Inr (colour, s))))"

definition mdec_read_status :: "('h, 'm) psx_mdec_scheme \<Rightarrow> u32 \<times> ('h, 'm) psx_mdec_scheme" where
  "mdec_read_status s =
     (let s = upd_mdec (\<lambda>m. set_out_empty (mdec_out_fifo m = []) m) s in (mdec_stat (m_mdec s), s))"

section \<open>The decoder's thread\<close>

text \<open>
  The thread holds the mutex from the moment it wakes to the end of \<open>Decode\<close>; \<open>WriteCommand\<close> and
  \<open>WriteControl\<close> take it when they find \<open>m_start_decode\<close> set, the reads never do.
\<close>

datatype decoder = Waiting | Decoding "u16 list"

inductive thread_step ::
  "('h, ('h, 'm) psx_mdec_scheme) dma_env \<Rightarrow> decoder \<times> ('h, 'm) psx_mdec_scheme \<Rightarrow>
    decoder \<times> ('h, 'm) psx_mdec_scheme \<Rightarrow> bool" for env where
  thread_wakes:
    "m_start_decode (m_mdec s) \<Longrightarrow> thread_step env (Waiting, s) (Decoding (parameters (m_mdec s)), s)"
| thread_decodes:
    "iter \<noteq> [] \<Longrightarrow> decode_round env iter s = Inr (Some (s', iter')) \<Longrightarrow>
     thread_step env (Decoding iter, s) (Decoding iter', s')"
| thread_sleeps:
    "thread_step env (Decoding [], s) (Waiting, upd_mdec (\<lambda>m. m\<lparr>m_start_decode := False\<rparr>) s)"
| main_writes_command:
    "mdec_command env v s = Inr s' \<Longrightarrow> thread_step env (Waiting, s) (Waiting, s')"
| main_writes_control:
    "mdec_control env v s = Inr s' \<Longrightarrow> thread_step env (Waiting, s) (Waiting, s')"
| main_reads_data:
    "mdec_data env s = Inr (v, s') \<Longrightarrow> thread_step env (d, s) (d, s')"
| main_reads_status:
    "mdec_read_status s = (v, s') \<Longrightarrow> thread_step env (d, s) (d, s')"

definition start_decode_thread :: "mdec \<Rightarrow> mdec" where
  "start_decode_thread m =
     (if m_run_thread m then m else m\<lparr>m_start_decode := False, m_run_thread := True\<rparr>)"

definition stop_decode_thread :: "mdec \<Rightarrow> mdec" where
  "stop_decode_thread m = (if \<not> m_run_thread m then m else m\<lparr>m_run_thread := False\<rparr>)"

end
