(* ===== verification/Gpu.thy ===== *)
theory Gpu
  imports Mdec
begin

text \<open>
  The command processor of the graphics unit (\<open>GPU.cpp\<close>, \<open>GP0Commands.cpp\<close>, \<open>GP1Commands.cpp\<close>,
  \<open>DrawCalls.cpp\<close>): the two command ports with their state machine, the image transfers, the
  decoding of drawing commands into primitives, the status word and the timing of the video
  signal. The OpenGL renderer is a parameter: every call to it is recorded, and it may change
  the processor's copy of the video memory. The recording of commands for the debugger
  (\<open>m_recording_commands\<close>) is off.
\<close>

section \<open>State\<close>

datatype gpuread_status = READ_REG | READ_VRAM | READ_NONE

datatype gpu_status = G_IDLE | G_WAITING_PARAMETERS | G_BUSY | G_CPU_VRAM_BLIT | G_VRAM_CPU_BLIT
  | G_POLYLINE | G_POLYLINE_GOURAUD

datatype dma_dir = DMA_OFF | DMA_IDK | CPU_GP0 | GPUREAD_CPU

record gpu_stat =
  texture_page_x_base :: u32
  texture_page_y_base :: u32
  semi_transparency :: u32
  tex_page_colors :: u32
  dither :: bool
  draw_to_display :: bool
  set_mask :: bool
  draw_over_mask_disable :: bool
  interlace_field :: bool
  flip_screen_hoz :: bool
  texture_page_y_base2 :: bool
  hoz_res_2 :: bool
  hoz_res1 :: u32
  vertical_res :: bool
  video_mode :: bool
  disp_color_depth :: bool
  vertical_interlace :: bool
  disp_enable :: bool
  irq1 :: bool
  gpu_dreq :: bool
  recv_cmd_word :: bool
  send_vram_cpu :: bool
  recv_dma :: bool
  dma_direction_field :: dma_dir
  drawing_odd :: bool

record raw_draw_config =
  raw_texpage :: u32
  raw_tex_window :: u32
  raw_draw_top_left :: u32
  raw_draw_bottom_right :: u32
  raw_draw_offset :: u32
  raw_mask_setting :: u32

record texture_window =
  mask_x :: u32
  mask_y :: u32
  offset_x :: u32
  offset_y :: u32

record vram_blit =
  source_x :: u32
  source_y :: u32
  curr_x :: u32
  curr_y :: u32
  size_x :: u32
  size_y :: u32

record display_config =
  display_enable :: bool
  conf_disp_x :: u32
  conf_disp_y :: u32
  hoz_res :: u32
  vert_res :: u32

datatype pipeline_type = UNTEXTURED_OPAQUE_FLAT_TRIANGLE | BASIC_GOURAUD_TRIANGLE | TEXTURED_TRIANGLE
  | MONO_LINE | SHADED_LINE

record gpu_vertex =
  vertex_x :: int
  vertex_y :: int
  vertex_color :: u32
  vertex_clut_page :: u32
  vertex_flags :: u32
  vertex_uv :: u32

record primitive =
  prim_vertices :: "gpu_vertex list"
  prim_type :: pipeline_type
  semi_transparent :: bool
  semi_transparency_type :: u32

datatype render_call = Flush_commands | Sync_textures | Set_scissor_top u32 u32 | Set_scissor_bottom u32 u32
  | Uniform_dither bool | Uniform_draw_offset u32 u32 | Uniform_tex_window texture_window | Uniform_mask bool bool
  | Set_draw_over_mask_disable bool | Draw_primitive primitive | Fill_rectangle u32 u32 u32 u32 u32
  | Prepare_blit bool bool | Begin_cpu_vram_blit | Cpu_vram_blit u32 u32 u32 u32 | End_blit
  | Vram_cpu_blit u32 u32 u32 u32 | Vram_vram_blit u32 u32 u32 u32 u32 u32 bool | Renderer_vblank

type_synonym vram = "nat \<Rightarrow> u16"

record gpu =
  m_cmd_fifo :: "u32 cqueue"
  gstat :: gpu_stat
  m_read_status :: gpuread_status
  m_gpu_read_latch :: u32
  m_cpu_vram :: vram
  m_disp_x_start :: u32
  m_disp_y_start :: u32
  m_hoz_disp_start :: u32
  m_hoz_disp_end :: u32
  m_vert_disp_start :: u32
  m_vert_disp_end :: u32
  m_x_top_left :: u32
  m_y_top_left :: u32
  m_x_bot_right :: u32
  m_y_bot_right :: u32
  m_x_off :: u32
  m_y_off :: u32
  m_tex_win :: texture_window
  m_cmd_status :: gpu_status
  m_raw_conf :: raw_draw_config
  m_tex_x_flip :: bool
  m_tex_y_flip :: bool
  m_scanline :: u32
  gpu_vblank :: bool
  m_required_params :: u32
  m_rem_params :: u32
  m_cpu_vram_blit :: vram_blit
  m_vram_cpu_blit :: vram_blit
  m_disp_conf :: display_config
  m_raw_disp_conf :: u32
  m_last_event_timestamp :: u64
  m_curr_vblank_count :: u64
  m_pal :: bool
  render_log :: "render_call list"

record 'h psx_gpu = "'h psx_mdec" +
  m_gpu :: gpu
  vblank_flag :: bool

text \<open>What the graphics unit uses: the DMA channel, and the effect of a renderer call on the video memory.\<close>

record ('h, 's) gpu_env =
  gpu_dma :: "('h, 's) dma_env"
  render :: "render_call \<Rightarrow> vram \<Rightarrow> vram"

definition VRAM_X_SIZE :: u32 where "VRAM_X_SIZE = 1024"
definition VRAM_Y_SIZE :: u32 where "VRAM_Y_SIZE = 512"
definition VRAM_HALFWORDS :: nat where "VRAM_HALFWORDS = 0x80000"
definition GPU_FIFO_SIZE :: nat where "GPU_FIFO_SIZE = 16"

definition gpu_stat_new :: gpu_stat where
  "gpu_stat_new = \<lparr>texture_page_x_base = 0, texture_page_y_base = 0, semi_transparency = 0, tex_page_colors = 0,
     dither = False, draw_to_display = False, set_mask = False, draw_over_mask_disable = False,
     interlace_field = False, flip_screen_hoz = False, texture_page_y_base2 = False, hoz_res_2 = False,
     hoz_res1 = 0, vertical_res = False, video_mode = False, disp_color_depth = False, vertical_interlace = False,
     disp_enable = False, irq1 = False, gpu_dreq = False, recv_cmd_word = False, send_vram_cpu = False,
     recv_dma = False, dma_direction_field = DMA_OFF, drawing_odd = False\<rparr>"

definition blit_new :: vram_blit where
  "blit_new = \<lparr>source_x = 0, source_y = 0, curr_x = 0, curr_y = 0, size_x = 0, size_y = 0\<rparr>"

definition gpu_new :: "vram \<Rightarrow> gpu" where
  "gpu_new v = \<lparr>m_cmd_fifo = queue_new GPU_FIFO_SIZE 0, gstat = gpu_stat_new, m_read_status = READ_NONE,
     m_gpu_read_latch = 0, m_cpu_vram = v, m_disp_x_start = 0, m_disp_y_start = 0, m_hoz_disp_start = 0,
     m_hoz_disp_end = 0, m_vert_disp_start = 0, m_vert_disp_end = 0, m_x_top_left = 0, m_y_top_left = 0,
     m_x_bot_right = 0, m_y_bot_right = 0, m_x_off = 0, m_y_off = 0,
     m_tex_win = \<lparr>mask_x = 0, mask_y = 0, offset_x = 0, offset_y = 0\<rparr>, m_cmd_status = G_IDLE,
     m_raw_conf = \<lparr>raw_texpage = 0, raw_tex_window = 0, raw_draw_top_left = 0, raw_draw_bottom_right = 0,
       raw_draw_offset = 0, raw_mask_setting = 0\<rparr>,
     m_tex_x_flip = False, m_tex_y_flip = False, m_scanline = 0, gpu_vblank = False, m_required_params = 0,
     m_rem_params = 0, m_cpu_vram_blit = blit_new, m_vram_cpu_blit = blit_new,
     m_disp_conf = \<lparr>display_enable = False, conf_disp_x = 0, conf_disp_y = 0, hoz_res = 0, vert_res = 0\<rparr>,
     m_raw_disp_conf = 0, m_last_event_timestamp = 0, m_curr_vblank_count = 0, m_pal = False, render_log = []\<rparr>"

definition upd_gpu :: "(gpu \<Rightarrow> gpu) \<Rightarrow> ('h, 'm) psx_gpu_scheme \<Rightarrow> ('h, 'm) psx_gpu_scheme" where
  "upd_gpu f s = s\<lparr>m_gpu := f (m_gpu s)\<rparr>"

definition upd_gstat :: "(gpu_stat \<Rightarrow> gpu_stat) \<Rightarrow> gpu \<Rightarrow> gpu" where
  "upd_gstat f g = g\<lparr>gstat := f (gstat g)\<rparr>"

type_synonym renderer = "render_call \<Rightarrow> vram \<Rightarrow> vram"

definition call_renderer :: "renderer \<Rightarrow> render_call \<Rightarrow> gpu \<Rightarrow> gpu" where
  "call_renderer rd c g = g\<lparr>m_cpu_vram := rd c (m_cpu_vram g), render_log := render_log g @ [c]\<rparr>"

section \<open>Drawing\<close>

definition is_semi_transparent :: "u32 \<Rightarrow> bool" where "is_semi_transparent cmd = bit cmd 25"
definition is_textured :: "u32 \<Rightarrow> bool" where "is_textured cmd = bit cmd 26"
definition is_quad :: "u32 \<Rightarrow> bool" where "is_quad cmd = bit cmd 27"
definition is_gouraud :: "u32 \<Rightarrow> bool" where "is_gouraud cmd = bit cmd 28"
definition is_raw_texture :: "u32 \<Rightarrow> bool" where "is_raw_texture cmd = bit cmd 24"
definition is_polyline :: "u32 \<Rightarrow> bool" where "is_polyline cmd = bit cmd 27"
definition cmd_color :: "u32 \<Rightarrow> u32" where "cmd_color cmd = cmd AND 0xFFFFFF"

definition position_x :: "u32 \<Rightarrow> int" where "position_x w = sign_extend 10 (uint (w AND 0xFFFF))"
definition position_y :: "u32 \<Rightarrow> int" where "position_y w = sign_extend 10 (uint (drop_bit 16 w AND 0xFFFF))"
definition attr_u :: "u32 \<Rightarrow> u32" where "attr_u w = w AND 0xFF"
definition attr_v :: "u32 \<Rightarrow> u32" where "attr_v w = drop_bit 8 w AND 0xFF"
definition clut_or_page :: "u32 \<Rightarrow> u32" where "clut_or_page w = drop_bit 16 w AND 0xFFFF"

definition vertex_new :: gpu_vertex where
  "vertex_new = \<lparr>vertex_x = 0, vertex_y = 0, vertex_color = 0, vertex_clut_page = 0, vertex_flags = 0, vertex_uv = 0\<rparr>"

definition vertex_flag_bits :: "bool \<Rightarrow> bool \<Rightarrow> bool \<Rightarrow> u32" where
  "vertex_flag_bits gouraud transparent raw =
     (if gouraud then 1 else 0) OR (if transparent then 2 else 0) OR (if raw then 4 else 0)"

text \<open>The vertices of a polygon, in the order of the queue, and the palette and page they carry.\<close>

fun polygon_vertices ::
  "bool \<Rightarrow> bool \<Rightarrow> u32 \<Rightarrow> u32 \<Rightarrow> nat list \<Rightarrow> u32 \<Rightarrow> u32 cqueue \<Rightarrow> (gpu_vertex list \<times> u32 \<times> u32 cqueue) result" where
  "polygon_vertices textured gouraud first_color flags [] cp q = Inr ([], cp, q)"
| "polygon_vertices textured gouraud first_color flags (i # is) cp q =
     bindE (if gouraud \<and> i \<noteq> 0 then bindE (queue_deque q) (\<lambda>(c, q). Inr (c AND 0xFFFFFF, q)) else Inr (first_color, q)) (\<lambda>(c, q).
     bindE (queue_deque q) (\<lambda>(p, q).
       let v = vertex_new\<lparr>vertex_x := position_x p, vertex_y := position_y p, vertex_color := c\<rparr> in
       bindE (if textured then
                bindE (queue_deque q) (\<lambda>(w, q).
                  Inr (v\<lparr>vertex_uv := push_bit 16 (attr_v w) OR attr_u w, vertex_flags := flags\<rparr>,
                       (if i = 0 then cp OR push_bit 16 (clut_or_page w)
                        else if i = 1 then cp OR clut_or_page w else cp), q))
              else Inr (v, cp, q)) (\<lambda>(v, cp, q).
       bindE (polygon_vertices textured gouraud first_color flags is cp q) (\<lambda>(vs, cp, q). Inr (v # vs, cp, q)))))"

definition try_update_texpage :: "u32 \<Rightarrow> gpu \<Rightarrow> gpu" where
  "try_update_texpage params g =
     upd_gstat (\<lambda>t. t\<lparr>texture_page_x_base := params AND 0xF, texture_page_y_base := get_bits 4 1 params,
       semi_transparency := get_bits 5 2 params, tex_page_colors := get_bits 7 2 params,
       texture_page_y_base2 := bit params 11\<rparr>) g"

definition draw_polygon :: "renderer \<Rightarrow> u32 \<Rightarrow> gpu \<Rightarrow> gpu result" where
  "draw_polygon rd cmd g =
     (let textured = is_textured cmd; gouraud = is_gouraud cmd; transparent = is_semi_transparent cmd;
          raw = (textured \<and> is_raw_texture cmd); n = (if is_quad cmd then 4 else 3 :: nat)
      in bindE (polygon_vertices textured gouraud (cmd_color cmd) (vertex_flag_bits gouraud transparent raw)
                  [0..<n] 0 (m_cmd_fifo g)) (\<lambda>(vs, cp, q).
           let vs = map (\<lambda>v. v\<lparr>vertex_clut_page := cp\<rparr>) vs;
               prim = \<lparr>prim_vertices = take 3 vs,
                       prim_type = (if textured then TEXTURED_TRIANGLE else if gouraud then BASIC_GOURAUD_TRIANGLE
                                    else UNTEXTURED_OPAQUE_FLAT_TRIANGLE),
                       semi_transparent = transparent,
                       semi_transparency_type = (if \<not> transparent then 0 else if textured then get_bits 5 2 cp
                                                 else semi_transparency (gstat g))\<rparr>;
               g = call_renderer rd (Draw_primitive prim) (g\<lparr>m_cmd_fifo := q\<rparr>);
               g = (if n = 4 then call_renderer rd (Draw_primitive (prim\<lparr>prim_vertices := drop 1 vs\<rparr>)) g else g)
           in Inr (if textured then try_update_texpage (cp AND 0xFFFF) g else g)))"

definition with_command :: "(u32 \<Rightarrow> gpu \<Rightarrow> gpu result) \<Rightarrow> gpu \<Rightarrow> gpu result" where
  "with_command f g = bindE (queue_deque (m_cmd_fifo g)) (\<lambda>(cmd, q). f cmd (g\<lparr>m_cmd_fifo := q\<rparr>))"

definition draw_quad :: "renderer \<Rightarrow> gpu \<Rightarrow> gpu result" where
  "draw_quad rd = with_command (\<lambda>cmd g. if \<not> is_quad cmd then Inl DebugBreak else draw_polygon rd cmd g)"

definition draw_triangle :: "renderer \<Rightarrow> gpu \<Rightarrow> gpu result" where
  "draw_triangle rd = with_command (\<lambda>cmd g. if is_quad cmd then Inl DebugBreak else draw_polygon rd cmd g)"

definition RECT_SIZES :: "u32 list" where "RECT_SIZES = [-1, 1, 8, 16]"

definition rect_texpage :: "gpu_stat \<Rightarrow> u32" where
  "rect_texpage t =
     texture_page_x_base t OR push_bit 4 (texture_page_y_base t) OR push_bit 5 (semi_transparency t)
       OR push_bit 7 (tex_page_colors t) OR push_bit 11 (of_bool (texture_page_y_base2 t))"

text \<open>A coordinate mirrored to the left of \<open>u\<close>, not below 0.\<close>

definition flipped :: "u32 \<Rightarrow> u32 \<Rightarrow> u32" where
  "flipped u n = (if sint (u + 1 - n) < 0 then 0 else u + 1 - n)"

definition rect_triangles ::
  "bool \<Rightarrow> bool \<Rightarrow> u32 \<Rightarrow> u32 \<Rightarrow> u32 \<Rightarrow> u32 \<Rightarrow> u32 \<Rightarrow> int \<Rightarrow> int \<Rightarrow> u32 \<Rightarrow> u32 \<Rightarrow> gpu \<Rightarrow> primitive \<times> primitive" where
  "rect_triangles textured transparent color flags tc u1 v1 x1 y1 sizex sizey g =
     (let corner = (\<lambda>x y u v. \<lparr>vertex_x = x, vertex_y = y, vertex_color = color, vertex_clut_page = tc,
                                vertex_flags = flags, vertex_uv = u OR push_bit 16 v\<rparr>);
          x2 = i32 (x1 + uint sizex); y2 = i32 (y1 + uint sizey);
          u2 = (if textured \<and> m_tex_x_flip g then flipped u1 sizex else u1 + sizex);
          v2 = (if textured \<and> m_tex_y_flip g then flipped v1 sizey else v1 + sizey);
          a = corner x1 y1 u1 v1; b = corner x1 y2 u1 v2; c = corner x2 y1 u2 v1; d = corner x2 y2 u2 v2;
          prim = \<lparr>prim_vertices = [a, b, c], prim_type = (if textured then TEXTURED_TRIANGLE else UNTEXTURED_OPAQUE_FLAT_TRIANGLE),
                  semi_transparent = transparent,
                  semi_transparency_type = (if transparent then semi_transparency (gstat g) else 0)\<rparr>
      in (prim, prim\<lparr>prim_vertices := [b, c, d]\<rparr>))"

definition draw_rectangle :: "renderer \<Rightarrow> u32 \<Rightarrow> gpu \<Rightarrow> gpu result" where
  "draw_rectangle rd cmd g =
     (let textured = is_textured cmd; transparent = is_semi_transparent cmd; raw = (textured \<and> is_raw_texture cmd);
          flags = vertex_flag_bits False transparent raw; fixed = RECT_SIZES ! unat (get_bits 27 2 cmd)
      in bindE (queue_deque (m_cmd_fifo g)) (\<lambda>(p, q).
         bindE (if textured then
                  bindE (queue_deque q) (\<lambda>(w, q).
                    Inr (push_bit 16 (clut_or_page w) OR rect_texpage (gstat g), attr_u w, attr_v w, q))
                else Inr (0, 0, 0, q)) (\<lambda>(tc, u1, v1, q).
         bindE (if fixed = -1 then bindE (queue_deque q) (\<lambda>(wh, q). Inr (wh AND 0xFFFF, drop_bit 16 wh AND 0xFFFF, q))
                else Inr (fixed, fixed, q)) (\<lambda>(sizex, sizey, q).
           let g = g\<lparr>m_cmd_fifo := q\<rparr> in
           if fixed = -1 \<and> (sizex > 1023 \<or> sizey > 511) then Inr g
           else
             let (t1, t2) = rect_triangles textured transparent (cmd_color cmd) flags tc u1 v1
                              (position_x p) (position_y p) sizex sizey g
             in Inr (call_renderer rd (Draw_primitive t2) (call_renderer rd (Draw_primitive t1) g))))))"

definition draw_rect :: "renderer \<Rightarrow> gpu \<Rightarrow> gpu result" where
  "draw_rect rd = with_command (draw_rectangle rd)"

text \<open>The segments of a line: each round takes a vertex off the queue.\<close>

fun line_segments ::
  "nat \<Rightarrow> renderer \<Rightarrow> u32 \<Rightarrow> int \<Rightarrow> int \<Rightarrow> u32 \<Rightarrow> gpu \<Rightarrow> gpu result" where
  "line_segments 0 rd cmd px py pcolor g = Inl OutOfFuel"
| "line_segments (Suc fuel) rd cmd px py pcolor g =
     (if queue_empty (m_cmd_fifo g) then Inr g
      else
        bindE (if is_gouraud cmd then bindE (queue_deque (m_cmd_fifo g)) (\<lambda>(c, q). Inr (c AND 0xFFFFFF, q))
               else Inr (pcolor, m_cmd_fifo g)) (\<lambda>(color, q).
        bindE (queue_deque q) (\<lambda>(p, q).
          let v0 = vertex_new\<lparr>vertex_x := px, vertex_y := py, vertex_color := pcolor\<rparr>;
              v1 = vertex_new\<lparr>vertex_x := position_x p, vertex_y := position_y p, vertex_color := color\<rparr>;
              prim = \<lparr>prim_vertices = [v0, v1], prim_type = (if is_gouraud cmd then SHADED_LINE else MONO_LINE),
                      semi_transparent = is_semi_transparent cmd,
                      semi_transparency_type = (if is_semi_transparent cmd then semi_transparency (gstat g) else 0)\<rparr>;
              g = call_renderer rd (Draw_primitive prim) (g\<lparr>m_cmd_fifo := q\<rparr>)
          in if \<not> is_polyline cmd then Inr g
             else line_segments fuel rd cmd (position_x p) (position_y p) color g)))"

definition draw_lines :: "renderer \<Rightarrow> u32 \<Rightarrow> gpu \<Rightarrow> gpu result" where
  "draw_lines rd cmd g =
     bindE (queue_deque (m_cmd_fifo g)) (\<lambda>(p, q).
       line_segments (Suc (length (arr q))) rd cmd (position_x p) (position_y p) (cmd_color cmd) (g\<lparr>m_cmd_fifo := q\<rparr>))"

definition draw_line :: "renderer \<Rightarrow> gpu \<Rightarrow> gpu result" where
  "draw_line rd = with_command (draw_lines rd)"

definition quick_fill :: "renderer \<Rightarrow> gpu \<Rightarrow> gpu result" where
  "quick_fill rd g =
     (let g = call_renderer rd Sync_textures (call_renderer rd Flush_commands g) in
      bindE (queue_deque (m_cmd_fifo g)) (\<lambda>(c, q).
      bindE (queue_deque q) (\<lambda>(top_left, q).
      bindE (queue_deque q) (\<lambda>(sz, q).
        let g = g\<lparr>m_cmd_fifo := q\<rparr>;
            w = ((sz AND 0x3FF) + 0xF) AND NOT 0xF; h = drop_bit 16 sz AND 0x1FF
        in if w = 0 \<or> h = 0 then Inr g
           else Inr (call_renderer rd (Fill_rectangle (top_left AND 0x3F0) (drop_bit 16 top_left AND 0x1FF) w h (c AND 0xFFFFFF)) g)))))"

section \<open>Image transfers\<close>

definition blit_end_x :: "vram_blit \<Rightarrow> u32" where "blit_end_x b = (source_x b + size_x b) mod VRAM_X_SIZE"
definition blit_end_y :: "vram_blit \<Rightarrow> u32" where "blit_end_y b = (source_y b + size_y b) mod VRAM_Y_SIZE"

definition blit_index :: "vram_blit \<Rightarrow> nat" where
  "blit_index b = unat (curr_y b * VRAM_X_SIZE + curr_x b)"

text \<open>One pixel further: whether a row and whether the rectangle is over, and the new position.\<close>

definition blit_step :: "vram_blit \<Rightarrow> bool \<times> bool \<times> vram_blit" where
  "blit_step b =
     (let b1 = b\<lparr>curr_x := (curr_x b + 1) mod VRAM_X_SIZE\<rparr> in
      if curr_x b1 = blit_end_x b then
        (let b2 = b1\<lparr>curr_x := source_x b, curr_y := (curr_y b + 1) mod VRAM_Y_SIZE\<rparr>
         in (True, curr_y b2 = blit_end_y b, b2))
      else (False, False, b1))"

definition put_pixel :: "nat \<Rightarrow> u16 \<Rightarrow> gpu \<Rightarrow> gpu result" where
  "put_pixel i v g =
     (if i < VRAM_HALFWORDS then Inr (g\<lparr>m_cpu_vram := (m_cpu_vram g)(i := v)\<rparr>) else Inl UndefinedBehaviour)"

definition finalize_calls :: "vram_blit \<Rightarrow> render_call list" where
  "finalize_calls b =
     (let ex = source_x b + size_x b; ey = source_y b + size_y b in
      if ex \<ge> VRAM_X_SIZE \<and> ey \<ge> VRAM_Y_SIZE then
        [Cpu_vram_blit 0 (source_y b) (ex mod VRAM_X_SIZE) (size_y b),
         Cpu_vram_blit (source_x b) 0 (size_x b) (ey mod VRAM_Y_SIZE),
         Cpu_vram_blit 0 0 (ex mod VRAM_X_SIZE) (ey mod VRAM_Y_SIZE)]
      else if ex \<ge> VRAM_X_SIZE \<or> ey \<ge> VRAM_Y_SIZE then
        (let sx = (if ex \<ge> VRAM_X_SIZE then 0 else source_x b); sy = (if ey \<ge> VRAM_Y_SIZE then 0 else source_y b)
         in [Cpu_vram_blit sx sy (ex mod VRAM_X_SIZE - sx) (ey mod VRAM_Y_SIZE - sy)])
      else [])"

definition finalize_cpu_vram_blit :: "renderer \<Rightarrow> gpu \<Rightarrow> gpu" where
  "finalize_cpu_vram_blit rd g =
     (let b = m_cpu_vram_blit g; t = gstat g in
      foldl (\<lambda>g c. call_renderer rd c g) g
        ([Prepare_blit (draw_over_mask_disable t) (set_mask t),
          Cpu_vram_blit (source_x b) (source_y b) (size_x b) (size_y b)] @ finalize_calls b @ [End_blit]))"

definition end_cpu_vram_blit :: "renderer \<Rightarrow> bool \<Rightarrow> gpu \<Rightarrow> gpu" where
  "end_cpu_vram_blit rd fin g =
     (if fin then finalize_cpu_vram_blit rd (g\<lparr>m_cmd_status := G_IDLE\<rparr>) else g)"

definition perform_cpu_vram_blit :: "renderer \<Rightarrow> u32 \<Rightarrow> gpu \<Rightarrow> gpu result" where
  "perform_cpu_vram_blit rd data g =
     (let b = m_cpu_vram_blit g; i = blit_index b; (row, fin, b') = blit_step b in
      bindE (put_pixel i (ucast data) g) (\<lambda>g.
        let g = g\<lparr>m_cpu_vram_blit := b'\<rparr> in
        if fin then Inr (end_cpu_vram_blit rd True g)
        else
          let j = (if row then blit_index b' else i + 1); (_, fin', b'') = blit_step b' in
          bindE (put_pixel j (ucast (drop_bit 16 data)) g) (\<lambda>g.
            Inr (end_cpu_vram_blit rd fin' (g\<lparr>m_cpu_vram_blit := b''\<rparr>)))))"

definition end_vram_cpu_blit :: "bool \<Rightarrow> gpu \<Rightarrow> gpu" where
  "end_vram_cpu_blit fin g = (if fin then g\<lparr>m_cmd_status := G_IDLE, m_read_status := READ_NONE\<rparr> else g)"

text \<open>Both positions are inside the memory; only the second one is checked.\<close>

definition read_vram :: "gpu \<Rightarrow> u32 \<times> gpu" where
  "read_vram g =
     (let b = m_vram_cpu_blit g; i = blit_index b; low = ucast (m_cpu_vram g i) :: u32; (row, fin, b') = blit_step b in
      if fin then (low, end_vram_cpu_blit True (g\<lparr>m_vram_cpu_blit := b'\<rparr>))
      else
        let v = (if i + 1 < VRAM_HALFWORDS then low OR push_bit 16 (ucast (m_cpu_vram g (i + 1))) else low);
            (_, fin', b'') = blit_step b'
        in (v, end_vram_cpu_blit fin' (g\<lparr>m_vram_cpu_blit := b''\<rparr>)))"

definition gpu_data :: "gpu \<Rightarrow> u32 \<times> gpu" where
  "gpu_data g =
     (case m_read_status g of
        READ_REG \<Rightarrow> (m_gpu_read_latch g, g)
      | READ_VRAM \<Rightarrow> read_vram g
      | READ_NONE \<Rightarrow> (0, g))"

text \<open>A size of 0 is the largest one.\<close>

definition blit_size :: "u32 \<Rightarrow> u32 \<Rightarrow> u32" where
  "blit_size limit n = (if n = 0 then limit else ((n - 1) AND (limit - 1)) + 1)"

definition blit_of :: "u32 \<Rightarrow> u32 \<Rightarrow> vram_blit" where
  "blit_of source sz =
     (let x = (source AND 0xFFFF) AND (VRAM_X_SIZE - 1); y = (drop_bit 16 source AND 0xFFFF) AND (VRAM_Y_SIZE - 1)
      in \<lparr>source_x = x, source_y = y, curr_x = x, curr_y = y,
          size_x = blit_size VRAM_X_SIZE (sz AND 0xFFFF), size_y = blit_size VRAM_Y_SIZE (drop_bit 16 sz AND 0xFFFF)\<rparr>)"

definition three_words :: "gpu \<Rightarrow> (u32 \<times> u32 \<times> gpu) result" where
  "three_words g =
     bindE (queue_deque (m_cmd_fifo g)) (\<lambda>(cmd, q).
     bindE (queue_deque q) (\<lambda>(source, q).
     bindE (queue_deque q) (\<lambda>(sz, q). Inr (source, sz, g\<lparr>m_cmd_fifo := q\<rparr>))))"

definition begin_cpu_vram :: "renderer \<Rightarrow> gpu \<Rightarrow> gpu result" where
  "begin_cpu_vram rd g =
     bindE (three_words g) (\<lambda>(source, sz, g).
       Inr (call_renderer rd Begin_cpu_vram_blit
              (g\<lparr>m_cpu_vram_blit := blit_of source sz, m_cmd_status := G_CPU_VRAM_BLIT\<rparr>)))"

definition begin_vram_cpu :: "renderer \<Rightarrow> gpu \<Rightarrow> gpu result" where
  "begin_vram_cpu rd g =
     bindE (three_words g) (\<lambda>(source, sz, g).
       let b = blit_of source sz in
       Inr (call_renderer rd (Vram_cpu_blit (source_x b) (source_y b) (size_x b) (size_y b))
              (g\<lparr>m_vram_cpu_blit := b, m_cmd_status := G_VRAM_CPU_BLIT, m_read_status := READ_VRAM\<rparr>)))"

definition vram_vram :: "renderer \<Rightarrow> gpu \<Rightarrow> gpu result" where
  "vram_vram rd g =
     bindE (queue_deque (m_cmd_fifo g)) (\<lambda>(cmd, q).
     bindE (queue_deque q) (\<lambda>(src, q).
     bindE (queue_deque q) (\<lambda>(dst, q).
     bindE (queue_deque q) (\<lambda>(wh, q).
       let s = blit_of src wh; d = blit_of dst wh in
       Inr (call_renderer rd (Vram_vram_blit (source_x s) (source_y s) (source_x d) (source_y d) (size_x s) (size_y s)
                                (draw_over_mask_disable (gstat g)))
              (g\<lparr>m_cmd_fifo := q, m_cmd_status := G_IDLE\<rparr>))))))"

section \<open>Commands of GP0\<close>

definition command_type :: "u32 \<Rightarrow> nat" where "command_type cmd = unat (drop_bit 29 cmd)"

definition flush :: "renderer \<Rightarrow> gpu \<Rightarrow> gpu" where "flush rd = call_renderer rd Flush_commands"

definition upd_raw :: "(raw_draw_config \<Rightarrow> raw_draw_config) \<Rightarrow> gpu \<Rightarrow> gpu" where
  "upd_raw f g = g\<lparr>m_raw_conf := f (m_raw_conf g)\<rparr>"

definition texpage :: "renderer \<Rightarrow> u32 \<Rightarrow> gpu \<Rightarrow> gpu" where
  "texpage rd cmd g =
     (let cmd = cmd AND mask 14 in
      if cmd = raw_texpage (m_raw_conf g) then g
      else
        let g = call_renderer rd Sync_textures (flush rd g);
            g = upd_raw (\<lambda>r. r\<lparr>raw_texpage := cmd\<rparr>) g;
            g = upd_gstat (\<lambda>t. t\<lparr>texture_page_x_base := cmd AND 0xF, texture_page_y_base := get_bits 4 1 cmd,
                  semi_transparency := get_bits 5 2 cmd, tex_page_colors := get_bits 7 2 cmd, dither := bit cmd 9,
                  draw_to_display := bit cmd 10, texture_page_y_base2 := bit cmd 11\<rparr>) g;
            g = g\<lparr>m_tex_x_flip := bit cmd 12, m_tex_y_flip := bit cmd 13\<rparr>
        in call_renderer rd (Uniform_dither (dither (gstat g))) g)"

definition draw_area_top_left :: "renderer \<Rightarrow> u32 \<Rightarrow> gpu \<Rightarrow> gpu" where
  "draw_area_top_left rd cmd g =
     (let cmd = cmd AND 0xFFFFF in
      if raw_draw_top_left (m_raw_conf g) = cmd then g
      else
        let g = upd_raw (\<lambda>r. r\<lparr>raw_draw_top_left := cmd\<rparr>) (flush rd g);
            g = g\<lparr>m_x_top_left := cmd AND 1023, m_y_top_left := drop_bit 10 cmd AND 511\<rparr>
        in call_renderer rd (Set_scissor_top (m_x_top_left g) (m_y_top_left g)) g)"

definition draw_area_bottom_right :: "renderer \<Rightarrow> u32 \<Rightarrow> gpu \<Rightarrow> gpu" where
  "draw_area_bottom_right rd cmd g =
     (let cmd = cmd AND 0xFFFFF in
      if raw_draw_bottom_right (m_raw_conf g) = cmd then g
      else
        let g = upd_raw (\<lambda>r. r\<lparr>raw_draw_bottom_right := cmd\<rparr>) (flush rd g);
            g = g\<lparr>m_x_bot_right := cmd AND 1023, m_y_bot_right := drop_bit 10 cmd AND 511\<rparr>
        in call_renderer rd (Set_scissor_bottom (m_x_bot_right g) (m_y_bot_right g)) g)"

definition sx11 :: "u32 \<Rightarrow> u32" where "sx11 w = word_of_int (sign_extend 10 (uint w))"

definition draw_offset :: "renderer \<Rightarrow> u32 \<Rightarrow> gpu \<Rightarrow> gpu" where
  "draw_offset rd cmd g =
     (let cmd = cmd AND 0x1FFFFF in
      if cmd = raw_draw_offset (m_raw_conf g) then g
      else
        let g = flush rd (upd_raw (\<lambda>r. r\<lparr>raw_draw_offset := cmd\<rparr>) g);
            g = g\<lparr>m_x_off := sx11 (cmd AND 0x7FF), m_y_off := sx11 (drop_bit 11 cmd AND 0x7FF)\<rparr>
        in call_renderer rd (Uniform_draw_offset (m_x_off g) (m_y_off g)) g)"

definition tex_window :: "renderer \<Rightarrow> u32 \<Rightarrow> gpu \<Rightarrow> gpu" where
  "tex_window rd cmd g =
     (let cmd = cmd AND 0xFFFFF in
      if cmd = raw_tex_window (m_raw_conf g) then g
      else
        let g = flush rd (upd_raw (\<lambda>r. r\<lparr>raw_tex_window := cmd\<rparr>) g);
            g = g\<lparr>m_tex_win := \<lparr>mask_x = cmd AND 0x1F, mask_y = drop_bit 5 cmd AND 0x1F,
                    offset_x = drop_bit 10 cmd AND 0x1F, offset_y = drop_bit 15 cmd AND 0x1F\<rparr>\<rparr>
        in call_renderer rd (Uniform_tex_window (m_tex_win g)) g)"

definition mask_setting :: "renderer \<Rightarrow> u32 \<Rightarrow> gpu \<Rightarrow> gpu" where
  "mask_setting rd cmd g =
     (let g = flush rd (upd_gstat (\<lambda>t. t\<lparr>set_mask := bit cmd 0, draw_over_mask_disable := bit cmd 1\<rparr>) g); t = gstat g
      in call_renderer rd (Set_draw_over_mask_disable (draw_over_mask_disable t))
           (call_renderer rd (Uniform_mask (set_mask t) (draw_over_mask_disable t)) g))"

definition env_command :: "renderer \<Rightarrow> u32 \<Rightarrow> gpu \<Rightarrow> gpu result" where
  "env_command rd cmd g =
     (let ty = drop_bit 24 cmd in
      if ty = 0xE1 then Inr (texpage rd cmd g)
      else if ty = 0xE2 then Inr (tex_window rd cmd g)
      else if ty = 0xE3 then Inr (draw_area_top_left rd cmd g)
      else if ty = 0xE4 then Inr (draw_area_bottom_right rd cmd g)
      else if ty = 0xE5 then Inr (draw_offset rd cmd g)
      else if ty = 0xE6 then Inr (mask_setting rd cmd g)
      else Inl DebugBreak)"

definition push_word :: "u32 \<Rightarrow> gpu \<Rightarrow> gpu result" where
  "push_word v g = bindE (queue_push v (m_cmd_fifo g)) (\<lambda>q. Inr (g\<lparr>m_cmd_fifo := q\<rparr>))"

text \<open>The command word is queued and \<open>n\<close> words are expected.\<close>

definition wait_for :: "u32 \<Rightarrow> u32 \<Rightarrow> gpu \<Rightarrow> gpu result" where
  "wait_for n cmd g =
     bindE (push_word cmd g) (\<lambda>g.
       Inr (g\<lparr>m_required_params := n, m_rem_params := n, m_cmd_status := G_WAITING_PARAMETERS\<rparr>))"

definition misc_command :: "renderer \<Rightarrow> u32 \<Rightarrow> gpu \<Rightarrow> gpu result" where
  "misc_command rd cmd g =
     (let ty = drop_bit 24 cmd in
      if ty = 0 then Inr g
      else if ty = 1 then Inr (call_renderer rd Sync_textures (flush rd g))
      else if ty = 2 then wait_for 2 cmd g
      else if ty = 3 then Inr g
      else Inl DebugBreak)"

definition polygon_params :: "u32 \<Rightarrow> u32" where
  "polygon_params cmd =
     (let n = (if is_quad cmd then 4 else 3) * (1 + of_bool (is_textured cmd) + of_bool (is_gouraud cmd))
      in if is_gouraud cmd then n - 1 else n)"

definition line_params :: "u32 \<Rightarrow> u32" where
  "line_params cmd = (if is_gouraud cmd then 3 else 2)"

definition rect_params :: "u32 \<Rightarrow> u32" where
  "rect_params cmd = 1 + of_bool (get_bits 27 2 cmd = 0) + of_bool (is_textured cmd)"

definition command_start :: "renderer \<Rightarrow> u32 \<Rightarrow> gpu \<Rightarrow> gpu result" where
  "command_start rd cmd g =
     (let g = upd_gstat (\<lambda>t. t\<lparr>recv_cmd_word := False, recv_dma := False\<rparr>) g; ty = command_type cmd in
      if ty = 0 then misc_command rd cmd g
      else if ty = 1 then wait_for (polygon_params cmd) cmd g
      else if ty = 2 then
        (if is_polyline cmd then
           bindE (push_word cmd g) (\<lambda>g.
             Inr (g\<lparr>m_cmd_status := (if is_gouraud cmd then G_POLYLINE_GOURAUD else G_POLYLINE)\<rparr>))
         else wait_for (line_params cmd) cmd g)
      else if ty = 3 then wait_for (rect_params cmd) cmd g
      else if ty = 4 then wait_for 3 cmd g
      else if ty = 5 then wait_for 2 cmd g
      else if ty = 6 then wait_for 2 cmd g
      else env_command rd cmd g)"

definition then_idle :: "gpu result \<Rightarrow> gpu result" where
  "then_idle r = bindE r (\<lambda>g. Inr (g\<lparr>m_cmd_status := G_IDLE\<rparr>))"

definition command_end :: "renderer \<Rightarrow> gpu \<Rightarrow> gpu result" where
  "command_end rd g =
     (if queue_empty (m_cmd_fifo g) then Inl DebugBreak
      else
        bindE (queue_peek (m_cmd_fifo g)) (\<lambda>cmd.
          let ty = command_type cmd in
          if ty = 0 then (if drop_bit 24 cmd \<noteq> 2 then Inl DebugBreak else then_idle (quick_fill rd g))
          else if ty = 1 then then_idle (if is_quad cmd then draw_quad rd g else draw_triangle rd g)
          else if ty = 2 then then_idle (draw_line rd g)
          else if ty = 3 then then_idle (draw_rect rd g)
          else if ty = 4 then vram_vram rd g
          else if ty = 5 then begin_cpu_vram rd g
          else if ty = 6 then begin_vram_cpu rd g
          else Inl DebugBreak))"

definition is_terminator :: "u32 \<Rightarrow> bool" where
  "is_terminator v \<longleftrightarrow> v AND 0xF000F000 = 0x50005000"

definition gp0_word :: "renderer \<Rightarrow> u32 \<Rightarrow> gpu \<Rightarrow> gpu result" where
  "gp0_word rd v g =
     (case m_cmd_status g of
        G_IDLE \<Rightarrow> if v AND 0xFF000000 = 0 then Inr g else command_start rd v g
      | G_WAITING_PARAMETERS \<Rightarrow>
          if m_rem_params g = 0 then Inl DebugBreak
          else
            bindE (push_word v (g\<lparr>m_rem_params := m_rem_params g - 1\<rparr>)) (\<lambda>g.
              if m_rem_params g = 0 then command_end rd g else Inr g)
      | G_BUSY \<Rightarrow> Inr g
      | G_CPU_VRAM_BLIT \<Rightarrow> perform_cpu_vram_blit rd v g
      | G_VRAM_CPU_BLIT \<Rightarrow> Inr g
      | G_POLYLINE \<Rightarrow> if is_terminator v then command_end rd g else push_word v g
      | G_POLYLINE_GOURAUD \<Rightarrow>
          if m_curr_size (m_cmd_fifo g) AND 1 = 0 \<and> is_terminator v then command_end rd g else push_word v g)"

section \<open>Requests and the status word\<close>

definition ready_flags :: "gpu \<Rightarrow> gpu" where
  "ready_flags g =
     (let st = m_cmd_status g in
      upd_gstat (\<lambda>t. t\<lparr>recv_dma := st \<in> {G_IDLE, G_WAITING_PARAMETERS, G_CPU_VRAM_BLIT, G_VRAM_CPU_BLIT},
        recv_cmd_word := (st = G_IDLE), send_vram_cpu := (st = G_VRAM_CPU_BLIT)\<rparr>) g)"

definition wants_data :: "gpu \<Rightarrow> bool" where
  "wants_data g =
     (case dma_direction_field (gstat g) of
        DMA_OFF \<Rightarrow> False
      | DMA_IDK \<Rightarrow> \<not> queue_full (m_cmd_fifo g)
      | CPU_GP0 \<Rightarrow> recv_dma (gstat g)
      | GPUREAD_CPU \<Rightarrow> send_vram_cpu (gstat g))"

definition update_dreq ::
  "('h, ('h, 'm) psx_gpu_scheme) gpu_env \<Rightarrow> ('h, 'm) psx_gpu_scheme \<Rightarrow> ('h, 'm) psx_gpu_scheme result" where
  "update_dreq env s =
     (let s = upd_gpu ready_flags s; old = gpu_dreq (gstat (m_gpu s));
          s = upd_gpu (\<lambda>g. upd_gstat (\<lambda>t. t\<lparr>gpu_dreq := wants_data g\<rparr>) g) s
      in bindE (if \<not> old \<and> gpu_dreq (gstat (m_gpu s)) then dreq_rising_edge (gpu_dma env) 2 s else Inr s) (\<lambda>s.
           Inr (set_dreq (gpu_dreq (gstat (m_gpu s))) 2 s)))"

definition write_gp0 ::
  "('h, ('h, 'm) psx_gpu_scheme) gpu_env \<Rightarrow> u32 \<Rightarrow> ('h, 'm) psx_gpu_scheme \<Rightarrow> ('h, 'm) psx_gpu_scheme result" where
  "write_gp0 env v s =
     (if queue_full (m_cmd_fifo (m_gpu s)) then Inr s
      else bindE (gp0_word (render env) v (m_gpu s)) (\<lambda>g. update_dreq env (upd_gpu (\<lambda>_. g) s)))"

definition dma_dir_num :: "dma_dir \<Rightarrow> u32" where
  "dma_dir_num d = (case d of DMA_OFF \<Rightarrow> 0 | DMA_IDK \<Rightarrow> 1 | CPU_GP0 \<Rightarrow> 2 | GPUREAD_CPU \<Rightarrow> 3)"

definition stat_word :: "gpu_stat \<Rightarrow> u32" where
  "stat_word t =
     (texture_page_x_base t AND 0xF) OR push_bit 4 (texture_page_y_base t AND 1)
       OR push_bit 5 (semi_transparency t) OR push_bit 7 (tex_page_colors t)
       OR push_bit 9 (of_bool (dither t)) OR push_bit 10 (of_bool (draw_to_display t))
       OR push_bit 11 (of_bool (set_mask t)) OR push_bit 12 (of_bool (draw_over_mask_disable t))
       OR push_bit 13 (of_bool (interlace_field t)) OR push_bit 14 (of_bool (flip_screen_hoz t))
       OR push_bit 15 (of_bool (texture_page_y_base2 t)) OR push_bit 16 (of_bool (hoz_res_2 t))
       OR push_bit 17 (hoz_res1 t) OR push_bit 19 (of_bool (vertical_res t)) OR push_bit 20 (of_bool (video_mode t))
       OR push_bit 21 (of_bool (disp_color_depth t)) OR push_bit 22 (of_bool (vertical_interlace t))
       OR push_bit 23 (of_bool (disp_enable t)) OR push_bit 24 (of_bool (irq1 t)) OR push_bit 25 (of_bool (gpu_dreq t))
       OR push_bit 26 (of_bool (recv_cmd_word t)) OR push_bit 27 (of_bool (send_vram_cpu t))
       OR push_bit 28 (of_bool (recv_dma t)) OR push_bit 29 (dma_dir_num (dma_direction_field t))
       OR push_bit 31 (of_bool (drawing_odd t))"

definition gpu_read_status ::
  "('h, ('h, 'm) psx_gpu_scheme) gpu_env \<Rightarrow> ('h, 'm) psx_gpu_scheme \<Rightarrow> (u32 \<times> ('h, 'm) psx_gpu_scheme) result" where
  "gpu_read_status env s =
     bindE (update_dreq env (upd_gpu (upd_gstat (\<lambda>t. if \<not> vertical_interlace t then t\<lparr>interlace_field := True\<rparr> else t)) s))
       (\<lambda>s. Inr (stat_word (gstat (m_gpu s)), s))"

definition gpu_read_port :: "('h, 'm) psx_gpu_scheme \<Rightarrow> u32 \<times> ('h, 'm) psx_gpu_scheme" where
  "gpu_read_port s = (let (v, g) = gpu_data (m_gpu s) in (v, upd_gpu (\<lambda>_. g) s))"

section \<open>Commands of GP1\<close>

definition reset_fifo :: "gpu \<Rightarrow> gpu" where
  "reset_fifo g = g\<lparr>m_cmd_fifo := queue_clear (m_cmd_fifo g), m_cmd_status := G_IDLE,
     m_required_params := 0, m_rem_params := 0\<rparr>"

definition ack_irq :: "gpu \<Rightarrow> gpu" where
  "ack_irq = upd_gstat (\<lambda>t. t\<lparr>irq1 := False\<rparr>)"

definition disp_enable_cmd :: "bool \<Rightarrow> gpu \<Rightarrow> gpu" where
  "disp_enable_cmd b g =
     upd_gstat (\<lambda>t. t\<lparr>disp_enable := b\<rparr>) (g\<lparr>m_disp_conf := (m_disp_conf g)\<lparr>display_enable := \<not> b\<rparr>\<rparr>)"

definition to_dma_dir :: "u32 \<Rightarrow> dma_dir" where
  "to_dma_dir w = (if w = 0 then DMA_OFF else if w = 1 then DMA_IDK else if w = 2 then CPU_GP0 else GPUREAD_CPU)"

definition dma_direction :: "dma_dir \<Rightarrow> gpu \<Rightarrow> gpu" where
  "dma_direction d = upd_gstat (\<lambda>t. t\<lparr>dma_direction_field := d\<rparr>)"

definition display_area_start :: "u32 \<Rightarrow> gpu \<Rightarrow> gpu" where
  "display_area_start cmd g =
     (let x = get_bits 0 10 cmd; y = get_bits 10 10 cmd
      in g\<lparr>m_disp_x_start := x, m_disp_y_start := y,
           m_disp_conf := (m_disp_conf g)\<lparr>conf_disp_x := x, conf_disp_y := y\<rparr>\<rparr>)"

definition horizontal_disp_range :: "u32 \<Rightarrow> gpu \<Rightarrow> gpu" where
  "horizontal_disp_range cmd g =
     g\<lparr>m_hoz_disp_start := get_bits 0 12 cmd, m_hoz_disp_end := get_bits 12 12 cmd\<rparr>"

definition vertical_disp_range :: "u32 \<Rightarrow> gpu \<Rightarrow> gpu" where
  "vertical_disp_range cmd g =
     g\<lparr>m_vert_disp_start := get_bits 0 10 cmd, m_vert_disp_end := get_bits 10 10 cmd\<rparr>"

definition display_mode_fields :: "u32 \<Rightarrow> gpu \<Rightarrow> gpu" where
  "display_mode_fields cmd g =
     upd_gstat (\<lambda>t. t\<lparr>hoz_res1 := get_bits 0 2 cmd, vertical_res := bit cmd 2, video_mode := bit cmd 3,
       disp_color_depth := bit cmd 4, vertical_interlace := bit cmd 5, hoz_res_2 := bit cmd 6,
       flip_screen_hoz := bit cmd 7\<rparr>) (g\<lparr>m_raw_disp_conf := cmd\<rparr>)"

definition HOZ_VALUES :: "u32 list" where "HOZ_VALUES = [256, 320, 512, 640]"
definition DOT_SELECT :: "u16 list" where "DOT_SELECT = [0, 1, 3, 4]"

definition display_mode ::
  "u32 \<Rightarrow> ('h, 'm) psx_gpu_scheme \<Rightarrow> ('h, 'm) psx_gpu_scheme result" where
  "display_mode cmd s =
     (let s = upd_gpu (display_mode_fields cmd) s; k = unat (hoz_res1 (gstat (m_gpu s))) in
      bindE (if hoz_res_2 (gstat (m_gpu s)) then set_dotclock 2 0 s
             else bindE (set_dotclock (DOT_SELECT ! k) 0 s) (\<lambda>s.
                    Inr (upd_gpu (\<lambda>g. g\<lparr>m_disp_conf := (m_disp_conf g)\<lparr>hoz_res := HOZ_VALUES ! k\<rparr>\<rparr>) s))) (\<lambda>s.
        Inr (upd_gpu (\<lambda>g. g\<lparr>m_disp_conf := (m_disp_conf g)
               \<lparr>vert_res := (if vertical_res (gstat g) then 480 else 240)\<rparr>\<rparr>) s)))"

text \<open>\<open>GpuReadInternal\<close>: the register the next reads of GPUREAD return.\<close>

definition gpu_read_internal :: "u32 \<Rightarrow> gpu \<Rightarrow> gpu" where
  "gpu_read_internal cmd g =
     (let k = cmd AND 7; r = m_raw_conf g in
      if k < 2 then g
      else
        let g = (if k = 2 then g\<lparr>m_gpu_read_latch := raw_tex_window r\<rparr>
                 else if k = 3 then g\<lparr>m_gpu_read_latch := raw_draw_top_left r\<rparr>
                 else if k = 4 then g\<lparr>m_gpu_read_latch := raw_draw_bottom_right r\<rparr>
                 else if k = 5 then g\<lparr>m_gpu_read_latch := raw_draw_offset r\<rparr>
                 else g)
        in g\<lparr>m_read_status := READ_REG\<rparr>)"

definition DISP_X_RESET :: u32 where "DISP_X_RESET = 0x200 OR push_bit 12 (0x200 + 256 * 10)"
definition DISP_Y_RESET :: u32 where "DISP_Y_RESET = 0x10 OR push_bit 10 (0x10 + 240)"

definition gpu_reset :: "('h, 'm) psx_gpu_scheme \<Rightarrow> ('h, 'm) psx_gpu_scheme result" where
  "gpu_reset s =
     display_mode 0 (upd_gpu (\<lambda>g. vertical_disp_range DISP_Y_RESET (horizontal_disp_range DISP_X_RESET
       (display_area_start 0 (dma_direction DMA_OFF (disp_enable_cmd True (ack_irq (reset_fifo g))))))) s)"

definition gp1_word :: "u32 \<Rightarrow> ('h, 'm) psx_gpu_scheme \<Rightarrow> ('h, 'm) psx_gpu_scheme result" where
  "gp1_word v s =
     (let ty = drop_bit 24 v in
      if ty = 0 then gpu_reset s
      else if ty = 1 then Inr (upd_gpu reset_fifo s)
      else if ty = 2 then Inr (upd_gpu ack_irq s)
      else if ty = 3 then Inr (upd_gpu (disp_enable_cmd (bit v 0)) s)
      else if ty = 4 then Inr (upd_gpu (dma_direction (to_dma_dir (v AND 3))) s)
      else if ty = 5 then Inr (upd_gpu (display_area_start v) s)
      else if ty = 6 then Inr (upd_gpu (horizontal_disp_range v) s)
      else if ty = 7 then Inr (upd_gpu (vertical_disp_range v) s)
      else if ty = 8 then display_mode v s
      else if ty = 0x10 then Inr (upd_gpu (gpu_read_internal v) s)
      else Inl DebugBreak)"

definition write_gp1 ::
  "('h, ('h, 'm) psx_gpu_scheme) gpu_env \<Rightarrow> u32 \<Rightarrow> ('h, 'm) psx_gpu_scheme \<Rightarrow> ('h, 'm) psx_gpu_scheme result" where
  "write_gp1 env v s = bindE (gp1_word v s) (update_dreq env)"

section \<open>The video signal\<close>

definition VBLANK_IRQ :: u32 where "VBLANK_IRQ = 1"
definition SCANLINES_FRAME_NTSC :: u32 where "SCANLINES_FRAME_NTSC = 263"
definition SCANLINES_FRAME_PAL :: u32 where "SCANLINES_FRAME_PAL = 314"
definition ACTIVE_CLOCKS :: u64 where "ACTIVE_CLOCKS = 1812"

definition scanlines_frame :: "gpu \<Rightarrow> u32" where
  "scanlines_frame g = (if m_pal g then SCANLINES_FRAME_PAL else SCANLINES_FRAME_NTSC)"

definition clocks_scanline :: "gpu \<Rightarrow> u64" where
  "clocks_scanline g = (if m_pal g then 2157 else 2171)"

definition visible_start :: "gpu \<Rightarrow> u32" where "visible_start g = (if m_pal g then 18 else 16)"
definition visible_end :: "gpu \<Rightarrow> u32" where "visible_end g = (if m_pal g then 306 else 256)"

definition schedule_video ::
  "callback \<Rightarrow> u64 \<Rightarrow> ('h, 'm) psx_gpu_scheme \<Rightarrow> ('h, 'm) psx_gpu_scheme" where
  "schedule_video cb clocks s =
     (let s = upd_gpu (\<lambda>g. g\<lparr>m_last_event_timestamp := m_last_event_timestamp g + clocks\<rparr>) s
      in snd (schedule_absolute (m_last_event_timestamp (m_gpu s)) (Some cb) 0 s))"

definition init_events :: "('h, 'm) psx_gpu_scheme \<Rightarrow> ('h, 'm) psx_gpu_scheme" where
  "init_events s =
     (let s = upd_gpu (\<lambda>g. g\<lparr>m_last_event_timestamp := ACTIVE_CLOCKS\<rparr>) s
      in snd (schedule_absolute (m_last_event_timestamp (m_gpu s)) (Some Hblank_callback) 0 s))"

definition hblank :: "('h, 'm) psx_gpu_scheme \<Rightarrow> ('h, 'm) psx_gpu_scheme result" where
  "hblank s =
     bindE (counter_hblank 0 s) (\<lambda>s. bindE (update_from_timestamp 1 s) (\<lambda>s.
       Inr (schedule_video Hblank_end_callback (clocks_scanline (m_gpu s) - ACTIVE_CLOCKS) s)))"

text \<open>A new line: the last one of the frame starts the vertical blanking, the one before the first visible one ends it.\<close>

definition new_scanline ::
  "renderer \<Rightarrow> ('h, 'm) psx_gpu_scheme \<Rightarrow> ('h, 'm) psx_gpu_scheme result" where
  "new_scanline rd s =
     (let g = m_gpu s; n = m_scanline g; t = gstat g in
      if n \<ge> scanlines_frame g then
        bindE (counter_vblank 1 (upd_gpu (\<lambda>g. g\<lparr>m_curr_vblank_count := m_curr_vblank_count g + 1, m_scanline := 0\<rparr>) s)) (\<lambda>s.
          let s = upd_gpu (\<lambda>g. (upd_gstat (\<lambda>t. t\<lparr>drawing_odd := False\<rparr>) g)\<lparr>gpu_vblank := True\<rparr>) s;
              s = (raise_interrupt VBLANK_IRQ s)\<lparr>vblank_flag := True\<rparr>
          in Inr (upd_gpu (call_renderer rd Renderer_vblank) s))
      else if visible_start g \<le> n \<and> n \<le> visible_end g then
        Inr (if vertical_interlace t \<and> \<not> vertical_res t
             then upd_gpu (upd_gstat (\<lambda>t. t\<lparr>drawing_odd := (n AND 1 \<noteq> 0)\<rparr>)) s else s)
      else if n = visible_start g - 1 then
        bindE (counter_vblank_end 1 s) (\<lambda>s.
          let s = upd_gpu (\<lambda>g. g\<lparr>gpu_vblank := False\<rparr>) s
          in Inr (if vertical_interlace t \<and> vertical_res t
                  then upd_gpu (upd_gstat (\<lambda>t. t\<lparr>drawing_odd := \<not> drawing_odd t\<rparr>)) s else s))
      else Inr s)"

definition hblank_end :: "renderer \<Rightarrow> ('h, 'm) psx_gpu_scheme \<Rightarrow> ('h, 'm) psx_gpu_scheme result" where
  "hblank_end rd s =
     bindE (counter_hblank_end 0 s) (\<lambda>s.
       bindE (new_scanline rd (upd_gpu (\<lambda>g. g\<lparr>m_scanline := m_scanline g + 1\<rparr>) s)) (\<lambda>s.
         Inr (schedule_video Hblank_callback ACTIVE_CLOCKS s)))"

definition compute_display_range :: "gpu \<Rightarrow> u32 \<times> u32 \<times> u32 \<times> u32" where
  "compute_display_range g =
     (let n = m_vert_disp_end g - m_vert_disp_start g
      in (0, m_vert_disp_start g, hoz_res (m_disp_conf g), if vertical_interlace (gstat g) then n * 2 else n))"

definition get_next_vblank_time :: "('h, 'm) psx_gpu_scheme \<Rightarrow> u64 result" where
  "get_next_vblank_time s =
     (let g = m_gpu s; rem = ucast (scanlines_frame g) - ucast (m_scanline g) - 1; now = m_curr_timestamp s in
      if now > m_last_event_timestamp g then Inl DebugBreak
      else Inr ((m_last_event_timestamp g - now) + rem * clocks_scanline g))"

end
