(* ===== verification/Spu.thy ===== *)
theory Spu
  imports Adpcm Gpu
begin

text \<open>
  The sound unit (\<open>SPU.cpp\<close>, \<open>SPUVoice.cpp\<close>, \<open>Reverb.cpp\<close>): the 24 voices with their envelopes and
  pitch counters, the sound memory with its transfers and its interrupt address, the reverberation,
  and the cycle that produces a pair of samples. The audio device is the list of the samples pushed
  to it; the copy of the samples in a file on the host is left out.
\<close>

section \<open>State\<close>

datatype adsr_phase = P_NONE | P_ATTACK | P_DECAY | P_SUSTAIN | P_RELEASE

record volume_envelope =
  env_exponential :: bool
  env_increase :: bool
  env_shift :: nat
  env_step :: int
  env_phase_negative :: bool
  adsr_cycles :: int
  env_level :: int

record volume_sweep =
  sweep_envelope :: volume_envelope
  sweep_enabled :: bool
  sweep_level :: int

record noise_gen =
  cycle_odd :: bool
  noise_timer :: int
  noise_level :: int

record spu_voice =
  m_volume_left :: u16
  m_volume_right :: u16
  m_sample_rate :: u16
  m_adpcm_start_address :: u16
  m_adsr :: u32
  m_repeat_address :: u16
  m_adsr_envelope :: volume_envelope
  m_adsr_target :: int
  m_sweep_left :: volume_sweep
  m_sweep_right :: volume_sweep
  m_is_noise :: bool
  m_enable_modulation :: bool
  m_is_on :: bool
  m_curr_adsr_phase :: adsr_phase
  m_pitch_counter :: u32
  m_noise :: noise_gen
  m_old_decode_samples :: "int \<times> int"
  m_old_out_samples :: "int list"
  m_curr_block :: adpcm_block
  m_decoded_block :: "int list"
  m_has_block :: bool
  m_voice_address :: u32
  m_endx_flag :: bool
  m_sample_left :: int
  m_sample_right :: int

record spu =
  m_mainvolume_left :: u16
  m_mainvolume_right :: u16
  m_reverb :: "u16 list"
  m_cnt :: u16
  current_spu_mode :: u16
  irq9_flag :: bool
  stat_dma_request :: bool
  stat_dma_write_req :: bool
  stat_dma_read_req :: bool
  transfer_busy :: bool
  writing_second_half :: bool
  m_pmon :: u32
  m_noise_en :: u32
  m_reverb_en :: u32
  m_cd_audio_in_vol_left :: u16
  m_cd_audio_in_vol_right :: u16
  m_ext_audio_in_vol_left :: u16
  m_ext_audio_in_vol_right :: u16
  m_transfer_control :: u16
  m_ram_transfer_address :: u16
  m_irq_address :: u16
  m_curr_ram_transfer_address :: u32
  m_fifo :: "u16 cqueue"
  m_sound_ram :: "nat \<Rightarrow> u8"
  m_fifo_transfer_event :: u64
  m_voices :: "spu_voice list"
  m_irq_happened :: bool
  m_reverb_odd_cycle :: bool
  m_curr_voice1_capture_pos :: u32
  m_curr_voice3_capture_pos :: u32
  m_reverb_buf_address :: u32
  m_fir_left :: "int list"
  m_fir_right :: "int list"
  m_audio_buffer :: "int list"
  m_curr_buffer_pos :: nat
  m_cd_samples_left :: "int list"
  m_cd_samples_right :: "int list"
  m_cd_sample_count :: nat
  m_cd_sample_pos :: nat
  ringbuf_l :: "int list"
  ringbuf_r :: "int list"
  sixstep :: nat
  audio_out :: "int list"

record 'h psx_spu = "'h psx_gpu" +
  m_spu :: spu

definition SOUND_RAM_SIZE :: u32 where "SOUND_RAM_SIZE = 0x80000"
definition NUM_VOICES :: nat where "NUM_VOICES = 24"
definition FIFO_TRANSFER_DELAY :: u64 where "FIFO_TRANSFER_DELAY = 0x300"
definition CYCLES_PER_SAMPLE :: u64 where "CYCLES_PER_SAMPLE = 768"
definition CAPTURE_BUFFER_SIZE :: u32 where "CAPTURE_BUFFER_SIZE = 1024"
definition AUDIO_BUFFER_SIZE :: nat where "AUDIO_BUFFER_SIZE = 256"
definition SPU_FIFO_SIZE :: nat where "SPU_FIFO_SIZE = 32"
definition PITCH_MAX_VALUE :: u16 where "PITCH_MAX_VALUE = 0x4000"
definition REVERB_BUFFER_END :: u32 where "REVERB_BUFFER_END = 0x7FFFE"
definition SPU_IRQ :: u32 where "SPU_IRQ = 0x200"

definition envelope_new :: volume_envelope where
  "envelope_new = \<lparr>env_exponential = False, env_increase = False, env_shift = 0, env_step = 0,
     env_phase_negative = False, adsr_cycles = 0, env_level = 0\<rparr>"

definition sweep_new :: volume_sweep where
  "sweep_new = \<lparr>sweep_envelope = envelope_new, sweep_enabled = False, sweep_level = 0\<rparr>"

definition voice_new :: spu_voice where
  "voice_new = \<lparr>m_volume_left = 0, m_volume_right = 0, m_sample_rate = 0, m_adpcm_start_address = 0, m_adsr = 0,
     m_repeat_address = 0, m_adsr_envelope = envelope_new, m_adsr_target = 0, m_sweep_left = sweep_new,
     m_sweep_right = sweep_new, m_is_noise = False, m_enable_modulation = False, m_is_on = False,
     m_curr_adsr_phase = P_NONE, m_pitch_counter = 0,
     m_noise = \<lparr>cycle_odd = False, noise_timer = 0, noise_level = 0\<rparr>, m_old_decode_samples = (0, 0),
     m_old_out_samples = [0, 0, 0],
     m_curr_block = \<lparr>block_header = 0, block_flags = 0, compressed_samples = replicate 14 0\<rparr>,
     m_decoded_block = replicate 28 0, m_has_block = False, m_voice_address = 0, m_endx_flag = True,
     m_sample_left = 0, m_sample_right = 0\<rparr>"

definition spu_new :: spu where
  "spu_new = \<lparr>m_mainvolume_left = 0, m_mainvolume_right = 0, m_reverb = replicate 35 0, m_cnt = 0,
     current_spu_mode = 0, irq9_flag = False, stat_dma_request = False, stat_dma_write_req = False,
     stat_dma_read_req = False, transfer_busy = False, writing_second_half = False, m_pmon = 0, m_noise_en = 0,
     m_reverb_en = 0, m_cd_audio_in_vol_left = 0, m_cd_audio_in_vol_right = 0, m_ext_audio_in_vol_left = 0,
     m_ext_audio_in_vol_right = 0, m_transfer_control = 0, m_ram_transfer_address = 0, m_irq_address = 0,
     m_curr_ram_transfer_address = 0, m_fifo = queue_new SPU_FIFO_SIZE 0, m_sound_ram = (\<lambda>_. 0),
     m_fifo_transfer_event = INVALID_EVENT, m_voices = replicate NUM_VOICES voice_new, m_irq_happened = False,
     m_reverb_odd_cycle = False, m_curr_voice1_capture_pos = 0, m_curr_voice3_capture_pos = 0,
     m_reverb_buf_address = 0, m_fir_left = [], m_fir_right = [], m_audio_buffer = replicate AUDIO_BUFFER_SIZE 0,
     m_curr_buffer_pos = 0, m_cd_samples_left = [], m_cd_samples_right = [], m_cd_sample_count = 0,
     m_cd_sample_pos = 0, ringbuf_l = replicate 32 0, ringbuf_r = replicate 32 0, sixstep = 6, audio_out = []\<rparr>"

definition upd_spu :: "(spu \<Rightarrow> spu) \<Rightarrow> ('h, 'm) psx_spu_scheme \<Rightarrow> ('h, 'm) psx_spu_scheme" where
  "upd_spu f s = s\<lparr>m_spu := f (m_spu s)\<rparr>"

definition voice_at :: "nat \<Rightarrow> ('h, 'm) psx_spu_scheme \<Rightarrow> spu_voice" where
  "voice_at k s = m_voices (m_spu s) ! k"

definition upd_voice :: "nat \<Rightarrow> (spu_voice \<Rightarrow> spu_voice) \<Rightarrow> ('h, 'm) psx_spu_scheme \<Rightarrow> ('h, 'm) psx_spu_scheme" where
  "upd_voice k f s = upd_spu (\<lambda>p. p\<lparr>m_voices := (m_voices p)[k := f (m_voices p ! k)]\<rparr>) s"

definition spu_enabled :: "spu \<Rightarrow> bool" where "spu_enabled p = bit (m_cnt p) 15"
definition unmute :: "spu \<Rightarrow> bool" where "unmute p = bit (m_cnt p) 14"
definition noise_freq_shift :: "spu \<Rightarrow> nat" where "noise_freq_shift p = unat (get_bits 10 4 (m_cnt p))"
definition noise_freq_step :: "spu \<Rightarrow> nat" where "noise_freq_step p = unat (get_bits 8 2 (m_cnt p))"
definition reverb_master_en :: "spu \<Rightarrow> bool" where "reverb_master_en p = bit (m_cnt p) 7"
definition irq9_enable :: "spu \<Rightarrow> bool" where "irq9_enable p = bit (m_cnt p) 6"
definition transfer_mode :: "spu \<Rightarrow> u16" where "transfer_mode p = get_bits 4 2 (m_cnt p)"
definition cd_audio_reverb :: "spu \<Rightarrow> bool" where "cd_audio_reverb p = bit (m_cnt p) 2"
definition cd_audio_en :: "spu \<Rightarrow> bool" where "cd_audio_en p = bit (m_cnt p) 0"

section \<open>Sound memory\<close>

definition check_ram_irq :: "u32 \<Rightarrow> ('h, 'm) psx_spu_scheme \<Rightarrow> ('h, 'm) psx_spu_scheme" where
  "check_ram_irq address s =
     (let p = m_spu s in
      if spu_enabled p \<and> irq9_enable p \<and> address = push_bit 3 (ucast (m_irq_address p))
      then raise_interrupt SPU_IRQ (upd_spu (\<lambda>p. p\<lparr>m_irq_happened := True\<rparr>) s)
      else s)"

definition write_ram8 :: "u8 \<Rightarrow> u32 \<Rightarrow> ('h, 'm) psx_spu_scheme \<Rightarrow> u32 \<times> ('h, 'm) psx_spu_scheme" where
  "write_ram8 v address s =
     (let a = address mod SOUND_RAM_SIZE
      in ((a + 1) mod SOUND_RAM_SIZE,
          upd_spu (\<lambda>p. p\<lparr>m_sound_ram := (m_sound_ram p)(unat a := v)\<rparr>) (check_ram_irq a s)))"

definition write_ram16 :: "u16 \<Rightarrow> u32 \<Rightarrow> ('h, 'm) psx_spu_scheme \<Rightarrow> u32 \<times> ('h, 'm) psx_spu_scheme" where
  "write_ram16 v address s =
     (let (a, s) = write_ram8 (ucast v) address s in write_ram8 (ucast (drop_bit 8 v)) a s)"

definition read_ram8 :: "u32 \<Rightarrow> ('h, 'm) psx_spu_scheme \<Rightarrow> u8 \<times> u32 \<times> ('h, 'm) psx_spu_scheme" where
  "read_ram8 address s =
     (let a = address mod SOUND_RAM_SIZE
      in (m_sound_ram (m_spu s) (unat a), (a + 1) mod SOUND_RAM_SIZE, check_ram_irq a s))"

definition read_ram16 :: "u32 \<Rightarrow> ('h, 'm) psx_spu_scheme \<Rightarrow> u16 \<times> u32 \<times> ('h, 'm) psx_spu_scheme" where
  "read_ram16 address s =
     (let (l, a, s) = read_ram8 address s; (h, a, s) = read_ram8 a s
      in (push_bit 8 (ucast h) OR ucast l, a, s))"

definition put_ram16 :: "u16 \<Rightarrow> ('h, 'm) psx_spu_scheme \<Rightarrow> ('h, 'm) psx_spu_scheme" where
  "put_ram16 v s =
     (let (a, s) = write_ram16 v (m_curr_ram_transfer_address (m_spu s)) s
      in upd_spu (\<lambda>p. p\<lparr>m_curr_ram_transfer_address := a\<rparr>) s)"

definition transfer_type :: "spu \<Rightarrow> u16" where "transfer_type p = get_bits 1 3 (m_transfer_control p)"

text \<open>The words \<open>WriteSoundRam\<close> writes for the \<open>n\<close> first words of a buffer, by the type of transfer.\<close>

definition transfer_words :: "u16 \<Rightarrow> nat \<Rightarrow> u16 list \<Rightarrow> u16 list" where
  "transfer_words ty n buf =
     (if ty = 2 then map (\<lambda>i. buf ! i) [0..<n]
      else if ty = 3 then concat (map (\<lambda>j. replicate 2 (buf ! (2 * j))) [0..<(n + 1) div 2])
      else if ty = 4 then concat (map (\<lambda>j. replicate 4 (buf ! (4 * j))) [0..<(n + 3) div 4])
      else if ty = 5 then concat (map (\<lambda>j. replicate 8 (buf ! (8 * j + 7))) [0..<n div 8])
      else replicate n (buf ! (n - 1)))"

definition write_sound_ram :: "nat \<Rightarrow> u16 list \<Rightarrow> ('h, 'm) psx_spu_scheme \<Rightarrow> ('h, 'm) psx_spu_scheme" where
  "write_sound_ram n buf s =
     foldl (\<lambda>s v. put_ram16 v s) s (transfer_words (transfer_type (m_spu s)) n buf)"

definition fifo_transfer_complete :: "('h, 'm) psx_spu_scheme \<Rightarrow> ('h, 'm) psx_spu_scheme" where
  "fifo_transfer_complete s =
     (let s = upd_spu (\<lambda>p. p\<lparr>m_fifo_transfer_event := INVALID_EVENT\<rparr>) s; q = m_fifo (m_spu s);
          s = write_sound_ram (unat (m_curr_size q)) (arr q) s
      in upd_spu (\<lambda>p. p\<lparr>m_fifo := queue_clear (m_fifo p)\<rparr>) s)"

definition spu_push :: "u16 \<Rightarrow> ('h, 'm) psx_spu_scheme \<Rightarrow> ('h, 'm) psx_spu_scheme result" where
  "spu_push v s = bindE (queue_push v (m_fifo (m_spu s))) (\<lambda>q. Inr (upd_spu (\<lambda>p. p\<lparr>m_fifo := q\<rparr>) s))"

definition spu_dma_in :: "u32 \<Rightarrow> ('h, 'm) psx_spu_scheme \<Rightarrow> ('h, 'm) psx_spu_scheme result" where
  "spu_dma_in v s =
     bindE (if queue_full (m_fifo (m_spu s)) then Inr s
            else bindE (spu_push (ucast v) s) (spu_push (ucast (drop_bit 16 v)))) (\<lambda>s.
       Inr (if queue_full (m_fifo (m_spu s)) then fifo_transfer_complete s else s))"

definition spu_dma_out :: "('h, 'm) psx_spu_scheme \<Rightarrow> (u32 \<times> ('h, 'm) psx_spu_scheme) result" where
  "spu_dma_out s = Inr (0, s)"

section \<open>Envelopes\<close>

definition envelope_reset :: "bool \<Rightarrow> bool \<Rightarrow> nat \<Rightarrow> int \<Rightarrow> bool \<Rightarrow> volume_envelope \<Rightarrow> volume_envelope" where
  "envelope_reset exponential increase shift step negative e =
     e\<lparr>env_exponential := exponential, env_increase := increase, env_shift := shift, env_step := step,
       env_phase_negative := negative, adsr_cycles := 0\<rparr>"

definition get_step :: "volume_envelope \<Rightarrow> int" where
  "get_step e = (if env_increase e then 7 - env_step e else - 8 + env_step e)"

definition envelope_step :: "volume_envelope \<Rightarrow> bool \<times> volume_envelope" where
  "envelope_step e =
     (let e = (if adsr_cycles e > 0 then e\<lparr>adsr_cycles := adsr_cycles e - 1\<rparr> else e);
          cycles = 2 ^ (env_shift e - 11); step = get_step e * 2 ^ (11 - env_shift e);
          cycles = (if env_exponential e \<and> env_increase e \<and> env_level e > 0x6000 then cycles * 4 else cycles);
          step = (if env_exponential e \<and> \<not> env_increase e then drop_bit 15 (step * env_level e) else step);
          e = (if adsr_cycles e = 0
               then e\<lparr>adsr_cycles := cycles, env_level := clamp (env_level e + step) 0 0x7FFF\<rparr> else e)
      in (if env_increase e then env_level e \<ge> MAX_VOLUME else env_level e \<le> 0, e))"

text \<open>The volume register: bit 15 asks for a sweep, otherwise the lower bits are half the volume.\<close>

definition sweep_reset :: "u16 \<Rightarrow> volume_sweep \<Rightarrow> volume_sweep" where
  "sweep_reset vol w =
     (if bit vol 15 then
        w\<lparr>sweep_enabled := True,
          sweep_envelope := envelope_reset (bit vol 14) (\<not> bit vol 13) (unat (get_bits 2 5 vol)) (uint (get_bits 0 2 vol))
            (bit vol 12) (sweep_envelope w)\<rparr>
      else w\<lparr>sweep_enabled := False, sweep_level := i16 (2 * sint vol)\<rparr>)"

definition sweep_step :: "volume_sweep \<Rightarrow> volume_sweep" where
  "sweep_step w =
     (if \<not> sweep_enabled w then w
      else (let (b, e) = envelope_step (sweep_envelope w)
            in w\<lparr>sweep_enabled := b, sweep_envelope := e, sweep_level := env_level e\<rparr>))"

definition reset_adsr_phase :: "spu_voice \<Rightarrow> spu_voice" where
  "reset_adsr_phase v =
     (let a = m_adsr v;
          start = (\<lambda>target exponential increase shift step.
            v\<lparr>m_adsr_target := target,
              m_adsr_envelope := envelope_reset exponential increase shift step False (m_adsr_envelope v)\<rparr>)
      in case m_curr_adsr_phase v of
           P_NONE \<Rightarrow> start 0 False False 0 0
         | P_ATTACK \<Rightarrow> start MAX_VOLUME (bit a 15) True (unat (get_bits 10 5 a)) (uint (get_bits 8 2 a))
         | P_DECAY \<Rightarrow> start (min ((uint (get_bits 0 4 a) + 1) * 0x800) MAX_VOLUME) True False (unat (get_bits 4 4 a)) 0
         | P_SUSTAIN \<Rightarrow> start (- 1) (bit a 31) (\<not> bit a 30) (unat (get_bits 24 5 a)) (uint (get_bits 22 2 a))
         | P_RELEASE \<Rightarrow> start 0 (bit a 21) False (unat (get_bits 16 5 a)) 0)"

definition next_adsr_phase :: "adsr_phase \<Rightarrow> adsr_phase" where
  "next_adsr_phase p =
     (case p of P_NONE \<Rightarrow> P_NONE | P_ATTACK \<Rightarrow> P_DECAY | P_DECAY \<Rightarrow> P_SUSTAIN | P_SUSTAIN \<Rightarrow> P_SUSTAIN | P_RELEASE \<Rightarrow> P_NONE)"

definition start_adsr_phase :: "adsr_phase \<Rightarrow> spu_voice \<Rightarrow> spu_voice" where
  "start_adsr_phase p v =
     (if p = P_NONE then v\<lparr>m_curr_adsr_phase := p, m_is_on := False, m_has_block := False\<rparr>
      else reset_adsr_phase (v\<lparr>m_curr_adsr_phase := p\<rparr>))"

definition step_adsr :: "spu_voice \<Rightarrow> spu_voice" where
  "step_adsr v =
     (let v = v\<lparr>m_adsr_envelope := snd (envelope_step (m_adsr_envelope v))\<rparr>; e = m_adsr_envelope v in
      if m_curr_adsr_phase v \<noteq> P_SUSTAIN \<and>
         (if \<not> env_increase e then env_level e \<le> m_adsr_target v else env_level e \<ge> m_adsr_target v)
      then start_adsr_phase (next_adsr_phase (m_curr_adsr_phase v)) v
      else v)"

section \<open>Voices\<close>

definition set_vol_left :: "u16 \<Rightarrow> spu_voice \<Rightarrow> spu_voice" where
  "set_vol_left vol v = v\<lparr>m_volume_left := vol, m_sweep_left := sweep_reset vol (m_sweep_left v)\<rparr>"

definition set_vol_right :: "u16 \<Rightarrow> spu_voice \<Rightarrow> spu_voice" where
  "set_vol_right vol v = v\<lparr>m_volume_right := vol, m_sweep_right := sweep_reset vol (m_sweep_right v)\<rparr>"

definition set_pitch :: "u16 \<Rightarrow> spu_voice \<Rightarrow> spu_voice" where
  "set_pitch p v = v\<lparr>m_sample_rate := min p PITCH_MAX_VALUE\<rparr>"

definition set_adsr_low :: "u16 \<Rightarrow> spu_voice \<Rightarrow> spu_voice" where
  "set_adsr_low w v = v\<lparr>m_adsr := put_bits 0 16 (ucast w) (m_adsr v)\<rparr>"

definition set_adsr_high :: "u16 \<Rightarrow> spu_voice \<Rightarrow> spu_voice" where
  "set_adsr_high w v = reset_adsr_phase (v\<lparr>m_adsr := put_bits 16 16 (ucast w) (m_adsr v)\<rparr>)"

definition key_on :: "spu_voice \<Rightarrow> spu_voice" where
  "key_on v =
     (let v = v\<lparr>m_adsr_envelope := (m_adsr_envelope v)\<lparr>env_level := 0\<rparr>,
                m_voice_address := push_bit 3 (ucast (m_adpcm_start_address v)), m_is_on := True\<rparr>;
          v = start_adsr_phase P_ATTACK v
      in v\<lparr>m_has_block := False, m_pitch_counter := 0, m_decoded_block := replicate 28 0,
           m_old_decode_samples := (0, 0), m_old_out_samples := [0, 0, 0], m_endx_flag := False\<rparr>)"

definition key_off :: "spu_voice \<Rightarrow> spu_voice" where
  "key_off v = start_adsr_phase P_RELEASE v"

text \<open>Some of the voices from \<open>lo\<close> on, as the bits of a register say.\<close>

definition for_voices :: "nat \<Rightarrow> nat \<Rightarrow> u16 \<Rightarrow> (spu_voice \<Rightarrow> spu_voice) \<Rightarrow> ('h, 'm) psx_spu_scheme \<Rightarrow> ('h, 'm) psx_spu_scheme" where
  "for_voices first n w f s = foldl (\<lambda>s i. if bit w i then upd_voice (first + i) f s else s) s [0..<n]"

definition sample_index :: "u32 \<Rightarrow> nat" where "sample_index c = unat (get_bits 12 5 c)"
definition gauss_index :: "u32 \<Rightarrow> nat" where "gauss_index c = unat (get_bits 4 8 c)"

text \<open>The step of the pitch counter; a modulated voice takes the last sample of the voice before it.\<close>

definition pitch_step :: "nat \<Rightarrow> ('h, 'm) psx_spu_scheme \<Rightarrow> u16" where
  "pitch_step k s =
     (let v = voice_at k s; step = m_sample_rate v;
          step = (if m_enable_modulation v \<and> k > 0 then
                    (let factor = (word_of_int (m_old_out_samples (voice_at (k - 1) s) ! 2 + 0x8000) :: u16)
                     in word_of_int (drop_bit 15 (i32 (sint step * uint factor))))
                  else step)
      in if step \<ge> PITCH_MAX_VALUE - 1 then PITCH_MAX_VALUE else step)"

definition advance_counter :: "u16 \<Rightarrow> u32 \<Rightarrow> bool \<times> u32" where
  "advance_counter step c =
     (let c = c + ucast step in
      if sample_index c \<ge> 28 then (True, put_bits 12 5 (of_nat (sample_index c - 28)) c) else (False, c))"

definition noise_parity :: "int \<Rightarrow> int" where
  "noise_parity n = of_bool (bit n 15 \<noteq> (bit n 12 \<noteq> (bit n 11 \<noteq> (\<not> bit n 10))))"

definition calculate_noise :: "nat \<Rightarrow> nat \<Rightarrow> noise_gen \<Rightarrow> noise_gen" where
  "calculate_noise step shift n =
     (let was_odd = cycle_odd n; n = n\<lparr>cycle_odd := \<not> was_odd\<rparr> in
      if \<not> was_odd then n
      else
        let t = noise_timer n - int step; period = 0x20000 div 2 ^ shift in
        if t < 0 then
          n\<lparr>noise_level := i16 (noise_level n * 2 + noise_parity (noise_level n)),
            noise_timer := (if t + period < 0 then t + period + period else t + period)\<rparr>
        else n\<lparr>noise_timer := t\<rparr>)"

fun read_bytes :: "nat \<Rightarrow> u32 \<Rightarrow> ('h, 'm) psx_spu_scheme \<Rightarrow> u8 list \<times> u32 \<times> ('h, 'm) psx_spu_scheme" where
  "read_bytes 0 address s = ([], address, s)"
| "read_bytes (Suc n) address s =
     (let (b, a, s) = read_ram8 address s; (bs, a, s) = read_bytes n a s in (b # bs, a, s))"

text \<open>The flags of a block: bit 2 marks the start of the loop, bit 0 its end and bit 1 that it is repeated.\<close>

definition end_of_block :: "u32 \<Rightarrow> spu_voice \<Rightarrow> spu_voice" where
  "end_of_block start v =
     (let fl = block_flags (m_curr_block v);
          v = (if bit fl 2 then v\<lparr>m_repeat_address := ucast (drop_bit 3 start)\<rparr> else v);
          v = (if bit fl 0 then
                 (let v = v\<lparr>m_voice_address := push_bit 3 (ucast (m_repeat_address v))\<rparr>;
                      v = (if \<not> bit fl 1
                           then start_adsr_phase P_RELEASE (v\<lparr>m_adsr_envelope := (m_adsr_envelope v)\<lparr>env_level := 0\<rparr>\<rparr>)
                           else v)
                  in v\<lparr>m_endx_flag := True\<rparr>)
               else v)
      in v\<lparr>m_has_block := True\<rparr>)"

definition read_next_block :: "nat \<Rightarrow> ('h, 'm) psx_spu_scheme \<Rightarrow> ('h, 'm) psx_spu_scheme" where
  "read_next_block k s =
     (let start = m_voice_address (voice_at k s); (raw, a, s) = read_bytes 16 start s;
          b = \<lparr>block_header = raw ! 0, block_flags = raw ! 1, compressed_samples = drop 2 raw\<rparr>;
          v = voice_at k s; (samples, olds) = decode_adpcm_block b (fst (m_old_decode_samples v)) (snd (m_old_decode_samples v))
      in upd_voice k (\<lambda>v. end_of_block start (v\<lparr>m_voice_address := a, m_curr_block := b, m_decoded_block := samples,
           m_old_decode_samples := olds\<rparr>)) s)"

definition push_out :: "int \<Rightarrow> spu_voice \<Rightarrow> spu_voice" where
  "push_out x v = v\<lparr>m_old_out_samples := [m_old_out_samples v ! 1, m_old_out_samples v ! 2, x]\<rparr>"

text \<open>The sample before the volumes: noise, or the next one of the block.\<close>

definition voice_sample :: "nat \<Rightarrow> ('h, 'm) psx_spu_scheme \<Rightarrow> int \<times> ('h, 'm) psx_spu_scheme" where
  "voice_sample k s =
     (let v = voice_at k s; p = m_spu s in
      if m_is_noise v then
        (let n = calculate_noise (noise_freq_step p) (noise_freq_shift p) (m_noise v)
         in (noise_level n, upd_voice k (\<lambda>v. v\<lparr>m_noise := n\<rparr>) s))
      else
        let x = m_decoded_block v ! sample_index (m_pitch_counter v);
            y = interpolate_samples (m_old_out_samples v) x (gauss_index (m_pitch_counter v));
            s = upd_voice k (push_out x) s;
            (used, c) = advance_counter (pitch_step k s) (m_pitch_counter v)
        in (y, upd_voice k (\<lambda>v. v\<lparr>m_pitch_counter := c, m_has_block := (m_has_block v \<and> \<not> used)\<rparr>) s))"

definition voice_step :: "nat \<Rightarrow> ('h, 'm) psx_spu_scheme \<Rightarrow> (int \<times> int) \<times> ('h, 'm) psx_spu_scheme" where
  "voice_step k s =
     (if m_curr_adsr_phase (voice_at k s) = P_NONE then ((0, 0), upd_voice k (push_out 0) s)
      else
        let s = (if \<not> m_has_block (voice_at k s) \<and> \<not> m_is_noise (voice_at k s) then read_next_block k s else s);
            s = upd_voice k (\<lambda>v. let v = step_adsr v
                   in v\<lparr>m_sweep_left := sweep_step (m_sweep_left v), m_sweep_right := sweep_step (m_sweep_right v)\<rparr>) s;
            (x, s) = voice_sample k s; v = voice_at k s;
            x = drop_bit 15 (x * env_level (m_adsr_envelope v));
            (l, r) = (if m_curr_adsr_phase v = P_NONE then (0, 0)
                      else (i16 (drop_bit 15 (x * sweep_level (m_sweep_left v))), i16 (drop_bit 15 (x * sweep_level (m_sweep_right v)))))
        in ((l, r), upd_voice k (\<lambda>v. v\<lparr>m_sample_left := l, m_sample_right := r\<rparr>) s))"

section \<open>Reverberation\<close>

text \<open>Volumes are signed registers, addresses registers times eight.\<close>

definition rev_vol :: "nat \<Rightarrow> spu \<Rightarrow> int" where "rev_vol i p = sint (m_reverb p ! i)"
definition rev_add :: "nat \<Rightarrow> spu \<Rightarrow> u32" where "rev_add i p = push_bit 3 (ucast (m_reverb p ! i))"
definition rev_off :: "nat \<Rightarrow> spu \<Rightarrow> u32" where "rev_off i p = push_bit 3 (scast (m_reverb p ! i))"

definition mult :: "int \<Rightarrow> int \<Rightarrow> int" where "mult a b = drop_bit 15 (i32 (a * b))"

definition reverb_address :: "u32 \<Rightarrow> spu \<Rightarrow> u32" where
  "reverb_address offset p =
     (let a = m_reverb_buf_address p + offset; mbase = rev_add 2 p in
      if a < mbase then REVERB_BUFFER_END - (mbase - a)
      else if a > REVERB_BUFFER_END then mbase + (a - REVERB_BUFFER_END)
      else a)"

definition reverb_read :: "u32 \<Rightarrow> ('h, 'm) psx_spu_scheme \<Rightarrow> int \<times> ('h, 'm) psx_spu_scheme" where
  "reverb_read offset s =
     (let (w, _, s) = read_ram16 (reverb_address offset (m_spu s)) s in (sint w, s))"

definition reverb_write :: "int \<Rightarrow> u32 \<Rightarrow> ('h, 'm) psx_spu_scheme \<Rightarrow> ('h, 'm) psx_spu_scheme" where
  "reverb_write v offset s =
     (if \<not> reverb_master_en (m_spu s) then s
      else snd (write_ram16 (word_of_int (clamp16 v)) (reverb_address offset (m_spu s)) s))"

text \<open>A reflection, a comb and an all-pass stage; the numbers are places in the register array.\<close>

definition reflect :: "int \<Rightarrow> nat \<Rightarrow> nat \<Rightarrow> ('h, 'm) psx_spu_scheme \<Rightarrow> ('h, 'm) psx_spu_scheme" where
  "reflect x src dst s =
     (let p = m_spu s; (a, s) = reverb_read (rev_add src p) s; (b, s) = reverb_read (rev_add dst p - 2) s
      in reverb_write (mult (x + mult a (rev_vol 10 p) - b) (rev_vol 5 p) + b) (rev_add dst p) s)"

definition comb :: "nat list \<Rightarrow> ('h, 'm) psx_spu_scheme \<Rightarrow> int \<times> ('h, 'm) psx_spu_scheme" where
  "comb adds s =
     foldl (\<lambda>(x, s) (vol, i). let (a, s') = reverb_read (rev_add i (m_spu s)) s in (x + mult (rev_vol vol (m_spu s)) a, s'))
       (0, s) (zip [6, 7, 8, 9] adds)"

definition all_pass :: "nat \<Rightarrow> nat \<Rightarrow> nat \<Rightarrow> int \<Rightarrow> ('h, 'm) psx_spu_scheme \<Rightarrow> int \<times> ('h, 'm) psx_spu_scheme" where
  "all_pass vol off i x s =
     (let p = m_spu s; at = rev_add i p - rev_off off p; (a, s) = reverb_read at s;
          x = x - mult (rev_vol vol p) a;
          s = reverb_write x (rev_add i p) s; (b, s) = reverb_read at s
      in (mult x (rev_vol vol p) + b, s))"

definition do_reverb :: "int \<Rightarrow> int \<Rightarrow> ('h, 'm) psx_spu_scheme \<Rightarrow> (int \<times> int) \<times> ('h, 'm) psx_spu_scheme" where
  "do_reverb l r s =
     (let was_odd = m_reverb_odd_cycle (m_spu s); s = upd_spu (\<lambda>p. p\<lparr>m_reverb_odd_cycle := \<not> was_odd\<rparr>) s in
      if was_odd then ((0, 0), s)
      else
        let p = m_spu s; lin = mult (rev_vol 33 p) l; rin = mult (rev_vol 34 p) r;
            s = (if reverb_master_en p
                 then reflect rin 27 22 (reflect lin 28 21 (reflect rin 20 14 (reflect lin 19 13 s))) else s);
            (lout, s) = comb [15, 17, 23, 25] s; (rout, s) = comb [16, 18, 24, 26] s;
            (lout, s) = all_pass 11 3 29 lout s; (rout, s) = all_pass 11 3 30 rout s;
            (lout, s) = all_pass 12 4 31 lout s; (rout, s) = all_pass 12 4 32 rout s;
            lout = mult lout (rev_vol 0 p); rout = mult rout (rev_vol 1 p);
            s = upd_spu (\<lambda>p. p\<lparr>m_reverb_buf_address := max (rev_add 2 p) ((m_reverb_buf_address p + 2) AND REVERB_BUFFER_END),
                  m_fir_left := fir_push lout (m_fir_left p), m_fir_right := fir_push rout (m_fir_right p)\<rparr>) s
        in ((fir_apply (m_fir_left (m_spu s)), fir_apply (m_fir_right (m_spu s))), s))"

section \<open>Samples\<close>

definition add16 :: "int \<Rightarrow> int \<Rightarrow> int" where "add16 a b = clamp16 (a + b)"

text \<open>The voices in their order: what is heard, and what goes to the reverberation.\<close>

fun mix_voices :: "nat list \<Rightarrow> (int \<times> int) \<times> (int \<times> int) \<Rightarrow> ('h, 'm) psx_spu_scheme \<Rightarrow>
    ((int \<times> int) \<times> (int \<times> int)) \<times> ('h, 'm) psx_spu_scheme" where
  "mix_voices [] acc s = (acc, s)"
| "mix_voices (k # ks) acc s =
     (let ((l, r), s) = voice_step k s; ((sl, sr), (rl, rr)) = acc in
      mix_voices ks ((add16 sl l, add16 sr r),
        if bit (m_reverb_en (m_spu s)) k then (add16 rl l, add16 rr r) else (rl, rr)) s)"

definition add_cd_audio :: "(int \<times> int) \<times> (int \<times> int) \<Rightarrow> spu \<Rightarrow> ((int \<times> int) \<times> (int \<times> int)) \<times> spu" where
  "add_cd_audio acc p =
     (let ((sl, sr), (rl, rr)) = acc in
      if \<not> cd_audio_en p then (acc, p\<lparr>m_cd_sample_pos := 0, m_cd_sample_count := 0\<rparr>)
      else if \<not> m_cd_sample_pos p < m_cd_sample_count p then (acc, p)
      else
        let l = i16 (drop_bit 15 (m_cd_samples_left p ! m_cd_sample_pos p * sint (m_cd_audio_in_vol_left p)));
            r = i16 (drop_bit 15 (m_cd_samples_right p ! m_cd_sample_pos p * sint (m_cd_audio_in_vol_right p)))
        in (((add16 sl l, add16 sr r), if cd_audio_reverb p then (add16 rl l, add16 rr r) else (rl, rr)),
            p\<lparr>m_cd_sample_pos := m_cd_sample_pos p + 1\<rparr>))"

definition main_volume :: "int \<Rightarrow> u16 \<Rightarrow> int" where
  "main_volume x vol = clamp16 (drop_bit 15 (i32 (x * sint vol * 2)))"

definition VOICE_1_CAPTURE :: u32 where "VOICE_1_CAPTURE = 0x800"
definition VOICE_3_CAPTURE :: u32 where "VOICE_3_CAPTURE = 0xC00"

definition write_capture :: "u32 \<Rightarrow> u32 \<Rightarrow> int \<Rightarrow> ('h, 'm) psx_spu_scheme \<Rightarrow> u32 \<times> ('h, 'm) psx_spu_scheme" where
  "write_capture pos base v s = ((pos + 2) mod CAPTURE_BUFFER_SIZE, snd (write_ram16 (word_of_int v) (base + pos) s))"

text \<open>A pair of samples; a full buffer goes to the audio device.\<close>

definition push_samples :: "int \<Rightarrow> int \<Rightarrow> spu \<Rightarrow> spu" where
  "push_samples l r p =
     (let i = m_curr_buffer_pos p; p = p\<lparr>m_audio_buffer := (m_audio_buffer p)[i := l, Suc i := r], m_curr_buffer_pos := i + 2\<rparr> in
      if m_curr_buffer_pos p \<ge> AUDIO_BUFFER_SIZE
      then p\<lparr>audio_out := audio_out p @ m_audio_buffer p, m_curr_buffer_pos := 0\<rparr> else p)"

definition for_all_voices :: "(nat \<Rightarrow> spu_voice \<Rightarrow> spu_voice) \<Rightarrow> spu \<Rightarrow> spu" where
  "for_all_voices f p = p\<lparr>m_voices := map (\<lambda>(i, v). f i v) (enumerate 0 (m_voices p))\<rparr>"

definition is_channel_modulated :: "nat \<Rightarrow> spu \<Rightarrow> bool" where
  "is_channel_modulated k p \<longleftrightarrow> k \<noteq> 0 \<and> bit (m_pmon p) k"

definition sample_cycle :: "('h, 'm) psx_spu_scheme \<Rightarrow> ('h, 'm) psx_spu_scheme" where
  "sample_cycle s =
     (if \<not> spu_enabled (m_spu s) then snd (schedule CYCLES_PER_SAMPLE (Some Sample_callback) 0 s)
      else
        let s = upd_spu (\<lambda>p. for_all_voices (\<lambda>k v. v\<lparr>m_is_noise := bit (m_noise_en p) k\<rparr>) p) s;
            s = upd_spu (\<lambda>p. for_all_voices (\<lambda>k v. v\<lparr>m_enable_modulation := is_channel_modulated k p\<rparr>) p) s;
            (acc, s) = mix_voices [0..<NUM_VOICES] ((0, 0), (0, 0)) s;
            (acc, p) = add_cd_audio acc (m_spu s); s = s\<lparr>m_spu := p\<rparr>;
            ((l, r), s) = do_reverb (fst (snd acc)) (snd (snd acc)) s;
            l = add16 (fst (fst acc)) l; r = add16 (snd (fst acc)) r;
            (l, r) = (if unmute (m_spu s) then (l, r) else (0, 0));
            l = main_volume l (m_mainvolume_left (m_spu s)); r = main_volume r (m_mainvolume_right (m_spu s));
            (a, s) = write_capture (m_curr_voice1_capture_pos (m_spu s)) VOICE_1_CAPTURE (m_old_out_samples (voice_at 0 s) ! 2) s;
            s = upd_spu (\<lambda>p. p\<lparr>m_curr_voice1_capture_pos := a\<rparr>) s;
            (a, s) = write_capture (m_curr_voice3_capture_pos (m_spu s)) VOICE_3_CAPTURE (m_old_out_samples (voice_at 2 s) ! 2) s;
            s = upd_spu (\<lambda>p. push_samples l r (p\<lparr>m_curr_voice3_capture_pos := a\<rparr>)) s;
            t = m_curr_timestamp s + CYCLES_PER_SAMPLE
        in snd (schedule_absolute (t - t mod CYCLES_PER_SAMPLE) (Some Sample_callback) 0 s))"

definition setup_events :: "('h, 'm) psx_spu_scheme \<Rightarrow> ('h, 'm) psx_spu_scheme" where
  "setup_events s = snd (schedule CYCLES_PER_SAMPLE (Some Sample_callback) 0 s)"

text \<open>A sector of the drive: decoded, brought to 44100 samples per second and mixed.\<close>

definition sized :: "int list \<Rightarrow> int list" where
  "sized xs = (if xs = [] then replicate RESAMPLED_TOTAL 0 else xs)"

definition overwrite :: "int list \<Rightarrow> int list \<Rightarrow> int list" where
  "overwrite ys xs = ys @ drop (length ys) xs"

definition store_resampled :: "nat \<Rightarrow> int list \<Rightarrow> int list \<Rightarrow> u8 \<Rightarrow> u8 \<Rightarrow> u8 \<Rightarrow> u8 \<Rightarrow> spu \<Rightarrow> spu" where
  "store_resampled n ls rs ll rr lr rl p =
     (let (six, ring_l, out_l) = resample 0 (sixstep p) (ringbuf_l p) (take n ls);
          (_, ring_r, out_r) = resample 0 (sixstep p) (ringbuf_r p) (take n rs);
          left = overwrite out_l (sized (m_cd_samples_left p)); right = overwrite out_r (sized (m_cd_samples_right p));
          count = resampled_count n;
          pairs = take count (zip left right)
      in p\<lparr>ringbuf_l := ring_l, ringbuf_r := ring_r, sixstep := six, m_cd_sample_count := count,
           m_cd_samples_left := overwrite (map (\<lambda>(a, b). mixed a ll b rl) pairs) left,
           m_cd_samples_right := overwrite (map (\<lambda>(a, b). mixed b rr a lr) pairs) right\<rparr>)"

definition decode_store_xa_adpcm ::
  "xa_coding \<Rightarrow> u8 list \<Rightarrow> bool \<Rightarrow> u8 \<Rightarrow> u8 \<Rightarrow> u8 \<Rightarrow> u8 \<Rightarrow> spu \<Rightarrow> spu result" where
  "decode_store_xa_adpcm c sector mute ll rr lr rl p =
     (if \<not> cd_audio_en p then Inr p
      else
        bindE (decode_xa_sector c sector) (\<lambda>(n, ls, rs).
          let p = p\<lparr>m_cd_sample_pos := 0\<rparr> in
          if mute \<or> ll = 0 \<and> rr = 0 \<and> lr = 0 \<and> rl = 0 then
            (let z = replicate (resampled_count n) 0
             in Inr (p\<lparr>m_cd_sample_count := resampled_count n,
                       m_cd_samples_left := overwrite z (sized (m_cd_samples_left p)),
                       m_cd_samples_right := overwrite z (sized (m_cd_samples_right p))\<rparr>))
          else Inr (store_resampled n ls rs ll rr lr rl p)))"

section \<open>Registers\<close>

definition update_stat :: "spu \<Rightarrow> spu" where
  "update_stat p =
     (let busy = m_fifo_transfer_event p \<noteq> INVALID_EVENT;
          rd = (\<not> busy \<and> transfer_mode p = 3); wr = (\<not> busy \<and> transfer_mode p = 2)
      in p\<lparr>writing_second_half := (m_curr_voice1_capture_pos p \<ge> CAPTURE_BUFFER_SIZE div 2), transfer_busy := busy,
           irq9_flag := m_irq_happened p, stat_dma_read_req := rd, stat_dma_write_req := wr, stat_dma_request := (rd \<or> wr)\<rparr>)"

definition spu_stat_word :: "spu \<Rightarrow> u16" where
  "spu_stat_word p =
     (current_spu_mode p AND 0x3F) OR push_bit 6 (of_bool (irq9_flag p)) OR push_bit 7 (of_bool (stat_dma_request p))
       OR push_bit 8 (of_bool (stat_dma_write_req p)) OR push_bit 9 (of_bool (stat_dma_read_req p))
       OR push_bit 10 (of_bool (transfer_busy p)) OR push_bit 11 (of_bool (writing_second_half p))"

definition is_voice_reg :: "u32 \<Rightarrow> bool" where "is_voice_reg a \<longleftrightarrow> 0xC00 \<le> a \<and> a \<le> 0xD7F"
definition voice_id :: "u32 \<Rightarrow> nat" where "voice_id a = unat (drop_bit 4 (a - 0xC00))"
definition voice_reg :: "u32 \<Rightarrow> u32" where "voice_reg a = (a - 0xC00) AND 0xF"

definition read_voice_reg :: "u32 \<Rightarrow> spu_voice \<Rightarrow> u16" where
  "read_voice_reg r v =
     (if r = 6 then m_adpcm_start_address v
      else if r = 0xE then m_repeat_address v
      else if r = 4 then m_sample_rate v
      else if r = 0xC then word_of_int (env_level (m_adsr_envelope v))
      else if r = 8 then ucast (m_adsr v)
      else if r = 0xA then ucast (drop_bit 16 (m_adsr v))
      else 0)"

definition spu_read16 :: "u32 \<Rightarrow> ('h, 'm) psx_spu_scheme \<Rightarrow> u16 \<times> ('h, 'm) psx_spu_scheme" where
  "spu_read16 a s =
     (let p = m_spu s in
      if a = 0xDAE then (let s = upd_spu update_stat s in (spu_stat_word (m_spu s), s))
      else if a = 0xDAA then (m_cnt p, s)
      else if a = 0xDAC then (m_transfer_control p, s)
      else if a = 0xDA6 then (m_ram_transfer_address p, s)
      else if a = 0xD98 then (ucast (m_reverb_en p), s)
      else if a = 0xD9A then (ucast (drop_bit 16 (m_reverb_en p)), s)
      else if is_voice_reg a then (read_voice_reg (voice_reg a) (voice_at (voice_id a) s), s)
      else (0, s))"

definition spu_read8 :: "u32 \<Rightarrow> ('h, 'm) psx_spu_scheme \<Rightarrow> u8 \<times> ('h, 'm) psx_spu_scheme" where
  "spu_read8 a s =
     (let (w, s) = spu_read16 (a AND NOT 1) s in (ucast (drop_bit (8 * unat (a AND 1)) w), s))"

definition spu_read32 :: "u32 \<Rightarrow> ('h, 'm) psx_spu_scheme \<Rightarrow> u32 \<times> ('h, 'm) psx_spu_scheme" where
  "spu_read32 a s =
     (let (l, s) = spu_read16 a s; (h, s) = spu_read16 (a + 2) s in (push_bit 16 (ucast h) OR ucast l, s))"

text \<open>The place of a reverberation register in the array.\<close>

definition reverb_index :: "u32 \<Rightarrow> nat option" where
  "reverb_index a =
     (if a = 0xD84 then Some 0 else if a = 0xD86 then Some 1 else if a = 0xDA2 then Some 2
      else if 0xDC0 \<le> a \<and> a \<le> 0xDFF \<and> \<not> bit a 0 then Some (3 + unat (drop_bit 1 (a - 0xDC0))) else None)"

definition write_reverb_reg :: "nat \<Rightarrow> u16 \<Rightarrow> spu \<Rightarrow> spu" where
  "write_reverb_reg i v p =
     (let p = p\<lparr>m_reverb := (m_reverb p)[i := v]\<rparr>
      in if i = 2 then p\<lparr>m_reverb_buf_address := push_bit 3 (ucast v)\<rparr> else p)"

definition write_cnt ::
  "('h, ('h, 'm) psx_spu_scheme) dma_env \<Rightarrow> u16 \<Rightarrow> ('h, 'm) psx_spu_scheme \<Rightarrow> ('h, 'm) psx_spu_scheme result" where
  "write_cnt env v s =
     (let s = upd_spu (\<lambda>p. let p = p\<lparr>m_cnt := v, current_spu_mode := v AND 0x1F\<rparr>
                in if \<not> irq9_enable p then p\<lparr>m_irq_happened := False\<rparr> else p) s;
          mode = transfer_mode (m_spu s) in
      if mode = 0 then Inr s
      else if mode = 1 then
        (let (i, s) = schedule FIFO_TRANSFER_DELAY (Some Fifo_transfer_callback) 0 s
         in Inr (upd_spu (\<lambda>p. p\<lparr>m_fifo_transfer_event := i\<rparr>) s))
      else dreq_rising_edge env 4 (set_dreq True 4 s))"

definition write_voice_reg :: "u32 \<Rightarrow> u16 \<Rightarrow> spu_voice \<Rightarrow> spu_voice" where
  "write_voice_reg r v =
     (if r = 0 then set_vol_left v
      else if r = 2 then set_vol_right v
      else if r = 4 then set_pitch v
      else if r = 8 then set_adsr_low v
      else if r = 0xA then set_adsr_high v
      else if r = 6 then (\<lambda>x. x\<lparr>m_adpcm_start_address := v\<rparr>)
      else if r = 0xE then (\<lambda>x. x\<lparr>m_repeat_address := v\<rparr>)
      else (\<lambda>x. x))"

text \<open>The upper half of a register of flags is added to what is there.\<close>

definition or_high :: "u16 \<Rightarrow> u32 \<Rightarrow> u32" where "or_high v w = w OR push_bit 16 (ucast v)"

definition write_flags :: "u32 \<Rightarrow> u16 \<Rightarrow> spu \<Rightarrow> spu" where
  "write_flags a v p =
     (if a = 0xD90 then p\<lparr>m_pmon := ucast v\<rparr>
      else if a = 0xD92 then p\<lparr>m_pmon := or_high v (m_pmon p)\<rparr>
      else if a = 0xD94 then p\<lparr>m_noise_en := ucast v\<rparr>
      else if a = 0xD96 then p\<lparr>m_noise_en := or_high v (m_noise_en p)\<rparr>
      else if a = 0xD98 then p\<lparr>m_reverb_en := ucast v\<rparr>
      else p\<lparr>m_reverb_en := or_high v (m_reverb_en p)\<rparr>)"

definition write_plain :: "u32 \<Rightarrow> u16 \<Rightarrow> spu \<Rightarrow> spu" where
  "write_plain a v p =
     (if a = 0xD80 then p\<lparr>m_mainvolume_left := v\<rparr>
      else if a = 0xD82 then p\<lparr>m_mainvolume_right := v\<rparr>
      else if a = 0xDB0 then p\<lparr>m_cd_audio_in_vol_left := v\<rparr>
      else if a = 0xDB2 then p\<lparr>m_cd_audio_in_vol_right := v\<rparr>
      else if a = 0xDB4 then p\<lparr>m_ext_audio_in_vol_left := v\<rparr>
      else if a = 0xDB6 then p\<lparr>m_ext_audio_in_vol_right := v\<rparr>
      else if a = 0xDAC then p\<lparr>m_transfer_control := v\<rparr>
      else if a = 0xDA6 then p\<lparr>m_ram_transfer_address := v, m_curr_ram_transfer_address := push_bit 3 (ucast v)\<rparr>
      else if a = 0xDA4 then p\<lparr>m_irq_address := v\<rparr>
      else p)"

definition spu_write16 ::
  "('h, ('h, 'm) psx_spu_scheme) dma_env \<Rightarrow> u32 \<Rightarrow> u16 \<Rightarrow> ('h, 'm) psx_spu_scheme \<Rightarrow> ('h, 'm) psx_spu_scheme result" where
  "spu_write16 env a v s =
     (if bit a 0 then Inl DebugBreak
      else if a = 0xDAA then write_cnt env v s
      else if a = 0xD8C then Inr (for_voices 0 16 v key_off s)
      else if a = 0xD8E then Inr (for_voices 16 8 v key_off s)
      else if a = 0xD88 then Inr (for_voices 0 16 v key_on s)
      else if a = 0xD8A then Inr (for_voices 16 8 v key_on s)
      else if 0xD90 \<le> a \<and> a \<le> 0xD9A then Inr (upd_spu (write_flags a v) s)
      else if a = 0xDA8 then (if queue_full (m_fifo (m_spu s)) then Inr s else spu_push v s)
      else case reverb_index a of
             Some i \<Rightarrow> Inr (upd_spu (write_reverb_reg i v) s)
           | None \<Rightarrow>
               if is_voice_reg a then Inr (upd_voice (voice_id a) (write_voice_reg (voice_reg a) v) s)
               else Inr (upd_spu (write_plain a v) s))"

definition spu_write8 ::
  "('h, ('h, 'm) psx_spu_scheme) dma_env \<Rightarrow> u32 \<Rightarrow> u8 \<Rightarrow> ('h, 'm) psx_spu_scheme \<Rightarrow> ('h, 'm) psx_spu_scheme result" where
  "spu_write8 env a v s = (if bit a 0 then Inr s else spu_write16 env a (ucast v) s)"

definition spu_write32 ::
  "('h, ('h, 'm) psx_spu_scheme) dma_env \<Rightarrow> u32 \<Rightarrow> u32 \<Rightarrow> ('h, 'm) psx_spu_scheme \<Rightarrow> ('h, 'm) psx_spu_scheme result" where
  "spu_write32 env a v s =
     bindE (spu_write16 env a (ucast v) s) (spu_write16 env (a + 2) (ucast (drop_bit 16 v)))"

end
