(* ===== verification/Drive.thy ===== *)
theory Drive
  imports Cd Spu
begin

text \<open>
  The CD drive (\<open>CDDrive.cpp\<close>, \<open>DriveCommands.cpp\<close>, \<open>TestCommands.cpp\<close>): its four registers by
  index, the command queue of one, the responses with their interrupts and delays, the sector
  buffer, and the callback that delivers sectors to the buffer or to the sound unit. The command history of the
  debugger's window is left out.
\<close>

section \<open>State\<close>

record response =
  resp_bytes :: "u8 list"
  curr_index :: nat
  resp_interrupt :: u8
  resp_delay :: u64
  resp_timestamp :: u64

record xa_adpcm_volume =
  left_to_left :: u8
  left_to_right :: u8
  right_to_right :: u8
  right_to_left :: u8

record cd_drive =
  m_index_reg :: u8
  m_drive_cmd :: u8
  m_new_cmd :: u8
  m_response_fifo :: "response cqueue"
  m_param_fifo :: "u8 cqueue"
  m_int_enable :: u8
  m_int_flag :: u8
  m_soundmap_en :: bool
  m_want_data :: bool
  m_shadow_volume :: xa_adpcm_volume
  m_volume :: xa_adpcm_volume
  m_mute_adpcm :: bool
  m_enable_audio :: bool
  m_sound_coding :: u8
  m_read_paused :: bool
  m_motor_on :: bool
  m_drive_mode :: u8
  m_drive_stat :: u8
  m_idle :: bool
  m_has_next_cmd :: bool
  m_drive_event :: u64
  m_cdrom :: "cue_bin option"
  m_lid_open :: bool
  m_seek_loc :: cd_location
  m_unprocessed_seek_loc :: cd_location
  m_has_unprocessed_seek :: bool
  m_read_event :: u64
  m_has_pending_read :: bool
  m_curr_sector :: "u8 list"
  m_has_data_to_load :: bool
  m_has_loaded_data :: bool
  m_curr_sector_size :: nat
  m_curr_sector_pos :: nat
  filter_file :: u8
  filter_channel :: u8
  console_region :: string

record 'h psx_cd = "'h psx_spu" +
  m_drive :: cd_drive

definition INT1_DATA_RESPONSE :: u8 where "INT1_DATA_RESPONSE = 1"
definition INT2_SECOND_RESPONSE :: u8 where "INT2_SECOND_RESPONSE = 2"
definition INT3_FIRST_RESPONSE :: u8 where "INT3_FIRST_RESPONSE = 3"
definition INT5_ERR :: u8 where "INT5_ERR = 5"

definition GETSTAT_NORMAL :: u64 where "GETSTAT_NORMAL = 0xC4E1"
definition READ_TOC :: u64 where "READ_TOC = 0x13CCE"
definition GET_ID :: u64 where "GET_ID = 0x4A00"
definition PAUSE :: u64 where "PAUSE = 0x21181C"
definition PAUSE_DOUBLE_SPEED :: u64 where "PAUSE_DOUBLE_SPEED = PAUSE div 2"
definition PAUSE_PAUSED :: u64 where "PAUSE_PAUSED = 0x1DF2"
definition STOP_TIME :: u64 where "STOP_TIME = 0xD38ACA"
definition READ_TIME :: u64 where "READ_TIME = 0x6E1CD"
definition READ_DOUBLE_SPEED :: u64 where "READ_DOUBLE_SPEED = READ_TIME div 2"
definition INT_DELAY :: u64 where "INT_DELAY = 500"
definition WRONG_NUM_OF_PARAMS :: u8 where "WRONG_NUM_OF_PARAMS = 0x20"
definition DRIVE_DOOR_OPEN :: u8 where "DRIVE_DOOR_OPEN = 8"
definition CDROM_IRQ :: u32 where "CDROM_IRQ = 4"
definition FIFO_SIZE :: nat where "FIFO_SIZE = 16"

text \<open>The bits of the index register, of the status and of the mode.\<close>

definition param_fifo_empty :: nat where "param_fifo_empty = 3"
definition param_fifo_not_full :: nat where "param_fifo_not_full = 4"
definition response_fifo_not_empty :: nat where "response_fifo_not_empty = 5"
definition data_fifo_not_empty :: nat where "data_fifo_not_empty = 6"
definition transmission_busy_bit :: nat where "transmission_busy_bit = 7"
definition stat_err :: nat where "stat_err = 0"
definition stat_motor_on :: nat where "stat_motor_on = 1"
definition stat_seek_err :: nat where "stat_seek_err = 2"
definition stat_shell_open :: nat where "stat_shell_open = 4"
definition stat_reading :: nat where "stat_reading = 5"
definition stat_seeking :: nat where "stat_seeking = 6"
definition stat_playing :: nat where "stat_playing = 7"
definition allow_cd_da :: "cd_drive \<Rightarrow> bool" where "allow_cd_da d = bit (m_drive_mode d) 0"
definition xa_filter_enable :: "cd_drive \<Rightarrow> bool" where "xa_filter_enable d = bit (m_drive_mode d) 3"
definition read_whole_sector :: "cd_drive \<Rightarrow> bool" where "read_whole_sector d = bit (m_drive_mode d) 5"
definition enable_xa_adpcm :: "cd_drive \<Rightarrow> bool" where "enable_xa_adpcm d = bit (m_drive_mode d) 6"
definition double_speed :: "cd_drive \<Rightarrow> bool" where "double_speed d = bit (m_drive_mode d) 7"

definition no_response :: response where
  "no_response = \<lparr>resp_bytes = [], curr_index = 0, resp_interrupt = 0, resp_delay = 0, resp_timestamp = 0\<rparr>"

definition silent :: xa_adpcm_volume where
  "silent = \<lparr>left_to_left = 0, left_to_right = 0, right_to_right = 0, right_to_left = 0\<rparr>"

definition drive_new :: "string \<Rightarrow> cd_drive" where
  "drive_new region = \<lparr>m_index_reg = 0x18, m_drive_cmd = 0, m_new_cmd = 0, m_response_fifo = queue_new FIFO_SIZE no_response,
     m_param_fifo = queue_new FIFO_SIZE 0, m_int_enable = 0, m_int_flag = 0, m_soundmap_en = False, m_want_data = False,
     m_shadow_volume = silent, m_volume = silent, m_mute_adpcm = True, m_enable_audio = False, m_sound_coding = 0,
     m_read_paused = False, m_motor_on = True, m_drive_mode = 0, m_drive_stat = 0, m_idle = True, m_has_next_cmd = False,
     m_drive_event = INVALID_EVENT, m_cdrom = None, m_lid_open = False, m_seek_loc = cd_loc 0 0 0,
     m_unprocessed_seek_loc = cd_loc 0 0 0, m_has_unprocessed_seek = False, m_read_event = INVALID_EVENT,
     m_has_pending_read = False, m_curr_sector = empty_sector, m_has_data_to_load = False, m_has_loaded_data = False,
     m_curr_sector_size = 0, m_curr_sector_pos = 0, filter_file = 0, filter_channel = 0, console_region = region\<rparr>"

definition upd_drive :: "(cd_drive \<Rightarrow> cd_drive) \<Rightarrow> ('h, 'm) psx_cd_scheme \<Rightarrow> ('h, 'm) psx_cd_scheme" where
  "upd_drive f s = s\<lparr>m_drive := f (m_drive s)\<rparr>"

definition set_index_flag :: "nat \<Rightarrow> bool \<Rightarrow> ('h, 'm) psx_cd_scheme \<Rightarrow> ('h, 'm) psx_cd_scheme" where
  "set_index_flag i b s = upd_drive (\<lambda>d. d\<lparr>m_index_reg := put_flag i b (m_index_reg d)\<rparr>) s"

definition set_stat_flag :: "nat \<Rightarrow> bool \<Rightarrow> ('h, 'm) psx_cd_scheme \<Rightarrow> ('h, 'm) psx_cd_scheme" where
  "set_stat_flag i b s = upd_drive (\<lambda>d. d\<lparr>m_drive_stat := put_flag i b (m_drive_stat d)\<rparr>) s"

definition drive_stat :: "('h, 'm) psx_cd_scheme \<Rightarrow> u8" where "drive_stat s = m_drive_stat (m_drive s)"

section \<open>Responses and interrupts\<close>

definition request_cd_interrupt :: "u8 \<Rightarrow> ('h, 'm) psx_cd_scheme \<Rightarrow> ('h, 'm) psx_cd_scheme" where
  "request_cd_interrupt i s =
     (let s = upd_drive (\<lambda>d. d\<lparr>m_index_reg :=
                put_flag response_fifo_not_empty (\<not> queue_empty (m_response_fifo d)) (m_index_reg d),
                m_int_flag := put_bits 0 3 i (m_int_flag d)\<rparr>) s
      in if get_bits 0 5 (m_int_enable (m_drive s)) AND i = 0 then s else raise_interrupt CDROM_IRQ s)"

definition schedule_cd_interrupt :: "u64 \<Rightarrow> ('h, 'm) psx_cd_scheme \<Rightarrow> ('h, 'm) psx_cd_scheme" where
  "schedule_cd_interrupt cycles s =
     (let (i, s) = schedule cycles (Some Cd_event_callback) 0 s in upd_drive (\<lambda>d. d\<lparr>m_drive_event := i\<rparr>) s)"

definition push_response :: "u8 \<Rightarrow> u8 list \<Rightarrow> u64 \<Rightarrow> ('h, 'm) psx_cd_scheme \<Rightarrow> ('h, 'm) psx_cd_scheme result" where
  "push_response i args delay s =
     (if queue_full (m_response_fifo (m_drive s)) then Inr s
      else
        bindE (queue_push \<lparr>resp_bytes = args, curr_index = 0, resp_interrupt = i, resp_delay = delay,
                 resp_timestamp = m_curr_timestamp s\<rparr> (m_response_fifo (m_drive s))) (\<lambda>q.
          let s = upd_drive (\<lambda>d. d\<lparr>m_response_fifo := q\<rparr>) s in
          Inr (if m_curr_size q = 1 \<and> delay = 0 then request_cd_interrupt i s
               else if delay \<noteq> 0 \<and> m_curr_size q = 1 then schedule_cd_interrupt delay s
               else s)))"

definition deliver_interrupt :: "('h, 'm) psx_cd_scheme \<Rightarrow> ('h, 'm) psx_cd_scheme result" where
  "deliver_interrupt s =
     bindE (queue_peek (m_response_fifo (m_drive s))) (\<lambda>r. Inr (request_cd_interrupt (resp_interrupt r) s))"

definition validate_params :: "u64 \<Rightarrow> ('h, 'm) psx_cd_scheme \<Rightarrow> (bool \<times> ('h, 'm) psx_cd_scheme) result" where
  "validate_params n s =
     (if n \<noteq> m_curr_size (m_param_fifo (m_drive s)) then
        (let s = set_stat_flag stat_err True s
         in bindE (push_response INT5_ERR [drive_stat s, WRONG_NUM_OF_PARAMS] 0 s) (\<lambda>s. Inr (False, s)))
      else Inr (True, s))"

definition pop_param :: "('h, 'm) psx_cd_scheme \<Rightarrow> (u8 \<times> ('h, 'm) psx_cd_scheme) result" where
  "pop_param s =
     bindE (queue_deque (m_param_fifo (m_drive s))) (\<lambda>(v, q). Inr (v, upd_drive (\<lambda>d. d\<lparr>m_param_fifo := q\<rparr>) s))"

definition pop_response_byte :: "('h, 'm) psx_cd_scheme \<Rightarrow> (u8 \<times> ('h, 'm) psx_cd_scheme) result" where
  "pop_response_byte s =
     (let q = m_response_fifo (m_drive s) in
      if queue_empty q then Inr (0, s)
      else
        bindE (queue_peek q) (\<lambda>r.
          let v = (if curr_index r < length (resp_bytes r) then resp_bytes r ! curr_index r else 0);
              i = curr_index r + 1;
              s = upd_drive (\<lambda>d. d\<lparr>m_response_fifo := q\<lparr>arr := (arr q)[0 := r\<lparr>curr_index := i mod 16\<rparr>]\<rparr>\<rparr>) s
          in Inr (v, if i \<ge> length (resp_bytes r) then set_index_flag response_fifo_not_empty False s else s)))"

section \<open>Commands\<close>

text \<open>The status follows the motor at the start of most commands.\<close>

definition motor_status :: "('h, 'm) psx_cd_scheme \<Rightarrow> ('h, 'm) psx_cd_scheme" where
  "motor_status s = set_stat_flag stat_motor_on (m_motor_on (m_drive s)) s"

definition two_responses :: "u8 \<Rightarrow> u8 \<Rightarrow> u64 \<Rightarrow> ('h, 'm) psx_cd_scheme \<Rightarrow> ('h, 'm) psx_cd_scheme result" where
  "two_responses first second delay s =
     bindE (push_response INT3_FIRST_RESPONSE [first] GETSTAT_NORMAL s) (push_response INT2_SECOND_RESPONSE [second] delay)"

definition command_get_stat :: "('h, 'm) psx_cd_scheme \<Rightarrow> ('h, 'm) psx_cd_scheme result" where
  "command_get_stat s =
     (let s = motor_status s in
      bindE (push_response INT3_FIRST_RESPONSE [drive_stat s] GETSTAT_NORMAL s) (\<lambda>s.
        Inr (set_stat_flag stat_shell_open (m_lid_open (m_drive s)) s)))"

definition region_bytes :: "string \<Rightarrow> u8 list" where
  "region_bytes r =
     (if r = ''AMERICA'' then [0x53, 0x43, 0x45, 0x41]
      else if r = ''EUROPE'' then [0x53, 0x43, 0x45, 0x45]
      else if r = ''JAPAN'' then [0x53, 0x43, 0x45, 0x49]
      else [0x20, 0x20, 0x20, 0x20])"

definition command_get_id :: "('h, 'm) psx_cd_scheme \<Rightarrow> ('h, 'm) psx_cd_scheme result" where
  "command_get_id s =
     (let s = motor_status s; disc = (m_cdrom (m_drive s) \<noteq> None) in
      bindE (push_response INT3_FIRST_RESPONSE [drive_stat s] 0 s)
        (if disc then push_response INT2_SECOND_RESPONSE ([2, 0, 0x20, 0] @ region_bytes (console_region (m_drive s))) GET_ID
         else push_response INT5_ERR [8, 0x40, 0, 0, 0, 0, 0, 0] GET_ID))"

definition command_setmode :: "('h, 'm) psx_cd_scheme \<Rightarrow> ('h, 'm) psx_cd_scheme result" where
  "command_setmode s =
     bindE (validate_params 1 s) (\<lambda>(ok, s).
       if \<not> ok then Inr s
       else
         bindE (pop_param s) (\<lambda>(v, s).
           let s = upd_drive (\<lambda>d. d\<lparr>m_drive_mode := v\<rparr>) s in
           if bit v 4 then Inl DebugBreak
           else push_response INT3_FIRST_RESPONSE [drive_stat s] GETSTAT_NORMAL s))"

definition command_stop :: "('h, 'm) psx_cd_scheme \<Rightarrow> ('h, 'm) psx_cd_scheme result" where
  "command_stop s =
     (let s = snd (deschedule (m_read_event (m_drive s)) s);
          s = set_stat_flag stat_reading False (upd_drive (\<lambda>d. d\<lparr>m_seek_loc := cd_loc 0 0 0, m_read_paused := False\<rparr>) s);
          first = drive_stat s; s = set_stat_flag stat_motor_on False s
      in two_responses first (drive_stat s) STOP_TIME s)"

definition command_read_toc :: "('h, 'm) psx_cd_scheme \<Rightarrow> ('h, 'm) psx_cd_scheme result" where
  "command_read_toc s = (let s = motor_status s in two_responses (drive_stat s) (drive_stat s) READ_TOC s)"

definition command_set_loc :: "('h, 'm) psx_cd_scheme \<Rightarrow> ('h, 'm) psx_cd_scheme result" where
  "command_set_loc s =
     bindE (validate_params 3 (motor_status s)) (\<lambda>(ok, s).
       if \<not> ok then Inr s
       else
         bindE (pop_param s) (\<lambda>(m, s). bindE (pop_param s) (\<lambda>(c, s). bindE (pop_param s) (\<lambda>(f, s).
           let s = upd_drive (\<lambda>d. d\<lparr>m_unprocessed_seek_loc :=
                     cd_loc (bcd_to_normal (ucast m)) (bcd_to_normal (ucast c)) (bcd_to_normal (ucast f)),
                     m_has_unprocessed_seek := True\<rparr>) s
           in push_response INT3_FIRST_RESPONSE [drive_stat s] GETSTAT_NORMAL s))))"

definition take_seek :: "cd_drive \<Rightarrow> cd_drive" where
  "take_seek d = (if m_has_unprocessed_seek d
     then d\<lparr>m_has_unprocessed_seek := False, m_seek_loc := m_unprocessed_seek_loc d\<rparr> else d)"

definition command_seek_l :: "('h, 'm) psx_cd_scheme \<Rightarrow> ('h, 'm) psx_cd_scheme result" where
  "command_seek_l s =
     (let s = upd_drive take_seek (motor_status s);
          s = set_stat_flag stat_reading False (set_stat_flag stat_seeking True (set_stat_flag stat_playing False s));
          first = drive_stat s; s = set_stat_flag stat_seeking False s
      in two_responses first (drive_stat s) (GETSTAT_NORMAL * 2) s)"

definition read_time_of :: "cd_drive \<Rightarrow> u64" where
  "read_time_of d = (if double_speed d then READ_DOUBLE_SPEED else READ_TIME)"

definition schedule_read :: "u64 \<Rightarrow> ('h, 'm) psx_cd_scheme \<Rightarrow> ('h, 'm) psx_cd_scheme" where
  "schedule_read cycles s =
     (let (i, s) = schedule cycles (Some Cd_read_callback) 0 s in upd_drive (\<lambda>d. d\<lparr>m_read_event := i\<rparr>) s)"

text \<open>\<open>ReadN\<close> and \<open>ReadS\<close> differ in the time of the first sector.\<close>

definition start_reading :: "(u64 \<Rightarrow> u64) \<Rightarrow> ('h, 'm) psx_cd_scheme \<Rightarrow> ('h, 'm) psx_cd_scheme result" where
  "start_reading first_time s =
     (let s = upd_drive (\<lambda>d. d\<lparr>m_read_paused := False\<rparr>) (motor_status s);
          seek = m_has_unprocessed_seek (m_drive s);
          s = set_stat_flag (if seek then stat_seeking else stat_reading) True (upd_drive take_seek s)
      in bindE (push_response INT3_FIRST_RESPONSE [drive_stat s] GETSTAT_NORMAL s) (\<lambda>s.
           Inr (schedule_read (first_time (read_time_of (m_drive s))) s)))"

definition command_read_n :: "('h, 'm) psx_cd_scheme \<Rightarrow> ('h, 'm) psx_cd_scheme result" where
  "command_read_n s = start_reading (\<lambda>t. t div 2) s"

definition command_read_s :: "('h, 'm) psx_cd_scheme \<Rightarrow> ('h, 'm) psx_cd_scheme result" where
  "command_read_s s = start_reading (\<lambda>t. t) s"

definition command_pause :: "('h, 'm) psx_cd_scheme \<Rightarrow> ('h, 'm) psx_cd_scheme result" where
  "command_pause s =
     (let s = motor_status s; d = m_drive s in
      if m_read_paused d \<or> \<not> bit (m_drive_stat d) stat_reading then
        two_responses (drive_stat s) (drive_stat s) (GETSTAT_NORMAL + PAUSE_PAUSED) s
      else
        let first = drive_stat s;
            s = set_stat_flag stat_reading False (upd_drive (\<lambda>d. d\<lparr>m_read_paused := True\<rparr>) s); second = drive_stat s;
            s = snd (deschedule (m_read_event (m_drive s)) s);
            s = upd_drive (\<lambda>d. d\<lparr>m_read_event := INVALID_EVENT\<rparr>) s
        in two_responses first second (if double_speed d then PAUSE_DOUBLE_SPEED else PAUSE) s)"

definition command_init :: "('h, 'm) psx_cd_scheme \<Rightarrow> ('h, 'm) psx_cd_scheme result" where
  "command_init s =
     (let s = motor_status (upd_drive (\<lambda>d. d\<lparr>m_drive_stat := 0, m_motor_on := True, m_read_paused := False\<rparr>) s);
          s = snd (deschedule (m_drive_event (m_drive s)) s); s = snd (deschedule (m_read_event (m_drive s)) s)
      in two_responses (drive_stat s) (drive_stat s) (GETSTAT_NORMAL * 2) s)"

definition command_audio :: "bool \<Rightarrow> ('h, 'm) psx_cd_scheme \<Rightarrow> ('h, 'm) psx_cd_scheme result" where
  "command_audio on s =
     (let s = motor_status (upd_drive (\<lambda>d. d\<lparr>m_motor_on := True\<rparr>) s) in
      bindE (push_response INT3_FIRST_RESPONSE [drive_stat s] GETSTAT_NORMAL s) (\<lambda>s.
        Inr (upd_drive (\<lambda>d. d\<lparr>m_enable_audio := on\<rparr>) s)))"

definition command_setfilter :: "('h, 'm) psx_cd_scheme \<Rightarrow> ('h, 'm) psx_cd_scheme result" where
  "command_setfilter s =
     bindE (validate_params 2 (motor_status s)) (\<lambda>(ok, s).
       if \<not> ok then Inr s
       else
         bindE (pop_param s) (\<lambda>(f, s). bindE (pop_param s) (\<lambda>(c, s).
           let s = upd_drive (\<lambda>d. d\<lparr>filter_file := f, filter_channel := c\<rparr>) s
           in push_response INT3_FIRST_RESPONSE [drive_stat s] GETSTAT_NORMAL s)))"

definition command_test :: "('h, 'm) psx_cd_scheme \<Rightarrow> ('h, 'm) psx_cd_scheme result" where
  "command_test s =
     bindE (validate_params 1 s) (\<lambda>(ok, s).
       if \<not> ok then Inr s
       else
         bindE (pop_param s) (\<lambda>(v, s).
           if v \<noteq> 0x20 then Inl DebugBreak
           else bindE (push_response INT3_FIRST_RESPONSE [0x95, 0x07, 0x24, 0xD1] 0 s) (\<lambda>s.
             Inr (upd_drive (\<lambda>d. d\<lparr>m_idle := True\<rparr>) s))))"

definition dispatch_command :: "u8 \<Rightarrow> ('h, 'm) psx_cd_scheme \<Rightarrow> ('h, 'm) psx_cd_scheme result" where
  "dispatch_command c s =
     (if c = 0x01 then command_get_stat s
      else if c = 0x19 then command_test s
      else if c = 0x1A then command_get_id s
      else if c = 0x0E then command_setmode s
      else if c = 0x08 then command_stop s
      else if c = 0x1E then command_read_toc s
      else if c = 0x02 then command_set_loc s
      else if c = 0x15 then command_seek_l s
      else if c = 0x06 then command_read_n s
      else if c = 0x09 then command_pause s
      else if c = 0x0A then command_init s
      else if c = 0x0C then command_audio True s
      else if c = 0x1B then command_read_s s
      else if c = 0x0D then command_setfilter s
      else if c = 0x0B then command_audio False s
      else Inl DebugBreak)"

definition param_flags :: "cd_drive \<Rightarrow> cd_drive" where
  "param_flags d = d\<lparr>m_index_reg := put_flag param_fifo_not_full (\<not> queue_full (m_param_fifo d))
     (put_flag param_fifo_empty (queue_empty (m_param_fifo d)) (m_index_reg d))\<rparr>"

definition command_execute :: "('h, 'm) psx_cd_scheme \<Rightarrow> ('h, 'm) psx_cd_scheme result" where
  "command_execute s = bindE (dispatch_command (m_drive_cmd (m_drive s)) s) (\<lambda>s. Inr (upd_drive param_flags s))"

definition handle_pending_command :: "('h, 'm) psx_cd_scheme \<Rightarrow> ('h, 'm) psx_cd_scheme result" where
  "handle_pending_command s =
     (let d = m_drive s in
      if m_idle d \<and> m_has_next_cmd d then
        command_execute (upd_drive (\<lambda>d. d\<lparr>m_drive_cmd := m_new_cmd d, m_has_next_cmd := False, m_idle := False\<rparr>)
          (set_index_flag transmission_busy_bit False s))
      else Inr s)"

text \<open>The acknowledgement of a delivered interrupt: the next response, or the command that waits.\<close>

definition next_response :: "('h, 'm) psx_cd_scheme \<Rightarrow> ('h, 'm) psx_cd_scheme result" where
  "next_response s =
     (let q = m_response_fifo (m_drive s) in
      if \<not> queue_empty q then
        bindE (queue_peek q) (\<lambda>r.
          let diff = m_curr_timestamp s - (resp_timestamp r + resp_delay r) in
          Inr (if resp_delay r = 0 \<or> 0 \<le> sint diff then schedule_cd_interrupt INT_DELAY s
               else schedule_cd_interrupt (word_of_int \<bar>sint diff\<bar>) s))
      else handle_pending_command (upd_drive (\<lambda>d. d\<lparr>m_idle := True\<rparr>) s))"

definition interrupt_ackd :: "('h, 'm) psx_cd_scheme \<Rightarrow> ('h, 'm) psx_cd_scheme result" where
  "interrupt_ackd s =
     (let q = m_response_fifo (m_drive s) in
      if queue_empty q then Inl DebugBreak
      else
        bindE (queue_peek q) (\<lambda>r.
          if resp_timestamp r + resp_delay r > m_curr_timestamp s then Inr s
          else
            bindE (queue_deque q) (\<lambda>(_, q).
              next_response (set_index_flag response_fifo_not_empty False (upd_drive (\<lambda>d. d\<lparr>m_response_fifo := q\<rparr>) s)))))"

section \<open>Registers\<close>

definition update_index_register :: "cd_drive \<Rightarrow> cd_drive" where
  "update_index_register d =
     param_flags (d\<lparr>m_index_reg :=
       put_flag data_fifo_not_empty (m_curr_sector_pos d \<noteq> m_curr_sector_size d \<and> m_curr_sector_size d \<noteq> 0)
         (put_flag response_fifo_not_empty (\<not> queue_empty (m_response_fifo d)) (m_index_reg d))\<rparr>)"

definition reg_index :: "('h, 'm) psx_cd_scheme \<Rightarrow> u8" where "reg_index s = get_bits 0 2 (m_index_reg (m_drive s))"

definition sector_byte :: "nat \<Rightarrow> cd_drive \<Rightarrow> u8 result" where
  "sector_byte i d = (if i < length (m_curr_sector d) then Inr (m_curr_sector d ! i) else Inl UndefinedBehaviour)"

text \<open>\<open>ReadReg2\<close>: the next byte of the sector, or one of its last bytes again.\<close>

definition read_reg2 :: "('h, 'm) psx_cd_scheme \<Rightarrow> (u8 \<times> ('h, 'm) psx_cd_scheme) result" where
  "read_reg2 s =
     (let d = m_drive s in
      if \<not> m_has_loaded_data d then
        (if m_curr_sector_size d = 0 then Inr (0, s)
         else bindE (sector_byte (if m_curr_sector_size d = SECTOR_WITHOUT_SYNC_SIZE
                then SECTOR_WITHOUT_SYNC_SIZE - 4 else CD_LOGICAL_SECTOR_SIZE - 8) d) (\<lambda>v. Inr (v, s)))
      else
        bindE (sector_byte (m_curr_sector_pos d) d) (\<lambda>v.
          let i = m_curr_sector_pos d + 1 in
          Inr (v, if i = m_curr_sector_size d
                  then set_index_flag data_fifo_not_empty False
                         (upd_drive (\<lambda>d. d\<lparr>m_curr_sector_pos := 0, m_has_loaded_data := False\<rparr>) s)
                  else upd_drive (\<lambda>d. d\<lparr>m_curr_sector_pos := i\<rparr>) s)))"

definition read_reg3 :: "('h, 'm) psx_cd_scheme \<Rightarrow> u8" where
  "read_reg3 s = (if bit (reg_index s) 0 then m_int_flag (m_drive s) OR 0xE0 else get_bits 0 5 (m_int_enable (m_drive s)) OR 0xE0)"

definition cd_read8 :: "u32 \<Rightarrow> ('h, 'm) psx_cd_scheme \<Rightarrow> (u8 \<times> ('h, 'm) psx_cd_scheme) result" where
  "cd_read8 a s =
     (if a = 0 then (let s = upd_drive update_index_register s in Inr (m_index_reg (m_drive s), s))
      else if a = 1 then pop_response_byte s
      else if a = 2 then read_reg2 s
      else if a = 3 then Inr (read_reg3 s, s)
      else Inr (0, s))"

text \<open>The two reads are operands of \<open>|\<close>; they are taken from left to right.\<close>

definition cd_read16 :: "u32 \<Rightarrow> ('h, 'm) psx_cd_scheme \<Rightarrow> (u16 \<times> ('h, 'm) psx_cd_scheme) result" where
  "cd_read16 a s =
     bindE (cd_read8 a s) (\<lambda>(l, s). bindE (cd_read8 a s) (\<lambda>(h, s). Inr (ucast l OR push_bit 8 (ucast h), s)))"

definition cd_read32 :: "u32 \<Rightarrow> ('h, 'm) psx_cd_scheme \<Rightarrow> (u32 \<times> ('h, 'm) psx_cd_scheme) result" where
  "cd_read32 a s =
     bindE (cd_read16 a s) (\<lambda>(l, s). bindE (cd_read16 a s) (\<lambda>(h, s). Inr (ucast l OR push_bit 16 (ucast h), s)))"

definition write_reg1 :: "u8 \<Rightarrow> ('h, 'm) psx_cd_scheme \<Rightarrow> ('h, 'm) psx_cd_scheme result" where
  "write_reg1 v s =
     (let d = m_drive s; i = reg_index s in
      if i = 0 then
        (if bit (m_index_reg d) transmission_busy_bit then Inr s
         else if m_idle d then
           bindE (command_execute (upd_drive (\<lambda>d. d\<lparr>m_drive_cmd := v, m_idle := False\<rparr>) s)) (\<lambda>s.
             Inr (set_index_flag transmission_busy_bit False s))
         else if m_has_next_cmd d then Inl DebugBreak
         else Inr (set_index_flag transmission_busy_bit True
                (upd_drive (\<lambda>d. d\<lparr>m_new_cmd := v, m_has_next_cmd := True\<rparr>) s)))
      else if i = 1 then Inr s
      else if i = 2 then Inr (upd_drive (\<lambda>d. d\<lparr>m_sound_coding := v\<rparr>) s)
      else Inr (upd_drive (\<lambda>d. d\<lparr>m_shadow_volume := (m_shadow_volume d)\<lparr>right_to_right := v\<rparr>\<rparr>) s))"

definition write_reg2 :: "u8 \<Rightarrow> ('h, 'm) psx_cd_scheme \<Rightarrow> ('h, 'm) psx_cd_scheme result" where
  "write_reg2 v s =
     (let i = reg_index s in
      if i = 0 then
        (if queue_full (m_param_fifo (m_drive s)) then Inr s
         else
           bindE (queue_push v (m_param_fifo (m_drive s))) (\<lambda>q.
             let s = set_index_flag param_fifo_empty False (upd_drive (\<lambda>d. d\<lparr>m_param_fifo := q\<rparr>) s)
             in Inr (if queue_full q then set_index_flag param_fifo_not_full False s else s)))
      else if i = 1 then Inr (upd_drive (\<lambda>d. d\<lparr>m_int_enable := put_bits 0 5 v (m_int_enable d)\<rparr>) s)
      else if i = 2 then Inr (upd_drive (\<lambda>d. d\<lparr>m_shadow_volume := (m_shadow_volume d)\<lparr>left_to_left := v\<rparr>\<rparr>) s)
      else Inr (upd_drive (\<lambda>d. d\<lparr>m_shadow_volume := (m_shadow_volume d)\<lparr>right_to_left := v\<rparr>\<rparr>) s))"

text \<open>A data request: nothing happens while the loaded sector is being read or when there is none.\<close>

definition request_data ::
  "('h, ('h, 'm) psx_cd_scheme) dma_env \<Rightarrow> ('h, 'm) psx_cd_scheme \<Rightarrow> ('h, 'm) psx_cd_scheme result" where
  "request_data env s =
     (let d = m_drive s in
      if \<not> m_has_data_to_load d \<and> m_curr_sector_size d \<noteq> m_curr_sector_pos d \<or> m_curr_sector_size d = 0 then Inr s
      else
        dreq_rising_edge env 3 (set_dreq True 3 (set_index_flag data_fifo_not_empty True
          (upd_drive (\<lambda>d. d\<lparr>m_has_data_to_load := False, m_has_loaded_data := True, m_curr_sector_pos := 0\<rparr>) s))))"

definition write_reg3 ::
  "('h, ('h, 'm) psx_cd_scheme) dma_env \<Rightarrow> u8 \<Rightarrow> ('h, 'm) psx_cd_scheme \<Rightarrow> ('h, 'm) psx_cd_scheme result" where
  "write_reg3 env v s =
     (let i = reg_index s in
      if i = 0 then
        (let s = upd_drive (\<lambda>d. d\<lparr>m_want_data := False, m_soundmap_en := bit v 5\<rparr>) s in
         if bit v 7 then request_data env s
         else Inr (set_index_flag data_fifo_not_empty False
                (upd_drive (\<lambda>d. d\<lparr>m_has_loaded_data := False, m_curr_sector_pos := 0\<rparr>) s)))
      else if i = 1 then
        (let s = (if bit v 6 then upd_drive (\<lambda>d. d\<lparr>m_param_fifo := queue_clear (m_param_fifo d)\<rparr>) s else s) in
         bindE (if get_bits 0 3 v \<noteq> 0 \<and> get_bits 0 3 (m_int_flag (m_drive s)) \<noteq> 0 then interrupt_ackd s else Inr s) (\<lambda>s.
           Inr (upd_drive (\<lambda>d. d\<lparr>m_int_flag := m_int_flag d AND NOT (get_bits 0 3 v)\<rparr>) s)))
      else if i = 2 then Inr (upd_drive (\<lambda>d. d\<lparr>m_shadow_volume := (m_shadow_volume d)\<lparr>left_to_right := v\<rparr>\<rparr>) s)
      else Inr (upd_drive (\<lambda>d. d\<lparr>m_mute_adpcm := bit v 0,
             m_volume := (if bit v 5 then m_shadow_volume d else m_volume d)\<rparr>) s))"

definition cd_write8 ::
  "('h, ('h, 'm) psx_cd_scheme) dma_env \<Rightarrow> u32 \<Rightarrow> u8 \<Rightarrow> ('h, 'm) psx_cd_scheme \<Rightarrow> ('h, 'm) psx_cd_scheme result" where
  "cd_write8 env a v s =
     (if a = 0 then Inr (upd_drive (\<lambda>d. d\<lparr>m_index_reg := put_bits 0 2 v (m_index_reg d)\<rparr>) s)
      else if a = 1 then write_reg1 v s
      else if a = 2 then write_reg2 v s
      else if a = 3 then write_reg3 env v s
      else Inr s)"

definition cd_write16 ::
  "('h, ('h, 'm) psx_cd_scheme) dma_env \<Rightarrow> u32 \<Rightarrow> u16 \<Rightarrow> ('h, 'm) psx_cd_scheme \<Rightarrow> ('h, 'm) psx_cd_scheme result" where
  "cd_write16 env a v s = bindE (cd_write8 env a (ucast v) s) (cd_write8 env (a + 1) (ucast (drop_bit 8 v)))"

definition cd_write32 ::
  "('h, ('h, 'm) psx_cd_scheme) dma_env \<Rightarrow> u32 \<Rightarrow> u32 \<Rightarrow> ('h, 'm) psx_cd_scheme \<Rightarrow> ('h, 'm) psx_cd_scheme result" where
  "cd_write32 env a v s = bindE (cd_write16 env a (ucast v) s) (cd_write16 env (a + 2) (ucast (drop_bit 16 v)))"

section \<open>Lid and disc\<close>

definition open_lid :: "('h, 'm) psx_cd_scheme \<Rightarrow> ('h, 'm) psx_cd_scheme result" where
  "open_lid s =
     push_response INT5_ERR [DRIVE_DOOR_OPEN] 0
       (set_stat_flag stat_seek_err True (set_stat_flag stat_shell_open True
         (upd_drive (\<lambda>d. d\<lparr>m_lid_open := True, m_motor_on := False\<rparr>) s)))"

definition close_lid :: "('h, 'm) psx_cd_scheme \<Rightarrow> ('h, 'm) psx_cd_scheme" where
  "close_lid s = upd_drive (\<lambda>d. d\<lparr>m_lid_open := False, m_motor_on := True\<rparr>) s"

definition insert_disc ::
  "host_files \<Rightarrow> string \<Rightarrow> ('h, 'm) psx_cd_scheme \<Rightarrow> (bool \<times> ('h, 'm) psx_cd_scheme) result" where
  "insert_disc fs path s =
     (if extension fs path \<noteq> ''.cue'' \<or> \<not> regular_file fs path then Inr (False, s)
      else
        bindE (cue_bin_init fs path) (\<lambda>c.
          case c of
            None \<Rightarrow> Inr (False, upd_drive (\<lambda>d. d\<lparr>m_cdrom := None\<rparr>) s)
          | Some c \<Rightarrow> Inr (True, upd_drive (\<lambda>d. d\<lparr>m_cdrom := Some c, m_lid_open := False, m_motor_on := True\<rparr>) s)))"

section \<open>Sectors\<close>

text \<open>The places of a sector: the mode in its header, file, channel, submode and coding in its subheader.\<close>

definition sector_mode :: "u8 list \<Rightarrow> u8" where "sector_mode b = b ! 15"
definition sector_file :: "u8 list \<Rightarrow> u8" where "sector_file b = b ! 16"
definition sector_channel :: "u8 list \<Rightarrow> u8" where "sector_channel b = b ! 17"
definition audio_realtime :: "u8 list \<Rightarrow> bool" where "audio_realtime b \<longleftrightarrow> bit (b ! 18) 2 \<and> bit (b ! 18) 6"

definition sector_coding :: "u8 list \<Rightarrow> xa_coding" where
  "sector_coding b = \<lparr>stereo = (get_bits 0 2 (b ! 19) = 1), hz18900 = (get_bits 2 2 (b ! 19) = 1), bit8 = (get_bits 4 2 (b ! 19) = 1)\<rparr>"

definition respects_filter :: "u8 list \<Rightarrow> cd_drive \<Rightarrow> bool" where
  "respects_filter b d \<longleftrightarrow> (xa_filter_enable d \<longrightarrow> sector_file b = filter_file d \<and> sector_channel b = filter_channel d)"

definition waiting_data_response :: "cd_drive \<Rightarrow> bool" where
  "waiting_data_response d \<longleftrightarrow> (\<exists>r \<in> set (queue_contents (m_response_fifo d)). resp_interrupt r = INT1_DATA_RESPONSE)"

definition load_sector :: "u8 list \<Rightarrow> cd_drive \<Rightarrow> cd_drive" where
  "load_sector b d =
     (let bs = (if read_whole_sector d then take SECTOR_WITHOUT_SYNC_SIZE (drop 0xC b) else sector_data b)
      in d\<lparr>m_has_data_to_load := True, m_curr_sector_size := (if read_whole_sector d then SECTOR_WITHOUT_SYNC_SIZE else CD_LOGICAL_SECTOR_SIZE),
           m_curr_sector := bs @ drop (length bs) (m_curr_sector d)\<rparr>)"

definition advance_seek :: "cd_drive \<Rightarrow> cd_drive" where "advance_seek d = d\<lparr>m_seek_loc := cd_next (m_seek_loc d)\<rparr>"

definition deliver_audio :: "u8 list \<Rightarrow> ('h, 'm) psx_cd_scheme \<Rightarrow> ('h, 'm) psx_cd_scheme result" where
  "deliver_audio b s =
     (let d = m_drive s; v = m_volume d in
      bindE (decode_store_xa_adpcm (sector_coding b) (drop 24 b) (\<not> m_enable_audio d \<or> m_mute_adpcm d)
          (left_to_left v) (right_to_right v) (left_to_right v) (right_to_left v) (m_spu s)) (\<lambda>p.
        Inr (upd_drive advance_seek (s\<lparr>m_spu := p\<rparr>))))"

definition deliver_data :: "u8 list \<Rightarrow> ('h, 'm) psx_cd_scheme \<Rightarrow> ('h, 'm) psx_cd_scheme result" where
  "deliver_data b s =
     (let d = m_drive s in
      if queue_full (m_response_fifo d) \<or> m_has_pending_read d \<or> waiting_data_response d then Inr s
      else
        bindE (if \<not> xa_filter_enable d \<or> \<not> audio_realtime b
               then bindE (push_response INT1_DATA_RESPONSE [drive_stat s] 100 s) (\<lambda>s. Inr (upd_drive (load_sector b) s))
               else Inr s) (\<lambda>s.
          Inr (upd_drive advance_seek s)))"

definition deliver_sector :: "track \<Rightarrow> u8 list \<Rightarrow> ('h, 'm) psx_cd_scheme \<Rightarrow> ('h, 'm) psx_cd_scheme result" where
  "deliver_sector t b s =
     (let d = m_drive s; audio = (track_kind t = AUDIO) in
      if enable_xa_adpcm d \<and> \<not> audio \<and> sector_mode b = 2 \<and> respects_filter b d \<and> audio_realtime b then deliver_audio b s
      else if \<not> audio \<or> allow_cd_da d then deliver_data b s
      else Inr s)"

definition read_callback :: "('h, 'm) psx_cd_scheme \<Rightarrow> ('h, 'm) psx_cd_scheme result" where
  "read_callback s =
     (let s = set_stat_flag stat_reading True (set_stat_flag stat_seeking False s) in
      case m_cdrom (m_drive s) of
        None \<Rightarrow> Inl UndefinedBehaviour
      | Some c \<Rightarrow>
          bindE (get_track (get_track_number (m_seek_loc (m_drive s)) c) c) (\<lambda>t.
          bindE (read_sector (m_seek_loc (m_drive s)) empty_sector c) (\<lambda>(b, c).
          bindE (deliver_sector t b (upd_drive (\<lambda>d. d\<lparr>m_cdrom := Some c\<rparr>) s)) (\<lambda>s.
            Inr (schedule_read (read_time_of (m_drive s)) s)))))"

end
