(* ===== verification/Kernel.thy ===== *)
theory Kernel
  imports Drive
begin

text \<open>
  The kernel's hooks on BIOS calls (\<open>KernelHle.cpp\<close>) and the state of \<open>System\<close>. The table of calls that are
  emulated (\<open>m_hle\<close>) is never filled, so a call is always entered; what remains are the hooks at its entry and
  at its exit. A hook is one of the functions the program registers.
\<close>

section \<open>State\<close>

text \<open>The hook of \<open>System::LoadExe\<close>, of the console, of the debugger's window and of the display.\<close>

datatype hook = Load_hook | Putchar_hook | Exceptions_hook u64 | System_error_hook

record kernel =
  m_syscall_entry_hooks :: "(u32 \<times> u64 \<times> hook) list"
  m_syscall_exit_hooks :: "(u32 \<times> u64 \<times> hook) list"
  m_enable_hooks :: bool
  m_hook_id :: u64
  entry_hooks_removal :: "u64 list"
  exit_hooks_removal :: "u64 list"

record 'h psx_system = "'h psx_cd" +
  m_kernel :: kernel
  m_hbreaks :: "u32 list"
  m_break_enable :: bool
  m_hle_enable :: bool
  system_stopped :: bool
  m_silenced_syscalls :: "u32 set"
  hook_flag :: bool
  console_out :: "u8 list"

definition kernel_new :: kernel where
  "kernel_new = \<lparr>m_syscall_entry_hooks = [], m_syscall_exit_hooks = [], m_enable_hooks = False, m_hook_id = 0,
     entry_hooks_removal = [], exit_hooks_removal = []\<rparr>"

definition upd_kernel :: "(kernel \<Rightarrow> kernel) \<Rightarrow> ('h, 'm) psx_system_scheme \<Rightarrow> ('h, 'm) psx_system_scheme" where
  "upd_kernel f s = s\<lparr>m_kernel := f (m_kernel s)\<rparr>"

section \<open>Registration\<close>

definition insert_enter_hook :: "u32 \<Rightarrow> hook \<Rightarrow> kernel \<Rightarrow> u64 \<times> kernel" where
  "insert_enter_hook call h k =
     (m_hook_id k, k\<lparr>m_syscall_entry_hooks := m_syscall_entry_hooks k @ [(call, m_hook_id k, h)], m_hook_id := m_hook_id k + 1\<rparr>)"

definition insert_exit_hook :: "u32 \<Rightarrow> hook \<Rightarrow> kernel \<Rightarrow> u64 \<times> kernel" where
  "insert_exit_hook call h k =
     (m_hook_id k, k\<lparr>m_syscall_exit_hooks := m_syscall_exit_hooks k @ [(call, m_hook_id k, h)], m_hook_id := m_hook_id k + 1\<rparr>)"

text \<open>By name: one identifier for all the calls that have it; \<open>ids\<close> is \<open>GetSyscallIdsByName\<close>.\<close>

definition insert_enter_hooks :: "(string \<Rightarrow> u32 list) \<Rightarrow> string \<Rightarrow> hook \<Rightarrow> kernel \<Rightarrow> u64 option \<times> kernel" where
  "insert_enter_hooks ids name h k =
     (if ids name = [] then (None, k)
      else (Some (m_hook_id k),
        k\<lparr>m_syscall_entry_hooks := m_syscall_entry_hooks k @ map (\<lambda>i. (i, m_hook_id k, h)) (ids name), m_hook_id := m_hook_id k + 1\<rparr>))"

definition insert_exit_hooks :: "(string \<Rightarrow> u32 list) \<Rightarrow> string \<Rightarrow> hook \<Rightarrow> kernel \<Rightarrow> u64 option \<times> kernel" where
  "insert_exit_hooks ids name h k =
     (if ids name = [] then (None, k)
      else (Some (m_hook_id k),
        k\<lparr>m_syscall_exit_hooks := m_syscall_exit_hooks k @ map (\<lambda>i. (i, m_hook_id k, h)) (ids name), m_hook_id := m_hook_id k + 1\<rparr>))"

definition remove_enter_hook :: "u64 \<Rightarrow> kernel \<Rightarrow> kernel" where
  "remove_enter_hook i k = k\<lparr>m_syscall_entry_hooks := filter (\<lambda>(call, j, h). j \<noteq> i) (m_syscall_entry_hooks k)\<rparr>"

definition remove_exit_hook :: "u64 \<Rightarrow> kernel \<Rightarrow> kernel" where
  "remove_exit_hook i k = k\<lparr>m_syscall_exit_hooks := filter (\<lambda>(call, j, h). j \<noteq> i) (m_syscall_exit_hooks k)\<rparr>"

definition schedule_enter_hook_removal :: "u64 \<Rightarrow> kernel \<Rightarrow> kernel" where
  "schedule_enter_hook_removal i k = k\<lparr>entry_hooks_removal := entry_hooks_removal k @ [i]\<rparr>"

definition schedule_exit_hook_removal :: "u64 \<Rightarrow> kernel \<Rightarrow> kernel" where
  "schedule_exit_hook_removal i k = k\<lparr>exit_hooks_removal := exit_hooks_removal k @ [i]\<rparr>"

definition cleanup_entry_hooks :: "kernel \<Rightarrow> kernel" where
  "cleanup_entry_hooks k = (fold remove_enter_hook (entry_hooks_removal k) k)\<lparr>entry_hooks_removal := []\<rparr>"

definition cleanup_exit_hooks :: "kernel \<Rightarrow> kernel" where
  "cleanup_exit_hooks k = (fold remove_exit_hook (exit_hooks_removal k) k)\<lparr>exit_hooks_removal := []\<rparr>"

section \<open>Calls\<close>

definition run_hook :: "hook \<Rightarrow> ('h, 'm) psx_system_scheme \<Rightarrow> ('h, 'm) psx_system_scheme" where
  "run_hook h s =
     (case h of
        Load_hook \<Rightarrow> s\<lparr>system_stopped := True, hook_flag := True\<rparr>
      | Putchar_hook \<Rightarrow> s\<lparr>console_out := console_out s @ [ucast (rreg 4 s)]\<rparr>
      | Exceptions_hook i \<Rightarrow> upd_kernel (schedule_exit_hook_removal i) s
      | System_error_hook \<Rightarrow> s\<lparr>system_stopped := True\<rparr>)"

text \<open>The hooks of one call, in the order of their registration.\<close>

definition hooks_of :: "u32 \<Rightarrow> (u32 \<times> u64 \<times> hook) list \<Rightarrow> hook list" where
  "hooks_of call hs = map (\<lambda>(c, i, h). h) (filter (\<lambda>(c, i, h). c = call) hs)"

definition kernel_syscall :: "u32 \<Rightarrow> ('h, 'm) psx_system_scheme \<Rightarrow> bool \<times> ('h, 'm) psx_system_scheme" where
  "kernel_syscall call s =
     (True,
      if m_enable_hooks (m_kernel s)
      then upd_kernel cleanup_entry_hooks (fold run_hook (hooks_of call (m_syscall_entry_hooks (m_kernel s))) s)
      else s)"

definition exit_syscall :: "u32 \<Rightarrow> ('h, 'm) psx_system_scheme \<Rightarrow> ('h, 'm) psx_system_scheme" where
  "exit_syscall call s =
     (if m_enable_hooks (m_kernel s)
      then upd_kernel cleanup_exit_hooks (fold run_hook (hooks_of call (m_syscall_exit_hooks (m_kernel s))) s)
      else s)"

text \<open>The function \<open>System\<close> gives to the processor. On entry the table is reached with the call's number.\<close>

definition hle_handler ::
  "u32 \<Rightarrow> bool \<Rightarrow> ('h, 'm) psx_system_scheme \<Rightarrow> (bool \<times> ('h, 'm) psx_system_scheme) result" where
  "hle_handler address enter s =
     Inr (if \<not> m_hle_enable s then (True, s)
          else if enter then kernel_syscall (push_bit 4 address OR rreg 9 s) s
          else (True, exit_syscall address s))"

text \<open>Without patched instructions \<open>UndefinedInstruction\<close> finds none at the program counter.\<close>

definition undefined_unpatched ::
  "u32 \<Rightarrow> ('h, 'm) psx_system_scheme \<Rightarrow> (bool \<times> ('h, 'm) psx_system_scheme) result" where
  "undefined_unpatched i s = Inr (False, s)"

section \<open>Properties of the hooks\<close>

lemma run_hook_cpu: "same_cpu s (run_hook h s)"
  by (cases h) (simp_all add: run_hook_def same_cpu_def upd_kernel_def)

lemma fold_hooks_cpu: "same_cpu s (fold run_hook hs s)"
proof (induction hs arbitrary: s)
  case (Cons h hs)
  show ?case by (simp, rule same_cpu_trans[OF run_hook_cpu Cons.IH])
qed simp

lemma hle_handler_cpu: "\<exists>s'. hle_handler a e s = Inr (True, s') \<and> same_cpu s s'"
proof -
  have k: "same_cpu s t \<Longrightarrow> same_cpu s (upd_kernel f t)" for f t
    by (simp add: same_cpu_def upd_kernel_def)
  show ?thesis
    by (auto simp: hle_handler_def kernel_syscall_def exit_syscall_def intro!: k fold_hooks_cpu)
qed

lemma removed_hooks:
  "m_syscall_exit_hooks (fold remove_exit_hook is k) = filter (\<lambda>(c, j, h). j \<notin> set is) (m_syscall_exit_hooks k)"
  "m_syscall_entry_hooks (fold remove_enter_hook is k) = filter (\<lambda>(c, j, h). j \<notin> set is) (m_syscall_entry_hooks k)"
  by (induction "is" arbitrary: k)
    (auto simp: remove_exit_hook_def remove_enter_hook_def intro!: filter_cong)

end
