(* ===== verification/System.thy ===== *)
theory System
  imports Kernel Machine Cpu
begin

text \<open>
  The whole machine: the devices behind the I/O ports (\<open>SystemBus\<close>), the callbacks of the scheduler, and the
  loop of \<open>System.cpp\<close>. The devices reach memory through the bus and the bus reaches the devices; the recursion is
  cut by a depth, at which every device faults.
\<close>

section \<open>Devices\<close>

definition widened :: "('a::len word \<times> 's) result \<Rightarrow> (u32 \<times> 's) result" where
  "widened m = bindE m (\<lambda>(v, s). Inr (ucast v, s))"

definition cd_port_read :: "width \<Rightarrow> u32 \<Rightarrow> ('h, 'm) psx_cd_scheme \<Rightarrow> (u32 \<times> ('h, 'm) psx_cd_scheme) result" where
  "cd_port_read w a s =
     (case w of W8 \<Rightarrow> widened (cd_read8 a s) | W16 \<Rightarrow> widened (cd_read16 a s) | W32 \<Rightarrow> cd_read32 a s)"

definition cd_port_write ::
  "('h, ('h, 'm) psx_cd_scheme) dma_env \<Rightarrow> width \<Rightarrow> u32 \<Rightarrow> u32 \<Rightarrow> ('h, 'm) psx_cd_scheme \<Rightarrow> ('h, 'm) psx_cd_scheme result" where
  "cd_port_write env w a v s =
     (case w of W8 \<Rightarrow> cd_write8 env a (ucast v) s | W16 \<Rightarrow> cd_write16 env a (ucast v) s | W32 \<Rightarrow> cd_write32 env a v s)"

definition spu_port_read :: "width \<Rightarrow> u32 \<Rightarrow> ('h, 'm) psx_cd_scheme \<Rightarrow> (u32 \<times> ('h, 'm) psx_cd_scheme) result" where
  "spu_port_read w a s =
     (case w of W8 \<Rightarrow> widened (Inr (spu_read8 a s)) | W16 \<Rightarrow> widened (Inr (spu_read16 a s)) | W32 \<Rightarrow> Inr (spu_read32 a s))"

definition spu_port_write ::
  "('h, ('h, 'm) psx_cd_scheme) dma_env \<Rightarrow> width \<Rightarrow> u32 \<Rightarrow> u32 \<Rightarrow> ('h, 'm) psx_cd_scheme \<Rightarrow> ('h, 'm) psx_cd_scheme result" where
  "spu_port_write env w a v s =
     (case w of W8 \<Rightarrow> spu_write8 env a (ucast v) s | W16 \<Rightarrow> spu_write16 env a (ucast v) s | W32 \<Rightarrow> spu_write32 env a v s)"

definition psx_devices ::
  "renderer \<Rightarrow> ('h, ('h, 'm) psx_cd_scheme) dma_env \<Rightarrow> ('h, 'm) psx_cd_scheme device_ops" where
  "psx_devices rd env =
     \<lparr>timer_read = counter_read, timer_write = counter_write,
      dma_read = (\<lambda>a s. Inr (dma_controller_read a s)), dma_write = dma_controller_write env,
      gpu_read_data = (\<lambda>s. Inr (gpu_read_port s)), gpu_read_stat = gpu_read_status \<lparr>gpu_dma = env, render = rd\<rparr>,
      gpu_write_gp0 = write_gp0 \<lparr>gpu_dma = env, render = rd\<rparr>, gpu_write_gp1 = write_gp1 \<lparr>gpu_dma = env, render = rd\<rparr>,
      cdrom_read = cd_port_read, cdrom_write = cd_port_write env,
      sio_read = sio_port_read, sio_write = sio_port_write,
      mdec_read_data = mdec_data env, mdec_read_stat = (\<lambda>s. Inr (mdec_read_status s)),
      mdec_write_command = mdec_command env, mdec_write_control = mdec_control env,
      spu_read = spu_port_read, spu_write = spu_port_write env\<rparr>"

definition no_devices :: "('h, 'm) psx_cd_scheme device_ops" where
  "no_devices =
     \<lparr>timer_read = (\<lambda>k a s. Inl OutOfFuel), timer_write = (\<lambda>k a v s. Inl OutOfFuel),
      dma_read = (\<lambda>a s. Inl OutOfFuel), dma_write = (\<lambda>a v k s. Inl OutOfFuel),
      gpu_read_data = (\<lambda>s. Inl OutOfFuel), gpu_read_stat = (\<lambda>s. Inl OutOfFuel),
      gpu_write_gp0 = (\<lambda>v s. Inl OutOfFuel), gpu_write_gp1 = (\<lambda>v s. Inl OutOfFuel),
      cdrom_read = (\<lambda>w a s. Inl OutOfFuel), cdrom_write = (\<lambda>w a v s. Inl OutOfFuel),
      sio_read = (\<lambda>k w a s. Inl OutOfFuel), sio_write = (\<lambda>k w a v s. Inl OutOfFuel),
      mdec_read_data = (\<lambda>s. Inl OutOfFuel), mdec_read_stat = (\<lambda>s. Inl OutOfFuel),
      mdec_write_command = (\<lambda>v s. Inl OutOfFuel), mdec_write_control = (\<lambda>v s. Inl OutOfFuel),
      spu_read = (\<lambda>w a s. Inl OutOfFuel), spu_write = (\<lambda>w a v s. Inl OutOfFuel)\<rparr>"

text \<open>The bus as the transfers see it; they execute no instruction, so the processor's hooks are never called.\<close>

definition transfer_env :: "'h host_os \<Rightarrow> ('h, 'm) psx_cd_scheme device_ops \<Rightarrow> ('h, ('h, 'm) psx_cd_scheme) dma_env" where
  "transfer_env os dev =
     \<lparr>dma_bus = machine_bus os dev (\<lambda>i s. Inl Unreachable) (\<lambda>a e s. Inl Unreachable),
      spu_dma_read = spu_dma_out, spu_dma_write = spu_dma_in, dma_os = os\<rparr>"

fun devices ::
  "nat \<Rightarrow> 'h host_os \<Rightarrow> renderer \<Rightarrow> ('h, 'm) psx_cd_scheme device_ops" where
  "devices 0 os rd = no_devices"
| "devices (Suc n) os rd = psx_devices rd (transfer_env os (devices n os rd))"

section \<open>Callbacks\<close>

text \<open>The functions in the scheduler, with their user data and the cycles they are late.\<close>

definition run_event ::
  "renderer \<Rightarrow> callback \<Rightarrow> u64 \<Rightarrow> u64 \<Rightarrow> ('h, 'm) psx_cd_scheme \<Rightarrow> ('h, 'm) psx_cd_scheme result" where
  "run_event rd cb ud late s =
     (case cb of
        Overflow_callback \<Rightarrow> Inr (overflow_callback (unat ud) late s)
      | Target_callback \<Rightarrow> Inr (target_callback (unat ud) late s)
      | Hblank_callback \<Rightarrow> hblank s
      | Hblank_end_callback \<Rightarrow> hblank_end rd s
      | Transfer_end_callback \<Rightarrow> transfer_complete (unat ud) s
      | Cd_event_callback \<Rightarrow> deliver_interrupt s
      | Cd_read_callback \<Rightarrow> read_callback s
      | Sample_callback \<Rightarrow> Inr (sample_cycle s)
      | Fifo_transfer_callback \<Rightarrow> Inr (fifo_transfer_complete s))"

section \<open>One step\<close>

text \<open>The depth of the machine's own bus: the devices, the bus of their transfers, and the devices behind that.\<close>

definition DEPTH :: nat where "DEPTH = 2"

definition system_bus ::
  "'h host_os \<Rightarrow> renderer \<Rightarrow> ('h, 'm) psx_system_scheme bus_ops" where
  "system_bus os rd = machine_bus os (devices DEPTH os rd) undefined_unpatched hle_handler"

definition system_env ::
  "'h host_os \<Rightarrow> renderer \<Rightarrow> ('h, ('h, 'm) psx_cd_scheme) dma_env" where
  "system_env os rd = transfer_env os (devices DEPTH os rd)"

definition has_active_transfer :: "('h, 'm) psx_dma_scheme \<Rightarrow> bool" where
  "has_active_transfer s \<longleftrightarrow> m_num_active (m_dma_controller s) \<noteq> 0"

text \<open>A transfer's step or an instruction; a transfer's step is counted as one cycle.\<close>

definition do_work ::
  "'h host_os \<Rightarrow> renderer \<Rightarrow> ('h, 'm) psx_system_scheme \<Rightarrow> ('h, 'm) psx_system_scheme result" where
  "do_work os rd s =
     (if has_active_transfer s
      then bindE (advance_transfer (system_env os rd) s) (\<lambda>s. Inr (s\<lparr>m_curr_cycles := 1\<rparr>))
      else step_instruction (system_bus os rd) s)"

text \<open>The callbacks of the decoder's thread, which the loop empties.\<close>

fun drain_callbacks ::
  "nat \<Rightarrow> ('h, ('h, 'm) psx_cd_scheme) dma_env \<Rightarrow> ('h, 'm) psx_cd_scheme \<Rightarrow> ('h, 'm) psx_cd_scheme result" where
  "drain_callbacks fuel env s =
     (case sync_callback_buffer s of
        [] \<Rightarrow> Inr s
      | cb # rest \<Rightarrow>
          (case fuel of
             0 \<Rightarrow> Inl OutOfFuel
           | Suc fuel \<Rightarrow>
               bindE (run_sync_callback env cb (s\<lparr>sync_callback_buffer := rest\<rparr>)) (drain_callbacks fuel env)))"

declare drain_callbacks.simps [simp del]

text \<open>\<open>fuel\<close> bounds the events of one advance.\<close>

definition single_step ::
  "nat \<Rightarrow> 'h host_os \<Rightarrow> renderer \<Rightarrow> ('h, 'm) psx_system_scheme \<Rightarrow> ('h, 'm) psx_system_scheme result" where
  "single_step fuel os rd s =
     bindE (do_work os rd s) (\<lambda>s.
       let cycles = m_curr_cycles s; s = s\<lparr>m_curr_cycles := 0\<rparr> in
       bindE (advance fuel (run_event rd) cycles (m_event_ignore_overflow_cycles (bus s)) s) (\<lambda>s.
         let s = set_bus (\<lambda>b. b\<lparr>m_event_ignore_overflow_cycles := False\<rparr>) s
         in drain_callbacks (length (sync_callback_buffer s)) (system_env os rd) s))"

fun run_interpreter ::
  "nat \<Rightarrow> nat \<Rightarrow> 'h host_os \<Rightarrow> renderer \<Rightarrow> ('h, 'm) psx_system_scheme \<Rightarrow> ('h, 'm) psx_system_scheme result" where
  "run_interpreter 0 fuel os rd s = Inr s"
| "run_interpreter (Suc n) fuel os rd s = bindE (single_step fuel os rd s) (run_interpreter n fuel os rd)"

text \<open>The loop that runs to a breakpoint, a vertical blanking or a stop; the first argument bounds its rounds.\<close>

fun run_loop ::
  "nat \<Rightarrow> nat \<Rightarrow> 'h host_os \<Rightarrow> renderer \<Rightarrow> ('h, 'm) psx_system_scheme \<Rightarrow>
    (bool \<times> ('h, 'm) psx_system_scheme) result" where
  "run_loop 0 fuel os rd s = (if system_stopped s then Inr (False, s) else Inl OutOfFuel)"
| "run_loop (Suc n) fuel os rd s =
     (if system_stopped s then Inr (False, s)
      else
        bindE (single_step fuel os rd s) (\<lambda>s.
          let hit = pc s \<in> set (m_hbreaks s) in
          if vblank_flag s then Inr (hit, s\<lparr>vblank_flag := False\<rparr>)
          else if hit then Inr (True, s)
          else run_loop n fuel os rd s))"

definition run_until_breakpoint ::
  "nat \<Rightarrow> nat \<Rightarrow> 'h host_os \<Rightarrow> renderer \<Rightarrow> ('h, 'm) psx_system_scheme \<Rightarrow>
    (bool \<times> ('h, 'm) psx_system_scheme) result" where
  "run_until_breakpoint rounds fuel os rd s =
     (if \<not> m_break_enable s then Inr (False, s) else run_loop rounds fuel os rd s)"

text \<open>\<open>LoadExe\<close> up to the program's start: the BIOS runs until its hook has been called.\<close>

fun wait_for_hook ::
  "nat \<Rightarrow> nat \<Rightarrow> nat \<Rightarrow> 'h host_os \<Rightarrow> renderer \<Rightarrow> ('h, 'm) psx_system_scheme \<Rightarrow>
    ('h, 'm) psx_system_scheme result" where
  "wait_for_hook n rounds fuel os rd s =
     (if hook_flag s then Inr s
      else case n of
        0 \<Rightarrow> Inl OutOfFuel
      | Suc n \<Rightarrow>
          bindE (run_until_breakpoint rounds fuel os rd (s\<lparr>system_stopped := False\<rparr>)) (\<lambda>(hit, s).
            wait_for_hook n rounds fuel os rd s))"

declare wait_for_hook.simps [simp del]

definition run_bios ::
  "nat \<Rightarrow> nat \<Rightarrow> nat \<Rightarrow> 'h host_os \<Rightarrow> renderer \<Rightarrow> ('h, 'm) psx_system_scheme \<Rightarrow>
    ('h, 'm) psx_system_scheme result" where
  "run_bios n rounds fuel os rd s =
     (let old = m_enable_hooks (m_kernel s);
          (hook, k) = insert_exit_hook 0xC00 Load_hook ((m_kernel s)\<lparr>m_enable_hooks := True\<rparr>)
      in bindE (wait_for_hook n rounds fuel os rd (s\<lparr>m_kernel := k, hook_flag := False\<rparr>)) (\<lambda>s.
           Inr (upd_kernel (\<lambda>k. (remove_exit_hook hook k)\<lparr>m_enable_hooks := old\<rparr>) s)))"

section \<open>Breakpoints and switches\<close>

definition reset_vector :: "('h, 'm) psx_system_scheme \<Rightarrow> ('h, 'm) psx_system_scheme" where
  "reset_vector s = s\<lparr>pc := RESET_VECTOR\<rparr>"

definition add_hardware_break :: "u32 \<Rightarrow> ('h, 'm) psx_system_scheme \<Rightarrow> ('h, 'm) psx_system_scheme" where
  "add_hardware_break a s = (if a \<in> set (m_hbreaks s) then s else s\<lparr>m_hbreaks := m_hbreaks s @ [a]\<rparr>)"

definition remove_hardware_break :: "u32 \<Rightarrow> ('h, 'm) psx_system_scheme \<Rightarrow> ('h, 'm) psx_system_scheme" where
  "remove_hardware_break a s = s\<lparr>m_hbreaks := remove1 a (m_hbreaks s)\<rparr>"

definition is_syscall_silent :: "u32 \<Rightarrow> ('h, 'm) psx_system_scheme \<Rightarrow> bool" where
  "is_syscall_silent n s \<longleftrightarrow> n \<in> m_silenced_syscalls s"

definition set_syscall_silent :: "u32 \<Rightarrow> bool \<Rightarrow> ('h, 'm) psx_system_scheme \<Rightarrow> ('h, 'm) psx_system_scheme" where
  "set_syscall_silent n quiet_call s =
     (let c = is_syscall_silent n s in
      if c \<and> \<not> quiet_call then s\<lparr>m_silenced_syscalls := m_silenced_syscalls s - {n}\<rparr>
      else if \<not> c \<and> quiet_call then s\<lparr>m_silenced_syscalls := insert n (m_silenced_syscalls s)\<rparr>
      else s)"

definition silence_syscalls_default ::
  "(string \<Rightarrow> u32 list) \<Rightarrow> string list \<Rightarrow> ('h, 'm) psx_system_scheme \<Rightarrow> ('h, 'm) psx_system_scheme" where
  "silence_syscalls_default ids names s =
     s\<lparr>m_silenced_syscalls := m_silenced_syscalls s \<union> set (concat (map ids names))\<rparr>"

section \<open>Controllers\<close>

text \<open>A new controller in a slot of SIO0; an unknown slot or type changes nothing.\<close>

definition put_controller :: "controller \<Rightarrow> driver option \<Rightarrow> driver option" where
  "put_controller c d = map_option (\<lambda>d. d\<lparr>m_controller := c\<rparr>) d"

definition controller_of_type :: "string \<Rightarrow> controller option" where
  "controller_of_type ty =
     (if ty = ''NONE'' then Some Null_controller
      else if ty = ''STANDARD'' then Some (Standard_controller pad_new) else None)"

definition connect_controller :: "u32 \<Rightarrow> string \<Rightarrow> ('h, 'm) psx_sio_scheme \<Rightarrow> ('h, 'm) psx_sio_scheme" where
  "connect_controller slot ty s =
     (if slot \<noteq> 0 \<and> slot \<noteq> 1 then s
      else case controller_of_type ty of
        None \<Rightarrow> s
      | Some c \<Rightarrow>
          upd_port 0 (\<lambda>p. if slot = 0 then p\<lparr>m_port1 := put_controller c (m_port1 p)\<rparr>
                          else p\<lparr>m_port2 := put_controller c (m_port2 p)\<rparr>) s)"

section \<open>Memory cards\<close>

definition put_card :: "card \<Rightarrow> driver option \<Rightarrow> driver option" where
  "put_card c d = map_option (\<lambda>d. d\<lparr>m_card := c\<rparr>) d"

text \<open>
  The card of a slot from a host file: \<open>extension\<close> is what \<open>std::filesystem\<close> says, \<open>creatable\<close> whether a missing
  file can be created. The files may be one more afterwards.
\<close>

definition connect_card ::
  "(string \<Rightarrow> string option) \<Rightarrow> (string \<Rightarrow> bool) \<Rightarrow> (string \<Rightarrow> bool) \<Rightarrow> (string \<Rightarrow> u8 list option) \<Rightarrow> u32 \<Rightarrow> string \<Rightarrow>
    ('h, 'm) psx_sio_scheme \<Rightarrow> (string \<Rightarrow> u8 list option) \<times> ('h, 'm) psx_sio_scheme" where
  "connect_card ext creatable openable files slot path s =
     (if slot \<noteq> 0 \<and> slot \<noteq> 1 \<or> ext path \<notin> {Some ''.MC'', Some ''.mc''} then (files, s)
      else if files path = None \<and> \<not> creatable path then (files, s)
      else
        let files = (if files path = None then files(path \<mapsto> []) else files);
            (ok, c) = load_file files openable path memcard_new
        in (files,
            if \<not> ok then s
            else upd_port 0 (\<lambda>p. if slot = 0 then p\<lparr>m_port1 := put_card (Official_card c) (m_port1 p)\<rparr>
                                 else p\<lparr>m_port2 := put_card (Official_card c) (m_port2 p)\<rparr>) s))"

end
