(* ===== verification/PowerOn.thy ===== *)
theory PowerOn
  imports System
begin

text \<open>
  The construction of the machine (\<open>System::System\<close>, \<open>System::FollowConfig\<close>): the devices as their constructors
  leave them, the BIOS image, the configured cards and controllers, the first events of the video signal and of the
  sound unit, and the processor at the reset vector.
\<close>

section \<open>The BIOS image\<close>

fun copy_raw :: "'h host_os \<Rightarrow> u8 list \<Rightarrow> u32 \<Rightarrow> 'h \<Rightarrow> 'h result" where
  "copy_raw os [] a h = Inr h"
| "copy_raw os (b # bs) a h = bindE (store_bytes os 1 a (ucast b) h) (copy_raw os bs (a + 1))"

text \<open>The image is mapped writeable, copied, and mapped again read-only.\<close>

definition bus_load_bios :: "'h host_os \<Rightarrow> u8 list \<Rightarrow> 'h bus_regs \<Rightarrow> 'h bus_regs result" where
  "bus_load_bios os bytes b =
     (let b = snd (reset_bios_map os b); (ok, b) = set_bios_map os (512 * 1024) False b in
      if \<not> ok then Inl Thrown
      else
        bindE (copy_raw os bytes (ucast PSX_BIOS_OFFSET) (host (m_mapper b))) (\<lambda>h.
          let (ok, b) = reset_bios_map os (b\<lparr>m_mapper := (m_mapper b)\<lparr>host := h\<rparr>\<rparr>) in
          if \<not> ok then Inl Thrown
          else
            let (ok, b) = set_bios_map os (512 * 1024) True b in
            if \<not> ok then Inl Thrown else Inr b))"

text \<open>\<open>System::LoadBios\<close>: the file must exist, open, and have the size of the BIOS.\<close>

definition load_bios ::
  "'h host_os \<Rightarrow> (string \<Rightarrow> u8 list option) \<Rightarrow> (string \<Rightarrow> bool) \<Rightarrow> string \<Rightarrow> 'h bus_regs \<Rightarrow> 'h bus_regs result" where
  "load_bios os files openable path b =
     (case files path of
        None \<Rightarrow> Inl Thrown
      | Some bytes \<Rightarrow>
          if \<not> openable path then Inl Thrown
          else if length bytes \<noteq> unat PSX_BIOS_SIZE then Inl Thrown
          else bus_load_bios os bytes b)"

section \<open>Configuration\<close>

record system_conf =
  bios_path :: string
  controller_1_connected :: bool
  controller_2_connected :: bool
  controller_1_type :: string
  controller_2_type :: string
  mc_1_connected :: bool
  mc_2_connected :: bool
  mc_1_file :: string
  mc_2_file :: string
  conf_region :: string
  conf_pal :: bool
  enable_breakpoints :: bool
  enable_hle :: bool
  enable_syscall_hooks :: bool
  silence_syscalls :: "string list"

definition default_conf :: system_conf where
  "default_conf =
     \<lparr>bios_path = ''../programs/SCPH1001.BIN'', controller_1_connected = True, controller_2_connected = False,
      controller_1_type = ''STANDARD'', controller_2_type = ''NONE'', mc_1_connected = True, mc_2_connected = False,
      mc_1_file = ''../memcards/mc1.mc'', mc_2_file = '''', conf_region = ''AMERICA'', conf_pal = False,
      enable_breakpoints = True, enable_hle = True, enable_syscall_hooks = True, silence_syscalls = []\<rparr>"

text \<open>What the host offers: its files, which can be opened and created, their extensions, and the table of calls.\<close>

record host_env =
  env_files :: "string \<Rightarrow> u8 list option"
  env_openable :: "string \<Rightarrow> bool"
  env_creatable :: "string \<Rightarrow> bool"
  env_extension :: "string \<Rightarrow> string option"
  env_syscalls :: "string \<Rightarrow> u32 list"

definition empty_driver :: driver where
  "empty_driver = \<lparr>m_selected = No_device, m_controller = Null_controller, m_card = Null_card\<rparr>"

definition plug_drivers :: "('h, 'm) psx_sio_scheme \<Rightarrow> ('h, 'm) psx_sio_scheme" where
  "plug_drivers s = upd_port 0 (\<lambda>p. p\<lparr>m_port1 := Some empty_driver, m_port2 := Some empty_driver\<rparr>) s"

definition connect_slot ::
  "host_env \<Rightarrow> bool \<Rightarrow> u32 \<Rightarrow> string \<Rightarrow> (string \<Rightarrow> u8 list option) \<times> ('h, 'm) psx_sio_scheme \<Rightarrow>
    (string \<Rightarrow> u8 list option) \<times> ('h, 'm) psx_sio_scheme" where
  "connect_slot e on slot path x =
     (let (files, s) = x in
      if on then connect_card (env_extension e) (env_creatable e) (env_openable e) files slot path s else (files, s))"

definition connect_pad :: "bool \<Rightarrow> u32 \<Rightarrow> string \<Rightarrow> ('h, 'm) psx_sio_scheme \<Rightarrow> ('h, 'm) psx_sio_scheme" where
  "connect_pad on slot ty s = (if on then connect_controller slot ty s else s)"

definition follow_config ::
  "'h host_os \<Rightarrow> host_env \<Rightarrow> system_conf \<Rightarrow> ('h, 'm) psx_system_scheme \<Rightarrow>
    ((string \<Rightarrow> u8 list option) \<times> ('h, 'm) psx_system_scheme) result" where
  "follow_config os e conf s =
     (let s = plug_drivers s in
      bindE (load_bios os (env_files e) (env_openable e) (bios_path conf) (bus s)) (\<lambda>b.
        let (files, s) = connect_slot e (mc_2_connected conf) 1 (mc_2_file conf)
              (connect_slot e (mc_1_connected conf) 0 (mc_1_file conf) (env_files e, s\<lparr>bus := b\<rparr>));
            s = connect_pad (controller_2_connected conf) 1 (controller_2_type conf)
              (connect_pad (controller_1_connected conf) 0 (controller_1_type conf) s);
            s = upd_kernel (\<lambda>k. k\<lparr>m_enable_hooks := enable_syscall_hooks conf\<rparr>)
              (s\<lparr>m_break_enable := enable_breakpoints conf, m_hle_enable := enable_hle conf\<rparr>);
            s = silence_syscalls_default (env_syscalls e) (silence_syscalls conf) s
        in Inr (files, upd_gpu (\<lambda>g. g\<lparr>m_pal := conf_pal conf\<rparr>) s)))"

section \<open>Construction\<close>

text \<open>
  The members of \<open>System\<close>, from the processor outwards: the bus registers, the three counters, the channels, the two
  serial ports, the decoder, the graphics unit, the sound unit, the drive, and \<open>System\<close>'s own fields.
\<close>

definition machine_new :: "'h bus_regs \<Rightarrow> bool \<Rightarrow> vram \<Rightarrow> string \<Rightarrow> 'h psx_system" where
  "machine_new b simd v region =
     psx_cd.extend (psx_spu.extend (psx_gpu.extend (psx_mdec.extend (psx_sio.extend (psx_dma.extend
       (psx_timers.extend (psx.extend (cpu.extend cpu_init (psx.fields b))
         (psx_timers.fields (map counter_init [0, 1, 2])))
         (psx_dma.fields (dma_init simd)))
         (psx_sio.fields [sio_new, sio_new]))
         (psx_mdec.fields mdec_new []))
         (psx_gpu.fields (gpu_new v) False))
         (psx_spu.fields spu_new))
         (psx_cd.fields (drive_new region)))
         (psx_system.fields kernel_new [] False False True {} False [])"

definition system_init ::
  "'h host_os \<Rightarrow> u64 \<Rightarrow> 'h \<Rightarrow> bool \<Rightarrow> vram \<Rightarrow> host_env \<Rightarrow> system_conf \<Rightarrow>
    ((string \<Rightarrow> u8 list option) \<times> 'h psx_system) result" where
  "system_init os page h simd v e conf =
     bindE (bus_init os page h) (\<lambda>b.
       bindE (follow_config os e conf (setup_events (init_events (machine_new b simd v (conf_region conf))))) (\<lambda>(files, s).
         Inr (files, reset_vector s)))"

end
