(* ===== verification/DmaFrame.thy ===== *)
theory DmaFrame
  imports DmaSpec
begin

text \<open>
  What a device relies on when it raises its request line: the transfer that starts reads at most one
  word from memory, so whatever relation the reads and the controller's own bookkeeping keep between the states
  is kept by the request.
\<close>

locale request_line =
  fixes env :: "('h, ('h, 'm) psx_dma_scheme) dma_env"
    and F :: "fault set"
    and kept :: "('h, 'm) psx_dma_scheme \<Rightarrow> ('h, 'm) psx_dma_scheme \<Rightarrow> bool"
  assumes header_read: "ensures F (\<lambda>(v, s'). kept s s') (bus_read (dma_bus env) W32 False False a s)"
    and kept_ctl: "kept s (upd_ctl g s)"
    and kept_trans: "kept s t \<Longrightarrow> kept t u \<Longrightarrow> kept s u"
    and stop: "DebugBreak \<in> F"
begin

lemma kept_refl: "kept s s"
  using kept_ctl[of s "\<lambda>d. d"] by (simp add: upd_ctl_def)

lemma kept_channel: "kept s (upd_channel k f s)" "kept s (set_dreq b k s)"
  by (simp_all add: upd_channel_def set_dreq_def kept_ctl)

lemma kept_controller: "kept s (s\<lparr>m_dma_controller := d\<rparr>)"
  using kept_ctl[of s "\<lambda>_. d"] by (simp add: upd_ctl_def)

lemma then_channel: "kept s t \<Longrightarrow> kept s (upd_channel k f t)"
  using kept_trans kept_channel(1) by blast

lemma then_controller: "kept s t \<Longrightarrow> kept s (t\<lparr>m_dma_controller := d\<rparr>)"
  using kept_trans kept_controller by blast

lemma dma_fetch_kept: "ensures F (\<lambda>(v, s'). kept s s') (dma_fetch env False a s)"
  using header_read by (simp add: dma_fetch_def)

lemma after_channel:
  assumes "ensures F (kept (upd_channel k f s)) m"
  shows "ensures F (kept s) m"
  by (rule ensures_mono[OF assms order_refl]) (rule kept_trans[OF kept_channel(1)])

lemma sync_ok: "ensures F (\<lambda>(go, s'). kept s s') (start_sync env resume k s)"
proof -
  have chan: "kept s (upd_channel k f (upd_channel k g s))" for f g
    by (rule kept_trans[OF kept_channel(1) kept_channel(1)])
  have fetch: "ensures F (\<lambda>(go, s'). kept s s')
      (bindE (dma_fetch env False a t) (\<lambda>(header, s). Inr (True, upd_channel k (f header) s)))" if "kept s t" for a t f
    by (rule ensures_bind[OF dma_fetch_kept]) (auto intro!: then_channel intro: kept_trans[OF that])
  show ?thesis
    unfolding start_sync_def Let_def
    by (intro ensures_cond fetch kept_refl kept_channel) (simp_all add: kept_channel kept_refl chan)
qed

lemma start_ok: "ensures F (kept s) (transfer_start env resume k s)"
proof -
  have add: "ensures F (\<lambda>_. True) (add_transfer k d)" for d
    using stop by (simp add: add_transfer_def Let_def)
  have go: "ensures F (kept s) (if \<not> go then Inr t
      else let t = upd_channel k (\<lambda>c. c\<lparr>m_control := put_flag 28 False (m_control c)\<rparr>) t
           in bindE (add_transfer k (m_dma_controller t)) (\<lambda>d.
                Inr (upd_channel k (\<lambda>c. c\<lparr>m_running := True\<rparr>) (t\<lparr>m_dma_controller := d\<rparr>))))"
    if "kept s t" for go t
    unfolding Let_def
    by (intro ensures_cond ensures_bind[OF add])
      (auto intro!: that then_channel then_controller)
  have begun: "ensures F (kept s) (bindE (start_sync env resume k (upd_channel k f s)) (\<lambda>(go, t). if \<not> go then Inr t
      else let t = upd_channel k (\<lambda>c. c\<lparr>m_control := put_flag 28 False (m_control c)\<rparr>) t
           in bindE (add_transfer k (m_dma_controller t)) (\<lambda>d.
                Inr (upd_channel k (\<lambda>c. c\<lparr>m_running := True\<rparr>) (t\<lparr>m_dma_controller := d\<rparr>)))))" for f
    by (rule ensures_bind[OF sync_ok]) (auto intro!: go intro: kept_trans[OF kept_channel(1)])
  show ?thesis
    unfolding transfer_start_def Let_def
    by (intro ensures_cond begun[unfolded Let_def]) (simp_all add: kept_refl stop)
qed

lemma request_ok: "ensures F (kept s) (dreq_rising_edge env k s)"
  unfolding dreq_rising_edge_def Let_def by (intro ensures_cond) (simp_all add: start_ok kept_refl)

lemma request_with_line: "ensures F (kept s) (dreq_rising_edge env k (set_dreq b k s))"
  by (rule ensures_mono[OF request_ok order_refl]) (rule kept_trans[OF kept_channel(2)])

end

end
