(* ===== verification/DeviceFrame.thy ===== *)
theory DeviceFrame
  imports Drive DmaFrame
begin

text \<open>
  What the devices leave alone. A part of the state (a view) that no device field belongs to is the same after
  every access to a device, every callback of the scheduler and every step of a transfer. The proofs go through
  the operations with one set of rules, by the form of the result: a state, a state with a value, or either of
  them behind a possible fault.
\<close>

section \<open>Rules\<close>

definition same_view :: "('s \<Rightarrow> 'v) \<Rightarrow> 'v \<Rightarrow> 's result \<Rightarrow> bool" where
  "same_view V x m \<longleftrightarrow> ensures UNIV (\<lambda>s. V s = x) m"

definition same_view2 :: "('s \<Rightarrow> 'v) \<Rightarrow> 'v \<Rightarrow> ('a \<times> 's) result \<Rightarrow> bool" where
  "same_view2 V x m \<longleftrightarrow> ensures UNIV (\<lambda>(v, s). V s = x) m"

lemma same_view_Inr: "V s = x \<Longrightarrow> same_view V x (Inr s)" "V s = x \<Longrightarrow> same_view2 V x (Inr (v, s))"
  by (simp_all add: same_view_def same_view2_def)

lemma same_view_pair: "V (snd p) = x \<Longrightarrow> same_view2 V x (Inr p)"
  by (simp add: same_view2_def split_beta)

lemma same_view_Inl: "same_view V x (Inl e)" "same_view2 V x (Inl e)"
  by (simp_all add: same_view_def same_view2_def)

lemma same_view_bind:
  "same_view V x m \<Longrightarrow> (\<And>s. V s = x \<Longrightarrow> same_view V x (f s)) \<Longrightarrow> same_view V x (bindE m f)"
  "same_view V x m \<Longrightarrow> (\<And>s. V s = x \<Longrightarrow> same_view2 V x (g s)) \<Longrightarrow> same_view2 V x (bindE m g)"
  "same_view2 V x n \<Longrightarrow> (\<And>v s. V s = x \<Longrightarrow> same_view V x (h v s)) \<Longrightarrow> same_view V x (bindE n (\<lambda>(v, s). h v s))"
  "same_view2 V x n \<Longrightarrow> (\<And>v s. V s = x \<Longrightarrow> same_view2 V x (k v s)) \<Longrightarrow> same_view2 V x (bindE n (\<lambda>(v, s). k v s))"
  unfolding same_view_def same_view2_def by (erule ensures_bind, force)+

lemma same_view_any:
  "(\<And>a. same_view V x (f a)) \<Longrightarrow> same_view V x (bindE m f)"
  "(\<And>a. same_view2 V x (g a)) \<Longrightarrow> same_view2 V x (bindE m g)"
  by (cases m; simp add: same_view_Inl)+

lemma same_view_if:
  "same_view V x m \<Longrightarrow> same_view V x n \<Longrightarrow> same_view V x (if c then m else n)"
  "same_view2 V x m2 \<Longrightarrow> same_view2 V x n2 \<Longrightarrow> same_view2 V x (if c then m2 else n2)"
  "V s = x \<Longrightarrow> V t = x \<Longrightarrow> V (if c then s else t) = x"
  "V (snd p) = x \<Longrightarrow> V (snd q) = x \<Longrightarrow> V (snd (if c then p else q)) = x"
  "same_view V x (f t) \<Longrightarrow> same_view V x (g t) \<Longrightarrow> same_view V x ((if c then f else g) t)"
  by simp_all

lemma same_view_let:
  "V s = x \<Longrightarrow> (\<And>s. V s = x \<Longrightarrow> same_view V x (f s)) \<Longrightarrow> same_view V x (let s = s in f s)"
  "V s = x \<Longrightarrow> (\<And>s. V s = x \<Longrightarrow> same_view2 V x (g s)) \<Longrightarrow> same_view2 V x (let s = s in g s)"
  "V s = x \<Longrightarrow> (\<And>s. V s = x \<Longrightarrow> V (h s) = x) \<Longrightarrow> V (let s = s in h s) = x"
  "V s = x \<Longrightarrow> (\<And>s. V s = x \<Longrightarrow> V (snd (k s)) = x) \<Longrightarrow> V (snd (let s = s in k s)) = x"
  by simp_all

lemma same_view_value:
  "(\<And>a. same_view V x (f a)) \<Longrightarrow> same_view V x (let a = a in f a)"
  "(\<And>a. same_view2 V x (g a)) \<Longrightarrow> same_view2 V x (let a = a in g a)"
  "(\<And>a. V (h a) = x) \<Longrightarrow> V (let a = a in h a) = x"
  "(\<And>a. V (snd (k a)) = x) \<Longrightarrow> V (snd (let a = a in k a)) = x"
  by simp_all

lemma same_view_let_pair:
  "V (snd p) = x \<Longrightarrow> (\<And>v s. V s = x \<Longrightarrow> same_view V x (f v s)) \<Longrightarrow> same_view V x (let (v, s) = p in f v s)"
  "V (snd p) = x \<Longrightarrow> (\<And>v s. V s = x \<Longrightarrow> same_view2 V x (g v s)) \<Longrightarrow> same_view2 V x (let (v, s) = p in g v s)"
  "V (snd p) = x \<Longrightarrow> (\<And>v s. V s = x \<Longrightarrow> V (h v s) = x) \<Longrightarrow> V (let (v, s) = p in h v s) = x"
  "V (snd p) = x \<Longrightarrow> (\<And>v s. V s = x \<Longrightarrow> V (snd (k v s)) = x) \<Longrightarrow> V (snd (let (v, s) = p in k v s)) = x"
  by (cases p; simp)+

lemma same_view_let_fst:
  "V (fst p) = x \<Longrightarrow> (\<And>s v. V s = x \<Longrightarrow> same_view V x (f s v)) \<Longrightarrow> same_view V x (let (s, v) = p in f s v)"
  "V (fst p) = x \<Longrightarrow> (\<And>s v. V s = x \<Longrightarrow> V (h s v) = x) \<Longrightarrow> V (let (s, v) = p in h s v) = x"
  "V (fst q) = x \<Longrightarrow> V (fst r) = x \<Longrightarrow> V (fst (if c then q else r)) = x"
  "V s = x \<Longrightarrow> (\<And>s. V s = x \<Longrightarrow> V (fst (k s)) = x) \<Longrightarrow> V (fst (let s = s in k s)) = x"
  "(\<And>a. V (fst (k2 a)) = x) \<Longrightarrow> V (fst (let a = a in k2 a)) = x"
  "V s = x \<Longrightarrow> V (fst (s, b)) = x"
  by (cases p; simp)+

lemma same_view_split:
  "(\<And>a b. same_view V x (f a b)) \<Longrightarrow> same_view V x (case p of (a, b) \<Rightarrow> f a b)"
  "(\<And>a b. same_view2 V x (g a b)) \<Longrightarrow> same_view2 V x (case p of (a, b) \<Rightarrow> g a b)"
  "(\<And>a b. V (h a b) = x) \<Longrightarrow> V (case p of (a, b) \<Rightarrow> h a b) = x"
  "(\<And>a b. V (snd (k a b)) = x) \<Longrightarrow> V (snd (case p of (a, b) \<Rightarrow> k a b)) = x"
  "(\<And>a b. V (h1 a b t) = x) \<Longrightarrow> V ((case p of (a, b) \<Rightarrow> h1 a b) t) = x"
  "(\<And>a b. V (snd (k1 a b t)) = x) \<Longrightarrow> V (snd ((case p of (a, b) \<Rightarrow> k1 a b) t)) = x"
  by (cases p; simp)+

lemma same_view_option:
  "same_view V x m \<Longrightarrow> (\<And>a. same_view V x (f a)) \<Longrightarrow> same_view V x (case q of None \<Rightarrow> m | Some a \<Rightarrow> f a)"
  "same_view2 V x n \<Longrightarrow> (\<And>a. same_view2 V x (g a)) \<Longrightarrow> same_view2 V x (case q of None \<Rightarrow> n | Some a \<Rightarrow> g a)"
  by (cases q; simp)+

lemma same_view_snd: "V s = x \<Longrightarrow> V (snd (a, s)) = x"
  by simp

lemma same_view_foldl: "V s = x \<Longrightarrow> (\<And>s a. V s = x \<Longrightarrow> V (f s a) = x) \<Longrightarrow> V (foldl f s as) = x"
  by (induction as arbitrary: s) simp_all

lemmas view_rules =
  same_view_Inr same_view_pair same_view_Inl same_view_if same_view_bind same_view_any same_view_let
  same_view_let_pair same_view_let_fst same_view_value same_view_split same_view_option same_view_snd same_view_foldl

lemma ensures_any: "(\<And>a. ensures UNIV P (f a)) \<Longrightarrow> ensures UNIV P (bindE m f)"
  by (cases m) simp_all

lemma ensures_option:
  "ensures F P m \<Longrightarrow> (\<And>a. q = Some a \<Longrightarrow> ensures F P (f a)) \<Longrightarrow> ensures F P (case q of None \<Rightarrow> m | Some a \<Rightarrow> f a)"
  by (cases q) simp_all

section \<open>Timers, requests and ports\<close>

text \<open>The fields every device may change: the scheduler's, the clock, the interrupt request, and its own.\<close>

locale device_frame =
  fixes V :: "('h, 'm) psx_cd_scheme \<Rightarrow> 'v"
  assumes scheduler_fields:
      "V (m_curr_timestamp_update f1 s) = V s" "V (m_last_id_update f2 s) = V s"
      "V (m_num_events_update f3 s) = V s" "V (m_events_update f4 s) = V s"
    and cpu_fields:
      "V (interrupt_request_update f5 s) = V s" "V (interrupt_line_update f6 s) = V s"
      "V (interrupt_mask_update f8 s) = V s" "V (exception_update f9 s) = V s"
      "V (exception_number_update f10 s) = V s" "V (badvaddr_update f11 s) = V s"
      "V (m_curr_cycles_update f12 s) = V s" "V (bus_update f13 s) = V s"
    and device_fields:
      "V (m_counters_update g1 s) = V s" "V (m_dma_controller_update g2 s) = V s" "V (m_sio_update g3 s) = V s"
      "V (m_gpu_update g4 s) = V s" "V (vblank_flag_update g5 s) = V s" "V (m_drive_update g6 s) = V s"
begin

lemmas fields = scheduler_fields cpu_fields device_fields
lemmas rules = view_rules[where V = V]

lemma events [simp]:
  "V (snd (schedule_absolute t cb u s)) = V s" "V (snd (schedule n cb u s)) = V s" "V (snd (deschedule i s)) = V s"
  "V (raise_interrupt c s) = V s"
  by (simp_all add: schedule_def schedule_absolute_def deschedule_def raise_interrupt_def Let_def fields)

lemma owners [simp]:
  "V (set_counter k c s) = V s" "V (upd_ctl f s) = V s" "V (upd_channel k h s) = V s" "V (set_dreq b k s) = V s"
  "V (upd_port k g s) = V s" "V (upd_gpu j s) = V s" "V (upd_drive d s) = V s" "V (set_index_flag i b s) = V s"
  "V (set_stat_flag i b s) = V s" "V (set_bus l s) = V s" "V (add_cycles b n s) = V s"
  "V (bus_exception b e a s) = V s" "V (motor_status s) = V s"
  by (simp_all add: set_counter_def upd_ctl_def upd_channel_def set_dreq_def upd_port_def upd_gpu_def upd_drive_def
      set_index_flag_def set_stat_flag_def set_bus_def add_cycles_def bus_exception_def flag_exception_def
      motor_status_def Let_def fields split: option.split)

lemma counter_updates [simp]:
  "V (schedule_counter n cb k s) = V s" "V (fire_irq src k s) = V s"
  by (simp_all add: schedule_counter_def fire_irq_def Let_def split_beta)

lemma reschedule_keeps [simp]: "V (reschedule k s) = V s"
  unfolding reschedule_def by (rule rules | simp)+

lemma sync_counter_keeps: "V s = x \<Longrightarrow> same_view V x (sync_counter k s)"
  unfolding sync_counter_def by (rule rules | simp)+

lemma update_events_keeps: "V s = x \<Longrightarrow> same_view V x (update_events k s)"
  unfolding update_events_def by (rule sync_counter_keeps rules | simp)+

lemma set_dotclock_keeps: "V s = x \<Longrightarrow> same_view V x (set_dotclock sel k s)"
  unfolding set_dotclock_def by (rule update_events_keeps rules | simp)+

lemma counter_access:
  "V s = x \<Longrightarrow> same_view2 V x (counter_read k a s)" "V s = x \<Longrightarrow> same_view V x (counter_write k a v s)"
  unfolding counter_read_def counter_write_def by (rule sync_counter_keeps update_events_keeps rules | simp)+

lemma blanks:
  "V s = x \<Longrightarrow> same_view V x (counter_hblank k s)" "V s = x \<Longrightarrow> same_view V x (counter_hblank_end k s)"
  "V s = x \<Longrightarrow> same_view V x (counter_vblank k s)" "V s = x \<Longrightarrow> same_view V x (counter_vblank_end k s)"
  unfolding counter_hblank_def counter_hblank_end_def counter_vblank_def counter_vblank_end_def on_blank_def
  by (rule sync_counter_keeps update_events_keeps rules | simp)+

lemma counter_events [simp]:
  "V (overflow_callback k late s) = V s" "V (target_callback k late s) = V s"
  unfolding overflow_callback_def target_callback_def by (rule rules | simp)+

lemma serial_transfers:
  "V s = x \<Longrightarrow> same_view V x (handle_pending_transfer k s)"
  "V s = x \<Longrightarrow> same_view V x (transfer_complete k s)"
  "V s = x \<Longrightarrow> same_view V x (finish_transfer k s)"
proof -
  show a: "V s = x \<Longrightarrow> same_view V x (handle_pending_transfer k s)" for s
    unfolding handle_pending_transfer_def by (rule rules | simp)+
  show b: "V s = x \<Longrightarrow> same_view V x (transfer_complete k s)" for s
    unfolding transfer_complete_def by (rule a rules | simp)+
  show "V s = x \<Longrightarrow> same_view V x (finish_transfer k s)"
    unfolding finish_transfer_def by (rule b rules | simp)+
qed

lemma sio_read8_keeps: "V s = x \<Longrightarrow> same_view2 V x (sio_read8 k a s)"
  unfolding sio_read8_def by (rule serial_transfers rules | simp)+

lemma sio_bytes_keep: "V s = x \<Longrightarrow> same_view2 V x (sio_read_bytes n k s)"
proof (induction n arbitrary: s)
  case (Suc n)
  show ?case unfolding sio_read_bytes.simps
    by (rule sio_read8_keeps rules Suc | simp add: Suc.prems)+
qed (simp add: rules)

lemma sio_stat_keeps: "V s = x \<Longrightarrow> same_view2 V x (sio_read_stat k s)"
  unfolding sio_read_stat_def by (rule serial_transfers rules | simp)+

lemma sio_access:
  "V s = x \<Longrightarrow> same_view2 V x (sio_port_read k w a s)" "V s = x \<Longrightarrow> same_view V x (sio_port_write k w a v s)"
proof -
  have r: "V s = x \<Longrightarrow> same_view2 V x (sio_read16 k a s)" "V s = x \<Longrightarrow> same_view2 V x (sio_read32 k a s)"
    unfolding sio_read16_def sio_read32_def by (rule sio_bytes_keep sio_stat_keeps rules | simp)+
  have w16: "V s = x \<Longrightarrow> same_view V x (sio_write16 k a v s)" for a v
    unfolding sio_write16_def by (rule serial_transfers rules | simp)+
  have w8: "V s = x \<Longrightarrow> same_view V x (sio_write8 k a v s)" for v
    unfolding sio_write8_def by (rule w16 rules | simp)+
  show "V s = x \<Longrightarrow> same_view2 V x (sio_port_read k w a s)"
    unfolding sio_port_read_def by (cases w; simp) (rule sio_read8_keeps r rules | simp)+
  show "V s = x \<Longrightarrow> same_view V x (sio_port_write k w a v s)"
    unfolding sio_port_write_def by (cases w) (simp_all add: w16 w8)
qed

lemma dma_read_keeps [simp]: "V (snd (dma_controller_read a s)) = V s"
  by (simp add: dma_controller_read_def Let_def split: option.split)

lemma gpu_port_keeps [simp]: "V (snd (gpu_read_port s)) = V s"
  by (simp add: gpu_read_port_def split_beta)

section \<open>The drive\<close>

lemma interrupts_keep [simp]:
  "V (request_cd_interrupt i s) = V s" "V (schedule_cd_interrupt n s) = V s" "V (schedule_read n s) = V s"
  by (simp_all add: request_cd_interrupt_def schedule_cd_interrupt_def schedule_read_def Let_def split_beta)

lemma responses_keep:
  "V s = x \<Longrightarrow> same_view V x (push_response i args delay s)"
  "V s = x \<Longrightarrow> same_view2 V x (validate_params n s)"
  "V s = x \<Longrightarrow> same_view2 V x (pop_param s)"
  "V s = x \<Longrightarrow> same_view2 V x (pop_response_byte s)"
  "V s = x \<Longrightarrow> same_view V x (deliver_interrupt s)"
proof -
  show p: "V s = x \<Longrightarrow> same_view V x (push_response i args delay s)" for s i args delay
    unfolding push_response_def by (rule rules | simp)+
  show "V s = x \<Longrightarrow> same_view2 V x (validate_params n s)"
    unfolding validate_params_def by (rule p rules | simp)+
qed (unfold pop_param_def pop_response_byte_def deliver_interrupt_def, (rule rules | simp)+)

lemma two_responses_keep: "V s = x \<Longrightarrow> same_view V x (two_responses a b d s)"
  unfolding two_responses_def by (rule responses_keep rules | simp)+

lemma commands_keep:
  "V s = x \<Longrightarrow> same_view V x (command_get_stat s)" "V s = x \<Longrightarrow> same_view V x (command_get_id s)"
  "V s = x \<Longrightarrow> same_view V x (command_setmode s)" "V s = x \<Longrightarrow> same_view V x (command_stop s)"
  "V s = x \<Longrightarrow> same_view V x (command_read_toc s)" "V s = x \<Longrightarrow> same_view V x (command_set_loc s)"
  "V s = x \<Longrightarrow> same_view V x (command_seek_l s)" "V s = x \<Longrightarrow> same_view V x (start_reading f s)"
  "V s = x \<Longrightarrow> same_view V x (command_pause s)" "V s = x \<Longrightarrow> same_view V x (command_init s)"
  "V s = x \<Longrightarrow> same_view V x (command_audio on s)" "V s = x \<Longrightarrow> same_view V x (command_setfilter s)"
  "V s = x \<Longrightarrow> same_view V x (command_test s)"
  unfolding command_get_stat_def command_get_id_def command_setmode_def command_stop_def command_read_toc_def
    command_set_loc_def command_seek_l_def start_reading_def command_pause_def command_init_def command_audio_def
    command_setfilter_def command_test_def
  by (rule two_responses_keep responses_keep rules | simp)+

lemma execution_keeps:
  "V s = x \<Longrightarrow> same_view V x (command_execute s)" "V s = x \<Longrightarrow> same_view V x (interrupt_ackd s)"
proof -
  have run: "V s = x \<Longrightarrow> same_view V x (dispatch_command c s)" for c s
    unfolding dispatch_command_def command_read_n_def command_read_s_def by (rule commands_keep rules | assumption)+
  show ex: "V s = x \<Longrightarrow> same_view V x (command_execute s)" for s
    unfolding command_execute_def by (rule run rules | simp)+
  have pending: "V s = x \<Longrightarrow> same_view V x (handle_pending_command s)" for s
    unfolding handle_pending_command_def by (rule ex rules | simp)+
  have next_one: "V s = x \<Longrightarrow> same_view V x (next_response s)" for s
    unfolding next_response_def by (rule pending rules | simp)+
  show "V s = x \<Longrightarrow> same_view V x (interrupt_ackd s)"
    unfolding interrupt_ackd_def by (rule next_one rules | simp)+
qed

lemma drive_reads:
  "V s = x \<Longrightarrow> same_view2 V x (cd_read8 a s)" "V s = x \<Longrightarrow> same_view2 V x (cd_read16 a s)"
  "V s = x \<Longrightarrow> same_view2 V x (cd_read32 a s)"
proof -
  show r: "V s = x \<Longrightarrow> same_view2 V x (cd_read8 a s)" for s
    unfolding cd_read8_def read_reg2_def by (rule responses_keep rules | simp)+
  show r: "V s = x \<Longrightarrow> same_view2 V x (cd_read16 a s)" for s
    unfolding cd_read16_def by (rule r rules | simp)+
  show "V s = x \<Longrightarrow> same_view2 V x (cd_read32 a s)"
    unfolding cd_read32_def by (rule r rules | simp)+
qed

end

section \<open>Sound memory\<close>

locale unit_frame = device_frame V
  for V :: "('h, 'm) psx_cd_scheme \<Rightarrow> 'v" +
  assumes unit_fields:
      "V (m_mdec_update h1 s) = V s" "V (sync_callback_buffer_update h2 s) = V s" "V (m_spu_update h3 s) = V s"
begin

lemma mdec_updates [simp]: "V (upd_mdec f s) = V s"
  by (simp add: upd_mdec_def unit_fields)

lemma sound_updates [simp]: "V (upd_spu f s) = V s" "V (upd_voice k g s) = V s" "V (check_ram_irq a s) = V s"
  by (simp_all add: upd_spu_def upd_voice_def check_ram_irq_def Let_def unit_fields)

lemma sound_memory [simp]:
  "V (snd (write_ram8 b a s)) = V s" "V (snd (write_ram16 w a s)) = V s" "V (snd (snd (read_ram8 a s))) = V s"
  "V (snd (snd (read_ram16 a s))) = V s" "V (put_ram16 w s) = V s"
  by (simp_all add: write_ram8_def write_ram16_def read_ram8_def read_ram16_def put_ram16_def Let_def split_beta)

lemma fifo_keeps [simp]: "V (fifo_transfer_complete s) = V s"
proof -
  have "V (write_sound_ram n buf s) = V s" for n buf s
    unfolding write_sound_ram_def by (rule rules | simp)+
  then show ?thesis by (simp add: fifo_transfer_complete_def Let_def)
qed

lemma sound_dma:
  "V s = x \<Longrightarrow> same_view2 V x (spu_dma_out s)" "V s = x \<Longrightarrow> same_view V x (spu_dma_in v s)"
proof -
  have p: "V s = x \<Longrightarrow> same_view V x (spu_push w s)" for w s
    unfolding spu_push_def by (rule rules | simp)+
  show "V s = x \<Longrightarrow> same_view2 V x (spu_dma_out s)" "V s = x \<Longrightarrow> same_view V x (spu_dma_in v s)"
    unfolding spu_dma_in_def spu_dma_out_def by (rule p rules | simp)+
qed

end

section \<open>Transfers and requests\<close>

text \<open>
  With a bus that keeps the view, nothing else in the machine changes it.
\<close>

locale machine_frame = unit_frame V
  for V :: "('h, 'm) psx_cd_scheme \<Rightarrow> 'v" +
  fixes env :: "('h, ('h, 'm) psx_cd_scheme) dma_env"
  assumes read_keeps: "V s = x \<Longrightarrow> same_view2 V x (bus_read (dma_bus env) w e c a s)"
    and write_keeps: "V s = x \<Longrightarrow> same_view V x (bus_write (dma_bus env) w e c a v s)"
    and sound_keeps: "V s = x \<Longrightarrow> same_view2 V x (spu_dma_read env s)" "V s = x \<Longrightarrow> same_view V x (spu_dma_write env v s)"
begin

lemma line: "request_line env UNIV (\<lambda>s t. V t = V s)"
  using read_keeps by unfold_locales (auto simp: same_view2_def split_beta)

lemma request_keeps:
  "V s = x \<Longrightarrow> same_view V x (dreq_rising_edge env k s)" "V s = x \<Longrightarrow> same_view V x (transfer_start env r k s)"
  unfolding same_view_def
  by (rule ensures_mono[OF request_line.request_ok[OF line] order_refl], simp)
    (rule ensures_mono[OF request_line.start_ok[OF line] order_refl], simp)

lemma interrupts_of_transfers [simp]:
  "V (interrupt_request_dma k b s) = V s" "V (signal_exception s) = V s" "V (check_exception s) = V s"
  "V (transfer_end k b s) = V s" "V (next_word n k s) = V s" "V (skip_time n s) = V s"
proof -
  show i: "V (interrupt_request_dma k b s) = V s" for s
    by (simp add: interrupt_request_dma_def Let_def split_beta)
  show x: "V (signal_exception s) = V s" for s
    by (simp add: signal_exception_def Let_def split_beta fields)
  show c: "V (check_exception s) = V s" for s by (simp add: check_exception_def x)
  show "V (transfer_end k b s) = V s" "V (next_word n k s) = V s" "V (skip_time n s) = V s"
    by (simp_all add: transfer_end_def next_word_def skip_time_def Let_def i c fields)
qed

lemma words_keep:
  "V s = x \<Longrightarrow> same_view2 V x (dma_fetch env e a s)" "V s = x \<Longrightarrow> same_view V x (dma_put env a v s)"
  by (simp_all add: dma_fetch_def dma_put_def read_keeps write_keeps)

lemma blocks_keep:
  "V s = x \<Longrightarrow> same_view V x (do_linked env k s)" "V s = x \<Longrightarrow> same_view V x (do_slice env k s)"
  "V s = x \<Longrightarrow> same_view V x (cdrom_burst env s)" "V s = x \<Longrightarrow> same_view V x (spu_advance env s)"
proof -
  have move: "V s = x \<Longrightarrow> same_view V x (move_word env k s)" for s
    unfolding move_word_def by (rule words_keep rules | simp)+
  show "V s = x \<Longrightarrow> same_view V x (do_linked env k s)" "V s = x \<Longrightarrow> same_view V x (do_slice env k s)"
    unfolding do_linked_def do_slice_def by (rule move words_keep rules | simp)+
  show "V s = x \<Longrightarrow> same_view V x (cdrom_burst env s)" "V s = x \<Longrightarrow> same_view V x (spu_advance env s)"
    unfolding cdrom_burst_def spu_advance_def by (rule read_keeps sound_keeps words_keep rules | simp)+
qed

lemma store_keeps: "V s = x \<Longrightarrow> same_view V x (guest_store os w a v s)"
  unfolding guest_store_def by (rule rules | simp)+

lemma table_keeps: "V s = x \<Longrightarrow> same_view V x (ot_advance env s)"
proof -
  have lanes: "V s = x \<Longrightarrow> same_view V x (store_lanes os a vs s)" for os a vs s
    by (induction vs arbitrary: a s) (simp_all add: rules store_keeps)
  have loop: "V s = x \<Longrightarrow> same_view V x (ot_fast_loop n env s)" for n s
  proof (induction n arbitrary: s)
    case (Suc n)
    show ?case unfolding ot_fast_loop.simps by (rule store_keeps rules Suc.IH | simp add: Suc.prems)+
  qed (simp add: rules)
  have simd: "V s = x \<Longrightarrow> same_view V x (ot_simd_loop n env s)" for n s
  proof (induction n arbitrary: s)
    case (Suc n)
    show ?case unfolding ot_simd_loop.simps by (rule lanes rules Suc.IH | simp add: Suc.prems)+
  qed (simp add: rules)
  have fast: "V s = x \<Longrightarrow> same_view V x (ot_fast env s)" for s
    unfolding ot_fast_def ot_simd_def by (rule loop simd rules | simp)+
  have slow: "V s = x \<Longrightarrow> same_view V x (ot_slow env s)" for s
    unfolding ot_slow_def by (rule words_keep rules | simp add: fields)+
  show "V s = x \<Longrightarrow> same_view V x (ot_advance env s)"
    unfolding ot_advance_def by (rule fast slow rules | simp)+
qed

lemma advance_keeps: "V s = x \<Longrightarrow> same_view V x (advance_transfer env s)"
  unfolding advance_transfer_def base_advance_def by (rule table_keeps blocks_keep rules | simp)+

lemma dma_write_keeps: "V s = x \<Longrightarrow> same_view V x (dma_controller_write env a v msk s)"
  unfolding dma_controller_write_def channel_write_def by (rule request_keeps rules | simp)+

section \<open>Graphics\<close>

abbreviation genv :: "renderer \<Rightarrow> ('h, ('h, 'm) psx_cd_scheme) gpu_env" where
  "genv rd \<equiv> \<lparr>gpu_dma = env, render = rd\<rparr>"

lemma update_dreq_keeps: "V s = x \<Longrightarrow> same_view V x (update_dreq (genv rd) s)"
  unfolding update_dreq_def gpu_env.simps by (rule request_keeps rules | simp)+

lemma display_mode_keeps: "V s = x \<Longrightarrow> same_view V x (display_mode c s)"
  unfolding display_mode_def by (rule set_dotclock_keeps rules | simp)+

lemma gpu_access:
  "V s = x \<Longrightarrow> same_view2 V x (gpu_read_status (genv rd) s)" "V s = x \<Longrightarrow> same_view V x (write_gp0 (genv rd) v s)"
  "V s = x \<Longrightarrow> same_view V x (write_gp1 (genv rd) v s)"
  unfolding gpu_read_status_def write_gp0_def write_gp1_def gp1_word_def gpu_reset_def
  by (rule update_dreq_keeps display_mode_keeps rules | simp)+

lemma video_keeps:
  "V s = x \<Longrightarrow> same_view V x (hblank s)" "V s = x \<Longrightarrow> same_view V x (hblank_end rd s)"
proof -
  have v [simp]: "V (schedule_video cb n s) = V s" for cb n s by (simp add: schedule_video_def Let_def)
  show "V s = x \<Longrightarrow> same_view V x (hblank s)" for s
    unfolding hblank_def update_from_timestamp_def by (rule blanks sync_counter_keeps rules | simp)+
  have n: "V s = x \<Longrightarrow> same_view V x (new_scanline rd s)" for s
    unfolding new_scanline_def by (rule blanks rules | simp add: fields)+
  show "V s = x \<Longrightarrow> same_view V x (hblank_end rd s)"
    unfolding hblank_end_def by (rule blanks n rules | simp)+
qed

section \<open>The decoder\<close>

lemma mdec_requests:
  "V s = x \<Longrightarrow> same_view V x (update_dma0_req env s)" "V s = x \<Longrightarrow> same_view V x (update_dma1_req env s)"
  "V s = x \<Longrightarrow> same_view V x (run_sync_callback env cb s)"
proof -
  show "V s = x \<Longrightarrow> same_view V x (update_dma0_req env s)"
    unfolding update_dma0_req_def by (rule request_keeps rules | simp)+
  show d1: "V s = x \<Longrightarrow> same_view V x (update_dma1_req env s)" for s
    unfolding update_dma1_req_def by (rule request_keeps rules | simp)+
  show "V s = x \<Longrightarrow> same_view V x (run_sync_callback env cb s)"
    unfolding run_sync_callback_def update_dma1_mono_def
    by (cases cb) (simp_all add: d1 rules)
qed

lemma decode_keeps: "V s = x \<Longrightarrow> same_view V x (mdec_decode env s)"
proof -
  have announce: "V s = x \<Longrightarrow> same_view V x (announce env cb s)" for cb s
    unfolding announce_def by (rule mdec_requests rules | simp add: unit_fields)+
  have emit: "V s = x \<Longrightarrow> ensures UNIV (\<lambda>r. \<forall>s'. r = Some s' \<longrightarrow> V s' = x) (emit env cb src s)" for cb src s
    unfolding emit_def
    by (rule ensures_any, rule ensures_option)
      (auto intro!: ensures_bind[OF announce[unfolded same_view_def, OF trans[OF mdec_updates]]])
  have round: "ensures UNIV (\<lambda>r. \<forall>s' it. r = Some (s', it) \<longrightarrow> V s' = x) (decode_round env iter s)"
    if "V s = x" for iter s
    using that unfolding decode_round_def Let_def
    by (auto split: prod.split option.split intro!: ensures_bind[OF emit])
  have "V s = x \<Longrightarrow> same_view V x (decode_loop fuel env iter s)" for fuel iter s
  proof (induction fuel arbitrary: iter s)
    case 0
    then show ?case by (cases iter) (simp_all add: rules)
  next
    case (Suc fuel)
    show ?case
    proof (cases iter)
      case (Cons h rest)
      show ?thesis unfolding Cons decode_loop.simps same_view_def
        by (rule ensures_bind[OF round[OF Suc.prems]], rule ensures_option)
          (auto simp: Suc.IH[unfolded same_view_def] split: prod.split)
    qed (simp add: Suc.prems rules)
  qed
  then show "V s = x \<Longrightarrow> same_view V x (mdec_decode env s)" by (simp add: mdec_decode_def)
qed

lemma mdec_access:
  "V s = x \<Longrightarrow> same_view2 V x (mdec_data env s)" "V s = x \<Longrightarrow> same_view V x (mdec_command env v s)"
  "V s = x \<Longrightarrow> same_view V x (mdec_control env v s)" "V (snd (mdec_read_status s)) = V s"
proof -
  have on: "V s = x \<Longrightarrow> same_view V x (on_mdec f s)" for f s
    unfolding on_mdec_def by (rule rules | simp)+
  have run: "V s = x \<Longrightarrow> same_view V x (run_command env s)" for s
    unfolding run_command_def by (cases "m_curr_cmd (m_mdec s)") (simp_all add: decode_keeps on rules)
  show "V s = x \<Longrightarrow> same_view2 V x (mdec_data env s)"
    unfolding mdec_data_def
    by (cases "mdec_out_fifo (m_mdec s)"; simp) (rule mdec_requests rules | simp)+
  show "V s = x \<Longrightarrow> same_view V x (mdec_command env v s)" "V s = x \<Longrightarrow> same_view V x (mdec_control env v s)"
    unfolding mdec_command_def mdec_control_def cmd_start_def mdec_reset_def
    by (rule on run mdec_requests rules | simp)+
  show "V (snd (mdec_read_status s)) = V s" by (simp add: mdec_read_status_def Let_def)
qed

section \<open>Sound\<close>

lemma spu_access:
  "V (snd (spu_read16 a s)) = V s" "V (snd (spu_read8 a s)) = V s" "V (snd (spu_read32 a s)) = V s"
  "V s = x \<Longrightarrow> same_view V x (spu_write16 env a w s)" "V s = x \<Longrightarrow> same_view V x (spu_write8 env a b s)"
  "V s = x \<Longrightarrow> same_view V x (spu_write32 env a v s)"
proof -
  show r [simp]: "V (snd (spu_read16 a s)) = V s" for a s
    by (simp add: spu_read16_def Let_def)
  show "V (snd (spu_read8 a s)) = V s" "V (snd (spu_read32 a s)) = V s"
    by (simp_all add: spu_read8_def spu_read32_def split_beta)
  have cnt: "V s = x \<Longrightarrow> same_view V x (write_cnt env w s)" for w s
    unfolding write_cnt_def by (rule request_keeps rules | simp)+
  have voices [simp]: "V (for_voices i n w f s) = V s" for i n w f s
    unfolding for_voices_def by (rule rules | simp)+
  have push: "V s = x \<Longrightarrow> same_view V x (spu_push w s)" for w s
    unfolding spu_push_def by (rule rules | simp)+
  show w: "V s = x \<Longrightarrow> same_view V x (spu_write16 env a w s)" for a w s
    unfolding spu_write16_def by (rule cnt push rules | simp)+
  show "V s = x \<Longrightarrow> same_view V x (spu_write8 env a b s)" "V s = x \<Longrightarrow> same_view V x (spu_write32 env a v s)"
    unfolding spu_write8_def spu_write32_def by (rule w rules | simp)+
qed

lemma voices_keep [simp]: "V (snd (voice_step k s)) = V s" "V (snd (mix_voices ks acc s)) = V s"
proof -
  have bytes: "V (snd (snd (read_bytes n a s))) = V s" for n a s
    by (induction n arbitrary: a s) (simp_all add: Let_def split_beta)
  have block [simp]: "V (read_next_block k s) = V s" for k s
    by (simp add: read_next_block_def Let_def split_beta bytes)
  have sample [simp]: "V (snd (voice_sample k s)) = V s" for k s
    by (simp add: voice_sample_def Let_def split_beta)
  show step [simp]: "V (snd (voice_step k s)) = V s" for k s
    unfolding voice_step_def by (rule rules | simp)+
  show "V (snd (mix_voices ks acc s)) = V s"
    by (induction ks acc s rule: mix_voices.induct) (auto simp: Let_def split: prod.split dest: arg_cong[of _ _ "\<lambda>p. V (snd p)"])
qed

lemma reverb_keeps [simp]: "V (snd (do_reverb l r s)) = V s"
proof -
  have io [simp]: "V (snd (reverb_read a s)) = V s" "V (reverb_write v a s) = V s" for a v s
    by (simp_all add: reverb_read_def reverb_write_def split_beta)
  have [simp]: "V (reflect y a b s) = V s" "V (snd (all_pass a b c y s)) = V s" for y a b c s
    by (simp_all add: reflect_def all_pass_def Let_def split_beta)
  have fold: "V (snd (foldl (\<lambda>(y, s) (vol, i). case reverb_read (rev_add i (m_spu s)) s of
      (a, s') \<Rightarrow> (y + Spu.mult (rev_vol vol (m_spu s)) a, s')) (y, s) as)) = V s" for y s as
    by (induction as arbitrary: y s) (simp_all add: split_beta)
  have [simp]: "V (snd (comb as s)) = V s" for as s
    by (simp add: comb_def fold)
  show ?thesis unfolding do_reverb_def by (rule rules | simp)+
qed

lemma sample_cycle_keeps [simp]: "V (sample_cycle s) = V s"
  unfolding sample_cycle_def write_capture_def by (rule rules | simp add: unit_fields)+

section \<open>Sectors and the drive's registers\<close>

lemma sectors_keep: "V s = x \<Longrightarrow> same_view V x (read_callback s)"
proof -
  have d: "V s = x \<Longrightarrow> same_view V x (deliver_sector t b s)" for t b s
    unfolding deliver_sector_def deliver_audio_def deliver_data_def
    by (rule responses_keep rules | simp add: unit_fields)+
  show "V s = x \<Longrightarrow> same_view V x (read_callback s)"
    unfolding read_callback_def by (rule d rules | simp)+
qed

lemma drive_writes:
  "V s = x \<Longrightarrow> same_view V x (cd_write8 env a b s)" "V s = x \<Longrightarrow> same_view V x (cd_write16 env a w s)"
  "V s = x \<Longrightarrow> same_view V x (cd_write32 env a v s)"
proof -
  have request: "V s = x \<Longrightarrow> same_view V x (request_data env s)" for s
    unfolding request_data_def by (rule request_keeps rules | simp)+
  have r1: "V s = x \<Longrightarrow> same_view V x (write_reg1 b s)" "V s = x \<Longrightarrow> same_view V x (write_reg2 b s)" for b s
    unfolding write_reg1_def write_reg2_def by (rule execution_keeps rules | simp)+
  have r3: "V s = x \<Longrightarrow> same_view V x (write_reg3 env b s)" for b s
    unfolding write_reg3_def by (rule execution_keeps request rules | simp)+
  show w: "V s = x \<Longrightarrow> same_view V x (cd_write8 env a b s)" for a b s
    unfolding cd_write8_def by (rule r1 r3 rules | simp)+
  show w2: "V s = x \<Longrightarrow> same_view V x (cd_write16 env a w s)" for a w s
    unfolding cd_write16_def by (rule w rules | simp)+
  show "V s = x \<Longrightarrow> same_view V x (cd_write32 env a v s)"
    unfolding cd_write32_def by (rule w2 rules | simp)+
qed

end

end
