(* ===== verification/MdecSpec.thy ===== *)
theory MdecSpec
  imports Mdec SioSpec DmaFrame
begin

text \<open>
  Properties of the motion decoder: the transform, the packing, the progress of the run-length
  decoder, the bounds of its buffers and what the thread can lose.
\<close>

section \<open>The transform\<close>

lemma sum8_sum: "sum8 f = (\<Sum>z<8. f z)"
proof -
  have "foldl (\<lambda>acc z. acc + f z) a xs = a + sum_list (map f xs)" for a xs
    by (induction xs arbitrary: a) simp_all
  then show ?thesis
    unfolding sum8_def by (simp only: atLeast0LessThan[symmetric] interv_sum_list_conv_sum_set_nat set_upt)
qed

lemma length_grid8 [simp]: "length (grid8 f) = 64"
  by (simp add: grid8_def)

lemma grid8_nth: "x < 8 \<Longrightarrow> y < 8 \<Longrightarrow> grid8 f ! (x + y * 8) = f x y"
  by (simp add: grid8_def)

lemma grid8_nth': "x < 8 \<Longrightarrow> y < 8 \<Longrightarrow> grid8 f ! (y * 8 + x) = f x y"
  using grid8_nth[of x y f] by (simp add: add.commute)

lemma round_half_up: "drop_bit 32 s + of_bool (bit s 31) = (s + 2 ^ 31) div 2 ^ 32" for s :: int
proof -
  have "s = 2 ^ 32 * (s div 2 ^ 32) + s mod 2 ^ 32" by simp
  moreover have "s mod 2 ^ 32 = 2 ^ 31 * of_bool (bit s 31) + s mod 2 ^ 31"
  proof -
    have "take_bit 32 s = take_bit 31 s + 2 ^ 31 * of_bool (bit s 31)"
      using take_bit_Suc_from_most[of 31 s] by simp
    then show ?thesis by (simp add: take_bit_eq_mod)
  qed
  moreover have "0 \<le> s mod 2 ^ 31" "s mod 2 ^ 31 < 2 ^ 31" by simp_all
  ultimately show ?thesis by (simp add: drop_bit_eq_div; cases "bit s 31"; simp; presburger?)
qed

definition i16_list :: "int list \<Rightarrow> bool" where
  "i16_list xs \<longleftrightarrow> length xs = 64 \<and> (\<forall>v \<in> set xs. - 0x8000 \<le> v \<and> v \<le> 0x7FFF)"

lemma i16_listD: "i16_list xs \<Longrightarrow> i < 64 \<Longrightarrow> - 0x8000 \<le> xs ! i \<and> xs ! i \<le> 0x7FFF"
  by (simp add: i16_list_def)

lemma product_bound:
  fixes a b :: int
  assumes "- 0x8000 \<le> a" "a \<le> 0x7FFF" "- 0x8000 \<le> b" "b \<le> 0x7FFF"
  shows "\<bar>a * b\<bar> \<le> 2 ^ 30"
proof -
  have "\<bar>a\<bar> \<le> 0x8000" "\<bar>b\<bar> \<le> 0x8000" using assms by auto
  then have "\<bar>a\<bar> * \<bar>b\<bar> \<le> 0x8000 * 0x8000" by (intro mult_mono) auto
  then show ?thesis by (simp add: abs_mult)
qed

lemma mullo_exact:
  fixes a b :: int
  assumes "\<bar>a * b\<bar> \<le> 2 ^ 30"
  shows "(scast ((word_of_int a :: u32) * word_of_int b) :: u64) = word_of_int (a * b)"
proof -
  have "sint (word_of_int c :: u32) = c" if "\<bar>c\<bar> \<le> 2 ^ 30" for c
    using that by (simp add: signed_of_int signed_take_bit_int_eq_self abs_le_iff)
  from this[OF assms] show ?thesis by (simp only: scast_eq wi_hom_mult)
qed

lemma sint_u64_self: "sint (word_of_int c :: u64) = c" if "\<bar>c\<bar> \<le> 2 ^ 33"
  using that by (simp add: signed_of_int signed_take_bit_int_eq_self abs_le_iff)

lemma idct_row4_nth:
  assumes b: "\<And>z j. z < 8 \<Longrightarrow> j < 4 \<Longrightarrow> \<bar>blk ! (z * 8 + x + j) * scale ! (y * 8 + z)\<bar> \<le> 2 ^ 30"
    and j: "j < 4"
  shows "sint (idct_row4 scale blk y x ! j) = (\<Sum>z<8. blk ! (z * 8 + x + j) * scale ! (y * 8 + z))"
proof -
  let ?f = "\<lambda>z. blk ! (z * 8 + x + j) * scale ! (y * 8 + z)"
  let ?row = "\<lambda>z. map (\<lambda>j. scast ((word_of_int (blk ! (z * 8 + x + j)) :: u32)
                                        * word_of_int (scale ! (y * 8 + z))) :: u64) [0..<4]"
  have row: "?row z ! j = word_of_int (?f z)" if "z < 8" for z
    using j mullo_exact[OF b[OF that j]] by simp
  have "length (foldl (\<lambda>acc z. add4 acc (?row z)) acc zs) = 4 \<and>
      foldl (\<lambda>acc z. add4 acc (?row z)) acc zs ! j = acc ! j + word_of_int (sum_list (map ?f zs))"
    if "length acc = 4" "set zs \<subseteq> {..<8}" for acc :: "u64 list" and zs
    using that
  proof (induction zs arbitrary: acc)
    case (Cons z zs)
    have "add4 acc (?row z) ! j = acc ! j + word_of_int (?f z)"
      using Cons.prems j row[of z] by (simp add: add4_def)
    moreover have "length (add4 acc (?row z)) = 4" using Cons.prems by (simp add: add4_def)
    ultimately show ?case
      using Cons.IH[of "add4 acc (?row z)"] Cons.prems by (simp add: wi_hom_add algebra_simps)
  qed simp
  from this[of "replicate 4 0" "[0..<8]"] have
    "idct_row4 scale blk y x ! j = word_of_int (\<Sum>z<8. ?f z)"
    unfolding idct_row4_def using j
    by (simp add: interv_sum_list_conv_sum_set_nat atLeast0LessThan del: upt.simps upt_rec_numeral)
  moreover have "\<bar>\<Sum>z<8. ?f z\<bar> \<le> 2 ^ 33"
  proof -
    have "\<bar>\<Sum>z<8. ?f z\<bar> \<le> (\<Sum>z<8. \<bar>?f z\<bar>)" by (rule sum_abs)
    also have "\<dots> \<le> (\<Sum>z<(8::nat). 2 ^ 30)" by (rule sum_mono) (use b j in auto)
    finally show ?thesis by simp
  qed
  then have "sint (word_of_int (\<Sum>z<8. ?f z) :: u64) = (\<Sum>z<8. ?f z)" by (rule sint_u64_self)
  ultimately show ?thesis by (simp only:)
qed

lemma concat_rows_nth:
  assumes "\<And>y. y < n \<Longrightarrow> length (f y) = 8" "x < 8" "y < n"
  shows "concat (map f [0..<n]) ! (y * 8 + x) = f y ! x"
  using assms
proof (induction n)
  case (Suc n)
  have l: "length (concat (map f [0..<m])) = m * 8" if "m \<le> n" for m
    using that Suc.prems(1) by (induction m) simp_all
  show ?case
  proof (cases "y < n")
    case True
    then have "y * 8 + x < n * 8" using Suc.prems(2) by linarith
    then show ?thesis using Suc True l[of n] by (simp add: nth_append)
  next
    case False
    then have "y = n" using Suc.prems(3) by simp
    then show ?thesis using l[of n] by (simp add: nth_append)
  qed
qed simp

lemma pass1_simd_is_pass1:
  assumes "i16_list blk" "i16_list scale"
  shows "idct_pass1_simd scale blk = idct_pass1 scale blk"
proof -
  have b: "\<bar>blk ! (z * 8 + x + j) * scale ! (y * 8 + z)\<bar> \<le> 2 ^ 30"
    if "z < 8" "j < 4" "y < 8" "x = 0 \<or> x = 4" for z j y x
    by (rule product_bound) (use that i16_listD[OF assms(1), of "z * 8 + x + j"]
        i16_listD[OF assms(2), of "y * 8 + z"] in auto)
  have len: "length (idct_row4 scale blk y x) = 4" for y x
  proof -
    have "length (foldl (\<lambda>acc z. add4 acc (f z)) acc zs) = 4"
      if "length acc = 4" "\<And>z. length (f z) = 4" for acc :: "u64 list" and f and zs :: "nat list"
      using that by (induction zs arbitrary: acc) (simp_all add: add4_def)
    then show ?thesis by (simp add: idct_row4_def)
  qed
  let ?row = "\<lambda>y. map sint (idct_row4 scale blk y 0) @ map sint (idct_row4 scale blk y 4)"
  have row: "?row y ! x = sum8 (\<lambda>z. blk ! (x + z * 8) * scale ! (y * 8 + z))" if "x < 8" "y < 8" for x y
  proof (cases "x < 4")
    case True
    then show ?thesis
      using idct_row4_nth[of blk 0 scale y x, OF b[of _ _ y 0] True] that(2) len
      by (simp add: nth_append sum8_sum add.commute)
  next
    case False
    then have "x - 4 < 4" using that by simp
    then show ?thesis
      using idct_row4_nth[of blk 4 scale y "x - 4", OF b[of _ _ y 4]] that(2) len False
      by (simp add: nth_append sum8_sum add.commute)
  qed
  have l8: "length (?row y) = 8" for y using len by simp
  show ?thesis
  proof (rule nth_equalityI)
    show "length (idct_pass1_simd scale blk) = length (idct_pass1 scale blk)"
      unfolding idct_pass1_simd_def idct_pass1_def using len by (simp add: length_concat comp_def sum_list_triv)
    fix i assume "i < length (idct_pass1_simd scale blk)"
    then have i: "i < 64" unfolding idct_pass1_simd_def using len by (simp add: length_concat comp_def sum_list_triv)
    define x y where "x = i mod 8" and "y = i div 8"
    have xy: "x < 8" "y < 8" "i = y * 8 + x" using i by (auto simp: x_def y_def)
    show "idct_pass1_simd scale blk ! i = idct_pass1 scale blk ! i"
      unfolding idct_pass1_simd_def idct_pass1_def xy(3) grid8_nth'[OF xy(1,2)]
      using concat_rows_nth[of 8 ?row x y, OF l8 xy(1,2)] row[OF xy(1,2)] by simp
  qed
qed

text \<open>
  C32. The inverse transform is exact: in its scalar form, and in its vector form while the exact
  second pass is selected, every sample of the block is the two-dimensional sum of the coefficients
  with the scale table, divided by \<open>2 ^ 32\<close> and rounded to the nearest integer, cut to 16 bits.
\<close>

theorem idct_is_rounded_transform:
  assumes "i16_list blk" "i16_list (m_scale_table m)" "m_accurate_idct m \<or> \<not> mdec_use_simd m"
    and "x < 8" "y < 8"
  shows "idct_core m blk ! (x + y * 8) =
    i16 (((\<Sum>u<8. \<Sum>v<8. blk ! (u + v * 8) * m_scale_table m ! (y * 8 + v) * m_scale_table m ! (x * 8 + u))
          + 2 ^ 31) div 2 ^ 32)"
proof -
  let ?s = "m_scale_table m"
  have "idct_core m blk = idct_pass2 ?s (idct_pass1 ?s blk)"
    using assms(3) pass1_simd_is_pass1[OF assms(1,2)] by (auto simp: idct_core_def Let_def)
  then show ?thesis
    using assms(4,5)
    by (simp add: idct_pass2_def idct_pass1_def grid8_nth grid8_nth' idct_round_def round_half_up sum8_sum
        sum_distrib_right del: sum.lessThan_Suc)
qed

text \<open>A block with a single coefficient, the default table and the vector form.\<close>

definition dc_block :: "int list" where "dc_block = 64 # replicate 63 0"

theorem idct_is_rounded_transform_witness:
  "idct_core (mdec_new\<lparr>m_scale_table := DEFAULT_SCALE_TABLE, mdec_use_simd := True\<rparr>) dc_block ! (3 + 5 * 8) =
    i16 (((\<Sum>u<8. \<Sum>v<8. dc_block ! (u + v * 8) * DEFAULT_SCALE_TABLE ! (5 * 8 + v) * DEFAULT_SCALE_TABLE ! (3 * 8 + u))
          + 2 ^ 31) div 2 ^ 32)"
proof -
  have "i16_list dc_block" by (simp add: i16_list_def dc_block_def)
  moreover have "i16_list DEFAULT_SCALE_TABLE" by (simp add: i16_list_def DEFAULT_SCALE_TABLE_def i16_def)
  ultimately show ?thesis
    using idct_is_rounded_transform[of dc_block "mdec_new\<lparr>m_scale_table := DEFAULT_SCALE_TABLE, mdec_use_simd := True\<rparr>" 3 5]
    by (simp add: mdec_new_def)
qed

section \<open>Packing\<close>

lemma pair_high [simp]: "low32 (drop_bit 32 (pair a b)) = b"
  by (rule bit_word_eqI) (auto simp: pair_def low32_def bit_simps dest: bit_imp_le_length)

lemma pair_middle: "low32 (drop_bit 16 (pair a b)) = drop_bit 16 a OR push_bit 16 b"
  by (rule bit_word_eqI) (auto simp: pair_def low32_def bit_simps dest: bit_imp_le_length)

lemma upt8: "[0..<8] = [0, 1, 2, 3, 4, 5, 6, 7 :: nat]"
  by code_simp

lemma pack4_lanes: "pack4_simd src i = pack4 src i"
  by (simp add: pack4_simd_def pack4_def upt8 Let_def or.assoc or.left_commute or.commute)

lemma pack8_lanes: "pack8_simd src i = pack8 src i"
  by (simp add: pack8_simd_def pack8_def Let_def or.assoc or.left_commute or.commute)

lemma channel_masks:
  "w AND 0x1F = take_bit 5 w" "w AND 0xFF = take_bit 8 w" "w AND 0xFFFF = take_bit 16 w"
  "w AND 0xFFFFFF = take_bit 24 w" for w :: u32
  by (simp_all add: take_bit_eq_mask mask_eq_exp_minus_1)

lemma rgb15_small: "drop_bit 16 (rgb15 mb c) = 0"
proof -
  let ?v = "take_bit 5 (drop_bit 3 c) OR push_bit 5 (take_bit 5 (drop_bit 11 c)) OR push_bit 10 (take_bit 5 (drop_bit 19 c))"
  have "drop_bit 16 ?v = 0" by (rule bit_word_eqI) (auto simp: bit_simps)
  moreover have "drop_bit 16 (?v OR 0x8000) = drop_bit 16 ?v" by (simp only: drop_bit_or) simp
  ultimately show ?thesis unfolding rgb15_def channel_masks Let_def by (cases mb) (simp_all only: if_True if_False)
qed

lemma pack15_lanes: "pack15_simd mb src i = pack15 mb src i"
proof -
  have "pack15_simd mb src i = rgb15 mb (src ! i) OR low32 (drop_bit 16 (pair (rgb15 mb (src ! i)) (rgb15 mb (src ! (i + 1)))))"
    by (simp add: pack15_simd_def rgb15_def Let_def)
  then show ?thesis by (simp add: pair_middle rgb15_small pack15_def)
qed

lemma bit_below: "p < 2 ^ 24 \<Longrightarrow> bit p n \<Longrightarrow> n < 24" for p :: u32
proof (rule ccontr)
  assume p: "p < 2 ^ 24" "bit p n" "\<not> n < 24"
  have "take_bit 24 p = p" using p(1) by (simp only: take_bit_eq_mask less_mask_eq)
  then show False using p(2,3) by (metis bit_take_bit_iff)
qed

definition group24 :: "u32 list \<Rightarrow> nat \<Rightarrow> u32 list" where
  "group24 src i =
     [src ! i OR push_bit 24 (src ! (i + 1) AND 0xFF),
      drop_bit 8 (src ! (i + 1)) OR push_bit 16 (src ! (i + 2) AND 0xFFFF),
      drop_bit 16 (src ! (i + 2)) OR push_bit 8 (src ! (i + 3) AND 0xFFFFFF)]"

lemma pack24_lanes:
  assumes "\<And>j. j < 4 \<Longrightarrow> src ! (i + j) < 2 ^ 24"
  shows "pack24_simd src i = group24 src i"
proof -
  note b = bit_below[OF assms[of 1]] bit_below[OF assms[of 2]] bit_below[OF assms[of 3]]
  note b = b[simplified]
  show ?thesis
    unfolding pack24_simd_def group24_def Let_def list.inject channel_masks
    by (intro conjI bit_word_eqI refl)
      (auto simp: pair_def low32_def high32_def bit_simps dest: bit_imp_le_length b)
qed

lemma pack24_four:
  "pack24 0 c (p0 # p1 # p2 # p3 # ps) = group24 [p0, p1, p2, p3] 0 @ pack24 0 (drop_bit 16 p2) ps"
  by (simp add: group24_def eval_nat_numeral)

lemma pack24_groups:
  "length src = 4 * n \<Longrightarrow> pack24 0 c src = concat (map (\<lambda>k. group24 src (4 * k)) [0..<n])"
proof (induction n arbitrary: src c)
  case (Suc n)
  obtain p0 p1 p2 p3 ps where src: "src = p0 # p1 # p2 # p3 # ps"
    using Suc.prems by (auto simp: length_Suc_conv numeral_eq_Suc)
  have shift: "group24 src (4 * Suc k) = group24 ps (4 * k)" for k
    by (simp add: src group24_def eval_nat_numeral)
  have upt: "[0..<Suc n] = 0 # map Suc [0..<n]" by (simp add: map_Suc_upt upt_conv_Cons)
  have "group24 src 0 = group24 [p0, p1, p2, p3] 0" by (simp add: src group24_def eval_nat_numeral)
  moreover have "pack24 0 (drop_bit 16 p2) ps = concat (map (\<lambda>k. group24 ps (4 * k)) [0..<n])"
    by (rule Suc.IH) (use Suc.prems src in simp)
  ultimately show ?case
    unfolding upt by (simp only: src pack24_four list.map concat.simps map_map comp_def mult_0_right shift[unfolded src])
qed simp



section \<open>Run-length decoding\<close>

lemma fill_block_rest: "length (snd (fill_block qt q k n v blk iter)) \<le> length iter"
  by (induction qt q k n v blk iter rule: fill_block.induct) (auto simp: Let_def)

lemma decode_block_cases:
  "decode_single_block m qt iter = (None, []) \<or>
   (\<exists>blk r. length r < length iter \<and>
      decode_single_block m qt iter = (map_option (idct_core m) blk, r))"
proof (cases "dropWhile (\<lambda>h. h = 0xFE00) iter")
  case Nil
  then show ?thesis unfolding decode_single_block_def Nil by simp
next
  case (Cons n rest)
  obtain blk r where f: "fill_block qt (run n) 0 n (level n * uint (qt ! 0)) (replicate 64 0) rest = (blk, r)"
    by (metis surj_pair)
  have "length (dropWhile (\<lambda>h. h = 0xFE00) iter) \<le> length iter" by (rule length_dropWhile_le)
  then have "length rest < length iter" using Cons by simp
  moreover have "length r \<le> length rest" using fill_block_rest[of qt "run n" 0 n _ _ rest] f by (metis snd_conv)
  moreover have "decode_single_block m qt iter = (map_option (idct_core m) blk, r)"
    unfolding decode_single_block_def Cons by (simp add: f)
  ultimately show ?thesis by (intro disjI2 exI[of _ blk] exI[of _ r]) simp
qed

lemma decode_block_rest: "length (snd (decode_single_block m qt iter)) \<le> length iter"
  using decode_block_cases[of m qt iter] by auto

lemma decode_block_consumes: "iter \<noteq> [] \<Longrightarrow> length (snd (decode_single_block m qt iter)) < length iter"
  using decode_block_cases[of m qt iter] by auto

lemma macroblock_consumes: "iter \<noteq> [] \<Longrightarrow> length (snd (decode_macroblock m iter)) < length iter"
proof -
  assume ne: "iter \<noteq> []"
  have r: "length r \<le> length it" if "decode_single_block m qt it = (b, r)" for qt it b r
    using decode_block_rest[of m qt it] that by simp
  have c: "length r < length iter" if "decode_single_block m qt iter = (b, r)" for qt b r
    using decode_block_consumes[OF ne, of m qt] that by simp
  show ?thesis unfolding decode_macroblock_def
    by (auto simp: Let_def split: prod.splits option.splits dest!: r c)
qed

section \<open>The buffers\<close>

text \<open>\<open>mdec_kept\<close>: what decoding and requests to the DMA channels leave alone.\<close>

definition mdec_kept :: "mdec \<Rightarrow> mdec \<Rightarrow> bool" where
  "mdec_kept m m' \<longleftrightarrow> (\<exists>st out. m' = m\<lparr>mdec_stat := st, mdec_out_fifo := out\<rparr> \<and>
     (length (mdec_out_fifo m) \<le> RINGBUF_SIZE \<longrightarrow> length out \<le> RINGBUF_SIZE))"

lemma mdec_kept_refl [simp, intro]: "mdec_kept m m"
  unfolding mdec_kept_def by (intro exI[of _ "mdec_stat m"] exI[of _ "mdec_out_fifo m"]) simp

lemma mdec_kept_trans: "mdec_kept a b \<Longrightarrow> mdec_kept b c \<Longrightarrow> mdec_kept a c"
  unfolding mdec_kept_def by fastforce

lemma mdec_kept_stat [simp, intro]:
  "mdec_kept m (upd_stat f m)" "mdec_kept m (set_out_request b m)" "mdec_kept m (set_in_request b m)"
  "mdec_kept m (set_curr_block v m)" "mdec_kept m (set_out_empty b m)"
proof -
  have k: "mdec_kept m (upd_stat f m)" for f
    unfolding mdec_kept_def upd_stat_def
    by (intro exI[of _ "f (mdec_stat m)"] exI[of _ "mdec_out_fifo m"]) (cases m, simp)
  then show "mdec_kept m (upd_stat f m)" .
  show "mdec_kept m (set_out_request b m)" "mdec_kept m (set_in_request b m)"
    "mdec_kept m (set_curr_block v m)" "mdec_kept m (set_out_empty b m)"
    by (simp_all add: set_out_request_def set_in_request_def set_curr_block_def set_out_empty_def k)
qed

definition mdec_ok :: "mdec \<Rightarrow> bool" where
  "mdec_ok m \<longleftrightarrow> length (m_luminance_table m) = 64 \<and> length (m_color_table m) = 64 \<and>
     i16_list (m_scale_table m) \<and> length (mdec_out_fifo m) \<le> RINGBUF_SIZE \<and>
     m_curr_in_pos m + 2 * unat (m_num_params m) \<le> length (mdec_in_fifo m) \<and>
     (m_num_params m \<noteq> 0 \<longrightarrow> m_curr_cmd m \<noteq> Mdec_IDLE \<and>
       (m_curr_cmd m = Mdec_SET_QUANT \<longrightarrow> m_curr_in_pos m + 2 * unat (m_num_params m) \<in> {32, 64}) \<and>
       (m_curr_cmd m = Mdec_SET_SCALE \<longrightarrow> m_curr_in_pos m + 2 * unat (m_num_params m) = 64))"

lemma mdec_kept_ok: "mdec_kept m m' \<Longrightarrow> mdec_ok m \<Longrightarrow> mdec_ok m'"
  by (auto simp: mdec_kept_def mdec_ok_def)

lemma mdec_kept_fields:
  assumes "mdec_kept m m'"
  shows "m_num_params m' = m_num_params m" "m_curr_cmd m' = m_curr_cmd m" "m_run_thread m' = m_run_thread m"
    "m_curr_in_pos m' = m_curr_in_pos m" "mdec_in_fifo m' = mdec_in_fifo m"
  using assms by (auto simp: mdec_kept_def)

lemma upd_mdec_mdec [simp]: "m_mdec (upd_mdec f s) = f (m_mdec s)"
  by (simp add: upd_mdec_def)

lemma mdec_of_updates [simp]:
  "m_mdec (upd_channel k f s) = m_mdec s" "m_mdec (upd_ctl g s) = m_mdec s" "m_mdec (set_dreq b k s) = m_mdec s"
  "m_mdec (s\<lparr>m_dma_controller := d\<rparr>) = m_mdec s" "m_mdec (s\<lparr>sync_callback_buffer := cbs\<rparr>) = m_mdec s"
  by (simp_all add: upd_channel_def upd_ctl_def set_dreq_def)

lemma length_packed: "length (packed m src) \<le> required_space (out_depth (mdec_stat m))" if "length src = 256"
proof -
  have "length (pack24 st c ps) \<le> length ps" for st c ps
    by (induction st c ps rule: pack24.induct) auto
  then have "length (pack24 0 0 src) \<le> 256" using that by metis
  moreover have "length (concat (map (\<lambda>k. pack24_simd src (4 * k)) [0..<64])) = 192"
    by (simp add: length_concat comp_def pack24_simd_def Let_def sum_list_triv)
  ultimately show ?thesis
    by (auto simp: packed_def Let_def required_space_def BIT4_def BIT8_def BIT15_def)
qed

lemma vec_to_out_fifo_ok:
  assumes "length src = 256"
  shows "ensures {DebugBreak} (\<lambda>r. case r of None \<Rightarrow> m_run_thread m | Some m' \<Rightarrow> mdec_kept m m') (vec_to_out_fifo src m)"
proof -
  have "mdec_kept m (m\<lparr>mdec_out_fifo := mdec_out_fifo m @ packed m src\<rparr>)"
    if "\<not> write_available m < required_space (out_depth (mdec_stat m))"
    unfolding mdec_kept_def
    by (intro exI[of _ "mdec_stat m"] exI[of _ "mdec_out_fifo m @ packed m src"])
      (use that length_packed[OF assms, of m] in \<open>auto simp: write_available_def\<close>)
  then show ?thesis by (auto simp: vec_to_out_fifo_def)
qed

lemmas mdec_stat_defs = set_missing_params_def set_curr_block_def set_cmd_busy_def set_in_full_def set_out_empty_def upd_stat_def

text \<open>What the requests to the DMA channels rely on: the header of a list can be read.\<close>

locale dma_requests = request_line env F "\<lambda>s s'. mdec_kept (m_mdec s) (m_mdec s')"
  for env :: "('h, ('h, 'm) psx_mdec_scheme) dma_env" and F
begin

lemma dma0_ok: "ensures F (\<lambda>s'. mdec_kept (m_mdec s) (m_mdec s')) (update_dma0_req env s)"
proof -
  have "ensures F (\<lambda>s'. mdec_kept (m_mdec s) (m_mdec s')) (dreq_rising_edge env 0 (set_dreq b 0 (upd_mdec (set_in_request c) s)))" for b c
    by (rule ensures_mono[OF request_ok order_refl]) (auto intro: mdec_kept_trans)
  then show ?thesis unfolding update_dma0_req_def Let_def by (intro ensures_cond) auto
qed

lemma dma1_ok: "ensures F (\<lambda>s'. mdec_kept (m_mdec s) (m_mdec s')) (update_dma1_req env s)"
proof -
  have "ensures F (\<lambda>s'. mdec_kept (m_mdec s) (m_mdec s')) (dreq_rising_edge env 1 (set_dreq b 1 (upd_mdec (set_out_request c) s)))" for b c
    by (rule ensures_mono[OF request_ok order_refl]) (auto intro: mdec_kept_trans)
  then show ?thesis unfolding update_dma1_req_def Let_def by (intro ensures_cond) auto
qed

lemma callback_ok: "ensures F (\<lambda>s'. mdec_kept (m_mdec s) (m_mdec s')) (run_sync_callback env cb s)"
  unfolding run_sync_callback_def update_dma1_mono_def
  by (cases cb) (auto intro!: ensures_bind[OF dma1_ok] dma1_ok intro: mdec_kept_trans[OF _ mdec_kept_stat(4)])

lemma announce_ok: "ensures F (\<lambda>s'. mdec_kept (m_mdec s) (m_mdec s')) (announce env cb s)"
  unfolding announce_def by (intro ensures_cond) (simp_all add: callback_ok)

lemma emit_ok:
  assumes "length src = 256"
  shows "ensures F (\<lambda>r. case r of None \<Rightarrow> m_run_thread (m_mdec s) | Some s' \<Rightarrow> mdec_kept (m_mdec s) (m_mdec s'))
    (emit env cb src s)"
  unfolding emit_def
proof (rule ensures_bind[OF ensures_mono[OF vec_to_out_fifo_ok[OF assms, of "m_mdec s"]]])
  show "{DebugBreak} \<subseteq> F" using stop by simp
  fix r assume "case r of None \<Rightarrow> m_run_thread (m_mdec s) | Some m' \<Rightarrow> mdec_kept (m_mdec s) m'"
  then show "ensures F (\<lambda>r. case r of None \<Rightarrow> m_run_thread (m_mdec s) | Some s' \<Rightarrow> mdec_kept (m_mdec s) (m_mdec s'))
      (case r of None \<Rightarrow> Inr None
       | Some m \<Rightarrow> bindE (announce env cb (upd_mdec (\<lambda>_. m) s)) (\<lambda>s. Inr (Some s)))"
    by (cases r) (auto intro!: ensures_bind[OF announce_ok] intro: mdec_kept_trans)
qed


lemma round_ok:
  assumes "iter \<noteq> []"
  shows "ensures F (\<lambda>r. case r of None \<Rightarrow> m_run_thread (m_mdec s)
      | Some (s', iter') \<Rightarrow> mdec_kept (m_mdec s) (m_mdec s') \<and> length iter' < length iter) (decode_round env iter s)"
proof -
  let ?m = "m_mdec s"
  have go: "ensures F (\<lambda>r. case r of None \<Rightarrow> m_run_thread ?m
      | Some (s', iter') \<Rightarrow> mdec_kept ?m (m_mdec s') \<and> length iter' < length iter)
      (case px of None \<Rightarrow> Inr (Some (s, it))
       | Some src \<Rightarrow> bindE (emit env cb src s) (\<lambda>r. Inr (map_option (\<lambda>s. (s, it)) r)))"
    if l: "length it < length iter" and px: "\<And>src. px = Some src \<Longrightarrow> length src = 256" for px it cb
  proof (cases px)
    case (Some src)
    show ?thesis unfolding Some option.case
      by (rule ensures_bind[OF emit_ok[OF px[OF Some]]]) (auto simp: l split: option.splits)
  qed (simp add: l)
  have rgb: "length (yuv_to_rgb m b cr cb' xx yy out) = length out" for m b cr cb' xx yy out
  proof -
    have "length (foldl (\<lambda>out i. out[f i := g i]) out xs) = length out" for f g out and xs :: "nat list"
      by (induction xs arbitrary: out) simp_all
    then show ?thesis unfolding yuv_to_rgb_def Let_def .
  qed
  have mono: "length (y_to_mono m b) = 256" for m b by (simp add: y_to_mono_def)
  have mb: "length src = 256" if "decode_macroblock ?m iter = (Some src, it)" for src it
    using that by (auto simp: decode_macroblock_def Let_def macroblock_def rgb split: prod.splits option.splits)
  obtain blk it where b: "decode_single_block ?m (m_luminance_table ?m) iter = (blk, it)" by (metis surj_pair)
  obtain px it2 where p: "decode_macroblock ?m iter = (px, it2)" by (metis surj_pair)
  show ?thesis
  proof (cases "is_mono ?m")
    case True
    have "length it < length iter" using decode_block_consumes[OF assms, of ?m "m_luminance_table ?m"] b by simp
    moreover have "length src = 256" if "map_option (y_to_mono ?m) blk = Some src" for src using that mono by auto
    ultimately show ?thesis
      unfolding decode_round_def Let_def using True b go[of it "map_option (y_to_mono ?m) blk" Mono_dma1_update] by simp
  next
    case False
    have "length it2 < length iter" using macroblock_consumes[OF assms, of ?m] p by simp
    moreover have "length src = 256" if "px = Some src" for src using that mb p by simp
    ultimately show ?thesis
      unfolding decode_round_def Let_def using False p go[of it2 px Rgb_dma1_update] by simp
  qed
qed

lemma loop_ok:
  assumes "length iter \<le> fuel" "\<not> m_run_thread (m_mdec s)"
  shows "ensures F (\<lambda>s'. mdec_kept (m_mdec s) (m_mdec s')) (decode_loop fuel env iter s)"
  using assms
proof (induction fuel arbitrary: iter s)
  case 0
  then show ?case by simp
next
  case (Suc fuel)
  show ?case
  proof (cases iter)
    case (Cons h rest)
    have "ensures F (\<lambda>s'. mdec_kept (m_mdec s) (m_mdec s'))
        (case r of None \<Rightarrow> Inl OutOfFuel | Some (s, iter) \<Rightarrow> decode_loop fuel env iter s)"
      if "case r of None \<Rightarrow> m_run_thread (m_mdec s)
          | Some (s', iter') \<Rightarrow> mdec_kept (m_mdec s) (m_mdec s') \<and> length iter' < length iter" for r
    proof (cases r)
      case (Some a)
      obtain s' iter' where a: "a = (s', iter')" by (cases a)
      have k: "mdec_kept (m_mdec s) (m_mdec s')" "length iter' \<le> fuel" "\<not> m_run_thread (m_mdec s')"
        using that Suc.prems Some a mdec_kept_fields(3)[of "m_mdec s" "m_mdec s'"] by auto
      show ?thesis unfolding Some a
        by (simp, rule ensures_mono[OF Suc.IH[OF k(2,3)] order_refl]) (rule mdec_kept_trans[OF k(1)])
    qed (use that Suc.prems in simp)
    then show ?thesis unfolding Cons decode_loop.simps
      by (intro ensures_bind[OF round_ok[of iter s, unfolded Cons]]) (simp_all add: Cons)
  qed simp
qed

lemma decode_ok:
  "\<not> m_run_thread (m_mdec s) \<Longrightarrow> ensures F (\<lambda>s'. mdec_kept (m_mdec s) (m_mdec s')) (mdec_decode env s)"
  unfolding mdec_decode_def by (rule loop_ok) simp


lemma run_command_ok:
  assumes "mdec_ok (m_mdec s)" "m_num_params (m_mdec s) = 0" "m_curr_cmd (m_mdec s) \<noteq> Mdec_IDLE"
    and "m_curr_cmd (m_mdec s) = Mdec_SET_QUANT \<Longrightarrow> m_curr_in_pos (m_mdec s) \<in> {32, 64}"
    and "m_curr_cmd (m_mdec s) = Mdec_SET_SCALE \<Longrightarrow> m_curr_in_pos (m_mdec s) = 64"
  shows "ensures F (\<lambda>s'. mdec_ok (m_mdec s') \<and> m_num_params (m_mdec s') = 0) (run_command env s)"
proof -
  let ?m = "m_mdec s"
  have len: "m_curr_in_pos ?m \<le> length (mdec_in_fifo ?m)" using assms(1,2) by (simp add: mdec_ok_def)
  have bytes: "length (halfword_bytes hs) = 2 * length hs" for hs
    by (simp add: halfword_bytes_def length_concat comp_def sum_list_triv)
  have i16: "i16_list (grid8 (\<lambda>x y. sint (f x y :: u16)))" for f
  proof -
    have "- 0x8000 \<le> sint w \<and> sint w \<le> 0x7FFF" for w :: u16 using sint_lt[of w] sint_ge[of w] by simp
    then show ?thesis by (auto simp: i16_list_def grid8_def)
  qed
  have quant: "ensures F (\<lambda>m'. mdec_ok m' \<and> m_num_params m' = 0) (fill_luminance ?m)"
    if "m_curr_cmd ?m = Mdec_SET_QUANT"
    using assms that len by (auto simp: fill_luminance_def fill_color_def copy_table_def Let_def bytes mdec_ok_def)
  have scale: "ensures F (\<lambda>m'. mdec_ok m' \<and> m_num_params m' = 0) (fill_scale ?m)"
    if "m_curr_cmd ?m = Mdec_SET_SCALE"
    using assms that len i16 by (auto simp: fill_scale_def Let_def mdec_ok_def)
  show ?thesis
  proof (cases "m_curr_cmd ?m")
    case Mdec_DECODE
    show ?thesis
    proof (cases "m_run_thread ?m")
      case False
      show ?thesis unfolding run_command_def Mdec_DECODE using False
        by (simp, intro ensures_mono[OF decode_ok order_refl])
          (use assms(1,2) mdec_kept_ok in \<open>auto simp: mdec_kept_fields\<close>)
    next
      case True
      then show ?thesis using assms(1,2) by (simp add: run_command_def Mdec_DECODE mdec_ok_def)
    qed
  next
    case Mdec_SET_QUANT
    then show ?thesis using quant by (simp add: run_command_def on_mdec_def ensures_bind)
  next
    case Mdec_SET_SCALE
    then show ?thesis using scale by (simp add: run_command_def on_mdec_def ensures_bind)
  qed (use assms(3) in simp)
qed

lemma ok_after:
  assumes "ensures F (\<lambda>s'. mdec_kept (m_mdec s) (m_mdec s')) r" "mdec_ok (m_mdec s)"
  shows "ensures F (\<lambda>s'. mdec_ok (m_mdec s')) r"
  by (rule ensures_mono[OF assms(1) order_refl]) (rule mdec_kept_ok[OF _ assms(2)])


lemma dma0_after: "mdec_ok (m_mdec s) \<Longrightarrow> ensures F (\<lambda>s'. mdec_ok (m_mdec s')) (update_dma0_req env s)"
  by (rule ok_after[OF dma0_ok])

lemma dma1_after: "mdec_ok (m_mdec s) \<Longrightarrow> ensures F (\<lambda>s'. mdec_ok (m_mdec s')) (update_dma1_req env s)"
  by (rule ok_after[OF dma1_ok])

lemma cmd_start_ok:
  assumes "mdec_ok (m_mdec s)" "m_num_params (m_mdec s) = 0"
  shows "ensures F (\<lambda>s'. mdec_ok (m_mdec s')) (cmd_start env v s)"
proof -
  have r: "n \<le> length (resize n xs)" for n xs by (simp add: resize_def)
  have two: "2 * unat p \<le> length (resize (unat p * 2) xs)" for p :: u32 and xs
    using r[of "unat p * 2" xs] by simp
  show ?thesis unfolding cmd_start_def
    by (rule dma0_after) (use assms two in \<open>auto simp: mdec_ok_def cmd_select_def begin_command_def Let_def mdec_stat_defs
          RINGBUF_SIZE_def\<close>)
qed

lemma push_params_ok:
  assumes "mdec_ok m" "m_num_params m \<noteq> 0"
  shows "\<exists>m'. push_params v m = Inr m' \<and> mdec_ok (m'\<lparr>m_num_params := m_num_params m' - 1\<rparr>) \<and>
    m_curr_cmd m' \<noteq> Mdec_IDLE \<and>
    (m_num_params m' = 1 \<longrightarrow> (m_curr_cmd m' = Mdec_SET_QUANT \<longrightarrow> m_curr_in_pos m' \<in> {32, 64}) \<and>
       (m_curr_cmd m' = Mdec_SET_SCALE \<longrightarrow> m_curr_in_pos m' = 64))"
proof -
  have n: "unat (m_num_params m) = Suc (unat (m_num_params m - 1))"
    using assms(2) by (metis Suc_pred' unat_gt_0 unat_minus_one)
  show ?thesis
    using assms n by (auto simp: push_params_def mdec_ok_def Let_def)
qed

lemma port_write_ok:
  assumes ok: "mdec_ok (m_mdec s)"
  shows "ensures F (\<lambda>s'. mdec_ok (m_mdec s')) (mdec_command env v s)"
proof (cases "m_num_params (m_mdec s) = 0")
  case True
  then show ?thesis using cmd_start_ok[OF ok True] by (simp add: mdec_command_def)
next
  case False
  then have pos: "m_num_params (m_mdec s) > 0" by (simp add: word_gt_0)
  obtain m' where m': "push_params v (m_mdec s) = Inr m'" "mdec_ok (m'\<lparr>m_num_params := m_num_params m' - 1\<rparr>)"
    "m_curr_cmd m' \<noteq> Mdec_IDLE"
    "m_num_params m' = 1 \<Longrightarrow> m_curr_cmd m' = Mdec_SET_QUANT \<Longrightarrow> m_curr_in_pos m' \<in> {32, 64}"
    "m_num_params m' = 1 \<Longrightarrow> m_curr_cmd m' = Mdec_SET_SCALE \<Longrightarrow> m_curr_in_pos m' = 64"
    using push_params_ok[OF ok False, of v] by blast
  let ?t = "upd_mdec (\<lambda>m. set_in_full (m_num_params m - 1 = 0) (m\<lparr>m_num_params := m_num_params m - 1\<rparr>))
              (upd_mdec (\<lambda>_. m') s)"
  have t: "mdec_ok (m_mdec ?t)" "m_num_params (m_mdec ?t) = m_num_params m' - 1" "m_curr_cmd (m_mdec ?t) = m_curr_cmd m'"
    "m_curr_in_pos (m_mdec ?t) = m_curr_in_pos m'"
    using m'(2) by (simp_all add: mdec_ok_def mdec_stat_defs)
  have one: "m_num_params m' = 1" if "m_num_params (m_mdec ?t) = 0" using that t(2) by (simp add: word_eq_iff_unsigned diff_eq_eq)
  have fin: "ensures F (\<lambda>s'. mdec_ok (m_mdec s')) (bindE (run_command env ?t) (\<lambda>s. Inr (upd_mdec end_command s)))"
    if z: "m_num_params (m_mdec ?t) = 0"
    by (rule ensures_bind[OF run_command_ok[OF t(1) z]])
      (use m'(3-5) t one[OF z] in \<open>auto simp: end_command_def mdec_ok_def mdec_stat_defs\<close>)
  have more: "mdec_ok (m_mdec (upd_mdec (\<lambda>m. set_missing_params (m_num_params m - 1) m) ?t))"
    using t(1) by (simp add: mdec_ok_def mdec_stat_defs)
  have eq: "mdec_command env v s =
      bindE (if m_num_params (m_mdec ?t) = 0 then bindE (run_command env ?t) (\<lambda>s. Inr (upd_mdec end_command s))
             else Inr (upd_mdec (\<lambda>m. set_missing_params (m_num_params m - 1) m) ?t)) (update_dma0_req env)"
    using pos m'(1) by (simp add: mdec_command_def on_mdec_def Let_def)
  have step: "ensures F (\<lambda>s'. mdec_ok (m_mdec s'))
      (if m_num_params (m_mdec ?t) = 0 then bindE (run_command env ?t) (\<lambda>s. Inr (upd_mdec end_command s))
       else Inr (upd_mdec (\<lambda>m. set_missing_params (m_num_params m - 1) m) ?t))"
    by (rule ensures_cond) (rule fin, assumption, unfold ensures_simps, rule more)
  show ?thesis unfolding eq by (rule ensures_bind[OF step dma0_after])
qed

lemma port_control_ok:
  assumes "mdec_ok (m_mdec s)"
  shows "ensures F (\<lambda>s'. mdec_ok (m_mdec s')) (mdec_control env v s)"
proof -
  have reset: "ensures F (\<lambda>s'. mdec_ok (m_mdec s')) (mdec_reset env s)"
    unfolding mdec_reset_def
    by (rule ensures_bind[OF dma0_after dma1_after])
      (use assms in \<open>simp_all add: mdec_ok_def\<close>)
  have enable: "mdec_ok (m\<lparr>m_enable_dma0 := c\<rparr>) = mdec_ok m" "mdec_ok (m\<lparr>m_enable_dma1 := c\<rparr>) = mdec_ok m" for m c
    by (simp_all add: mdec_ok_def)
  have first: "ensures F (\<lambda>s'. mdec_ok (m_mdec s')) (if bit v 31 then mdec_reset env s else Inr s)"
    using reset assms by simp
  show ?thesis unfolding mdec_control_def Let_def
    by (rule ensures_bind[OF first]) (rule ensures_bind[OF dma0_after dma1_after], auto simp: enable)
qed

lemma data_ok:
  assumes "mdec_ok (m_mdec s)"
  shows "ensures F (\<lambda>(v, s'). mdec_ok (m_mdec s')) (mdec_data env s)"
proof (cases "mdec_out_fifo (m_mdec s)")
  case Nil
  then show ?thesis using assms by (simp add: mdec_data_def)
next
  case (Cons c rest)
  have "mdec_ok (m_mdec (upd_mdec (\<lambda>m. m\<lparr>mdec_out_fifo := rest\<rparr>) s))"
    using assms Cons by (simp add: mdec_ok_def)
  then show ?thesis unfolding mdec_data_def Cons list.case
    by (intro ensures_bind[OF dma0_after] ensures_bind[OF dma1_after]) simp_all
qed

end

text \<open>The accesses of the processor and of the DMA controller, and the callbacks of the run loop.\<close>

datatype mdec_access = Write_command u32 | Write_control u32 | Read_data | Read_status | Run_callback sync_callback

definition mdec_access ::
  "('h, ('h, 'm) psx_mdec_scheme) dma_env \<Rightarrow> mdec_access \<Rightarrow> ('h, 'm) psx_mdec_scheme \<Rightarrow> ('h, 'm) psx_mdec_scheme result" where
  "mdec_access env a s =
     (case a of Write_command v \<Rightarrow> mdec_command env v s
      | Write_control v \<Rightarrow> mdec_control env v s
      | Read_data \<Rightarrow> bindE (mdec_data env s) (\<lambda>(v, s). Inr s)
      | Read_status \<Rightarrow> Inr (snd (mdec_read_status s))
      | Run_callback cb \<Rightarrow> run_sync_callback env cb s)"

fun mdec_accesses ::
  "('h, ('h, 'm) psx_mdec_scheme) dma_env \<Rightarrow> mdec_access list \<Rightarrow> ('h, 'm) psx_mdec_scheme \<Rightarrow> ('h, 'm) psx_mdec_scheme result" where
  "mdec_accesses env [] s = Inr s"
| "mdec_accesses env (a # as) s = bindE (mdec_access env a s) (mdec_accesses env as)"


section \<open>What is lost\<close>

text \<open>
  The last coefficient of a block is lost: a run that reaches position 63 ends the block before
  the coefficient is stored, so two such blocks that differ only there decode to the same samples.
\<close>

theorem last_coefficient_lost:
  assumes "run h = 62" "run h' = 62" "n \<noteq> 0xFE00"
  shows "decode_single_block m qt [n, h] = decode_single_block m qt [n, h']"
  using assms by (simp add: decode_single_block_def)

theorem last_coefficient_lost_witness:
  "run 0xF801 = 62 \<and> level 0xF801 \<noteq> level 0xF8FF \<and>
   decode_single_block mdec_new (replicate 64 1) [0x0410, 0xF801]
     = decode_single_block mdec_new (replicate 64 1) [0x0410, 0xF8FF]"
  by (intro conjI last_coefficient_lost) (simp_all add: run_def level_def sign_extend_def)

text \<open>
  In signed output a negative sample of a monochrome block is not cut to its byte: the word it
  starts in the 8-bit queue has all bits above it set, whatever the three samples after it are.
\<close>

theorem signed_sample_spoils_word:
  assumes "data_out_signed (mdec_stat m)" "i16_list blk" "4 * k < 64" "blk ! (4 * k) < 0"
  shows "pack8 (y_to_mono m blk) (4 * k) AND 0xFFFFFF00 = 0xFFFFFF00"
proof -
  let ?v = "clamp (blk ! (4 * k)) (- 128) 127"
  have v: "- 128 \<le> ?v" "?v < 0" using assms(4) by (auto simp: clamp_def)
  have i16v: "sint (word_of_int (blk ! (4 * k)) :: u16) = blk ! (4 * k)"
    using i16_listD[OF assms(2,3)] by (simp add: signed_of_int signed_take_bit_int_eq_self)
  have first: "y_to_mono m blk ! (4 * k) = word_of_int ?v"
    using assms(1,3) i16v by (simp add: y_to_mono_def nth_append mono_scalar_def mono_simd_def Let_def clamp_def)
  have bits: "bit ?v n" if "8 \<le> n" for n
  proof -
    have eq: "signed_take_bit 7 ?v = ?v" using v by (simp add: signed_take_bit_int_eq_self)
    have "bit (signed_take_bit 7 ?v) n \<longleftrightarrow> bit ?v 7"
      using that by (simp only: bit_signed_take_bit_iff possible_bit_def) (simp add: min_def)
    moreover have "bit ?v 7 \<longleftrightarrow> signed_take_bit 7 ?v < 0" by (rule signed_take_bit_negative_iff[symmetric])
    ultimately show ?thesis using v(2) by (simp only: eq)
  qed
  have m: "(0xFFFFFF00 :: u32) = NOT (mask 8)" by (simp add: mask_eq_exp_minus_1)
  show ?thesis
    unfolding m pack8_def first
    by (rule bit_word_eqI) (auto simp: bit_simps bits not_less)
qed

text \<open>A block of samples with the value -3 in signed 8-bit output.\<close>

definition dark_block :: "int list" where "dark_block = replicate 64 (- 3)"

theorem signed_sample_spoils_word_witness:
  "pack8 (y_to_mono (mdec_new\<lparr>mdec_stat := put_flag 24 True 0\<rparr>) dark_block) (4 * 2) AND 0xFFFFFF00 = 0xFFFFFF00"
  by (rule signed_sample_spoils_word)
    (simp_all add: dark_block_def i16_list_def data_out_signed_def bit_put_flag mdec_new_def)

text \<open>
  With the decoder's thread, a command written after the last parameter of a picture and before
  the thread wakes takes the picture's place: the thread wakes to an empty list of parameters.
\<close>

theorem early_command_loses_picture:
  assumes "m_start_decode (m_mdec s)" "m_num_params (m_mdec s) = 0" "\<not> m_enable_dma0 (m_mdec s)"
  shows "\<exists>s' t. mdec_command env v s = Inr s' \<and> thread_step env (Waiting, s) (Waiting, s') \<and>
    thread_step env (Waiting, s') (Decoding [], s') \<and> thread_step env (Decoding [], s') (Waiting, t) \<and>
    mdec_out_fifo (m_mdec t) \<in> {[], mdec_out_fifo (m_mdec s)}"
proof -
  have sel: "m_enable_dma0 (cmd_select v m) = m_enable_dma0 m" "m_start_decode (cmd_select v m) = m_start_decode m"
    "mdec_out_fifo (cmd_select v m) \<in> {[], mdec_out_fifo m}" for m
    by (simp_all add: cmd_select_def Let_def begin_command_def mdec_stat_defs)
  obtain s' where s': "mdec_command env v s = Inr s'" "m_start_decode (m_mdec s')" "m_curr_in_pos (m_mdec s') = 0"
    "mdec_out_fifo (m_mdec s') \<in> {[], mdec_out_fifo (m_mdec s)}"
    using assms sel[of "upd_stat (put_bits 23 4 (drop_bit 25 v)) (m_mdec s)"]
    by (simp add: mdec_command_def cmd_start_def update_dma0_req_def Let_def set_in_request_def upd_stat_def)
  then have "parameters (m_mdec s') = []" by (simp add: parameters_def)
  then have "thread_step env (Waiting, s') (Decoding [], s')"
    using thread_wakes[OF s'(2), of env] by simp
  then show ?thesis
    using s' by (intro exI[of _ s'] exI[of _ "upd_mdec (\<lambda>m. m\<lparr>m_start_decode := False\<rparr>) s'"])
      (simp add: main_writes_command thread_sleeps)
qed

text \<open>A machine whose picture is waiting for the thread, and the command that resets the scale table.\<close>

definition mdec_with :: "mdec \<Rightarrow> unit psx_mdec" where
  "mdec_with m = psx_sio.extend (sio_with sio_new) (psx_mdec.fields m [])"

lemma mdec_with_mdec [simp]: "m_mdec (mdec_with m) = m"
  by (simp add: mdec_with_def psx_sio.defs psx_mdec.defs)

definition header_env :: "(unit, (unit, 'm) psx_mdec_scheme) dma_env" where
  "header_env = dma_env_on granting_os \<lparr>bus_read = (\<lambda>w e c a s. Inr (0, s)), bus_write = (\<lambda>w e c a v s. Inr s),
      cache_enabled = (\<lambda>s. False), undefined_instruction = (\<lambda>i s. Inr (False, s)),
      hle_bios_handler = (\<lambda>a e s. Inr (False, s))\<rparr>"

theorem early_command_loses_picture_witness:
  "\<exists>s' t. mdec_command header_env 0x60000000 (mdec_with (mdec_new\<lparr>m_start_decode := True, m_run_thread := True\<rparr>)) = Inr s' \<and>
    thread_step header_env (Waiting, mdec_with (mdec_new\<lparr>m_start_decode := True, m_run_thread := True\<rparr>)) (Waiting, s') \<and>
    thread_step header_env (Waiting, s') (Decoding [], s') \<and> thread_step header_env (Decoding [], s') (Waiting, t) \<and>
    mdec_out_fifo (m_mdec t) \<in> {[], mdec_out_fifo (m_mdec (mdec_with (mdec_new\<lparr>m_start_decode := True, m_run_thread := True\<rparr>)))}"
  by (rule early_command_loses_picture) (simp_all add: mdec_new_def)


end
