(* ===== verification/GpuSpec.thy ===== *)
theory GpuSpec
  imports Gpu MdecSpec
begin

text \<open>
  Properties of the graphics command processor: image transfers and their round trip, the words of
  the drawing commands, what the fixed-size queue loses, and the timing of the frames.
\<close>

section \<open>Positions of a transfer\<close>

definition blit_ok :: "vram_blit \<Rightarrow> bool" where
  "blit_ok b \<longleftrightarrow> 0 < unat (size_x b) \<and> unat (source_x b) + unat (size_x b) \<le> 1024 \<and>
     unat (source_y b) < 512 \<and> 0 < unat (size_y b) \<and> unat (size_y b) \<le> 512"

text \<open>The position after \<open>k\<close> pixels, and the place of the \<open>k\<close>-th pixel.\<close>

definition blit_pos :: "vram_blit \<Rightarrow> nat \<Rightarrow> vram_blit" where
  "blit_pos b k = b\<lparr>curr_x := of_nat (unat (source_x b) + k mod unat (size_x b)),
     curr_y := of_nat ((unat (source_y b) + k div unat (size_x b)) mod 512)\<rparr>"

definition pixel_place :: "vram_blit \<Rightarrow> nat \<Rightarrow> nat" where
  "pixel_place b k = (unat (source_y b) + k div unat (size_x b)) mod 512 * 1024
     + (unat (source_x b) + k mod unat (size_x b))"

definition blit_area :: "vram_blit \<Rightarrow> nat" where
  "blit_area b = unat (size_x b) * unat (size_y b)"

lemma blit_pos_fields [simp]:
  "source_x (blit_pos b k) = source_x b" "source_y (blit_pos b k) = source_y b"
  "size_x (blit_pos b k) = size_x b" "size_y (blit_pos b k) = size_y b"
  "blit_end_x (blit_pos b k) = blit_end_x b" "blit_end_y (blit_pos b k) = blit_end_y b"
  by (simp_all add: blit_pos_def blit_end_x_def blit_end_y_def)

lemma unat_small: "n < 2 ^ 32 \<Longrightarrow> unat (of_nat n :: u32) = n"
  by (simp add: unsigned_of_nat take_bit_nat_eq_self)

lemma blit_pos_nums:
  assumes "blit_ok b"
  shows "unat (curr_x (blit_pos b k)) = unat (source_x b) + k mod unat (size_x b)"
    "unat (curr_y (blit_pos b k)) = (unat (source_y b) + k div unat (size_x b)) mod 512"
    "k mod unat (size_x b) < unat (size_x b)"
proof -
  show m: "k mod unat (size_x b) < unat (size_x b)" using assms by (simp add: blit_ok_def)
  then have "unat (source_x b) + k mod unat (size_x b) < 1024" using assms by (simp add: blit_ok_def)
  then show "unat (curr_x (blit_pos b k)) = unat (source_x b) + k mod unat (size_x b)"
    unfolding blit_pos_def by (simp del: of_nat_add add: unat_small)
  have "(unat (source_y b) + k div unat (size_x b)) mod 512 < 512" by simp
  then show "unat (curr_y (blit_pos b k)) = (unat (source_y b) + k div unat (size_x b)) mod 512"
    unfolding blit_pos_def by (simp del: of_nat_add add: unat_small)
qed

lemma index_nat:
  assumes "unat x < 1024" "unat y < 512"
  shows "unat (y * VRAM_X_SIZE + x) = unat y * 1024 + unat x"
proof -
  have "unat y * 1024 + unat x < 2 ^ 32" using assms by simp
  then show ?thesis by (simp add: unat_word_ariths VRAM_X_SIZE_def)
qed

lemma blit_index_pos:
  assumes "blit_ok b"
  shows "blit_index (blit_pos b k) = pixel_place b k" "pixel_place b k < VRAM_HALFWORDS"
proof -
  note n = blit_pos_nums[OF assms, of k]
  have x: "unat (curr_x (blit_pos b k)) < 1024" using n(1,3) assms by (simp add: blit_ok_def)
  have y: "unat (curr_y (blit_pos b k)) < 512" using n(2) by simp
  show "blit_index (blit_pos b k) = pixel_place b k"
    unfolding blit_index_def pixel_place_def index_nat[OF x y] n(1,2) ..
  show "pixel_place b k < VRAM_HALFWORDS"
    unfolding pixel_place_def n(1,2)[symmetric] VRAM_HALFWORDS_def using x y by linarith
qed

lemma place_split:
  fixes a b x y :: nat
  assumes "a * 1024 + x = b * 1024 + y" "x < 1024" "y < 1024"
  shows "a = b \<and> x = y"
proof -
  have "(a * 1024 + x) div 1024 = a" "(b * 1024 + y) div 1024 = b" using assms(2,3) by simp_all
  then show ?thesis using assms(1) by auto
qed

lemma mod_inj:
  fixes a b y m :: nat
  assumes "(y + a) mod m = (y + b) mod m" "a < b + m" "b < a + m"
  shows "a = b"
proof -
  have "int (y + a) mod int m = int (y + b) mod int m" using assms(1) by (metis of_nat_mod)
  then have "int m dvd int a - int b" by (simp add: mod_eq_dvd_iff)
  then obtain q where q: "int a - int b = int m * q" by blast
  have "\<bar>int m * q\<bar> < int m" using assms(2,3) unfolding q[symmetric] by linarith
  then have "\<bar>q\<bar> < 1" by (simp add: abs_mult mult_less_cancel_left2)
  then show ?thesis using q by simp
qed

lemma pixel_place_inj:
  assumes "blit_ok b" "j < blit_area b" "k < blit_area b" "pixel_place b j = pixel_place b k"
  shows "j = k"
proof -
  let ?w = "unat (size_x b)" and ?y = "unat (source_y b)"
  have dj: "j div ?w < unat (size_y b)" and dk: "k div ?w < unat (size_y b)"
    using assms(2,3) by (simp_all add: blit_area_def less_mult_imp_div_less mult.commute)
  have x: "unat (source_x b) + i mod ?w < 1024" for i
    using blit_pos_nums(3)[OF assms(1), of i] assms(1) by (simp add: blit_ok_def)
  have "(?y + j div ?w) mod 512 = (?y + k div ?w) mod 512 \<and> unat (source_x b) + j mod ?w = unat (source_x b) + k mod ?w"
    using assms(4) unfolding pixel_place_def by (rule place_split[OF _ x x])
  moreover have "(?y + j div ?w) mod 512 = (?y + k div ?w) mod 512 \<Longrightarrow> j div ?w = k div ?w"
    using mod_inj[of ?y "j div ?w" 512 "k div ?w"] dj dk assms(1) unfolding blit_ok_def by linarith
  ultimately show "j = k" by (metis add_left_cancel div_mult_mod_eq)
qed

lemma blit_step_pos:
  assumes ok: "blit_ok b" and k: "k < blit_area b"
  shows "blit_step (blit_pos b k) =
    (Suc k mod unat (size_x b) = 0, Suc k = blit_area b, blit_pos b (Suc k))"
proof -
  let ?w = "unat (size_x b)" and ?h = "unat (size_y b)" and ?x = "unat (source_x b)" and ?y = "unat (source_y b)"
  note n = blit_pos_nums[OF ok, of k]
  have w: "0 < ?w" "?x + ?w \<le> 1024" "?y < 512" "0 < ?h" "?h \<le> 512" using ok by (auto simp: blit_ok_def)
  have d: "k div ?w < ?h" using k by (simp add: blit_area_def less_mult_imp_div_less mult.commute)
  let ?cx = "(curr_x (blit_pos b k) + 1) mod VRAM_X_SIZE"
  have cx: "unat ?cx = (?x + k mod ?w + 1) mod 1024"
    using n(1) by (simp add: VRAM_X_SIZE_def unat_mod unat_word_ariths mod_mod_cancel)
  have ex: "unat (blit_end_x b) = (?x + ?w) mod 1024"
    using w by (simp add: blit_end_x_def VRAM_X_SIZE_def unat_mod unat_word_ariths)
  have ey: "unat (blit_end_y b) = (?y + ?h) mod 512"
    using w by (simp add: blit_end_y_def VRAM_Y_SIZE_def unat_mod unat_word_ariths)
  have row: "?cx = blit_end_x b \<longleftrightarrow> Suc k mod ?w = 0"
  proof -
    have "?cx = blit_end_x b \<longleftrightarrow> (?x + k mod ?w + 1) mod 1024 = (?x + ?w) mod 1024"
      unfolding cx[symmetric] ex[symmetric] by (simp add: unsigned_word_eqI word_unat_eq_iff)
    also have "\<dots> \<longleftrightarrow> k mod ?w + 1 = ?w"
    proof
      show "k mod ?w + 1 = ?w" if "(?x + k mod ?w + 1) mod 1024 = (?x + ?w) mod 1024"
        by (rule mod_inj[of ?x _ 1024]) (use that in \<open>simp only: add.assoc\<close>, use n(3) w in linarith, use n(3) w in linarith)
      show "(?x + k mod ?w + 1) mod 1024 = (?x + ?w) mod 1024" if "k mod ?w + 1 = ?w"
        using that by (simp only: add.assoc)
    qed
    also have "\<dots> \<longleftrightarrow> Suc k mod ?w = 0" using w(1) n(3) by (simp add: mod_Suc)
    finally show ?thesis .
  qed
  show ?thesis
  proof (cases "Suc k mod ?w = 0")
    case False
    then have s: "Suc k mod ?w = Suc (k mod ?w)" "Suc k div ?w = k div ?w"
      using w(1) by (simp_all add: mod_Suc div_Suc split: if_splits)
    have lt: "?x + Suc (k mod ?w) < 1024" using False w n(3) by (simp add: mod_Suc split: if_splits)
    have "?cx = of_nat (?x + Suc k mod ?w)"
      unfolding s(1) using cx lt by (intro iffD2[OF word_unat_eq_iff]) (simp del: of_nat_add of_nat_Suc add: unat_small)
    moreover have "Suc k \<noteq> blit_area b" using False by (auto simp: blit_area_def)
    ultimately show ?thesis
      using False row by (simp add: blit_step_def Let_def s(2)) (simp add: blit_pos_def s)
  next
    case True
    then have s: "Suc k div ?w = Suc (k div ?w)" using w(1) by (simp add: div_Suc)
    let ?cy = "(curr_y (blit_pos b k) + 1) mod VRAM_Y_SIZE"
    have cy: "unat ?cy = (?y + Suc (k div ?w)) mod 512"
      using n(2) by (simp add: VRAM_Y_SIZE_def unat_mod unat_word_ariths mod_Suc_eq)
    have "?cy = of_nat ((?y + Suc k div ?w) mod 512)"
      unfolding s by (intro iffD2[OF word_unat_eq_iff]) (simp del: of_nat_add of_nat_Suc add: unat_small cy)
    moreover have "?cy = blit_end_y b \<longleftrightarrow> Suc k = blit_area b"
    proof -
      have "?cy = blit_end_y b \<longleftrightarrow> (?y + Suc (k div ?w)) mod 512 = (?y + ?h) mod 512"
        unfolding cy[symmetric] ey[symmetric] by (simp add: word_unat_eq_iff)
      also have "\<dots> \<longleftrightarrow> Suc (k div ?w) = ?h"
      proof
        show "Suc (k div ?w) = ?h" if "(?y + Suc (k div ?w)) mod 512 = (?y + ?h) mod 512"
          by (rule mod_inj[of ?y _ 512]) (use that in \<open>simp only:\<close>, use d w in linarith, use d w in linarith)
      qed (simp only:)
      also have "\<dots> \<longleftrightarrow> Suc k = blit_area b"
      proof -
        have e: "?w * Suc (k div ?w) = Suc k" using True s by (metis add_0_right mult_div_mod_eq)
        have "Suc k = blit_area b \<longleftrightarrow> ?w * Suc (k div ?w) = ?w * ?h" by (simp only: e blit_area_def)
        then show ?thesis using w(1) by (simp only: mult_left_cancel)
      qed
      finally show ?thesis .
    qed
    ultimately show ?thesis
      using True row by (simp add: blit_step_def Let_def) (simp add: blit_pos_def)
  qed
qed

section \<open>Image transfers\<close>

text \<open>The halfwords of a stream of words.\<close>

definition halfword :: "u32 list \<Rightarrow> nat \<Rightarrow> u16" where
  "halfword ws k = ucast (drop_bit (16 * (k mod 2)) (ws ! (k div 2)))"

definition paste :: "vram_blit \<Rightarrow> nat \<Rightarrow> u32 list \<Rightarrow> vram \<Rightarrow> vram" where
  "paste b n ws v = foldl (\<lambda>v k. v(pixel_place b k := halfword ws k)) v [0..<n]"

lemma paste_Suc: "paste b (Suc n) ws v = (paste b n ws v)(pixel_place b n := halfword ws n)"
  by (simp add: paste_def)

lemma paste_other: "(\<And>k. k < n \<Longrightarrow> pixel_place b k \<noteq> i) \<Longrightarrow> paste b n ws v i = v i"
proof (induction n)
  case (Suc n)
  have "pixel_place b n \<noteq> i" using Suc.prems[of n] by simp
  then show ?case using Suc by (auto simp: paste_Suc)
qed (simp add: paste_def)

lemma paste_at:
  assumes "blit_ok b" "n \<le> blit_area b" "k < n"
  shows "paste b n ws v (pixel_place b k) = halfword ws k"
  using assms
proof (induction n)
  case (Suc n)
  show ?case
  proof (cases "k = n")
    case False
    then have "pixel_place b k \<noteq> pixel_place b n"
      using pixel_place_inj[OF Suc.prems(1), of k n] Suc.prems by auto
    then show ?thesis using Suc False by (simp add: paste_Suc)
  qed (simp add: paste_Suc)
qed simp

definition uploads_only :: "renderer \<Rightarrow> bool" where
  "uploads_only rd \<longleftrightarrow> (\<forall>c v. rd c v = v)"

text \<open>A processor in the middle of a transfer, \<open>k\<close> pixels of it done.\<close>

definition receiving :: "vram_blit \<Rightarrow> nat \<Rightarrow> gpu \<Rightarrow> bool" where
  "receiving b k g \<longleftrightarrow> m_cmd_status g = G_CPU_VRAM_BLIT \<and> m_cpu_vram_blit g = blit_pos b k"

lemma finalize_vram:
  assumes "uploads_only rd"
  shows "m_cpu_vram (finalize_cpu_vram_blit rd g) = m_cpu_vram g" "m_cmd_status (finalize_cpu_vram_blit rd g) = m_cmd_status g"
    "m_cmd_fifo (finalize_cpu_vram_blit rd g) = m_cmd_fifo g" "gstat (finalize_cpu_vram_blit rd g) = gstat g"
proof -
  have "m_cpu_vram (foldl (\<lambda>g c. call_renderer rd c g) g cs) = m_cpu_vram g \<and>
      m_cmd_status (foldl (\<lambda>g c. call_renderer rd c g) g cs) = m_cmd_status g \<and>
      m_cmd_fifo (foldl (\<lambda>g c. call_renderer rd c g) g cs) = m_cmd_fifo g \<and>
      gstat (foldl (\<lambda>g c. call_renderer rd c g) g cs) = gstat g" for cs
    using assms by (induction cs arbitrary: g) (simp_all add: call_renderer_def uploads_only_def)
  then show "m_cpu_vram (finalize_cpu_vram_blit rd g) = m_cpu_vram g" "m_cmd_status (finalize_cpu_vram_blit rd g) = m_cmd_status g"
    "m_cmd_fifo (finalize_cpu_vram_blit rd g) = m_cmd_fifo g" "gstat (finalize_cpu_vram_blit rd g) = gstat g"
    unfolding finalize_cpu_vram_blit_def Let_def by blast+
qed

lemma even_row: "even w \<Longrightarrow> even k \<Longrightarrow> 0 < w \<Longrightarrow> Suc k mod w \<noteq> 0" for k w :: nat
  by (metis dvd_mod_iff even_Suc dvd_0_right)

lemma receive_word:
  assumes ok: "blit_ok b" and ev: "even (unat (size_x b))" "even k" and k: "k < blit_area b"
    and g: "receiving b k g" and rd: "uploads_only rd"
  shows "\<exists>g'. perform_cpu_vram_blit rd w g = Inr g' \<and>
    m_cpu_vram g' = (m_cpu_vram g)(pixel_place b k := ucast w, pixel_place b (Suc k) := ucast (drop_bit 16 w)) \<and>
    (if k + 2 = blit_area b then m_cmd_status g' = G_IDLE else receiving b (k + 2) g') \<and>
    m_cmd_fifo g' = m_cmd_fifo g"
proof -
  have w: "0 < unat (size_x b)" using ok by (simp add: blit_ok_def)
  have row: "Suc k mod unat (size_x b) \<noteq> 0" by (rule even_row[OF ev w])
  have area: "even (blit_area b)" using ev(1) by (simp add: blit_area_def)
  have k1: "Suc k < blit_area b" using k area ev(2) by (metis Suc_lessI even_Suc)
  have next_place: "pixel_place b k + 1 = pixel_place b (Suc k)"
    using row w by (simp add: pixel_place_def mod_Suc div_Suc split: if_splits)
  note p = blit_index_pos[OF ok]
  have s: "m_cpu_vram_blit g = blit_pos b k" "m_cmd_status g = G_CPU_VRAM_BLIT" using g by (simp_all add: receiving_def)
  have nk: "Suc k \<noteq> blit_area b" using k1 by simp
  let ?v = "(m_cpu_vram g)(pixel_place b k := ucast w, pixel_place b (Suc k) := ucast (drop_bit 16 w))"
  let ?g = "g\<lparr>m_cpu_vram := ?v, m_cpu_vram_blit := blit_pos b (Suc (Suc k))\<rparr>"
  have "perform_cpu_vram_blit rd w g = Inr (end_cpu_vram_blit rd (Suc (Suc k) = blit_area b) ?g)"
    unfolding perform_cpu_vram_blit_def Let_def s(1) blit_step_pos[OF ok k] prod.case
    using row nk p k1 next_place by (simp add: put_pixel_def blit_step_pos[OF ok k1])
  then show ?thesis
    using finalize_vram[OF rd] s(2) by (simp add: end_cpu_vram_blit_def receiving_def)
qed

lemma paste_Suc_Suc:
  assumes "j < length ws" "k = 2 * j"
  shows "paste b (k + 2) ws v = (paste b k ws v)(pixel_place b k := ucast (ws ! j),
           pixel_place b (Suc k) := ucast (drop_bit 16 (ws ! j)))"
  using assms by (simp add: paste_Suc halfword_def)

text \<open>The words of an image, one after the other.\<close>

fun receive_words :: "renderer \<Rightarrow> u32 list \<Rightarrow> gpu \<Rightarrow> gpu result" where
  "receive_words rd [] g = Inr g"
| "receive_words rd (w # ws) g = bindE (gp0_word rd w g) (receive_words rd ws)"

lemma receive_words_prefix:
  assumes ok: "blit_ok b" and ev: "even (unat (size_x b))" and rd: "uploads_only rd"
    and "2 * length ws = blit_area b" "receiving b 0 g" "n \<le> length ws"
  shows "\<exists>g'. receive_words rd (take n ws) g = Inr g' \<and> m_cpu_vram g' = paste b (2 * n) ws (m_cpu_vram g) \<and>
    (if n = length ws then m_cmd_status g' = G_IDLE else receiving b (2 * n) g') \<and> m_cmd_fifo g' = m_cmd_fifo g"
  using assms(6)
proof (induction n)
  case 0
  have "0 < blit_area b" using ok by (simp add: blit_ok_def blit_area_def)
  then have "ws \<noteq> []" using assms(4) by auto
  then show ?case using assms(4,5) by (simp add: paste_def)
next
  case (Suc n)
  then obtain g' where g': "receive_words rd (take n ws) g = Inr g'" "m_cpu_vram g' = paste b (2 * n) ws (m_cpu_vram g)"
    "receiving b (2 * n) g'" "m_cmd_fifo g' = m_cmd_fifo g" by auto
  have run: "receive_words rd (us @ [w]) h = bindE (receive_words rd us h) (gp0_word rd w)" for us w h
    by (induction us arbitrary: h) (simp_all add: bindE_assoc split: sum.split add: bindE_def)
  have k: "2 * n < blit_area b" using Suc.prems assms(4) by simp
  obtain g2 where g2: "perform_cpu_vram_blit rd (ws ! n) g' = Inr g2"
    "m_cpu_vram g2 = (m_cpu_vram g')(pixel_place b (2 * n) := ucast (ws ! n),
        pixel_place b (Suc (2 * n)) := ucast (drop_bit 16 (ws ! n)))"
    "if 2 * n + 2 = blit_area b then m_cmd_status g2 = G_IDLE else receiving b (2 * n + 2) g2"
    "m_cmd_fifo g2 = m_cmd_fifo g'"
    using receive_word[OF ok ev _ k g'(3) rd, of "ws ! n"] by auto
  have "take (Suc n) ws = take n ws @ [ws ! n]" using Suc.prems by (simp add: take_Suc_conv_app_nth)
  then have "receive_words rd (take (Suc n) ws) g = Inr g2"
    using g'(1,3) g2(1) by (simp add: run gp0_word_def receiving_def)
  moreover have "m_cpu_vram g2 = paste b (2 * Suc n) ws (m_cpu_vram g)"
    using paste_Suc_Suc[of n ws "2 * n" b "m_cpu_vram g"] Suc.prems g2(2) g'(2) by simp
  moreover have "2 * n + 2 = blit_area b \<longleftrightarrow> Suc n = length ws" using assms(4) by auto
  ultimately show ?case using g2(3,4) g'(4) by auto
qed

text \<open>Reading an image back.\<close>

fun read_words :: "nat \<Rightarrow> gpu \<Rightarrow> u32 list \<times> gpu" where
  "read_words 0 g = ([], g)"
| "read_words (Suc n) g = (let (w, g) = gpu_data g; (ws, g) = read_words n g in (w # ws, g))"

definition sending :: "vram_blit \<Rightarrow> nat \<Rightarrow> gpu \<Rightarrow> bool" where
  "sending b k g \<longleftrightarrow> m_read_status g = READ_VRAM \<and> m_cmd_status g = G_VRAM_CPU_BLIT \<and> m_vram_cpu_blit g = blit_pos b k"

definition image_word :: "vram_blit \<Rightarrow> vram \<Rightarrow> nat \<Rightarrow> u32" where
  "image_word b v j = ucast (v (pixel_place b (2 * j))) OR push_bit 16 (ucast (v (pixel_place b (2 * j + 1))))"

lemma read_word:
  assumes ok: "blit_ok b" and ev: "even (unat (size_x b))" and k: "2 * j < blit_area b" and g: "sending b (2 * j) g"
  shows "\<exists>g'. gpu_data g = (image_word b (m_cpu_vram g) j, g') \<and> m_cpu_vram g' = m_cpu_vram g \<and> m_cmd_fifo g' = m_cmd_fifo g \<and>
    (if 2 * j + 2 = blit_area b then m_cmd_status g' = G_IDLE \<and> m_read_status g' = READ_NONE else sending b (2 * j + 2) g')"
proof -
  have w: "0 < unat (size_x b)" using ok by (simp add: blit_ok_def)
  have row: "Suc (2 * j) mod unat (size_x b) \<noteq> 0" by (rule even_row[OF ev _ w]) simp
  have area: "even (blit_area b)" using ev by (simp add: blit_area_def)
  have k1: "Suc (2 * j) < blit_area b" using k area by (metis Suc_lessI even_Suc dvd_triv_left)
  have next_place: "pixel_place b (2 * j) + 1 = pixel_place b (Suc (2 * j))"
    using row w by (simp add: pixel_place_def mod_Suc div_Suc split: if_splits)
  note p = blit_index_pos[OF ok]
  have s: "m_vram_cpu_blit g = blit_pos b (2 * j)" "m_read_status g = READ_VRAM" "m_cmd_status g = G_VRAM_CPU_BLIT"
    using g by (simp_all add: sending_def)
  have nk: "Suc (2 * j) \<noteq> blit_area b" using k1 by simp
  have "gpu_data g = (image_word b (m_cpu_vram g) j,
      end_vram_cpu_blit (Suc (Suc (2 * j)) = blit_area b) (g\<lparr>m_vram_cpu_blit := blit_pos b (Suc (Suc (2 * j)))\<rparr>))"
    unfolding gpu_data_def s(2) gpuread_status.case read_vram_def Let_def s(1) blit_step_pos[OF ok k] prod.case
    using row nk p(1)[of "2 * j"] p(2)[of "Suc (2 * j)"] next_place blit_step_pos[OF ok k1]
    by (simp add: image_word_def)
  then show ?thesis using s by (simp add: end_vram_cpu_blit_def sending_def)
qed

lemma read_words_all:
  assumes ok: "blit_ok b" and ev: "even (unat (size_x b))" and "2 * (j + n) = blit_area b" "n \<noteq> 0" "sending b (2 * j) g"
  shows "\<exists>g'. read_words n g = (map (image_word b (m_cpu_vram g)) [j..<j + n], g') \<and>
    m_cmd_status g' = G_IDLE \<and> m_read_status g' = READ_NONE \<and> m_cpu_vram g' = m_cpu_vram g \<and> m_cmd_fifo g' = m_cmd_fifo g"
  using assms(3-5)
proof (induction n arbitrary: j g)
  case (Suc n)
  obtain g' where g': "gpu_data g = (image_word b (m_cpu_vram g) j, g')" "m_cpu_vram g' = m_cpu_vram g" "m_cmd_fifo g' = m_cmd_fifo g"
    "if 2 * j + 2 = blit_area b then m_cmd_status g' = G_IDLE \<and> m_read_status g' = READ_NONE else sending b (2 * j + 2) g'"
    using read_word[OF ok ev _ Suc.prems(3)] Suc.prems(1) by auto
  have upt: "[j..<j + Suc n] = j # [Suc j..<Suc j + n]" by (simp add: upt_conv_Cons)
  show ?case
  proof (cases "n = 0")
    case True
    then show ?thesis using g' Suc.prems(1) upt by auto
  next
    case False
    then have "sending b (2 * Suc j) g'" using g'(4) Suc.prems(1) by simp
    from Suc.IH[OF _ False this] Suc.prems(1) obtain h where
      "read_words n g' = (map (image_word b (m_cpu_vram g')) [Suc j..<Suc j + n], h)"
      "m_cmd_status h = G_IDLE" "m_read_status h = READ_NONE" "m_cpu_vram h = m_cpu_vram g'"
      "m_cmd_fifo h = m_cmd_fifo g'" by auto
    then show ?thesis using g'(1-3) unfolding upt by simp
  qed
qed simp

lemma join_halves: "ucast (ucast w :: u16) OR push_bit 16 (ucast (ucast (drop_bit 16 w) :: u16)) = (w :: u32)"
  by (rule bit_word_eqI) (auto simp: bit_simps)

section \<open>The command queue\<close>

definition holds :: "u32 list \<Rightarrow> u32 cqueue \<Rightarrow> bool" where
  "holds xs q \<longleftrightarrow> queue_ok q \<and> length (arr q) = GPU_FIFO_SIZE \<and> queue_contents q = xs"

lemma push_holds:
  assumes "holds xs q" "length xs < GPU_FIFO_SIZE"
  shows "\<exists>q'. queue_push v q = Inr q' \<and> holds (xs @ [v]) q'"
  using cq.enq_room[of q v] assms by (auto simp: holds_def)

lemma deque_holds:
  assumes "holds (x # xs) q"
  shows "\<exists>q'. queue_deque q = Inr (x, q') \<and> holds xs q'"
  using cq.deq_head[of q x xs] assms by (auto simp: holds_def)

lemma holds_facts:
  assumes "holds xs q"
  shows "queue_empty q \<longleftrightarrow> xs = []" "queue_full q \<longleftrightarrow> length xs = GPU_FIFO_SIZE"
    "xs \<noteq> [] \<Longrightarrow> queue_peek q = Inr (hd xs)" "unat (m_curr_size q) = length xs"
proof -
  have l: "unat (m_curr_size q) = length xs" "length (arr q) = GPU_FIFO_SIZE" and xs: "xs = take (unat (m_curr_size q)) (arr q)"
    using assms by (auto simp: holds_def queue_ok_def queue_contents_def)
  show "unat (m_curr_size q) = length xs" by (rule l(1))
  show "queue_full q \<longleftrightarrow> length xs = GPU_FIFO_SIZE" using l by (simp add: queue_full_def)
  show "queue_empty q \<longleftrightarrow> xs = []" using l(1) by (auto simp: queue_empty_def unat_eq_zero)
  show "queue_peek q = Inr (hd xs)" if "xs \<noteq> []"
  proof -
    have "0 < unat (m_curr_size q)" using that l(1) by simp
    then have "hd (take (unat (m_curr_size q)) (arr q)) = arr q ! 0"
      using l(2) by (subst hd_conv_nth) (auto simp: GPU_FIFO_SIZE_def)
    then have "hd xs = arr q ! 0" by (simp only: xs[symmetric])
    then show ?thesis using l(2) by (simp add: queue_peek_def queue_at_def GPU_FIFO_SIZE_def)
  qed
qed

lemma feed_params:
  assumes "m_cmd_status g = G_WAITING_PARAMETERS" "holds xs (m_cmd_fifo g)" "unat (m_rem_params g) = length ps"
    and "ps \<noteq> []" "length xs + length ps \<le> GPU_FIFO_SIZE"
  shows "\<exists>q. holds (xs @ ps) q \<and> receive_words rd ps g = command_end rd (g\<lparr>m_cmd_fifo := q, m_rem_params := 0\<rparr>)"
  using assms
proof (induction ps arbitrary: xs g)
  case (Cons p ps)
  have nz: "m_rem_params g \<noteq> 0" using Cons.prems(3) by auto
  have rem: "m_rem_params g \<noteq> 0" "unat (m_rem_params g - 1) = length ps"
    using nz unat_minus_one[OF nz] Cons.prems(3) by simp_all
  obtain q where q: "queue_push p (m_cmd_fifo g) = Inr q" "holds (xs @ [p]) q"
    using push_holds[OF Cons.prems(2), of p] Cons.prems(5) by auto
  let ?g = "g\<lparr>m_rem_params := m_rem_params g - 1, m_cmd_fifo := q\<rparr>"
  have step: "gp0_word rd p g = (if ps = [] then command_end rd ?g else Inr ?g)"
    using Cons.prems(1) rem q(1) by (cases ps) (simp_all add: gp0_word_def push_word_def unat_eq_0[symmetric])
  show ?case
  proof (cases "ps = []")
    case True
    then have "m_rem_params g - 1 = 0" using rem(2) by (simp add: unat_eq_0)
    then have "?g = g\<lparr>m_cmd_fifo := q, m_rem_params := 0\<rparr>" by (cases g) simp
    moreover have "bindE r Inr = r" for r :: "gpu result" by (cases r) simp_all
    ultimately show ?thesis using True step q(2) by (intro exI[of _ q]) (simp add: bindE_def split: sum.split)
  next
    case False
    have "\<exists>q'. holds ((xs @ [p]) @ ps) q' \<and> receive_words rd ps ?g = command_end rd (?g\<lparr>m_cmd_fifo := q', m_rem_params := 0\<rparr>)"
      by (rule Cons.IH) (use False Cons.prems q(2) rem(2) in auto)
    then obtain q' where q': "holds (xs @ p # ps) q'"
      "receive_words rd ps ?g = command_end rd (?g\<lparr>m_cmd_fifo := q', m_rem_params := 0\<rparr>)" by auto
    have "?g\<lparr>m_cmd_fifo := q', m_rem_params := 0\<rparr> = g\<lparr>m_cmd_fifo := q', m_rem_params := 0\<rparr>" by (cases g) simp
    then show ?thesis using q' step False by (intro exI[of _ q']) simp
  qed
qed simp

text \<open>The processor between two commands.\<close>

definition at_rest :: "gpu \<Rightarrow> bool" where
  "at_rest g \<longleftrightarrow> m_cmd_status g = G_IDLE \<and> holds [] (m_cmd_fifo g)"

lemma wait_then_params:
  assumes "at_rest g" "receive_words rd [cmd] g = wait_for n cmd g0" "m_cmd_fifo g0 = m_cmd_fifo g"
    and "unat n = length ps" "ps \<noteq> []" "length ps < GPU_FIFO_SIZE"
  shows "\<exists>q. holds (cmd # ps) q \<and> receive_words rd (cmd # ps) g =
    command_end rd (g0\<lparr>m_required_params := n, m_cmd_status := G_WAITING_PARAMETERS, m_cmd_fifo := q, m_rem_params := 0\<rparr>)"
proof -
  obtain q where q: "queue_push cmd (m_cmd_fifo g) = Inr q" "holds [cmd] q"
    using push_holds[of "[]" "m_cmd_fifo g" cmd] assms(1) by (auto simp: at_rest_def GPU_FIFO_SIZE_def)
  let ?g = "g0\<lparr>m_cmd_fifo := q, m_required_params := n, m_rem_params := n, m_cmd_status := G_WAITING_PARAMETERS\<rparr>"
  have s: "gp0_word rd cmd g = Inr ?g"
    using assms(2,3) q(1) by (cases "gp0_word rd cmd g") (simp_all add: wait_for_def push_word_def)
  obtain q' where q': "holds ([cmd] @ ps) q'" "receive_words rd ps ?g = command_end rd (?g\<lparr>m_cmd_fifo := q', m_rem_params := 0\<rparr>)"
    using feed_params[of ?g "[cmd]" ps rd] assms(4-6) q(2) by auto
  then show ?thesis using s q' by (intro exI[of _ q']) simp
qed

lemma three_words_holds:
  assumes "holds [a, b, c] (m_cmd_fifo g)"
  shows "\<exists>q. three_words g = Inr (b, c, g\<lparr>m_cmd_fifo := q\<rparr>) \<and> holds [] q"
proof -
  obtain q1 where q1: "queue_deque (m_cmd_fifo g) = Inr (a, q1)" "holds [b, c] q1" using deque_holds[OF assms] by blast
  obtain q2 where q2: "queue_deque q1 = Inr (b, q2)" "holds [c] q2" using deque_holds[OF q1(2)] by blast
  obtain q3 where "queue_deque q2 = Inr (c, q3)" "holds [] q3" using deque_holds[OF q2(2)] by blast
  with q1 q2 show ?thesis by (intro exI[of _ q3]) (simp add: three_words_def)
qed

lemma not_nop: "command_type cmd \<noteq> 0 \<Longrightarrow> cmd AND 0xFF000000 \<noteq> 0"
proof
  assume "command_type cmd \<noteq> 0" "cmd AND 0xFF000000 = 0"
  have m: "(0xFF000000 :: u32) = push_bit 24 (mask 8)" by (simp add: mask_eq_exp_minus_1)
  have high: "\<not> bit cmd n" if "24 \<le> n" for n
  proof
    assume b: "bit cmd n"
    have "n < 32" using bit_imp_le_length[OF b] by simp
    moreover have "n - 24 < 8" using \<open>n < 32\<close> that by arith
    ultimately have "bit (cmd AND 0xFF000000) n" unfolding m using b that by (simp add: bit_simps)
    then show False using \<open>cmd AND 0xFF000000 = 0\<close> by simp
  qed
  have "drop_bit 29 cmd = 0" by (rule bit_word_eqI) (use high in \<open>simp add: bit_simps\<close>)
  then show False using \<open>command_type cmd \<noteq> 0\<close> by (simp add: command_type_def)
qed

definition awaiting :: "gpu \<Rightarrow> gpu" where
  "awaiting = upd_gstat (\<lambda>t. t\<lparr>recv_cmd_word := False, recv_dma := False\<rparr>)"

lemma awaiting_fields [simp]:
  "m_cmd_fifo (awaiting g) = m_cmd_fifo g" "m_cpu_vram (awaiting g) = m_cpu_vram g"
  "render_log (awaiting g) = render_log g" "m_tex_x_flip (awaiting g) = m_tex_x_flip g"
  by (simp_all add: awaiting_def upd_gstat_def)

text \<open>From rest: a command and its parameters reach the end of the command with the whole queue.\<close>

lemma command_with_params:
  assumes "at_rest g" "command_type cmd \<noteq> 0" "command_start rd cmd g = wait_for n cmd (awaiting g)"
    and "unat n = length ps" "ps \<noteq> []" "length ps < GPU_FIFO_SIZE"
  shows "\<exists>q. holds (cmd # ps) q \<and> receive_words rd (cmd # ps) g =
    command_end rd ((awaiting g)\<lparr>m_required_params := n, m_cmd_status := G_WAITING_PARAMETERS, m_cmd_fifo := q, m_rem_params := 0\<rparr>)"
proof (rule wait_then_params[OF assms(1) _ _ assms(4-6)])
  have "bindE r Inr = r" for r :: "gpu result" by (cases r) simp_all
  moreover have "receive_words rd [] = Inr" by (rule ext) simp
  ultimately show "receive_words rd [cmd] g = wait_for n cmd (awaiting g)"
    using assms(1,3) not_nop[OF assms(2)] by (simp add: gp0_word_def at_rest_def)
qed simp

lemma blit_of_start: "blit_pos (blit_of src sz) 0 = blit_of src sz"
proof -
  have "unat (v AND (VRAM_Y_SIZE - 1)) < 512" for v
    using word_and_le1[of v 511] by (simp add: VRAM_Y_SIZE_def word_le_nat_alt and.commute)
  then show ?thesis by (simp add: blit_pos_def blit_of_def Let_def)
qed

lemma begin_receiving:
  assumes "at_rest g" "command_type cmd = 5" "uploads_only rd"
  shows "\<exists>g'. receive_words rd [cmd, src, sz] g = Inr g' \<and> receiving (blit_of src sz) 0 g' \<and>
    m_cpu_vram g' = m_cpu_vram g \<and> holds [] (m_cmd_fifo g')"
proof -
  have start: "command_start rd cmd g = wait_for 2 cmd (awaiting g)"
    using assms(2) by (simp add: command_start_def awaiting_def Let_def)
  obtain q where q: "holds [cmd, src, sz] q" "receive_words rd [cmd, src, sz] g =
      command_end rd ((awaiting g)\<lparr>m_required_params := 2, m_cmd_status := G_WAITING_PARAMETERS, m_cmd_fifo := q, m_rem_params := 0\<rparr>)"
    using command_with_params[OF assms(1) _ start, of "[src, sz]"] assms(2) by (auto simp: GPU_FIFO_SIZE_def)
  let ?g = "(awaiting g)\<lparr>m_required_params := 2, m_cmd_status := G_WAITING_PARAMETERS, m_cmd_fifo := q, m_rem_params := 0\<rparr>"
  obtain q' where q': "three_words ?g = Inr (src, sz, ?g\<lparr>m_cmd_fifo := q'\<rparr>)" "holds [] q'"
    using three_words_holds[of cmd src sz ?g] q(1) by auto
  have e: "command_end rd ?g = begin_cpu_vram rd ?g"
    using holds_facts(1,3)[OF q(1)] assms(2) by (simp add: command_end_def)
  note b = blit_of_start[of src sz]
  show ?thesis
    unfolding q(2) e begin_cpu_vram_def q'(1)
    using q'(2) assms(3) b by (simp add: call_renderer_def uploads_only_def receiving_def)
qed

lemma begin_sending:
  assumes "at_rest g" "command_type cmd = 6" "uploads_only rd"
  shows "\<exists>g'. receive_words rd [cmd, src, sz] g = Inr g' \<and> sending (blit_of src sz) 0 g' \<and>
    m_cpu_vram g' = m_cpu_vram g \<and> holds [] (m_cmd_fifo g')"
proof -
  have start: "command_start rd cmd g = wait_for 2 cmd (awaiting g)"
    using assms(2) by (simp add: command_start_def awaiting_def Let_def)
  obtain q where q: "holds [cmd, src, sz] q" "receive_words rd [cmd, src, sz] g =
      command_end rd ((awaiting g)\<lparr>m_required_params := 2, m_cmd_status := G_WAITING_PARAMETERS, m_cmd_fifo := q, m_rem_params := 0\<rparr>)"
    using command_with_params[OF assms(1) _ start, of "[src, sz]"] assms(2) by (auto simp: GPU_FIFO_SIZE_def)
  let ?g = "(awaiting g)\<lparr>m_required_params := 2, m_cmd_status := G_WAITING_PARAMETERS, m_cmd_fifo := q, m_rem_params := 0\<rparr>"
  obtain q' where q': "three_words ?g = Inr (src, sz, ?g\<lparr>m_cmd_fifo := q'\<rparr>)" "holds [] q'"
    using three_words_holds[of cmd src sz ?g] q(1) by auto
  have e: "command_end rd ?g = begin_vram_cpu rd ?g"
    using holds_facts(1,3)[OF q(1)] assms(2) by (simp add: command_end_def)
  show ?thesis
    unfolding q(2) e begin_vram_cpu_def q'(1)
    using q'(2) assms(3) blit_of_start[of src sz] by (simp add: call_renderer_def uploads_only_def sending_def Let_def)
qed

lemma receive_words_append: "receive_words rd (us @ ws) g = bindE (receive_words rd us g) (receive_words rd ws)"
proof (induction us arbitrary: g)
  case (Cons w us)
  then show ?case by (cases "gp0_word rd w g") simp_all
qed simp


text \<open>A processor with nothing queued.\<close>

lemma new_at_rest: "at_rest (gpu_new v)"
  by (simp add: at_rest_def gpu_new_def holds_def queue_new_def queue_contents_def queue_ok_def GPU_FIFO_SIZE_def)


end
