(* ===== verification/GpuDraw.thy ===== *)
theory GpuDraw
  imports GpuSpec CounterSpec
begin

text \<open>
  The drawing commands and the frames of the graphics unit: a polygon command draws the triangles its
  words describe, what the fixed-size queue does to long polylines, and the vertical blanking of the frames.
\<close>

section \<open>Polygons\<close>

text \<open>The words per vertex, and the place of the words of a vertex among the parameters.\<close>

definition stride :: "u32 \<Rightarrow> nat" where
  "stride cmd = 1 + of_bool (is_textured cmd) + of_bool (is_gouraud cmd)"

definition corners :: "u32 \<Rightarrow> nat" where "corners cmd = (if is_quad cmd then 4 else 3)"

text \<open>The parameters start with the position of the first vertex, whose color is in the command itself.\<close>

definition color_word :: "u32 \<Rightarrow> u32 list \<Rightarrow> nat \<Rightarrow> u32" where
  "color_word cmd ps i = (if is_gouraud cmd \<and> i \<noteq> 0 then ps ! (i * stride cmd - 1) else cmd)"

definition uv_word :: "u32 \<Rightarrow> u32 list \<Rightarrow> nat \<Rightarrow> u32" where
  "uv_word cmd ps i = ps ! (i * stride cmd + 1)"

definition polygon_flags :: "u32 \<Rightarrow> u32" where
  "polygon_flags cmd = vertex_flag_bits (is_gouraud cmd) (is_semi_transparent cmd) (is_textured cmd \<and> is_raw_texture cmd)"

definition polygon_vertex :: "u32 \<Rightarrow> u32 list \<Rightarrow> u32 \<Rightarrow> nat \<Rightarrow> gpu_vertex" where
  "polygon_vertex cmd ps cp i =
     \<lparr>vertex_x = position_x (ps ! (i * stride cmd)), vertex_y = position_y (ps ! (i * stride cmd)),
      vertex_color = color_word cmd ps i AND 0xFFFFFF, vertex_clut_page = cp,
      vertex_flags = (if is_textured cmd then polygon_flags cmd else 0),
      vertex_uv = (if is_textured cmd then push_bit 16 (attr_v (uv_word cmd ps i)) OR attr_u (uv_word cmd ps i) else 0)\<rparr>"

text \<open>The palette comes with the first texture coordinates and the page with the second ones.\<close>

definition polygon_clut_page :: "u32 \<Rightarrow> u32 list \<Rightarrow> u32" where
  "polygon_clut_page cmd ps =
     (if is_textured cmd then push_bit 16 (clut_or_page (uv_word cmd ps 0)) OR clut_or_page (uv_word cmd ps 1) else 0)"

definition polygon_primitive :: "u32 \<Rightarrow> u32 list \<Rightarrow> gpu \<Rightarrow> nat list \<Rightarrow> primitive" where
  "polygon_primitive cmd ps g js =
     \<lparr>prim_vertices = map (polygon_vertex cmd ps (polygon_clut_page cmd ps)) js,
      prim_type = (if is_textured cmd then TEXTURED_TRIANGLE else if is_gouraud cmd then BASIC_GOURAUD_TRIANGLE
                   else UNTEXTURED_OPAQUE_FLAT_TRIANGLE),
      semi_transparent = is_semi_transparent cmd,
      semi_transparency_type = (if \<not> is_semi_transparent cmd then 0
        else if is_textured cmd then get_bits 5 2 (polygon_clut_page cmd ps) else semi_transparency (gstat g))\<rparr>"

definition words_before :: "u32 \<Rightarrow> nat \<Rightarrow> nat" where
  "words_before cmd i = i * stride cmd - of_bool (is_gouraud cmd \<and> i \<noteq> 0)"

definition clut_step :: "u32 \<Rightarrow> u32 list \<Rightarrow> nat \<Rightarrow> u32 \<Rightarrow> u32" where
  "clut_step cmd ps i cp =
     (if \<not> is_textured cmd then cp
      else if i = 0 then cp OR push_bit 16 (clut_or_page (uv_word cmd ps i))
      else if i = 1 then cp OR clut_or_page (uv_word cmd ps i) else cp)"

text \<open>Taking the next word off a queue that holds the rest of the parameters.\<close>

lemma deque_drop:
  assumes "holds (drop k ps) q" "k < length ps"
  shows "\<exists>q'. queue_deque q = Inr (ps ! k, q') \<and> holds (drop (Suc k) ps) q'"
  using deque_holds[of "ps ! k" "drop (Suc k) ps" q] assms by (simp add: Cons_nth_drop_Suc)

lemma words_before_Suc:
  "words_before cmd (Suc i) = i * stride cmd + 1 + of_bool (is_textured cmd)"
  "\<not> (is_gouraud cmd \<and> i \<noteq> 0) \<Longrightarrow> words_before cmd i = i * stride cmd"
  "is_gouraud cmd \<and> i \<noteq> 0 \<Longrightarrow> words_before cmd i = i * stride cmd - 1 \<and> Suc (words_before cmd i) = i * stride cmd"
  by (auto simp: words_before_def stride_def)

lemma polygon_vertices_from:
  assumes "holds (drop (words_before cmd i) ps) q" "i + n = m" "length ps = words_before cmd m"
  shows "\<exists>q'. polygon_vertices (is_textured cmd) (is_gouraud cmd) (cmd_color cmd) (polygon_flags cmd) [i..<m] cp q =
      Inr (map (polygon_vertex cmd ps 0) [i..<m], foldl (\<lambda>cp i. clut_step cmd ps i cp) cp [i..<m], q') \<and> holds [] q'"
  using assms
proof (induction n arbitrary: i cp q)
  case 0
  then show ?case by simp
next
  case (Suc n)
  let ?k = "i * stride cmd"
  have len: "words_before cmd (Suc i) \<le> length ps"
  proof -
    have "Suc i * stride cmd \<le> m * stride cmd" using Suc.prems(2) by (intro mult_le_mono1) simp
    then show ?thesis using Suc.prems(2,3) by (simp add: words_before_def)
  qed
  have kl: "?k < length ps" and ul: "is_textured cmd \<Longrightarrow> ?k + 1 < length ps"
    using len by (simp_all add: words_before_Suc(1))
  obtain q1 where q1: "(if is_gouraud cmd \<and> i \<noteq> 0 then bindE (queue_deque q) (\<lambda>(c, q). Inr (c AND 0xFFFFFF, q))
      else Inr (cmd_color cmd, q)) = Inr (color_word cmd ps i AND 0xFFFFFF, q1)" "holds (drop ?k ps) q1"
  proof (cases "is_gouraud cmd \<and> i \<noteq> 0")
    case True
    note w = words_before_Suc(3)[OF True]
    have "words_before cmd i < length ps" using w kl by linarith
    then obtain q' where "queue_deque q = Inr (ps ! (?k - 1), q')" "holds (drop ?k ps) q'"
      using deque_drop[OF Suc.prems(1)] w by auto
    then show ?thesis using True that by (simp add: color_word_def)
  next
    case False
    then show ?thesis
      using that[of q] Suc.prems(1) words_before_Suc(2)[OF False] by (auto simp: color_word_def cmd_color_def)
  qed
  obtain q2 where q2: "queue_deque q1 = Inr (ps ! ?k, q2)" "holds (drop (Suc ?k) ps) q2"
    using deque_drop[OF q1(2) kl] by blast
  define v where "v = vertex_new\<lparr>vertex_x := position_x (ps ! ?k), vertex_y := position_y (ps ! ?k),
      vertex_color := color_word cmd ps i AND 0xFFFFFF\<rparr>"
  obtain q3 where q3: "(if is_textured cmd then
        bindE (queue_deque q2) (\<lambda>(w, q).
          Inr (v\<lparr>vertex_uv := push_bit 16 (attr_v w) OR attr_u w, vertex_flags := polygon_flags cmd\<rparr>,
               (if i = 0 then cp OR push_bit 16 (clut_or_page w) else if i = 1 then cp OR clut_or_page w else cp), q))
      else Inr (v, cp, q2)) = Inr (polygon_vertex cmd ps 0 i, clut_step cmd ps i cp, q3)"
    "holds (drop (words_before cmd (Suc i)) ps) q3"
  proof (cases "is_textured cmd")
    case True
    obtain q' where "queue_deque q2 = Inr (ps ! Suc ?k, q')" "holds (drop (Suc (Suc ?k)) ps) q'"
      using deque_drop[OF q2(2)] ul[OF True] by auto
    then show ?thesis
      using True that[of q'] by (simp add: words_before_Suc(1) v_def vertex_new_def polygon_vertex_def clut_step_def uv_word_def)
  next
    case False
    then show ?thesis
      using that[of q2] q2(2) by (simp add: words_before_Suc(1) v_def vertex_new_def polygon_vertex_def clut_step_def)
  qed
  obtain q' where q': "polygon_vertices (is_textured cmd) (is_gouraud cmd) (cmd_color cmd) (polygon_flags cmd) [Suc i..<m]
      (clut_step cmd ps i cp) q3 = Inr (map (polygon_vertex cmd ps 0) [Suc i..<m],
        foldl (\<lambda>cp i. clut_step cmd ps i cp) (clut_step cmd ps i cp) [Suc i..<m], q')" "holds [] q'"
    using Suc.IH[OF q3(2) _ Suc.prems(3)] Suc.prems(2) by auto
  have im: "[i..<m] = i # [Suc i..<m]" using Suc.prems(2) by (intro upt_conv_Cons) simp
  show ?case
    unfolding im polygon_vertices.simps q1(1) bindE_simps prod.case q2(1) Let_def
      v_def[symmetric] q3(1) q'(1)
    using q'(2) by simp
qed

lemma corners_upt: "[0..<corners cmd] = (if is_quad cmd then [0, 1, 2, 3] else [0, 1, 2])"
  by (simp add: corners_def upt_rec)

lemma polygon_params_num: "unat (polygon_params cmd) = words_before cmd (corners cmd)"
  by (simp add: polygon_params_def words_before_def corners_def stride_def Let_def of_bool_def)

lemma clut_page_fold: "foldl (\<lambda>cp i. clut_step cmd ps i cp) 0 [0..<corners cmd] = polygon_clut_page cmd ps"
  by (simp add: corners_upt clut_step_def polygon_clut_page_def)

lemma polygon_vertex_page: "(polygon_vertex cmd ps cp i)\<lparr>vertex_clut_page := cp'\<rparr> = polygon_vertex cmd ps cp' i"
  by (simp add: polygon_vertex_def)

definition triangle_corners :: "u32 \<Rightarrow> nat list list" where
  "triangle_corners cmd = (if is_quad cmd then [[0, 1, 2], [1, 2, 3]] else [[0, 1, 2]])"

lemma draw_polygon_holds:
  assumes "holds ps (m_cmd_fifo g)" "length ps = words_before cmd (corners cmd)"
  shows "\<exists>g'. draw_polygon rd cmd g = Inr g' \<and> holds [] (m_cmd_fifo g') \<and>
    render_log g' = render_log g @ map (\<lambda>js. Draw_primitive (polygon_primitive cmd ps g js)) (triangle_corners cmd)"
proof -
  have h: "holds (drop (words_before cmd 0) ps) (m_cmd_fifo g)" using assms(1) by (simp add: words_before_def)
  obtain q where q: "polygon_vertices (is_textured cmd) (is_gouraud cmd) (cmd_color cmd) (polygon_flags cmd)
      [0..<corners cmd] 0 (m_cmd_fifo g) = Inr (map (polygon_vertex cmd ps 0) [0..<corners cmd], polygon_clut_page cmd ps, q)"
    "holds [] q"
    using polygon_vertices_from[OF h _ assms(2), of "corners cmd" 0] by (auto simp: clut_page_fold)
  have n: "(if is_quad cmd then 4 else 3 :: nat) = corners cmd" by (simp add: corners_def)
  have four: "corners cmd = 4 \<longleftrightarrow> is_quad cmd" by (simp add: corners_def)
  show ?thesis
    unfolding draw_polygon_def Let_def n four q(1)[unfolded polygon_flags_def] bindE_simps prod.case map_map comp_def
      polygon_vertex_page
    using q(2) by (simp add: corners_upt triangle_corners_def polygon_primitive_def call_renderer_def
        try_update_texpage_def upd_gstat_def)
qed

lemma words_before_corners: "0 < words_before cmd (corners cmd)" "words_before cmd (corners cmd) < GPU_FIFO_SIZE"
  by (simp_all add: words_before_def corners_def stride_def GPU_FIFO_SIZE_def)

text \<open>
  C36. A polygon command is drawn as its words say: from rest, the command word and as many parameters as
  its flags call for give one triangle, or two for a quadrilateral, whose positions, colors, texture
  coordinates, palette and page are the fields of the words the format assigns to each vertex; the
  queue is empty and the processor at rest again.
\<close>

theorem polygon_is_drawn:
  assumes "at_rest g" "command_type cmd = 1" "length ps = words_before cmd (corners cmd)"
  shows "\<exists>g'. receive_words rd (cmd # ps) g = Inr g' \<and> at_rest g' \<and>
    render_log g' = render_log g @ map (\<lambda>js. Draw_primitive (polygon_primitive cmd ps g js)) (triangle_corners cmd)"
proof -
  have start: "command_start rd cmd g = wait_for (polygon_params cmd) cmd (awaiting g)"
    using assms(2) by (simp add: command_start_def awaiting_def Let_def)
  define h where "h = (\<lambda>q. (awaiting g)\<lparr>m_required_params := polygon_params cmd, m_cmd_status := G_WAITING_PARAMETERS,
      m_cmd_fifo := q, m_rem_params := 0\<rparr>)"
  obtain q where q: "holds (cmd # ps) q" "receive_words rd (cmd # ps) g = command_end rd (h q)"
  proof -
    have "command_type cmd \<noteq> 0" "unat (polygon_params cmd) = length ps" "ps \<noteq> []" "length ps < GPU_FIFO_SIZE"
      using assms(2,3) words_before_corners[of cmd] by (auto simp: polygon_params_num)
    from command_with_params[OF assms(1) this(1) start this(2-4)] show thesis using that unfolding h_def by blast
  qed
  have hq: "m_cmd_fifo (h q) = q" by (simp add: h_def)
  obtain q' where q': "queue_deque q = Inr (cmd, q')" "holds ps q'" using deque_holds[OF q(1)] by blast
  obtain g' where g': "draw_polygon rd cmd ((h q)\<lparr>m_cmd_fifo := q'\<rparr>) = Inr g'" "holds [] (m_cmd_fifo g')"
    "render_log g' = render_log g @ map (\<lambda>js. Draw_primitive (polygon_primitive cmd ps ((h q)\<lparr>m_cmd_fifo := q'\<rparr>) js)) (triangle_corners cmd)"
    using draw_polygon_holds[of ps "(h q)\<lparr>m_cmd_fifo := q'\<rparr>" cmd rd] q'(2) assms(3) by (auto simp: h_def)
  have p: "polygon_primitive cmd ps ((h q)\<lparr>m_cmd_fifo := q'\<rparr>) = polygon_primitive cmd ps g"
    by (rule ext) (simp add: polygon_primitive_def h_def awaiting_def upd_gstat_def)
  have "command_end rd (h q) = then_idle (draw_polygon rd cmd ((h q)\<lparr>m_cmd_fifo := q'\<rparr>))"
    using holds_facts(1,3)[OF q(1)] assms(2) q'(1)
    by (simp add: command_end_def hq draw_quad_def draw_triangle_def with_command_def)
  then show ?thesis
    unfolding q(2) using g' by (simp add: then_idle_def at_rest_def p)
qed

theorem polygon_is_drawn_witness:
  "\<exists>g'. receive_words (\<lambda>c v. v) (0x24FF0000 # [0x00100010, 0x12340102, 0x00200010, 0x00070304, 0x00100020, 0x0506])
      (gpu_new (\<lambda>_. 0)) = Inr g' \<and> at_rest g' \<and>
    render_log g' = render_log (gpu_new (\<lambda>_. 0)) @ map (\<lambda>js. Draw_primitive (polygon_primitive 0x24FF0000
      [0x00100010, 0x12340102, 0x00200010, 0x00070304, 0x00100020, 0x0506] (gpu_new (\<lambda>_. 0)) js)) (triangle_corners 0x24FF0000)"
  by (rule polygon_is_drawn[OF new_at_rest])
    (simp_all add: command_type_def words_before_def corners_def stride_def is_quad_def is_textured_def is_gouraud_def bit_iff_odd_drop_bit)

section \<open>Long polylines\<close>

fun write_words ::
  "('h, ('h, 'm) psx_gpu_scheme) gpu_env \<Rightarrow> u32 list \<Rightarrow> ('h, 'm) psx_gpu_scheme \<Rightarrow> ('h, 'm) psx_gpu_scheme result" where
  "write_words env [] s = Inr s"
| "write_words env (w # ws) s = bindE (write_gp0 env w s) (write_words env ws)"

definition no_dma :: "('h, 'm) psx_gpu_scheme \<Rightarrow> bool" where
  "no_dma s \<longleftrightarrow> dma_direction_field (gstat (m_gpu s)) = DMA_OFF"

lemma update_dreq_off:
  assumes "no_dma s"
  shows "\<exists>s'. update_dreq env s = Inr s' \<and> no_dma s' \<and> m_cmd_fifo (m_gpu s') = m_cmd_fifo (m_gpu s) \<and>
    m_cmd_status (m_gpu s') = m_cmd_status (m_gpu s) \<and> render_log (m_gpu s') = render_log (m_gpu s)"
  using assms
  by (simp add: no_dma_def update_dreq_def Let_def upd_gpu_def ready_flags_def upd_gstat_def wants_data_def
      set_dreq_def upd_channel_def upd_ctl_def)

text \<open>A polyline whose words are being collected, \<open>xs\<close> so far.\<close>

definition collecting :: "u32 list \<Rightarrow> render_call list \<Rightarrow> ('h, 'm) psx_gpu_scheme \<Rightarrow> bool" where
  "collecting xs calls s \<longleftrightarrow> no_dma s \<and> m_cmd_status (m_gpu s) = G_POLYLINE \<and> holds xs (m_cmd_fifo (m_gpu s)) \<and>
     render_log (m_gpu s) = calls"

lemma collect_word:
  assumes "collecting xs calls s" "length xs < GPU_FIFO_SIZE" "\<not> is_terminator v"
  shows "\<exists>s'. write_gp0 env v s = Inr s' \<and> collecting (xs @ [v]) calls s'"
proof -
  obtain q where q: "queue_push v (m_cmd_fifo (m_gpu s)) = Inr q" "holds (xs @ [v]) q"
    using push_holds[of xs _ v] assms(1,2) by (auto simp: collecting_def)
  let ?s = "upd_gpu (\<lambda>_. (m_gpu s)\<lparr>m_cmd_fifo := q\<rparr>) s"
  have room: "\<not> queue_full (m_cmd_fifo (m_gpu s))"
    using holds_facts(2)[of xs "m_cmd_fifo (m_gpu s)"] assms(1,2) by (simp add: collecting_def)
  have "write_gp0 env v s = update_dreq env ?s"
    using assms(1,3) q(1) room by (simp add: write_gp0_def gp0_word_def collecting_def push_word_def)
  moreover have "no_dma ?s" using assms(1) by (simp add: collecting_def no_dma_def upd_gpu_def)
  from update_dreq_off[OF this, of env] have "\<exists>s'. update_dreq env ?s = Inr s' \<and> collecting (xs @ [v]) calls s'"
    using assms(1) q(2) by (auto simp: collecting_def upd_gpu_def)
  ultimately show ?thesis by simp
qed

lemma collect_words:
  assumes "collecting xs calls s" "length xs + length vs \<le> GPU_FIFO_SIZE" "\<forall>v \<in> set vs. \<not> is_terminator v"
  shows "\<exists>s'. write_words env vs s = Inr s' \<and> collecting (xs @ vs) calls s'"
  using assms
proof (induction vs arbitrary: xs s)
  case (Cons v vs)
  obtain t where t: "write_gp0 env v s = Inr t" "collecting (xs @ [v]) calls t"
    using collect_word[OF Cons.prems(1)] Cons.prems(2,3) by fastforce
  have "\<exists>s'. write_words env vs t = Inr s' \<and> collecting ((xs @ [v]) @ vs) calls s'"
    by (rule Cons.IH[OF t(2)]) (use Cons.prems(2,3) in auto)
  then show ?case using t(1) by simp
qed simp

lemma full_ignores:
  assumes "collecting xs calls s" "length xs = GPU_FIFO_SIZE"
  shows "write_words env ws s = Inr s"
proof (induction ws)
  case (Cons w ws)
  have "queue_full (m_cmd_fifo (m_gpu s))"
    using holds_facts(2)[of xs "m_cmd_fifo (m_gpu s)"] assms by (simp add: collecting_def)
  then show ?case using Cons by (simp add: write_gp0_def)
qed simp

lemma begin_polyline:
  assumes "no_dma s" "at_rest (m_gpu s)" "command_type cmd = 2" "is_polyline cmd" "\<not> is_gouraud cmd"
  shows "\<exists>s'. write_gp0 env cmd s = Inr s' \<and> collecting [cmd] (render_log (m_gpu s)) s'"
proof -
  obtain q where q: "queue_push cmd (m_cmd_fifo (m_gpu s)) = Inr q" "holds [cmd] q"
    using push_holds[of "[]" "m_cmd_fifo (m_gpu s)" cmd] assms(2) by (auto simp: at_rest_def GPU_FIFO_SIZE_def)
  let ?s = "upd_gpu (\<lambda>_. (awaiting (m_gpu s))\<lparr>m_cmd_fifo := q, m_cmd_status := G_POLYLINE\<rparr>) s"
  have room: "\<not> queue_full (m_cmd_fifo (m_gpu s))"
    using holds_facts(2)[of "[]" "m_cmd_fifo (m_gpu s)"] assms(2) by (simp add: at_rest_def GPU_FIFO_SIZE_def)
  have "gp0_word (render env) cmd (m_gpu s) = Inr ((awaiting (m_gpu s))\<lparr>m_cmd_fifo := q, m_cmd_status := G_POLYLINE\<rparr>)"
    using assms(2-5) q(1) not_nop[of cmd]
    by (simp add: gp0_word_def at_rest_def command_start_def push_word_def awaiting_def upd_gstat_def)
  then have "write_gp0 env cmd s = update_dreq env ?s" using room by (simp add: write_gp0_def)
  moreover have "no_dma ?s" using assms(1) by (simp add: no_dma_def upd_gpu_def awaiting_def upd_gstat_def)
  from update_dreq_off[OF this, of env] have "\<exists>s'. update_dreq env ?s = Inr s' \<and> collecting [cmd] (render_log (m_gpu s)) s'"
    using q(2) by (auto simp: collecting_def upd_gpu_def)
  ultimately show ?thesis by simp
qed

text \<open>
  A polyline of fifteen vertices stops the graphics unit: its words fill the queue, and from then on
  every word written to GP0, the terminator included, is dropped; nothing of the line is drawn and
  no later command is taken.
\<close>

theorem long_polyline_hangs:
  assumes "no_dma s" "at_rest (m_gpu s)" "command_type cmd = 2" "is_polyline cmd" "\<not> is_gouraud cmd"
    and "length vs = 15" "\<forall>v \<in> set vs. \<not> is_terminator v"
  shows "\<exists>s'. write_words env (cmd # vs) s = Inr s' \<and> render_log (m_gpu s') = render_log (m_gpu s) \<and>
    (\<forall>ws. write_words env ws s' = Inr s')"
proof -
  obtain t where t: "write_gp0 env cmd s = Inr t" "collecting [cmd] (render_log (m_gpu s)) t"
    using begin_polyline[OF assms(1-5)] by blast
  obtain s' where s': "write_words env vs t = Inr s'" "collecting ([cmd] @ vs) (render_log (m_gpu s)) s'"
    using collect_words[OF t(2), of vs env] assms(6,7) by (auto simp: GPU_FIFO_SIZE_def)
  then show ?thesis
    using t(1) full_ignores[OF s'(2)] assms(6) by (intro exI[of _ s']) (simp add: GPU_FIFO_SIZE_def collecting_def)
qed

definition gpu_with :: "gpu \<Rightarrow> unit psx_gpu" where
  "gpu_with g = psx_mdec.extend (mdec_with mdec_new) (psx_gpu.fields g False)"

lemma gpu_with_gpu [simp]: "m_gpu (gpu_with g) = g"
  by (simp add: gpu_with_def psx_mdec.defs psx_gpu.defs)

definition quiet_env :: "(unit, (unit, 'm) psx_gpu_scheme) gpu_env" where
  "quiet_env = \<lparr>gpu_dma = header_env, render = (\<lambda>c v. v)\<rparr>"

theorem long_polyline_hangs_witness:
  "\<exists>s'. write_words quiet_env (0x48FF00FF # replicate 15 0x00010002) (gpu_with (gpu_new (\<lambda>_. 0))) = Inr s' \<and>
    render_log (m_gpu s') = render_log (m_gpu (gpu_with (gpu_new (\<lambda>_. 0)))) \<and>
    (\<forall>ws. write_words quiet_env ws s' = Inr s')"
proof -
  have "no_dma (gpu_with (gpu_new (\<lambda>_. 0)))" by (simp add: no_dma_def gpu_new_def gpu_stat_new_def)
  then show ?thesis
    by (intro long_polyline_hangs)
      (simp_all add: new_at_rest command_type_def is_polyline_def is_gouraud_def bit_iff_odd_drop_bit is_terminator_def)
qed

section \<open>A transfer across the end of the memory\<close>

text \<open>
  The second pixel of a word that starts in the last column of the last row, when the rectangle goes on
  at the left edge: its place is taken behind the first one, outside the memory.
\<close>

lemma wrapped_transfer_leaves_memory:
  assumes "m_cmd_status g = G_CPU_VRAM_BLIT" "curr_x (m_cpu_vram_blit g) = 1023" "curr_y (m_cpu_vram_blit g) = 511"
    and "blit_end_x (m_cpu_vram_blit g) \<noteq> 0"
  shows "gp0_word rd w g = Inl UndefinedBehaviour"
proof -
  let ?b = "m_cpu_vram_blit g"
  have i: "blit_index ?b = 0x7FFFF" using assms(2,3) by (simp add: blit_index_def VRAM_X_SIZE_def)
  have "blit_step ?b = (False, False, ?b\<lparr>curr_x := 0\<rparr>)"
    using assms(2,4) by (simp add: blit_step_def Let_def VRAM_X_SIZE_def)
  then show ?thesis
    using assms(1) i by (simp add: gp0_word_def perform_cpu_vram_blit_def put_pixel_def VRAM_HALFWORDS_def)
qed

section \<open>Texture pages\<close>

text \<open>
  A page command that repeats the last one is ignored even when a textured polygon has changed the page
  since: the primitives that take the page of the processor use the page of the polygon.
\<close>

lemma repeated_page_ignored:
  "texpage rd cmd (try_update_texpage p (texpage rd cmd g)) = try_update_texpage p (texpage rd cmd g)"
proof -
  have raw: "raw_texpage (m_raw_conf (texpage rd cmd g)) = cmd AND mask 14"
    by (simp add: texpage_def Let_def call_renderer_def upd_gstat_def upd_raw_def)
  then show ?thesis
    unfolding texpage_def[of rd cmd "try_update_texpage p (texpage rd cmd g)"]
    by (simp add: Let_def try_update_texpage_def upd_gstat_def)
qed

section \<open>Frames\<close>

text \<open>The counters leave the graphics unit alone.\<close>

lemma gpu_elsewhere [simp]:
  "m_gpu (snd (schedule_absolute t cb u s)) = m_gpu s" "m_gpu (snd (schedule t cb u s)) = m_gpu s"
  "m_gpu (snd (deschedule i s)) = m_gpu s" "m_gpu (raise_interrupt n s) = m_gpu s" "m_gpu (set_counter k c s) = m_gpu s"
  for s :: "('h, 'm) psx_gpu_scheme"
  by (simp_all add: schedule_def schedule_absolute_def deschedule_def raise_interrupt_def set_counter_def Let_def)

lemma counters_ok_gpu [simp]:
  "counters_ok (upd_gpu f s) = counters_ok s" "counters_ok (s\<lparr>vblank_flag := b\<rparr>) = counters_ok s"
  "counters_ok (s\<lparr>m_gpu := g\<rparr>) = counters_ok s"
  "counters_ok (snd (schedule_absolute t cb u s)) = counters_ok s"
  for s :: "('h, 'm) psx_gpu_scheme"
  by (simp_all add: counters_ok_def counter_at_def upd_gpu_def schedule_absolute_def Let_def)

lemma sync_counter_gpu: "sync_counter k s = Inr s' \<Longrightarrow> m_gpu s' = m_gpu s"
  for s :: "('h, 'm) psx_gpu_scheme"
  by (auto simp: sync_counter_def Let_def bindE_Inr_iff)

lemma update_events_gpu: "update_events k s = Inr s' \<Longrightarrow> m_gpu s' = m_gpu s"
  for s :: "('h, 'm) psx_gpu_scheme"
  unfolding update_events_def reschedule_def Let_def bindE_Inr_iff
  by (auto simp: split_beta schedule_counter_split sync_counter_gpu split: if_splits)

lemma on_blank_gpu:
  fixes s :: "('h, 'm) psx_gpu_scheme"
  assumes "on_blank own flag act k s = Inr s'"
  shows "m_gpu s' = m_gpu s"
proof -
  obtain t where t: "sync_counter k (set_counter k (flag (counter_at k s)) s) = Inr t"
    "s' = t \<or> update_events k (set_counter k (act (counter_at k t)) t) = Inr s'"
    using assms unfolding on_blank_def Let_def bindE_Inr_iff by metis
  then show ?thesis using sync_counter_gpu[OF t(1)] update_events_gpu[of k "set_counter k (act (counter_at k t)) t" s'] by auto
qed

lemmas blank_gpu = on_blank_gpu[of 0 "m_hblank_update (\<lambda>_. False)" blank_end, folded counter_hblank_end_def]
  on_blank_gpu[of 1 "m_vblank_update (\<lambda>_. True)" blank_start, folded counter_vblank_def]
  on_blank_gpu[of 1 "m_vblank_update (\<lambda>_. False)" blank_end, folded counter_vblank_end_def]

text \<open>The next line, and what a line that is not the last one keeps.\<close>

definition last_line :: "gpu \<Rightarrow> bool" where
  "last_line g \<longleftrightarrow> m_scanline g + 1 \<ge> scanlines_frame g"

definition line_done :: "gpu \<Rightarrow> gpu \<Rightarrow> bool" where
  "line_done g g' \<longleftrightarrow> m_pal g' = m_pal g \<and>
     (if last_line g
      then m_scanline g' = 0 \<and> render_log g' = render_log g @ [Renderer_vblank] \<and> m_curr_vblank_count g' = m_curr_vblank_count g + 1
      else m_scanline g' = m_scanline g + 1 \<and> render_log g' = render_log g \<and> m_curr_vblank_count g' = m_curr_vblank_count g)"

lemma new_scanline_done:
  assumes "counters_ok s"
  shows "\<exists>s'. new_scanline rd (upd_gpu (\<lambda>g. g\<lparr>m_scanline := m_scanline g + 1\<rparr>) s) = Inr s' \<and> counters_ok s' \<and>
    line_done (m_gpu s) (m_gpu s')"
proof (cases "last_line (m_gpu s)")
  case True
  let ?s = "upd_gpu (\<lambda>g. g\<lparr>m_curr_vblank_count := m_curr_vblank_count g + 1, m_scanline := 0\<rparr>)
    (upd_gpu (\<lambda>g. g\<lparr>m_scanline := m_scanline g + 1\<rparr>) s)"
  have "counters_ok ?s" using assms by simp
  then obtain t where t: "counter_vblank 1 ?s = Inr t" "counters_ok t" using blanking_ok(3)[of ?s 1] by auto
  have "m_gpu t = m_gpu ?s" using blank_gpu(2)[OF t(1)] .
  then show ?thesis
    using True t by (simp add: new_scanline_def Let_def last_line_def line_done_def upd_gpu_def scanlines_frame_def
        call_renderer_def upd_gstat_def)
next
  case False
  let ?s = "upd_gpu (\<lambda>g. g\<lparr>m_scanline := m_scanline g + 1\<rparr>) s"
  have "counters_ok ?s" using assms by simp
  then obtain t where t: "counter_vblank_end 1 ?s = Inr t" "counters_ok t" using blanking_ok(4)[of ?s 1] by auto
  have "m_gpu t = m_gpu ?s" using blank_gpu(3)[OF t(1)] .
  then show ?thesis
    using False t assms by (simp add: new_scanline_def Let_def last_line_def line_done_def scanlines_frame_def
        upd_gpu_def upd_gstat_def)
qed

lemma hblank_end_done:
  assumes "counters_ok s"
  shows "\<exists>s'. hblank_end rd s = Inr s' \<and> counters_ok s' \<and> line_done (m_gpu s) (m_gpu s')"
proof -
  obtain t where t: "counter_hblank_end 0 s = Inr t" "counters_ok t" using blanking_ok(2)[OF assms, of 0] by auto
  have g: "m_gpu t = m_gpu s" using blank_gpu(1)[OF t(1)] .
  obtain u where u: "new_scanline rd (upd_gpu (\<lambda>g. g\<lparr>m_scanline := m_scanline g + 1\<rparr>) t) = Inr u" "counters_ok u"
    "line_done (m_gpu s) (m_gpu u)"
    using new_scanline_done[OF t(2), of rd] g by auto
  have "line_done (m_gpu s) (m_gpu (schedule_video Hblank_callback ACTIVE_CLOCKS u))"
    using u(3) by (simp add: schedule_video_def Let_def upd_gpu_def line_done_def)
  then show ?thesis using t(1) u by (simp add: hblank_end_def schedule_video_def Let_def)
qed

fun scan_lines :: "renderer \<Rightarrow> nat \<Rightarrow> ('h, 'm) psx_gpu_scheme \<Rightarrow> ('h, 'm) psx_gpu_scheme result" where
  "scan_lines rd 0 s = Inr s"
| "scan_lines rd (Suc n) s = bindE (hblank_end rd s) (scan_lines rd n)"

lemma scan_lines_done:
  assumes "counters_ok s" "unat (m_scanline (m_gpu s)) + Suc n = unat (scanlines_frame (m_gpu s))"
  shows "\<exists>s'. scan_lines rd (Suc n) s = Inr s' \<and> counters_ok s' \<and> m_scanline (m_gpu s') = 0 \<and> m_pal (m_gpu s') = m_pal (m_gpu s) \<and>
    render_log (m_gpu s') = render_log (m_gpu s) @ [Renderer_vblank] \<and>
    m_curr_vblank_count (m_gpu s') = m_curr_vblank_count (m_gpu s) + 1"
  using assms
proof (induction n arbitrary: s)
  case 0
  have u: "unat (m_scanline (m_gpu s) + 1) = unat (m_scanline (m_gpu s)) + 1"
    using 0(2) by (simp add: unat_word_ariths scanlines_frame_def SCANLINES_FRAME_NTSC_def SCANLINES_FRAME_PAL_def split: if_splits)
  have "last_line (m_gpu s)" unfolding last_line_def word_le_nat_alt u using 0(2) by simp
  then show ?case using hblank_end_done[OF 0(1), of rd] by (auto simp: line_done_def)
next
  case (Suc n)
  have u: "unat (m_scanline (m_gpu s) + 1) = unat (m_scanline (m_gpu s)) + 1"
    using Suc.prems(2) by (simp add: unat_word_ariths scanlines_frame_def SCANLINES_FRAME_NTSC_def SCANLINES_FRAME_PAL_def split: if_splits)
  have "\<not> last_line (m_gpu s)" unfolding last_line_def word_le_nat_alt u using Suc.prems(2) by simp
  then obtain t where t: "hblank_end rd s = Inr t" "counters_ok t" "m_scanline (m_gpu t) = m_scanline (m_gpu s) + 1"
    "m_pal (m_gpu t) = m_pal (m_gpu s)" "render_log (m_gpu t) = render_log (m_gpu s)"
    "m_curr_vblank_count (m_gpu t) = m_curr_vblank_count (m_gpu s)"
    using hblank_end_done[OF Suc.prems(1), of rd] by (auto simp: line_done_def)
  have "scanlines_frame (m_gpu t) = scanlines_frame (m_gpu s)" using t(4) by (simp add: scanlines_frame_def)
  then have "unat (m_scanline (m_gpu t)) + Suc n = unat (scanlines_frame (m_gpu t))"
    using Suc.prems(2) t(3) u by simp
  from Suc.IH[OF t(2) this] show ?case using t(1,4-6) by simp
qed

text \<open>
  C37. Every frame has one vertical blanking: from line 0 with sound counters, the lines of a frame are
  scanned without a fault, the renderer is told of the blanking exactly once, the frame count goes up by
  one and the line is 0 again.
\<close>

theorem one_blanking_per_frame:
  assumes "counters_ok s" "m_scanline (m_gpu s) = 0"
  shows "\<exists>s'. scan_lines rd (unat (scanlines_frame (m_gpu s))) s = Inr s' \<and> counters_ok s' \<and> m_scanline (m_gpu s') = 0 \<and>
    render_log (m_gpu s') = render_log (m_gpu s) @ [Renderer_vblank] \<and>
    m_curr_vblank_count (m_gpu s') = m_curr_vblank_count (m_gpu s) + 1"
proof -
  obtain n where n: "unat (scanlines_frame (m_gpu s)) = Suc n"
    by (cases "unat (scanlines_frame (m_gpu s))")
      (simp_all add: scanlines_frame_def SCANLINES_FRAME_NTSC_def SCANLINES_FRAME_PAL_def split: if_splits)
  show ?thesis using scan_lines_done[OF assms(1), of n rd] assms(2) n by auto
qed

theorem one_blanking_per_frame_witness:
  "\<exists>s'. scan_lines (\<lambda>c v. v) (unat (scanlines_frame (m_gpu (gpu_with (gpu_new (\<lambda>_. 0)))))) (gpu_with (gpu_new (\<lambda>_. 0))) = Inr s' \<and>
    counters_ok s' \<and> m_scanline (m_gpu s') = 0 \<and>
    render_log (m_gpu s') = render_log (m_gpu (gpu_with (gpu_new (\<lambda>_. 0)))) @ [Renderer_vblank] \<and>
    m_curr_vblank_count (m_gpu s') = m_curr_vblank_count (m_gpu (gpu_with (gpu_new (\<lambda>_. 0)))) + 1"
proof -
  have "m_counters (gpu_with g) = map counter_init [0, 1, 2]" for g
    by (simp add: gpu_with_def mdec_with_def sio_with_def dma_with_def timers_with_def machine_with_def
        psx.defs psx_timers.defs psx_dma.defs psx_sio.defs psx_mdec.defs psx_gpu.defs)
  then have "counters_ok (gpu_with g)" for g
    using timers_with_ok[of "()"] by (simp add: counters_ok_def counter_at_def)
  then show ?thesis by (rule one_blanking_per_frame) (simp add: gpu_new_def)
qed

end
