(* ===== verification/SpuSpec.thy ===== *)
theory SpuSpec
  imports Spu GpuDraw
begin

text \<open>
  Properties of the sound unit: it stays inside its tables and buffers, a released voice falls silent,
  words given by DMA arrive in the sound memory in order, and what the volume sweep and the mixing of the drive's
  sound do.
\<close>

section \<open>Pitch counters\<close>

lemma sample_index_num: "sample_index c = unat c div 4096 mod 32"
proof -
  have "get_bits 12 5 c = take_bit 5 (drop_bit 12 c)" by (simp add: get_bits_def take_bit_eq_mask)
  then have "sample_index c = take_bit 5 (drop_bit 12 (unat c))"
    by (simp only: sample_index_def unat_drop_bit_eq unsigned_take_bit_eq)
  then show ?thesis by (simp add: drop_bit_eq_div take_bit_eq_mod)
qed

definition COUNTER_LIMIT :: nat where "COUNTER_LIMIT = 28 * 4096"

lemma sample_index_less: "unat c < COUNTER_LIMIT \<Longrightarrow> sample_index c < 28"
  by (simp add: sample_index_num COUNTER_LIMIT_def)

lemma no_high_bits: "unat w < 2 ^ n \<Longrightarrow> n \<le> i \<Longrightarrow> \<not> bit w i" for w :: "'a::len word"
proof -
  assume "unat w < 2 ^ n" "n \<le> i"
  moreover from this have "take_bit n w = w"
    by (simp add: word_unat_eq_iff unsigned_take_bit_eq take_bit_nat_eq_self)
  ultimately show ?thesis by (metis bit_take_bit_iff linorder_not_le)
qed

lemma put_index_less:
  fixes c v :: u32
  assumes "unat c < 0x20000" "v < 4"
  shows "unat (put_bits 12 5 v c) < 0x4000"
proof -
  have hi: "\<not> bit c n" if "17 \<le> n" for n using no_high_bits[of c 17 n] assms(1) that by simp
  have lo: "n < 14" if "bit v (n - 12)" "12 \<le> n" for n
  proof (rule ccontr)
    assume "\<not> n < 14"
    then have "2 \<le> n - 12" by linarith
    then show False using no_high_bits[of v 2 "n - 12"] assms(2) that by (simp add: word_less_nat_alt)
  qed
  have "put_bits 12 5 v c = take_bit 14 (put_bits 12 5 v c)"
    by (rule bit_word_eqI) (use hi lo in \<open>auto simp: bit_put_bits bit_take_bit_iff\<close>)
  then have "unat (put_bits 12 5 v c) = unat (take_bit 14 (put_bits 12 5 v c))" by simp
  also have "\<dots> < 2 ^ 14" unfolding unsigned_take_bit_eq by (rule take_bit_nat_less_exp)
  finally show ?thesis by simp
qed

lemma advance_counter_ok:
  assumes "unat c < COUNTER_LIMIT" "step \<le> PITCH_MAX_VALUE"
  shows "unat (snd (advance_counter step c)) < COUNTER_LIMIT"
proof -
  have s: "unat (ucast step :: u32) \<le> 0x4000"
    using assms(2) unsigned_less[of step]
    by (simp add: PITCH_MAX_VALUE_def word_le_nat_alt unsigned_ucast_eq take_bit_nat_eq_self)
  then have sum: "unat (c + ucast step) = unat c + unat (ucast step :: u32)"
    using assms(1) by (simp add: COUNTER_LIMIT_def unat_word_ariths)
  then have small: "unat (c + ucast step) < 0x20000" using s assms(1) by (simp add: COUNTER_LIMIT_def)
  show ?thesis
  proof (cases "sample_index (c + ucast step) \<ge> 28")
    case True
    have "sample_index (c + ucast step) < 32" by (simp add: sample_index_num)
    then have "(of_nat (sample_index (c + ucast step) - 28) :: u32) < 4"
      by (simp add: word_less_nat_alt unsigned_of_nat take_bit_nat_eq_self)
    from put_index_less[OF small this] show ?thesis
      using True by (simp add: advance_counter_def Let_def COUNTER_LIMIT_def)
  next
    case False
    have "unat (c + ucast step) div 4096 < 32" using small by simp
    then have "unat (c + ucast step) < 28 * 4096" using False by (simp add: sample_index_num)
    then show ?thesis using False by (simp add: advance_counter_def Let_def COUNTER_LIMIT_def)
  qed
qed

lemma pitch_step_max: "pitch_step k s \<le> PITCH_MAX_VALUE"
proof -
  have "x < PITCH_MAX_VALUE - 1 \<Longrightarrow> x \<le> PITCH_MAX_VALUE" for x
    by (simp add: PITCH_MAX_VALUE_def word_le_nat_alt word_less_nat_alt)
  then show ?thesis by (auto simp: pitch_step_def Let_def not_le)
qed

section \<open>Voices\<close>

text \<open>Every array of a voice has its length, its counter points into the block, its level is a volume.\<close>

definition voice_ok :: "spu_voice \<Rightarrow> bool" where
  "voice_ok v \<longleftrightarrow> length (m_old_out_samples v) = 3 \<and> length (m_decoded_block v) = 28 \<and>
     unat (m_pitch_counter v) < COUNTER_LIMIT \<and>
     0 \<le> env_level (m_adsr_envelope v) \<and> env_level (m_adsr_envelope v) \<le> 0x7FFF"

named_theorems voice_oks \<open>operations that keep a voice well formed\<close>

lemma voice_ok_updates [simp]:
  "voice_ok (v\<lparr>m_volume_left := w\<rparr>) = voice_ok v" "voice_ok (v\<lparr>m_volume_right := w\<rparr>) = voice_ok v"
  "voice_ok (v\<lparr>m_sample_rate := w\<rparr>) = voice_ok v" "voice_ok (v\<lparr>m_adpcm_start_address := w\<rparr>) = voice_ok v"
  "voice_ok (v\<lparr>m_adsr := a\<rparr>) = voice_ok v" "voice_ok (v\<lparr>m_repeat_address := w\<rparr>) = voice_ok v"
  "voice_ok (v\<lparr>m_adsr_target := t\<rparr>) = voice_ok v" "voice_ok (v\<lparr>m_sweep_left := sw\<rparr>) = voice_ok v"
  "voice_ok (v\<lparr>m_sweep_right := sw\<rparr>) = voice_ok v" "voice_ok (v\<lparr>m_is_noise := b\<rparr>) = voice_ok v"
  "voice_ok (v\<lparr>m_enable_modulation := b\<rparr>) = voice_ok v" "voice_ok (v\<lparr>m_is_on := b\<rparr>) = voice_ok v"
  "voice_ok (v\<lparr>m_curr_adsr_phase := p\<rparr>) = voice_ok v" "voice_ok (v\<lparr>m_noise := n\<rparr>) = voice_ok v"
  "voice_ok (v\<lparr>m_old_decode_samples := os\<rparr>) = voice_ok v" "voice_ok (v\<lparr>m_curr_block := blk\<rparr>) = voice_ok v"
  "voice_ok (v\<lparr>m_has_block := b\<rparr>) = voice_ok v" "voice_ok (v\<lparr>m_voice_address := a\<rparr>) = voice_ok v"
  "voice_ok (v\<lparr>m_endx_flag := b\<rparr>) = voice_ok v" "voice_ok (v\<lparr>m_sample_left := t\<rparr>) = voice_ok v"
  "voice_ok (v\<lparr>m_sample_right := t\<rparr>) = voice_ok v"
  by (simp_all add: voice_ok_def)

lemma voice_new_ok: "voice_ok voice_new"
  by (simp add: voice_ok_def voice_new_def envelope_new_def COUNTER_LIMIT_def)

lemma level_reset [simp]: "env_level (envelope_reset a b c d e v) = env_level v"
  by (simp add: envelope_reset_def)

lemma reset_adsr_ok [voice_oks]: "voice_ok v \<Longrightarrow> voice_ok (reset_adsr_phase v)"
  by (cases "m_curr_adsr_phase v") (simp_all add: reset_adsr_phase_def Let_def voice_ok_def)

lemma start_adsr_ok [voice_oks]: "voice_ok v \<Longrightarrow> voice_ok (start_adsr_phase p v)"
  by (simp add: start_adsr_phase_def voice_oks)

lemma level_zero_ok [voice_oks]: "voice_ok v \<Longrightarrow> voice_ok (v\<lparr>m_adsr_envelope := e\<lparr>env_level := 0\<rparr>\<rparr>)"
  by (simp add: voice_ok_def)

lemma envelope_level_range:
  assumes "0 \<le> env_level e" "env_level e \<le> 0x7FFF"
  shows "0 \<le> env_level (snd (envelope_step e))" "env_level (snd (envelope_step e)) \<le> 0x7FFF"
  using assms by (auto simp: envelope_step_def Let_def clamp_def)

lemma step_adsr_ok [voice_oks]: "voice_ok v \<Longrightarrow> voice_ok (step_adsr v)"
proof -
  assume ok: "voice_ok v"
  have "voice_ok (v\<lparr>m_adsr_envelope := snd (envelope_step (m_adsr_envelope v))\<rparr>)"
    using ok envelope_level_range[of "m_adsr_envelope v"] by (simp add: voice_ok_def)
  then show ?thesis by (simp add: step_adsr_def Let_def voice_oks)
qed

lemma key_ok [voice_oks]: "voice_ok v \<Longrightarrow> voice_ok (key_on v)" "voice_ok v \<Longrightarrow> voice_ok (key_off v)"
proof -
  assume ok: "voice_ok v"
  show "voice_ok (key_off v)" unfolding key_off_def by (rule start_adsr_ok[OF ok])
  have "voice_ok (start_adsr_phase P_ATTACK (v\<lparr>m_adsr_envelope := (m_adsr_envelope v)\<lparr>env_level := 0\<rparr>,
      m_voice_address := push_bit 3 (ucast (m_adpcm_start_address v)), m_is_on := True\<rparr>))" (is "voice_ok ?w")
    using level_zero_ok[OF ok] by (intro start_adsr_ok) simp
  then show "voice_ok (key_on v)" by (simp add: key_on_def Let_def) (simp add: voice_ok_def COUNTER_LIMIT_def)
qed

lemma write_voice_ok [voice_oks]: "voice_ok v \<Longrightarrow> voice_ok (write_voice_reg r w v)"
  by (simp add: write_voice_reg_def set_vol_left_def set_vol_right_def set_pitch_def set_adsr_low_def set_adsr_high_def voice_oks)

lemma push_out_ok [voice_oks]: "voice_ok v \<Longrightarrow> voice_ok (push_out x v)"
  by (simp add: push_out_def voice_ok_def)

lemma end_of_block_ok [voice_oks]: "voice_ok v \<Longrightarrow> voice_ok (end_of_block start v)"
  by (simp add: end_of_block_def Let_def voice_oks)

lemma length_adpcm: "length (fst (adpcm_samples sh f0 f1 xs a b)) = length xs"
  by (induction xs arbitrary: a b) (simp_all add: Let_def split_beta)

lemma length_block: "length (fst (decode_adpcm_block b x y)) = 28"
  by (simp add: decode_adpcm_block_def Let_def length_adpcm block_nibbles_def)

section \<open>The unit\<close>

definition spu_ok :: "spu \<Rightarrow> bool" where
  "spu_ok p \<longleftrightarrow> length (m_voices p) = NUM_VOICES \<and> (\<forall>v \<in> set (m_voices p). voice_ok v) \<and> length (m_reverb p) = 35 \<and>
     length (m_audio_buffer p) = AUDIO_BUFFER_SIZE \<and> even (m_curr_buffer_pos p) \<and> m_curr_buffer_pos p < AUDIO_BUFFER_SIZE \<and>
     queue_ok (m_fifo p) \<and> length (arr (m_fifo p)) = SPU_FIFO_SIZE \<and>
     m_cd_sample_count p \<le> length (m_cd_samples_left p) \<and> m_cd_sample_count p \<le> length (m_cd_samples_right p) \<and>
     length (m_cd_samples_left p) \<in> {0, RESAMPLED_TOTAL} \<and> length (m_cd_samples_right p) \<in> {0, RESAMPLED_TOTAL} \<and>
     length (ringbuf_l p) = 32 \<and> length (ringbuf_r p) = 32 \<and> 1 \<le> sixstep p \<and> sixstep p \<le> 6"

lemma spu_of_updates [simp]:
  "m_spu (upd_spu f s) = f (m_spu s)" "m_spu (raise_interrupt n s) = m_spu s" "m_spu (snd (schedule t cb u s)) = m_spu s"
  "m_spu (snd (schedule_absolute t cb u s)) = m_spu s" "m_spu (set_dreq b k s) = m_spu s" "m_spu (upd_ctl g s) = m_spu s"
  for s :: "('h, 'm) psx_spu_scheme"
  by (simp_all add: upd_spu_def raise_interrupt_def schedule_def schedule_absolute_def Let_def set_dreq_def
      upd_channel_def upd_ctl_def)

lemma spu_ok_ignores [simp]:
  "spu_ok (p\<lparr>m_sound_ram := r\<rparr>) = spu_ok p" "spu_ok (p\<lparr>m_irq_happened := b\<rparr>) = spu_ok p"
  "spu_ok (p\<lparr>m_curr_ram_transfer_address := a\<rparr>) = spu_ok p" "spu_ok (p\<lparr>m_fifo_transfer_event := i\<rparr>) = spu_ok p"
  "spu_ok (p\<lparr>m_reverb_odd_cycle := b\<rparr>) = spu_ok p" "spu_ok (p\<lparr>m_reverb_buf_address := a\<rparr>) = spu_ok p"
  "spu_ok (p\<lparr>m_fir_left := xs\<rparr>) = spu_ok p" "spu_ok (p\<lparr>m_fir_right := xs\<rparr>) = spu_ok p"
  "spu_ok (p\<lparr>m_curr_voice1_capture_pos := a\<rparr>) = spu_ok p" "spu_ok (p\<lparr>m_curr_voice3_capture_pos := a\<rparr>) = spu_ok p"
  "spu_ok (p\<lparr>m_cd_sample_pos := n\<rparr>) = spu_ok p" "spu_ok (p\<lparr>m_cnt := w\<rparr>) = spu_ok p"
  "spu_ok (p\<lparr>current_spu_mode := w\<rparr>) = spu_ok p" "spu_ok (update_stat p) = spu_ok p"
  "spu_ok (write_flags a w p) = spu_ok p" "spu_ok (write_plain a w p) = spu_ok p"
  by (simp_all add: spu_ok_def update_stat_def Let_def write_flags_def write_plain_def)

lemma voice_at_ok: "spu_ok (m_spu s) \<Longrightarrow> k < NUM_VOICES \<Longrightarrow> voice_ok (voice_at k s)"
  by (simp add: spu_ok_def voice_at_def)

lemma upd_voice_ok:
  assumes "spu_ok (m_spu s)" "\<And>v. voice_ok v \<Longrightarrow> voice_ok (f v)"
  shows "spu_ok (m_spu (upd_voice k f s))"
proof (cases "k < length (m_voices (m_spu s))")
  case True
  then have "voice_ok (f (m_voices (m_spu s) ! k))" using assms by (simp add: spu_ok_def)
  then have "\<forall>v \<in> set ((m_voices (m_spu s))[k := f (m_voices (m_spu s) ! k)]). voice_ok v"
    using assms(1) set_update_subset_insert[of "m_voices (m_spu s)" k "f (m_voices (m_spu s) ! k)"]
    by (auto simp: spu_ok_def)
  then show ?thesis using assms(1) by (simp add: upd_voice_def spu_ok_def)
next
  case False
  then have "(m_voices (m_spu s))[k := x] = m_voices (m_spu s)" for x by (simp add: list_update_beyond)
  then show ?thesis using assms(1) by (simp add: upd_voice_def)
qed

lemma ram_irq [simp]:
  "spu_ok (m_spu (check_ram_irq a s)) = spu_ok (m_spu s)" "m_voices (m_spu (check_ram_irq a s)) = m_voices (m_spu s)"
  by (simp_all add: check_ram_irq_def Let_def)

lemma ram_access [simp]:
  "spu_ok (m_spu (snd (write_ram8 v a s))) = spu_ok (m_spu s)" "spu_ok (m_spu (snd (write_ram16 w a s))) = spu_ok (m_spu s)"
  "spu_ok (m_spu (snd (snd (read_ram8 a s)))) = spu_ok (m_spu s)" "spu_ok (m_spu (snd (snd (read_ram16 a s)))) = spu_ok (m_spu s)"
  "m_voices (m_spu (snd (snd (read_ram8 a s)))) = m_voices (m_spu s)"
  by (simp_all add: write_ram8_def write_ram16_def read_ram8_def read_ram16_def Let_def split_beta)

lemma put_ram16_ok [simp]: "spu_ok (m_spu (put_ram16 v s)) = spu_ok (m_spu s)"
  by (simp add: put_ram16_def split_beta)

lemma write_sound_ram_ok [simp]: "spu_ok (m_spu (write_sound_ram n buf s)) = spu_ok (m_spu s)"
proof -
  have "spu_ok (m_spu (foldl (\<lambda>s v. put_ram16 v s) s vs)) = spu_ok (m_spu s)" for vs
    by (induction vs arbitrary: s) simp_all
  then show ?thesis by (simp add: write_sound_ram_def)
qed

lemma ram_transfer_ok:
  assumes "spu_ok (m_spu s)"
  shows "spu_ok (m_spu (fifo_transfer_complete s))"
proof -
  have "spu_ok p \<Longrightarrow> spu_ok (p\<lparr>m_fifo := queue_clear (m_fifo p)\<rparr>)" for p
    using cq.reset_ok[of "m_fifo p"] by (simp add: spu_ok_def)
  then show ?thesis using assms by (simp add: fifo_transfer_complete_def Let_def)
qed

lemma read_bytes_ok [simp]:
  "length (fst (read_bytes n a s)) = n" "spu_ok (m_spu (snd (snd (read_bytes n a s)))) = spu_ok (m_spu s)"
  by (induction n arbitrary: a s) (simp_all add: Let_def split_beta)

lemma read_next_block_ok: "spu_ok (m_spu s) \<Longrightarrow> spu_ok (m_spu (read_next_block k s))"
  unfolding read_next_block_def Let_def split_beta
  by (intro upd_voice_ok end_of_block_ok) (simp_all add: voice_ok_def length_block)

lemma voice_sample_ok:
  fixes s :: "('h, 'm) psx_spu_scheme"
  assumes "spu_ok (m_spu s)" "k < NUM_VOICES"
  shows "spu_ok (m_spu (snd (voice_sample k s)))"
proof (cases "m_is_noise (voice_at k s)")
  case True
  then show ?thesis using assms by (simp add: voice_sample_def Let_def upd_voice_ok)
next
  case False
  have c: "unat (m_pitch_counter (voice_at k s)) < COUNTER_LIMIT" using voice_at_ok[OF assms] by (simp add: voice_ok_def)
  have "unat (snd (advance_counter (pitch_step k t) (m_pitch_counter (voice_at k s)))) < COUNTER_LIMIT" for t :: "('h, 'm) psx_spu_scheme"
    by (rule advance_counter_ok[OF c pitch_step_max])
  then have "voice_ok v \<Longrightarrow> voice_ok (v\<lparr>m_pitch_counter := snd (advance_counter (pitch_step k t) (m_pitch_counter (voice_at k s)))\<rparr>)" for v and t :: "('h, 'm) psx_spu_scheme"
    by (simp add: voice_ok_def)
  then show ?thesis
    using False assms by (auto simp: voice_sample_def Let_def split_beta intro!: upd_voice_ok voice_oks)
qed

lemma voice_step_ok:
  assumes "spu_ok (m_spu s)" "k < NUM_VOICES"
  shows "spu_ok (m_spu (snd (voice_step k s)))"
proof (cases "m_curr_adsr_phase (voice_at k s) = P_NONE")
  case True
  then show ?thesis using assms by (auto simp: voice_step_def intro!: upd_voice_ok voice_oks)
next
  case False
  let ?s = "if \<not> m_has_block (voice_at k s) \<and> \<not> m_is_noise (voice_at k s) then read_next_block k s else s"
  let ?t = "upd_voice k (\<lambda>v. let v = step_adsr v
     in v\<lparr>m_sweep_left := sweep_step (m_sweep_left v), m_sweep_right := sweep_step (m_sweep_right v)\<rparr>) ?s"
  have "spu_ok (m_spu ?s)" using assms(1) by (simp add: read_next_block_ok)
  then have "spu_ok (m_spu ?t)" by (rule upd_voice_ok) (simp add: Let_def voice_oks)
  from voice_sample_ok[OF this assms(2)] show ?thesis
    unfolding voice_step_def Let_def[of ?s] Let_def[of ?t] if_not_P[OF False]
    by (auto simp: Let_def split_beta intro!: upd_voice_ok)
qed

lemma mix_voices_ok:
  "spu_ok (m_spu s) \<Longrightarrow> set ks \<subseteq> {..<NUM_VOICES} \<Longrightarrow> spu_ok (m_spu (snd (mix_voices ks acc s)))"
proof (induction ks arbitrary: acc s)
  case (Cons k ks)
  have "spu_ok (m_spu (snd (voice_step k s)))" using voice_step_ok[of s k] Cons.prems by auto
  from Cons.IH[OF this] show ?case using Cons.prems by (auto simp: Let_def split_beta)
qed simp

lemma reverb_ok [simp]:
  "spu_ok (m_spu (snd (reverb_read a s))) = spu_ok (m_spu s)" "spu_ok (m_spu (reverb_write v a s)) = spu_ok (m_spu s)"
  "spu_ok (m_spu (reflect x i j s)) = spu_ok (m_spu s)" "spu_ok (m_spu (snd (all_pass i j k x s))) = spu_ok (m_spu s)"
  by (simp_all add: reverb_read_def reverb_write_def reflect_def all_pass_def Let_def split_beta)

lemma comb_ok [simp]:
  fixes s :: "('h, 'm) psx_spu_scheme"
  shows "spu_ok (m_spu (snd (comb as s))) = spu_ok (m_spu s)"
proof -
  have "spu_ok (m_spu (snd (foldl (\<lambda>(x, s) (vol, i). let (a, s') = reverb_read (rev_add i (m_spu s)) s in
      (x + mult (rev_vol vol (m_spu s)) a, s')) xs ps))) = spu_ok (m_spu (snd xs))"
    for xs :: "int \<times> ('h, 'm) psx_spu_scheme" and ps
    by (induction ps arbitrary: xs) (simp_all add: Let_def split_beta)
  then show ?thesis by (simp add: comb_def)
qed

lemma do_reverb_ok [simp]: "spu_ok (m_spu (snd (do_reverb l r s))) = spu_ok (m_spu s)"
  by (simp add: do_reverb_def Let_def split_beta)

lemma add_cd_audio_ok [simp]: "spu_ok p \<Longrightarrow> spu_ok (snd (add_cd_audio acc p))"
proof -
  assume ok: "spu_ok p"
  then have "spu_ok (p\<lparr>m_cd_sample_pos := 0, m_cd_sample_count := 0\<rparr>)" by (simp add: spu_ok_def)
  then show ?thesis using ok by (simp add: add_cd_audio_def Let_def split_beta)
qed

lemma push_samples_ok: "spu_ok p \<Longrightarrow> spu_ok (push_samples l r p)"
  by (auto simp: push_samples_def Let_def spu_ok_def AUDIO_BUFFER_SIZE_def)

lemma for_all_voices_ok:
  assumes "spu_ok p" "\<And>k v. voice_ok v \<Longrightarrow> voice_ok (f k v)"
  shows "spu_ok (for_all_voices f p)"
proof -
  have "voice_ok (f i v)" if "(i, v) \<in> set (enumerate 0 (m_voices p))" for i v
  proof -
    have "v \<in> set (m_voices p)" using that by (auto simp: in_set_enumerate_eq)
    then show ?thesis using assms by (simp add: spu_ok_def)
  qed
  then show ?thesis using assms(1) by (auto simp: for_all_voices_def spu_ok_def)
qed

lemma sample_cycle_ok:
  assumes "spu_ok (m_spu s)"
  shows "spu_ok (m_spu (sample_cycle s))"
proof (cases "spu_enabled (m_spu s)")
  case True
  define t where "t = upd_spu (\<lambda>p. for_all_voices (\<lambda>k v. v\<lparr>m_enable_modulation := is_channel_modulated k p\<rparr>) p)
    (upd_spu (\<lambda>p. for_all_voices (\<lambda>k v. v\<lparr>m_is_noise := bit (m_noise_en p) k\<rparr>) p) s)"
  have "spu_ok (m_spu t)" using assms by (simp add: t_def for_all_voices_ok)
  then have "spu_ok (m_spu (snd (mix_voices [0..<NUM_VOICES] acc t)))" for acc by (rule mix_voices_ok) auto
  then have "spu_ok (snd (add_cd_audio acc' (m_spu (snd (mix_voices [0..<NUM_VOICES] acc t)))))" for acc acc' by simp
  then show ?thesis
    using True by (simp add: sample_cycle_def t_def[symmetric] Let_def split_beta write_capture_def push_samples_ok)
qed (simp add: sample_cycle_def assms)

lemma resample_lengths:
  assumes "length ring = 32" "1 \<le> six" "six \<le> 6"
  shows "length (fst (snd (resample k six ring xs))) = 32 \<and> 1 \<le> fst (resample k six ring xs) \<and>
    fst (resample k six ring xs) \<le> 6 \<and> length (snd (snd (resample k six ring xs))) = 7 * ((length xs + 6 - six) div 6)"
  using assms
proof (induction k six ring xs rule: resample.induct)
  case (2 k six ring x xs)
  show ?case
  proof (cases "six = 1")
    case True
    have "length (snd (snd (resample (Suc k) 6 (ring[k mod 32 := x]) xs))) = 7 * (length xs div 6)"
      "length (fst (snd (resample (Suc k) 6 (ring[k mod 32 := x]) xs))) = 32 \<and>
       1 \<le> fst (resample (Suc k) 6 (ring[k mod 32 := x]) xs) \<and> fst (resample (Suc k) 6 (ring[k mod 32 := x]) xs) \<le> 6"
      using 2(1)[of "ring[k mod 32 := x]"] 2(3,5) True by auto
    moreover have "(6 + length xs) div 6 = 1 + length xs div 6" by simp
    ultimately show ?thesis using True by (simp add: Let_def split_beta)
  next
    case False
    have "length xs + 6 - (six - 1) = length (x # xs) + 6 - six" using 2(4,5) False by simp
    then show ?thesis using 2(2)[of "ring[k mod 32 := x]"] 2(3-5) False by (auto simp: Let_def)
  qed
qed simp

lemma xa_count:
  assumes "decode_xa_sector c sector = Inr (n, ls, rs)"
  shows "n \<le> TOTAL_SAMPLES_PER_SECTOR"
  using assms
  by (auto simp: decode_xa_sector_def Let_def split_beta TOTAL_SAMPLES_PER_SECTOR_def XA_TOTAL_BLOCKS_def XA_BLOCK_SIZE_def
      split: if_splits)

lemma sized_length [simp]: "length xs \<in> {0, RESAMPLED_TOTAL} \<Longrightarrow> length (sized xs) = RESAMPLED_TOTAL"
  by (auto simp: sized_def)

lemma overwrite_length [simp]: "length ys \<le> length xs \<Longrightarrow> length (overwrite ys xs) = length xs"
  by (simp add: overwrite_def)

lemma resampled_le: "n \<le> TOTAL_SAMPLES_PER_SECTOR \<Longrightarrow> resampled_count n \<le> RESAMPLED_TOTAL"
  by (simp add: resampled_count_def RESAMPLED_TOTAL_def div_le_mono)

lemma store_resampled_ok:
  assumes "spu_ok p" "n \<le> TOTAL_SAMPLES_PER_SECTOR"
  shows "spu_ok (store_resampled n ls rs ll rr lr rl p)"
proof -
  let ?l = "resample 0 (sixstep p) (ringbuf_l p) (take n ls)" and ?r = "resample 0 (sixstep p) (ringbuf_r p) (take n rs)"
  have out: "7 * ((length xs + 6 - sixstep p) div 6) \<le> RESAMPLED_TOTAL" if "length xs \<le> n" for xs :: "int list"
  proof -
    have "1 \<le> sixstep p" "length xs \<le> 8064" using that assms by (simp_all add: spu_ok_def TOTAL_SAMPLES_PER_SECTOR_def)
    then have "length xs + 6 - sixstep p \<le> 8069" by linarith
    then have "(length xs + 6 - sixstep p) div 6 \<le> 8069 div 6" by (rule div_le_mono)
    then show ?thesis by (simp add: RESAMPLED_TOTAL_def resampled_count_def TOTAL_SAMPLES_PER_SECTOR_def)
  qed
  have l: "length (fst (snd ?l)) = 32" "1 \<le> fst ?l" "fst ?l \<le> 6" "length (snd (snd ?l)) \<le> RESAMPLED_TOTAL"
    and r: "length (fst (snd ?r)) = 32" "length (snd (snd ?r)) \<le> RESAMPLED_TOTAL"
    using assms(1) resample_lengths[of "ringbuf_l p" "sixstep p" 0 "take n ls"] out[of "take n ls"]
      resample_lengths[of "ringbuf_r p" "sixstep p" 0 "take n rs"] out[of "take n rs"]
    by (simp_all add: spu_ok_def)
  have s: "length (sized (m_cd_samples_left p)) = RESAMPLED_TOTAL" "length (sized (m_cd_samples_right p)) = RESAMPLED_TOTAL"
    using assms(1) by (simp_all add: spu_ok_def)
  note c = resampled_le[OF assms(2)]
  show ?thesis
    using assms(1) l r s c unfolding store_resampled_def Let_def split_beta
    by (simp add: spu_ok_def min.coboundedI1)
qed

lemma decode_store_ok:
  assumes "spu_ok p"
  shows "ensures {UndefinedBehaviour} spu_ok (decode_store_xa_adpcm c sector mute ll rr lr rl p)"
proof (cases "decode_xa_sector c sector")
  case (Inl e)
  then have "e = UndefinedBehaviour" by (auto simp: decode_xa_sector_def Let_def split_beta split: if_splits)
  then show ?thesis using Inl assms by (simp add: decode_store_xa_adpcm_def)
next
  case (Inr r)
  obtain n ls rs where r: "r = (n, ls, rs)" by (cases r)
  note n = xa_count[OF Inr[unfolded r]]
  have s: "length (sized (m_cd_samples_left p)) = RESAMPLED_TOTAL" "length (sized (m_cd_samples_right p)) = RESAMPLED_TOTAL"
    using assms by (simp_all add: spu_ok_def)
  have "spu_ok (p\<lparr>m_cd_sample_pos := 0\<rparr>)" using assms by simp
  moreover from store_resampled_ok[OF this n]
  have "spu_ok (store_resampled n ls rs ll rr lr rl (p\<lparr>m_cd_sample_pos := 0\<rparr>))" .
  moreover have "spu_ok (p\<lparr>m_cd_sample_pos := 0, m_cd_sample_count := resampled_count n,
      m_cd_samples_left := overwrite (replicate (resampled_count n) 0) (sized (m_cd_samples_left p)),
      m_cd_samples_right := overwrite (replicate (resampled_count n) 0) (sized (m_cd_samples_right p))\<rparr>)"
    using assms s resampled_le[OF n] by (simp add: spu_ok_def)
  ultimately show ?thesis using assms Inr r by (auto simp: decode_store_xa_adpcm_def Let_def)
qed

section \<open>Operations\<close>

text \<open>What the bus, the DMA controller, the scheduler and the drive do to the unit.\<close>

datatype spu_op =
    Spu_read8 u32 | Spu_read16 u32 | Spu_read32 u32
  | Spu_write8 u32 u8 | Spu_write16 u32 u16 | Spu_write32 u32 u32
  | Spu_dma_word u32 | Spu_fifo_event | Spu_sample_event
  | Spu_sector xa_coding "u8 list" bool u8 u8 u8 u8

definition exec_spu ::
  "('h, ('h, 'm) psx_spu_scheme) dma_env \<Rightarrow> spu_op \<Rightarrow> ('h, 'm) psx_spu_scheme \<Rightarrow> ('h, 'm) psx_spu_scheme result" where
  "exec_spu env x s =
     (case x of
        Spu_read8 a \<Rightarrow> Inr (snd (spu_read8 a s))
      | Spu_read16 a \<Rightarrow> Inr (snd (spu_read16 a s))
      | Spu_read32 a \<Rightarrow> Inr (snd (spu_read32 a s))
      | Spu_write8 a v \<Rightarrow> spu_write8 env a v s
      | Spu_write16 a v \<Rightarrow> spu_write16 env a v s
      | Spu_write32 a v \<Rightarrow> spu_write32 env a v s
      | Spu_dma_word v \<Rightarrow> spu_dma_in v s
      | Spu_fifo_event \<Rightarrow> Inr (fifo_transfer_complete s)
      | Spu_sample_event \<Rightarrow> Inr (sample_cycle s)
      | Spu_sector c sector mute ll rr lr rl \<Rightarrow>
          bindE (decode_store_xa_adpcm c sector mute ll rr lr rl (m_spu s)) (\<lambda>p. Inr (s\<lparr>m_spu := p\<rparr>)))"

fun exec_spus ::
  "('h, ('h, 'm) psx_spu_scheme) dma_env \<Rightarrow> spu_op list \<Rightarrow> ('h, 'm) psx_spu_scheme \<Rightarrow> ('h, 'm) psx_spu_scheme result" where
  "exec_spus env [] s = Inr s"
| "exec_spus env (x # xs) s = bindE (exec_spu env x s) (exec_spus env xs)"

lemma spu_read16_ok [simp]: "spu_ok (m_spu (snd (spu_read16 a s))) = spu_ok (m_spu s)"
  by (simp add: spu_read16_def Let_def)

lemma spu_reads_ok [simp]:
  "spu_ok (m_spu (snd (spu_read8 a s))) = spu_ok (m_spu s)" "spu_ok (m_spu (snd (spu_read32 a s))) = spu_ok (m_spu s)"
  by (simp_all add: spu_read8_def spu_read32_def split_beta)

lemma for_voices_ok:
  assumes "spu_ok (m_spu s)" "\<And>v. voice_ok v \<Longrightarrow> voice_ok (f v)"
  shows "spu_ok (m_spu (for_voices k n w f s))"
proof -
  have "spu_ok (m_spu (foldl (\<lambda>s i. if bit w i then upd_voice (k + i) f s else s) s xs))" for xs
    using assms(1) by (induction xs arbitrary: s) (simp_all add: upd_voice_ok assms(2))
  then show ?thesis by (simp add: for_voices_def)
qed

lemma write_reverb_ok: "spu_ok p \<Longrightarrow> spu_ok (write_reverb_reg i v p)"
  by (simp add: write_reverb_reg_def Let_def spu_ok_def)

lemma spu_push_ok:
  assumes "spu_ok (m_spu s)"
  shows "ensures {UndefinedBehaviour} (\<lambda>s'. spu_ok (m_spu s')) (spu_push v s)"
proof (cases "length (queue_contents (m_fifo (m_spu s))) < length (arr (m_fifo (m_spu s)))")
  case True
  have ok: "queue_ok (m_fifo (m_spu s))" using assms by (simp add: spu_ok_def)
  obtain q where q: "queue_push v (m_fifo (m_spu s)) = Inr q" "queue_ok q"
    "length (arr q) = length (arr (m_fifo (m_spu s)))"
    using cq.enq_room[OF ok True, of v] by blast
  have "spu_ok ((m_spu s)\<lparr>m_fifo := q\<rparr>)" using assms q by (simp add: spu_ok_def)
  then show ?thesis using q(1) by (simp add: spu_push_def)
next
  case False
  have "queue_ok (m_fifo (m_spu s))" using assms by (simp add: spu_ok_def)
  then have "queue_push v (m_fifo (m_spu s)) = Inl UndefinedBehaviour"
    using False length_queue_contents[of "m_fifo (m_spu s)"] by (simp add: queue_push_def)
  then show ?thesis by (simp add: spu_push_def)
qed

locale sound_requests = request_line env F "\<lambda>s s'. spu_ok (m_spu s) \<longrightarrow> spu_ok (m_spu s')"
  for env :: "('h, ('h, 'm) psx_spu_scheme) dma_env" and F +
  assumes outside: "UndefinedBehaviour \<in> F"
begin

lemma write_cnt_ok:
  assumes "spu_ok (m_spu s)"
  shows "ensures F (\<lambda>s'. spu_ok (m_spu s')) (write_cnt env v s)"
proof -
  let ?s = "upd_spu (\<lambda>p. let p = p\<lparr>m_cnt := v, current_spu_mode := v AND 0x1F\<rparr>
              in if \<not> irq9_enable p then p\<lparr>m_irq_happened := False\<rparr> else p) s"
  have ok: "spu_ok (m_spu ?s)" using assms by (simp add: Let_def)
  have "ensures F (\<lambda>s'. spu_ok (m_spu s')) (dreq_rising_edge env 4 (set_dreq True 4 ?s))"
    by (rule ensures_mono[OF request_with_line order_refl]) (use ok in blast)
  then show ?thesis using ok unfolding write_cnt_def Let_def[of ?s] by (auto simp: Let_def split_beta)
qed

lemma write16_ok:
  assumes "spu_ok (m_spu s)"
  shows "ensures F (\<lambda>s'. spu_ok (m_spu s')) (spu_write16 env a v s)"
  unfolding spu_write16_def
  by (intro ensures_cond write_cnt_ok[OF assms])
    (use assms stop ensures_mono[OF spu_push_ok[OF assms]] outside in
      \<open>auto simp: write_reverb_ok split: option.split intro!: for_voices_ok upd_voice_ok voice_oks ensures_cond\<close>)

lemma op_ok:
  assumes "spu_ok (m_spu s)"
  shows "ensures F (\<lambda>s'. spu_ok (m_spu s')) (exec_spu env x s)"
proof (cases x)
  case (Spu_write8 a v)
  then show ?thesis using assms write16_ok by (auto simp: exec_spu_def spu_write8_def)
next
  case (Spu_write32 a v)
  then show ?thesis unfolding Spu_write32 exec_spu_def spu_op.case spu_write32_def
    by (intro ensures_bind[OF write16_ok[OF assms]] write16_ok)
next
  case (Spu_dma_word v)
  have push: "ensures F (\<lambda>s'. spu_ok (m_spu s')) (spu_push w t)" if "spu_ok (m_spu t)" for w t
    by (rule ensures_mono[OF spu_push_ok[OF that]]) (use outside in auto)
  show ?thesis unfolding Spu_dma_word exec_spu_def spu_op.case spu_dma_in_def
    by (rule ensures_bind[OF ensures_cond[OF _ ensures_bind[OF push[OF assms] push]]])
      (use assms ram_transfer_ok in auto)
next
  case (Spu_sector c sector mute ll rr lr rl)
  have "ensures F spu_ok (decode_store_xa_adpcm c sector mute ll rr lr rl (m_spu s))"
    by (rule ensures_mono[OF decode_store_ok[OF assms]]) (use outside in auto)
  then show ?thesis unfolding Spu_sector exec_spu_def spu_op.case by (rule ensures_bind) simp
qed (use assms write16_ok in \<open>simp_all add: exec_spu_def ram_transfer_ok sample_cycle_ok\<close>)

end


definition sound_with :: "spu \<Rightarrow> unit psx_spu" where
  "sound_with p = psx_gpu.extend (gpu_with (gpu_new (\<lambda>_. 0))) (psx_spu.fields p)"

lemma sound_with_spu [simp]: "m_spu (sound_with p) = p"
  by (simp add: sound_with_def psx_gpu.defs psx_spu.defs)

lemma spu_new_ok: "spu_ok spu_new"
  by (simp add: spu_ok_def spu_new_def voice_new_ok NUM_VOICES_def AUDIO_BUFFER_SIZE_def SPU_FIFO_SIZE_def
      queue_ok_def queue_new_def)


section \<open>The end of a note\<close>

text \<open>A voice in its release phase, and the rounds of the envelope per change of the level.\<close>

definition releasing :: "spu_voice \<Rightarrow> bool" where
  "releasing v \<longleftrightarrow> m_curr_adsr_phase v = P_RELEASE \<and> m_adsr_target v = 0 \<and>
     (let e = m_adsr_envelope v in \<not> env_increase e \<and> env_step e = 0 \<and> 0 \<le> env_level e \<and> 0 \<le> adsr_cycles e)"

definition period :: "spu_voice \<Rightarrow> int" where "period v = 2 ^ (env_shift (m_adsr_envelope v) - 11)"
definition voice_level :: "spu_voice \<Rightarrow> int" where "voice_level v = env_level (m_adsr_envelope v)"
definition rounds_left :: "spu_voice \<Rightarrow> nat" where
  "rounds_left v = nat (voice_level v * period v + max 1 (adsr_cycles (m_adsr_envelope v)))"

lemma falling_step:
  assumes "0 < l" "(st :: int) < 0"
  shows "clamp (l + st) 0 0x7FFF < l" "0 \<le> clamp (l + st) 0 0x7FFF"
    "clamp (l + drop_bit 15 (st * l)) 0 0x7FFF < l" "0 \<le> clamp (l + drop_bit 15 (st * l)) 0 0x7FFF"
proof -
  have "st * l < 0" using assms by (simp add: mult_less_0_iff)
  then have "drop_bit 15 (st * l) < 0" by (simp add: drop_bit_eq_div div_less_iff_less_mult neg_imp_zdiv_neg_iff)
  then have "l + drop_bit 15 (st * l) < l" by simp
  then show "clamp (l + drop_bit 15 (st * l)) 0 0x7FFF < l"
    using assms(1) by (auto simp: clamp_def simp del: drop_bit_negative_int_iff add_less_same_cancel1)
qed (use assms in \<open>auto simp: clamp_def\<close>)

lemma release_round:
  assumes "releasing v"
  shows "m_curr_adsr_phase (step_adsr v) = P_NONE \<or>
    releasing (step_adsr v) \<and> rounds_left (step_adsr v) < rounds_left v"
proof (cases "voice_level v = 0")
  case True
  then have "env_level (snd (envelope_step (m_adsr_envelope v))) \<le> 0"
    using assms by (auto simp: envelope_step_def releasing_def voice_level_def Let_def get_step_def clamp_def)
  moreover have "\<not> env_increase (snd (envelope_step (m_adsr_envelope v)))"
    using assms by (auto simp: envelope_step_def releasing_def Let_def)
  ultimately show ?thesis
    using assms by (simp add: step_adsr_def releasing_def Let_def start_adsr_phase_def next_adsr_phase_def)
next
  case False
  define e where "e = m_adsr_envelope v"
  define e' where "e' = snd (envelope_step e)"
  have r: "m_curr_adsr_phase v = P_RELEASE" "m_adsr_target v = 0" "\<not> env_increase e" "env_step e = 0" "0 < env_level e"
    "0 \<le> adsr_cycles e"
    using assms False by (auto simp: releasing_def voice_level_def e_def Let_def)
  have same: "env_increase e' = env_increase e" "env_step e' = env_step e" "env_shift e' = env_shift e"
    by (simp_all add: e'_def envelope_step_def Let_def)
  have p: "1 \<le> (2 :: int) ^ (env_shift e - 11)" by simp
  have neg: "- 8 * 2 ^ (11 - env_shift e) < (0 :: int)" by simp
  have step: "0 \<le> env_level e' \<and> (env_level e' < env_level e \<and> adsr_cycles e' = 2 ^ (env_shift e - 11) \<or>
      env_level e' = env_level e \<and> adsr_cycles e' = adsr_cycles e - 1 \<and> 0 < adsr_cycles e')"
    using falling_step[OF r(5) neg] r(3-6) by (auto simp: e'_def envelope_step_def Let_def get_step_def)
  then have "env_level e' * 2 ^ (env_shift e - 11) + max 1 (adsr_cycles e') < env_level e * 2 ^ (env_shift e - 11) + max 1 (adsr_cycles e)"
  proof (elim conjE disjE)
    assume l: "env_level e' < env_level e" "adsr_cycles e' = 2 ^ (env_shift e - 11)"
    then have "(env_level e' + 1) * 2 ^ (env_shift e - 11) \<le> env_level e * 2 ^ (env_shift e - 11)" by (intro mult_right_mono) simp_all
    moreover have "max 1 (adsr_cycles e') = 2 ^ (env_shift e - 11)" using l(2) p by simp
    ultimately show ?thesis by (simp add: algebra_simps)
  qed auto
  moreover have "0 \<le> env_level e' * 2 ^ (env_shift e - 11)" using step by simp
  ultimately have less: "nat (env_level e' * 2 ^ (env_shift e - 11) + max 1 (adsr_cycles e')) <
      nat (env_level e * 2 ^ (env_shift e - 11) + max 1 (adsr_cycles e))" by linarith
  have cyc: "0 \<le> adsr_cycles e'" using step by auto
  show ?thesis
  proof (cases "env_level e' \<le> 0")
    case True
    then show ?thesis
      using r same by (simp add: step_adsr_def Let_def e'_def e_def start_adsr_phase_def next_adsr_phase_def)
  next
    case False
    then have "step_adsr v = v\<lparr>m_adsr_envelope := e'\<rparr>" using r same by (simp add: step_adsr_def Let_def e'_def e_def)
    then show ?thesis
      using r same False less cyc by (simp add: releasing_def rounds_left_def voice_level_def period_def e_def[symmetric])
  qed
qed

lemma release_bounded:
  "releasing v \<Longrightarrow> \<exists>n \<le> rounds_left v. m_curr_adsr_phase ((step_adsr ^^ n) v) = P_NONE"
proof (induction "rounds_left v" arbitrary: v rule: less_induct)
  case less
  from release_round[OF less.prems] show ?case
  proof
    assume "m_curr_adsr_phase (step_adsr v) = P_NONE"
    moreover have "1 \<le> rounds_left v"
    proof -
      have "0 \<le> voice_level v * period v" using less.prems by (simp add: releasing_def voice_level_def period_def Let_def)
      then show ?thesis by (simp add: rounds_left_def le_nat_iff)
    qed
    ultimately show ?thesis by (intro exI[of _ 1]) simp
  next
    assume s: "releasing (step_adsr v) \<and> rounds_left (step_adsr v) < rounds_left v"
    with less.hyps[of "step_adsr v"] obtain n where "n \<le> rounds_left (step_adsr v)"
      "m_curr_adsr_phase ((step_adsr ^^ n) (step_adsr v)) = P_NONE" by auto
    then show ?thesis using s by (intro exI[of _ "Suc n"]) (simp add: funpow_Suc_right del: funpow.simps)
  qed
qed

text \<open>
  C40. A released voice falls silent: after a key-off, with the linear or the exponential curve and at any
  rate, the envelope reaches its end within one round per unit of the level, times the rounds
  the rate waits between two changes.
\<close>

theorem release_ends:
  assumes "voice_ok v"
  shows "\<exists>n \<le> nat (env_level (m_adsr_envelope v)) * 2 ^ (unat (get_bits 16 5 (m_adsr v)) - 11) + 1.
    m_curr_adsr_phase ((step_adsr ^^ n) (key_off v)) = P_NONE"
proof -
  have l: "0 \<le> env_level (m_adsr_envelope v)" using assms by (simp add: voice_ok_def)
  have r: "releasing (key_off v)"
    using l by (simp add: releasing_def key_off_def start_adsr_phase_def reset_adsr_phase_def Let_def envelope_reset_def)
  have "rounds_left (key_off v) = nat (env_level (m_adsr_envelope v) * 2 ^ (unat (get_bits 16 5 (m_adsr v)) - 11) + 1)"
    by (simp add: rounds_left_def voice_level_def period_def key_off_def start_adsr_phase_def reset_adsr_phase_def Let_def envelope_reset_def)
  also have "\<dots> = nat (env_level (m_adsr_envelope v)) * 2 ^ (unat (get_bits 16 5 (m_adsr v)) - 11) + 1"
    using l by (simp add: nat_add_distrib nat_mult_distrib nat_power_eq)
  finally show ?thesis using release_bounded[OF r] by simp
qed

theorem release_ends_witness:
  "\<exists>n \<le> nat (env_level (m_adsr_envelope (voice_new\<lparr>m_adsr := 0x200000\<rparr>))) *
      2 ^ (unat (get_bits 16 5 (m_adsr (voice_new\<lparr>m_adsr := 0x200000\<rparr>))) - 11) + 1.
    m_curr_adsr_phase ((step_adsr ^^ n) (key_off (voice_new\<lparr>m_adsr := 0x200000\<rparr>))) = P_NONE"
  by (rule release_ends) (simp add: voice_new_ok)

section \<open>Sweeps\<close>

text \<open>
  A volume sweep makes a single step: the unit goes on with the sweep only when the level has reached its end,
  so from any other level the volume stays where the first step has left it.
\<close>

theorem sweep_stops_after_one_step:
  assumes "bit vol 15" "w' = sweep_step (sweep_reset vol w)" "0 < sweep_level w'" "sweep_level w' < 0x7FFF"
  shows "(sweep_step ^^ n) w' = w'"
proof -
  have "\<not> sweep_enabled w'"
    using assms by (auto simp: sweep_step_def sweep_reset_def split_beta envelope_step_def Let_def MAX_VOLUME_def)
  then have "sweep_step w' = w'" by (simp add: sweep_step_def)
  then show ?thesis by (induction n) simp_all
qed

theorem sweep_stops_after_one_step_witness:
  "sweep_level (sweep_step (sweep_reset 0x8000 sweep_new)) = 0x3800 \<and>
   (sweep_step ^^ 1000) (sweep_step (sweep_reset 0x8000 sweep_new)) = sweep_step (sweep_reset 0x8000 sweep_new)"
proof -
  have l: "sweep_level (sweep_step (sweep_reset 0x8000 sweep_new)) = 0x3800" by code_simp
  then show ?thesis
    using sweep_stops_after_one_step[of "0x8000" "sweep_step (sweep_reset 0x8000 sweep_new)" sweep_new 1000]
    by (simp add: bit_iff_odd_drop_bit)
qed

section \<open>Words by DMA\<close>

text \<open>The bytes of a list of halfwords, the halfwords of a list of words, and a run of bytes at an address of the
sound memory, which wraps around at its end.\<close>

definition word_bytes :: "u16 list \<Rightarrow> u8 list" where
  "word_bytes ws = concat (map (\<lambda>w. [ucast w, ucast (drop_bit 8 w)]) ws)"

definition halves :: "u32 list \<Rightarrow> u16 list" where
  "halves vs = concat (map (\<lambda>v. [ucast v, ucast (drop_bit 16 v)]) vs)"

definition lies_at :: "nat \<Rightarrow> u8 list \<Rightarrow> (nat \<Rightarrow> u8) \<Rightarrow> bool" where
  "lies_at a bs r \<longleftrightarrow> (\<forall>i < length bs. r ((a + i) mod 0x80000) = bs ! i)"

fun dma_words :: "u32 list \<Rightarrow> ('h, 'm) psx_spu_scheme \<Rightarrow> ('h, 'm) psx_spu_scheme result" where
  "dma_words [] s = Inr s"
| "dma_words (v # vs) s = bindE (spu_dma_in v s) (dma_words vs)"

lemma word_bytes_simps [simp]: "word_bytes [] = []" "word_bytes (ws @ ws') = word_bytes ws @ word_bytes ws'"
  "word_bytes [w] = [ucast w, ucast (drop_bit 8 w)]" "length (word_bytes ws) = 2 * length ws"
  by (simp_all add: word_bytes_def) (induction ws; simp)

lemma halves_simps [simp]: "halves [] = []" "halves (vs @ vs') = halves vs @ halves vs'"
  "halves (v # vs) = ucast v # ucast (drop_bit 16 v) # halves vs" "length (halves vs) = 2 * length vs"
  by (simp_all add: halves_def) (induction vs; simp)

lemma other_place: "i < k \<Longrightarrow> k < 0x80000 \<Longrightarrow> (a + i) mod 0x80000 \<noteq> (a + k) mod (0x80000 :: nat)"
proof
  assume l: "i < k" "k < 0x80000" and "(a + i) mod 0x80000 = (a + k) mod (0x80000 :: nat)"
  then have "0x80000 dvd (a + k) - (a + i)" by (metis mod_eq_dvd_iff_nat add_le_cancel_left less_imp_le)
  then show False using l by (auto dest: dvd_imp_le)
qed

lemma lies_at_next:
  assumes "lies_at a bs r" "length bs < 0x80000" "k = (a + length bs) mod 0x80000"
  shows "lies_at a (bs @ [b]) (r(k := b))"
  using assms other_place[of _ "length bs" a] by (auto simp: lies_at_def nth_append less_Suc_eq)

lemma ram_place: "unat (w mod SOUND_RAM_SIZE) = unat w mod 0x80000" "unat ((w + 1) mod SOUND_RAM_SIZE) = (unat w + 1) mod 0x80000"
  by (simp_all add: SOUND_RAM_SIZE_def unat_mod_distrib unat_word_ariths mod_mod_cancel)

lemma ram_irq_keeps [simp]: "m_sound_ram (m_spu (check_ram_irq a s)) = m_sound_ram (m_spu s)"
  "m_fifo (m_spu (check_ram_irq a s)) = m_fifo (m_spu s)"
  "m_transfer_control (m_spu (check_ram_irq a s)) = m_transfer_control (m_spu s)"
  "m_curr_ram_transfer_address (m_spu (check_ram_irq a s)) = m_curr_ram_transfer_address (m_spu s)"
  by (simp_all add: check_ram_irq_def Let_def)

lemma put_ram16_keeps [simp]: "m_fifo (m_spu (put_ram16 w s)) = m_fifo (m_spu s)"
  "m_transfer_control (m_spu (put_ram16 w s)) = m_transfer_control (m_spu s)"
  by (simp_all add: put_ram16_def write_ram16_def write_ram8_def split_beta Let_def)

definition ram_pos :: "spu \<Rightarrow> nat" where "ram_pos p = unat (m_curr_ram_transfer_address p)"

lemma put_ram16_effect:
  "m_sound_ram (m_spu (put_ram16 w s)) = (m_sound_ram (m_spu s))(ram_pos (m_spu s) mod 0x80000 := ucast w,
     (ram_pos (m_spu s) + 1) mod 0x80000 := ucast (drop_bit 8 w))"
  "ram_pos (m_spu (put_ram16 w s)) = (ram_pos (m_spu s) + 2) mod 0x80000"
proof -
  have "unat (w mod SOUND_RAM_SIZE + 1) mod 0x80000 = (unat w + 1) mod 0x80000"
    "unat ((w mod SOUND_RAM_SIZE + 1) mod SOUND_RAM_SIZE mod SOUND_RAM_SIZE + 1) mod 0x80000 = (unat w + 2) mod 0x80000" for w :: u32
    by (simp_all add: SOUND_RAM_SIZE_def unat_mod_distrib unat_word_ariths mod_mod_cancel mod_Suc_eq)
  then show "m_sound_ram (m_spu (put_ram16 w s)) = (m_sound_ram (m_spu s))(ram_pos (m_spu s) mod 0x80000 := ucast w,
     (ram_pos (m_spu s) + 1) mod 0x80000 := ucast (drop_bit 8 w))"
    "ram_pos (m_spu (put_ram16 w s)) = (ram_pos (m_spu s) + 2) mod 0x80000"
    by (simp_all add: ram_pos_def put_ram16_def write_ram16_def write_ram8_def split_beta Let_def ram_place mod_Suc_eq)
qed

lemma put_ram16_lies_at:
  assumes "lies_at a (word_bytes ws) (m_sound_ram (m_spu s))" "2 * length ws + 2 \<le> 0x80000"
    "ram_pos (m_spu s) mod 0x80000 = (a + 2 * length ws) mod 0x80000"
  shows "lies_at a (word_bytes (ws @ [w])) (m_sound_ram (m_spu (put_ram16 w s)))"
    "ram_pos (m_spu (put_ram16 w s)) mod 0x80000 = (a + 2 * length (ws @ [w])) mod 0x80000"
proof -
  have pos: "(ram_pos (m_spu s) + n) mod 0x80000 = (a + (2 * length ws + n)) mod 0x80000" for n
    using mod_add_cong[OF assms(3) refl] by (simp add: add.assoc)
  have "lies_at a (word_bytes ws @ [ucast w]) ((m_sound_ram (m_spu s))(ram_pos (m_spu s) mod 0x80000 := ucast w))"
    by (rule lies_at_next[OF assms(1)]) (use assms(2,3) in simp_all)
  from lies_at_next[OF this, of "(ram_pos (m_spu s) + 1) mod 0x80000" "ucast (drop_bit 8 w)"]
  show "lies_at a (word_bytes (ws @ [w])) (m_sound_ram (m_spu (put_ram16 w s)))"
    using assms(2) pos[of 1] by (simp add: put_ram16_effect)
  show "ram_pos (m_spu (put_ram16 w s)) mod 0x80000 = (a + 2 * length (ws @ [w])) mod 0x80000"
    using pos[of 2] by (simp add: put_ram16_effect)
qed

lemma put_all_lies_at:
  assumes "lies_at a (word_bytes ws) (m_sound_ram (m_spu s))" "2 * length (ws @ us) \<le> 0x80000"
    "ram_pos (m_spu s) mod 0x80000 = (a + 2 * length ws) mod 0x80000"
  shows "lies_at a (word_bytes (ws @ us)) (m_sound_ram (m_spu (foldl (\<lambda>s v. put_ram16 v s) s us))) \<and>
    ram_pos (m_spu (foldl (\<lambda>s v. put_ram16 v s) s us)) mod 0x80000 = (a + 2 * length (ws @ us)) mod 0x80000"
  using assms
proof (induction us arbitrary: ws s)
  case (Cons u us)
  have "lies_at a (word_bytes (ws @ [u])) (m_sound_ram (m_spu (put_ram16 u s)))"
    "ram_pos (m_spu (put_ram16 u s)) mod 0x80000 = (a + 2 * length (ws @ [u])) mod 0x80000"
    using put_ram16_lies_at[OF Cons.prems(1) _ Cons.prems(3), of u] Cons.prems(2) by simp_all
  from Cons.IH[OF this(1) _ this(2)] show ?case using Cons.prems(2) by simp
qed simp

lemma put_all_keeps [simp]: "m_fifo (m_spu (foldl (\<lambda>s v. put_ram16 v s) s us)) = m_fifo (m_spu s)"
  "m_transfer_control (m_spu (foldl (\<lambda>s v. put_ram16 v s) s us)) = m_transfer_control (m_spu s)"
  by (induction us arbitrary: s) simp_all

text \<open>Halfway through a transfer: the first halfwords are in the memory, the others wait in the queue.\<close>

definition uploading :: "nat \<Rightarrow> u32 list \<Rightarrow> spu \<Rightarrow> bool" where
  "uploading a us p \<longleftrightarrow> transfer_type p = 2 \<and> queue_ok (m_fifo p) \<and> length (arr (m_fifo p)) = SPU_FIFO_SIZE \<and>
     (\<exists>ws. halves us = ws @ queue_contents (m_fifo p) \<and> 32 dvd length ws \<and> length (queue_contents (m_fifo p)) < 32 \<and>
        lies_at a (word_bytes ws) (m_sound_ram p) \<and> ram_pos p mod 0x80000 = (a + 2 * length ws) mod 0x80000)"

lemma flush_full:
  assumes "transfer_type (m_spu s) = 2" "length (arr (m_fifo (m_spu s))) = 32" "unat (m_curr_size (m_fifo (m_spu s))) = 32"
  shows "fifo_transfer_complete s = upd_spu (\<lambda>p. p\<lparr>m_fifo := queue_clear (m_fifo p)\<rparr>)
    (foldl (\<lambda>s v. put_ram16 v s) (upd_spu (\<lambda>p. p\<lparr>m_fifo_transfer_event := INVALID_EVENT\<rparr>) s) (queue_contents (m_fifo (m_spu s))))"
proof -
  have "map (\<lambda>i. arr (m_fifo (m_spu s)) ! i) [0..<32] = queue_contents (m_fifo (m_spu s))"
    using assms(2,3) map_nth[of "arr (m_fifo (m_spu s))"] by (simp add: queue_contents_def)
  moreover have "transfer_type (m_spu (upd_spu (\<lambda>p. p\<lparr>m_fifo_transfer_event := INVALID_EVENT\<rparr>) s)) = 2"
    using assms(1) by (simp add: transfer_type_def)
  ultimately show ?thesis
    using assms(3) by (simp add: fifo_transfer_complete_def write_sound_ram_def transfer_words_def Let_def)
qed

lemma dma_word_uploads:
  assumes "uploading a us (m_spu s)" "4 * length (us @ [v]) \<le> 0x80000"
  shows "\<exists>s'. spu_dma_in v s = Inr s' \<and> uploading a (us @ [v]) (m_spu s')"
proof -
  let ?q = "m_fifo (m_spu s)"
  obtain ws where ws: "halves us = ws @ queue_contents ?q" "32 dvd length ws" "length (queue_contents ?q) < 32"
    "lies_at a (word_bytes ws) (m_sound_ram (m_spu s))" "ram_pos (m_spu s) mod 0x80000 = (a + 2 * length ws) mod 0x80000"
    and ok: "transfer_type (m_spu s) = 2" "queue_ok ?q" "length (arr ?q) = 32"
    using assms(1) by (auto simp: uploading_def SPU_FIFO_SIZE_def)
  have "2 * length us = length ws + length (queue_contents ?q)" using arg_cong[OF ws(1), of length] by simp
  then have room: "length (queue_contents ?q) < 31" using ws(2,3) by presburger
  obtain q1 where q1: "queue_push (ucast v) ?q = Inr q1" "queue_ok q1" "length (arr q1) = 32"
    "queue_contents q1 = queue_contents ?q @ [ucast v]"
    using cq.enq_room[OF ok(2), of "ucast v"] room ok(3) by auto
  obtain q2 where q2: "queue_push (ucast (drop_bit 16 v)) q1 = Inr q2" "queue_ok q2" "length (arr q2) = 32"
    "queue_contents q2 = queue_contents ?q @ [ucast v, ucast (drop_bit 16 v)]"
    using cq.enq_room[OF q1(2), of "ucast (drop_bit 16 v)"] room q1(3,4) by auto
  let ?t = "upd_spu (\<lambda>p. p\<lparr>m_fifo := q2\<rparr>) (upd_spu (\<lambda>p. p\<lparr>m_fifo := q1\<rparr>) s)"
  have full: "queue_full ?q = False" using room length_queue_contents[OF ok(2)] ok(3) by (simp add: queue_full_def)
  have step: "spu_dma_in v s = Inr (if queue_full q2 then fifo_transfer_complete ?t else ?t)"
    using q1(1) q2(1) full by (simp add: spu_dma_in_def spu_push_def)
  have all: "halves (us @ [v]) = ws @ queue_contents q2" using ws(1) q2(4) by simp
  show ?thesis
  proof (cases "queue_full q2")
    case False
    then have "length (queue_contents q2) < 32" using length_queue_contents[OF q2(2)] q2(2,3)
      by (auto simp: queue_full_def queue_ok_def)
    then have "uploading a (us @ [v]) (m_spu ?t)"
      using q2 ok ws all by (auto simp: uploading_def transfer_type_def ram_pos_def SPU_FIFO_SIZE_def)
    then show ?thesis using step False by simp
  next
    case True
    then have n: "unat (m_curr_size q2) = 32" using q2(3) by (simp add: queue_full_def)
    let ?u = "upd_spu (\<lambda>p. p\<lparr>m_fifo_transfer_event := INVALID_EVENT\<rparr>) ?t"
    let ?w = "foldl (\<lambda>s v. put_ram16 v s) ?u (queue_contents q2)"
    have "2 * length (ws @ queue_contents q2) \<le> 0x80000" using arg_cong[OF all, of length] assms(2) by simp
    then have put: "lies_at a (word_bytes (ws @ queue_contents q2)) (m_sound_ram (m_spu ?w))"
      "ram_pos (m_spu ?w) mod 0x80000 = (a + 2 * length (ws @ queue_contents q2)) mod 0x80000"
      using put_all_lies_at[of a ws ?u "queue_contents q2"] ws(4,5) by (auto simp: ram_pos_def)
    have "fifo_transfer_complete ?t = upd_spu (\<lambda>p. p\<lparr>m_fifo := queue_clear (m_fifo p)\<rparr>) ?w"
      using flush_full[of ?t] ok(1) q2(3) n by (simp add: transfer_type_def)
    moreover have "32 dvd length (ws @ queue_contents q2)" using ws(2) n length_queue_contents[OF q2(2)] by simp
    ultimately have "uploading a (us @ [v]) (m_spu (fifo_transfer_complete ?t))"
      using put all ok(1) q2(3) cq.reset_ok[OF q2(2)]
      by (auto simp: uploading_def transfer_type_def ram_pos_def SPU_FIFO_SIZE_def)
    then show ?thesis using step True by simp
  qed
qed

lemma dma_words_upload:
  assumes "uploading a us (m_spu s)" "4 * length (us @ vs) \<le> 0x80000"
  shows "\<exists>s'. dma_words vs s = Inr s' \<and> uploading a (us @ vs) (m_spu s')"
  using assms
proof (induction vs arbitrary: us s)
  case (Cons v vs)
  obtain t where t: "spu_dma_in v s = Inr t" "uploading a (us @ [v]) (m_spu t)"
    using dma_word_uploads[OF Cons.prems(1), of v] Cons.prems(2) by auto
  from Cons.IH[OF t(2)] t(1) Cons.prems(2) show ?case by simp
qed simp

text \<open>
  C39. Words sent by DMA arrive: from a unit with an empty queue in the normal type of transfer, any number
  of blocks of sixteen words that fit the memory lies there afterwards, byte by byte and in order from the
  transfer address on, wrapping around at its end, and the queue is empty again.
\<close>

theorem dma_words_arrive:
  assumes "spu_ok (m_spu s)" "queue_contents (m_fifo (m_spu s)) = []" "transfer_type (m_spu s) = 2"
    and "length vs mod 16 = 0" "4 * length vs \<le> 0x80000"
  shows "\<exists>s'. dma_words vs s = Inr s' \<and> lies_at (ram_pos (m_spu s)) (word_bytes (halves vs)) (m_sound_ram (m_spu s')) \<and>
    queue_contents (m_fifo (m_spu s')) = []"
proof -
  let ?a = "ram_pos (m_spu s)"
  have "uploading ?a [] (m_spu s)" using assms(1-3) by (simp add: uploading_def spu_ok_def lies_at_def)
  then obtain s' ws where s': "dma_words vs s = Inr s'" "halves vs = ws @ queue_contents (m_fifo (m_spu s'))" "32 dvd length ws"
    "length (queue_contents (m_fifo (m_spu s'))) < 32" "lies_at ?a (word_bytes ws) (m_sound_ram (m_spu s'))"
    using dma_words_upload[of ?a "[]" s vs] assms(5) by (auto simp: uploading_def)
  have "2 * length vs = length ws + length (queue_contents (m_fifo (m_spu s')))" using arg_cong[OF s'(2), of length] by simp
  then have "length (queue_contents (m_fifo (m_spu s'))) = 0" using s'(3,4) assms(4) by presburger
  then show ?thesis using s' by auto
qed

definition upload_spu :: spu where
  "upload_spu = spu_new\<lparr>m_transfer_control := 4, m_curr_ram_transfer_address := 0x7FFF0\<rparr>"

theorem dma_words_arrive_witness:
  "\<exists>s'. dma_words (replicate 16 0xDEADBEEF) (sound_with upload_spu) = Inr s' \<and>
     lies_at (ram_pos upload_spu) (word_bytes (halves (replicate 16 0xDEADBEEF))) (m_sound_ram (m_spu s')) \<and>
     queue_contents (m_fifo (m_spu s')) = []"
proof -
  have ok: "spu_ok upload_spu" using spu_new_ok by (simp add: spu_ok_def upload_spu_def)
  have ty: "transfer_type upload_spu = 2" by code_simp
  have empty: "queue_contents (m_fifo upload_spu) = []" by code_simp
  have len: "length (replicate 16 (0xDEADBEEF :: u32)) = 16" by (rule length_replicate)
  show ?thesis
    using dma_words_arrive[of "sound_with upload_spu" "replicate 16 0xDEADBEEF"]
    unfolding sound_with_spu len using ok empty ty by (simp only: mod_self)
qed

section \<open>Sound of the drive\<close>

text \<open>
  The normal volume inverts the sound of the drive: a channel at volume 0x80, nothing of the other one mixed in,
  comes out with its sign turned around (and the lowest sample as itself).
\<close>

theorem normal_volume_inverts: "mixed a 0x80 b 0 = i16 (- a)"
proof -
  have e: "expanded 0x80 = word_of_int (- 0x8000)" "expanded 0 = 0" by code_simp+
  have scaled: "(c * 2 ^ 15) mod 2 ^ 32 div 2 ^ 15 = take_bit 17 c" for c :: int
  proof -
    have "(c * 2 ^ 15) mod 2 ^ 32 = (c mod 2 ^ 17) * 2 ^ 15" by (simp add: mult_mod_left)
    then show ?thesis by (simp add: take_bit_eq_mod)
  qed
  have w: "word_of_int a * expanded 0x80 = word_of_int (- a * 2 ^ 15)" unfolding e(1) by simp
  have "uint (drop_bit 15 (word_of_int a * expanded 0x80)) = (- a * 2 ^ 15) mod 2 ^ 32 div 2 ^ 15"
    by (simp only: w unsigned_drop_bit_eq uint_word_of_int) (simp add: drop_bit_eq_div take_bit_eq_mod)
  also have "\<dots> = take_bit 17 (- a)"
    by (rule scaled)
  finally have u: "uint (drop_bit 15 (word_of_int a * expanded 0x80)) = take_bit 17 (- a)" .
  have "i16 (take_bit 17 (- a)) = i16 (- a)"
    by (simp add: i16_def signed_take_bit_take_bit)
  then show ?thesis by (simp add: mixed_def u e(2))
qed

end
