(* ===== verification/SystemSpec.thy ===== *)
theory SystemSpec
  imports PowerOn DeviceFrame MdecSpec SpuSpec
begin

text \<open>
  The contracts of the library on the machine itself. The devices keep the processor's state at every depth, so the
  bus meets the contract of the processor, and every step of the system keeps the processor's state well formed.
\<close>

section \<open>The processor's part of the state\<close>

definition cpu_view ::
  "('c, 'm) cpu_scheme \<Rightarrow> _" where
  "cpu_view s = ((regs s, pc s, hi s, lo s, cop0 s, m_gte s, m_syscall_frames s, m_rerun_gte_for_interrupt s),
     (branch_delay s, branch_dest s, curr_mode s, branch_taken s, curr_delay s, next_delay s, reg_writeback s,
      hi_lo_ready_timestamp s))"

lemma same_cpu_view: "same_cpu s t \<longleftrightarrow> cpu_view t = cpu_view s"
  by (auto simp: same_cpu_def cpu_view_def)

lemma widened_keeps: "same_view2 V x m \<Longrightarrow> same_view2 V x (widened m)"
  by (cases m) (auto simp: widened_def same_view2_def)

context device_frame
begin

lemma drive_port: "V s = x \<Longrightarrow> same_view2 V x (cd_port_read w a s)"
  unfolding cd_port_read_def by (cases w) (simp_all add: widened_keeps drive_reads)

end

interpretation cpu_part: unit_frame "cpu_view :: ('h, 'm) psx_cd_scheme \<Rightarrow> _"
  by unfold_locales (simp_all add: cpu_view_def)

interpretation mdec_part: device_frame "m_mdec :: ('h, 'm) psx_cd_scheme \<Rightarrow> _"
  by unfold_locales simp_all

interpretation sound_part: device_frame "m_spu :: ('h, 'm) psx_cd_scheme \<Rightarrow> _"
  by unfold_locales simp_all

lemma same_cpu_rreg: "same_cpu s t \<Longrightarrow> rreg r t = rreg r s"
  by (simp add: same_cpu_def rreg_def)

lemma view_ensures:
  "same_view cpu_view (cpu_view s) m \<longleftrightarrow> ensures UNIV (same_cpu s) m"
  "same_view2 cpu_view (cpu_view s) n \<longleftrightarrow> ensures UNIV (\<lambda>(v, s'). same_cpu s s') n"
  by (simp_all add: same_view_def same_view2_def same_cpu_view[abs_def])

lemma view_ensuresI:
  "(\<And>s. ensures UNIV (same_cpu s) (f s)) \<Longrightarrow> cpu_view s = x \<Longrightarrow> same_view cpu_view x (f s)"
  "(\<And>s. ensures UNIV (\<lambda>(v, s'). same_cpu s s') (g s)) \<Longrightarrow> cpu_view s = x \<Longrightarrow> same_view2 cpu_view x (g s)"
  using view_ensures by blast+

section \<open>Devices at every depth\<close>

lemma transfer_env_simps [simp]:
  "dma_bus (transfer_env os dev) = machine_bus os dev (\<lambda>i s. Inl Unreachable) (\<lambda>a e s. Inl Unreachable)"
  "spu_dma_read (transfer_env os dev) = spu_dma_out" "spu_dma_write (transfer_env os dev) = spu_dma_in"
  by (simp_all add: transfer_env_def)

lemma devices_frame:
  fixes dev :: "('h, 'm) psx_cd_scheme device_ops"
  assumes "io_devices os dev UNIV"
  shows "machine_frame cpu_view (transfer_env os dev)"
proof -
  have u: "insert DebugBreak UNIV = UNIV" by simp
  show ?thesis
    by unfold_locales
      (simp_all add: view_ensuresI cpu_part.sound_dma io_devices.system_access[OF assms, unfolded u])
qed

lemma ports_keep:
  assumes "machine_frame cpu_view env"
  shows "same_view2 cpu_view (cpu_view s) (cd_port_read w a s)"
    "same_view cpu_view (cpu_view s) (cd_port_write env w a v s)"
    "same_view2 cpu_view (cpu_view s) (spu_port_read w a s)"
    "same_view cpu_view (cpu_view s) (spu_port_write env w a v s)"
  unfolding cd_port_read_def cd_port_write_def spu_port_read_def spu_port_write_def
  by (cases w; simp add: widened_keeps cpu_part.drive_reads cpu_part.rules
      machine_frame.drive_writes[OF assms] machine_frame.spu_access[OF assms])+

lemma psx_devices_ok:
  assumes "machine_frame cpu_view env"
  shows "io_devices os (psx_devices rd env) UNIV"
proof -
  note ops = machine_frame.dma_write_keeps[OF assms] machine_frame.gpu_access[OF assms]
    machine_frame.mdec_access[OF assms] ports_keep[OF assms]
  show ?thesis
    unfolding psx_devices_def io_devices_def device_ops.simps view_ensures[symmetric]
    by (simp add: ops cpu_part.counter_access cpu_part.sio_access cpu_part.rules)
      (simp add: ensures_def split: sum.split)
qed

lemma devices_ok:
  fixes rd :: renderer
  shows "io_devices os (devices n os rd :: ('h, 'm) psx_cd_scheme device_ops) UNIV"
proof (induction n)
  case 0
  then show ?case by unfold_locales (simp_all add: no_devices_def ensures_def split: sum.split)
next
  case (Suc n)
  then show ?case by (simp add: psx_devices_ok devices_frame)
qed

interpretation depths: io_devices os "devices n os rd :: ('h, 'm) psx_cd_scheme device_ops" UNIV
  for os :: "'h host_os" and n and rd :: renderer
  by (rule devices_ok)

interpretation transfers: machine_frame "cpu_view :: ('h, 'm) psx_cd_scheme \<Rightarrow> _" "transfer_env os (devices n os rd)"
  for os :: "'h host_os" and n and rd :: renderer
  by (rule devices_frame[OF devices_ok])

interpretation whole: psx_machine os "devices DEPTH os rd :: ('h, 'm) psx_system_scheme device_ops" UNIV
    "undefined_unpatched :: u32 \<Rightarrow> ('h, 'm) psx_system_scheme \<Rightarrow> _" hle_handler
  for os :: "'h host_os" and rd :: renderer
proof unfold_locales
  fix i a :: u32 and e and s :: "('h, 'm) psx_system_scheme"
  assume ok: "cpu_ok s"
  show "ensures UNIV (\<lambda>(h, s'). cpu_ok s') (undefined_unpatched i s)"
    using ok by (simp add: undefined_unpatched_def)
  obtain s' where "hle_handler a e s = Inr (True, s')" "same_cpu s s'" using hle_handler_cpu by blast
  then show "ensures UNIV (\<lambda>(h, s'). cpu_ok s' \<and> m_syscall_frames s' = m_syscall_frames s) (hle_handler a e s)"
    using ok same_cpu_ok[of s s'] by (simp add: same_cpu_def)
qed

section \<open>Requests at every depth\<close>

text \<open>
  A relation between states that the bus's own bookkeeping and the reads of the devices keep is kept by every read
  of the machine; with it the contracts of the decoder's and the sound unit's requests hold of the machine.
\<close>

lemma bus_read_related:
  fixes K :: "('h, 'm) psx_cd_scheme \<Rightarrow> ('h, 'm) psx_cd_scheme \<Rightarrow> bool"
  assumes trans: "\<And>s t u. K s t \<Longrightarrow> K t u \<Longrightarrow> K s u" and refl: "\<And>s. K s s"
    and here: "\<And>b n s. K s (add_cycles b n s)" "\<And>e c a s. K s (bus_exception e c a s)"
    and reads: "\<And>k a s. ensures UNIV (\<lambda>(v, t). K s t) (timer_read dev k a s)"
      "\<And>a s. ensures UNIV (\<lambda>(v, t). K s t) (dma_read dev a s)"
      "\<And>s. ensures UNIV (\<lambda>(v, t). K s t) (gpu_read_data dev s)"
      "\<And>s. ensures UNIV (\<lambda>(v, t). K s t) (gpu_read_stat dev s)"
      "\<And>w a s. ensures UNIV (\<lambda>(v, t). K s t) (cdrom_read dev w a s)"
      "\<And>k w a s. ensures UNIV (\<lambda>(v, t). K s t) (sio_read dev k w a s)"
      "\<And>s. ensures UNIV (\<lambda>(v, t). K s t) (mdec_read_data dev s)"
      "\<And>s. ensures UNIV (\<lambda>(v, t). K s t) (mdec_read_stat dev s)"
      "\<And>w a s. ensures UNIV (\<lambda>(v, t). K s t) (spu_read dev w a s)"
  shows "ensures UNIV (\<lambda>(v, t). K s t) (system_read os dev w e c a s)"
proof -
  have after: "ensures UNIV (\<lambda>(v, t). K s t) m" if "ensures UNIV (\<lambda>(v, t). K u t) m" "K s u"
    for u and m :: "(u32 \<times> _) result"
    by (rule ensures_mono[OF that(1) order_refl]) (auto intro: trans[OF that(2)])
  note cycles = after[OF reads(5) here(1)] after[OF reads(9) here(1)]
  have load: "ensures UNIV (\<lambda>(v, t). K s t) (guest_load os w a u)" if "K s u" for u
    unfolding guest_load_def by (rule ensures_any) (simp add: that)
  have plain: "ensures UNIV (\<lambda>(v, t). K s t) (Inr (v :: u32, u))" if "K s u" for v u
    using that by simp
  have io: "ensures UNIV (\<lambda>(v, t). K s t) (read_io dev w c a s)"
    unfolding read_io_def Let_def by (intro ensures_if plain refl ensures_picked reads cycles)
  show ?thesis
    unfolding system_read_def Let_def by (intro ensures_if plain load io here refl) simp
qed

lemma status_related:
  assumes req: "request_line env UNIV K" and gpu: "\<And>f s. K s (upd_gpu f s)"
  shows "ensures UNIV (\<lambda>(v, t). K s t) (gpu_read_status \<lparr>gpu_dma = env, render = rd\<rparr> s)"
proof -
  note trans = request_line.kept_trans[OF req]
  have "ensures UNIV (K t) (update_dreq \<lparr>gpu_dma = env, render = rd\<rparr> t)" for t
    unfolding update_dreq_def Let_def gpu_env.simps
    by (rule ensures_bind[where Q = "K t"])
      (auto intro!: ensures_cond intro: trans gpu request_line.kept_channel[OF req]
        ensures_mono[OF request_line.request_ok[OF req] order_refl] trans[OF trans[OF gpu gpu]])
  then have "ensures UNIV (K s) (update_dreq \<lparr>gpu_dma = env, render = rd\<rparr> (upd_gpu f s))" for f
    by (rule ensures_mono) (auto intro: trans gpu)
  then show ?thesis unfolding gpu_read_status_def by (rule ensures_bind) simp
qed

lemma sound_unit_kept:
  "m_mdec (snd (spu_read16 a s)) = m_mdec s" "m_mdec (snd (spu_read8 a s)) = m_mdec s"
  "m_mdec (snd (spu_read32 a s)) = m_mdec s"
proof -
  show r: "m_mdec (snd (spu_read16 a s)) = m_mdec s" for a and s :: "('h, 'm) psx_spu_scheme"
    by (simp add: spu_read16_def Let_def upd_spu_def)
  show "m_mdec (snd (spu_read8 a s)) = m_mdec s" "m_mdec (snd (spu_read32 a s)) = m_mdec s"
    by (simp_all add: spu_read8_def spu_read32_def r split_beta)
qed

lemma sound_regs_kept:
  "spu_ok (m_spu (snd (spu_read16 a s))) = spu_ok (m_spu s)" "spu_ok (m_spu (snd (spu_read8 a s))) = spu_ok (m_spu s)"
  "spu_ok (m_spu (snd (spu_read32 a s))) = spu_ok (m_spu s)"
proof -
  show r: "spu_ok (m_spu (snd (spu_read16 a s))) = spu_ok (m_spu s)" for a and s :: "('h, 'm) psx_spu_scheme"
    by (simp add: spu_read16_def Let_def upd_spu_def)
  show "spu_ok (m_spu (snd (spu_read8 a s))) = spu_ok (m_spu s)" "spu_ok (m_spu (snd (spu_read32 a s))) = spu_ok (m_spu s)"
    by (simp_all add: spu_read8_def spu_read32_def r split_beta)
qed

lemma same_view_related:
  "same_view2 V (V s) m \<Longrightarrow> (\<And>t. V t = V s \<Longrightarrow> K s t) \<Longrightarrow> ensures UNIV (\<lambda>(v, t). K s t) m"
  unfolding same_view2_def by (erule ensures_mono) auto

text \<open>The decoder's data port and its requests, for a relation that allows the pops of its queue.\<close>

lemma decoder_reads:
  assumes "dma_requests env UNIV"
  shows "ensures UNIV (\<lambda>(v, t). mdec_kept (m_mdec s) (m_mdec t)) (mdec_data env s)"
    "mdec_kept (m_mdec s) (m_mdec (snd (mdec_read_status s)))"
proof -
  note d = dma_requests.dma0_ok[OF assms] dma_requests.dma1_ok[OF assms]
  show "ensures UNIV (\<lambda>(v, t). mdec_kept (m_mdec s) (m_mdec t)) (mdec_data env s)"
  proof (cases "mdec_out_fifo (m_mdec s)")
    case (Cons col rest)
    have p: "mdec_kept (m_mdec s) (m_mdec (upd_mdec (\<lambda>m. m\<lparr>mdec_out_fifo := rest\<rparr>) s))"
      unfolding mdec_kept_def upd_mdec_def
      by (intro exI[of _ "mdec_stat (m_mdec s)"] exI[of _ rest]) (simp add: Cons)
    show ?thesis
      unfolding mdec_data_def Cons list.case
      by (rule ensures_bind[OF d(1)], rule ensures_bind[OF d(2)])
        (auto intro: mdec_kept_trans[OF mdec_kept_trans[OF p]])
  qed (simp add: mdec_data_def)
  show "mdec_kept (m_mdec s) (m_mdec (snd (mdec_read_status s)))"
    by (simp add: mdec_read_status_def Let_def upd_mdec_def)
qed

lemma sound_port_related:
  assumes "\<And>a s. K s (snd (spu_read16 a s))" "\<And>a s. K s (snd (spu_read8 a s))" "\<And>a s. K s (snd (spu_read32 a s))"
  shows "ensures UNIV (\<lambda>(v, t). K s t) (spu_port_read w a s)"
  using assms by (cases w) (auto simp: spu_port_read_def widened_def split_beta)

lemma decoder_bus:
  fixes s :: "('h, 'm) psx_cd_scheme"
  shows "ensures UNIV (\<lambda>(v, t). mdec_kept (m_mdec s) (m_mdec t)) (system_read os (devices n os rd) w e c a s)"
proof (induction n arbitrary: s w e c a)
  case 0
  show ?case
    by (rule bus_read_related)
      (auto simp: no_devices_def ensures_def add_cycles_def bus_exception_def flag_exception_def Let_def
        intro: mdec_kept_trans split: sum.split option.split)
next
  case (Suc n)
  let ?K = "\<lambda>s t :: ('h, 'm) psx_cd_scheme. mdec_kept (m_mdec s) (m_mdec t)"
  let ?env = "transfer_env os (devices n os rd) :: ('h, ('h, 'm) psx_cd_scheme) dma_env"
  have req: "dma_requests ?env UNIV"
    by unfold_locales (use Suc in \<open>auto simp: upd_ctl_def intro: mdec_kept_trans\<close>)
  have line: "request_line ?env UNIV ?K" using req by (rule dma_requests.axioms(1))
  have same: "ensures UNIV (\<lambda>(v, t). ?K s t) m" if "same_view2 m_mdec (m_mdec s) m"
    for s :: "('h, 'm) psx_cd_scheme" and m :: "(u32 \<times> ('h, 'm) psx_cd_scheme) result"
    by (rule same_view_related[of m_mdec s m ?K, OF that]) simp
  show ?case unfolding devices.simps
  proof (rule bus_read_related)
    show "?K s t \<Longrightarrow> ?K t u \<Longrightarrow> ?K s u" for s t u :: "('h, 'm) psx_cd_scheme"
      by (rule mdec_kept_trans)
    show "ensures UNIV (\<lambda>(v, t). ?K s t) (timer_read (psx_devices rd ?env) k a s)"
      "ensures UNIV (\<lambda>(v, t). ?K s t) (dma_read (psx_devices rd ?env) a s)"
      "ensures UNIV (\<lambda>(v, t). ?K s t) (gpu_read_data (psx_devices rd ?env) s)"
      "ensures UNIV (\<lambda>(v, t). ?K s t) (cdrom_read (psx_devices rd ?env) w a s)"
      "ensures UNIV (\<lambda>(v, t). ?K s t) (sio_read (psx_devices rd ?env) k w a s)" for k w a s
      by (rule same; simp add: psx_devices_def mdec_part.counter_access mdec_part.sio_access mdec_part.drive_port
          mdec_part.rules)+
    show "ensures UNIV (\<lambda>(v, t). ?K s t) (gpu_read_stat (psx_devices rd ?env) s)" for s
      using status_related[OF line, where rd = rd and s = s] by (simp add: psx_devices_def upd_gpu_def)
    show "ensures UNIV (\<lambda>(v, t). ?K s t) (mdec_read_data (psx_devices rd ?env) s)"
      "ensures UNIV (\<lambda>(v, t). ?K s t) (mdec_read_stat (psx_devices rd ?env) s)" for s
      using decoder_reads[OF req, of s] by (simp_all add: psx_devices_def split_beta)
    show "ensures UNIV (\<lambda>(v, t). ?K s t) (spu_read (psx_devices rd ?env) w a s)" for w a s
      using sound_port_related[of ?K] by (simp add: psx_devices_def sound_unit_kept)
  qed (auto simp: add_cycles_def bus_exception_def flag_exception_def Let_def split: option.split)
qed

interpretation decoder_line: dma_requests "transfer_env os (devices n os rd) :: ('h, ('h, 'm) psx_cd_scheme) dma_env" UNIV
  for os :: "'h host_os" and n and rd :: renderer
  by unfold_locales (auto simp: decoder_bus upd_ctl_def intro: mdec_kept_trans)

lemma sound_bus:
  fixes s :: "('h, 'm) psx_cd_scheme"
  shows "ensures UNIV (\<lambda>(v, t). spu_ok (m_spu s) \<longrightarrow> spu_ok (m_spu t)) (system_read os (devices n os rd) w e c a s)"
proof (induction n arbitrary: s w e c a)
  case 0
  show ?case
    by (rule bus_read_related)
      (auto simp: no_devices_def ensures_def add_cycles_def bus_exception_def flag_exception_def Let_def
        split: sum.split option.split)
next
  case (Suc n)
  let ?K = "\<lambda>s t :: ('h, 'm) psx_cd_scheme. spu_ok (m_spu s) \<longrightarrow> spu_ok (m_spu t)"
  let ?env = "transfer_env os (devices n os rd) :: ('h, ('h, 'm) psx_cd_scheme) dma_env"
  have line: "request_line ?env UNIV ?K"
    by unfold_locales (use Suc in \<open>auto simp: upd_ctl_def\<close>)
  have same: "ensures UNIV (\<lambda>(v, t). ?K s t) m" if "same_view2 m_spu (m_spu s) m"
    for s :: "('h, 'm) psx_cd_scheme" and m :: "(u32 \<times> ('h, 'm) psx_cd_scheme) result"
    by (rule same_view_related[of m_spu s m ?K, OF that]) simp
  have request: "ensures UNIV (?K s) (update_dma0_req ?env s)" "ensures UNIV (?K s) (update_dma1_req ?env s)"
    for s :: "('h, 'm) psx_cd_scheme"
    unfolding update_dma0_req_def update_dma1_req_def Let_def
    by (auto simp: upd_mdec_def set_dreq_def upd_channel_def upd_ctl_def
        intro!: ensures_cond ensures_mono[OF request_line.request_ok[OF line] order_refl])
  have data: "ensures UNIV (\<lambda>(v, t). ?K s t) (mdec_data ?env s)" for s :: "('h, 'm) psx_cd_scheme"
    unfolding mdec_data_def
    by (auto simp: upd_mdec_def split: list.split intro!: ensures_bind[OF request(1)] ensures_bind[OF request(2)])
  show ?case unfolding devices.simps
  proof (rule bus_read_related)
    show "ensures UNIV (\<lambda>(v, t). ?K s t) (timer_read (psx_devices rd ?env) k a s)"
      "ensures UNIV (\<lambda>(v, t). ?K s t) (dma_read (psx_devices rd ?env) a s)"
      "ensures UNIV (\<lambda>(v, t). ?K s t) (gpu_read_data (psx_devices rd ?env) s)"
      "ensures UNIV (\<lambda>(v, t). ?K s t) (cdrom_read (psx_devices rd ?env) w a s)"
      "ensures UNIV (\<lambda>(v, t). ?K s t) (sio_read (psx_devices rd ?env) k w a s)" for k w a s
      by (rule same; simp add: psx_devices_def sound_part.counter_access sound_part.sio_access sound_part.drive_port
          sound_part.rules)+
    show "ensures UNIV (\<lambda>(v, t). ?K s t) (gpu_read_stat (psx_devices rd ?env) s)" for s
      using status_related[OF line, where rd = rd and s = s] by (simp add: psx_devices_def upd_gpu_def)
    show "ensures UNIV (\<lambda>(v, t). ?K s t) (mdec_read_data (psx_devices rd ?env) s)"
      "ensures UNIV (\<lambda>(v, t). ?K s t) (mdec_read_stat (psx_devices rd ?env) s)" for s
      using data[of s] by (simp_all add: psx_devices_def mdec_read_status_def Let_def upd_mdec_def)
    show "ensures UNIV (\<lambda>(v, t). ?K s t) (spu_read (psx_devices rd ?env) w a s)" for w a s
      using sound_port_related[of ?K] by (simp add: psx_devices_def sound_regs_kept)
  qed (auto simp: add_cycles_def bus_exception_def flag_exception_def Let_def split: option.split)
qed

interpretation sound_line: sound_requests "transfer_env os (devices n os rd) :: ('h, ('h, 'm) psx_cd_scheme) dma_env" UNIV
  for os :: "'h host_os" and n and rd :: renderer
  by unfold_locales (auto simp: sound_bus upd_ctl_def)

section \<open>The step of the system\<close>

lemma run_event_keeps:
  "cpu_view s = x \<Longrightarrow> same_view cpu_view x (run_event rd cb ud late s)"
proof -
  note any_env = machine_frame.video_keeps[OF devices_frame[OF devices_ok]]
    machine_frame.sectors_keep[OF devices_frame[OF devices_ok]]
  show "cpu_view s = x \<Longrightarrow> same_view cpu_view x (run_event rd cb ud late s)"
    by (cases cb) (simp_all add: run_event_def any_env cpu_part.serial_transfers cpu_part.responses_keep
        cpu_part.rules)
qed

lemma advance_keeps_view:
  assumes called: "\<And>cb ud late s. cpu_view s = x \<Longrightarrow> same_view cpu_view x (cb_run cb ud late s)" and s: "cpu_view s = x"
  shows "same_view cpu_view x (advance fuel cb_run n ign (s :: ('h, 'm) psx_cd_scheme))"
proof -
  have pop: "cpu_view s = x \<Longrightarrow> same_view cpu_view x (pop_event s)" for s :: "('h, 'm) psx_cd_scheme"
    by (simp add: pop_event_def drop_root_def cpu_part.rules cpu_part.fields)
  have fire: "cpu_view s = x \<Longrightarrow> same_view cpu_view x (fire_root cb_run t ign s)" for s t
    unfolding fire_root_def call_event_def Let_def
    by (rule called pop cpu_part.rules | simp add: cpu_part.fields)+
  have loop: "cpu_view s = x \<Longrightarrow> same_view cpu_view x (advance_loop fuel cb_run t ign s)" for s t
  proof (induction fuel arbitrary: s)
    case (Suc fuel)
    show ?case unfolding advance_loop.simps
      by (rule fire cpu_part.rules Suc.IH | simp add: Suc.prems)+
  qed (simp add: cpu_part.rules)
  show ?thesis unfolding advance_def Let_def
    by (rule loop cpu_part.rules | simp add: s cpu_part.fields)+
qed

lemma drain_keeps:
  "cpu_view s = x \<Longrightarrow> same_view cpu_view x (drain_callbacks n (transfer_env os (devices d os rd)) s)"
proof (induction n arbitrary: s)
  case 0
  then show ?case by (simp add: drain_callbacks.simps cpu_part.rules split: list.split)
next
  case (Suc n)
  show ?case
  proof (cases "sync_callback_buffer s")
    case (Cons cb rest)
    show ?thesis unfolding drain_callbacks.simps[of "Suc n"] Cons list.case nat.case
      by (rule transfers.mdec_requests cpu_part.rules Suc.IH | simp add: Suc.prems cpu_part.unit_fields)+
  qed (simp add: drain_callbacks.simps Suc.prems cpu_part.rules)
qed

text \<open>The rest of a step, after the instruction or the transfer, leaves the processor alone.\<close>

lemma after_work_keeps:
  fixes s :: "('h, 'm) psx_system_scheme"
  shows "ensures UNIV (same_cpu s)
    (bindE (advance fuel (run_event rd) cycles ign (s\<lparr>m_curr_cycles := c\<rparr>)) (\<lambda>s.
      let s = set_bus f s in drain_callbacks (length (sync_callback_buffer s)) (system_env os rd) s))"
  unfolding view_ensures[symmetric] system_env_def
  by (rule advance_keeps_view run_event_keeps drain_keeps cpu_part.rules | simp add: cpu_part.fields)+

lemma single_step_ok:
  fixes s :: "('h, 'm) psx_system_scheme"
  assumes "cpu_ok s"
  shows "ensures UNIV (\<lambda>s'. cpu_ok s' \<and> (rreg 0 s = 0 \<or> \<not> has_active_transfer s \<longrightarrow> rreg 0 s' = 0)) (single_step fuel os rd s)"
proof -
  have work: "ensures UNIV (\<lambda>t. cpu_ok t \<and> (rreg 0 s = 0 \<or> \<not> has_active_transfer s \<longrightarrow> rreg 0 t = 0)) (do_work os rd s)"
  proof (cases "has_active_transfer s")
    case True
    have "ensures UNIV (same_cpu s) (do_work os rd s)"
      unfolding do_work_def view_ensures[symmetric] system_env_def using True
      by simp (rule transfers.advance_keeps cpu_part.rules | simp add: cpu_part.fields)+
    then show ?thesis by (rule ensures_mono) (use True assms in \<open>auto simp: same_cpu_ok same_cpu_rreg\<close>)
  next
    case False
    then show ?thesis
      using whole.machine.step_ok[OF assms] by (simp add: do_work_def system_bus_def ensures_mono)
  qed
  show ?thesis
    unfolding single_step_def
  proof (rule ensures_bind[OF work])
    fix t :: "('h, 'm) psx_system_scheme"
    assume t: "cpu_ok t \<and> (rreg 0 s = 0 \<or> \<not> has_active_transfer s \<longrightarrow> rreg 0 t = 0)"
    note after = after_work_keeps[of t fuel rd "m_curr_cycles t" "m_event_ignore_overflow_cycles (bus t)" 0
        "\<lambda>b. b\<lparr>m_event_ignore_overflow_cycles := False\<rparr>" os]
    have "ensures UNIV (\<lambda>s'. cpu_ok s' \<and> (rreg 0 s = 0 \<or> \<not> has_active_transfer s \<longrightarrow> rreg 0 s' = 0))
      (bindE (advance fuel (run_event rd) (m_curr_cycles t) (m_event_ignore_overflow_cycles (bus t)) (t\<lparr>m_curr_cycles := 0\<rparr>)) (\<lambda>s.
        let s = set_bus (\<lambda>b. b\<lparr>m_event_ignore_overflow_cycles := False\<rparr>) s
        in drain_callbacks (length (sync_callback_buffer s)) (system_env os rd) s))"
      by (rule ensures_mono[OF after order_refl]) (use t in \<open>auto simp: same_cpu_ok same_cpu_rreg\<close>)
    then show "ensures UNIV (\<lambda>s'. cpu_ok s' \<and> (rreg 0 s = 0 \<or> \<not> has_active_transfer s \<longrightarrow> rreg 0 s' = 0))
      (let cycles = m_curr_cycles t; s = t\<lparr>m_curr_cycles := 0\<rparr> in
       bindE (advance fuel (run_event rd) cycles (m_event_ignore_overflow_cycles (bus s)) s) (\<lambda>s.
         let s = set_bus (\<lambda>b. b\<lparr>m_event_ignore_overflow_cycles := False\<rparr>) s
         in drain_callbacks (length (sync_callback_buffer s)) (system_env os rd) s))"
      by (simp add: Let_def)
  qed
qed

section \<open>Headers are in main memory\<close>

text \<open>
  The addresses a transfer takes its headers from have 24 bits: the base address, written by the program, and the
  link of the last header. No I/O port is below that, so a request never comes back to a device.
\<close>

definition low_channel :: "dma_channel \<Rightarrow> bool" where
  "low_channel c \<longleftrightarrow> m_base_address c < 0x1000000 \<and> m_next_block_add c < 0x1000000"

definition low_addresses :: "('h, 'm) psx_dma_scheme \<Rightarrow> bool" where
  "low_addresses s \<longleftrightarrow> (\<forall>c \<in> set (m_channels (m_dma_controller s)). low_channel c)"

lemma low_not_io:
  assumes "a < 0x1000000"
  shows "\<not> between_physical 0x1F801000 0x1F802000 a"
proof -
  have "physical_address a \<le> a" unfolding physical_address_def by (rule word_and_le2)
  then show ?thesis using assms by (auto simp: between_physical_def word_le_nat_alt word_less_nat_alt)
qed

lemma low_read: "a < 0x1000000 \<Longrightarrow> system_read os dev w e c a s = system_read os dev' w e c a s"
  by (simp add: system_read_def Let_def low_not_io)

lemma low_masked: "v AND 0xFFFFFF < (0x1000000 :: u32)" "v AND 0xFFFFFC < (0x1000000 :: u32)"
proof -
  have "v AND 0xFFFFFF \<le> 0xFFFFFF" "v AND 0xFFFFFC \<le> 0xFFFFFC" by (rule word_and_le1)+
  then show "v AND 0xFFFFFF < (0x1000000 :: u32)" "v AND 0xFFFFFC < (0x1000000 :: u32)"
    by (auto simp: word_le_nat_alt word_less_nat_alt)
qed

lemma low_update:
  assumes "low_addresses s" "\<And>c. low_channel c \<Longrightarrow> low_channel (f c)"
  shows "low_addresses (upd_channel k f s)"
proof (cases "k < length (m_channels (m_dma_controller s))")
  case True
  then show ?thesis
    using assms by (auto simp: low_addresses_def upd_channel_def upd_ctl_def dest!: subsetD[OF set_update_subset_insert])
next
  case False
  then show ?thesis using assms(1) by (simp add: low_addresses_def upd_channel_def upd_ctl_def list_update_beyond)
qed

lemma channels_length:
  "length (m_channels (m_dma_controller (upd_channel k f s))) = length (m_channels (m_dma_controller s))"
  by (simp add: upd_channel_def upd_ctl_def)

lemma low_channel_at:
  "low_addresses s \<Longrightarrow> k < length (m_channels (m_dma_controller s)) \<Longrightarrow> low_channel (channel k s)"
  by (simp add: low_addresses_def channel_def)

lemma low_read_controller:
  fixes s :: "('h, 'm) psx_cd_scheme"
  assumes "a < 0x1000000"
  shows "ensures UNIV (\<lambda>(v, t). m_dma_controller t = m_dma_controller s) (system_read os dev w e c a s)"
proof -
  have nb: "\<not> between_physical 0x1F801000 0x1F802000 a" by (rule low_not_io[OF assms])
  have load: "ensures UNIV (\<lambda>(v, t). m_dma_controller t = m_dma_controller s) (guest_load os w a (add_cycles b n s))"
    "ensures UNIV (\<lambda>(v, t). m_dma_controller t = m_dma_controller s) (guest_load os w a s)" for b n
    unfolding guest_load_def by (rule ensures_any, simp add: add_cycles_def)+
  show ?thesis
    unfolding system_read_def Let_def
    by (simp only: nb if_False, intro ensures_if load)
      (simp_all add: add_cycles_def bus_exception_def flag_exception_def split: option.split)
qed

lemma low_sync:
  assumes "low_addresses s" "m_curr_address (channel k s) < 0x1000000" "m_next_block_add (channel k s) < 0x1000000"
    "k < length (m_channels (m_dma_controller s))"
  shows "start_sync (transfer_env os dev) r k s = start_sync (transfer_env os dev') r k s"
    "ensures UNIV (\<lambda>(go, t). low_addresses t) (start_sync (transfer_env os dev) r k s)"
proof -
  have n: "m_next_block_add (channel k (upd_channel k (\<lambda>c. c\<lparr>m_curr_address := x\<rparr>) s)) < 0x1000000" for x
    using assms(3,4) by (simp add: channel_def upd_channel_def upd_ctl_def)
  note same = low_read[of _ os dev W32 False False _ dev']
  show "start_sync (transfer_env os dev) r k s = start_sync (transfer_env os dev') r k s"
    using same[OF assms(2)] same[OF assms(3)] same[OF n]
    by (simp add: start_sync_def dma_fetch_def Let_def)
  have fetch: "ensures UNIV (\<lambda>(go, t). low_addresses t)
      (bindE (system_read os dev W32 False False a u) (\<lambda>(header, t). Inr (True, upd_channel k (f header) t)))"
    if "a < 0x1000000" "low_addresses u" "\<And>h c. low_channel c \<Longrightarrow> low_channel (f h c)" for a u f
  proof (rule ensures_bind[OF low_read_controller[OF that(1)]])
    fix p :: "u32 \<times> ('c, 'd) psx_cd_scheme"
    assume "case p of (v, t) \<Rightarrow> m_dma_controller t = m_dma_controller u"
    then have "low_addresses (snd p)" using that(2) by (simp add: low_addresses_def split_beta)
    then show "ensures UNIV (\<lambda>(go, t). low_addresses t) (case p of (header, t) \<Rightarrow> Inr (True, upd_channel k (f header) t))"
      by (simp add: split_beta low_update that(3))
  qed
  have l: "low_addresses (upd_channel k f s)" if "\<And>c. low_channel c \<Longrightarrow> low_channel (f c)" for f
    using low_update[OF assms(1) that] .
  show "ensures UNIV (\<lambda>(go, t). low_addresses t) (start_sync (transfer_env os dev) r k s)"
    unfolding start_sync_def Let_def dma_fetch_def transfer_env_simps machine_bus_simps
    by (intro ensures_if fetch)
      (auto intro!: l low_update assms simp: low_channel_def take_header_def low_masked)
qed

lemma low_start:
  assumes low: "low_addresses s" and k: "k < length (m_channels (m_dma_controller s))"
  shows "transfer_start (transfer_env os dev) r k s = transfer_start (transfer_env os dev') r k s"
    "ensures UNIV low_addresses (transfer_start (transfer_env os dev) r k s)"
proof -
  define t where "t = upd_channel k (\<lambda>c. c\<lparr>m_transfer_active := True, m_shadow_base_address := m_base_address c,
      m_shadow_block_control := (if blocksize (m_block_control c) = 0 \<and> sync (m_control c) = BURST
        then 0x10000 else m_block_control c), m_curr_address := m_base_address c\<rparr>) s"
  have t: "low_addresses t" "k < length (m_channels (m_dma_controller t))"
    unfolding t_def by (rule low_update[OF low], simp add: low_channel_def) (simp add: k channels_length)
  have "m_curr_address (channel k t) = m_base_address (channel k t)"
    using k by (simp add: t_def channel_def upd_channel_def upd_ctl_def)
  then have c: "m_curr_address (channel k t) < 0x1000000" "m_next_block_add (channel k t) < 0x1000000"
    using low_channel_at[OF t] by (simp_all add: low_channel_def)
  note sync = low_sync[OF t(1) c t(2)]
  show "transfer_start (transfer_env os dev) r k s = transfer_start (transfer_env os dev') r k s"
    unfolding transfer_start_def Let_def t_def[symmetric] sync(1)[of os dev r dev'] ..
  have "ensures UNIV low_addresses (if \<not> go then Inr u
      else let s = upd_channel k (\<lambda>c. c\<lparr>m_control := put_flag 28 False (m_control c)\<rparr>) u
           in bindE (add_transfer k (m_dma_controller s)) (\<lambda>d.
                Inr (upd_channel k (\<lambda>c. c\<lparr>m_running := True\<rparr>) (s\<lparr>m_dma_controller := d\<rparr>))))"
    if "low_addresses u" for go and u :: "('a, 'b) psx_cd_scheme"
  proof -
    define v where "v = upd_channel k (\<lambda>c. c\<lparr>m_control := put_flag 28 False (m_control c)\<rparr>) u"
    have v: "low_addresses v" unfolding v_def by (rule low_update[OF that]) (simp add: low_channel_def)
    have a: "ensures UNIV (\<lambda>d. m_channels d = m_channels (m_dma_controller v)) (add_transfer k (m_dma_controller v))"
      by (simp add: add_transfer_def Let_def)
    have "ensures UNIV low_addresses (bindE (add_transfer k (m_dma_controller v)) (\<lambda>d.
        Inr (upd_channel k (\<lambda>c. c\<lparr>m_running := True\<rparr>) (v\<lparr>m_dma_controller := d\<rparr>))))"
      by (rule ensures_bind[OF a], simp, rule low_update)
        (use v in \<open>simp_all add: low_addresses_def low_channel_def\<close>)
    then show ?thesis using that by (simp add: v_def[symmetric])
  qed
  then show "ensures UNIV low_addresses (transfer_start (transfer_env os dev) r k s)"
    unfolding transfer_start_def Let_def t_def[symmetric]
    by (intro ensures_if ensures_bind[OF sync(2)]) (auto simp: low)
qed

text \<open>
  C12. A request of a device and a write to the controller come to the same result with any devices behind the bus of
  the transfer: the header is below every I/O port. The addresses stay that low, so the machine's bus need not
  be cut deeper than one level.
\<close>

theorem requests_reach_no_device:
  fixes s :: "('h, 'm) psx_cd_scheme"
  assumes low: "low_addresses s" and n: "length (m_channels (m_dma_controller s)) = 7" and k: "k < 7"
  shows "dreq_rising_edge (transfer_env os dev) k s = dreq_rising_edge (transfer_env os dev') k s \<and>
    dma_controller_write (transfer_env os dev) a v msk s = dma_controller_write (transfer_env os dev') a v msk s \<and>
    ensures UNIV low_addresses (dreq_rising_edge (transfer_env os dev) k s) \<and>
    ensures UNIV low_addresses (dma_controller_write (transfer_env os dev) a v msk s)"
proof -
  have k7: "j < 7 \<Longrightarrow> j < length (m_channels (m_dma_controller s))" for j using n by simp
  have wr: "channel_write (transfer_env os dev) j a v msk s = channel_write (transfer_env os dev') j a v msk s \<and>
      ensures UNIV low_addresses (channel_write (transfer_env os dev) j a v msk s)" if "j < 7" for j a
  proof -
    define u where "u x = upd_channel j (\<lambda>c. c\<lparr>m_control := x\<rparr>) s" for x
    have u: "low_addresses (u x)" "j < length (m_channels (m_dma_controller (u x)))" for x
      unfolding u_def by (rule low_update[OF low], simp add: low_channel_def) (simp add: channels_length k7 that)
    have eq: "transfer_start (transfer_env os dev) False j (u x) = transfer_start (transfer_env os dev') False j (u x)" for x
      by (rule low_start(1)[OF u])
    have base: "low_addresses (upd_channel j (\<lambda>c. c\<lparr>m_base_address := v AND 0xFFFFFF\<rparr>) s)"
      "low_addresses (upd_channel j (write_block_control v msk) s)"
      by (rule low_update[OF low]; simp add: low_channel_def low_masked write_block_control_def)+
    show ?thesis
      unfolding channel_write_def Let_def u_def[symmetric] eq
      by (intro conjI refl ensures_if) (simp_all add: base u low low_start(2)[OF u])
  qed
  then have wr2: "j < 7 \<Longrightarrow> ensures UNIV low_addresses (channel_write (transfer_env os dev) j b v msk s)" for j b
    by blast
  have chan: "channel_of a = Some j \<Longrightarrow> j < 7" for a j
    by (auto simp: channel_of_def Let_def split: if_splits)
  have "dma_controller_write (transfer_env os dev) a v msk s = dma_controller_write (transfer_env os dev') a v msk s"
    unfolding dma_controller_write_def using wr chan by (auto split: option.split)
  moreover have "ensures UNIV low_addresses (dma_controller_write (transfer_env os dev) a v msk s)"
    unfolding dma_controller_write_def
    by (intro ensures_if ensures_option) (simp_all add: low upd_ctl_def low_addresses_def[of "s\<lparr>m_dma_controller := _\<rparr>"]
        low[unfolded low_addresses_def] wr2 chan)
  ultimately show ?thesis
    using low_start[OF low k7[OF k]] low by (simp add: dreq_rising_edge_def Let_def)
qed

section \<open>Runs\<close>

lemma run_ok:
  fixes s :: "('h, 'm) psx_system_scheme"
  assumes "cpu_ok s" "rreg 0 s = 0"
  shows "ensures UNIV (\<lambda>s'. cpu_ok s' \<and> rreg 0 s' = 0) (run_interpreter n fuel os rd s)"
  using assms
proof (induction n arbitrary: s)
  case (Suc n)
  show ?case unfolding run_interpreter.simps
    by (rule ensures_bind[OF single_step_ok[OF Suc.prems(1)]]) (use Suc in simp)
qed simp

text \<open>The machine of the constructors.\<close>

lemma machine_new_fields [simp]:
  "pc (machine_new b simd v r) = 0" "rreg 0 (machine_new b simd v r) = 0" "bus (machine_new b simd v r) = b"
  "m_dma_controller (machine_new b simd v r) = dma_init simd" "m_break_enable (machine_new b simd v r) = False"
  "hook_flag (machine_new b simd v r) = False" "m_kernel (machine_new b simd v r) = kernel_new"
  "m_sio (machine_new b simd v r) = [sio_new, sio_new]"
  by (simp_all add: machine_new_def cpu.defs psx.defs psx_timers.defs psx_dma.defs psx_sio.defs psx_mdec.defs
      psx_gpu.defs psx_spu.defs psx_cd.defs psx_system.defs cpu_init_def scheduler.defs rreg_def)

lemma machine_new_ok: "cpu_ok (machine_new b simd v r)"
proof -
  show ?thesis
    by (simp add: cpu_ok_def frames_ok_def) (simp add: machine_new_def cpu.defs psx.defs psx_timers.defs psx_dma.defs
      psx_sio.defs psx_mdec.defs psx_gpu.defs psx_spu.defs psx_cd.defs psx_system.defs cpu_init_def scheduler.defs
      no_write_def InvalidReg_def stack_push_def empty_frames_def stack_new_def MAX_SYSCALL_FRAMES_def fake_entry_def
      gte_ok_def gte_init_def, presburger)
qed

lemma machine_new_low: "low_addresses (machine_new b simd v r)"
  by (auto simp: low_addresses_def dma_init_def low_channel_def dma_channel_init_def dest!: subsetD[OF set_update_subset_insert])

text \<open>
  C8. No step makes the processor's state ill formed, whatever the devices do: its 33 registers, the targets of the
  pending loads and writebacks, the geometry unit's registers and the stack of BIOS calls keep their types through
  instructions, transfers, callbacks and the decoder's queue, and register 0 stays zero.
\<close>

theorem machine_keeps_types:
  fixes s :: "('h, 'm) psx_system_scheme"
  assumes "cpu_ok s" "rreg 0 s = 0" "run_interpreter n fuel os rd s = Inr s'"
  shows "cpu_ok s' \<and> rreg 0 s' = 0"
  using run_ok[OF assms(1,2), of n fuel os rd] assms(3) by simp

text \<open>
  \<open>LoadExe\<close> waits for a hook in a loop around \<open>RunInterpreterUntilBreakpoint\<close>, which returns at once when
  breakpoints are off: then no instruction is executed and the loop never ends.
\<close>

theorem load_exe_waits_forever:
  fixes s :: "('h, 'm) psx_system_scheme"
  assumes "\<not> m_break_enable s"
  shows "run_bios n rounds fuel os rd s = Inl OutOfFuel"
proof -
  have "wait_for_hook n rounds fuel os rd t = Inl OutOfFuel" if "\<not> m_break_enable t" "\<not> hook_flag t"
    for t :: "('h, 'm) psx_system_scheme"
    using that
  proof (induction n arbitrary: t)
    case (Suc n)
    have "wait_for_hook n rounds fuel os rd (t\<lparr>system_stopped := False\<rparr>) = Inl OutOfFuel"
      using Suc.prems by (intro Suc.IH) simp_all
    then show ?case using Suc.prems
      by (simp add: wait_for_hook.simps[of "Suc n"] run_until_breakpoint_def)
  qed (simp add: wait_for_hook.simps)
  then show ?thesis using assms
    by (simp add: run_bios_def insert_exit_hook_def)
qed

text \<open>
  A hook that schedules its own removal is called once: after the exit of the call it is bound to, no hook with
  its identifier is left in the table, and the other hooks are still there.
\<close>

theorem scheduled_hook_is_removed:
  assumes "m_enable_hooks (m_kernel s)" "(call, i, Exceptions_hook i) \<in> set (m_syscall_exit_hooks (m_kernel s))"
  shows "\<forall>(c, j, h) \<in> set (m_syscall_exit_hooks (m_kernel (exit_syscall call s))). j \<noteq> i"
proof -
  let ?hs = "hooks_of call (m_syscall_exit_hooks (m_kernel s))"
  have exits: "m_syscall_exit_hooks (m_kernel (fold run_hook hs t)) = m_syscall_exit_hooks (m_kernel t)" for hs t
    by (induction hs arbitrary: t) (simp_all add: run_hook_def upd_kernel_def schedule_exit_hook_removal_def split: hook.split)
  have one: "set (exit_hooks_removal (m_kernel t)) \<subseteq> set (exit_hooks_removal (m_kernel (run_hook h t)))" for h t
    by (auto simp: run_hook_def upd_kernel_def schedule_exit_hook_removal_def split: hook.split)
  have grows: "set (exit_hooks_removal (m_kernel t)) \<subseteq> set (exit_hooks_removal (m_kernel (fold run_hook hs t)))" for hs t
  proof (induction hs arbitrary: t)
    case (Cons h hs)
    show ?case by (simp, rule subset_trans[OF one Cons.IH])
  qed simp
  have sched: "Exceptions_hook i \<in> set hs \<Longrightarrow> i \<in> set (exit_hooks_removal (m_kernel (fold run_hook hs t)))" for hs t
  proof (induction hs arbitrary: t)
    case (Cons h hs)
    have "h = Exceptions_hook i \<Longrightarrow> i \<in> set (exit_hooks_removal (m_kernel (run_hook h t)))"
      by (simp add: run_hook_def upd_kernel_def schedule_exit_hook_removal_def)
    then show ?case
      using Cons.prems Cons.IH[of "run_hook h t"] subsetD[OF grows, of i "run_hook h t" hs] by auto
  qed simp
  have "Exceptions_hook i \<in> set ?hs" using assms(2) by (force simp: hooks_of_def)
  from sched[OF this] show ?thesis
    using assms(1) by (auto simp: exit_syscall_def upd_kernel_def cleanup_exit_hooks_def removed_hooks)
qed

text \<open>
  A card file that does not exist is created, but the new file is empty and \<open>LoadFile\<close> wants the size of a card:
  the slot stays as it was.
\<close>

theorem created_card_is_rejected:
  assumes "files path = None" "ext path = Some ''.mc''" "creatable path" "slot = 0 \<or> slot = 1"
  shows "connect_card ext creatable openable files slot path s = (files(path \<mapsto> []), s)"
  using assms by (auto simp: connect_card_def load_file_def MEMCARD_SIZE_def Let_def)

section \<open>Concrete runs\<close>

definition sample_machine :: "(u32 \<Rightarrow> u32) psx_system" where
  "sample_machine = machine_new (memory_bus load_program) False (\<lambda>_. 0) ''AMERICA''"

lemma sample_machine_ok: "cpu_ok sample_machine" "rreg 0 sample_machine = 0" "low_addresses sample_machine"
  "length (m_channels (m_dma_controller sample_machine)) = 7" "\<not> m_break_enable sample_machine"
  by (simp_all add: sample_machine_def machine_new_ok machine_new_low) (simp add: dma_init_def)

lemma sample_runs: "\<not> isl (run_interpreter 1 1 memory_os (\<lambda>_ v. v) sample_machine)"
  by code_simp

theorem machine_keeps_types_witness:
  "\<exists>s'. run_interpreter 1 1 memory_os (\<lambda>_ v. v) sample_machine = Inr s' \<and> cpu_ok s' \<and> rreg 0 s' = 0"
proof -
  obtain s' where "run_interpreter 1 1 memory_os (\<lambda>_ v. v) sample_machine = Inr s'"
    using sample_runs by (cases "run_interpreter 1 1 memory_os (\<lambda>_ v. v) sample_machine") auto
  with machine_keeps_types[OF sample_machine_ok(1,2)] show ?thesis by blast
qed

text \<open>Channel 2 set up for a linked list at address 0, as the graphics unit would ask for it.\<close>

definition listed_machine :: "(u32 \<Rightarrow> u32) psx_system" where
  "listed_machine = upd_ctl (\<lambda>d. d\<lparr>dpcr := 0x0FFFFFFF\<rparr>) (upd_channel 2 (\<lambda>c. c\<lparr>m_control := 0x01000401\<rparr>) sample_machine)"

theorem requests_reach_no_device_witness:
  "dreq_rising_edge (transfer_env memory_os (devices 0 memory_os (\<lambda>_ v. v))) 2 listed_machine =
   dreq_rising_edge (transfer_env memory_os (devices 2 memory_os (\<lambda>_ v. v))) 2 listed_machine"
proof -
  have "low_addresses listed_machine = low_addresses (upd_channel 2 (\<lambda>c. c\<lparr>m_control := 0x01000401\<rparr>) sample_machine)"
    by (simp add: listed_machine_def low_addresses_def upd_ctl_def)
  also have "\<dots>" by (rule low_update[OF sample_machine_ok(3)]) (simp add: low_channel_def)
  finally have "low_addresses listed_machine" by simp
  moreover have "length (m_channels (m_dma_controller listed_machine)) = 7"
    using sample_machine_ok(4) by (simp add: listed_machine_def upd_ctl_def upd_channel_def)
  ultimately show ?thesis
    using requests_reach_no_device[where s = listed_machine and k = 2 and os = memory_os and a = 0 and v = 0 and msk = 0
        and dev = "devices 0 memory_os (\<lambda>_ v. v)" and dev' = "devices 2 memory_os (\<lambda>_ v. v)"] by simp
qed

theorem load_exe_waits_forever_witness:
  "run_bios 9 9 9 memory_os (\<lambda>_ v. v) sample_machine = Inl OutOfFuel"
  by (rule load_exe_waits_forever[OF sample_machine_ok(5)])

definition hooked_machine :: "(u32 \<Rightarrow> u32) psx_system" where
  "hooked_machine = upd_kernel (\<lambda>k. snd (insert_exit_hook 0xC07 (Exceptions_hook 0) (k\<lparr>m_enable_hooks := True\<rparr>))) sample_machine"

theorem scheduled_hook_is_removed_witness:
  "(0xC07, 0, Exceptions_hook 0) \<in> set (m_syscall_exit_hooks (m_kernel hooked_machine)) \<and>
   (0xC07, 0, Exceptions_hook 0) \<notin> set (m_syscall_exit_hooks (m_kernel (exit_syscall 0xC07 hooked_machine)))"
proof -
  have h: "m_enable_hooks (m_kernel hooked_machine)"
    "(0xC07, 0, Exceptions_hook 0) \<in> set (m_syscall_exit_hooks (m_kernel hooked_machine))"
    by (simp_all add: hooked_machine_def upd_kernel_def insert_exit_hook_def sample_machine_def kernel_new_def)
  from scheduled_hook_is_removed[OF h] h(2) show ?thesis by auto
qed

theorem created_card_is_rejected_witness:
  "connect_card (\<lambda>_. Some ''.mc'') (\<lambda>_. True) (\<lambda>_. True) Map.empty 0 ''new.mc'' (plug_drivers sample_machine) =
   ([''new.mc'' \<mapsto> []], plug_drivers sample_machine)"
  by (rule created_card_is_rejected) simp_all

end
