(* ===== verification/CdSpec.thy ===== *)
theory CdSpec
  imports Cd
begin

text \<open>
  What the addresses, the cue sheets and the disc images of \<open>Cd\<close> promise: addresses and sector numbers are the same
  thing, a sector is read from the file and the place its track says, a cue sheet describes the tracks that were written
  into it, and reading one ends whatever the file holds.
\<close>

section \<open>Addresses\<close>

text \<open>A valid address: seconds and sectors in range, minutes such that no product wraps.\<close>

definition cd_ok :: "cd_location \<Rightarrow> bool" where
  "cd_ok l \<longleftrightarrow> mm l < 0x10000000000 \<and> ss l < 60 \<and> sect l < 75"

definition sector_number :: "cd_location \<Rightarrow> nat" where
  "sector_number l = (unat (mm l) * 60 + unat (ss l)) * 75 + unat (sect l)"

lemma unat_mult_small: "unat (a :: u64) * unat b < 2 ^ 64 \<Longrightarrow> unat (a * b) = unat a * unat b"
  by (simp add: unat_word_ariths)

lemma unat_add_small: "unat (a :: u64) + unat b < 2 ^ 64 \<Longrightarrow> unat (a + b) = unat a + unat b"
  by (simp add: unat_word_ariths)

lemma cd_ok_nat: "cd_ok l \<longleftrightarrow> unat (mm l) < 0x10000000000 \<and> unat (ss l) < 60 \<and> unat (sect l) < 75"
  by (simp add: cd_ok_def word_less_nat_alt)

lemma to_sect_nat:
  assumes "cd_ok l"
  shows "unat (to_sect l) = sector_number l"
proof -
  have b: "unat (mm l) < 0x10000000000" "unat (ss l) < 60" "unat (sect l) < 75" using assms by (simp_all add: cd_ok_nat)
  have m: "unat (mm l * 60) = unat (mm l) * 60" using b(1) by (subst unat_mult_small) simp_all
  have m2: "unat (mm l * 60 * 75) = unat (mm l) * 60 * 75" using b(1) m by (subst unat_mult_small) simp_all
  have s: "unat (ss l * 75) = unat (ss l) * 75" using b(2) by (subst unat_mult_small) simp_all
  have ms: "unat (mm l * 60 * 75 + ss l * 75) = unat (mm l) * 60 * 75 + unat (ss l) * 75"
    using b m2 s by (subst unat_add_small) simp_all
  have "unat (to_sect l) = unat (mm l) * 60 * 75 + unat (ss l) * 75 + unat (sect l)"
    unfolding to_sect_def cd_sizes using b ms by (subst unat_add_small) simp_all
  then show ?thesis by (simp add: sector_number_def algebra_simps)
qed

lemma sector_number_bound: "cd_ok l \<Longrightarrow> sector_number l < 0x11940000000000"
  by (simp add: cd_ok_nat sector_number_def)

lemma to_lba_nat:
  assumes "cd_ok l"
  shows "unat (to_lba l) = sector_number l * 2352"
proof -
  have "to_lba l = to_sect l * 2352" by (simp add: to_lba_def to_sect_def cd_sizes)
  moreover have "unat (to_sect l * 2352) = unat (to_sect l) * 2352"
    using sector_number_bound[OF assms] by (subst unat_mult_small) (simp_all add: to_sect_nat assms)
  ultimately show ?thesis by (simp add: to_sect_nat assms)
qed

lemma cd_after_nat: "cd_ok a \<Longrightarrow> cd_ok b \<Longrightarrow> cd_after a b \<longleftrightarrow> sector_number a > sector_number b"
  by (simp add: cd_after_def word_less_nat_alt to_lba_nat)

lemma cd_location_eqI:
  "unat (mm a) = unat (mm b) \<Longrightarrow> unat (ss a) = unat (ss b) \<Longrightarrow> unat (sect a) = unat (sect b) \<Longrightarrow> a = (b :: cd_location)"
  by (cases a; cases b) (simp add: word_unat_eq_iff)

lemma split_digits:
  assumes "s < (75::nat)" and "c < (60::nat)"
  shows "((m * 60 + c) * 75 + s) div 75 = m * 60 + c" "((m * 60 + c) * 75 + s) mod 75 = s"
    "(m * 60 + c) div 60 = m" "(m * 60 + c) mod 60 = c"
  using assms div_mult_self3[of 75 "m * 60 + c" s] mod_mult_self3[of "m * 60 + c" 75 s]
    div_mult_self3[of 60 m c] mod_mult_self3[of m 60 c] by (simp_all only: div_less mod_less add_0_right)

lemma from_lba_nat:
  "unat (mm (from_lba a)) = unat a div 2352 div 75 div 60"
  "unat (ss (from_lba a)) = unat a div 2352 div 75 mod 60"
  "unat (sect (from_lba a)) = unat a div 2352 mod 75"
  by (simp_all add: from_lba_def cd_sizes cd_loc_def Let_def unat_div unat_mod)

lemma sect_to_location_nat:
  "unat (mm (sect_to_location n)) = unat n div 75 div 60"
  "unat (ss (sect_to_location n)) = unat n div 75 mod 60"
  "unat (sect (sect_to_location n)) = unat n mod 75"
  by (simp_all add: sect_to_location_def cd_sizes cd_loc_def Let_def unat_div unat_mod word_le_nat_alt)

lemma sect_to_location_number: "sector_number (sect_to_location n) = unat n"
  by (simp add: sector_number_def sect_to_location_nat)

lemma sect_to_location_ok: "unat n < 0x11940000000000 \<Longrightarrow> cd_ok (sect_to_location n)"
  by (simp add: cd_ok_nat sect_to_location_nat)

lemma cd_sub_nat:
  assumes "cd_ok a" and "cd_ok b"
  shows "sector_number (cd_sub a b) = sector_number a - sector_number b" "cd_ok (cd_sub a b)"
proof -
  have n: "\<not> to_sect a < to_sect b \<Longrightarrow> unat (to_sect a - to_sect b) = sector_number a - sector_number b"
    by (simp add: unat_sub word_less_nat_alt word_le_nat_alt not_less to_sect_nat assms)
  show "sector_number (cd_sub a b) = sector_number a - sector_number b"
    using n by (auto simp: cd_sub_def sect_to_location_number word_less_nat_alt to_sect_nat assms cd_loc_def sector_number_def[of "\<lparr>mm = 0, ss = 0, sect = 0\<rparr>"])
  show "cd_ok (cd_sub a b)"
    using n sector_number_bound[OF assms(1)]
    by (auto simp: cd_sub_def cd_loc_def cd_ok_def[of "\<lparr>mm = 0, ss = 0, sect = 0\<rparr>"] intro!: sect_to_location_ok)
qed

lemma cd_next_number:
  assumes "cd_ok l" and "unat (mm l) < 74"
  shows "sector_number (cd_next l) = (sector_number l + 1) mod 333000" "cd_ok (cd_next l)" "unat (mm (cd_next l)) < 74"
proof -
  have b: "unat (ss l) < 60" "unat (sect l) < 75" using assms(1) by (simp_all add: cd_ok_nat)
  have p: "unat (mm l + 1) = unat (mm l) + 1" "unat (ss l + 1) = unat (ss l) + 1" "unat (sect l + 1) = unat (sect l) + 1"
    using b assms(2) by (simp_all add: unat_word_ariths)
  have c1: "sect l + 1 \<ge> 75 \<longleftrightarrow> unat (sect l) = 74" "ss l + 1 \<ge> 60 \<longleftrightarrow> unat (ss l) = 59" "mm l + 1 \<ge> 74 \<longleftrightarrow> unat (mm l) = 73"
    "\<not> ss l \<ge> 60" "\<not> mm l \<ge> 74"
    using b assms(2) by (auto simp: word_le_nat_alt p)
  have z: "unat (sect l) = 74 \<Longrightarrow> (sect l + 1) mod 75 = 0" "unat (ss l) = 59 \<Longrightarrow> (ss l + 1) mod 60 = 0"
    by (simp_all add: word_unat_eq_iff unat_mod p)
  have "sector_number (cd_next l) = (sector_number l + 1) mod 333000 \<and> cd_ok (cd_next l) \<and> unat (mm (cd_next l)) < 74"
  proof (cases "unat (sect l) = 74")
    case False
    then have n: "cd_next l = l\<lparr>sect := sect l + 1\<rparr>" by (simp add: cd_next_def cd_sizes c1 Let_def)
    have "unat (sect l) < 74" using b False by simp
    then have "sector_number l + 1 < 333000" using b assms(2) by (simp add: sector_number_def)
    then show ?thesis using b False assms(2) by (simp add: n sector_number_def cd_ok_nat p)
  next
    case t: True
    show ?thesis
    proof (cases "unat (ss l) = 59")
      case False
      then have n: "cd_next l = l\<lparr>ss := ss l + 1, sect := 0\<rparr>" using t by (simp add: cd_next_def cd_sizes c1 Let_def z)
      have "unat (ss l) < 59" using b False by simp
      then have "sector_number l + 1 < 333000" using t assms(2) by (simp add: sector_number_def)
      then show ?thesis using b t False assms(2) by (simp add: n sector_number_def cd_ok_nat p)
    next
      case u: True
      have n: "cd_next l = (if unat (mm l) = 73 then l\<lparr>mm := 0, ss := 0, sect := 0\<rparr> else l\<lparr>mm := mm l + 1, ss := 0, sect := 0\<rparr>)"
        using t u by (simp add: cd_next_def cd_sizes c1 Let_def z)
      show ?thesis
      proof (cases "unat (mm l) = 73")
        case True then show ?thesis by (simp add: n sector_number_def cd_ok_nat t u)
      next
        case False
        then have "unat (mm l) < 73" using assms(2) by simp
        then have "sector_number l + 1 < 333000" using t u by (simp add: sector_number_def)
        then show ?thesis using False t u assms(2) by (simp add: n sector_number_def cd_ok_nat p)
      qed
    qed
  qed
  then show "sector_number (cd_next l) = (sector_number l + 1) mod 333000" "cd_ok (cd_next l)" "unat (mm (cd_next l)) < 74"
    by blast+
qed

text \<open>
  C15. An address and its byte offset on the disc determine each other: the address of any byte of a sector is the
  address of the sector, the offset of the address of a byte is the start of its sector, and the operator that steps to
  the next sector counts through all 333000 sectors of a disc and returns to the first one.
\<close>
theorem disc_addresses_roundtrip:
  assumes l: "cd_ok l" and a: "a < 2352" and b: "b < 0x8000000000000000" and m: "mm l < 74"
  shows "from_lba (to_lba l + a) = l \<and> to_lba (from_lba b) = b - b mod 2352 \<and>
    sector_number (cd_next l) = (sector_number l + 1) mod 333000 \<and> cd_ok (cd_next l)"
proof -
  have s: "unat (ss l) < 60" "unat (sect l) < 75" using l by (simp_all add: cd_ok_nat)
  have n: "unat (to_lba l + a) = sector_number l * 2352 + unat a"
    using a sector_number_bound[OF l] by (subst unat_add_small) (simp_all add: to_lba_nat[OF l] word_less_nat_alt)
  have d: "(sector_number l * 2352 + unat a) div 2352 = sector_number l"
    using a by (simp add: word_less_nat_alt)
  have round: "from_lba (to_lba l + a) = l"
    by (rule cd_location_eqI) (simp_all only: from_lba_nat n d, simp_all only: sector_number_def split_digits(1,2)[OF s(2,1)] split_digits(3,4)[OF s(2,1)])
  have ok: "cd_ok (from_lba b)" using b by (simp add: cd_ok_nat from_lba_nat word_less_nat_alt)
  have "sector_number (from_lba b) = unat b div 2352" by (simp add: sector_number_def from_lba_nat)
  then have "unat (to_lba (from_lba b)) = unat b - unat b mod 2352"
    by (simp add: to_lba_nat[OF ok] minus_mod_eq_div_mult)
  moreover have "b mod 2352 \<le> b" by (simp add: word_le_nat_alt unat_mod)
  then have "unat (b - b mod 2352) = unat b - unat b mod 2352" by (simp add: unat_sub unat_mod)
  ultimately have "to_lba (from_lba b) = b - b mod 2352" by (simp only: word_unat_eq_iff)
  with round cd_next_number(1,2)[OF l] m show ?thesis by (simp add: word_less_nat_alt)
qed

theorem disc_addresses_roundtrip_witness:
  "from_lba (to_lba (cd_loc 2 59 74) + 24) = cd_loc 2 59 74 \<and> to_lba (from_lba 100000) = 98784 \<and>
    sector_number (cd_next (cd_loc 2 59 74)) = 13500"
proof -
  have "cd_ok (cd_loc 2 59 74)" "mm (cd_loc 2 59 74) < 74" by (simp_all add: cd_ok_def cd_loc_def)
  from disc_addresses_roundtrip[where a = 24 and b = 100000, OF this(1) _ _ this(2)] show ?thesis
    by (simp add: sector_number_def cd_loc_def)
qed

section \<open>Sectors of an image\<close>

text \<open>The tracks begin at valid addresses, in order, and \<open>k\<close> is the one an address lies in.\<close>

definition tracks_ordered :: "track list \<Rightarrow> bool" where
  "tracks_ordered ts \<longleftrightarrow> (\<forall>t \<in> set ts. cd_ok (track_begin t)) \<and> sorted_wrt (<) (map (sector_number \<circ> track_begin) ts)"

definition lies_in :: "nat \<Rightarrow> track list \<Rightarrow> cd_location \<Rightarrow> bool" where
  "lies_in k ts l \<longleftrightarrow> k < length ts \<and> sector_number (track_begin (ts ! k)) \<le> sector_number l \<and>
     (k + 1 < length ts \<longrightarrow> sector_number l < sector_number (track_begin (ts ! (k + 1))))"

lemma track_number_found:
  assumes "k < length ts" "cd_after (track_begin (ts ! k)) l" "\<And>j. j < k \<Longrightarrow> \<not> cd_after (track_begin (ts ! j)) l"
  shows "track_number_from i l ts = Some (i + of_nat k - 1)"
  using assms
proof (induction ts arbitrary: i k)
  case (Cons t ts)
  show ?case
  proof (cases k)
    case 0 then show ?thesis using Cons.prems(2) by simp
  next
    case (Suc j)
    have "track_number_from (i + 1) l ts = Some (i + 1 + of_nat j - 1)"
      using Cons.prems(1,2) Suc Cons.prems(3)[of "Suc j'" for j'] by (intro Cons.IH) simp_all
    moreover have "\<not> cd_after (track_begin t) l" using Cons.prems(3)[of 0] Suc by simp
    ultimately show ?thesis using Suc by (simp add: algebra_simps)
  qed
qed simp

lemma track_number_missing:
  "(\<And>t. t \<in> set ts \<Longrightarrow> \<not> cd_after (track_begin t) l) \<Longrightarrow> track_number_from i l ts = None"
  by (induction ts arbitrary: i) auto

lemma get_track_number_lies:
  assumes ts: "tracks_ordered (m_tracks c)" and l: "cd_ok l" and k: "lies_in k (m_tracks c) l"
  shows "get_track_number l c = of_nat k"
proof -
  let ?ts = "m_tracks c"
  have kl: "k < length ?ts" using k by (simp add: lies_in_def)
  have after: "cd_after (track_begin (?ts ! j)) l \<longleftrightarrow> sector_number l < sector_number (track_begin (?ts ! j))" if "j < length ?ts" for j
    using ts l that by (simp add: tracks_ordered_def cd_after_nat)
  have le: "sector_number (track_begin (?ts ! j)) \<le> sector_number (track_begin (?ts ! k))" if "j \<le> k" for j
    using ts that kl by (cases "j = k") (auto simp: tracks_ordered_def sorted_wrt_iff_nth_less less_imp_le)
  have no: "\<not> cd_after (track_begin (?ts ! j)) l" if "j \<le> k" for j
    using le[OF that] k that kl after[of j] by (simp add: lies_in_def)
  show ?thesis
  proof (cases "k + 1 < length ?ts")
    case True
    then have "track_number_from 0 l ?ts = Some (0 + of_nat (k + 1) - 1)"
      using after[of "k + 1"] k no by (intro track_number_found) (auto simp: lies_in_def)
    then show ?thesis by (simp add: get_track_number_def)
  next
    case False
    then have len: "length ?ts = k + 1" using kl by simp
    have "track_number_from 0 l ?ts = None"
      using no len by (intro track_number_missing) (auto simp: in_set_conv_nth)
    then show ?thesis by (simp add: get_track_number_def len)
  qed
qed

text \<open>
  C11. A sector is read from its track: for an address behind the two seconds of lead-in, in the k-th of a table of tracks
  that begin in order, \<open>ReadSector\<close> delivers the 2352 bytes of the track's file that follow its offset by 2352 times the
  distance of the address from the begin of the track, and leaves the image as it was; \<open>ReadSectorData\<close> delivers the
  2048 data bytes among them.
\<close>
theorem sector_is_read:
  assumes ts: "tracks_ordered (m_tracks c)" and l: "cd_ok l" and k: "lies_in k (m_tracks c) l"
    and lead: "mm l \<noteq> 0 \<or> 2 \<le> ss l" and few: "length (m_tracks c) < 2 ^ 64"
    and pos: "pos = (sector_number l - sector_number (track_begin (m_tracks c ! k))) * 2352 + unat (file_offset (m_tracks c ! k))"
    and bytes: "f = m_cd_files c (track_path (m_tracks c ! k))" "pos + 2352 \<le> length f" "length f < 2 ^ 64"
    and works: "track_path (m_tracks c ! k) \<notin> set (m_failed_streams c)"
    and buf: "length b = 2352" "length d = 2352"
  shows "read_sector l b c = Inr (take 2352 (drop pos f), c) \<and>
    read_sector_data l d c = Inr (take 2048 (drop (pos + 24) f) @ drop 2048 d, c)"
proof -
  let ?t = "m_tracks c ! k"
  have kl: "k < length (m_tracks c)" using k by (simp add: lies_in_def)
  have tr: "get_track (get_track_number l c) c = Inr ?t"
    using kl few by (simp add: get_track_number_lies[OF ts l k] get_track_def unsigned_of_nat take_bit_nat_eq_self)
  have tok: "cd_ok (track_begin ?t)" using ts kl by (simp add: tracks_ordered_def)
  have off: "unat (to_lba (cd_sub l (track_begin ?t))) = (sector_number l - sector_number (track_begin ?t)) * 2352"
    by (simp add: to_lba_nat cd_sub_nat[OF l tok])
  have p: "unat (to_lba (cd_sub l (track_begin ?t)) + file_offset ?t) = pos"
    using bytes(2,3) by (subst unat_add_small) (simp_all add: off pos)
  have size: "get_file_size (get_track_number l c) c = Inr (of_nat (length f))"
    by (simp add: get_file_size_def tr bytes(1)[symmetric])
  have inside: "\<not> of_nat (length f) \<le> to_lba (cd_sub l (track_begin ?t)) + file_offset ?t"
    using bytes(2,3) by (simp add: word_le_nat_alt p unsigned_of_nat take_bit_nat_eq_self)
  have "\<not> (mm l = 0 \<and> ss l < 2)" using lead by auto
  then have read: "read_sector l x c = Inr (take 2352 (drop pos f), c)" if "length x = 2352" for x
    using works bytes(2) that
    by (simp add: read_sector_def Let_def tr size inside p read_stream_def cd_sizes bytes(1)[symmetric])
  have "read_sector_data l d c = Inr (take 2048 (drop (pos + 24) f) @ drop 2048 d, c)"
    using bytes(2) by (simp add: read_sector_data_def read empty_sector_def sector_data_def cd_sizes drop_take min_def add.commute)
  then show ?thesis using read[OF buf(1)] by blast
qed

definition sample_track :: "u64 \<Rightarrow> track_type \<Rightarrow> cd_location \<Rightarrow> u64 \<Rightarrow> track" where
  "sample_track n ty b off = (new_track n ty)\<lparr>track_begin := b, track_path := ''disc.bin'', file_offset := off\<rparr>"

text \<open>Two sectors of data and one of sound.\<close>

definition sample_image :: cue_bin where
  "sample_image = \<lparr>m_tracks = [sample_track 1 MODE2_2352 (cd_loc 0 2 0) 0, sample_track 2 AUDIO (cd_loc 0 2 2) 4704],
     m_cd_files = (\<lambda>_. replicate 2352 1 @ replicate 2352 2 @ replicate 2352 3), m_failed_streams = []\<rparr>"

theorem sector_is_read_witness:
  "read_sector (cd_loc 0 2 1) empty_sector sample_image = Inr (replicate 2352 2, sample_image)"
proof -
  have "tracks_ordered (m_tracks sample_image)" "cd_ok (cd_loc 0 2 1)" "lies_in 0 (m_tracks sample_image) (cd_loc 0 2 1)"
    by (simp_all add: tracks_ordered_def lies_in_def sample_image_def sample_track_def new_track_def cd_ok_def cd_loc_def sector_number_def)
  from sector_is_read[OF this, where pos = 2352 and b = empty_sector and d = empty_sector] show ?thesis
    by (simp add: sample_image_def sample_track_def new_track_def cd_loc_def sector_number_def empty_sector_def cd_sizes)
qed

section \<open>Reading a cue sheet ends\<close>

lemma substr_ensures: "ensures {Thrown} (\<lambda>_. True) (substr a n l)" "ensures {Thrown} (\<lambda>_. True) (substr_from a l)"
  by (simp_all add: substr_def substr_from_def ensures_def)

lemma word_ensures:
  "ensures {Thrown} (\<lambda>_. True) (first_word l)"
  "ensures {Thrown} (\<lambda>_. True) (second_word l)"
  "ensures {Thrown} (\<lambda>_. True) (get_cd_position k l)"
  unfolding first_word_def second_word_def get_cd_position_def Let_def
  by (auto intro!: substr_ensures ensures_bind[OF substr_ensures(1)] ensures_bind[OF substr_ensures(2)] simp: ensures_def[of _ _ "Inr _"])

lemmas cue_bind = ensures_bind[OF substr_ensures(1)] ensures_bind[OF substr_ensures(2)] ensures_bind[OF word_ensures(1)]
  ensures_bind[OF word_ensures(2)] ensures_bind[OF word_ensures(3)]

lemma ensures_cases:
  "(x = None \<Longrightarrow> ensures F P a) \<Longrightarrow> (\<And>y. x = Some y \<Longrightarrow> ensures F P (f y)) \<Longrightarrow> ensures F P (case x of None \<Rightarrow> a | Some y \<Rightarrow> f y)"
  by (cases x) simp_all

lemma ensures_pair: "(\<And>a b. x = (a, b) \<Longrightarrow> ensures F P (f a b)) \<Longrightarrow> ensures F P (case x of (a, b) \<Rightarrow> f a b)"
  by (cases x) simp

lemmas cue_rules = ensures_if cue_bind ensures_cases ensures_pair

text \<open>A track keeps what it has: with an index it stays one with an index, and nothing else is added to the sheet.\<close>

lemma track_lines_ensures:
  "ensures {Thrown} (\<lambda>(t, rest). length rest \<le> length ls) (track_lines t pre post ls)"
proof (induction ls arbitrary: t pre post)
  case (Cons l ls)
  have IH: "ensures {Thrown} (\<lambda>(t, rest). length rest \<le> length (l # ls)) (track_lines t pre post ls)" for t pre post
    by (rule ensures_mono[OF Cons.IH]) auto
  show ?case
    unfolding track_lines.simps by (intro cue_rules IH) simp_all
qed simp

lemma read_track_entry_ensures:
  "ensures {Thrown} (\<lambda>(t, rest). length rest \<le> length ls \<and> (\<forall>x. t = Some x \<longrightarrow> indexes x \<noteq> [] \<and> length rest < length ls))
     (read_track_entry ls)"
proof (cases ls)
  case (Cons l ls')
  have tl: "ensures {Thrown} (\<lambda>(t, rest). length rest < length (l # ls')) (track_lines t pre post ls')" for t pre post
    by (rule ensures_mono[OF track_lines_ensures]) auto
  show ?thesis
    unfolding read_track_entry_def Cons list.case Let_def
    by (intro cue_rules ensures_bind[OF tl]) (auto split: option.splits)
qed (simp add: read_track_entry_def)

lemma place_track_path:
  assumes "\<forall>t \<in> set (snd acc). indexes t \<noteq> [] \<and> P (track_path t)" "indexes t \<noteq> []" "P path"
  shows "\<forall>t \<in> set (snd (place_track path t acc)). indexes t \<noteq> [] \<and> P (track_path t)"
  using assms by (cases acc) (auto simp: place_track_def Let_def split: option.splits)

lemma read_tracks_ensures:
  assumes "length ls < n" "P path" "\<forall>t \<in> set (snd acc). indexes t \<noteq> [] \<and> P (track_path t)"
  shows "ensures {Thrown} (\<lambda>(ts, rest). length rest \<le> length ls \<and> (\<forall>t \<in> set ts. indexes t \<noteq> [] \<and> P (track_path t)))
     (read_tracks n path acc ls)"
  using assms
proof (induction n path acc ls rule: read_tracks.induct)
  case (2 n path acc ls)
  show ?case
    unfolding read_tracks.simps
  proof (rule ensures_bind[OF read_track_entry_ensures], intro ensures_pair ensures_cases)
    fix x :: "track option \<times> string list" and t rest y
    assume r: "case x of (t, rest) \<Rightarrow> length rest \<le> length ls \<and> (\<forall>x. t = Some x \<longrightarrow> indexes x \<noteq> [] \<and> length rest < length ls)"
      and x: "x = (t, rest)" and t: "t = Some y"
    have "ensures {Thrown} (\<lambda>(ts, rest'). length rest' \<le> length rest \<and> (\<forall>t \<in> set ts. indexes t \<noteq> [] \<and> P (track_path t)))
      (read_tracks n path (place_track path y acc) rest)"
      by (rule "2.IH"[OF t]) (use r x t "2.prems" place_track_path[of acc P y path] in auto)
    then show "ensures {Thrown} (\<lambda>(ts, rest). length rest \<le> length ls \<and> (\<forall>t \<in> set ts. indexes t \<noteq> [] \<and> P (track_path t)))
      (read_tracks n path (place_track path y acc) rest)"
      by (rule ensures_mono) (use r x t in auto)
  qed (use "2.prems"(3) in auto)
qed simp

definition tracks_sound :: "host_files \<Rightarrow> track list \<Rightarrow> bool" where
  "tracks_sound host ts \<longleftrightarrow> (\<forall>t \<in> set ts. indexes t \<noteq> [] \<and> regular_file host (track_path t))"

lemma read_file_entry_ensures:
  assumes "tracks_sound host ts"
  shows "ensures {Thrown, UndefinedBehaviour}
    (\<lambda>(ok, ts, rest). tracks_sound host ts \<and> (ok \<longrightarrow> length rest < length ls)) (read_file_entry host cue ts ls)"
proof (cases ls)
  case (Cons l ls')
  have tr: "ensures {Thrown} (\<lambda>(ts, rest). length rest < length (l # ls') \<and> tracks_sound host ts)
      (read_tracks (Suc (length ls')) path (off, ts) ls')" if "regular_file host path" for path off
    unfolding tracks_sound_def
    by (rule ensures_mono[OF read_tracks_ensures[where P = "regular_file host"]])
      (use that assms in \<open>auto simp: tracks_sound_def\<close>)
  have "ensures {Thrown} (\<lambda>(ok, ts, rest). tracks_sound host ts \<and> (ok \<longrightarrow> length rest < length ls)) (read_file_entry host cue ts ls)"
    unfolding read_file_entry_def Cons list.case Let_def
    by (intro cue_bind ensures_cond ensures_bind[OF tr]) (use assms in auto)
  then show ?thesis by (rule ensures_mono) auto
qed (simp add: read_file_entry_def)

lemma read_entries_ensures:
  "length ls < n \<Longrightarrow> tracks_sound host ts \<Longrightarrow>
    ensures {Thrown, UndefinedBehaviour} (\<lambda>(ok, ts). tracks_sound host ts) (read_entries n host cue ts ls)"
proof (induction n host cue ts ls rule: read_entries.induct)
  case (2 n host cue ts ls)
  show ?case
  proof (cases ls)
    case (Cons l ls')
    let ?rest = "if is_remark l then ls' else l # ls'"
    have "ensures {Thrown, UndefinedBehaviour} (\<lambda>(ok, ts). tracks_sound host ts)
      (bindE (read_file_entry host cue ts ?rest) (\<lambda>(ok, ts, rest). if \<not> ok then Inr (False, ts) else read_entries n host cue ts rest))"
    proof (rule ensures_bind[OF read_file_entry_ensures[OF "2.prems"(2)]], intro ensures_pair ensures_cond)
      fix x :: "bool \<times> track list \<times> string list" and ok tr ts' rest
      assume "case x of (ok, ts, rest) \<Rightarrow> tracks_sound host ts \<and> (ok \<longrightarrow> length rest < length ?rest)"
        and x: "x = (ok, tr)" "tr = (ts', rest)" and ok: "\<not> \<not> ok"
      then have "tracks_sound host ts'" "length rest < n" using "2.prems"(1) Cons by (auto split: if_splits)
      then show "ensures {Thrown, UndefinedBehaviour} (\<lambda>(ok, ts). tracks_sound host ts) (read_entries n host cue ts' rest)"
        using "2.IH"[OF Cons ok] by blast
    qed auto
    then show ?thesis by (simp add: Cons)
  qed (use "2.prems" in simp)
qed simp

lemma strip_lines_ensures: "ensures {Thrown} (\<lambda>xs. length xs = length ls) (strip_lines ls)"
proof (induction ls)
  case (Cons l ls)
  show ?case unfolding strip_lines.simps by (rule cue_bind, rule ensures_bind[OF Cons.IH]) simp
qed simp

lemma read_cue_ensures:
  "ensures {Thrown, UndefinedBehaviour} (\<lambda>(ok, ts). tracks_sound host ts) (read_cue host path)"
proof (cases "file_text host path")
  case (Some t)
  show ?thesis
    unfolding read_cue_def Some option.case
  proof (rule ensures_bind[OF ensures_mono[OF strip_lines_ensures]])
    fix ls :: "string list"
    show "ensures {Thrown, UndefinedBehaviour} (\<lambda>(ok, ts). tracks_sound host ts) (read_entries (Suc (length ls)) host path [] ls)"
      by (rule read_entries_ensures) (simp_all add: tracks_sound_def)
  qed auto
qed (simp add: read_cue_def tracks_sound_def)

text \<open>
  Reading a cue sheet ends for every text: \<open>ReadCue\<close> returns, throws or leaves its list of lines, and its loops never
  run for ever. Every track of the table it builds has an index and lies in a file of the host.
\<close>
theorem read_cue_ends:
  "ensures {Thrown, UndefinedBehaviour} (\<lambda>(ok, ts). tracks_sound host ts) (read_cue host path)"
  by (rule read_cue_ensures)

section \<open>Cue sheets\<close>

text \<open>A sheet of one file as the tools write it, with two digits for every number.\<close>

record sheet_entry =
  entry_number :: nat
  entry_kind :: track_type
  entry_pregap :: cd_location
  entry_index :: cd_location
  entry_postgap :: cd_location

definition digit :: "nat \<Rightarrow> char" where "digit n = char_of (48 + n)"

definition two :: "nat \<Rightarrow> string" where "two n = [digit (n div 10), digit (n mod 10)]"

definition position_text :: "cd_location \<Rightarrow> string" where
  "position_text l = two (unat (mm l)) @ '':'' @ two (unat (ss l)) @ '':'' @ two (unat (sect l))"

definition kind_text :: "track_type \<Rightarrow> string" where
  "kind_text k = (case k of MODE2_2352 \<Rightarrow> ''MODE2/2352'' | AUDIO \<Rightarrow> ''AUDIO'')"

definition entry_lines :: "sheet_entry \<Rightarrow> string list" where
  "entry_lines e = [''TRACK '' @ two (entry_number e) @ '' '' @ kind_text (entry_kind e), ''PREGAP '' @ position_text (entry_pregap e),
     ''INDEX 01 '' @ position_text (entry_index e), ''POSTGAP '' @ position_text (entry_postgap e)]"

definition file_line :: "string \<Rightarrow> string" where
  "file_line name = ''FILE '' @ [CHR 0x22] @ name @ [CHR 0x22] @ '' BINARY''"

definition sheet_text :: "string \<Rightarrow> sheet_entry list \<Rightarrow> string" where
  "sheet_text name es =
     concat (map (\<lambda>l. l @ [CHR 0x0A]) (file_line name # map (\<lambda>l. ''  '' @ l) (concat (map entry_lines es))))"

definition two_digits :: "cd_location \<Rightarrow> bool" where
  "two_digits l \<longleftrightarrow> unat (mm l) < 100 \<and> unat (ss l) < 60 \<and> unat (sect l) < 75"

definition entry_ok :: "sheet_entry \<Rightarrow> bool" where
  "entry_ok e \<longleftrightarrow> entry_number e < 100 \<and> two_digits (entry_pregap e) \<and> two_digits (entry_index e) \<and> two_digits (entry_postgap e)"

subsection \<open>Digits and words\<close>

lemma is_digit_digit [simp]: "n < 10 \<Longrightarrow> is_digit (digit n)"
  and digit_value_digit [simp]: "n < 10 \<Longrightarrow> digit_value (digit n) = int n"
  by (simp_all add: is_digit_def digit_value_def digit_def)

lemma is_digit_neq:
  assumes "is_digit d"
  shows "d \<noteq> CHR '' ''" "d \<noteq> CHR '':''" "d \<noteq> CHR ''-''" "d \<noteq> CHR ''+''" "d \<noteq> CHR 0x0A" "\<not> is_space d"
    "CHR '' '' \<noteq> d" "CHR '':'' \<noteq> d"
  using assms by (auto simp: is_digit_def is_space_def)

lemma stou_two: "n < 100 \<Longrightarrow> stou (two n) = Some (of_nat n)"
proof -
  assume n: "n < 100"
  then have "n div 10 < 10" by simp
  then have d: "is_digit (digit (n div 10))" "is_digit (digit (n mod 10))" "digit_value (digit (n div 10)) = int (n div 10)"
    "digit_value (digit (n mod 10)) = int (n mod 10)" by simp_all
  have v: "number_of (two n) = int n"
    by (simp add: number_of_def two_def d(3,4) of_nat_mod of_nat_div)
  show ?thesis using n
    by (simp add: stou_def stoi_def two_def[of n] d is_digit_neq v[unfolded two_def])
qed

lemma two_chars: "n < 100 \<Longrightarrow> two n = [digit (n div 10), digit (n mod 10)] \<and> is_digit (digit (n div 10)) \<and> is_digit (digit (n mod 10))"
  by (simp add: two_def)

lemma unat_npos: "unat (- 1 :: u64) = 18446744073709551615"
  by (simp add: unsigned_minus_1_eq_mask mask_eq_exp_minus_1)

lemma stou_one: "stou ''01'' = Some 1"
  by (simp add: stou_def stoi_def number_of_def is_digit_def is_space_def digit_value_def)

lemma position_lines:
  assumes "two_digits l"
  shows "get_cd_position 7 (''PREGAP '' @ position_text l) = Inr (Some l)"
    "get_cd_position 8 (''POSTGAP '' @ position_text l) = Inr (Some l)"
    "get_cd_position 9 (''INDEX 01 '' @ position_text l) = Inr (Some l)"
    "first_word (''PREGAP '' @ position_text l) = Inr ''PREGAP''"
    "first_word (''POSTGAP '' @ position_text l) = Inr ''POSTGAP''"
    "first_word (''INDEX 01 '' @ position_text l) = Inr ''INDEX''"
    "second_word (''INDEX 01 '' @ position_text l) = Inr (Some (8, Some 1))"
proof -
  have m: "unat (mm l) < 100" and s: "unat (ss l) < 100" and f: "unat (sect l) < 100" using assms by (simp_all add: two_digits_def)
  note digits = two_chars[OF m] two_chars[OF s] two_chars[OF f]
  note numbers = stou_two[OF m] stou_two[OF s] stou_two[OF f]
  note rules = position_text_def get_cd_position_def first_word_def second_word_def find_from_def NPOS_def substr_def
    substr_from_def is_digit_neq cd_loc_def unat_npos stou_one word_le_nat_alt
  show "get_cd_position 7 (''PREGAP '' @ position_text l) = Inr (Some l)"
    "get_cd_position 8 (''POSTGAP '' @ position_text l) = Inr (Some l)"
    "get_cd_position 9 (''INDEX 01 '' @ position_text l) = Inr (Some l)"
    "first_word (''PREGAP '' @ position_text l) = Inr ''PREGAP''"
    "first_word (''POSTGAP '' @ position_text l) = Inr ''POSTGAP''"
    "first_word (''INDEX 01 '' @ position_text l) = Inr ''INDEX''"
    "second_word (''INDEX 01 '' @ position_text l) = Inr (Some (8, Some 1))"
    using digits numbers by (simp_all add: rules)
qed

lemma track_line:
  assumes "n < 100"
  shows "first_word (''TRACK '' @ two n @ '' '' @ m) = Inr ''TRACK''"
    "second_word (''TRACK '' @ two n @ '' '' @ m) = Inr (Some (8, Some (of_nat n)))"
    "length m < 100 \<Longrightarrow> substr_from 9 (''TRACK '' @ two n @ '' '' @ m) = Inr m"
  using two_chars[OF assms] stou_two[OF assms]
  by (simp_all add: first_word_def second_word_def find_from_def substr_def substr_from_def NPOS_def is_digit_neq unat_npos word_le_nat_alt)

subsection \<open>Tracks\<close>

definition parsed :: "sheet_entry \<Rightarrow> track" where
  "parsed e = (new_track (of_nat (entry_number e)) (entry_kind e))\<lparr>pregap := entry_pregap e, postgap := entry_postgap e,
     indexes := [\<lparr>position = entry_index e, index_id = 1\<rparr>]\<rparr>"

lemma track_lines_stop:
  "ls = [] \<or> first_word (hd ls) = Inr ''TRACK'' \<Longrightarrow> track_lines t pre post ls = Inr (Some t, ls)"
  by (cases ls) simp_all

lemma word_ends:
  "find_from ((=) CHR '' '') 0 (''PREGAP '' @ x) + 1 = 7" "find_from ((=) CHR '' '') 0 (''POSTGAP '' @ x) + 1 = 8"
  by (simp_all add: find_from_def)

lemma read_four_lines:
  assumes "first_word l1 = Inr ''TRACK''" "second_word l1 = Inr (Some (8, Some n))" "substr_from 9 l1 = Inr (kind_text ty)"
    and "first_word l2 = Inr ''PREGAP''" "find_from ((=) CHR '' '') 0 l2 + 1 = 7" "get_cd_position 7 l2 = Inr (Some p)"
    and "first_word l3 = Inr ''INDEX''" "second_word l3 = Inr (Some (8, Some 1))" "get_cd_position 9 l3 = Inr (Some i)"
    and "first_word l4 = Inr ''POSTGAP''" "find_from ((=) CHR '' '') 0 l4 + 1 = 8" "get_cd_position 8 l4 = Inr (Some q)"
    and rest: "rest = [] \<or> first_word (hd rest) = Inr ''TRACK''"
  shows "read_track_entry (l1 # l2 # l3 # l4 # rest) =
    Inr (Some ((new_track n ty)\<lparr>pregap := p, postgap := q, indexes := [\<lparr>position = i, index_id = 1\<rparr>]\<rparr>), rest)"
  using assms(1-12)
  by (cases ty) (simp_all add: read_track_entry_def kind_text_def track_lines_stop[OF rest] new_track_def)

lemma read_track_entry_lines:
  assumes e: "entry_ok e" and rest: "rest = [] \<or> first_word (hd rest) = Inr ''TRACK''"
  shows "read_track_entry (entry_lines e @ rest) = Inr (Some (parsed e), rest)"
proof -
  have ok: "entry_number e < 100" "two_digits (entry_pregap e)" "two_digits (entry_index e)" "two_digits (entry_postgap e)"
    using e by (simp_all add: entry_ok_def)
  have "length (kind_text (entry_kind e)) < 100" by (simp add: kind_text_def split: track_type.split)
  note line = track_line(1,2)[OF ok(1)] track_line(3)[OF ok(1) this]
  show ?thesis
    unfolding entry_lines_def append_Cons[of "_ :: string"] append_Nil parsed_def
    by (rule read_four_lines[OF line position_lines(4)[OF ok(2)] word_ends(1) position_lines(1)[OF ok(2)]
          position_lines(6,7,3)[OF ok(3)] position_lines(5)[OF ok(4)] word_ends(2) position_lines(2)[OF ok(4)] rest])
qed

lemma entry_lines_head: "entry_ok e \<Longrightarrow> first_word (hd (entry_lines e @ rest)) = Inr ''TRACK''"
  by (simp add: entry_lines_def track_line(1)[simplified] entry_ok_def)

lemma read_tracks_lines:
  assumes "\<forall>e \<in> set es. entry_ok e" "length es < n"
  shows "read_tracks n path acc (concat (map entry_lines es)) = Inr (snd (fold (\<lambda>e. place_track path (parsed e)) es acc), [])"
  using assms
proof (induction es arbitrary: n acc)
  case Nil
  then show ?case by (cases n) (simp_all add: read_track_entry_def)
next
  case (Cons e es)
  obtain m where n: "n = Suc m" "length es < m" using Cons.prems(2) by (cases n) auto
  have "read_track_entry (entry_lines e @ concat (map entry_lines es)) = Inr (Some (parsed e), concat (map entry_lines es))"
  proof (rule read_track_entry_lines)
    show "concat (map entry_lines es) = [] \<or> first_word (hd (concat (map entry_lines es))) = Inr ''TRACK''"
      using Cons.prems(1) entry_lines_head by (cases es) auto
  qed (use Cons.prems(1) in simp)
  then show ?case using Cons n by simp
qed

subsection \<open>Places\<close>

lemma cd_add_nat:
  assumes "cd_ok a" "cd_ok b" "sector_number a + sector_number b < 0x11940000000000"
  shows "sector_number (cd_add a b) = sector_number a + sector_number b" "cd_ok (cd_add a b)"
proof -
  have "unat (to_sect a + to_sect b) = sector_number a + sector_number b"
    using assms(3) unat_add_small[of "to_sect a" "to_sect b"] by (simp add: to_sect_nat assms(1,2))
  then show "sector_number (cd_add a b) = sector_number a + sector_number b" "cd_ok (cd_add a b)"
    using assms(3) by (simp_all add: cd_add_def sect_to_location_number sect_to_location_ok)
qed

lemma two_digits_ok: "two_digits l \<Longrightarrow> cd_ok l \<and> sector_number l < 450000"
  by (simp add: two_digits_def cd_ok_nat sector_number_def)

definition entry_gaps :: "sheet_entry \<Rightarrow> nat" where
  "entry_gaps e = sector_number (entry_pregap e) + sector_number (entry_postgap e)"

text \<open>
  The track of the k-th entry: the first one begins behind its gap and the lead-in, a later one at its index, moved by the
  lead-in, its gap, and the gaps of the tracks between the first one and it.
\<close>

definition describes :: "string \<Rightarrow> sheet_entry list \<Rightarrow> nat \<Rightarrow> track \<Rightarrow> bool" where
  "describes path es k t \<longleftrightarrow>
     track_index t = of_nat (entry_number (es ! k)) \<and> track_kind t = entry_kind (es ! k) \<and> track_path t = path \<and>
     indexes t = [\<lparr>position = entry_index (es ! k), index_id = 1\<rparr>] \<and> postgap t = entry_postgap (es ! k) \<and> cd_ok (track_begin t) \<and>
     sector_number (track_begin t) =
       (if k = 0 then 150 + sector_number (entry_pregap (es ! 0))
        else 150 + sum_list (map entry_gaps (tl (take k es))) + sector_number (entry_pregap (es ! k)) + sector_number (entry_index (es ! k))) \<and>
     file_offset t = (if k = 0 then 0 else to_lba (entry_index (es ! k)))"

lemma describes_append: "k < length es \<Longrightarrow> describes path (es @ es') k t = describes path es k t"
  by (auto simp: describes_def nth_append)

lemma place_tracks:
  assumes "\<forall>e \<in> set es. entry_ok e" "es \<noteq> []" "length es \<le> 99"
  shows "\<exists>off ts. fold (\<lambda>e. place_track path (parsed e)) es (cd_loc 0 2 0, []) = (off, ts) \<and> cd_ok off \<and>
    sector_number off = 150 + sum_list (map entry_gaps (tl es)) \<and> length ts = length es \<and>
    (\<forall>k < length es. describes path es k (ts ! k))"
  using assms
proof (induction es rule: rev_induct)
  case (snoc e es)
  have e: "two_digits (entry_pregap e)" "two_digits (entry_index e)" "two_digits (entry_postgap e)"
    using snoc.prems(1) by (simp_all add: entry_ok_def)
  note e' = two_digits_ok[OF e(1)] two_digits_ok[OF e(2)] two_digits_ok[OF e(3)]
  have start: "cd_ok (cd_loc 0 2 0)" "sector_number (cd_loc 0 2 0) = 150" by (simp_all add: cd_ok_def cd_loc_def sector_number_def)
  show ?case
  proof (cases "es = []")
    case True
    have a: "sector_number (cd_add (entry_pregap e) (cd_loc 0 2 0)) = sector_number (entry_pregap e) + 150"
      "cd_ok (cd_add (entry_pregap e) (cd_loc 0 2 0))"
      using e' start by (simp_all add: cd_add_nat)
    show ?thesis
      by (simp add: True place_track_def parsed_def new_track_def describes_def start a)
  next
    case False
    then obtain off ts where f: "fold (\<lambda>e. place_track path (parsed e)) es (cd_loc 0 2 0, []) = (off, ts)" and off: "cd_ok off"
      and num: "sector_number off = 150 + sum_list (map entry_gaps (tl es))" and len: "length ts = length es"
      and ts: "\<forall>k < length es. describes path es k (ts ! k)"
      using snoc by auto
    have bound: "sum_list (map entry_gaps (tl es)) \<le> 99 * 900000"
    proof -
      have "entry_gaps x \<le> 900000" if "x \<in> set (tl es)" for x
        using that snoc.prems(1) two_digits_ok[of "entry_pregap x"] two_digits_ok[of "entry_postgap x"] False
        by (auto simp: entry_gaps_def entry_ok_def dest!: list.set_sel(2)[OF False])
      then have "sum_list (map entry_gaps (tl es)) \<le> length (tl es) * 900000"
        by (induction "tl es" rule: list.induct) (use sum_list_mono[of "tl es" entry_gaps "\<lambda>_. 900000"] in \<open>simp_all add: sum_list_triv\<close>)
      then show ?thesis using snoc.prems(3) by simp
    qed
    let ?o1 = "cd_add off (entry_pregap e)"
    have o1: "sector_number ?o1 = sector_number off + sector_number (entry_pregap e)" "cd_ok ?o1"
      using bound num e' off by (simp_all add: cd_add_nat)
    have o2: "sector_number (cd_add ?o1 (entry_postgap e)) = sector_number ?o1 + sector_number (entry_postgap e)"
      "cd_ok (cd_add ?o1 (entry_postgap e))"
      using bound num e' o1 by (simp_all add: cd_add_nat)
    have b: "sector_number (cd_add (entry_index e) ?o1) = sector_number (entry_index e) + sector_number ?o1"
      "cd_ok (cd_add (entry_index e) ?o1)"
      using bound num e' o1 by (simp_all add: cd_add_nat)
    have ne: "ts \<noteq> []" using len False by auto
    have "track_path (last ts) = path"
      using ts False len by (simp add: last_conv_nth[OF ne] describes_def)
    then have step: "place_track path (parsed e) (off, ts) =
      (cd_add ?o1 (entry_postgap e), ts @ [(parsed e)\<lparr>track_path := path, track_begin := cd_add (entry_index e) ?o1,
         file_offset := to_lba (entry_index e)\<rparr>])"
      using ne by (simp add: place_track_def parsed_def new_track_def Let_def)
    have new: "describes path (es @ [e]) (length es)
      ((parsed e)\<lparr>track_path := path, track_begin := cd_add (entry_index e) ?o1, file_offset := to_lba (entry_index e)\<rparr>)"
      using False by (simp add: describes_def parsed_def new_track_def b o1 num)
    have "describes path (es @ [e]) k ((ts @ [(parsed e)\<lparr>track_path := path, track_begin := cd_add (entry_index e) ?o1,
         file_offset := to_lba (entry_index e)\<rparr>]) ! k)" if "k < Suc (length es)" for k
      using that new ts len by (cases "k = length es") (simp_all add: nth_append describes_append)
    then show ?thesis
      using False len by (simp add: f step o2 o1 num entry_gaps_def[of e])
  qed
qed simp

subsection \<open>The text\<close>

lemma text_lines_line: "CHR 0x0A \<notin> set l \<Longrightarrow> text_lines acc (l @ CHR 0x0A # ls) = rev (rev l @ acc) # text_lines [] ls"
  by (induction l arbitrary: acc) auto

lemma getlines_concat:
  "\<forall>l \<in> set ls. CHR 0x0A \<notin> set l \<Longrightarrow> getlines (concat (map (\<lambda>l. l @ [CHR 0x0A]) ls)) = ls"
  by (induction ls) (simp_all add: getlines_def text_lines_line)

lemma two_clean: "n < 100 \<Longrightarrow> CHR 0x0A \<notin> set (two n)"
  using is_digit_neq(5)[of "digit (n div 10)"] is_digit_neq(5)[of "digit (n mod 10)"] by (auto simp: two_def)

lemma position_clean: "two_digits l \<Longrightarrow> CHR 0x0A \<notin> set (position_text l)"
  by (auto simp: position_text_def two_digits_def two_clean)

lemma entry_lines_clean: "entry_ok e \<Longrightarrow> l \<in> set (entry_lines e) \<Longrightarrow> CHR 0x0A \<notin> set l"
  by (auto simp: entry_lines_def entry_ok_def position_clean two_clean kind_text_def split: track_type.splits)

lemma strip_indented:
  "\<forall>l \<in> set ls. l \<noteq> [] \<and> hd l \<noteq> CHR '' '' \<and> length l < 1000 \<Longrightarrow> strip_lines (map (\<lambda>l. ''  '' @ l) ls) = Inr ls"
proof (induction ls)
  case (Cons l ls)
  then obtain c cs where l: "l = c # cs" "c \<noteq> CHR '' ''" by (cases l) auto
  then show ?case using Cons by (simp add: find_from_def substr_from_def substr_def NPOS_def unat_npos)
qed simp

lemma entry_lines_shape: "entry_ok e \<Longrightarrow> l \<in> set (entry_lines e) \<Longrightarrow> l \<noteq> [] \<and> hd l \<noteq> CHR '' '' \<and> length l < 1000"
  by (auto simp: entry_lines_def position_text_def two_def kind_text_def split: track_type.splits)

definition name_ok :: "string \<Rightarrow> bool" where
  "name_ok name \<longleftrightarrow> name \<noteq> [] \<and> length name < 1000 \<and> CHR 0x22 \<notin> set name \<and> CHR 0x0A \<notin> set name \<and> \<not> is_remark (file_line name)"

lemma file_line_words:
  assumes "name_ok name"
  shows "first_word (file_line name) = Inr ''FILE''" "find_from ((=) CHR 0x22) 0 (file_line name) = 5"
    "find_last ((=) CHR 0x22) (file_line name) = of_nat (length name) + 6"
    "substr 6 (of_nat (length name)) (file_line name) = Inr name" "substr_from (8 + of_nat (length name)) (file_line name) = Inr ''BINARY''"
proof -
  have n: "length name < 1000" using assms by (simp add: name_ok_def)
  have u: "unat (of_nat (length name) :: u64) = length name" "unat (8 + of_nat (length name) :: u64) = length name + 8"
    using n by (simp_all add: unsigned_of_nat take_bit_nat_eq_self unat_word_ariths)
  show "first_word (file_line name) = Inr ''FILE''" "find_from ((=) CHR 0x22) 0 (file_line name) = 5"
    by (simp_all add: first_word_def find_from_def file_line_def substr_def)
  show "find_last ((=) CHR 0x22) (file_line name) = of_nat (length name) + 6"
    by (simp add: find_last_def file_line_def NPOS_def Let_def)
  show "substr 6 (of_nat (length name)) (file_line name) = Inr name"
    by (simp add: substr_def u file_line_def)
  have split: "file_line name = (''FILE '' @ [CHR 0x22] @ name @ [CHR 0x22, CHR '' '']) @ ''BINARY''"
    "length (''FILE '' @ [CHR 0x22] @ name @ [CHR 0x22, CHR '' '']) = length name + 8"
    by (simp_all add: file_line_def)
  have "drop (length name + 8) (file_line name) = ''BINARY''"
    by (simp only: split(1) drop_append split(2)) simp
  moreover have "length name + 8 \<le> length (file_line name)" by (simp add: file_line_def)
  ultimately show "substr_from (8 + of_nat (length name)) (file_line name) = Inr ''BINARY''"
    by (simp add: substr_from_def substr_def u NPOS_def unat_npos)
qed

lemma read_file_entry_lines:
  assumes "name_ok name" "regular_file host (sibling host cue name)" "\<forall>e \<in> set es. entry_ok e" "es \<noteq> []"
    and ts: "fold (\<lambda>e. place_track (sibling host cue name) (parsed e)) es (cd_loc 0 2 0, []) = (off, ts)" "ts \<noteq> []"
  shows "read_file_entry host cue [] (file_line name # concat (map entry_lines es)) = Inr (True, ts, [])"
proof -
  have n: "name \<noteq> []" "length name < 1000" using assms(1) by (simp_all add: name_ok_def)
  have d: "\<not> of_nat (length name) + 6 - 5 \<le> (1 :: u64)" "of_nat (length name) + 6 - 5 - 1 = (of_nat (length name) :: u64)"
    using n by (auto simp: word_le_nat_alt unat_word_ariths unsigned_of_nat take_bit_nat_eq_self)
  define ls where "ls = concat (map entry_lines es)"
  have nonempty: "ls \<noteq> []" using assms(4) by (cases es) (simp_all add: entry_lines_def ls_def)
  have "length es < Suc (length ls)"
    unfolding ls_def by (induction es) (simp_all add: entry_lines_def)
  then have tracks: "read_tracks (Suc (length ls)) (sibling host cue name) (cd_loc 0 2 0, []) ls = Inr (ts, [])"
    using read_tracks_lines[OF assms(3)] ts(1) by (simp add: ls_def del: read_tracks.simps)
  show ?thesis
    unfolding ls_def[symmetric] read_file_entry_def list.case Let_def file_line_words[OF assms(1)]
    using d nonempty assms(2) ts(2) by (simp add: file_line_words[OF assms(1)] tracks del: read_tracks.simps)
qed

lemma sheet_lines:
  assumes "CHR 0x0A \<notin> set name" "length name < 1000" and es: "\<forall>e \<in> set es. entry_ok e"
  shows "bindE (strip_lines (getlines (sheet_text name es))) f = f (file_line name # concat (map entry_lines es))"
proof -
  let ?ls = "concat (map entry_lines es)"
  have clean: "\<forall>l \<in> set (file_line name # map (\<lambda>l. ''  '' @ l) ?ls). CHR 0x0A \<notin> set l"
    using assms(1) es entry_lines_clean by (auto simp: file_line_def)
  have "strip_lines (map (\<lambda>l. ''  '' @ l) ?ls) = Inr ?ls"
    by (rule strip_indented) (use es entry_lines_shape in auto)
  moreover have "substr_from (find_from ((\<noteq>) CHR '' '') 0 (file_line name)) (file_line name) = Inr (file_line name)"
    using assms(2) by (simp add: file_line_def find_from_def substr_from_def substr_def NPOS_def unat_npos)
  ultimately have strip: "strip_lines (file_line name # map (\<lambda>l. ''  '' @ l) ?ls) = Inr (file_line name # ?ls)"
    by simp
  show ?thesis unfolding sheet_text_def getlines_concat[OF clean] strip by simp
qed

text \<open>
  C9. A cue sheet reads back: the text of a sheet with one file and any tracks, each with its number, mode, gap, index and
  gap behind it, is read into a table with exactly these tracks in their order. The first track begins behind the lead-in
  and its gap; every other one at its index, moved by the lead-in and by the gaps between the first track and it; and all
  but the first are found in the file at the offset of their index.
\<close>
theorem cue_sheet_roundtrip:
  assumes "name_ok name" "regular_file host (sibling host path name)" "file_text host path = Some (sheet_text name es)"
    and "\<forall>e \<in> set es. entry_ok e" "es \<noteq> []" "length es \<le> 99"
  shows "\<exists>ts. read_cue host path = Inr (True, ts) \<and> length ts = length es \<and>
    (\<forall>k < length es. describes (sibling host path name) es k (ts ! k))"
proof -
  obtain off ts where f: "fold (\<lambda>e. place_track (sibling host path name) (parsed e)) es (cd_loc 0 2 0, []) = (off, ts)"
    and ts: "length ts = length es" "\<forall>k < length es. describes (sibling host path name) es k (ts ! k)"
    using place_tracks[OF assms(4,5,6)] by blast
  have name: "CHR 0x0A \<notin> set name" "length name < 1000" "\<not> is_remark (file_line name)"
    using assms(1) unfolding name_ok_def by blast+
  have ne: "ts \<noteq> []" using assms(5) ts by auto
  have "concat (map entry_lines es) \<noteq> []" using assms(5) by (cases es) (simp_all add: entry_lines_def)
  then obtain m where m: "length (concat (map entry_lines es)) = Suc m" by (cases "concat (map entry_lines es)") auto
  have "read_cue host path = Inr (True, ts)"
    unfolding read_cue_def assms(3) option.case sheet_lines[OF name(1,2) assms(4)] list.size add_Suc_right m read_entries.simps(2)[of "Suc m" for m]
    using name(3) by (simp add: read_file_entry_lines[OF assms(1,2,4,5) f ne])
  then show ?thesis using ts by blast
qed

definition sample_sheet :: "sheet_entry list" where
  "sample_sheet =
     [\<lparr>entry_number = 1, entry_kind = MODE2_2352, entry_pregap = cd_loc 0 0 0, entry_index = cd_loc 0 0 0, entry_postgap = cd_loc 0 0 0\<rparr>,
      \<lparr>entry_number = 2, entry_kind = AUDIO, entry_pregap = cd_loc 0 2 0, entry_index = cd_loc 5 30 12, entry_postgap = cd_loc 0 0 0\<rparr>]"

definition sample_host :: "string \<Rightarrow> host_files" where
  "sample_host t = \<lparr>sibling = (\<lambda>cue name. name), extension = (\<lambda>_. ''.cue''), regular_file = (\<lambda>_. True),
     file_bytes = (\<lambda>_. Some []), file_text = (\<lambda>_. Some t)\<rparr>"

lemma sample_sheet_ok: "\<forall>e \<in> set sample_sheet. entry_ok e" "sample_sheet \<noteq> []" "length sample_sheet = 2"
  by (simp_all add: sample_sheet_def entry_ok_def two_digits_def cd_loc_def)

theorem cue_sheet_roundtrip_witness:
  "\<exists>a b. read_cue (sample_host (sheet_text ''game.bin'' sample_sheet)) ''game.cue'' = Inr (True, [a, b]) \<and>
    sector_number (track_begin a) = 150 \<and> sector_number (track_begin b) = 150 + 150 + 24762"
proof -
  have "name_ok ''game.bin''" by (simp add: name_ok_def is_remark_def file_line_def)
  from cue_sheet_roundtrip[OF this, of "sample_host (sheet_text ''game.bin'' sample_sheet)" "''game.cue''" sample_sheet]
  obtain ts where ts: "read_cue (sample_host (sheet_text ''game.bin'' sample_sheet)) ''game.cue'' = Inr (True, ts)" "length ts = 2"
    "\<forall>k < 2. describes ''game.bin'' sample_sheet k (ts ! k)"
    using sample_sheet_ok by (auto simp: sample_host_def)
  from ts(2) obtain a b where ab: "ts = [a, b]" by (auto simp: numeral_2_eq_2 length_Suc_conv)
  have "describes ''game.bin'' sample_sheet 0 a" "describes ''game.bin'' sample_sheet 1 b"
    using ts(3)[rule_format, of 0] ts(3)[rule_format, of 1] by (simp_all add: ab)
  then have "sector_number (track_begin a) = 150" "sector_number (track_begin b) = 150 + 150 + 24762"
    by (simp_all add: describes_def sample_sheet_def sector_number_def cd_loc_def)
  then show ?thesis using ts(1) ab by blast
qed

text \<open>
  The name of the image can spoil a sheet: lines that contain \<open>REM\<close>, \<open>PERFORMER\<close> or \<open>TITLE\<close> anywhere count as
  remarks, so a sheet whose file is called \<open>EXTREME.BIN\<close>, for one, loses its first line and is refused with no track.
\<close>
theorem remark_name_rejected:
  assumes "contains ''REM'' name \<or> contains ''TITLE'' name" "CHR 0x0A \<notin> set name" "length name < 1000"
    and "file_text host path = Some (sheet_text name es)" "\<forall>e \<in> set es. entry_ok e" "es \<noteq> []"
  shows "read_cue host path = Inr (False, [])"
proof -
  have app: "contains p b \<Longrightarrow> contains p (a @ b)" for p a b by (induction a) auto
  have longer: "take (length p) (x @ b) = p" if "take (length p) x = p" for p x b :: string
    using that by (metis append_take_drop_id append_assoc append_eq_conv_conj)
  have pre: "contains p a \<Longrightarrow> p \<noteq> [] \<Longrightarrow> contains p (a @ b)" for p a b
    using longer[of p "c # cs" b for c cs] by (induction a) auto
  have remark: "is_remark (file_line name)"
  proof -
    have "contains p (file_line name)" if "contains p name" "p \<noteq> []" for p
      unfolding file_line_def by (intro app pre that)
    then show ?thesis using assms(1) by (auto simp: is_remark_def)
  qed
  obtain e es' where es: "es = e # es'" using assms(6) by (cases es) auto
  let ?ls = "concat (map entry_lines es)"
  have "first_word (hd ?ls) = Inr ''TRACK''" "?ls \<noteq> []"
    using assms(5) entry_lines_head[of e] by (simp_all add: es entry_lines_def)
  then have "read_file_entry host path [] ?ls = Inr (False, [], ?ls)"
    by (cases ?ls) (simp_all add: read_file_entry_def Let_def)
  then show ?thesis
    unfolding read_cue_def assms(4) option.case sheet_lines[OF assms(2,3,5)] by (simp add: remark)
qed

theorem remark_name_rejected_witness:
  "read_cue (sample_host (sheet_text ''EXTREME.BIN'' sample_sheet)) ''game.cue'' = Inr (False, [])"
  by (rule remark_name_rejected) (use sample_sheet_ok in \<open>auto simp: sample_host_def\<close>)

end
