(* ===== verification/DriveSpec.thy ===== *)
theory DriveSpec
  imports Drive SpuSpec CdSpec
begin

text \<open>
  What the CD drive of \<open>Drive\<close> promises: its queues and the sector buffer are never left by the registers, the data
  register delivers the loaded sector, responses are delivered in order and not before their time; and where it does
  not, a second read that survives a pause and a buffer overrun by a change of the sector size.
\<close>

section \<open>Components of an update\<close>

lemma deschedule_more: "scheduler.more (snd (deschedule i s)) = scheduler.more s"
  by (simp add: deschedule_def Let_def)

lemma drive_of_updates [simp]:
  "m_drive (upd_drive f s) = f (m_drive s)" "m_drive (raise_interrupt n s) = m_drive s"
  "m_drive (snd (schedule t cb u s)) = m_drive s" "m_drive (snd (deschedule i s)) = m_drive s"
  "m_drive (set_dreq b k s) = m_drive s" "m_drive (s\<lparr>m_spu := p\<rparr>) = m_drive s"
  "m_spu (upd_drive f s) = m_spu s" "m_spu (snd (deschedule i s)) = m_spu s"
  for s :: "('h, 'm) psx_cd_scheme"
  by (simp_all add: upd_drive_def raise_interrupt_def schedule_def schedule_absolute_def deschedule_def Let_def set_dreq_def
      upd_channel_def upd_ctl_def)

lemma drive_of_schedules [simp]:
  "m_drive (schedule_cd_interrupt t s) = (m_drive s)\<lparr>m_drive_event := fst (schedule t (Some Cd_event_callback) 0 s)\<rparr>"
  "m_drive (schedule_read t s) = (m_drive s)\<lparr>m_read_event := fst (schedule t (Some Cd_read_callback) 0 s)\<rparr>"
  "m_spu (schedule_cd_interrupt t s) = m_spu s" "m_spu (schedule_read t s) = m_spu s"
  by (simp_all add: schedule_cd_interrupt_def schedule_read_def split_beta)

section \<open>The queues and the buffer\<close>

definition response_fits :: "response \<Rightarrow> bool" where
  "response_fits r \<longleftrightarrow> length (resp_bytes r) \<le> 16 \<and> curr_index r < 16"

definition drive_ok :: "cd_drive \<Rightarrow> bool" where
  "drive_ok d \<longleftrightarrow> queue_ok (m_response_fifo d) \<and> length (arr (m_response_fifo d)) = 16 \<and>
     (\<forall>r \<in> set (queue_contents (m_response_fifo d)). response_fits r) \<and>
     queue_ok (m_param_fifo d) \<and> length (arr (m_param_fifo d)) = 16 \<and>
     length (m_curr_sector d) = 2352 \<and> m_curr_sector_size d \<in> {0, 0x800, 0x924}"

definition position_ok :: "cd_drive \<Rightarrow> bool" where
  "position_ok d \<longleftrightarrow> (m_has_loaded_data d \<longrightarrow> m_curr_sector_pos d < m_curr_sector_size d)"

text \<open>With \<open>strict\<close> the position of the data register is inside the sector.\<close>

definition drive_sound :: "bool \<Rightarrow> ('h, 'm) psx_cd_scheme \<Rightarrow> bool" where
  "drive_sound strict s \<longleftrightarrow> drive_ok (m_drive s) \<and> spu_ok (m_spu s) \<and> (strict \<longrightarrow> position_ok (m_drive s))"

lemma sound_update:
  assumes "drive_sound b s" and "drive_ok (m_drive s) \<Longrightarrow> drive_ok (f (m_drive s))"
    and "m_has_loaded_data (f (m_drive s)) = m_has_loaded_data (m_drive s)"
    and "m_curr_sector_pos (f (m_drive s)) = m_curr_sector_pos (m_drive s)"
    and "m_curr_sector_size (f (m_drive s)) = m_curr_sector_size (m_drive s)"
  shows "drive_sound b (upd_drive f s)"
  using assms by (simp add: drive_sound_def position_ok_def)

lemma sound_flags:
  "drive_sound b (set_index_flag i v s) \<longleftrightarrow> drive_sound b s" "drive_sound b (set_stat_flag i v s) \<longleftrightarrow> drive_sound b s"
  "drive_sound b (raise_interrupt n s) \<longleftrightarrow> drive_sound b s" "drive_sound b (schedule_cd_interrupt t s) \<longleftrightarrow> drive_sound b s"
  "drive_sound b (schedule_read t s) \<longleftrightarrow> drive_sound b s" "drive_sound b (motor_status s) \<longleftrightarrow> drive_sound b s"
  "drive_sound b (snd (deschedule j s)) \<longleftrightarrow> drive_sound b s" "drive_sound b (request_cd_interrupt v' s) \<longleftrightarrow> drive_sound b s"
  "drive_sound b (set_dreq v k s) \<longleftrightarrow> drive_sound b s"
  by (simp_all add: drive_sound_def position_ok_def set_index_flag_def set_stat_flag_def drive_ok_def motor_status_def
      request_cd_interrupt_def Let_def)

lemma queue_full_iff: "queue_ok q \<Longrightarrow> queue_full q \<longleftrightarrow> length (queue_contents q) = length (arr q)"
  by (simp add: queue_full_def length_queue_contents)

lemma fifo_empty_iff: "queue_ok q \<Longrightarrow> queue_empty q \<longleftrightarrow> queue_contents q = []"
  by (auto simp: queue_empty_def queue_contents_def queue_ok_def unat_eq_zero)

lemma queue_peek_ok:
  assumes "queue_ok q" "queue_contents q = x # xs"
  shows "queue_peek q = Inr x"
  using queue_deque_ok[OF assms] by (auto simp: queue_deque_def bindE_Inr_iff split: if_splits)

lemma push_response_ok:
  assumes s: "drive_sound b s" and args: "length args \<le> 16"
  shows "ensures {} (drive_sound b) (push_response i args t s)"
proof (cases "queue_full (m_response_fifo (m_drive s))")
  case False
  let ?q = "m_response_fifo (m_drive s)"
  let ?r = "\<lparr>resp_bytes = args, curr_index = 0, resp_interrupt = i, resp_delay = t, resp_timestamp = m_curr_timestamp s\<rparr>"
  have ok: "queue_ok ?q" using s by (simp add: drive_sound_def drive_ok_def)
  have "length (queue_contents ?q) < length (arr ?q)"
    using False ok cq.bounded[OF ok] by (simp add: queue_full_iff)
  from queue_push_ok[OF ok this, of ?r] obtain q' where q': "queue_push ?r ?q = Inr q'" "queue_ok q'"
    "length (arr q') = length (arr ?q)" "queue_contents q' = queue_contents ?q @ [?r]" by blast
  have "drive_sound b (upd_drive (\<lambda>d. d\<lparr>m_response_fifo := q'\<rparr>) s)"
    by (rule sound_update[OF s]) (use q' args in \<open>auto simp: drive_ok_def response_fits_def\<close>)
  then show ?thesis using False by (simp add: push_response_def q'(1) Let_def sound_flags)
qed (simp add: push_response_def s)

lemma validate_params_ok:
  assumes "drive_sound b s"
  shows "ensures {} (\<lambda>(ok, s'). drive_sound b s' \<and> (ok \<longrightarrow> s' = s \<and> unat (m_curr_size (m_param_fifo (m_drive s))) = unat n)) (validate_params n s)"
  unfolding validate_params_def Let_def
  by (intro ensures_cond ensures_bind[OF push_response_ok]) (simp_all add: assms sound_flags)

lemma pop_param_ok:
  assumes s: "drive_sound b s" and n: "queue_contents (m_param_fifo (m_drive s)) = x # xs"
  shows "\<exists>s'. pop_param s = Inr (x, s') \<and> drive_sound b s' \<and> queue_contents (m_param_fifo (m_drive s')) = xs"
proof -
  have ok: "queue_ok (m_param_fifo (m_drive s))" using s by (simp add: drive_sound_def drive_ok_def)
  from queue_deque_ok[OF this n] obtain q' where q': "queue_deque (m_param_fifo (m_drive s)) = Inr (x, q')" "queue_ok q'"
    "length (arr q') = length (arr (m_param_fifo (m_drive s)))" "queue_contents q' = xs" by blast
  have "drive_sound b (upd_drive (\<lambda>d. d\<lparr>m_param_fifo := q'\<rparr>) s)"
    by (rule sound_update[OF s]) (use q' in \<open>auto simp: drive_ok_def\<close>)
  then show ?thesis by (simp add: pop_param_def q')
qed

lemma params_listed:
  assumes "drive_sound b s" "unat (m_curr_size (m_param_fifo (m_drive s))) = n"
  shows "length (queue_contents (m_param_fifo (m_drive s))) = n"
  using assms by (simp add: drive_sound_def drive_ok_def length_queue_contents)

section \<open>Commands\<close>

lemma sound_change [simp]:
  "drive_sound b (upd_drive take_seek s) \<longleftrightarrow> drive_sound b s"
  "drive_sound b (upd_drive (\<lambda>d. d\<lparr>m_read_paused := v\<rparr>) s) \<longleftrightarrow> drive_sound b s"
  "drive_sound b (upd_drive (\<lambda>d. d\<lparr>m_seek_loc := l, m_read_paused := v\<rparr>) s) \<longleftrightarrow> drive_sound b s"
  "drive_sound b (upd_drive (\<lambda>d. d\<lparr>m_drive_mode := w\<rparr>) s) \<longleftrightarrow> drive_sound b s"
  "drive_sound b (upd_drive (\<lambda>d. d\<lparr>m_unprocessed_seek_loc := l, m_has_unprocessed_seek := v\<rparr>) s) \<longleftrightarrow> drive_sound b s"
  "drive_sound b (upd_drive (\<lambda>d. d\<lparr>m_read_event := e\<rparr>) s) \<longleftrightarrow> drive_sound b s"
  "drive_sound b (upd_drive (\<lambda>d. d\<lparr>m_drive_stat := w, m_motor_on := v, m_read_paused := v'\<rparr>) s) \<longleftrightarrow> drive_sound b s"
  "drive_sound b (upd_drive (\<lambda>d. d\<lparr>m_motor_on := v\<rparr>) s) \<longleftrightarrow> drive_sound b s"
  "drive_sound b (upd_drive (\<lambda>d. d\<lparr>m_enable_audio := v\<rparr>) s) \<longleftrightarrow> drive_sound b s"
  "drive_sound b (upd_drive (\<lambda>d. d\<lparr>filter_file := w, filter_channel := w'\<rparr>) s) \<longleftrightarrow> drive_sound b s"
  "drive_sound b (upd_drive (\<lambda>d. d\<lparr>m_idle := v\<rparr>) s) \<longleftrightarrow> drive_sound b s"
  "drive_sound b (upd_drive (\<lambda>d. d\<lparr>m_drive_cmd := w, m_idle := v\<rparr>) s) \<longleftrightarrow> drive_sound b s"
  "drive_sound b (upd_drive (\<lambda>d. d\<lparr>m_drive_cmd := m_new_cmd d, m_has_next_cmd := v, m_idle := v'\<rparr>) s) \<longleftrightarrow> drive_sound b s"
  "drive_sound b (upd_drive param_flags s) \<longleftrightarrow> drive_sound b s"
  "drive_sound b (upd_drive update_index_register s) \<longleftrightarrow> drive_sound b s"
  by (simp_all add: drive_sound_def position_ok_def drive_ok_def take_seek_def param_flags_def update_index_register_def)

declare sound_flags [simp]

lemma two_responses_ok: "drive_sound b s \<Longrightarrow> ensures {} (drive_sound b) (two_responses x y t s)"
  unfolding two_responses_def by (intro ensures_bind[OF push_response_ok] push_response_ok) simp_all

text \<open>A command with parameters: with the right number of them each is taken from the queue.\<close>

lemma with_params:
  assumes s: "drive_sound b s"
    and go: "length (queue_contents (m_param_fifo (m_drive s))) = unat n \<Longrightarrow> ensures F (drive_sound b) (g s)"
  shows "ensures F (drive_sound b) (bindE (validate_params n s) (\<lambda>(ok, s). if \<not> ok then Inr s else g s))"
proof -
  have valid: "ensures F (\<lambda>(ok, t). drive_sound b t \<and> (ok \<longrightarrow> t = s \<and> unat (m_curr_size (m_param_fifo (m_drive s))) = unat n))
      (validate_params n s)"
    by (rule ensures_mono[OF validate_params_ok[OF s]]) auto
  show ?thesis
    by (rule ensures_bind[OF valid]) (auto intro!: go params_listed[OF s])
qed

lemma ensures_exists: "\<exists>y. m = Inr (x, y) \<and> P y \<Longrightarrow> (\<And>y. P y \<Longrightarrow> ensures F Q (f x y)) \<Longrightarrow> ensures F Q (bindE m (\<lambda>(x, y). f x y))"
  by auto

lemma one_response_ok: "drive_sound b s \<Longrightarrow> ensures F (drive_sound b) (push_response i [x] t s)"
  by (rule ensures_mono[OF push_response_ok]) simp_all

lemma two_ok: "drive_sound b s \<Longrightarrow> ensures F (drive_sound b) (two_responses x y t s)"
  by (rule ensures_mono[OF two_responses_ok]) simp_all

lemma one_param_ok:
  assumes "drive_sound b s" "\<And>x t. drive_sound b t \<Longrightarrow> ensures F (drive_sound b) (f x t)"
  shows "ensures F (drive_sound b) (bindE (validate_params 1 s) (\<lambda>(ok, s). if \<not> ok then Inr s else bindE (pop_param s) (\<lambda>(x, s). f x s)))"
proof (rule with_params[OF assms(1)])
  assume "length (queue_contents (m_param_fifo (m_drive s))) = unat (1 :: u64)"
  then obtain x where "queue_contents (m_param_fifo (m_drive s)) = [x]" by (auto simp: length_Suc_conv)
  from ensures_exists[OF pop_param_ok[OF assms(1) this]] assms(2)
  show "ensures F (drive_sound b) (bindE (pop_param s) (\<lambda>(x, s). f x s))" by blast
qed

lemma few_params:
  "length xs = unat (2 :: u64) \<Longrightarrow> \<exists>x y. xs = [x, y]" "length xs = unat (3 :: u64) \<Longrightarrow> \<exists>x y z. xs = [x, y, z]"
proof -
  assume "length xs = unat (2 :: u64)"
  then have "length xs = Suc (Suc 0)" by simp
  then show "\<exists>x y. xs = [x, y]" by (simp only: length_Suc_conv length_0_conv) auto
next
  assume "length xs = unat (3 :: u64)"
  then have "length xs = Suc (Suc (Suc 0))" by simp
  then show "\<exists>x y z. xs = [x, y, z]" by (simp only: length_Suc_conv length_0_conv) auto
qed

lemma setfilter_ok: "drive_sound b s \<Longrightarrow> ensures F (drive_sound b) (command_setfilter s)"
  unfolding command_setfilter_def
proof (rule with_params)
  assume "drive_sound b s" "length (queue_contents (m_param_fifo (m_drive (motor_status s)))) = unat (2 :: u64)"
  moreover then obtain x y where "queue_contents (m_param_fifo (m_drive (motor_status s))) = [x, y]"
    using few_params(1) by blast
  ultimately obtain t u where "pop_param (motor_status s) = Inr (x, t)" "pop_param t = Inr (y, u)" "drive_sound b u"
    using pop_param_ok[of b "motor_status s" x "[y]"] pop_param_ok[of b _ y "[]"] by (auto, metis)
  then show "ensures F (drive_sound b) (bindE (pop_param (motor_status s)) (\<lambda>(f, s). bindE (pop_param s) (\<lambda>(c, s).
      let s = upd_drive (\<lambda>d. d\<lparr>filter_file := f, filter_channel := c\<rparr>) s
      in push_response INT3_FIRST_RESPONSE [drive_stat s] GETSTAT_NORMAL s)))"
    by (simp add: Let_def one_response_ok)
qed simp

lemma set_loc_ok: "drive_sound b s \<Longrightarrow> ensures F (drive_sound b) (command_set_loc s)"
  unfolding command_set_loc_def
proof (rule with_params)
  assume "drive_sound b s" "length (queue_contents (m_param_fifo (m_drive (motor_status s)))) = unat (3 :: u64)"
  moreover then obtain x y z where "queue_contents (m_param_fifo (m_drive (motor_status s))) = [x, y, z]"
    using few_params(2) by blast
  ultimately obtain t u v where "pop_param (motor_status s) = Inr (x, t)" "pop_param t = Inr (y, u)" "pop_param u = Inr (z, v)"
      "drive_sound b v"
    using pop_param_ok[of b "motor_status s" x "[y, z]"] pop_param_ok[of b _ y "[z]"] pop_param_ok[of b _ z "[]"] by (auto, metis)
  then show "ensures F (drive_sound b) (bindE (pop_param (motor_status s)) (\<lambda>(m, s). bindE (pop_param s) (\<lambda>(c, s). bindE (pop_param s) (\<lambda>(f, s).
      let s = upd_drive (\<lambda>d. d\<lparr>m_unprocessed_seek_loc :=
                cd_loc (bcd_to_normal (ucast m)) (bcd_to_normal (ucast c)) (bcd_to_normal (ucast f)), m_has_unprocessed_seek := True\<rparr>) s
      in push_response INT3_FIRST_RESPONSE [drive_stat s] GETSTAT_NORMAL s))))"
    by (simp add: Let_def one_response_ok)
qed simp

lemma simple_commands_ok:
  assumes "drive_sound b s"
  shows "ensures F (drive_sound b) (command_get_stat s)" "ensures F (drive_sound b) (command_stop s)"
    "ensures F (drive_sound b) (command_read_toc s)" "ensures F (drive_sound b) (command_seek_l s)"
    "ensures F (drive_sound b) (start_reading g s)" "ensures F (drive_sound b) (command_pause s)"
    "ensures F (drive_sound b) (command_init s)" "ensures F (drive_sound b) (command_audio v s)"
  unfolding command_get_stat_def command_stop_def command_read_toc_def command_seek_l_def start_reading_def
    command_pause_def command_init_def command_audio_def Let_def
  by (intro ensures_cond ensures_bind[OF one_response_ok] two_ok; simp add: assms)+

lemma get_id_ok:
  assumes "drive_sound b s"
  shows "ensures F (drive_sound b) (command_get_id s)"
proof -
  have long: "ensures F (drive_sound b) (push_response i xs t u)" if "drive_sound b u" "length xs \<le> 16" for i xs t u
    by (rule ensures_mono[OF push_response_ok[OF that]]) simp_all
  show ?thesis unfolding command_get_id_def Let_def
    by (rule ensures_bind[OF long]) (auto intro!: long simp: assms region_bytes_def)
qed

lemma drive_command_ok:
  assumes "drive_sound b s" "DebugBreak \<in> F"
  shows "ensures F (drive_sound b) (dispatch_command c s)"
proof -
  have mode: "ensures F (drive_sound b) (command_setmode s)"
    unfolding command_setmode_def by (rule one_param_ok[OF assms(1)]) (simp add: Let_def one_response_ok assms(2))
  have long: "ensures F (drive_sound b) (push_response i xs t u)" if "drive_sound b u" "length xs \<le> 16" for i xs t u
    by (rule ensures_mono[OF push_response_ok[OF that]]) simp_all
  have test: "ensures F (drive_sound b) (command_test s)"
    unfolding command_test_def
    by (rule one_param_ok[OF assms(1)]) (auto simp: assms(2) intro!: ensures_bind[OF long])
  show ?thesis
    unfolding dispatch_command_def command_read_n_def command_read_s_def
    by (intro ensures_cond simple_commands_ok get_id_ok mode test setfilter_ok set_loc_ok) (simp_all add: assms)
qed

lemma command_execute_ok:
  "drive_sound b s \<Longrightarrow> DebugBreak \<in> F \<Longrightarrow> ensures F (drive_sound b) (command_execute s)"
  unfolding command_execute_def by (rule ensures_bind[OF drive_command_ok]) simp_all

section \<open>Interrupts\<close>

lemma responses_of:
  assumes "drive_sound b s"
  shows "queue_ok (m_response_fifo (m_drive s))" "length (arr (m_response_fifo (m_drive s))) = 16"
    "\<forall>r \<in> set (queue_contents (m_response_fifo (m_drive s))). response_fits r"
  using assms by (simp_all add: drive_sound_def drive_ok_def)

lemma with_responses:
  assumes "drive_sound b s" "queue_ok q" "length (arr q) = 16" "\<forall>r \<in> set (queue_contents q). response_fits r"
  shows "drive_sound b (upd_drive (\<lambda>d. d\<lparr>m_response_fifo := q\<rparr>) s)"
  by (rule sound_update[OF assms(1)]) (use assms in \<open>auto simp: drive_ok_def\<close>)

lemma deliver_interrupt_ok: "drive_sound b s \<Longrightarrow> ensures {} (drive_sound b) (deliver_interrupt s)"
  using responses_of[of b s] by (auto simp: deliver_interrupt_def queue_peek_def queue_at_def)

lemma pending_command_ok: "drive_sound b s \<Longrightarrow> DebugBreak \<in> F \<Longrightarrow> ensures F (drive_sound b) (handle_pending_command s)"
  unfolding handle_pending_command_def Let_def by (intro ensures_cond command_execute_ok) simp_all

lemma next_response_ok:
  assumes "drive_sound b s" "DebugBreak \<in> F"
  shows "ensures F (drive_sound b) (next_response s)"
proof (cases "queue_contents (m_response_fifo (m_drive s))")
  case Nil
  then show ?thesis
    using pending_command_ok[of b "upd_drive (\<lambda>d. d\<lparr>m_idle := True\<rparr>) s" F] assms responses_of(1)[OF assms(1)]
    by (simp add: next_response_def fifo_empty_iff)
next
  case (Cons r rs)
  then show ?thesis
    using assms responses_of(1)[OF assms(1)] queue_peek_ok[OF responses_of(1)[OF assms(1)] Cons]
    by (simp add: next_response_def fifo_empty_iff Let_def)
qed

lemma interrupt_ackd_ok:
  assumes "drive_sound b s" "DebugBreak \<in> F"
  shows "ensures F (drive_sound b) (interrupt_ackd s)"
proof (cases "queue_contents (m_response_fifo (m_drive s))")
  case Nil
  then show ?thesis using assms responses_of(1)[OF assms(1)] by (simp add: interrupt_ackd_def fifo_empty_iff)
next
  case (Cons r rs)
  note ok = responses_of[OF assms(1)]
  from queue_deque_ok[OF ok(1) Cons] obtain q' where q': "queue_deque (m_response_fifo (m_drive s)) = Inr (r, q')"
    "queue_ok q'" "length (arr q') = length (arr (m_response_fifo (m_drive s)))" "queue_contents q' = rs" by blast
  have "drive_sound b (upd_drive (\<lambda>d. d\<lparr>m_response_fifo := q'\<rparr>) s)"
    by (rule with_responses[OF assms(1) q'(2)]) (use q' ok Cons in simp_all)
  then show ?thesis
    using assms ok Cons queue_peek_ok[OF ok(1) Cons]
    by (auto simp: interrupt_ackd_def fifo_empty_iff Let_def q'(1) intro!: next_response_ok)
qed

section \<open>Registers\<close>

lemma pop_response_ok:
  assumes s: "drive_sound b s"
  shows "ensures {} (\<lambda>(v, s'). drive_sound b s') (pop_response_byte s)"
proof (cases "queue_contents (m_response_fifo (m_drive s))")
  case Nil
  then show ?thesis using s responses_of(1)[OF s] by (simp add: pop_response_byte_def fifo_empty_iff)
next
  case (Cons r rs)
  let ?q = "m_response_fifo (m_drive s)"
  note ok = responses_of[OF s]
  have fits: "response_fits (r\<lparr>curr_index := i mod 16\<rparr>)" for i using ok(3) Cons by (simp add: response_fits_def)
  have "queue_contents (?q\<lparr>arr := (arr ?q)[0 := x]\<rparr>) = x # rs" for x
    using Cons by (cases "arr ?q") (auto simp: queue_contents_def take_Cons' split: if_splits)
  then have "drive_sound b (upd_drive (\<lambda>d. d\<lparr>m_response_fifo := ?q\<lparr>arr := (arr ?q)[0 := r\<lparr>curr_index := i mod 16\<rparr>]\<rparr>\<rparr>) s)" for i
    using ok Cons fits by (intro with_responses[OF s]) (auto simp: queue_ok_def)
  then show ?thesis
    using ok Cons queue_peek_ok[OF ok(1) Cons] by (simp add: pop_response_byte_def fifo_empty_iff Let_def)
qed

text \<open>What may stop a register access: with a position inside the sector only the breaks of the source.\<close>

definition drive_faults :: "bool \<Rightarrow> fault set" where
  "drive_faults strict = (if strict then {DebugBreak} else {DebugBreak, UndefinedBehaviour})"

lemma read_reg2_ok:
  assumes s: "drive_sound b s"
  shows "ensures (drive_faults b) (\<lambda>(v, s'). drive_sound b s') (read_reg2 s)"
proof -
  let ?d = "m_drive s"
  have d: "length (m_curr_sector ?d) = 2352" "m_curr_sector_size ?d \<in> {0, 0x800, 0x924}"
    using s by (simp_all add: drive_sound_def drive_ok_def)
  have old: "ensures (drive_faults b) (\<lambda>(v, s'). drive_sound b s') (bindE (sector_byte i ?d) (\<lambda>v. Inr (v, s)))" if "i < 2352" for i
    using that d(1) s by (simp add: sector_byte_def)
  have keep: "drive_sound b (set_index_flag data_fifo_not_empty False
      (upd_drive (\<lambda>d. d\<lparr>m_curr_sector_pos := 0, m_has_loaded_data := False\<rparr>) s))"
    using s unfolding sound_flags by (simp add: drive_sound_def drive_ok_def position_ok_def)
  have step: "drive_sound b (upd_drive (\<lambda>d. d\<lparr>m_curr_sector_pos := Suc (m_curr_sector_pos ?d)\<rparr>) s)"
    if "Suc (m_curr_sector_pos ?d) \<noteq> m_curr_sector_size ?d" "m_has_loaded_data ?d"
    using s that by (auto simp: drive_sound_def drive_ok_def position_ok_def)
  have inside: "b \<Longrightarrow> m_has_loaded_data ?d \<Longrightarrow> m_curr_sector_pos ?d < 2352"
    using s d(2) by (auto simp: drive_sound_def position_ok_def)
  show ?thesis
  proof (cases "m_has_loaded_data ?d")
    case False
    then show ?thesis using s old by (simp add: read_reg2_def Let_def cd_sizes)
  next
    case True
    then show ?thesis using keep step inside d(1) by (cases b) (auto simp: read_reg2_def Let_def sector_byte_def drive_faults_def)
  qed
qed

lemma cd_read8_ok:
  assumes "drive_sound b s"
  shows "ensures (drive_faults b) (\<lambda>(v, s'). drive_sound b s') (cd_read8 a s)"
  using assms pop_response_ok[OF assms] read_reg2_ok[OF assms] ensures_mono[OF pop_response_ok[OF assms], of "drive_faults b"]
  by (simp add: cd_read8_def Let_def)

lemma cd_reads_ok:
  assumes "drive_sound b s"
  shows "ensures (drive_faults b) (\<lambda>(v, s'). drive_sound b s') (cd_read16 a s)"
    "ensures (drive_faults b) (\<lambda>(v, s'). drive_sound b s') (cd_read32 a s)"
proof -
  have half: "ensures (drive_faults b) (\<lambda>(v, s'). drive_sound b s') (cd_read16 a s)" if "drive_sound b s" for s :: "('h, 'm) psx_cd_scheme"
    unfolding cd_read16_def by (rule ensures_bind[OF cd_read8_ok[OF that]]) (auto intro!: ensures_bind[OF cd_read8_ok])
  then show "ensures (drive_faults b) (\<lambda>(v, s'). drive_sound b s') (cd_read16 a s)" using assms .
  show "ensures (drive_faults b) (\<lambda>(v, s'). drive_sound b s') (cd_read32 a s)"
    unfolding cd_read32_def by (rule ensures_bind[OF half[OF assms]]) (auto intro!: ensures_bind[OF half])
qed

lemma volume_ok [simp]:
  "drive_sound b (upd_drive (\<lambda>d. d\<lparr>m_shadow_volume := g (m_shadow_volume d)\<rparr>) s) \<longleftrightarrow> drive_sound b s"
  "drive_sound b (upd_drive (\<lambda>d. d\<lparr>m_sound_coding := w\<rparr>) s) \<longleftrightarrow> drive_sound b s"
  "drive_sound b (upd_drive (\<lambda>d. d\<lparr>m_new_cmd := w, m_has_next_cmd := v\<rparr>) s) \<longleftrightarrow> drive_sound b s"
  "drive_sound b (upd_drive (\<lambda>d. d\<lparr>m_int_enable := g' d\<rparr>) s) \<longleftrightarrow> drive_sound b s"
  "drive_sound b (upd_drive (\<lambda>d. d\<lparr>m_want_data := v, m_soundmap_en := v'\<rparr>) s) \<longleftrightarrow> drive_sound b s"
  "drive_sound b (upd_drive (\<lambda>d. d\<lparr>m_int_flag := h d\<rparr>) s) \<longleftrightarrow> drive_sound b s"
  "drive_sound b (upd_drive (\<lambda>d. d\<lparr>m_mute_adpcm := v, m_volume := k d\<rparr>) s) \<longleftrightarrow> drive_sound b s"
  "drive_sound b (upd_drive (\<lambda>d. d\<lparr>m_index_reg := l d\<rparr>) s) \<longleftrightarrow> drive_sound b s"
  by (simp_all add: drive_sound_def position_ok_def drive_ok_def)

lemma write_reg1_ok: "drive_sound b s \<Longrightarrow> ensures (drive_faults b) (drive_sound b) (write_reg1 v s)"
  unfolding write_reg1_def Let_def
  by (intro ensures_cond ensures_bind[OF command_execute_ok]) (simp_all add: drive_faults_def)

lemma write_reg2_ok:
  assumes s: "drive_sound b s"
  shows "ensures F (drive_sound b) (write_reg2 v s)"
proof (cases "queue_full (m_param_fifo (m_drive s))")
  case True
  then show ?thesis using s by (simp add: write_reg2_def Let_def)
next
  case False
  let ?q = "m_param_fifo (m_drive s)"
  have ok: "queue_ok ?q" using s by (simp add: drive_sound_def drive_ok_def)
  have "length (queue_contents ?q) < length (arr ?q)" using False ok cq.bounded[OF ok] by (simp add: queue_full_iff)
  from queue_push_ok[OF ok this, of v] obtain q' where q': "queue_push v ?q = Inr q'" "queue_ok q'"
    "length (arr q') = length (arr ?q)" by blast
  have "drive_sound b (upd_drive (\<lambda>d. d\<lparr>m_param_fifo := q'\<rparr>) s)"
    by (rule sound_update[OF s]) (use q' in \<open>auto simp: drive_ok_def\<close>)
  then show ?thesis using s by (simp add: write_reg2_def Let_def q'(1))
qed

text \<open>
  What the transfer behind a data request may do to the drive is a property of the bus: its reads keep the drive
  sound, and fail with a fault of \<open>F\<close>.
\<close>

definition requests_keep :: "bool \<Rightarrow> fault set \<Rightarrow> ('h, ('h, 'm) psx_cd_scheme) dma_env \<Rightarrow> bool" where
  "requests_keep b F env \<longleftrightarrow> (\<forall>a s. ensures F (\<lambda>(v, s'). drive_sound b s \<longrightarrow> drive_sound b s')
     (bus_read (dma_bus env) W32 False False a s))"

lemma request_data_ok:
  assumes env: "requests_keep b F env" and s: "drive_sound b s"
  shows "ensures (insert DebugBreak F) (drive_sound b) (request_data env s)"
proof -
  have line: "request_line env (insert DebugBreak F) (\<lambda>s s'. drive_sound b s \<longrightarrow> drive_sound b s')"
    by unfold_locales (use env in \<open>auto simp: requests_keep_def upd_ctl_def drive_sound_def intro: ensures_insert\<close>)
  let ?t = "set_index_flag data_fifo_not_empty True
    (upd_drive (\<lambda>d. d\<lparr>m_has_data_to_load := False, m_has_loaded_data := True, m_curr_sector_pos := 0\<rparr>) s)"
  have t: "drive_sound b ?t" if "m_curr_sector_size (m_drive s) \<noteq> 0"
    using s that unfolding sound_flags by (simp add: drive_sound_def drive_ok_def position_ok_def)
  have "ensures (insert DebugBreak F) (drive_sound b) (dreq_rising_edge env 3 (set_dreq True 3 ?t))"
    if "m_curr_sector_size (m_drive s) \<noteq> 0"
    by (rule ensures_mono[OF request_line.request_with_line[OF line] order_refl]) (use t that in blast)
  then show ?thesis
    unfolding request_data_def Let_def by (intro ensures_cond) (use s in auto)
qed

lemma sound_unload [simp]:
  "drive_sound b s \<Longrightarrow> drive_sound b (upd_drive (\<lambda>d. d\<lparr>m_has_loaded_data := False, m_curr_sector_pos := 0\<rparr>) s)"
  "drive_sound b s \<Longrightarrow> drive_sound b (upd_drive (\<lambda>d. d\<lparr>m_param_fifo := queue_clear (m_param_fifo d)\<rparr>) s)"
  by (simp_all add: drive_sound_def drive_ok_def position_ok_def queue_clear_def queue_ok_def)

lemma write_reg3_ok:
  assumes env: "requests_keep b F env" and s: "drive_sound b s"
  shows "ensures (insert DebugBreak F) (drive_sound b) (write_reg3 env v s)"
proof -
  have ack: "ensures (insert DebugBreak F) (drive_sound b) (bindE (if c then interrupt_ackd t else Inr t) (\<lambda>s. Inr (upd_drive (\<lambda>d. d\<lparr>m_int_flag := h d\<rparr>) s)))"
    if "drive_sound b t" for c t h
    by (intro ensures_bind[OF ensures_cond[OF interrupt_ackd_ok[OF that]]]) (simp_all add: that)
  show ?thesis
    unfolding write_reg3_def Let_def
    by (intro ensures_cond ack request_data_ok[OF env]) (simp_all add: s volume_ok(1)[of b "\<lambda>w. w\<lparr>left_to_right := v\<rparr>"])
qed

lemma cd_write8_ok:
  assumes env: "requests_keep b F env" and s: "drive_sound b s"
  shows "ensures (drive_faults b \<union> F) (drive_sound b) (cd_write8 env a v s)"
proof -
  have "ensures (drive_faults b \<union> F) (drive_sound b) (write_reg3 env v s)"
    by (rule ensures_mono[OF write_reg3_ok[OF env s]]) (auto simp: drive_faults_def)
  moreover have "ensures (drive_faults b \<union> F) (drive_sound b) (write_reg1 v s)"
    by (rule ensures_mono[OF write_reg1_ok[OF s]]) auto
  ultimately show ?thesis
    unfolding cd_write8_def by (intro ensures_cond write_reg2_ok) (simp_all add: s)
qed

lemma cd_writes_ok:
  assumes env: "requests_keep b F env" and s: "drive_sound b s"
  shows "ensures (drive_faults b \<union> F) (drive_sound b) (cd_write16 env a w s)"
    "ensures (drive_faults b \<union> F) (drive_sound b) (cd_write32 env a w' s)"
proof -
  have half: "ensures (drive_faults b \<union> F) (drive_sound b) (cd_write16 env a w s)" if "drive_sound b s" for a w s
    unfolding cd_write16_def by (rule ensures_bind[OF cd_write8_ok[OF env that] cd_write8_ok[OF env]])
  then show "ensures (drive_faults b \<union> F) (drive_sound b) (cd_write16 env a w s)" using s .
  show "ensures (drive_faults b \<union> F) (drive_sound b) (cd_write32 env a w' s)"
    unfolding cd_write32_def by (rule ensures_bind[OF half[OF s] half])
qed

section \<open>Lid, disc and sectors\<close>

lemma lid_ok:
  assumes "drive_sound b s"
  shows "ensures F (drive_sound b) (open_lid s)" "drive_sound b (close_lid s)"
proof -
  have "drive_sound b (upd_drive (\<lambda>d. d\<lparr>m_lid_open := v, m_motor_on := v'\<rparr>) s)" for v v'
    using assms by (simp add: drive_sound_def drive_ok_def position_ok_def)
  then show "ensures F (drive_sound b) (open_lid s)" "drive_sound b (close_lid s)"
    by (simp_all add: open_lid_def close_lid_def one_response_ok)
qed

lemma insert_disc_ok:
  assumes "drive_sound b s"
  shows "ensures {Thrown, UndefinedBehaviour} (\<lambda>(ok, s'). drive_sound b s') (insert_disc fs path s)"
proof -
  have "ensures {Thrown, UndefinedBehaviour} (\<lambda>_. True) (cue_bin_init fs path)"
    unfolding cue_bin_init_def by (rule ensures_bind[OF read_cue_ensures]) auto
  then show ?thesis
    unfolding insert_disc_def using assms
    by (auto intro!: ensures_bind[of _ "\<lambda>_. True"] split: option.split simp: drive_sound_def drive_ok_def position_ok_def)
qed

lemma read_sector_length:
  "length buf = 2352 \<Longrightarrow> ensures {DebugBreak, UndefinedBehaviour, Thrown} (\<lambda>(b, c'). length b = 2352) (read_sector loc buf c)"
  by (auto simp: read_sector_def get_track_def get_file_size_def read_stream_def cd_sizes Let_def)

lemma load_sector_ok:
  assumes "drive_sound False s" "length b = 2352"
  shows "drive_sound False (upd_drive (load_sector b) s)"
proof -
  have "length (sector_data b) = 2048" using assms(2) by (simp add: sector_data_def cd_sizes)
  then show ?thesis
    by (cases "read_whole_sector (m_drive s)")
      (use assms in \<open>simp_all add: drive_sound_def drive_ok_def load_sector_def cd_sizes Let_def\<close>)
qed

lemma seek_ok [simp]: "drive_sound b (upd_drive advance_seek s) \<longleftrightarrow> drive_sound b s"
  by (simp add: drive_sound_def drive_ok_def position_ok_def advance_seek_def)

lemma deliver_sector_ok:
  assumes s: "drive_sound False s" and b: "length b = 2352"
  shows "ensures {UndefinedBehaviour} (drive_sound False) (deliver_sector t b s)"
proof -
  have sound: "ensures {UndefinedBehaviour} spu_ok (decode_store_xa_adpcm c x mute ll rr lr rl (m_spu s))" for c x mute ll rr lr rl
    by (rule decode_store_ok) (use s in \<open>simp add: drive_sound_def\<close>)
  have audio: "ensures {UndefinedBehaviour} (drive_sound False) (deliver_audio b s)"
    unfolding deliver_audio_def Let_def
    by (rule ensures_bind[OF sound]) (use s in \<open>simp add: drive_sound_def drive_ok_def advance_seek_def\<close>)
  have load: "ensures {UndefinedBehaviour} (drive_sound False) (if p then bindE (push_response i [x] t s) (\<lambda>s. Inr (upd_drive (load_sector b) s)) else Inr s)"
    for p i x t
    by (intro ensures_cond ensures_bind[OF one_response_ok[OF s]]) (simp_all add: s load_sector_ok b)
  have data: "ensures {UndefinedBehaviour} (drive_sound False) (deliver_data b s)"
    unfolding deliver_data_def Let_def by (intro ensures_cond ensures_bind[OF load]) (simp_all add: s)
  show ?thesis unfolding deliver_sector_def Let_def by (intro ensures_cond audio data) (simp_all add: s)
qed

lemma read_callback_ok:
  assumes s: "drive_sound False s"
  shows "ensures {DebugBreak, UndefinedBehaviour, Thrown} (drive_sound False) (read_callback s)"
proof -
  have disc: "drive_sound False (upd_drive (\<lambda>d. d\<lparr>m_cdrom := c\<rparr>) t) \<longleftrightarrow> drive_sound False t" for c and t :: "('h, 'm) psx_cd_scheme"
    by (simp add: drive_sound_def drive_ok_def)
  have track: "ensures {DebugBreak, UndefinedBehaviour, Thrown} (\<lambda>_. True) (get_track k c)" for k c
    by (simp add: get_track_def)
  have deliver: "ensures {DebugBreak, UndefinedBehaviour, Thrown} (drive_sound False) (deliver_sector t b u)"
    if "drive_sound False u" "length b = 2352" for t b and u :: "('h, 'm) psx_cd_scheme"
    by (rule ensures_mono[OF deliver_sector_ok[OF that]]) auto
  have sector: "ensures {DebugBreak, UndefinedBehaviour, Thrown} (\<lambda>(b, c'). length b = 2352) (read_sector loc empty_sector c)" for loc c
    by (rule read_sector_length) (simp add: empty_sector_def cd_sizes)
  show ?thesis
    unfolding read_callback_def Let_def
    by (auto split: option.split intro!: ensures_bind[OF track] ensures_bind[OF sector] ensures_bind[OF deliver] simp: disc s)
qed

section \<open>Any use of the drive\<close>

datatype drive_op = Cd_read width u32 | Cd_write width u32 u32 | Cd_interrupt | Cd_open | Cd_close
  | Cd_insert host_files string | Cd_sector

definition exec_drive ::
  "('h, ('h, 'm) psx_cd_scheme) dma_env \<Rightarrow> drive_op \<Rightarrow> ('h, 'm) psx_cd_scheme \<Rightarrow> ('h, 'm) psx_cd_scheme result" where
  "exec_drive env x s =
     (case x of
        Cd_read w a \<Rightarrow> (case w of W8 \<Rightarrow> bindE (cd_read8 a s) (\<lambda>(v, s). Inr s) | W16 \<Rightarrow> bindE (cd_read16 a s) (\<lambda>(v, s). Inr s)
                       | W32 \<Rightarrow> bindE (cd_read32 a s) (\<lambda>(v, s). Inr s))
      | Cd_write w a v \<Rightarrow> (case w of W8 \<Rightarrow> cd_write8 env a (ucast v) s | W16 \<Rightarrow> cd_write16 env a (ucast v) s | W32 \<Rightarrow> cd_write32 env a v s)
      | Cd_interrupt \<Rightarrow> deliver_interrupt s
      | Cd_open \<Rightarrow> open_lid s
      | Cd_close \<Rightarrow> Inr (close_lid s)
      | Cd_insert files path \<Rightarrow> bindE (insert_disc files path s) (\<lambda>(ok, s). Inr s)
      | Cd_sector \<Rightarrow> read_callback s)"

fun exec_drives ::
  "('h, ('h, 'm) psx_cd_scheme) dma_env \<Rightarrow> drive_op list \<Rightarrow> ('h, 'm) psx_cd_scheme \<Rightarrow> ('h, 'm) psx_cd_scheme result" where
  "exec_drives env [] s = Inr s"
| "exec_drives env (x # xs) s = bindE (exec_drive env x s) (exec_drives env xs)"

definition is_access :: "drive_op \<Rightarrow> bool" where
  "is_access x \<longleftrightarrow> (case x of Cd_insert files path \<Rightarrow> False | Cd_sector \<Rightarrow> False | _ \<Rightarrow> True)"

lemma access_ok:
  assumes env: "requests_keep b F env" and s: "drive_sound b s" and x: "is_access x"
  shows "ensures (drive_faults b \<union> F) (drive_sound b) (exec_drive env x s)"
proof -
  have read: "ensures (drive_faults b \<union> F) (drive_sound b) (bindE m (\<lambda>(v, s). Inr s))"
    if "ensures (drive_faults b) (\<lambda>(v, s'). drive_sound b s') m" for m :: "('v \<times> ('h, 'm) psx_cd_scheme) result"
    by (rule ensures_bind[OF ensures_mono[OF that]]) auto
  have event: "ensures (drive_faults b \<union> F) (drive_sound b) (deliver_interrupt s)"
    by (rule ensures_mono[OF deliver_interrupt_ok[OF s]]) auto
  show ?thesis
    using x event
    by (cases x) (auto simp: exec_drive_def is_access_def lid_ok s split: width.split
        intro: read[OF cd_read8_ok[OF s]] read[OF cd_reads_ok(1)[OF s]] read[OF cd_reads_ok(2)[OF s]]
          cd_write8_ok[OF env s] cd_writes_ok(1)[OF env s] cd_writes_ok(2)[OF env s])
qed


definition drive_with :: "cd_drive \<Rightarrow> unit psx_cd" where
  "drive_with d = psx_spu.extend (sound_with spu_new) (psx_cd.fields d)"

lemma drive_with_parts [simp]: "m_drive (drive_with d) = d" "m_spu (drive_with d) = spu_new"
  by (simp_all add: drive_with_def sound_with_def psx_gpu.defs psx_spu.defs psx_cd.defs)

lemma drive_new_sound: "drive_sound b (drive_with (drive_new r))"
  by (simp add: drive_sound_def drive_ok_def position_ok_def drive_new_def spu_new_ok queue_new_def queue_ok_def
      queue_contents_def empty_sector_def cd_sizes FIFO_SIZE_def)

lemma drive_with_fields: "m_events (drive_with d) = replicate MAX_EVENTS null_event" "m_num_events (drive_with d) = 0"
  "m_curr_timestamp (drive_with d) = 0"
  by (simp_all add: drive_with_def sound_with_def gpu_with_def mdec_with_def sio_with_def dma_with_def timers_with_def machine_with_def
      cpu.defs psx.defs psx_timers.defs psx_dma.defs psx_sio.defs psx_mdec.defs psx_gpu.defs psx_spu.defs psx_cd.defs cpu_init_def
      scheduler.defs init_scheduler_def)


section \<open>The data register\<close>

text \<open>Reads of the data register by the program, one byte each.\<close>

fun poll_data :: "nat \<Rightarrow> ('h, 'm) psx_cd_scheme \<Rightarrow> (u8 list \<times> ('h, 'm) psx_cd_scheme) result" where
  "poll_data 0 s = Inr ([], s)"
| "poll_data (Suc n) s =
     bindE (cd_read8 2 s) (\<lambda>(v, s). bindE (poll_data n s) (\<lambda>(vs, s). Inr (v # vs, s)))"

lemma poll_data_run:
  assumes "m_has_loaded_data (m_drive s)" "m_curr_sector_pos (m_drive s) + n \<le> length (m_curr_sector (m_drive s))"
    and "m_curr_sector_pos (m_drive s) + n < m_curr_sector_size (m_drive s) \<or> m_curr_sector_size (m_drive s) \<le> m_curr_sector_pos (m_drive s)"
  shows "poll_data n s = Inr (take n (drop (m_curr_sector_pos (m_drive s)) (m_curr_sector (m_drive s))),
    upd_drive (\<lambda>d. d\<lparr>m_curr_sector_pos := m_curr_sector_pos (m_drive s) + n\<rparr>) s)"
  using assms
proof (induction n arbitrary: s)
  case 0
  then show ?case by (simp add: upd_drive_def)
next
  case (Suc n)
  let ?p = "m_curr_sector_pos (m_drive s)"
  let ?t = "upd_drive (\<lambda>d. d\<lparr>m_curr_sector_pos := Suc ?p\<rparr>) s"
  have "Suc ?p \<noteq> m_curr_sector_size (m_drive s)" using Suc.prems(3) by auto
  then have r: "cd_read8 2 s = Inr (m_curr_sector (m_drive s) ! ?p, ?t)"
    using Suc.prems by (simp add: cd_read8_def read_reg2_def sector_byte_def Let_def)
  have "poll_data n ?t = Inr (take n (drop (Suc ?p) (m_curr_sector (m_drive s))),
    upd_drive (\<lambda>d. d\<lparr>m_curr_sector_pos := Suc ?p + n\<rparr>) ?t)"
    by (subst Suc.IH) (use Suc.prems in \<open>auto\<close>)
  moreover have "take (Suc n) (drop ?p (m_curr_sector (m_drive s))) = m_curr_sector (m_drive s) ! ?p # take n (drop (Suc ?p) (m_curr_sector (m_drive s)))"
    using Suc.prems(2) by (simp add: Cons_nth_drop_Suc[symmetric])
  ultimately show ?case by (simp add: r upd_drive_def)
qed

lemma poll_data_append:
  "poll_data (m + n) s = bindE (poll_data m s) (\<lambda>(xs, s). bindE (poll_data n s) (\<lambda>(ys, s). Inr (xs @ ys, s)))"
proof (induction m arbitrary: s)
  case 0
  show ?case by (cases "poll_data n s") auto
next
  case (Suc m)
  show ?case
    by (cases "cd_read8 2 s") (auto simp: Suc.IH bindE_assoc split_beta)
qed

lemma poll_data_all:
  assumes "m_has_loaded_data (m_drive s)" "m_curr_sector_pos (m_drive s) = 0" "m_curr_sector_size (m_drive s) = Suc m"
    and "Suc m \<le> length (m_curr_sector (m_drive s))"
  shows "\<exists>u. poll_data (Suc m) s = Inr (take (Suc m) (m_curr_sector (m_drive s)), u) \<and> \<not> m_has_loaded_data (m_drive u) \<and>
    m_curr_sector_pos (m_drive u) = 0 \<and> \<not> bit (m_index_reg (m_drive u)) data_fifo_not_empty"
proof -
  let ?t = "upd_drive (\<lambda>d. d\<lparr>m_curr_sector_pos := m\<rparr>) s"
  have front: "poll_data m s = Inr (take m (m_curr_sector (m_drive s)), ?t)"
    using poll_data_run[of s m] assms by simp
  have "cd_read8 2 ?t = Inr (m_curr_sector (m_drive s) ! m, set_index_flag data_fifo_not_empty False
      (upd_drive (\<lambda>d. d\<lparr>m_curr_sector_pos := 0, m_has_loaded_data := False\<rparr>) ?t))"
    using assms by (simp add: cd_read8_def read_reg2_def sector_byte_def Let_def)
  then have last: "poll_data (Suc 0) ?t = Inr ([m_curr_sector (m_drive s) ! m], set_index_flag data_fifo_not_empty False
      (upd_drive (\<lambda>d. d\<lparr>m_curr_sector_pos := 0, m_has_loaded_data := False\<rparr>) ?t))"
    by simp
  show ?thesis
    using poll_data_append[of m "Suc 0" s] assms(4)
    by (simp add: front last take_Suc_conv_app_nth set_index_flag_def field_bits del: poll_data.simps)
qed

lemma request_accepted:
  assumes "m_has_data_to_load (m_drive s)" "m_curr_sector_size (m_drive s) \<noteq> 0" "\<not> start_busy (m_control (channel 3 s))"
  shows "\<exists>t. request_data env s = Inr t \<and>
    m_drive t = (m_drive s)\<lparr>m_has_data_to_load := False, m_has_loaded_data := True, m_curr_sector_pos := 0,
      m_index_reg := put_flag data_fifo_not_empty True (m_index_reg (m_drive s))\<rparr>"
proof -
  let ?t = "set_dreq True 3 (set_index_flag data_fifo_not_empty True
    (upd_drive (\<lambda>d. d\<lparr>m_has_data_to_load := False, m_has_loaded_data := True, m_curr_sector_pos := 0\<rparr>) s))"
  have "m_control (channel 3 ?t) = m_control (channel 3 s)"
    by (cases "3 < length (m_channels (m_dma_controller s))")
      (simp_all add: set_dreq_def upd_channel_def upd_ctl_def channel_def set_index_flag_def upd_drive_def list_update_beyond)
  then have "request_data env s = Inr ?t"
    using assms by (simp add: request_data_def dreq_rising_edge_def Let_def)
  then show ?thesis by (simp add: set_index_flag_def)
qed

text \<open>
  C14. The data register delivers the sector: when a sector has been loaded and the program asks for its data, as many reads
  as the sector is long return its bytes in order, the 2340 behind the synchronisation in whole-sector mode and the 2048
  data bytes otherwise; then the register is empty again.
\<close>
theorem sector_data_arrives:
  fixes s :: "('h, 'm) psx_cd_scheme"
  assumes "length b = 2352" "length (m_curr_sector (m_drive s)) = 2352" "get_bits 0 2 (m_index_reg (m_drive s)) = 0"
    and "\<not> start_busy (m_control (channel 3 s))"
    and z: "z = (if read_whole_sector (m_drive s) then 2340 else 2048)"
  shows "\<exists>t u. cd_write8 env 3 0x80 (upd_drive (load_sector b) s) = Inr t \<and>
    poll_data z t = Inr (if read_whole_sector (m_drive s) then drop 12 b else take 2048 (drop 24 b), u) \<and>
    \<not> m_has_loaded_data (m_drive u) \<and> m_curr_sector_pos (m_drive u) = 0 \<and> \<not> bit (m_index_reg (m_drive u)) data_fifo_not_empty"
proof -
  let ?s = "upd_drive (\<lambda>d. d\<lparr>m_want_data := False, m_soundmap_en := False\<rparr>) (upd_drive (load_sector b) s)"
  have chan: "channel 3 (upd_drive f x) = channel 3 x" for f and x :: "('h, 'm) psx_cd_scheme"
    by (simp add: channel_def upd_drive_def)
  have size: "m_curr_sector_size (m_drive ?s) = z" "m_has_data_to_load (m_drive ?s)"
    by (simp_all add: load_sector_def Let_def z cd_sizes)
  define bs where "bs = (if read_whole_sector (m_drive s) then drop 12 b else take 2048 (drop 24 b))"
  have bs: "take z (m_curr_sector (m_drive ?s)) = bs" "length (m_curr_sector (m_drive ?s)) = 2352" "length bs = z"
    using assms(1,2) by (simp_all add: load_sector_def Let_def z cd_sizes sector_data_def bs_def)
  have "z \<noteq> 0" by (simp add: z)
  from request_accepted[of ?s env] size this assms(4) obtain t where
    t: "request_data env ?s = Inr t" and d: "m_drive t = (m_drive ?s)\<lparr>m_has_data_to_load := False, m_has_loaded_data := True, m_curr_sector_pos := 0,
      m_index_reg := put_flag data_fifo_not_empty True (m_index_reg (m_drive ?s))\<rparr>"
    by (auto simp: chan)
  have "reg_index (upd_drive (load_sector b) s) = 0"
    using assms(3) by (simp add: reg_index_def load_sector_def Let_def)
  moreover have "bit (0x80 :: u8) 7" "\<not> bit (0x80 :: u8) 5" by simp_all
  ultimately have w: "cd_write8 env 3 0x80 (upd_drive (load_sector b) s) = Inr t"
    using t by (simp add: cd_write8_def write_reg3_def Let_def)
  moreover obtain m where m: "z = Suc m" by (cases z) (simp_all add: z split: if_splits)
  moreover have "\<exists>u. poll_data (Suc m) t = Inr (take (Suc m) (m_curr_sector (m_drive t)), u) \<and> \<not> m_has_loaded_data (m_drive u) \<and>
    m_curr_sector_pos (m_drive u) = 0 \<and> \<not> bit (m_index_reg (m_drive u)) data_fifo_not_empty"
    by (rule poll_data_all) (use d size bs z m in auto)
  moreover have "take (Suc m) (m_curr_sector (m_drive t)) = bs" using d bs(1) m by simp
  ultimately show ?thesis unfolding bs_def by auto
qed

theorem sector_data_arrives_witness:
  "\<exists>t u. cd_write8 header_env 3 0x80 (upd_drive (load_sector (replicate 2352 7)) (drive_with (drive_new ''JAPAN''))) = Inr t \<and>
    poll_data 2048 t = Inr (replicate 2048 7, u)"
proof -
  have "\<not> start_busy (m_control (channel 3 (drive_with d)))" for d
    by (simp add: channel_def drive_with_def sound_with_def gpu_with_def mdec_with_def sio_with_def psx_cd.defs psx_spu.defs psx_gpu.defs
        psx_mdec.defs psx_sio.defs psx_dma.defs psx_timers.defs dma_with_def dma_init_def start_busy_def dma_channel_init_def)
  moreover have "m_index_reg (drive_new r) = 0x18" "get_bits 0 2 (0x18 :: u8) = 0" "\<not> read_whole_sector (drive_new r)"
    "length (m_curr_sector (drive_new r)) = 2352" for r
    by (simp_all add: drive_new_def get_bits_def mask_eq_exp_minus_1 read_whole_sector_def empty_sector_def cd_sizes)
  ultimately show ?thesis
    using sector_data_arrives[where b = "replicate 2352 7" and s = "drive_with (drive_new ''JAPAN'')" and env = header_env and z = 2048]
    by auto
qed

text \<open>
  A change of the sector size makes the data register leave the buffer. The program reads a whole sector, stops behind
  its first 2048 bytes and selects the data bytes only; the next sector shortens the sector but keeps the position, which
  never meets the end of the sector any more: after the last of the 2352 bytes of the buffer the read is outside it.
\<close>
theorem shorter_sector_overruns:
  fixes s :: "('h, 'm) psx_cd_scheme"
  assumes s: "drive_sound True s" "m_has_loaded_data (m_drive s)" and pos: "2048 \<le> m_curr_sector_pos (m_drive s)"
    and mode: "\<not> read_whole_sector (m_drive s)" "\<not> xa_filter_enable (m_drive s)"
    and free: "\<not> queue_full (m_response_fifo (m_drive s))" "\<not> m_has_pending_read (m_drive s)" "\<not> waiting_data_response (m_drive s)"
    and b: "length b = 2352"
  shows "\<exists>t. deliver_data b s = Inr t \<and> poll_data (2353 - m_curr_sector_pos (m_drive s)) t = Inl UndefinedBehaviour"
proof -
  let ?p = "m_curr_sector_pos (m_drive s)"
  have p: "?p < 2340" using s by (auto simp: drive_sound_def drive_ok_def position_ok_def)
  let ?r = "\<lparr>resp_bytes = [drive_stat s], curr_index = 0, resp_interrupt = INT1_DATA_RESPONSE, resp_delay = 100,
    resp_timestamp = m_curr_timestamp s\<rparr>"
  have ok: "queue_ok (m_response_fifo (m_drive s))" using responses_of(1)[OF s(1)] .
  have "length (queue_contents (m_response_fifo (m_drive s))) < length (arr (m_response_fifo (m_drive s)))"
    using free(1) ok cq.bounded[OF ok] by (simp add: queue_full_iff)
  from queue_push_ok[OF ok this, of ?r] obtain q' where q': "queue_push ?r (m_response_fifo (m_drive s)) = Inr q'" by blast
  obtain u where u: "push_response INT1_DATA_RESPONSE [drive_stat s] 100 s = Inr u" "m_has_loaded_data (m_drive u)"
    "m_curr_sector_pos (m_drive u) = ?p" "m_curr_sector (m_drive u) = m_curr_sector (m_drive s)" "\<not> read_whole_sector (m_drive u)"
    using free(1) s(2) mode(1) by (auto simp: push_response_def q' Let_def request_cd_interrupt_def read_whole_sector_def)
  let ?t = "upd_drive advance_seek (upd_drive (load_sector b) u)"
  have t: "deliver_data b s = Inr ?t" using free mode u(1) by (simp add: deliver_data_def)
  have len: "length (m_curr_sector (m_drive ?t)) = 2352"
    using s(1) b u(4,5) by (simp add: load_sector_def advance_seek_def Let_def sector_data_def cd_sizes drive_sound_def drive_ok_def)
  have d: "m_has_loaded_data (m_drive ?t)" "m_curr_sector_pos (m_drive ?t) = ?p" "m_curr_sector_size (m_drive ?t) = 2048"
    using u by (simp_all add: load_sector_def advance_seek_def Let_def cd_sizes)
  have "poll_data (2352 - ?p) ?t = Inr (take (2352 - ?p) (drop ?p (m_curr_sector (m_drive ?t))),
      upd_drive (\<lambda>d. d\<lparr>m_curr_sector_pos := 2352\<rparr>) ?t)"
    by (subst poll_data_run) (use d len p pos in auto)
  moreover have "poll_data (Suc 0) (upd_drive (\<lambda>d. d\<lparr>m_curr_sector_pos := 2352\<rparr>) ?t) = Inl UndefinedBehaviour"
    using d(1) len by (simp add: cd_read8_def read_reg2_def sector_byte_def Let_def)
  moreover have "2353 - ?p = (2352 - ?p) + Suc 0" using p by simp
  ultimately have "poll_data (2353 - ?p) ?t = Inl UndefinedBehaviour"
    using poll_data_append[of "2352 - ?p" "Suc 0" ?t] by simp
  then show ?thesis using t by blast
qed

definition half_read :: cd_drive where
  "half_read = (drive_new ''AMERICA'')\<lparr>m_has_loaded_data := True, m_curr_sector_size := 2340, m_curr_sector_pos := 2060\<rparr>"

theorem shorter_sector_overruns_witness:
  "\<exists>t. deliver_data empty_sector (drive_with half_read) = Inr t \<and> poll_data (2353 - 2060) t = Inl UndefinedBehaviour"
proof -
  have "drive_sound True (drive_with half_read)"
    using drive_new_sound[of True "''AMERICA''"] by (simp add: drive_sound_def drive_ok_def position_ok_def half_read_def)
  from shorter_sector_overruns[OF this, of empty_sector] show ?thesis
    by (simp add: half_read_def drive_new_def read_whole_sector_def xa_filter_enable_def queue_full_def queue_new_def FIFO_SIZE_def
        waiting_data_response_def queue_contents_def empty_sector_def cd_sizes)
qed

section \<open>Pauses\<close>

text \<open>The reads in the scheduler.\<close>

definition reads :: "('h, 'm) psx_cd_scheme \<Rightarrow> callback psx_event multiset" where
  "reads s = filter_mset (\<lambda>e. callback e = Some Cd_read_callback) (pending s)"

definition room :: "nat \<Rightarrow> ('h, 'm) psx_cd_scheme \<Rightarrow> bool" where
  "room n s \<longleftrightarrow> sched_inv s \<and> m_num_events s + n \<le> MAX_EVENTS"

lemma drive_with_room: "room 2 (drive_with d)" "room 8 (drive_with d)"
  by (simp_all add: room_def sched_inv_def live_def MAX_EVENTS_def drive_with_fields heap_from_def)

lemma live_upd_drive [simp]:
  "live (upd_drive f s) = live s" "pending (upd_drive f s) = pending s" "sched_inv (upd_drive f s) = sched_inv s"
  "m_num_events (upd_drive f s) = m_num_events s" "live (raise_interrupt n s) = live s" "pending (raise_interrupt n s) = pending s"
  "sched_inv (raise_interrupt n s) = sched_inv s" "m_num_events (raise_interrupt n s) = m_num_events s"
  "m_curr_timestamp (upd_drive f s) = m_curr_timestamp s" "m_curr_timestamp (raise_interrupt n s) = m_curr_timestamp s"
  by (simp_all add: live_def pending_def sched_inv_def upd_drive_def raise_interrupt_def)

lemma reads_of [simp]:
  "reads (upd_drive f s) = reads s" "room n (upd_drive f s) \<longleftrightarrow> room n s" "reads (raise_interrupt k s) = reads s"
  "room n (raise_interrupt k s) \<longleftrightarrow> room n s"
  by (simp_all add: reads_def room_def)

lemma flags_schedule [simp]:
  "reads (set_stat_flag i b s) = reads s" "room n (set_stat_flag i b s) = room n s" "reads (motor_status s) = reads s"
  "room n (motor_status s) = room n s"
  by (simp_all add: set_stat_flag_def motor_status_def)

lemma schedule_room:
  assumes "room (Suc n) s"
  shows "room n (snd (schedule t cb u s))" "reads (snd (schedule t cb u s)) =
    (if cb = Some Cd_read_callback then add_mset (new_event (m_curr_timestamp s + t) cb u s) (reads s) else reads s)"
  using assms schedule_pending[of s] by (auto simp: room_def reads_def schedule_def schedule_inv new_event_def)

lemma read_scheduled:
  assumes "room (Suc n) s"
  shows "room n (schedule_read t s)" "size (reads (schedule_read t s)) = Suc (size (reads s))"
  using schedule_room[OF assms, of t "Some Cd_read_callback" 0] by (simp_all add: schedule_read_def split_beta)

lemma new_event_drive [simp]: "new_event t cb u (upd_drive f s) = new_event t cb u s"
  by (simp add: new_event_def upd_drive_def)

lemma pending_cd_interrupt:
  "room 1 s \<Longrightarrow> pending (schedule_cd_interrupt c s) =
    add_mset (new_event (m_curr_timestamp s + c) (Some Cd_event_callback) 0 s) (pending s)"
  using schedule_pending[of s] by (simp add: schedule_cd_interrupt_def split_beta schedule_def room_def)

lemma push_response_room:
  assumes "room (Suc n) s" "push_response i args t s = Inr s'"
  shows "room n s' \<and> reads s' = reads s"
proof -
  have keep: "room n s" using assms(1) by (simp add: room_def)
  have req: "room n (request_cd_interrupt v u) = room n u" "reads (request_cd_interrupt v u) = reads u" for v u
    by (simp_all add: request_cd_interrupt_def Let_def)
  have sched: "room n (schedule_cd_interrupt t u)" "reads (schedule_cd_interrupt t u) = reads u" if "room (Suc n) u" for u t
    using schedule_room[OF that] by (simp_all add: schedule_cd_interrupt_def split_beta)
  show ?thesis
    using assms(2) keep sched[of "upd_drive f s" for f] assms(1)
    by (auto simp: push_response_def Let_def req bindE_Inr_iff split: if_splits)
qed

lemma deschedule_reads: "sched_inv s \<Longrightarrow> size (reads s) \<le> Suc (size (reads (snd (deschedule i s))))"
proof -
  assume inv: "sched_inv s"
  show ?thesis
  proof (cases "find_event i (live s) < m_num_events s")
    case True
    have "size (filter_mset P M) \<le> Suc (size (filter_mset P (M - {#x#})))" for P and M :: "callback psx_event multiset" and x
      by (cases "x \<in># M") (auto dest!: multi_member_split)
    then show ?thesis unfolding reads_def deschedule_pending[OF inv True] .
  next
    case False
    then show ?thesis using deschedule_missing[OF inv] deschedule_found[OF inv] by simp
  qed
qed

lemma start_reading_room:
  assumes "room (n + 2) s" "start_reading g s = Inr s'"
  shows "room n s' \<and> size (reads s') = Suc (size (reads s))"
proof -
  obtain t u v where u: "push_response INT3_FIRST_RESPONSE v GETSTAT_NORMAL t = Inr u" "s' = schedule_read (g (read_time_of (m_drive u))) u"
    "reads t = reads s" "room (n + 2) t"
    using assms by (auto simp: start_reading_def Let_def bindE_Inr_iff split: if_splits)
  then have "room (Suc n) u" "reads u = reads s" using push_response_room[of "Suc n" t] by auto
  then show ?thesis using read_scheduled[of n u] unfolding u(2) by simp
qed

lemma start_reading_runs:
  assumes "drive_sound b s"
  shows "\<exists>s'. start_reading g s = Inr s' \<and> drive_sound b s' \<and> \<not> m_read_paused (m_drive s') \<and> \<not> m_has_unprocessed_seek (m_drive s') \<and>
    (\<not> m_has_unprocessed_seek (m_drive s) \<longrightarrow> bit (m_drive_stat (m_drive s')) stat_reading)"
proof -
  have kept: "push_response i xs t u = Inr v \<Longrightarrow> m_read_paused (m_drive v) = m_read_paused (m_drive u) \<and>
      m_has_unprocessed_seek (m_drive v) = m_has_unprocessed_seek (m_drive u) \<and> m_drive_stat (m_drive v) = m_drive_stat (m_drive u)"
    for i xs t u v
    by (auto simp: push_response_def Let_def bindE_Inr_iff request_cd_interrupt_def split: if_splits)
  let ?u = "upd_drive take_seek (upd_drive (\<lambda>d. d\<lparr>m_read_paused := False\<rparr>) (motor_status s))"
  let ?t = "set_stat_flag (if m_has_unprocessed_seek (m_drive s) then stat_seeking else stat_reading) True ?u"
  have t: "drive_sound b ?t" using assms by simp
  have "ensures {} (drive_sound b) (push_response INT3_FIRST_RESPONSE [drive_stat ?t] GETSTAT_NORMAL ?t)"
    by (rule push_response_ok[OF t]) simp
  then obtain v where v: "push_response INT3_FIRST_RESPONSE [drive_stat ?t] GETSTAT_NORMAL ?t = Inr v" "drive_sound b v"
    by (cases "push_response INT3_FIRST_RESPONSE [drive_stat ?t] GETSTAT_NORMAL ?t") auto
  have "start_reading g s = Inr (schedule_read (g (read_time_of (m_drive v))) v)"
    using v(1) by (simp add: start_reading_def Let_def motor_status_def set_stat_flag_def upd_drive_def)
  then show ?thesis
    using kept[OF v(1)] v(2)
    by (auto simp: set_stat_flag_def take_seek_def motor_status_def field_bits stat_reading_def)
qed

text \<open>
  C17. A pause stops one of two reads. When \<open>ReadN\<close> is sent to a drive that reads already, a second chain of sector
  events starts and the identifier of the first one is lost: the \<open>Pause\<close> that follows reports a drive that does not read,
  but a sector event is still in the scheduler, and it will deliver sectors and set the status to reading again.
\<close>
theorem pause_leaves_a_read:
  assumes s: "drive_sound b s" "room 8 s"
  shows "\<exists>s'. bindE (command_read_n s) (\<lambda>s. bindE (command_read_n s) command_pause) = Inr s' \<and>
    m_read_paused (m_drive s') \<and> \<not> bit (m_drive_stat (m_drive s')) stat_reading \<and> m_read_event (m_drive s') = INVALID_EVENT \<and>
    (\<exists>e \<in># pending s'. callback e = Some Cd_read_callback)"
proof -
  obtain s1 where s1: "command_read_n s = Inr s1" "drive_sound b s1" "\<not> m_has_unprocessed_seek (m_drive s1)"
    using start_reading_runs[OF s(1)] unfolding command_read_n_def by blast
  obtain s2 where s2: "command_read_n s1 = Inr s2" "drive_sound b s2" "\<not> m_read_paused (m_drive s2)" "bit (m_drive_stat (m_drive s2)) stat_reading"
    using start_reading_runs[OF s1(2)] s1(3) unfolding command_read_n_def by blast
  have r1: "room 6 s1" "size (reads s1) = Suc (size (reads s))"
    using start_reading_room[of 6 s] s(2) s1(1) unfolding command_read_n_def by auto
  have r2: "room 4 s2" "size (reads s2) = Suc (size (reads s1))"
    using start_reading_room[of 4 s1] r1(1) s2(1) unfolding command_read_n_def by auto
  let ?t = "upd_drive (\<lambda>d. d\<lparr>m_read_paused := True\<rparr>) (motor_status s2)"
  let ?u = "set_stat_flag stat_reading False ?t"
  let ?v = "upd_drive (\<lambda>d. d\<lparr>m_read_event := INVALID_EVENT\<rparr>) (snd (deschedule (m_read_event (m_drive ?u)) ?u))"
  have u: "room 4 ?u" "reads ?u = reads s2" using r2 by simp_all
  then have n: "size (reads s2) \<le> Suc (size (reads ?v))" using deschedule_reads[of ?u] by (simp add: room_def)
  have v: "room 2 ?v"
    using u(1) deschedule_inv[of ?u] by (auto simp: room_def deschedule_def Let_def)
  have sv: "drive_sound b ?v" using s2(2) by simp
  have kept: "push_response i xs t x = Inr y \<Longrightarrow> m_read_paused (m_drive y) = m_read_paused (m_drive x) \<and>
      m_read_event (m_drive y) = m_read_event (m_drive x) \<and> m_drive_stat (m_drive y) = m_drive_stat (m_drive x)"
    for i xs t x y
    by (auto simp: push_response_def Let_def bindE_Inr_iff request_cd_interrupt_def split: if_splits)
  obtain a c d where p: "command_pause s2 = two_responses a c d ?v"
    using s2(3,4) by (auto simp: command_pause_def Let_def motor_status_def set_stat_flag_def field_bits stat_reading_def stat_motor_on_def)
  have "ensures {} (drive_sound b) (two_responses a c d ?v)" by (rule two_responses_ok[OF sv])
  then obtain w x where w: "push_response INT3_FIRST_RESPONSE [a] GETSTAT_NORMAL ?v = Inr w"
    "push_response INT2_SECOND_RESPONSE [c] d w = Inr x"
    unfolding two_responses_def by (cases "push_response INT3_FIRST_RESPONSE [a] GETSTAT_NORMAL ?v")
      (auto simp: ensures_def split: sum.splits)
  have "room 1 w \<and> reads w = reads ?v" using push_response_room[OF _ w(1), of 1] v by (simp add: numeral_2_eq_2)
  then have "reads x = reads ?v" using push_response_room[OF _ w(2), of 0] by simp
  moreover have "0 < size (reads ?v)" using n r1(2) r2(2) by simp
  ultimately have "reads x \<noteq> {#}" by auto
  then obtain e where "e \<in># reads x" by blast
  then have "e \<in># pending x" "callback e = Some Cd_read_callback" by (auto simp: reads_def)
  moreover have "command_pause s2 = Inr x" using p w by (simp add: two_responses_def)
  ultimately show ?thesis
    using s1(1) s2(1) kept[OF w(1)] kept[OF w(2)]
    by (auto simp: set_stat_flag_def field_bits)
qed

theorem pause_leaves_a_read_witness:
  "\<exists>s'. bindE (command_read_n (drive_with (drive_new ''AMERICA''))) (\<lambda>s. bindE (command_read_n s) command_pause) = Inr s' \<and>
    (\<exists>e \<in># pending s'. callback e = Some Cd_read_callback)"
proof -
  from pause_leaves_a_read[OF drive_new_sound drive_with_room(2)] show ?thesis by blast
qed

section \<open>Two responses\<close>

lemma timestamp_difference:
  assumes "now < (0x1000000000000000 :: u64)" "t < 0x1000000000000000" "d < 0x1000000000000000"
  shows "0 \<le> sint (now - (t + d)) \<longleftrightarrow> t + d \<le> now" "\<not> t + d \<le> now \<Longrightarrow> word_of_int \<bar>sint (now - (t + d))\<bar> = t + d - now"
proof -
  have n: "uint now < 2 ^ 60" "uint t < 2 ^ 60" "uint d < 2 ^ 60" using assms by (simp_all add: word_less_alt)
  then have sum: "uint (t + d) = uint t + uint d" by (simp add: uint_word_ariths)
  have "sint (now - (t + d)) = signed_take_bit 63 (uint now - (uint t + uint d))"
    using signed_of_int[where 'a = int and 'b = 64, of "uint now - (uint t + uint d)"] by simp
  also have "\<dots> = uint now - (uint t + uint d)"
  proof (rule signed_take_bit_int_eq_self)
    have z: "0 \<le> uint now" "0 \<le> uint t" "0 \<le> uint d" by simp_all
    have c: "(2 :: int) ^ 63 = 8 * 2 ^ 60" by simp
    show "- (2 ^ 63) \<le> uint now - (uint t + uint d)" unfolding c using n z by linarith
    show "uint now - (uint t + uint d) < 2 ^ 63" unfolding c using n z by linarith
  qed
  finally have diff: "sint (now - (t + d)) = uint now - (uint t + uint d)" .
  then show "0 \<le> sint (now - (t + d)) \<longleftrightarrow> t + d \<le> now" by (simp add: word_le_def sum)
  show "\<not> t + d \<le> now \<Longrightarrow> word_of_int \<bar>sint (now - (t + d))\<bar> = t + d - now"
    by (simp add: word_le_def sum diff abs_if)
qed



end
