(* ===== verification/Spec2Isabelle.thy ===== *)
theory Spec2Isabelle
  imports Scheduler CodeCache GteSpec CpuAlu Mapper SioSpec SystemSpec DriveSpec
begin

text \<open>
  Verification development for the core of a PlayStation emulator (\<open>src/psxemu\<close>, with the helpers of
  \<open>src/common\<close>). File names below are relative to \<open>src/psxemu/source/psxemu\<close> and
  \<open>src/psxemu/include/psxemu\<close>.

  \<^bold>\<open>The program.\<close> \<open>System\<close> owns a processor (\<open>MIPS1\<close>), a bus (\<open>SystemBus\<close>) with all devices, a scheduler and
  the kernel object. One step of \<open>System::InterpreterSingleStep\<close> makes one step of a DMA transfer or executes one
  instruction, lets the scheduler call the events that are due, and runs the callbacks the motion decoder's thread left.
  Instructions reach memory and devices through the bus; devices request transfers from the DMA controller, which goes
  through the bus again; devices raise interrupts in the shared \<open>system_status\<close> and put events into the scheduler.

  \<^bold>\<open>The state.\<close> The C++ objects point at each other through \<open>system_status\<close>. Here the whole machine is one extensible
  record, built in the order in which the parts need each other: \<open>scheduler\<close>, \<open>cpu\<close>, \<open>psx\<close> (bus registers and mapper),
  \<open>psx_timers\<close>, \<open>psx_dma\<close>, \<open>psx_sio\<close>, \<open>psx_mdec\<close>, \<open>psx_gpu\<close>, \<open>psx_spu\<close>, \<open>psx_cd\<close>, \<open>psx_system\<close>. A device's
  operation is a function on every record from its own layer upwards, so that a callback or a transfer can act on the
  machine that contains it. Every way to stop is a value of \<open>fault\<close> in the sum type \<open>result\<close>: the breaks of the source,
  its unreachable branches, thrown exceptions, accesses outside an array, and the fuel of the bounded loops. Integers keep
  their width (\<open>u8\<close> to \<open>u64\<close>), so they wrap as the code's do.

  \<^bold>\<open>Theories and sources.\<close>
  \<^item> \<open>PsxPrelude\<close>: faults, sequencing, bit fields and arrays (\<open>common/Macros.hpp\<close>, \<open>common/Errors.hpp\<close>);
    \<open>Containers\<close>: queue, stack and arena of \<open>common/\<close>; \<open>StdHeap\<close> and \<open>Scheduler\<close>: the library's binary heap and the
    event queue (\<open>Scheduler.cpp\<close>); \<open>CodeCache\<close>: the cache of translated blocks in the arena (\<open>CodeCache.cpp\<close>).
  \<^item> \<open>Cop0\<close>, \<open>Gte\<close>, \<open>Decode\<close>, \<open>CpuState\<close>, \<open>Handlers\<close>, \<open>Cpu\<close>: the processor (\<open>cop0.cpp\<close>, \<open>GTE.cpp\<close>, \<open>GTEOpcodes.cpp\<close>,
    \<open>cpu_instruction.hpp\<close>, \<open>InstructionHandlers.hpp\<close>, \<open>Interpreter.cpp\<close>, \<open>MIPS1.cpp\<close>).
  \<^item> \<open>Mapper\<close>, \<open>Bus\<close>, \<open>BusIO\<close>: the address space allocator, the memory map and the accesses (\<open>MemoryMapper.cpp\<close>,
    \<open>SystemBus.hpp\<close>, \<open>SystemBus.cpp\<close>, \<open>MemoryControl.cpp\<close>); \<open>Machine\<close>: the processor on the bus.
  \<^item> \<open>RootCounters\<close>, \<open>Dma\<close>, \<open>Sio\<close> with \<open>Pad\<close> and \<open>Memcard\<close>, \<open>Mdec\<close>, \<open>Gpu\<close>, \<open>Adpcm\<close> and \<open>Spu\<close>: the devices, each
    after the files of its name.
  \<^item> \<open>Cd\<close>: disc addresses, cue sheets and images (\<open>CdLocation.hpp\<close>, \<open>CueSheet.cpp\<close>, \<open>CueBin.cpp\<close>); \<open>Drive\<close>: the drive
    (\<open>CDDrive.cpp\<close>, \<open>DriveCommands.cpp\<close>, \<open>TestCommands.cpp\<close>).
  \<^item> \<open>Kernel\<close>, \<open>System\<close>, \<open>PowerOn\<close>: the hooks on BIOS calls, the step and the run loops, construction and configuration
    (\<open>KernelHle.cpp\<close>, \<open>System.cpp\<close>, \<open>SystemConf.hpp\<close>).

  \<^bold>\<open>Interfaces.\<close> Where a part relies on another the contract is a locale, with an interpretation on the model's
  definitions: \<open>bounded_fifo\<close> (the queues), \<open>pool_allocator\<close> (the arena), \<open>timed_queue\<close> (the heap behind the scheduler),
  \<open>cpu_memory\<close> and \<open>cpu_machine\<close> (what the processor needs of its memory), \<open>io_devices\<close> and \<open>psx_machine\<close> (what the bus needs
  of the devices), \<open>request_line\<close> with \<open>dma_requests\<close> and \<open>sound_requests\<close> (what a device needs of a transfer), and
  \<open>device_frame\<close>, \<open>unit_frame\<close>, \<open>machine_frame\<close> (what the devices leave alone). The interpretations on the complete
  machine are in \<open>SystemSpec\<close>.

  \<^bold>\<open>What is shown.\<close>
  \<^item> \<open>Scheduler\<close>, \<open>Containers\<close>, \<open>Mapper\<close>: representation invariants, refinement of lists, multisets and partitions, and
    that the clock calls the due events in order and returns; \<open>CodeCache\<close>: its operations are those of lists of blocks.
  \<^item> \<open>GteSpec\<close>, \<open>CpuAlu\<close>, \<open>CpuSpec\<close>, \<open>Machine\<close>: arithmetic over the integers, the frame and the bounds of the geometry
    unit, delay slots, and the types of the processor's state.
  \<^item> \<open>CounterSpec\<close>, \<open>DmaSpec\<close>, \<open>SioSpec\<close>, \<open>PadSpec\<close>, \<open>MemcardSpec\<close>, \<open>MdecSpec\<close>, \<open>GpuSpec\<close>, \<open>GpuDraw\<close>, \<open>SpuSpec\<close>: for every
    device that its buffers and tables are never left, the functional behaviour of its main operation, the equivalence of
    its optimised forms with the plain ones, and round trips through it.
  \<^item> \<open>CdSpec\<close>, \<open>DriveSpec\<close>: addresses and cue sheets read back, sectors come from the file and the place their track says,
    responses keep their order and their times; and the two ways in which the drive does not keep its promises.
  \<^item> \<open>SystemSpec\<close>: the contracts of all the locales hold of the machine, and no step of it makes the processor ill formed.

  \<^bold>\<open>Bounds and fuel.\<close> The loops of the source that need a bound take it as an argument and return \<open>OutOfFuel\<close> without
  it. The scheduler's loop ends when callbacks schedule behind the target time (\<open>advance_returns\<close>); a cue sheet is read
  with the number of its lines, which is always enough (\<open>read_cue_ends\<close>); a walk through the code cache with one step
  more than its arena has nodes; the frames of the call stack and the decoder's
  loop are bounded by their length; the run loops of \<open>System\<close> take the number of rounds, and \<open>LoadExe\<close> may wait for ever.
  The bus and the devices call each other: \<open>devices n\<close> cuts this recursion at depth \<open>n\<close>, and the machine uses \<open>DEPTH = 2\<close>.
  That is enough: a transfer that a device starts reads its header below \<open>0x1000000\<close>, where no device is
  (\<open>requests_reach_no_device\<close>), and the words of a transfer go to a port, which may make one more request.

  \<^bold>\<open>Parameters.\<close> The operating system under the mapper (\<open>host_os\<close>), the host's renderer (\<open>renderer\<close>), the host's files
  (\<open>host_files\<close>, \<open>host_env\<close>), the code memory of the code cache and the names of the BIOS calls are arguments. The audio device is the list of the blocks it is
  given. The decoder's thread is a step relation.

  \<^bold>\<open>Not modelled.\<close> The renderer, the audio back end, the windows and the debugger's views (OpenGL, SDL, floating point: no
  state of the machine); the debug server and the log (sockets and text); the recording of commands and drive history, which
  only the debugger reads; \<open>Kernel.cpp\<close> beyond the hooks, \<open>KernelPatches.cpp\<close>, \<open>KernelExe.cpp\<close>, the file systems
  (\<open>CDFilesystem.cpp\<close>, \<open>MCFilesystem.cpp\<close>, \<open>HLEFilesystem.cpp\<close>), \<open>SystemCnf.cpp\<close> and \<open>psxexe.cpp\<close>, which inspect memory and
  files for the debugger and the loader. The recompiler that would fill the code cache is not in the repository. Signed
  overflow that C++ leaves undefined wraps in the model. Where the source leaves an order of evaluation open, operands are
  taken from left to right.
\<close>

end
